(* ===== verification/AI_Types.thy ===== *)
theory AI_Types
  imports Complex_Main Go_Prelude
begin

text \<open>
  The data exchanged with an AI provider (\<open>internal/ai/provider.go\<close>). A finite \<open>float64\<close> is the
  rational number it denotes; the code only compares the confidences that occur here. A nil
  pointer is \<open>None\<close>; nil and empty slices are both \<open>[]\<close>, which no code below tells apart.
\<close>

type_synonym f64 = rat

record IssueContext =
  ic_Type :: string
  ic_Severity :: string
  ic_Resource :: string
  ic_Namespace :: string
  ic_Message :: string
  ic_StaticSuggestion :: string
  ic_Events :: "string list"
  ic_Logs :: "string list"

record ClusterContext =
  cl_KubernetesVersion :: string
  cl_Provider :: string
  cl_FluxVersion :: string
  cl_Namespaces :: "string list"

record CausalGroupSummary =
  cgs_Rule :: string
  cgs_Title :: string
  cgs_RootCause :: string
  cgs_Severity :: string
  cgs_Confidence :: f64
  cgs_Resources :: "string list"

record CausalAnalysisContext =
  cac_Groups :: "CausalGroupSummary list"
  cac_UncorrelatedCount :: int
  cac_TotalIssues :: int

record AnalysisRequest =
  ar_Issues :: "IssueContext list"
  ar_ClusterContext :: ClusterContext
  ar_CausalContext :: "CausalAnalysisContext option"
  ar_MaxTokens :: int
  ar_ExplainMode :: bool
  ar_ExplainContext :: string

record EnhancedSuggestion =
  es_Suggestion :: string
  es_RootCause :: string
  es_Steps :: "string list"
  es_References :: "string list"
  es_Confidence :: f64

record CausalGroupInsight =
  cgi_GroupID :: string
  cgi_AIRootCause :: string
  cgi_AISuggestion :: string
  cgi_AISteps :: "string list"
  cgi_Confidence :: f64

record AnalysisResponse =
  rs_EnhancedSuggestions :: "string \<rightharpoonup> EnhancedSuggestion"
  rs_CausalInsights :: "CausalGroupInsight list"
  rs_Summary :: string
  rs_RawContent :: string
  rs_TokensUsed :: int
  rs_Truncated :: bool
  rs_ParseFailed :: bool

text \<open>The key under which a provider answers for the issue at an index.\<close>

definition issue_key :: "nat \<Rightarrow> string" where
  "issue_key i = ''issue_'' @ itoa (int i)"

end
