(* ===== verification/Response_Cache.thy ===== *)
theory Response_Cache
  imports AI_Types
begin

text \<open>
  The response cache of \<open>internal/ai/cache.go\<close>: a hash map from keys to elements of a doubly
  linked list (\<open>container/list\<close>) in order of use. The model keeps the two structures and the
  pointers between them: \<open>cc_items\<close> maps a key to an element's address, \<open>cc_order\<close> is the list
  of addresses from the front, \<open>cc_heap\<close> holds the entries. The refinement to an LRU list of
  entries, and the contract of a response cache (locale \<open>response_cache\<close>), follow.
\<close>

section \<open>The contract of a response cache\<close>

datatype ('k, 'v) cache_call = CGet time 'k | CPut time 'k 'v | CClear

locale response_cache =
  fixes get :: "time \<Rightarrow> 'k \<Rightarrow> 'c \<Rightarrow> 'v option \<times> 'c"
    and put :: "time \<Rightarrow> 'k \<Rightarrow> 'v \<Rightarrow> 'c \<Rightarrow> 'c"
    and clear :: "'c \<Rightarrow> 'c"
    and entry :: "'c \<Rightarrow> 'k \<Rightarrow> ('v \<times> time) option"
    and ttl :: "'c \<Rightarrow> duration"
    and ok :: "'c \<Rightarrow> bool"
  assumes get_result: "ok c \<Longrightarrow> fst (get now k c) =
      (case entry c k of None \<Rightarrow> None | Some (v, t) \<Rightarrow> if time_sub now t > ttl c then None else Some v)"
    and get_entry: "ok c \<Longrightarrow> entry (snd (get now k c)) k' = entry c k' \<or> entry (snd (get now k c)) k' = None"
    and put_same: "ok c \<Longrightarrow> entry (put now k v c) k = Some (v, now) \<or> put now k v c = c \<and> entry c k = None"
    and put_other: "ok c \<Longrightarrow> k' \<noteq> k \<Longrightarrow>
      entry (put now k v c) k' = entry c k' \<or> entry (put now k v c) k' = None"
    and clear_entry: "ok c \<Longrightarrow> entry (clear c) k = None"
    and ok_get: "ok c \<Longrightarrow> ok (snd (get now k c)) \<and> ttl (snd (get now k c)) = ttl c"
    and ok_put: "ok c \<Longrightarrow> ok (put now k v c) \<and> ttl (put now k v c) = ttl c"
    and ok_clear: "ok c \<Longrightarrow> ok (clear c) \<and> ttl (clear c) = ttl c"
begin

primrec call :: "('k, 'v) cache_call \<Rightarrow> 'c \<Rightarrow> 'c" where
  "call (CGet now k) c = snd (get now k c)"
| "call (CPut now k v) c = put now k v c"
| "call CClear c = clear c"

text \<open>What was last put under a key since the last clear.\<close>

primrec last_put :: "'k \<Rightarrow> ('k, 'v) cache_call \<Rightarrow> ('v \<times> time) option \<Rightarrow> ('v \<times> time) option" where
  "last_put k (CGet now k') p = p"
| "last_put k (CPut now k' v) p = (if k' = k then Some (v, now) else p)"
| "last_put k CClear p = None"

lemma call_ok: "ok c \<Longrightarrow> ok (call a c) \<and> ttl (call a c) = ttl c"
  by (cases a) (auto simp: ok_get ok_put ok_clear)

lemma call_entry:
  assumes "ok c" "entry c k = None \<or> entry c k = p"
  shows "entry (call a c) k = None \<or> entry (call a c) k = last_put k a p"
proof (cases a)
  case (CGet now k')
  then show ?thesis using get_entry [OF assms(1), of now k' k] assms(2) by auto
next
  case (CPut now k' v)
  then show ?thesis using put_same [OF assms(1), of now k' v] put_other [OF assms(1), of k k' now v] assms
    by auto
next
  case CClear
  then show ?thesis using clear_entry assms by simp
qed

lemma run_entry:
  assumes "ok c" "entry c k = None \<or> entry c k = p"
  shows "ok (fold call as c) \<and> ttl (fold call as c) = ttl c \<and>
    (entry (fold call as c) k = None \<or> entry (fold call as c) k = fold (last_put k) as p)"
  using assms
proof (induction as arbitrary: c p)
  case (Cons a as)
  have "ok (call a c)" "ttl (call a c) = ttl c" using call_ok Cons.prems(1) by auto
  with Cons.IH [OF _ call_entry [OF Cons.prems, of a]] show ?case by simp
qed simp

text \<open>A hit is the latest response put under the key, and it is not older than the TTL.\<close>

lemma hit_is_latest:
  assumes "ok c" "\<forall>k. entry c k = None" "fst (get now k (fold call as c)) = Some v"
  shows "\<exists>t. fold (last_put k) as None = Some (v, t) \<and> time_sub now t \<le> ttl c"
proof -
  have run: "ok (fold call as c)" "ttl (fold call as c) = ttl c"
    "entry (fold call as c) k = None \<or> entry (fold call as c) k = fold (last_put k) as None"
    using run_entry [OF assms(1), of k None as] assms(2) by auto
  from assms(3) get_result [OF run(1), of now k] run(2)
  obtain t where "entry (fold call as c) k = Some (v, t)" "time_sub now t \<le> ttl c"
    by (fastforce split: option.splits if_splits)
  moreover from this run(3) have "fold (last_put k) as None = Some (v, t)" by simp
  ultimately show ?thesis by blast
qed

end

section \<open>State and operations\<close>

record cacheEntry =
  ce_key :: string
  ce_response :: AnalysisResponse
  ce_createdAt :: time

record Cache =
  cc_capacity :: int
  cc_ttl :: duration
  cc_items :: "string \<rightharpoonup> nat"
  cc_order :: "nat list"
  cc_heap :: "nat \<rightharpoonup> cacheEntry"
  cc_next :: nat
  cc_enabled :: bool

definition NewCache :: "int \<Rightarrow> duration \<Rightarrow> bool \<Rightarrow> Cache" where
  "NewCache capacity ttl enabled =
     (if \<not> enabled \<or> capacity \<le> 0
      then \<lparr>cc_capacity = 0, cc_ttl = 0, cc_items = Map.empty, cc_order = [], cc_heap = Map.empty,
            cc_next = 0, cc_enabled = False\<rparr>
      else \<lparr>cc_capacity = capacity, cc_ttl = ttl, cc_items = Map.empty, cc_order = [],
            cc_heap = Map.empty, cc_next = 0, cc_enabled = enabled\<rparr>)"

text \<open>
  The keyed part of \<open>Get\<close> and \<open>Put\<close>, after the key is computed. An element address without
  an entry would be a nil dereference; the invariant excludes it.
\<close>

definition get_key :: "time \<Rightarrow> string \<Rightarrow> Cache \<Rightarrow> AnalysisResponse option \<times> Cache" where
  "get_key now key c =
     (case cc_items c key of
        None \<Rightarrow> (None, c)
      | Some elem \<Rightarrow>
          (case cc_heap c elem of
             None \<Rightarrow> (None, c)
           | Some entry \<Rightarrow>
               if time_sub now (ce_createdAt entry) > cc_ttl c
               then (None, c\<lparr>cc_order := remove1 elem (cc_order c),
                             cc_items := (cc_items c)(key := None)\<rparr>)
               else (Some (ce_response entry),
                     c\<lparr>cc_order := elem # remove1 elem (cc_order c)\<rparr>)))"

definition evict_back :: "Cache \<Rightarrow> Cache" where
  "evict_back c =
     (if int (length (cc_order c)) \<ge> cc_capacity c \<and> cc_order c \<noteq> []
      then let oldest = last (cc_order c) in
        (case cc_heap c oldest of
           None \<Rightarrow> c
         | Some entry \<Rightarrow> c\<lparr>cc_order := remove1 oldest (cc_order c),
             cc_items := (cc_items c)(ce_key entry := None)\<rparr>)
      else c)"

definition put_key :: "time \<Rightarrow> string \<Rightarrow> AnalysisResponse \<Rightarrow> Cache \<Rightarrow> Cache" where
  "put_key now key response c =
     (case cc_items c key of
        Some elem \<Rightarrow>
          c\<lparr>cc_order := elem # remove1 elem (cc_order c),
            cc_heap := (cc_heap c)(elem := map_option
              (\<lambda>e. e\<lparr>ce_response := response, ce_createdAt := now\<rparr>) (cc_heap c elem))\<rparr>
      | None \<Rightarrow>
          let c1 = evict_back c; elem = cc_next c1 in
          c1\<lparr>cc_heap := (cc_heap c1)(elem \<mapsto>
               \<lparr>ce_key = key, ce_response = response, ce_createdAt = now\<rparr>),
             cc_order := elem # cc_order c1,
             cc_items := (cc_items c1)(key \<mapsto> elem),
             cc_next := Suc elem\<rparr>)"

definition extractProviderModel :: "string list \<Rightarrow> string \<times> string" where
  "extractProviderModel args =
     ((case args of [] \<Rightarrow> [] | p # _ \<Rightarrow> p), (case args of _ # m # _ \<Rightarrow> m | _ \<Rightarrow> []))"

definition normalizeRequestForKey :: "AnalysisRequest \<Rightarrow> AnalysisRequest" where
  "normalizeRequestForKey request =
     (let n1 = (if \<not> ar_ExplainMode request then request\<lparr>ar_ExplainContext := []\<rparr> else request);
          n2 = (case ar_CausalContext n1 of
                  Some cc \<Rightarrow> if cac_Groups cc = [] then n1\<lparr>ar_CausalContext := None\<rparr> else n1
                | None \<Rightarrow> n1)
      in n2\<lparr>ar_ClusterContext := (ar_ClusterContext n2)\<lparr>cl_Namespaces :=
           sort (cl_Namespaces (ar_ClusterContext n2))\<rparr>\<rparr>)"

text \<open>
  The key is a SHA-256 digest of the JSON text of provider, model and normalised request. The
  digest of the payload is the parameter \<open>digest\<close>; what the cache relies on is that it gives
  different payloads in use different keys.
\<close>

type_synonym payload_digest = "string \<Rightarrow> string \<Rightarrow> AnalysisRequest \<Rightarrow> string"

definition computeRequestKey ::
    "payload_digest \<Rightarrow> AnalysisRequest \<Rightarrow> string \<Rightarrow> string \<Rightarrow> string" where
  "computeRequestKey digest request provider model =
     digest provider model (normalizeRequestForKey request)"

definition Get :: "payload_digest \<Rightarrow> time \<Rightarrow> AnalysisRequest \<Rightarrow> string list \<Rightarrow> Cache option \<Rightarrow>
    AnalysisResponse option \<times> Cache option" where
  "Get digest now request providerModel co =
     (case co of
        None \<Rightarrow> (None, None)
      | Some c \<Rightarrow>
          if \<not> cc_enabled c then (None, Some c)
          else let (provider, model) = extractProviderModel providerModel;
                   key = computeRequestKey digest request provider model;
                   (r, c') = get_key now key c
               in (r, Some c'))"

definition Put :: "payload_digest \<Rightarrow> time \<Rightarrow> AnalysisRequest \<Rightarrow> AnalysisResponse option \<Rightarrow> string list \<Rightarrow>
    Cache option \<Rightarrow> Cache option" where
  "Put digest now request response providerModel co =
     (case (co, response) of
        (Some c, Some resp) \<Rightarrow>
          if \<not> cc_enabled c then Some c
          else let (provider, model) = extractProviderModel providerModel;
                   key = computeRequestKey digest request provider model
               in Some (put_key now key resp c)
      | _ \<Rightarrow> co)"

definition Clear :: "Cache option \<Rightarrow> Cache option" where
  "Clear co = map_option (\<lambda>c. if \<not> cc_enabled c then c
     else c\<lparr>cc_items := Map.empty, cc_order := []\<rparr>) co"

definition Size :: "Cache option \<Rightarrow> int" where
  "Size co = (case co of None \<Rightarrow> 0 | Some c \<Rightarrow> if \<not> cc_enabled c then 0 else int (length (cc_order c)))"

section \<open>Invariant\<close>

definition linked :: "Cache \<Rightarrow> nat \<Rightarrow> cacheEntry \<Rightarrow> bool" where
  "linked c i e \<longleftrightarrow> cc_heap c i = Some e \<and> cc_items c (ce_key e) = Some i"

definition cache_inv :: "Cache \<Rightarrow> bool" where
  "cache_inv c \<longleftrightarrow>
     0 < cc_capacity c \<and> int (length (cc_order c)) \<le> cc_capacity c \<and> distinct (cc_order c) \<and>
     (\<forall>i \<in> set (cc_order c). i < cc_next c \<and> (\<exists>e. linked c i e)) \<and>
     (\<forall>k i. cc_items c k = Some i \<longrightarrow> i \<in> set (cc_order c) \<and> (\<exists>e. linked c i e \<and> ce_key e = k))"

text \<open>The entries in order of use, most recent first: the abstract state.\<close>

definition entries :: "Cache \<Rightarrow> cacheEntry list" where
  "entries c = map (\<lambda>i. the (cc_heap c i)) (cc_order c)"

text \<open>The abstract LRU operations on that list.\<close>

definition lru_find :: "string \<Rightarrow> cacheEntry list \<Rightarrow> cacheEntry option" where
  "lru_find key es = find (\<lambda>e. ce_key e = key) es"

definition lru_remove :: "string \<Rightarrow> cacheEntry list \<Rightarrow> cacheEntry list" where
  "lru_remove key es = filter (\<lambda>e. ce_key e \<noteq> key) es"

definition lru_get :: "duration \<Rightarrow> time \<Rightarrow> string \<Rightarrow> cacheEntry list \<Rightarrow>
    AnalysisResponse option \<times> cacheEntry list" where
  "lru_get ttl now key es =
     (case lru_find key es of
        None \<Rightarrow> (None, es)
      | Some e \<Rightarrow> if time_sub now (ce_createdAt e) > ttl then (None, lru_remove key es)
                  else (Some (ce_response e), e # lru_remove key es))"

definition lru_put :: "int \<Rightarrow> time \<Rightarrow> string \<Rightarrow> AnalysisResponse \<Rightarrow> cacheEntry list \<Rightarrow> cacheEntry list" where
  "lru_put capacity now key response es =
     \<lparr>ce_key = key, ce_response = response, ce_createdAt = now\<rparr> #
     (if lru_find key es \<noteq> None then lru_remove key es
      else if int (length es) \<ge> capacity then butlast es else es)"

section \<open>Refinement\<close>

lemma cache_inv_key_unique:
  assumes "cache_inv c" "i \<in> set (cc_order c)" "j \<in> set (cc_order c)"
    "ce_key (the (cc_heap c i)) = ce_key (the (cc_heap c j))"
  shows "i = j"
proof -
  obtain e f where "linked c i e" "linked c j f"
    using assms unfolding cache_inv_def by blast
  with assms(4) show ?thesis by (auto simp: linked_def)
qed

lemma cache_inv_items:
  assumes "cache_inv c"
  shows "cc_items c k = Some i \<longleftrightarrow> i \<in> set (cc_order c) \<and> ce_key (the (cc_heap c i)) = k"
proof
  assume "cc_items c k = Some i"
  then obtain e where "i \<in> set (cc_order c)" "linked c i e" "ce_key e = k"
    using assms unfolding cache_inv_def by blast
  then show "i \<in> set (cc_order c) \<and> ce_key (the (cc_heap c i)) = k" by (simp add: linked_def)
next
  assume i: "i \<in> set (cc_order c) \<and> ce_key (the (cc_heap c i)) = k"
  then obtain e where "linked c i e" using assms unfolding cache_inv_def by blast
  with i show "cc_items c k = Some i" by (auto simp: linked_def)
qed

lemma cache_inv_heap:
  assumes "cache_inv c" "i \<in> set (cc_order c)"
  shows "\<exists>e. cc_heap c i = Some e"
  using assms unfolding cache_inv_def linked_def by blast

lemma find_map_order:
  assumes "\<forall>j \<in> set is. P (f j) \<longleftrightarrow> j = i"
  shows "find P (map f is) = (if i \<in> set is then Some (f i) else None)"
  using assms by (induction "is") auto

lemma filter_map_order:
  assumes "\<forall>j \<in> set is. P (f j) \<longleftrightarrow> j \<noteq> i" "distinct is"
  shows "filter P (map f is) = map f (remove1 i is)"
  using assms
proof (induction "is")
  case (Cons j js)
  then show ?case by (cases "j = i") (auto simp: remove1_idem)
qed simp

lemma entries_lookup:
  assumes "cache_inv c" "cc_items c k = Some i"
  shows "lru_find k (entries c) = cc_heap c i"
    and "lru_remove k (entries c) = map (\<lambda>i. the (cc_heap c i)) (remove1 i (cc_order c))"
proof -
  have i: "i \<in> set (cc_order c)" "ce_key (the (cc_heap c i)) = k"
    using cache_inv_items [OF assms(1)] assms(2) by auto
  have uniq: "ce_key (the (cc_heap c j)) = k \<longleftrightarrow> j = i" if "j \<in> set (cc_order c)" for j
    using cache_inv_key_unique [OF assms(1) that i(1)] i(2) by auto
  obtain e where e: "cc_heap c i = Some e" using cache_inv_heap assms(1) i(1) by blast
  show "lru_find k (entries c) = cc_heap c i"
    unfolding lru_find_def entries_def
    using find_map_order [of "cc_order c" "\<lambda>e. ce_key e = k" "\<lambda>i. the (cc_heap c i)" i] uniq i(1) e
    by simp
  have "distinct (cc_order c)" using assms(1) by (simp add: cache_inv_def)
  then show "lru_remove k (entries c) = map (\<lambda>i. the (cc_heap c i)) (remove1 i (cc_order c))"
    unfolding lru_remove_def entries_def
    using filter_map_order [of "cc_order c" "\<lambda>e. ce_key e \<noteq> k" "\<lambda>i. the (cc_heap c i)" i] uniq by simp
qed

lemma entries_lookup_None:
  assumes "cache_inv c" "cc_items c k = None"
  shows "lru_find k (entries c) = None"
proof -
  have "ce_key (the (cc_heap c i)) \<noteq> k" if "i \<in> set (cc_order c)" for i
    using cache_inv_items [OF assms(1), of k i] assms(2) that by auto
  then show ?thesis by (auto simp: lru_find_def entries_def find_None_iff)
qed

lemma get_key_refines:
  assumes "cache_inv c"
  shows "fst (get_key now k c) = fst (lru_get (cc_ttl c) now k (entries c)) \<and>
    entries (snd (get_key now k c)) = snd (lru_get (cc_ttl c) now k (entries c))"
proof (cases "cc_items c k")
  case None
  then show ?thesis using entries_lookup_None [OF assms None] by (simp add: get_key_def lru_get_def)
next
  case (Some i)
  have "i \<in> set (cc_order c)" using cache_inv_items [OF assms] Some by auto
  then obtain e where "cc_heap c i = Some e" using cache_inv_heap assms by blast
  with Some entries_lookup [OF assms Some] show ?thesis
    by (auto simp: get_key_def lru_get_def entries_def)
qed

lemma map_heap_upd:
  "i \<notin> set is \<Longrightarrow> map (\<lambda>j. the ((h(i := x)) j)) is = map (\<lambda>j. the (h j)) is"
  by (induction "is") auto

lemma remove1_last: "distinct xs \<Longrightarrow> xs \<noteq> [] \<Longrightarrow> remove1 (last xs) xs = butlast xs"
  by (induction xs) auto

lemma evict_back_facts:
  assumes "cache_inv c"
  shows "cc_order (evict_back c) =
      (if int (length (cc_order c)) \<ge> cc_capacity c then butlast (cc_order c) else cc_order c)"
    and "cc_heap (evict_back c) = cc_heap c" "cc_next (evict_back c) = cc_next c"
    and "cc_ttl (evict_back c) = cc_ttl c" "cc_capacity (evict_back c) = cc_capacity c"
    and "cc_enabled (evict_back c) = cc_enabled c"
    and "cc_items (evict_back c) =
      (if int (length (cc_order c)) \<ge> cc_capacity c
       then (cc_items c)(ce_key (the (cc_heap c (last (cc_order c)))) := None) else cc_items c)"
proof -
  have *: "cc_order c \<noteq> []" if "int (length (cc_order c)) \<ge> cc_capacity c"
    using assms that by (auto simp: cache_inv_def)
  then obtain e where e: "cc_order c \<noteq> [] \<Longrightarrow> cc_heap c (last (cc_order c)) = Some e"
    using cache_inv_heap [OF assms, of "last (cc_order c)"] by force
  have "distinct (cc_order c)" using assms by (simp add: cache_inv_def)
  with * e show "cc_order (evict_back c) =
      (if int (length (cc_order c)) \<ge> cc_capacity c then butlast (cc_order c) else cc_order c)"
    "cc_heap (evict_back c) = cc_heap c" "cc_next (evict_back c) = cc_next c"
    "cc_ttl (evict_back c) = cc_ttl c" "cc_capacity (evict_back c) = cc_capacity c"
    "cc_enabled (evict_back c) = cc_enabled c"
    "cc_items (evict_back c) =
      (if int (length (cc_order c)) \<ge> cc_capacity c
       then (cc_items c)(ce_key (the (cc_heap c (last (cc_order c)))) := None) else cc_items c)"
    by (auto simp: evict_back_def Let_def remove1_last)
qed

lemma put_key_refines:
  assumes "cache_inv c"
  shows "entries (put_key now k r c) = lru_put (cc_capacity c) now k r (entries c)"
proof (cases "cc_items c k")
  case (Some i)
  have i: "i \<in> set (cc_order c)" "ce_key (the (cc_heap c i)) = k" "distinct (cc_order c)"
    using cache_inv_items [OF assms] Some assms by (auto simp: cache_inv_def)
  obtain e where e: "cc_heap c i = Some e" using cache_inv_heap assms i(1) by blast
  have "i \<notin> set (remove1 i (cc_order c))" using i(3) by simp
  with Some e i entries_lookup [OF assms Some] show ?thesis
    by (auto simp: put_key_def lru_put_def entries_def map_heap_upd)
next
  case None
  have fresh: "cc_next c \<notin> set (cc_order c)"
    using assms by (auto simp: cache_inv_def)
  then have "cc_next c \<notin> set (butlast (cc_order c))" by (auto dest: in_set_butlastD)
  with fresh None entries_lookup_None [OF assms None] show ?thesis
    by (simp add: put_key_def lru_put_def Let_def evict_back_facts [OF assms] entries_def
        map_heap_upd flip: map_butlast)
qed

section \<open>Preservation of the invariant\<close>

lemma cache_inv_iff:
  "cache_inv c \<longleftrightarrow>
     0 < cc_capacity c \<and> int (length (cc_order c)) \<le> cc_capacity c \<and> distinct (cc_order c) \<and>
     (\<forall>i \<in> set (cc_order c). i < cc_next c \<and> cc_heap c i \<noteq> None) \<and>
     (\<forall>k i. cc_items c k = Some i \<longleftrightarrow> i \<in> set (cc_order c) \<and> ce_key (the (cc_heap c i)) = k)"
  (is "?l \<longleftrightarrow> ?r")
proof
  assume ?l
  then show ?r
    using cache_inv_items [OF \<open>?l\<close>] cache_inv_heap [OF \<open>?l\<close>]
    by (simp add: cache_inv_def)
next
  assume r: ?r
  have "\<exists>e. linked c i e \<and> e = the (cc_heap c i)" if "i \<in> set (cc_order c)" for i
    using r that by (auto simp: linked_def)
  with r show ?l unfolding cache_inv_def by blast
qed

lemma cache_inv_unlink:
  assumes "cache_inv c" "i \<in> set (cc_order c)" "ce_key (the (cc_heap c i)) = k"
  shows "cache_inv (c\<lparr>cc_order := remove1 i (cc_order c), cc_items := (cc_items c)(k := None)\<rparr>)"
proof -
  have "ce_key (the (cc_heap c j)) = k \<longleftrightarrow> j = i" if "j \<in> set (cc_order c)" for j
    using cache_inv_key_unique [OF assms(1) that assms(2)] assms(3) by auto
  moreover have "set (remove1 i (cc_order c)) = set (cc_order c) - {i}"
    "distinct (remove1 i (cc_order c))" "length (remove1 i (cc_order c)) \<le> length (cc_order c)"
    using assms by (auto simp: cache_inv_def length_remove1)
  ultimately show ?thesis using assms unfolding cache_inv_iff by auto
qed

lemma cache_inv_move_front:
  assumes "cache_inv c" "i \<in> set (cc_order c)" "e = the (cc_heap c i)" "ce_key f = ce_key e"
  shows "cache_inv (c\<lparr>cc_order := i # remove1 i (cc_order c), cc_heap := (cc_heap c)(i \<mapsto> f)\<rparr>)"
proof -
  have "set (remove1 i (cc_order c)) = set (cc_order c) - {i}" "distinct (remove1 i (cc_order c))"
    "Suc (length (remove1 i (cc_order c))) = length (cc_order c)"
    using assms by (auto simp: cache_inv_def length_remove1 intro: Suc_pred length_pos_if_in_set)
  with assms show ?thesis unfolding cache_inv_iff by (auto simp: insert_absorb)
qed

lemma cache_inv_push:
  assumes "cache_inv c" "cc_items c k = None" "int (length (cc_order c)) < cc_capacity c"
  shows "cache_inv (c\<lparr>cc_heap := (cc_heap c)(cc_next c \<mapsto> \<lparr>ce_key = k, ce_response = r, ce_createdAt = t\<rparr>),
    cc_order := cc_next c # cc_order c, cc_items := (cc_items c)(k \<mapsto> cc_next c), cc_next := Suc (cc_next c)\<rparr>)"
proof -
  have fresh: "cc_next c \<notin> set (cc_order c)" using assms(1) by (auto simp: cache_inv_def)
  then have "i \<noteq> cc_next c" if "i \<in> set (cc_order c)" for i using that by blast
  moreover have "ce_key (the (cc_heap c i)) \<noteq> k" if "i \<in> set (cc_order c)" for i
    using cache_inv_items [OF assms(1), of k i] assms(2) that by auto
  ultimately show ?thesis
    using assms fresh unfolding cache_inv_iff by (auto simp: less_Suc_eq)
qed

lemma get_key_inv [inv_intros]:
  assumes "cache_inv c"
  shows "cache_inv (snd (get_key now k c))"
proof (cases "cc_items c k")
  case None
  with assms show ?thesis by (simp add: get_key_def)
next
  case (Some i)
  then have i: "i \<in> set (cc_order c)" "ce_key (the (cc_heap c i)) = k"
    using cache_inv_items [OF assms] by auto
  obtain e where e: "cc_heap c i = Some e" using cache_inv_heap assms i(1) by blast
  have "cache_inv (c\<lparr>cc_order := i # remove1 i (cc_order c)\<rparr>)"
    using cache_inv_move_front [OF assms i(1), of e e] e by (simp add: fun_upd_idem)
  with cache_inv_unlink [OF assms i] Some e show ?thesis by (simp add: get_key_def)
qed

lemma evict_back_inv:
  assumes "cache_inv c"
  shows "cache_inv (evict_back c) \<and> int (length (cc_order (evict_back c))) < cc_capacity c"
proof (cases "int (length (cc_order c)) \<ge> cc_capacity c")
  case True
  then have ne: "cc_order c \<noteq> []" using assms by (auto simp: cache_inv_def)
  then have l: "last (cc_order c) \<in> set (cc_order c)" by simp
  then obtain e where e: "cc_heap c (last (cc_order c)) = Some e" using cache_inv_heap assms by blast
  have "evict_back c = c\<lparr>cc_order := remove1 (last (cc_order c)) (cc_order c),
      cc_items := (cc_items c)(ce_key e := None)\<rparr>"
    using True ne e by (simp add: evict_back_def)
  moreover have "length (remove1 (last (cc_order c)) (cc_order c)) < length (cc_order c)"
    using l ne by (simp add: length_remove1)
  ultimately show ?thesis
    using cache_inv_unlink [OF assms l, of "ce_key e"] e assms by (simp add: cache_inv_def)
next
  case False
  then show ?thesis using assms by (simp add: evict_back_def)
qed

lemma put_key_inv [inv_intros]:
  assumes "cache_inv c"
  shows "cache_inv (put_key now k r c)"
proof (cases "cc_items c k")
  case (Some i)
  then have i: "i \<in> set (cc_order c)" "ce_key (the (cc_heap c i)) = k"
    using cache_inv_items [OF assms] by auto
  obtain e where e: "cc_heap c i = Some e" using cache_inv_heap assms i(1) by blast
  have "cache_inv (c\<lparr>cc_order := i # remove1 i (cc_order c),
      cc_heap := (cc_heap c)(i \<mapsto> e\<lparr>ce_response := r, ce_createdAt := now\<rparr>)\<rparr>)"
    using cache_inv_move_front [OF assms i(1), of e] e by simp
  with Some e show ?thesis by (simp add: put_key_def)
next
  case None
  have "cc_items (evict_back c) k = None"
    using None by (simp add: evict_back_facts [OF assms])
  from cache_inv_push [OF _ this, of r now] evict_back_inv [OF assms] None show ?thesis
    by (simp add: put_key_def Let_def evict_back_facts [OF assms])
qed

lemma NewCache_inv:
  "0 < capacity \<Longrightarrow> cache_inv (NewCache capacity ttl True) \<and> entries (NewCache capacity ttl True) = []"
  by (simp add: NewCache_def cache_inv_def entries_def)

lemma Clear_inv: "cache_inv c \<Longrightarrow> cache_inv (c\<lparr>cc_items := Map.empty, cc_order := []\<rparr>)"
  by (simp add: cache_inv_def)

section \<open>The cache meets the contract\<close>

text \<open>The operations by key on a cache that may be nil or disabled.\<close>

definition opt_get :: "time \<Rightarrow> string \<Rightarrow> Cache option \<Rightarrow> AnalysisResponse option \<times> Cache option" where
  "opt_get now k co =
     (case co of None \<Rightarrow> (None, None)
      | Some c \<Rightarrow> if \<not> cc_enabled c then (None, Some c)
          else (fst (get_key now k c), Some (snd (get_key now k c))))"

definition opt_put :: "time \<Rightarrow> string \<Rightarrow> AnalysisResponse \<Rightarrow> Cache option \<Rightarrow> Cache option" where
  "opt_put now k r co =
     (case co of None \<Rightarrow> None
      | Some c \<Rightarrow> if \<not> cc_enabled c then Some c else Some (put_key now k r c))"

definition request_key :: "payload_digest \<Rightarrow> AnalysisRequest \<Rightarrow> string list \<Rightarrow> string" where
  "request_key digest request pm =
     computeRequestKey digest request (fst (extractProviderModel pm)) (snd (extractProviderModel pm))"

lemma Get_by_key: "Get digest now request pm co = opt_get now (request_key digest request pm) co"
  by (auto simp: Get_def opt_get_def request_key_def Let_def split: option.splits prod.splits)

lemma Put_by_key: "Put digest now request (Some r) pm co = opt_put now (request_key digest request pm) r co"
  by (auto simp: Put_def opt_put_def request_key_def Let_def split: option.splits prod.splits)

definition cache_ok :: "Cache option \<Rightarrow> bool" where
  "cache_ok co \<longleftrightarrow> (case co of None \<Rightarrow> True | Some c \<Rightarrow> cc_enabled c \<longrightarrow> cache_inv c)"

definition cache_ttl :: "Cache option \<Rightarrow> duration" where
  "cache_ttl co = (case co of None \<Rightarrow> 0 | Some c \<Rightarrow> cc_ttl c)"

definition lru_entry :: "string \<Rightarrow> cacheEntry list \<Rightarrow> (AnalysisResponse \<times> time) option" where
  "lru_entry k es = map_option (\<lambda>e. (ce_response e, ce_createdAt e)) (lru_find k es)"

definition cache_entry :: "Cache option \<Rightarrow> string \<Rightarrow> (AnalysisResponse \<times> time) option" where
  "cache_entry co k =
     (case co of None \<Rightarrow> None | Some c \<Rightarrow> if cc_enabled c then lru_entry k (entries c) else None)"

lemma lru_find_Cons: "lru_find k (e # es) = (if ce_key e = k then Some e else lru_find k es)"
  by (simp add: lru_find_def)

lemma lru_find_key: "lru_find k es = Some e \<Longrightarrow> ce_key e = k"
  by (auto simp: lru_find_def find_Some_iff)

lemma lru_find_remove: "lru_find k' (lru_remove k es) = (if k' = k then None else lru_find k' es)"
  unfolding lru_find_def lru_remove_def by (induction es) auto

lemma lru_find_butlast: "lru_find k (butlast es) = lru_find k es \<or> lru_find k (butlast es) = None"
  unfolding lru_find_def by (induction es) auto

lemma lru_get_entry:
  "lru_entry k' (snd (lru_get ttl now k es)) = lru_entry k' es \<or>
   lru_entry k' (snd (lru_get ttl now k es)) = None"
  by (auto simp: lru_entry_def lru_get_def lru_find_remove lru_find_Cons dest: lru_find_key
      split: option.splits)

lemma lru_get_result:
  "fst (lru_get ttl now k es) =
     (case lru_entry k es of None \<Rightarrow> None | Some (v, t) \<Rightarrow> if time_sub now t > ttl then None else Some v)"
  by (simp add: lru_get_def lru_entry_def split: option.splits)

lemma lru_put_entry:
  "lru_entry k (lru_put cap now k r es) = Some (r, now)"
  "k' \<noteq> k \<Longrightarrow> lru_entry k' (lru_put cap now k r es) = lru_entry k' es \<or>
    lru_entry k' (lru_put cap now k r es) = None"
  using lru_find_butlast [of k' es]
  by (auto simp: lru_entry_def lru_put_def lru_find_remove lru_find_Cons)

lemma get_key_config [simp]:
  "cc_ttl (snd (get_key now k c)) = cc_ttl c" "cc_enabled (snd (get_key now k c)) = cc_enabled c"
  "cc_capacity (snd (get_key now k c)) = cc_capacity c"
  by (auto simp: get_key_def split: option.splits)

lemma put_key_config [simp]:
  assumes "cache_inv c"
  shows "cc_ttl (put_key now k r c) = cc_ttl c" "cc_enabled (put_key now k r c) = cc_enabled c"
    "cc_capacity (put_key now k r c) = cc_capacity c"
  by (auto simp: put_key_def Let_def evict_back_facts [OF assms] split: option.splits)

interpretation response_store: response_cache opt_get opt_put Clear cache_entry cache_ttl cache_ok
proof
  fix co :: "Cache option" and now k k' and v :: AnalysisResponse
  assume ok: "cache_ok co"
  have inv: "cache_inv c" if "co = Some c" "cc_enabled c" for c
    using ok that by (simp add: cache_ok_def)
  show "fst (opt_get now k co) = (case cache_entry co k of None \<Rightarrow> None
      | Some (v, t) \<Rightarrow> if time_sub now t > cache_ttl co then None else Some v)"
    using get_key_refines [OF inv]
    by (auto simp: opt_get_def cache_entry_def cache_ttl_def lru_get_result split: option.splits)
  show "cache_entry (snd (opt_get now k co)) k' = cache_entry co k' \<or>
      cache_entry (snd (opt_get now k co)) k' = None"
    using get_key_refines [OF inv] lru_get_entry
    by (auto simp: opt_get_def cache_entry_def split: option.splits)
  show "cache_entry (opt_put now k v co) k = Some (v, now) \<or>
      opt_put now k v co = co \<and> cache_entry co k = None"
    using put_key_refines [OF inv] put_key_config [OF inv]
    by (auto simp: opt_put_def cache_entry_def lru_put_entry split: option.splits)
  show "k' \<noteq> k \<Longrightarrow> cache_entry (opt_put now k v co) k' = cache_entry co k' \<or>
      cache_entry (opt_put now k v co) k' = None"
    using put_key_refines [OF inv] put_key_config [OF inv] lru_put_entry(2)
    by (auto simp: opt_put_def cache_entry_def split: option.splits)
  show "cache_entry (Clear co) k = None"
    by (auto simp: Clear_def cache_entry_def entries_def lru_entry_def lru_find_def split: option.splits)
  show "cache_ok (snd (opt_get now k co)) \<and> cache_ttl (snd (opt_get now k co)) = cache_ttl co"
    using get_key_inv [OF inv]
    by (auto simp: opt_get_def cache_ok_def cache_ttl_def split: option.splits)
  show "cache_ok (opt_put now k v co) \<and> cache_ttl (opt_put now k v co) = cache_ttl co"
    using put_key_inv [OF inv] put_key_config [OF inv]
    by (auto simp: opt_put_def cache_ok_def cache_ttl_def split: option.splits)
  show "cache_ok (Clear co) \<and> cache_ttl (Clear co) = cache_ttl co"
    using Clear_inv [OF inv] by (auto simp: Clear_def cache_ok_def cache_ttl_def split: option.splits)
qed

section \<open>Histories of requests\<close>

datatype request_call =
    RGet time AnalysisRequest "string list"
  | RPut time AnalysisRequest AnalysisResponse "string list"
  | RClear

primrec request_step :: "payload_digest \<Rightarrow> request_call \<Rightarrow> Cache option \<Rightarrow> Cache option" where
  "request_step digest (RGet now r pm) co = snd (Get digest now r pm co)"
| "request_step digest (RPut now r v pm) co = Put digest now r (Some v) pm co"
| "request_step digest RClear co = Clear co"

definition payload :: "AnalysisRequest \<Rightarrow> string list \<Rightarrow> string \<times> string \<times> AnalysisRequest" where
  "payload r pm = (fst (extractProviderModel pm), snd (extractProviderModel pm), normalizeRequestForKey r)"

primrec call_payloads :: "request_call \<Rightarrow> (string \<times> string \<times> AnalysisRequest) set" where
  "call_payloads (RGet now r pm) = {payload r pm}"
| "call_payloads (RPut now r v pm) = {payload r pm}"
| "call_payloads RClear = {}"

text \<open>The digest has no collision among the payloads of the calls and the one asked for.\<close>

definition digest_separates ::
    "payload_digest \<Rightarrow> (string \<times> string \<times> AnalysisRequest) set \<Rightarrow> bool" where
  "digest_separates digest ps \<longleftrightarrow> inj_on (\<lambda>(p, m, r). digest p m r) ps"

primrec last_stored :: "AnalysisRequest \<Rightarrow> string list \<Rightarrow> request_call \<Rightarrow>
    (AnalysisResponse \<times> time) option \<Rightarrow> (AnalysisResponse \<times> time) option" where
  "last_stored r pm (RGet now r' pm') p = p"
| "last_stored r pm (RPut now r' v pm') p = (if payload r' pm' = payload r pm then Some (v, now) else p)"
| "last_stored r pm RClear p = None"

primrec key_call :: "payload_digest \<Rightarrow> request_call \<Rightarrow> (string, AnalysisResponse) cache_call" where
  "key_call digest (RGet now r pm) = CGet now (request_key digest r pm)"
| "key_call digest (RPut now r v pm) = CPut now (request_key digest r pm) v"
| "key_call digest RClear = CClear"

lemma request_key_payload: "request_key digest r pm = (\<lambda>(p, m, r). digest p m r) (payload r pm)"
  by (simp add: request_key_def computeRequestKey_def payload_def)

lemma request_key_same:
  "digest_separates digest ps \<Longrightarrow> payload r pm \<in> ps \<Longrightarrow> payload r' pm' \<in> ps \<Longrightarrow>
   request_key digest r pm = request_key digest r' pm' \<longleftrightarrow> payload r pm = payload r' pm'"
  unfolding request_key_payload digest_separates_def by (auto dest: inj_onD)

lemma request_step_by_key:
  "request_step digest a co = response_store.call (key_call digest a) co"
  by (cases a) (simp_all add: Get_by_key Put_by_key)

lemma fold_request_step:
  "fold (request_step digest) as co = fold response_store.call (map (key_call digest) as) co"
  by (induction as arbitrary: co) (simp_all add: request_step_by_key)

lemma fold_last_stored:
  assumes "digest_separates digest (insert (payload r pm) ps)" "\<Union> (call_payloads ` set as) \<subseteq> ps"
  shows "fold (response_store.last_put (request_key digest r pm)) (map (key_call digest) as) p =
    fold (last_stored r pm) as p"
  using assms(2)
proof (induction as arbitrary: p)
  case (Cons a as)
  then show ?case
    using request_key_same [OF assms(1), of _ _ r pm] by (cases a) auto
qed simp

section \<open>Properties\<close>

text \<open>C25. The cache is an LRU list: under its invariant (hash map and linked list agree, no entry
  dangles, the capacity is kept), \<open>Get\<close> and \<open>Put\<close> by key keep the invariant and act on the entries in
  order of use as look-up-and-move-to-front with expiry, and as insert-at-front with eviction of the
  least recently used entry when the cache is full.\<close>

theorem cache_refines_lru:
  assumes "cache_inv c"
  shows "cache_inv (snd (get_key now k c)) \<and> cache_inv (put_key now k r c) \<and>
    (fst (get_key now k c), entries (snd (get_key now k c))) = lru_get (cc_ttl c) now k (entries c) \<and>
    entries (put_key now k r c) = lru_put (cc_capacity c) now k r (entries c) \<and>
    int (length (entries (put_key now k r c))) \<le> cc_capacity c"
proof -
  have "int (length (entries (put_key now k r c))) \<le> cc_capacity c"
    using put_key_inv [OF assms, of now k r] put_key_config [OF assms]
    by (simp add: cache_inv_def entries_def)
  with get_key_inv [OF assms] put_key_inv [OF assms] get_key_refines [OF assms] put_key_refines [OF assms]
  show ?thesis by (simp add: prod_eq_iff)
qed

definition example_response :: AnalysisResponse where
  "example_response = \<lparr>rs_EnhancedSuggestions = Map.empty, rs_CausalInsights = [], rs_Summary = ''ok'',
     rs_RawContent = [], rs_TokensUsed = 700, rs_Truncated = False, rs_ParseFailed = False\<rparr>"

lemma one_slot_cache:
  "cache_inv (NewCache 1 60 True)" "entries (NewCache 1 60 True) = []"
  "cc_capacity (NewCache 1 60 True) = 1"
  using NewCache_inv [of 1 60] by (simp_all add: NewCache_def)

theorem cache_refines_lru_witness:
  "cache_inv (NewCache 1 60 True) \<and>
   map ce_key (entries (put_key 5 ''a'' example_response (NewCache 1 60 True))) = [''a'']"
proof -
  have "entries (put_key 5 ''a'' example_response (NewCache 1 60 True)) = lru_put 1 5 ''a'' example_response []"
    using cache_refines_lru [OF one_slot_cache(1), of 5 "''a''" example_response]
    by (simp only: one_slot_cache)
  then show ?thesis using one_slot_cache(1) by (simp add: lru_put_def lru_find_def)
qed

text \<open>Cache hits are sound: after any history of gets, puts and clears on a cache that starts
  empty, a hit for a request returns the response last put for a request with the same provider, model
  and normalised payload since the last clear, and that response is no older than the TTL (for a digest
  without a collision among the payloads of the history).\<close>

theorem cache_hit_is_latest:
  assumes "digest_separates digest (insert (payload r pm) (\<Union> (call_payloads ` set as)))"
    and "fst (Get digest now r pm (fold (request_step digest) as (Some (NewCache capacity ttl enabled)))) = Some v"
  shows "\<exists>t. fold (last_stored r pm) as None = Some (v, t) \<and>
    time_sub now t \<le> cc_ttl (NewCache capacity ttl enabled)"
proof -
  let ?c = "Some (NewCache capacity ttl enabled)"
  have c: "cache_ok ?c" "\<forall>k. cache_entry ?c k = None" "cache_ttl ?c = cc_ttl (NewCache capacity ttl enabled)"
    by (auto simp: cache_ok_def NewCache_def cache_inv_def cache_entry_def entries_def lru_entry_def
        lru_find_def cache_ttl_def)
  have "fst (opt_get now (request_key digest r pm) (fold response_store.call (map (key_call digest) as) ?c)) = Some v"
    using assms(2) by (simp only: Get_by_key fold_request_step)
  from response_store.hit_is_latest [OF c(1,2) this] c(3) show ?thesis
    using fold_last_stored [OF assms(1), of as None] by auto
qed

definition example_request :: AnalysisRequest where
  "example_request = \<lparr>ar_Issues = [], ar_ClusterContext = \<lparr>cl_KubernetesVersion = [], cl_Provider = [],
     cl_FluxVersion = [], cl_Namespaces = [''b'', ''a'']\<rparr>, ar_CausalContext = None, ar_MaxTokens = 0,
     ar_ExplainMode = False, ar_ExplainContext = []\<rparr>"

theorem cache_hit_is_latest_witness:
  "let digest = (\<lambda>p m q. p); r = example_request;
       as = [RPut 5 r example_response [''openai''], RPut 6 r example_response [''anthropic'']] in
   fst (Get digest 9 r [''openai''] (fold (request_step digest) as (Some (NewCache 10 60 True)))) =
     Some example_response \<and>
   (\<exists>t. fold (last_stored r [''openai'']) as None = Some (example_response, t) \<and> time_sub 9 t \<le> 60)"
proof -
  let ?d = "\<lambda>p m q. p" and ?r = example_request
  let ?as = "[RPut 5 ?r example_response [''openai''], RPut 6 ?r example_response [''anthropic'']]"
  let ?c = "fold (request_step ?d) ?as (Some (NewCache 10 60 True))"
  have sep: "digest_separates ?d (insert (payload ?r [''openai'']) (\<Union> (call_payloads ` set ?as)))"
    by (auto simp: digest_separates_def inj_on_def payload_def extractProviderModel_def)
  have hit: "fst (Get ?d 9 ?r [''openai''] ?c) = Some example_response"
    by (simp add: Get_by_key Put_by_key opt_get_def opt_put_def request_key_def computeRequestKey_def
        extractProviderModel_def NewCache_def put_key_def get_key_def evict_back_def Let_def time_sub_def)
  show ?thesis
    using cache_hit_is_latest [OF sep hit] hit by (simp add: NewCache_def Let_def)
qed

text \<open>The key ignores what does not change the answer: two requests that differ only in the order
  of the cluster's namespaces, in the explain text outside explain mode, or in a causal context without
  groups have the same key under every digest.\<close>

theorem cache_key_ignores_irrelevant:
  assumes "mset ns' = mset (cl_Namespaces (ar_ClusterContext r))"
    and "\<not> ar_ExplainMode r"
    and "cac_Groups cc = []" "ar_CausalContext r = None"
  shows "computeRequestKey digest
      (r\<lparr>ar_ClusterContext := (ar_ClusterContext r)\<lparr>cl_Namespaces := ns'\<rparr>,
         ar_ExplainContext := text, ar_CausalContext := Some cc\<rparr>) provider model =
    computeRequestKey digest r provider model"
proof -
  have "sort ns' = sort (cl_Namespaces (ar_ClusterContext r))"
    using assms(1) by (metis properties_for_sort mset_sort sorted_sort)
  then show ?thesis
    using assms by (cases r) (simp add: computeRequestKey_def normalizeRequestForKey_def Let_def)
qed

theorem cache_key_ignores_irrelevant_witness:
  "computeRequestKey (\<lambda>p m q. p @ m)
     (example_request\<lparr>ar_ClusterContext := (ar_ClusterContext example_request)\<lparr>cl_Namespaces := [''a'', ''b'']\<rparr>,
        ar_ExplainContext := ''x'',
        ar_CausalContext := Some \<lparr>cac_Groups = [], cac_UncorrelatedCount = 0, cac_TotalIssues = 0\<rparr>\<rparr>) ''p'' ''m'' =
   computeRequestKey (\<lambda>p m q. p @ m) example_request ''p'' ''m''"
  by (rule cache_key_ignores_irrelevant) (simp_all add: example_request_def)

end
