(* ===== verification/Token_Budget.thy ===== *)
theory Token_Budget
  imports Go_Prelude
begin

text \<open>
  The token budgets of \<open>internal/ai/budget.go\<close>: the windowed \<open>Budget\<close> that the AI manager
  reserves from, and the \<open>ChatBudget\<close> with its lock-free counter. Both answer to one contract,
  the locale \<open>token_ledger\<close>: reserve an estimate, then give back the unused part or record the
  overage. A nil \<open>*Budget\<close> or \<open>*ChatBudget\<close> is \<open>None\<close>. Sums wrap at 64 bits.
\<close>

section \<open>The contract of a token ledger\<close>

text \<open>
  \<open>used\<close> lists the tokens charged (one number per window). The client settles a call that
  reserved \<open>est\<close> tokens and used \<open>actual\<close>: \<open>Manager.Analyze\<close> and the chat handler do this.
\<close>

definition settle :: "(int \<Rightarrow> 'l \<Rightarrow> 'l) \<Rightarrow> (int \<Rightarrow> 'l \<Rightarrow> 'l) \<Rightarrow> int \<Rightarrow> int \<Rightarrow> 'l \<Rightarrow> 'l" where
  "settle release record_use est actual l =
     (let unused = wrap64 (est - actual) in
      if unused > 0 then release unused l
      else if unused < 0 then record_use (wrap64 (- unused)) l
      else l)"

locale token_ledger =
  fixes reserve :: "int \<Rightarrow> 'l \<Rightarrow> 'e option \<times> 'l"
    and release :: "int \<Rightarrow> 'l \<Rightarrow> 'l"
    and record_use :: "int \<Rightarrow> 'l \<Rightarrow> 'l"
    and used :: "'l \<Rightarrow> int list"
    and ledger_ok :: "'l \<Rightarrow> bool"
  assumes reserve_error: "reserve n l = (Some e, l') \<Longrightarrow> l' = l"
    and reserve_used: "ledger_ok l \<Longrightarrow> 0 \<le> n \<Longrightarrow> \<forall>u \<in> set (used l). in_int64 (u + n) \<Longrightarrow>
      reserve n l = (None, l') \<Longrightarrow> ledger_ok l' \<and> used l' = map (\<lambda>u. u + n) (used l)"
    and release_used: "ledger_ok l \<Longrightarrow> 0 \<le> n \<Longrightarrow> in_int64 n \<Longrightarrow>
      ledger_ok (release n l) \<and> used (release n l) = map (\<lambda>u. max 0 (u - n)) (used l)"
    and record_used: "ledger_ok l \<Longrightarrow> 0 \<le> n \<Longrightarrow> \<forall>u \<in> set (used l). in_int64 (u + n) \<Longrightarrow>
      ledger_ok (record_use n l) \<and> used (record_use n l) = map (\<lambda>u. u + n) (used l)"
    and used_nonneg: "ledger_ok l \<Longrightarrow> \<forall>u \<in> set (used l). 0 \<le> u"
begin

lemma refund_exact:
  assumes "ledger_ok l" "0 \<le> n" "in_int64 n" "\<forall>u \<in> set (used l). in_int64 (u + n)"
    "reserve n l = (None, l')"
  shows "ledger_ok (release n l') \<and> used (release n l') = used l"
proof -
  have l': "ledger_ok l'" "used l' = map (\<lambda>u. u + n) (used l)"
    using reserve_used assms by blast+
  then have "used (release n l') = map (\<lambda>u. max 0 u) (used l)"
    using release_used [of l' n] assms by simp
  also have "\<dots> = used l"
    using used_nonneg [OF assms(1)] by (auto intro!: map_idI)
  finally show ?thesis using release_used [of l' n] l' assms by simp
qed

lemma settle_exact:
  assumes ok: "ledger_ok l" and n: "0 \<le> est" "in_int64 est" and a: "0 \<le> actual" "in_int64 actual"
    and fit: "\<forall>u \<in> set (used l). in_int64 (u + est) \<and> in_int64 (u + actual)"
    and res: "reserve est l = (None, l')"
  shows "ledger_ok (settle release record_use est actual l') \<and>
    used (settle release record_use est actual l') = map (\<lambda>u. u + actual) (used l)"
proof -
  have l': "ledger_ok l'" "used l' = map (\<lambda>u. u + est) (used l)"
    using reserve_used [OF ok n(1) _ res] fit by auto
  have nn: "\<forall>u \<in> set (used l). 0 \<le> u" using used_nonneg ok by blast
  have rng: "in_int64 (est - actual)" "in_int64 (actual - est)"
    using n a by (auto simp: in_int64_def)
  consider "est > actual" | "est < actual" | "est = actual" by linarith
  then show ?thesis
  proof cases
    case 1
    have "map (\<lambda>u. max 0 (u + est - (est - actual))) (used l) = map (\<lambda>u. u + actual) (used l)"
      using nn a by auto
    then show ?thesis
      using release_used [OF l'(1), of "est - actual"] l' rng 1
      by (simp add: settle_def Let_def comp_def)
  next
    case 2
    then have "\<forall>u \<in> set (used l'). in_int64 (u + (actual - est))"
      using fit l' by (auto simp: algebra_simps)
    then show ?thesis
      using record_used [OF l'(1), of "actual - est"] l' rng 2
      by (simp add: settle_def Let_def comp_def)
  next
    case 3
    then show ?thesis using l' by (simp add: settle_def Let_def in_int64_def)
  qed
qed

end

section \<open>Windowed budget: state and operations\<close>

record BudgetWindow =
  bw_Name :: string
  bw_Duration :: duration
  bw_Limit :: int

record windowUsage =
  wu_tokens :: int
  wu_startedAt :: time

record Budget =
  bg_windows :: "BudgetWindow list"
  bg_usage :: "windowUsage list"

record WindowUsage =
  WU_Name :: string
  WU_Limit :: int
  WU_Used :: int

definition NewBudget :: "time \<Rightarrow> BudgetWindow list \<Rightarrow> Budget option" where
  "NewBudget now windows =
     (if windows = [] then None
      else Some \<lparr>bg_windows = windows,
                 bg_usage = replicate (length windows) \<lparr>wu_tokens = 0, wu_startedAt = now\<rparr>\<rparr>)"

definition ErrBudgetExceeded :: string where
  "ErrBudgetExceeded = ''token budget exceeded''"

definition budget_error :: "BudgetWindow \<Rightarrow> windowUsage \<Rightarrow> string" where
  "budget_error w u = ErrBudgetExceeded @ '': '' @ bw_Name w @ '' window ('' @ itoa (wu_tokens u)
     @ ''/'' @ itoa (bw_Limit w) @ '' tokens)''"

definition window_expired :: "time \<Rightarrow> BudgetWindow \<Rightarrow> windowUsage \<Rightarrow> bool" where
  "window_expired now w u \<longleftrightarrow> time_sub now (wu_startedAt u) \<ge> bw_Duration w"

text \<open>The check loop: the first window that is still running and would be exceeded.\<close>

fun check_windows ::
    "time \<Rightarrow> int \<Rightarrow> BudgetWindow list \<Rightarrow> windowUsage list \<Rightarrow> string option" where
  "check_windows now est (w # ws) (u # us) =
     (if window_expired now w u then check_windows now est ws us
      else if wrap64 (wu_tokens u + est) > bw_Limit w then Some (budget_error w u)
      else check_windows now est ws us)"
| "check_windows now est ws us = None"

text \<open>The charging loop: an expired window restarts, then every window is charged.\<close>

definition charge_window :: "time \<Rightarrow> int \<Rightarrow> BudgetWindow \<Rightarrow> windowUsage \<Rightarrow> windowUsage" where
  "charge_window now n w u =
     (let u1 = (if window_expired now w u then \<lparr>wu_tokens = 0, wu_startedAt = now\<rparr> else u)
      in u1\<lparr>wu_tokens := wrap64 (wu_tokens u1 + n)\<rparr>)"

definition CheckAllowance :: "time \<Rightarrow> int \<Rightarrow> Budget option \<Rightarrow> string option" where
  "CheckAllowance now est bo =
     (case bo of None \<Rightarrow> None | Some b \<Rightarrow> check_windows now est (bg_windows b) (bg_usage b))"

definition TryConsume :: "time \<Rightarrow> int \<Rightarrow> Budget option \<Rightarrow> string option \<times> Budget option" where
  "TryConsume now est bo =
     (case bo of
        None \<Rightarrow> (None, None)
      | Some b \<Rightarrow>
          (case check_windows now est (bg_windows b) (bg_usage b) of
             Some e \<Rightarrow> (Some e, Some b)
           | None \<Rightarrow> (None, Some (b\<lparr>bg_usage :=
               map2 (charge_window now est) (bg_windows b) (bg_usage b)\<rparr>))))"

definition release_window :: "int \<Rightarrow> windowUsage \<Rightarrow> windowUsage" where
  "release_window tokens u =
     (let t = wrap64 (wu_tokens u - tokens) in u\<lparr>wu_tokens := (if t < 0 then 0 else t)\<rparr>)"

definition ReleaseUnused :: "int \<Rightarrow> Budget option \<Rightarrow> Budget option" where
  "ReleaseUnused tokens bo =
     (if tokens \<le> 0 then bo
      else map_option (\<lambda>b. b\<lparr>bg_usage := map (release_window tokens) (bg_usage b)\<rparr>) bo)"

definition RecordUsage :: "time \<Rightarrow> int \<Rightarrow> Budget option \<Rightarrow> Budget option" where
  "RecordUsage now tokens bo =
     map_option (\<lambda>b. b\<lparr>bg_usage := map2 (charge_window now tokens) (bg_windows b) (bg_usage b)\<rparr>) bo"

definition current_tokens :: "time \<Rightarrow> BudgetWindow \<Rightarrow> windowUsage \<Rightarrow> int" where
  "current_tokens now w u = (if window_expired now w u then 0 else wu_tokens u)"

definition GetUsage :: "time \<Rightarrow> Budget option \<Rightarrow> WindowUsage list" where
  "GetUsage now bo =
     (case bo of None \<Rightarrow> []
      | Some b \<Rightarrow> map2 (\<lambda>w u. \<lparr>WU_Name = bw_Name w, WU_Limit = bw_Limit w,
          WU_Used = current_tokens now w u\<rparr>)
          (bg_windows b) (bg_usage b))"

section \<open>Windowed budget: invariant and laws\<close>

text \<open>
  The two slices have equal length, charges are never negative, and the \<open>window durations are
  positive and the clock has not run backwards\<close> so that a window restarted now is running now.
\<close>

definition budget_ok :: "time \<Rightarrow> Budget option \<Rightarrow> bool" where
  "budget_ok now bo \<longleftrightarrow>
     (case bo of None \<Rightarrow> True
      | Some b \<Rightarrow> length (bg_usage b) = length (bg_windows b) \<and>
          (\<forall>w \<in> set (bg_windows b). 0 < bw_Duration w) \<and>
          (\<forall>u \<in> set (bg_usage b). 0 \<le> wu_tokens u \<and> in_int64 (wu_tokens u)))"

definition budget_used :: "time \<Rightarrow> Budget option \<Rightarrow> int list" where
  "budget_used now bo = map WU_Used (GetUsage now bo)"

lemma charge_window_used:
  assumes "0 < bw_Duration w" "in_int64 (current_tokens now w u + n)"
  shows "current_tokens now w (charge_window now n w u) = current_tokens now w u + n"
    and "wu_tokens (charge_window now n w u) = current_tokens now w u + n"
  using assms
  by (auto simp: charge_window_def current_tokens_def window_expired_def Let_def time_sub_def)

lemma budget_used_Some:
  "budget_used now (Some b) = map2 (current_tokens now) (bg_windows b) (bg_usage b)"
  by (simp add: budget_used_def GetUsage_def case_prod_unfold comp_def)

lemma map2_nth_all:
  assumes "length us = length ws"
  shows "(\<forall>x \<in> set (map2 f ws us). P x) \<longleftrightarrow> (\<forall>i < length ws. P (f (ws ! i) (us ! i)))"
  using assms by (auto simp: set_zip)

lemma map2_map2_eq:
  assumes "length us = length ws"
    "\<And>i. i < length ws \<Longrightarrow> f (ws ! i) (h (ws ! i) (us ! i)) = k (f (ws ! i) (us ! i))"
  shows "map2 f ws (map2 h ws us) = map k (map2 f ws us)"
  using assms by (intro nth_equalityI) simp_all

lemma charge_windows_used:
  assumes "length us = length ws" "\<forall>w \<in> set ws. 0 < bw_Duration w" "0 \<le> n"
    "\<forall>u \<in> set us. 0 \<le> wu_tokens u \<and> in_int64 (wu_tokens u)"
    "\<forall>x \<in> set (map2 (current_tokens now) ws us). in_int64 (x + n)"
  shows "map2 (current_tokens now) ws (map2 (charge_window now n) ws us) =
      map (\<lambda>x. x + n) (map2 (current_tokens now) ws us)"
    and "\<forall>u \<in> set (map2 (charge_window now n) ws us). 0 \<le> wu_tokens u \<and> in_int64 (wu_tokens u)"
proof -
  have fit: "in_int64 (current_tokens now (ws ! i) (us ! i) + n)" if "i < length ws" for i
    using map2_nth_all [OF assms(1), THEN iffD1, OF assms(5)] that by blast
  have dur: "0 < bw_Duration (ws ! i)" if "i < length ws" for i
    using assms(2) that by simp
  have nonneg: "0 \<le> current_tokens now (ws ! i) (us ! i)" if "i < length ws" for i
    using assms(1,4) that by (simp add: current_tokens_def)
  show "map2 (current_tokens now) ws (map2 (charge_window now n) ws us) =
      map (\<lambda>x. x + n) (map2 (current_tokens now) ws us)"
    using assms(1) fit dur by (intro map2_map2_eq) (simp_all add: charge_window_used)
  show "\<forall>u \<in> set (map2 (charge_window now n) ws us). 0 \<le> wu_tokens u \<and> in_int64 (wu_tokens u)"
    unfolding map2_nth_all [OF assms(1)]
    using fit dur nonneg assms(3) by (simp add: charge_window_used)
qed

lemma release_window_used:
  assumes "0 \<le> wu_tokens u" "in_int64 (wu_tokens u)" "0 \<le> n" "in_int64 n"
  shows "current_tokens now w (release_window n u) = max 0 (current_tokens now w u - n)"
    and "0 \<le> wu_tokens (release_window n u)" and "in_int64 (wu_tokens (release_window n u))"
proof -
  have "in_int64 (wu_tokens u - n)" using assms by (auto simp: in_int64_def)
  then show "current_tokens now w (release_window n u) = max 0 (current_tokens now w u - n)"
    "0 \<le> wu_tokens (release_window n u)" "in_int64 (wu_tokens (release_window n u))"
    using assms
    by (auto simp: release_window_def current_tokens_def window_expired_def Let_def in_int64_def)
qed

lemma map2_release:
  assumes "length us = length ws"
    "\<forall>u \<in> set us. 0 \<le> wu_tokens u \<and> in_int64 (wu_tokens u)" "0 \<le> n" "in_int64 n"
  shows "map2 (current_tokens now) ws (map (release_window n) us) =
   map (\<lambda>x. max 0 (x - n)) (map2 (current_tokens now) ws us)"
  using assms by (intro nth_equalityI) (simp_all add: release_window_used)

lemma in_int64_le: "0 \<le> n \<Longrightarrow> 0 \<le> u \<Longrightarrow> in_int64 (u + n) \<Longrightarrow> in_int64 n"
  by (auto simp: in_int64_def)

lemma TryConsume_error: "TryConsume now n l = (Some e, l') \<Longrightarrow> l' = l"
  by (auto simp: TryConsume_def split: option.splits)

lemma budget_ok_None [simp]: "budget_ok now None" "budget_used now None = []"
  by (simp_all add: budget_ok_def budget_used_def GetUsage_def)

lemma budget_ok_Some:
  "budget_ok now (Some b) \<longleftrightarrow> length (bg_usage b) = length (bg_windows b) \<and>
     (\<forall>w \<in> set (bg_windows b). 0 < bw_Duration w) \<and>
     (\<forall>u \<in> set (bg_usage b). 0 \<le> wu_tokens u \<and> in_int64 (wu_tokens u))"
  by (simp add: budget_ok_def)

lemma budget_used_nonneg: "budget_ok now l \<Longrightarrow> \<forall>u \<in> set (budget_used now l). 0 \<le> u"
  by (cases l) (auto simp: budget_ok_Some budget_used_Some current_tokens_def dest!: set_zip_rightD)

lemma RecordUsage_used:
  assumes "budget_ok now l" "0 \<le> n" "\<forall>u \<in> set (budget_used now l). in_int64 (u + n)"
  shows "budget_ok now (RecordUsage now n l) \<and>
    budget_used now (RecordUsage now n l) = map (\<lambda>u. u + n) (budget_used now l)"
proof (cases l)
  case (Some b)
  have len: "length (bg_usage b) = length (bg_windows b)"
    and dur: "\<forall>w \<in> set (bg_windows b). 0 < bw_Duration w"
    and tok: "\<forall>u \<in> set (bg_usage b). 0 \<le> wu_tokens u \<and> in_int64 (wu_tokens u)"
    using assms(1) unfolding Some budget_ok_Some by blast+
  have fit: "\<forall>x \<in> set (map2 (current_tokens now) (bg_windows b) (bg_usage b)). in_int64 (x + n)"
    using assms(3) by (simp only: Some budget_used_Some)
  have eq: "RecordUsage now n (Some b) = Some (b\<lparr>bg_usage := map2 (charge_window now n) (bg_windows b) (bg_usage b)\<rparr>)"
    by (simp add: RecordUsage_def)
  have "budget_ok now (RecordUsage now n l)"
    unfolding Some eq budget_ok_Some
    using charge_windows_used(2) [OF len dur assms(2) tok fit] len dur by simp
  moreover have "budget_used now (RecordUsage now n l) = map (\<lambda>u. u + n) (budget_used now l)"
    unfolding Some eq budget_used_Some
    using charge_windows_used(1) [OF len dur assms(2) tok fit] by (simp add: comp_def)
  ultimately show ?thesis ..
qed (simp add: RecordUsage_def)

lemma TryConsume_ok_RecordUsage:
  "TryConsume now n l = (None, l') \<Longrightarrow> l' = RecordUsage now n l"
  by (auto simp: TryConsume_def RecordUsage_def split: option.splits)

lemma ReleaseUnused_used:
  assumes "budget_ok now l" "0 \<le> n" "in_int64 n"
  shows "budget_ok now (ReleaseUnused n l) \<and>
    budget_used now (ReleaseUnused n l) = map (\<lambda>u. max 0 (u - n)) (budget_used now l)"
proof (cases "n = 0")
  case True
  then show ?thesis
    using budget_used_nonneg [OF assms(1)] assms
    by (auto simp: ReleaseUnused_def intro!: map_idI [symmetric])
next
  case False
  show ?thesis
  proof (cases l)
    case (Some b)
    with False assms map2_release [of "bg_usage b" "bg_windows b" n now] show ?thesis
      by (simp add: ReleaseUnused_def budget_used_Some budget_ok_Some release_window_used)
  qed (simp add: ReleaseUnused_def)
qed

interpretation budget_ledger: token_ledger "TryConsume now" ReleaseUnused "RecordUsage now"
    "budget_used now" "budget_ok now" for now :: time
proof
  fix n l e l' assume "TryConsume now n l = (Some e, l')"
  then show "l' = l" by (rule TryConsume_error)
next
  fix n l l' assume "budget_ok now l" "0 \<le> n" "\<forall>u \<in> set (budget_used now l). in_int64 (u + n)"
    "TryConsume now n l = (None, l')"
  then show "budget_ok now l' \<and> budget_used now l' = map (\<lambda>u. u + n) (budget_used now l)"
    using RecordUsage_used TryConsume_ok_RecordUsage by blast
next
  fix l n assume "budget_ok now l" "0 \<le> n" "in_int64 n"
  then show "budget_ok now (ReleaseUnused n l) \<and>
      budget_used now (ReleaseUnused n l) = map (\<lambda>u. max 0 (u - n)) (budget_used now l)"
    by (rule ReleaseUnused_used)
next
  fix l n assume "budget_ok now l" "0 \<le> n" "\<forall>u \<in> set (budget_used now l). in_int64 (u + n)"
  then show "budget_ok now (RecordUsage now n l) \<and>
      budget_used now (RecordUsage now n l) = map (\<lambda>u. u + n) (budget_used now l)"
    by (rule RecordUsage_used)
next
  fix l assume "budget_ok now l"
  then show "\<forall>u \<in> set (budget_used now l). 0 \<le> u" by (rule budget_used_nonneg)
qed

section \<open>Windowed budget: checks and limits\<close>

lemma check_windows_None:
  assumes "length us = length ws"
  shows "check_windows now n ws us = None \<longleftrightarrow>
    (\<forall>i < length ws. window_expired now (ws ! i) (us ! i) \<or>
       wrap64 (wu_tokens (us ! i) + n) \<le> bw_Limit (ws ! i))"
  using assms
proof (induction us ws rule: list_induct2)
  case (Cons u us w ws)
  then show ?case by (auto simp: All_less_Suc2)
qed simp

lemma check_windows_Some:
  assumes "length us = length ws" "check_windows now n ws us = Some e"
  shows "\<exists>i < length ws. \<not> window_expired now (ws ! i) (us ! i) \<and>
    wrap64 (wu_tokens (us ! i) + n) > bw_Limit (ws ! i) \<and> e = budget_error (ws ! i) (us ! i)"
  using assms
proof (induction us ws rule: list_induct2)
  case (Cons u us w ws)
  then show ?case by (auto simp: Ex_less_Suc2 split: if_splits)
qed simp

text \<open>
  Runs of reservations and refunds. The estimates of a run fit when none is above a window's
  limit; limits below \<open>2 ^ 62\<close> keep the sums from wrapping.
\<close>

definition within_limits :: "Budget \<Rightarrow> bool" where
  "within_limits b \<longleftrightarrow>
     list_all2 (\<lambda>w u. 0 \<le> wu_tokens u \<and> wu_tokens u \<le> bw_Limit w) (bg_windows b) (bg_usage b)"

datatype budget_call = ConsumeCall time int | ReleaseCall int

fun budget_run :: "budget_call list \<Rightarrow> Budget option \<Rightarrow> Budget option" where
  "budget_run [] bo = bo"
| "budget_run (ConsumeCall now n # cs) bo = budget_run cs (snd (TryConsume now n bo))"
| "budget_run (ReleaseCall n # cs) bo = budget_run cs (ReleaseUnused n bo)"

definition limits_fit :: "BudgetWindow list \<Rightarrow> budget_call \<Rightarrow> bool" where
  "limits_fit ws c \<longleftrightarrow>
     (case c of ConsumeCall now n \<Rightarrow> 0 \<le> n \<and> (\<forall>w \<in> set ws. n \<le> bw_Limit w \<and> bw_Limit w < 2 ^ 62)
      | ReleaseCall n \<Rightarrow> in_int64 n \<and> (\<forall>w \<in> set ws. bw_Limit w < 2 ^ 62))"

lemma charge_within_limits:
  assumes "list_all2 (\<lambda>w u. 0 \<le> wu_tokens u \<and> wu_tokens u \<le> bw_Limit w) ws us"
    "check_windows now n ws us = None" "0 \<le> n" "\<forall>w \<in> set ws. n \<le> bw_Limit w \<and> bw_Limit w < 2 ^ 62"
  shows "list_all2 (\<lambda>w u. 0 \<le> wu_tokens u \<and> wu_tokens u \<le> bw_Limit w) ws
    (map2 (charge_window now n) ws us)"
  using assms
proof (induction ws us rule: list_all2_induct)
  case (Cons w ws u us)
  then have "in_int64 (wu_tokens u + n)" "in_int64 n" by (auto simp: in_int64_def)
  with Cons show ?case by (auto simp: charge_window_def Let_def split: if_splits)
qed simp

lemma TryConsume_within_limits [inv_intros]:
  assumes "within_limits b" "limits_fit (bg_windows b) (ConsumeCall now n)"
  shows "\<exists>b'. snd (TryConsume now n (Some b)) = Some b' \<and> within_limits b' \<and>
    bg_windows b' = bg_windows b"
  using assms charge_within_limits [of "bg_windows b" "bg_usage b" now n]
  by (auto simp: TryConsume_def within_limits_def limits_fit_def split: option.splits)

lemma release_window_le:
  assumes "0 \<le> wu_tokens u" "wu_tokens u \<le> l" "l < 2 ^ 62" "in_int64 n" "0 < n"
  shows "0 \<le> wu_tokens (release_window n u) \<and> wu_tokens (release_window n u) \<le> l"
proof -
  have "in_int64 (wu_tokens u - n)" using assms by (auto simp: in_int64_def)
  then show ?thesis using assms by (auto simp: release_window_def Let_def)
qed

lemma ReleaseUnused_within_limits [inv_intros]:
  assumes "within_limits b" "limits_fit (bg_windows b) (ReleaseCall n)"
  shows "\<exists>b'. ReleaseUnused n (Some b) = Some b' \<and> within_limits b' \<and> bg_windows b' = bg_windows b"
proof (cases "n \<le> 0")
  case False
  then have "list_all2 (\<lambda>w u. 0 \<le> wu_tokens u \<and> wu_tokens u \<le> bw_Limit w) (bg_windows b)
      (map (release_window n) (bg_usage b))"
    using assms release_window_le
    by (auto simp: within_limits_def limits_fit_def list_all2_conv_all_nth)
  with False show ?thesis by (simp add: ReleaseUnused_def within_limits_def)
qed (use assms in \<open>simp add: ReleaseUnused_def\<close>)

lemma budget_run_within_limits:
  assumes "within_limits b" "\<forall>c \<in> set cs. limits_fit (bg_windows b) c"
  shows "\<exists>b'. budget_run cs (Some b) = Some b' \<and> within_limits b'"
  using assms
proof (induction cs arbitrary: b)
  case (Cons c cs)
  show ?case
  proof (cases c)
    case (ConsumeCall now n)
    with Cons.prems obtain b' where "snd (TryConsume now n (Some b)) = Some b'" "within_limits b'"
      "bg_windows b' = bg_windows b" using TryConsume_within_limits [of b now n] by auto
    with Cons ConsumeCall show ?thesis by simp
  next
    case (ReleaseCall n)
    with Cons.prems obtain b' where "ReleaseUnused n (Some b) = Some b'" "within_limits b'"
      "bg_windows b' = bg_windows b" using ReleaseUnused_within_limits [of b n] by auto
    with Cons ReleaseCall show ?thesis by simp
  qed
qed simp

lemma NewBudget_within_limits:
  assumes "NewBudget now ws = Some b" "\<forall>w \<in> set ws. 0 \<le> bw_Limit w"
  shows "within_limits b" "bg_windows b = ws"
  using assms
  by (auto simp: NewBudget_def within_limits_def list_all2_conv_all_nth split: if_splits)

section \<open>Chat budget: a lock-free counter\<close>

record ChatBudget =
  chat_used :: int
  chat_max :: int

definition NewChatBudget :: "int \<Rightarrow> ChatBudget option" where
  "NewChatBudget maxTokens =
     (if maxTokens \<le> 0 then None else Some \<lparr>chat_used = 0, chat_max = maxTokens\<rparr>)"

definition chat_error :: "int \<Rightarrow> int \<Rightarrow> string" where
  "chat_error cur m =
     ErrBudgetExceeded @ '': chat aggregate ('' @ itoa cur @ ''/'' @ itoa m @ '' tokens)''"

text \<open>The operations as one caller sees them, with no other thread between load and swap.\<close>

definition TryChatConsume :: "int \<Rightarrow> ChatBudget option \<Rightarrow> string option \<times> ChatBudget option" where
  "TryChatConsume tokens cbo =
     (case cbo of
        None \<Rightarrow> (None, None)
      | Some cb \<Rightarrow>
          if tokens \<le> 0 then (None, Some cb)
          else let next = wrap64 (chat_used cb + tokens) in
            if next > chat_max cb then (Some (chat_error (chat_used cb) (chat_max cb)), Some cb)
            else (None, Some (cb\<lparr>chat_used := next\<rparr>)))"

definition ChatReleaseUnused :: "int \<Rightarrow> ChatBudget option \<Rightarrow> ChatBudget option" where
  "ChatReleaseUnused tokens cbo =
     (if tokens \<le> 0 then cbo
      else map_option (\<lambda>cb. cb\<lparr>chat_used := max (wrap64 (chat_used cb - tokens)) 0\<rparr>) cbo)"

definition ChatRecordUsage :: "int \<Rightarrow> ChatBudget option \<Rightarrow> ChatBudget option" where
  "ChatRecordUsage tokens cbo =
     (if tokens \<le> 0 then cbo
      else map_option (\<lambda>cb. cb\<lparr>chat_used := wrap64 (chat_used cb + tokens)\<rparr>) cbo)"

definition ChatUsed :: "ChatBudget option \<Rightarrow> int" where
  "ChatUsed cbo = (case cbo of None \<Rightarrow> 0 | Some cb \<Rightarrow> chat_used cb)"

lemmas chat_defs = TryChatConsume_def ChatReleaseUnused_def ChatRecordUsage_def ChatUsed_def

definition chat_ok :: "ChatBudget option \<Rightarrow> bool" where
  "chat_ok cbo \<longleftrightarrow> (case cbo of None \<Rightarrow> True | Some cb \<Rightarrow> 0 \<le> chat_used cb \<and> in_int64 (chat_used cb))"

definition chat_used_list :: "ChatBudget option \<Rightarrow> int list" where
  "chat_used_list cbo = (case cbo of None \<Rightarrow> [] | Some cb \<Rightarrow> [chat_used cb])"

interpretation chat_ledger: token_ledger TryChatConsume ChatReleaseUnused ChatRecordUsage
  chat_used_list chat_ok
proof
  fix n :: int and l :: "ChatBudget option"
  assume "chat_ok l" "0 \<le> n" "in_int64 n"
  moreover have "in_int64 (chat_used cb - n)" if "l = Some cb" for cb
    using that calculation by (auto simp: chat_ok_def in_int64_def)
  ultimately show "chat_ok (ChatReleaseUnused n l) \<and>
      chat_used_list (ChatReleaseUnused n l) = map (\<lambda>u. max 0 (u - n)) (chat_used_list l)"
    by (auto simp: chat_ok_def chat_used_list_def chat_defs in_int64_def max_def split: option.splits)
qed (auto simp: chat_ok_def chat_used_list_def chat_defs Let_def split: option.splits if_splits)

section \<open>Chat budget: interleavings\<close>

text \<open>
  The compare-and-swap loops under concurrency. Each thread runs one operation; it loads the
  counter, decides, and swaps only if the counter still holds the loaded value, otherwise it
  loads again. Any thread may take the next step. \<open>log\<close> is a ghost: the operations that took
  effect, in the order of their swaps.
\<close>

datatype chat_op = OpConsume int | OpRelease int | OpRecord int

datatype chat_pc = Pending chat_op | Loaded chat_op int | Finished "string option"

record chat_sys =
  shared :: ChatBudget
  pcs :: "nat \<Rightarrow> chat_pc"
  log :: "chat_op list"

inductive chat_step :: "chat_sys \<Rightarrow> chat_sys \<Rightarrow> bool" where
  chat_noop: "pcs s i = Pending p \<Longrightarrow> p = OpConsume n \<or> p = OpRelease n \<or> p = OpRecord n \<Longrightarrow> n \<le> 0 \<Longrightarrow>
    chat_step s (s\<lparr>pcs := (pcs s)(i := Finished None)\<rparr>)"
| chat_load: "pcs s i = Pending p \<Longrightarrow> p = OpConsume n \<or> p = OpRelease n \<Longrightarrow> 0 < n \<Longrightarrow>
    chat_step s (s\<lparr>pcs := (pcs s)(i := Loaded p (chat_used (shared s)))\<rparr>)"
| chat_reject: "pcs s i = Loaded (OpConsume n) cur \<Longrightarrow> wrap64 (cur + n) > chat_max (shared s) \<Longrightarrow>
    chat_step s (s\<lparr>pcs := (pcs s)(i := Finished (Some (chat_error cur (chat_max (shared s)))))\<rparr>)"
| chat_consume: "pcs s i = Loaded (OpConsume n) cur \<Longrightarrow> \<not> wrap64 (cur + n) > chat_max (shared s) \<Longrightarrow>
    chat_used (shared s) = cur \<Longrightarrow>
    chat_step s (s\<lparr>shared := (shared s)\<lparr>chat_used := wrap64 (cur + n)\<rparr>,
      pcs := (pcs s)(i := Finished None), log := log s @ [OpConsume n]\<rparr>)"
| chat_release: "pcs s i = Loaded (OpRelease n) cur \<Longrightarrow> chat_used (shared s) = cur \<Longrightarrow>
    chat_step s (s\<lparr>shared := (shared s)\<lparr>chat_used := max (wrap64 (cur - n)) 0\<rparr>,
      pcs := (pcs s)(i := Finished None), log := log s @ [OpRelease n]\<rparr>)"
| chat_retry: "pcs s i = Loaded p cur \<Longrightarrow> chat_used (shared s) \<noteq> cur \<Longrightarrow>
    chat_step s (s\<lparr>pcs := (pcs s)(i := Pending p)\<rparr>)"
| chat_add: "pcs s i = Pending (OpRecord n) \<Longrightarrow> 0 < n \<Longrightarrow>
    chat_step s (s\<lparr>shared := (shared s)\<lparr>chat_used := wrap64 (chat_used (shared s) + n)\<rparr>,
      pcs := (pcs s)(i := Finished None), log := log s @ [OpRecord n]\<rparr>)"

definition chat_init :: "ChatBudget \<Rightarrow> (nat \<Rightarrow> chat_op) \<Rightarrow> chat_sys" where
  "chat_init cb ops = \<lparr>shared = cb, pcs = (\<lambda>i. Pending (ops i)), log = []\<rparr>"

inductive chat_reachable :: "ChatBudget \<Rightarrow> (nat \<Rightarrow> chat_op) \<Rightarrow> chat_sys \<Rightarrow> bool" for cb ops where
  chat_start: "chat_reachable cb ops (chat_init cb ops)"
| chat_next: "chat_reachable cb ops s \<Longrightarrow> chat_step s t \<Longrightarrow> chat_reachable cb ops t"

text \<open>The sequential operations, run one after another; \<open>None\<close> if one of them is rejected.\<close>

fun chat_seq :: "chat_op list \<Rightarrow> ChatBudget \<Rightarrow> ChatBudget option" where
  "chat_seq [] cb = Some cb"
| "chat_seq (OpConsume n # ps) cb =
     (case TryChatConsume n (Some cb) of (None, Some cb') \<Rightarrow> chat_seq ps cb' | _ \<Rightarrow> None)"
| "chat_seq (OpRelease n # ps) cb =
     (case ChatReleaseUnused n (Some cb) of Some cb' \<Rightarrow> chat_seq ps cb' | None \<Rightarrow> None)"
| "chat_seq (OpRecord n # ps) cb =
     (case ChatRecordUsage n (Some cb) of Some cb' \<Rightarrow> chat_seq ps cb' | None \<Rightarrow> None)"

lemma chat_seq_append:
  "chat_seq (ps @ qs) cb = Option.bind (chat_seq ps cb) (chat_seq qs)"
  by (induction ps cb rule: chat_seq.induct) (auto split: prod.splits option.splits)

definition chat_inv :: "ChatBudget \<Rightarrow> (nat \<Rightarrow> chat_op) \<Rightarrow> chat_sys \<Rightarrow> bool" where
  "chat_inv cb ops s \<longleftrightarrow> chat_seq (log s) cb = Some (shared s) \<and>
     chat_max (shared s) = chat_max cb \<and> set (log s) \<subseteq> range ops \<and>
     (\<forall>i. case pcs s i of
        Pending p \<Rightarrow> p = ops i
      | Loaded p cur \<Rightarrow> p = ops i \<and>
          (\<exists>n. 0 < n \<and> (p = OpConsume n \<or> p = OpRelease n))
      | Finished _ \<Rightarrow> True)"

lemma chat_step_inv [inv_intros]:
  assumes "chat_step s t" "chat_inv cb ops s"
  shows "chat_inv cb ops t"
  using assms
proof (induction rule: chat_step.induct)
  case (chat_consume s i n cur)
  then have "0 < n" "ops i = OpConsume n" by (auto simp: chat_inv_def dest!: spec [of _ i])
  with chat_consume show ?case
    by (auto simp: chat_inv_def chat_seq_append TryChatConsume_def Let_def
        intro: range_eqI [of _ _ i] split: chat_pc.splits)
next
  case (chat_release s i n cur)
  then have "0 < n" "ops i = OpRelease n" by (auto simp: chat_inv_def dest!: spec [of _ i])
  with chat_release show ?case
    by (auto simp: chat_inv_def chat_seq_append ChatReleaseUnused_def
        intro: range_eqI [of _ _ i] split: chat_pc.splits)
next
  case (chat_add s i n)
  then have "ops i = OpRecord n" by (auto simp: chat_inv_def dest!: spec [of _ i])
  with chat_add show ?case
    by (auto simp: chat_inv_def chat_seq_append ChatRecordUsage_def
        intro: range_eqI [of _ _ i] split: chat_pc.splits)
next
  case (chat_retry s i p cur)
  then have "p = ops i" by (auto simp: chat_inv_def dest!: spec [of _ i])
  with chat_retry show ?case by (auto simp: chat_inv_def)
qed (auto simp: chat_inv_def split: chat_pc.splits)

lemma chat_reachable_inv: "chat_reachable cb ops s \<Longrightarrow> chat_inv cb ops s"
proof (induction rule: chat_reachable.induct)
  case chat_start
  show ?case by (simp add: chat_inv_def chat_init_def)
qed (rule chat_step_inv)

text \<open>With no recorded overage the counter never passes the maximum.\<close>

lemma chat_seq_bounded:
  assumes "chat_seq ps cb = Some cb'" "\<forall>p \<in> set ps. \<forall>n. p \<noteq> OpRecord n"
    "chat_ok (Some cb)" "chat_used cb \<le> chat_max cb" "0 \<le> chat_max cb"
    "\<forall>n. OpRelease n \<in> set ps \<longrightarrow> in_int64 n"
    "\<forall>n. OpConsume n \<in> set ps \<longrightarrow> in_int64 (chat_max cb + n)"
  shows "0 \<le> chat_used cb' \<and> chat_used cb' \<le> chat_max cb'"
  using assms
proof (induction ps cb rule: chat_seq.induct)
  case (2 n ps cb)
  have "in_int64 (chat_used cb + n)" if "0 < n"
    using 2(2-) that by (auto simp: in_int64_def chat_ok_def)
  then show ?case using 2
    by (auto simp: TryChatConsume_def Let_def chat_ok_def in_int64_def split: if_splits)
next
  case (3 n ps cb)
  have "in_int64 (chat_used cb - n)" if "0 < n"
    using 3(2-) that by (auto simp: in_int64_def chat_ok_def)
  then show ?case using 3
    by (auto simp: ChatReleaseUnused_def chat_ok_def in_int64_def split: if_splits)
qed (auto simp: chat_ok_def)

section \<open>Properties\<close>

text \<open>\<open>TryConsume\<close> is all or nothing and agrees with \<open>CheckAllowance\<close>: it fails exactly when a
  running window has no room for the estimate, then it changes nothing and its message names such a
  window; otherwise it charges the estimate to every window, restarting the expired ones.\<close>

theorem try_consume_all_or_nothing:
  assumes ok: "budget_ok now (Some b)" and n: "0 \<le> n"
    and fit: "\<forall>u \<in> set (budget_used now (Some b)). in_int64 (u + n)"
  shows "CheckAllowance now n (Some b) = fst (TryConsume now n (Some b)) \<and>
    (case TryConsume now n (Some b) of
       (Some e, bo) \<Rightarrow> bo = Some b \<and>
         (\<exists>i < length (bg_windows b). let w = bg_windows b ! i; u = bg_usage b ! i in
            \<not> window_expired now w u \<and> wu_tokens u + n > bw_Limit w \<and> e = budget_error w u)
     | (None, bo) \<Rightarrow> budget_used now bo = map (\<lambda>u. u + n) (budget_used now (Some b)) \<and>
         (\<forall>i < length (bg_windows b). let w = bg_windows b ! i; u = bg_usage b ! i in
            window_expired now w u \<or> wu_tokens u + n \<le> bw_Limit w))"
proof -
  have len: "length (bg_usage b) = length (bg_windows b)" using ok by (simp add: budget_ok_Some)
  have "\<forall>i < length (bg_windows b). in_int64 (current_tokens now (bg_windows b ! i) (bg_usage b ! i) + n)"
    using fit unfolding budget_used_Some by (rule map2_nth_all [OF len, THEN iffD1])
  then have room: "wrap64 (wu_tokens (bg_usage b ! i) + n) = wu_tokens (bg_usage b ! i) + n"
    if "i < length (bg_windows b)" "\<not> window_expired now (bg_windows b ! i) (bg_usage b ! i)" for i
    using that by (auto simp: current_tokens_def intro: wrap64_id)
  show ?thesis
  proof (cases "check_windows now n (bg_windows b) (bg_usage b)")
    case None
    then obtain bo where eq: "TryConsume now n (Some b) = (None, bo)"
      by (simp add: TryConsume_def)
    moreover have "\<forall>i < length (bg_windows b). window_expired now (bg_windows b ! i) (bg_usage b ! i) \<or>
        wu_tokens (bg_usage b ! i) + n \<le> bw_Limit (bg_windows b ! i)"
      using check_windows_None [OF len, THEN iffD1, OF None] room by metis
    ultimately show ?thesis
      using budget_ledger.reserve_used [OF ok n fit eq] None
      by (simp add: CheckAllowance_def Let_def)
  next
    case (Some e)
    with check_windows_Some [OF len Some] room show ?thesis
      by (auto simp: TryConsume_def CheckAllowance_def Let_def)
  qed
qed

definition example_budget :: Budget where
  "example_budget =
     \<lparr>bg_windows = [\<lparr>bw_Name = ''hourly'', bw_Duration = 100, bw_Limit = 1000\<rparr>],
      bg_usage = [\<lparr>wu_tokens = 600, wu_startedAt = 10\<rparr>]\<rparr>"

lemma example_budget_facts:
  "budget_ok 50 (Some example_budget)" "budget_used 50 (Some example_budget) = [600]"
  by (simp_all add: example_budget_def budget_ok_Some budget_used_Some current_tokens_def
      window_expired_def time_sub_def in_int64_def)

theorem try_consume_all_or_nothing_witness:
  "CheckAllowance 50 500 (Some example_budget) = fst (TryConsume 50 500 (Some example_budget)) \<and>
   fst (TryConsume 50 500 (Some example_budget)) \<noteq> None"
proof -
  have "\<forall>u \<in> set (budget_used 50 (Some example_budget)). in_int64 (u + 500)"
    by (simp add: example_budget_facts in_int64_def)
  then have "CheckAllowance 50 500 (Some example_budget) = fst (TryConsume 50 500 (Some example_budget))"
    using try_consume_all_or_nothing [of 50 example_budget 500] example_budget_facts by simp
  then show ?thesis
    by (simp add: TryConsume_def example_budget_def window_expired_def time_sub_def in_int64_def)
qed

text \<open>C23. From a new budget, no sequence of reservations and refunds takes any window above its limit,
  as long as no single estimate is above a window's limit (and the limits are below \<open>2 ^ 62\<close>).\<close>

theorem budget_never_over_limit:
  assumes "NewBudget now ws = Some b" "\<forall>w \<in> set ws. 0 \<le> bw_Limit w"
    "\<forall>c \<in> set cs. limits_fit ws c"
  shows "\<exists>b'. budget_run cs (Some b) = Some b' \<and> within_limits b'"
  using budget_run_within_limits [of b cs] NewBudget_within_limits [OF assms(1,2)] assms(3) by simp

theorem budget_never_over_limit_witness:
  "let ws = [\<lparr>bw_Name = ''hourly'', bw_Duration = 100, bw_Limit = 1000\<rparr>] in
   \<exists>b'. budget_run [ConsumeCall 10 600, ConsumeCall 20 600, ReleaseCall 300] (NewBudget 5 ws) = Some b' \<and>
     within_limits b'"
proof -
  let ?ws = "[\<lparr>bw_Name = ''hourly'', bw_Duration = 100, bw_Limit = 1000\<rparr>]"
  let ?cs = "[ConsumeCall 10 600, ConsumeCall 20 600, ReleaseCall 300]"
  obtain b where b: "NewBudget 5 ?ws = Some b" by (simp add: NewBudget_def)
  have "\<forall>c \<in> set ?cs. limits_fit ?ws c" by (simp add: limits_fit_def in_int64_def)
  with budget_never_over_limit [OF b, of ?cs] b show ?thesis by (simp add: Let_def)
qed

text \<open>The limit is not checked against a window that has expired: with all windows expired,
  \<open>TryConsume\<close> accepts every estimate, also one above every limit, and charges it in full, while a
  window that has just started rejects the same estimate.\<close>

theorem expired_windows_skip_limit:
  assumes ok: "budget_ok now (Some b)" and n: "0 \<le> n" "in_int64 n"
    and expired: "\<forall>i < length (bg_windows b). window_expired now (bg_windows b ! i) (bg_usage b ! i)"
    and over: "bg_windows b \<noteq> []" "\<forall>w \<in> set (bg_windows b). bw_Limit w < n"
  shows "fst (TryConsume now n (Some b)) = None \<and>
    budget_used now (snd (TryConsume now n (Some b))) = replicate (length (bg_windows b)) n \<and>
    fst (TryConsume now n (NewBudget now (bg_windows b))) \<noteq> None"
proof -
  have len: "length (bg_usage b) = length (bg_windows b)" and dur: "\<forall>w \<in> set (bg_windows b). 0 < bw_Duration w"
    using ok by (simp_all add: budget_ok_Some)
  have used: "budget_used now (Some b) = replicate (length (bg_windows b)) 0"
    unfolding budget_used_Some
    using len expired by (intro nth_equalityI) (simp_all add: current_tokens_def)
  have none: "fst (TryConsume now n (Some b)) = None"
    using expired by (simp add: TryConsume_def check_windows_None [OF len, THEN iffD2])
  then have "TryConsume now n (Some b) = (None, snd (TryConsume now n (Some b)))"
    by (metis prod.collapse)
  then have "budget_used now (snd (TryConsume now n (Some b))) = map (\<lambda>u. u + n) (budget_used now (Some b))"
    using budget_ledger.reserve_used [OF ok n(1)] used n by simp
  moreover have "check_windows now n (bg_windows b)
      (replicate (length (bg_windows b)) \<lparr>wu_tokens = 0, wu_startedAt = now\<rparr>) \<noteq> None"
    using over dur n
    by (cases "bg_windows b") (auto simp: window_expired_def time_sub_def)
  then have "fst (TryConsume now n (NewBudget now (bg_windows b))) \<noteq> None"
    using over by (auto simp: TryConsume_def NewBudget_def)
  ultimately show ?thesis using none used by simp
qed

theorem expired_windows_skip_limit_witness:
  "fst (TryConsume 500 5000 (Some example_budget)) = None \<and>
   budget_used 500 (snd (TryConsume 500 5000 (Some example_budget))) = [5000]"
proof -
  have "budget_ok 500 (Some example_budget)" "bg_windows example_budget \<noteq> []"
    "\<forall>i < length (bg_windows example_budget).
       window_expired 500 (bg_windows example_budget ! i) (bg_usage example_budget ! i)"
    "\<forall>w \<in> set (bg_windows example_budget). bw_Limit w < 5000" "length (bg_windows example_budget) = 1"
    by (simp_all add: example_budget_def budget_ok_Some window_expired_def time_sub_def in_int64_def)
  then show ?thesis
    using expired_windows_skip_limit [of 500 example_budget 5000] by (simp add: in_int64_def)
qed

text \<open>C40. The chat counter is linearisable: however the threads' loads and compare-and-swaps
  interleave, the counter holds what the operations that took effect produce one after another, none
  of which was rejected in that order; and without recorded overage it stays within the maximum.\<close>

theorem chat_budget_linearizable:
  assumes "chat_reachable cb ops s"
  shows "chat_seq (log s) cb = Some (shared s) \<and>
    ((\<forall>i n. ops i \<noteq> OpRecord n) \<longrightarrow>
     (\<forall>i n. ops i = OpConsume n \<or> ops i = OpRelease n \<longrightarrow> in_int64 n \<and> in_int64 (chat_max cb + n)) \<longrightarrow>
     0 \<le> chat_used cb \<longrightarrow> chat_used cb \<le> chat_max cb \<longrightarrow> in_int64 (chat_used cb) \<longrightarrow>
     0 \<le> chat_used (shared s) \<and> chat_used (shared s) \<le> chat_max cb)"
proof -
  have inv: "chat_inv cb ops s" using assms by (rule chat_reachable_inv)
  show ?thesis
  proof (intro conjI impI)
    show "chat_seq (log s) cb = Some (shared s)" using inv by (simp add: chat_inv_def)
    assume *: "\<forall>i n. ops i \<noteq> OpRecord n"
      "\<forall>i n. ops i = OpConsume n \<or> ops i = OpRelease n \<longrightarrow> in_int64 n \<and> in_int64 (chat_max cb + n)"
      "0 \<le> chat_used cb" "chat_used cb \<le> chat_max cb" "in_int64 (chat_used cb)"
    have logs: "\<exists>i. ops i = p" if "p \<in> set (log s)" for p
      using inv that by (auto simp: chat_inv_def)
    have "\<forall>p \<in> set (log s). \<forall>n. p \<noteq> OpRecord n" "\<forall>n. OpRelease n \<in> set (log s) \<longrightarrow> in_int64 n"
      "\<forall>n. OpConsume n \<in> set (log s) \<longrightarrow> in_int64 (chat_max cb + n)"
      using * logs by metis+
    then have "0 \<le> chat_used (shared s) \<and> chat_used (shared s) \<le> chat_max (shared s)"
      using * inv by (intro chat_seq_bounded [of "log s" cb]) (auto simp: chat_inv_def chat_ok_def)
    then show "0 \<le> chat_used (shared s)" "chat_used (shared s) \<le> chat_max cb"
      using inv by (auto simp: chat_inv_def)
  qed
qed

theorem chat_budget_linearizable_witness:
  "let cb = \<lparr>chat_used = 0, chat_max = 100\<rparr>; ops = (\<lambda>i. OpConsume 60);
       s = (chat_init cb ops)\<lparr>pcs := (pcs (chat_init cb ops))(0 := Loaded (OpConsume 60) 0)\<rparr> in
   chat_reachable cb ops s \<and> chat_seq (log s) cb = Some (shared s) \<and> chat_used (shared s) \<le> chat_max cb"
proof -
  let ?cb = "\<lparr>chat_used = 0, chat_max = 100\<rparr>" and ?ops = "\<lambda>i::nat. OpConsume 60"
  let ?s = "(chat_init ?cb ?ops)\<lparr>pcs := (pcs (chat_init ?cb ?ops))(0 := Loaded (OpConsume 60) 0)\<rparr>"
  have "chat_step (chat_init ?cb ?ops) ?s"
    using chat_load [of "chat_init ?cb ?ops" 0 "OpConsume 60" 60] by (simp add: chat_init_def)
  then have r: "chat_reachable ?cb ?ops ?s" by (rule chat_next [OF chat_start])
  show ?thesis
    unfolding Let_def using r chat_budget_linearizable [OF r] by (simp add: in_int64_def)
qed

end
