(* ===== verification/Float64.thy ===== *)
theory Float64
  imports Complex_Main AI_Types
begin

text \<open>
  \<open>float64\<close> arithmetic. A finite double is the rational it denotes (type \<open>f64\<close>); the result of an
  operation is the exact result rounded to 53 significant bits, ties to even (\<open>fl\<close>). The exponent is
  not bounded: the model is exact as long as every intermediate result is zero or has a magnitude
  between \<open>2 ^ (-1022)\<close> and \<open>2 ^ 1024\<close>, which holds for the scores, percentages and confidences the
  code computes.
\<close>

section \<open>Definition\<close>

function ilog2 :: "int \<Rightarrow> nat" where
  "ilog2 n = (if n < 2 then 0 else Suc (ilog2 (n div 2)))"
  by pat_completeness auto
termination by (relation "measure nat") auto

declare ilog2.simps [simp del]

text \<open>\<open>2 ^ e\<close> for an integer exponent.\<close>

definition two_to :: "int \<Rightarrow> rat" where
  "two_to e = (if e \<ge> 0 then 2 ^ nat e else 1 / 2 ^ nat (- e))"

definition exponent :: "rat \<Rightarrow> int" where
  "exponent x =
     (let (a, b) = quotient_of x; k = int (ilog2 a) - int (ilog2 b)
      in if two_to k \<le> x then k else k - 1)"

definition round_even :: "rat \<Rightarrow> int" where
  "round_even x =
     (let f = \<lfloor>x\<rfloor>; d = x - of_int f
      in if d < 1 / 2 then f else if d > 1 / 2 then f + 1 else if even f then f else f + 1)"

definition fl_pos :: "rat \<Rightarrow> f64" where
  "fl_pos x = (let q = two_to (exponent x - 52) in of_int (round_even (x / q)) * q)"

definition fl :: "rat \<Rightarrow> f64" where
  "fl x = (if x = 0 then 0 else if x > 0 then fl_pos x else - fl_pos (- x))"

text \<open>The four operations, and the literal of a decimal constant.\<close>

definition fadd :: "f64 \<Rightarrow> f64 \<Rightarrow> f64" where "fadd x y = fl (x + y)"
definition fsub :: "f64 \<Rightarrow> f64 \<Rightarrow> f64" where "fsub x y = fl (x - y)"
definition fmul :: "f64 \<Rightarrow> f64 \<Rightarrow> f64" where "fmul x y = fl (x * y)"
definition fdiv :: "f64 \<Rightarrow> f64 \<Rightarrow> f64" where "fdiv x y = fl (x / y)"

definition float64 :: "int \<Rightarrow> f64" where "float64 n = fl (of_int n)"

section \<open>Powers of two and the exponent\<close>

lemma two_to_pos [simp]: "0 < two_to e"
  by (simp add: two_to_def)

lemma two_to_nonzero [simp]: "two_to e \<noteq> 0"
  using two_to_pos [of e] by linarith

lemma two_to_nonneg [simp]: "0 \<le> two_to e"
  using two_to_pos [of e] by linarith

lemma two_to_0 [simp]: "two_to 0 = 1"
  by (simp add: two_to_def)

lemma two_to_succ: "two_to (e + 1) = 2 * two_to e"
proof (cases "e \<ge> 0")
  case True
  then show ?thesis by (simp add: two_to_def nat_add_distrib)
next
  case False
  then have "nat (- e) = Suc (nat (- (e + 1)))" by simp
  with False show ?thesis by (auto simp: two_to_def field_simps)
qed

lemma two_to_add_nat: "two_to (e + int n) = two_to e * 2 ^ n"
proof (induction n)
  case (Suc n)
  have "two_to (e + int (Suc n)) = 2 * two_to (e + int n)"
    using two_to_succ [of "e + int n"] by (simp add: algebra_simps)
  with Suc show ?case by simp
qed simp

lemma two_to_nat: "two_to (int n) = 2 ^ n"
  by (simp add: two_to_def)

lemma two_to_mono: "d \<le> e \<Longrightarrow> two_to d \<le> two_to e"
proof -
  assume "d \<le> e"
  then obtain n where "e = d + int n" using zle_iff_zadd by blast
  then show ?thesis by (simp add: two_to_add_nat)
qed

lemma two_to_diff: "two_to (int m - int n) = 2 ^ m / 2 ^ n"
proof -
  have "two_to (int m - int n) * 2 ^ n = two_to (int m)"
    using two_to_add_nat [of "int m - int n" n] by simp
  then show ?thesis by (simp add: two_to_nat field_simps)
qed

lemma ilog2_bounds: "0 < n \<Longrightarrow> 2 ^ ilog2 n \<le> n \<and> n < 2 ^ Suc (ilog2 n)"
proof (induction n rule: ilog2.induct)
  case (1 n)
  show ?case
  proof (cases "n < 2")
    case True
    with 1 show ?thesis by (simp add: ilog2.simps)
  next
    case False
    with 1 have "2 ^ ilog2 (n div 2) \<le> n div 2 \<and> n div 2 < 2 ^ Suc (ilog2 (n div 2))" by simp
    with False show ?thesis by (subst (1 2) ilog2.simps) auto
  qed
qed

lemma exponent_bounds:
  assumes "0 < x"
  shows "two_to (exponent x) \<le> x" "x < two_to (exponent x + 1)"
proof -
  obtain a b where q: "quotient_of x = (a, b)" by force
  have b: "0 < b" using quotient_of_denom_pos [OF q] .
  have x: "x = of_int a / of_int b" using quotient_of_div [OF q] .
  with assms b have a: "0 < a" by (simp add: zero_less_divide_iff)
  let ?m = "ilog2 a" and ?n = "ilog2 b"
  let ?k = "int ?m - int ?n"
  have bm: "2 ^ ?m \<le> rat_of_int a" "rat_of_int a < 2 * 2 ^ ?m"
    "2 ^ ?n \<le> rat_of_int b" "rat_of_int b < 2 * 2 ^ ?n"
    using ilog2_bounds [of a] ilog2_bounds [of b] a b
    by (metis of_int_le_iff of_int_less_iff of_int_power of_int_numeral power_Suc of_int_mult)+
  have lo: "two_to (?k - 1) < x"
  proof -
    have "two_to (?k - 1) = 2 ^ ?m / (2 * 2 ^ ?n)"
      using two_to_diff [of ?m ?n] two_to_succ [of "?k - 1"] by simp
    also have "\<dots> < of_int a / of_int b"
      using bm b by (intro frac_less2) auto
    finally show ?thesis using x by simp
  qed
  have hi: "x < two_to (?k + 1)"
  proof -
    have "of_int a / of_int b < 2 * 2 ^ ?m / (2::rat) ^ ?n"
      using bm b a by (intro frac_less) auto
    also have "\<dots> = two_to (?k + 1)" by (simp add: two_to_succ two_to_diff)
    finally show ?thesis using x by simp
  qed
  show "two_to (exponent x) \<le> x" "x < two_to (exponent x + 1)"
    using lo hi q by (auto simp: exponent_def Let_def)
qed

lemma exponent_le:
  assumes "0 < x" "x \<le> y"
  shows "exponent x \<le> exponent y"
proof (rule ccontr)
  assume "\<not> ?thesis"
  then have "exponent y + 1 \<le> exponent x" by simp
  then have "two_to (exponent y + 1) \<le> two_to (exponent x)" by (rule two_to_mono)
  with exponent_bounds [OF assms(1)] exponent_bounds [of y] assms show False by linarith
qed

lemma exponent_unique:
  assumes "two_to e \<le> x" "x < two_to (e + 1)"
  shows "exponent x = e"
proof (rule ccontr)
  assume "exponent x \<noteq> e"
  then consider "exponent x + 1 \<le> e" | "e + 1 \<le> exponent x" by linarith
  then show False
    using two_to_mono exponent_bounds [of x] assms two_to_pos [of e]
    by cases (meson less_le_trans not_less order_trans)+
qed

section \<open>Rounding\<close>

text \<open>How a rounding is evaluated: its exponent is given, the rest is arithmetic.\<close>

lemma fl_at:
  assumes "two_to e \<le> x" "x < two_to (e + 1)"
  shows "fl x = of_int (round_even (x / two_to (e - 52))) * two_to (e - 52)"
proof -
  have "0 < x" using assms(1) two_to_pos less_le_trans by blast
  with exponent_unique [OF assms] show ?thesis by (simp add: fl_def fl_pos_def Let_def)
qed

lemma round_even_int [simp]: "round_even (of_int n) = n"
  by (simp add: round_even_def)

lemma floor_rat_numeral [simp]:
  "\<lfloor>numeral a / numeral b :: rat\<rfloor> = numeral a div numeral b"
  using floor_divide_of_int_eq [of "numeral a" "numeral b", where 'a = rat] by simp

lemmas fl_eval = two_to_def round_even_def Let_def

lemma round_even_bounds: "\<lfloor>x\<rfloor> \<le> round_even x" "round_even x \<le> \<lfloor>x\<rfloor> + 1"
  by (simp_all add: round_even_def Let_def)

lemma round_even_mono:
  assumes "x \<le> y"
  shows "round_even x \<le> round_even y"
proof (cases "\<lfloor>x\<rfloor> = \<lfloor>y\<rfloor>")
  case True
  with assms show ?thesis by (auto simp: round_even_def Let_def)
next
  case False
  with floor_mono [OF assms] have "\<lfloor>x\<rfloor> + 1 \<le> \<lfloor>y\<rfloor>" by simp
  with round_even_bounds [of x] round_even_bounds [of y] show ?thesis by linarith
qed

lemma fl_pos_between:
  assumes "0 < x"
  shows "two_to (exponent x) \<le> fl_pos x" "fl_pos x \<le> two_to (exponent x + 1)"
proof -
  let ?e = "exponent x" and ?q = "two_to (exponent x - 52)"
  have q: "two_to ?e = of_int (2 ^ 52) * ?q" "two_to (?e + 1) = of_int (2 ^ 53) * ?q"
    using two_to_add_nat [of "?e - 52" 52] two_to_add_nat [of "?e - 52" 53]
    by (simp_all add: add.commute mult.commute)
  have "of_int (2 ^ 52) \<le> x / ?q" "x / ?q \<le> of_int (2 ^ 53)"
    using exponent_bounds [OF assms] q by (simp_all add: field_simps)
  then have "2 ^ 52 \<le> round_even (x / ?q)" "round_even (x / ?q) \<le> 2 ^ 53"
    by (metis round_even_mono round_even_int)+
  then have "rat_of_int (2 ^ 52) \<le> of_int (round_even (x / ?q))"
    "of_int (round_even (x / ?q)) \<le> rat_of_int (2 ^ 53)"
    by (simp_all only: of_int_le_iff)
  then show "two_to (exponent x) \<le> fl_pos x" "fl_pos x \<le> two_to (exponent x + 1)"
    unfolding q fl_pos_def Let_def by (simp_all add: mult_right_mono less_imp_le)
qed

lemma fl_pos_mono:
  assumes "0 < x" "x \<le> y"
  shows "fl_pos x \<le> fl_pos y"
proof (cases "exponent x = exponent y")
  case True
  let ?q = "two_to (exponent y - 52)"
  have "x / ?q \<le> y / ?q" using assms by (simp add: divide_right_mono less_imp_le)
  then have "rat_of_int (round_even (x / ?q)) \<le> of_int (round_even (y / ?q))"
    using round_even_mono by (simp only: of_int_le_iff)
  with True show ?thesis by (simp add: fl_pos_def Let_def)
next
  case False
  with exponent_le [OF assms] have "exponent x + 1 \<le> exponent y" by simp
  with two_to_mono fl_pos_between [of x] fl_pos_between [of y] assms show ?thesis
    by (meson less_le_trans order_trans)
qed

lemma fl_pos_pos: "0 < x \<Longrightarrow> 0 < fl_pos x"
  using fl_pos_between(1) two_to_pos less_le_trans by blast

text \<open>Rounding keeps order, and so it keeps every bound that is itself a double.\<close>

lemma fl_mono:
  assumes "x \<le> y"
  shows "fl x \<le> fl y"
proof -
  consider "0 < x" | "x = 0" | "x < 0" "y < 0" | "x < 0" "y = 0" | "x < 0" "0 < y" by linarith
  then show ?thesis
  proof cases
    case 3
    then show ?thesis using fl_pos_mono [of "- y" "- x"] assms by (simp add: fl_def)
  next
    case 5
    then show ?thesis using fl_pos_pos [of y] fl_pos_pos [of "- x"] by (simp add: fl_def)
  qed (use assms fl_pos_mono [of x y] fl_pos_pos [of y] fl_pos_pos [of "- x"] in \<open>auto simp: fl_def\<close>)
qed

lemma fl_0 [simp]: "fl 0 = 0"
  by (simp add: fl_def)

text \<open>Integers of at most 53 bits are doubles.\<close>

lemma fl_pos_int:
  assumes "0 < n" "n < 2 ^ 53"
  shows "fl_pos (of_int n) = of_int n"
proof -
  let ?e = "exponent (of_int n)"
  have "two_to ?e < two_to 53"
    using exponent_bounds(1) [of "of_int n"] assms by (simp add: two_to_def)
  then have "?e \<le> 52" using two_to_mono [of 53 ?e] by force
  then have q: "two_to (?e - 52) * 2 ^ nat (52 - ?e) = 1"
    using two_to_add_nat [of "?e - 52" "nat (52 - ?e)"] by simp
  then have "of_int n / two_to (?e - 52) = of_int (n * 2 ^ nat (52 - ?e))"
    by (simp add: field_simps)
  then have "fl_pos (of_int n) = of_int (n * 2 ^ nat (52 - ?e)) * two_to (?e - 52)"
    by (simp add: fl_pos_def Let_def del: of_int_mult of_int_power)
  also have "\<dots> = of_int n" using q by (simp add: algebra_simps)
  finally show ?thesis .
qed

lemma fl_int: "\<bar>n\<bar> < 2 ^ 53 \<Longrightarrow> fl (of_int n) = of_int n"
  using fl_pos_int [of n] fl_pos_int [of "- n"] by (auto simp: fl_def abs_if split: if_splits)

lemma fl_1 [simp]: "fl 1 = 1"
  using fl_int [of 1] by simp

lemma fl_numeral [simp]: "(numeral n :: int) < 2 ^ 53 \<Longrightarrow> fl (numeral n) = numeral n"
  using fl_int [of "numeral n"] by simp

lemma float64_int: "\<bar>n\<bar> < 2 ^ 53 \<Longrightarrow> float64 n = of_int n"
  by (simp add: float64_def fl_int)

lemma fl_nonneg: "0 \<le> x \<Longrightarrow> 0 \<le> fl x"
  using fl_mono [of 0 x] by simp

lemma fl_le_1: "x \<le> 1 \<Longrightarrow> fl x \<le> 1"
  using fl_mono [of x 1] by simp

lemma fl_unit: "0 \<le> x \<Longrightarrow> x \<le> 1 \<Longrightarrow> 0 \<le> fl x \<and> fl x \<le> 1"
  by (simp add: fl_nonneg fl_le_1)

end
