(* ===== verification/AI_Provider.thy ===== *)
theory AI_Provider
  imports Response_Cache Token_Budget Float64
begin

text \<open>
  The providers and how they are made: the model catalogue (\<open>internal/ai/catalog.go\<close>), the
  configuration and the factory (\<open>factory.go\<close>, \<open>provider.go\<close>), the constructors of the two HTTP
  providers (\<open>openai.go\<close>, \<open>anthropic.go\<close>) and the whole of the static one (\<open>noop.go\<close>). The
  environment (\<open>os.Getenv\<close>) is the argument \<open>getenv\<close>. A \<open>float64\<close> literal is the rounding of
  its decimal.
\<close>

section \<open>The model catalogue\<close>

datatype ModelStatus = ModelStatusActive | ModelStatusDeprecated

datatype ModelTier = ModelTierPrimary | ModelTierExplain | ModelTierBoth

record ModelEntry =
  me_ID :: string
  me_Label :: string
  me_Status :: ModelStatus
  me_PricingHint :: string
  me_VerifiedAt :: string
  me_Tier :: ModelTier

type_synonym ModelCatalog = "(string \<times> ModelEntry list) list"

definition ProviderNameNoop :: string where "ProviderNameNoop = ''noop''"
definition ProviderNameOpenAI :: string where "ProviderNameOpenAI = ''openai''"
definition ProviderNameAnthropic :: string where "ProviderNameAnthropic = ''anthropic''"
definition defaultOpenAIModel :: string where "defaultOpenAIModel = ''gpt-4o-mini''"
definition defaultAnthropicModel :: string where "defaultAnthropicModel = ''claude-haiku-4-5-20251001''"

lemmas provider_names = ProviderNameNoop_def ProviderNameOpenAI_def ProviderNameAnthropic_def
  defaultOpenAIModel_def defaultAnthropicModel_def

definition DefaultCatalog :: ModelCatalog where
  "DefaultCatalog =
     [(ProviderNameAnthropic,
       [\<lparr>me_ID = ''claude-haiku-4-5-20251001'', me_Label = ''Claude Haiku 4.5'',
         me_Status = ModelStatusActive, me_PricingHint = ''$0.80/MTok in, $4/MTok out'',
         me_VerifiedAt = ''2026-02-08'', me_Tier = ModelTierBoth\<rparr>,
        \<lparr>me_ID = ''claude-sonnet-4-5-20250929'', me_Label = ''Claude Sonnet 4.5'',
         me_Status = ModelStatusActive, me_PricingHint = ''$3/MTok in, $15/MTok out'',
         me_VerifiedAt = ''2026-02-08'', me_Tier = ModelTierPrimary\<rparr>,
        \<lparr>me_ID = ''claude-opus-4-6'', me_Label = ''Claude Opus 4.6'',
         me_Status = ModelStatusActive, me_PricingHint = ''$15/MTok in, $75/MTok out'',
         me_VerifiedAt = ''2026-02-08'', me_Tier = ModelTierPrimary\<rparr>,
        \<lparr>me_ID = ''claude-3-5-haiku-20241022'', me_Label = ''Claude 3.5 Haiku (Legacy)'',
         me_Status = ModelStatusDeprecated, me_PricingHint = ''$0.80/MTok in, $4/MTok out'',
         me_VerifiedAt = ''2026-02-08'', me_Tier = ModelTierExplain\<rparr>]),
      (ProviderNameOpenAI,
       [\<lparr>me_ID = ''gpt-4o-mini'', me_Label = ''GPT-4o Mini'',
         me_Status = ModelStatusActive, me_PricingHint = ''$0.15/MTok in, $0.60/MTok out'',
         me_VerifiedAt = ''2026-02-08'', me_Tier = ModelTierBoth\<rparr>,
        \<lparr>me_ID = ''gpt-4o'', me_Label = ''GPT-4o'',
         me_Status = ModelStatusActive, me_PricingHint = ''$2.50/MTok in, $10/MTok out'',
         me_VerifiedAt = ''2026-02-08'', me_Tier = ModelTierPrimary\<rparr>,
        \<lparr>me_ID = ''gpt-4.1-mini'', me_Label = ''GPT-4.1 Mini'',
         me_Status = ModelStatusActive, me_PricingHint = ''$0.40/MTok in, $1.60/MTok out'',
         me_VerifiedAt = ''2026-02-08'', me_Tier = ModelTierBoth\<rparr>,
        \<lparr>me_ID = ''gpt-4.1'', me_Label = ''GPT-4.1'',
         me_Status = ModelStatusActive, me_PricingHint = ''$2/MTok in, $8/MTok out'',
         me_VerifiedAt = ''2026-02-08'', me_Tier = ModelTierPrimary\<rparr>])]"

definition ForProvider :: "ModelCatalog \<Rightarrow> string \<Rightarrow> ModelEntry list" where
  "ForProvider c provider = (case map_of c provider of None \<Rightarrow> [] | Some ms \<Rightarrow> ms)"

text \<open>The cost table, in dollars per thousand tokens.\<close>

definition model_costs :: "(string \<times> f64) list" where
  "model_costs =
     [(''claude-haiku-4-5-20251001'', fl (125 / 100000)),
      (''claude-3-5-haiku-20241022'', fl (125 / 100000)),
      (''claude-sonnet-4-5-20250929'', fl (5 / 1000)),
      (''claude-opus-4-6'', fl (25 / 1000)),
      (''gpt-4o-mini'', fl (75 / 100000)),
      (''gpt-4o'', fl (375 / 100000)),
      (''gpt-4.1-mini'', fl (1 / 1000)),
      (''gpt-4.1'', fl (3 / 1000))]"

definition defaultProviderCost :: "string \<Rightarrow> f64" where
  "defaultProviderCost provider =
     (if provider = ProviderNameAnthropic then fl (125 / 100000)
      else if provider = ProviderNameOpenAI then fl (75 / 100000)
      else 0)"

definition costForModel :: "string \<Rightarrow> string \<Rightarrow> f64" where
  "costForModel provider modelID =
     (case map_of model_costs modelID of Some c \<Rightarrow> c | None \<Rightarrow> defaultProviderCost provider)"

definition CostPer1KTokens :: "string \<Rightarrow> string \<Rightarrow> f64" where
  "CostPer1KTokens provider model =
     (if list_ex (\<lambda>m. me_ID m = model) (ForProvider DefaultCatalog provider)
      then costForModel provider model else defaultProviderCost provider)"

section \<open>Configuration\<close>

record Config =
  cf_Provider :: string
  cf_APIKey :: string
  cf_Endpoint :: string
  cf_Model :: string
  cf_MaxTokens :: int
  cf_Timeout :: int
  cf_MaxIssues :: int
  cf_MinConfidence :: f64
  cf_ExplainModel :: string
  cf_DailyTokenLimit :: int
  cf_MonthlyTokenLimit :: int

definition DefaultConfig :: Config where
  "DefaultConfig = \<lparr>cf_Provider = ''noop'', cf_APIKey = [], cf_Endpoint = [], cf_Model = [],
     cf_MaxTokens = 16384, cf_Timeout = 60, cf_MaxIssues = 15,
     cf_MinConfidence = fl (3 / 10), cf_ExplainModel = [],
     cf_DailyTokenLimit = 0, cf_MonthlyTokenLimit = 0\<rparr>"

definition or_else :: "string \<Rightarrow> string \<Rightarrow> string" where
  "or_else v d = (if v \<noteq> [] then v else d)"

definition ConfigFromEnv :: "(string \<Rightarrow> string) \<Rightarrow> Config" where
  "ConfigFromEnv getenv =
     DefaultConfig\<lparr>
       cf_Provider := or_else (getenv ''KUBE_ASSIST_AI_PROVIDER'') (cf_Provider DefaultConfig),
       cf_APIKey := or_else (getenv ''KUBE_ASSIST_AI_API_KEY'') (cf_APIKey DefaultConfig),
       cf_Endpoint := or_else (getenv ''KUBE_ASSIST_AI_ENDPOINT'') (cf_Endpoint DefaultConfig),
       cf_Model := or_else (getenv ''KUBE_ASSIST_AI_MODEL'') (cf_Model DefaultConfig)\<rparr>"

section \<open>Providers\<close>

record http_provider =
  hp_apiKey :: string
  hp_endpoint :: string
  hp_model :: string
  hp_maxTokens :: int
  hp_timeout :: duration

datatype Provider = OpenAIProvider http_provider | AnthropicProvider http_provider | NoOpProvider

definition NewOpenAIProvider :: "Config \<Rightarrow> Provider" where
  "NewOpenAIProvider config =
     (let endpoint = or_else (cf_Endpoint config) ''https://api.openai.com/v1/chat/completions'';
          model = or_else (cf_Model config) defaultOpenAIModel;
          maxTokens = (if cf_MaxTokens config = 0 then 16384 else cf_MaxTokens config);
          timeout = wrap64 (cf_Timeout config * second);
          timeout' = (if timeout = 0 then 30 * second else timeout)
      in OpenAIProvider \<lparr>hp_apiKey = cf_APIKey config, hp_endpoint = endpoint, hp_model = model,
           hp_maxTokens = maxTokens, hp_timeout = timeout'\<rparr>)"

definition NewAnthropicProvider :: "Config \<Rightarrow> Provider" where
  "NewAnthropicProvider config =
     (let endpoint = or_else (cf_Endpoint config) ''https://api.anthropic.com/v1/messages'';
          model = or_else (cf_Model config) defaultAnthropicModel;
          maxTokens = (if cf_MaxTokens config = 0 then 16384 else cf_MaxTokens config);
          timeout = wrap64 (cf_Timeout config * second);
          timeout' = (if timeout = 0 then 90 * second else timeout)
      in AnthropicProvider \<lparr>hp_apiKey = cf_APIKey config, hp_endpoint = endpoint, hp_model = model,
           hp_maxTokens = maxTokens, hp_timeout = timeout'\<rparr>)"

fun provider_Name :: "Provider \<Rightarrow> string" where
  "provider_Name (OpenAIProvider _) = ProviderNameOpenAI"
| "provider_Name (AnthropicProvider _) = ProviderNameAnthropic"
| "provider_Name NoOpProvider = ProviderNameNoop"

fun provider_Available :: "Provider \<Rightarrow> bool" where
  "provider_Available (OpenAIProvider p) = (hp_apiKey p \<noteq> [])"
| "provider_Available (AnthropicProvider p) = (hp_apiKey p \<noteq> [])"
| "provider_Available NoOpProvider = True"

text \<open>The model a provider sends its requests to; the static provider has none.\<close>

fun provider_model :: "Provider \<Rightarrow> string option" where
  "provider_model (OpenAIProvider p) = Some (hp_model p)"
| "provider_model (AnthropicProvider p) = Some (hp_model p)"
| "provider_model NoOpProvider = None"

subsection \<open>The static provider\<close>

definition noop_suggestion :: "AnalysisRequest \<Rightarrow> IssueContext \<Rightarrow> EnhancedSuggestion" where
  "noop_suggestion request issue =
     (let rootCause =
        (case ar_CausalContext request of
           Some cc \<Rightarrow> if cac_Groups cc \<noteq> []
             then ''[NoOp AI] Causal context: '' @ itoa (int (length (cac_Groups cc))) @
                  '' groups, '' @ itoa (cac_TotalIssues cc) @ '' total issues''
             else ''This is a test suggestion from the NoOp AI provider.''
         | None \<Rightarrow> ''This is a test suggestion from the NoOp AI provider.'')
      in \<lparr>es_Suggestion = ''[NoOp AI] '' @ ic_StaticSuggestion issue, es_RootCause = rootCause,
          es_Steps = [], es_References = [], es_Confidence = 1\<rparr>)"

definition noop_insight :: "nat \<Rightarrow> CausalGroupSummary \<Rightarrow> CausalGroupInsight" where
  "noop_insight i g =
     \<lparr>cgi_GroupID = ''group_'' @ itoa (int i),
      cgi_AIRootCause = ''[NoOp AI] Root cause for '' @ cgs_Rule g @ '': '' @ cgs_RootCause g,
      cgi_AISuggestion = ''[NoOp AI] Suggestion for '' @ cgs_Rule g @ '' group'',
      cgi_AISteps = [], cgi_Confidence = fl (9 / 10)\<rparr>"

definition noop_Analyze :: "AnalysisRequest \<Rightarrow> AnalysisResponse" where
  "noop_Analyze request =
     \<lparr>rs_EnhancedSuggestions =
        fold (\<lambda>(i, issue) m. m(issue_key i \<mapsto> noop_suggestion request issue))
          (enumerate 0 (ar_Issues request)) Map.empty,
      rs_CausalInsights =
        (case ar_CausalContext request of None \<Rightarrow> []
         | Some cc \<Rightarrow> map (\<lambda>(i, g). noop_insight i g) (enumerate 0 (cac_Groups cc))),
      rs_Summary = [], rs_RawContent = [], rs_TokensUsed = 0, rs_Truncated = False,
      rs_ParseFailed = False\<rparr>"

section \<open>The factory\<close>

definition resolve_api_key :: "(string \<Rightarrow> string) \<Rightarrow> string \<Rightarrow> string" where
  "resolve_api_key getenv key = (case key of c # name \<Rightarrow> if c = CHR ''$'' then getenv name else key | [] \<Rightarrow> key)"

text \<open>The second result is whether the log line about a model missing from the catalogue is written.\<close>

definition createSingleProvider :: "(string \<Rightarrow> string) \<Rightarrow> Config \<Rightarrow> (string + Provider) \<times> bool" where
  "createSingleProvider getenv config =
     (let resolved = config\<lparr>cf_APIKey := resolve_api_key getenv (cf_APIKey config)\<rparr>;
          providerName = to_lower (cf_Provider config);
          logged = (cf_Model resolved \<noteq> [] \<and> providerName \<noteq> ProviderNameNoop \<and> providerName \<noteq> [] \<and>
            \<not> list_ex (\<lambda>m. me_ID m = cf_Model resolved) (ForProvider DefaultCatalog providerName))
      in (if providerName = ProviderNameOpenAI then Inr (NewOpenAIProvider resolved)
          else if providerName = ProviderNameAnthropic then Inr (NewAnthropicProvider resolved)
          else if providerName = ProviderNameNoop \<or> providerName = [] then Inr NoOpProvider
          else Inl (''unknown AI provider: '' @ cf_Provider config), logged))"

definition resolved_model :: "Config \<Rightarrow> string" where
  "resolved_model config =
     (if cf_Model config = []
      then if to_lower (cf_Provider config) = ProviderNameOpenAI then defaultOpenAIModel
           else if to_lower (cf_Provider config) = ProviderNameAnthropic then defaultAnthropicModel
           else []
      else cf_Model config)"

definition budget_windows :: "Config \<Rightarrow> BudgetWindow list" where
  "budget_windows config =
     (if cf_DailyTokenLimit config > 0
      then [\<lparr>bw_Name = ''daily'', bw_Duration = 24 * hour, bw_Limit = cf_DailyTokenLimit config\<rparr>] else []) @
     (if cf_MonthlyTokenLimit config > 0
      then [\<lparr>bw_Name = ''monthly'', bw_Duration = 30 * 24 * hour, bw_Limit = cf_MonthlyTokenLimit config\<rparr>] else [])"

definition NewProvider :: "(string \<Rightarrow> string) \<Rightarrow> time \<Rightarrow> Config \<Rightarrow>
    string + (Provider \<times> Provider \<times> Budget option)" where
  "NewProvider getenv now config =
     (case fst (createSingleProvider getenv config) of
        Inl e \<Rightarrow> Inl e
      | Inr primary \<Rightarrow>
          let explain =
            (if cf_ExplainModel config \<noteq> [] \<and> cf_ExplainModel config \<noteq> resolved_model config
             then (case fst (createSingleProvider getenv (config\<lparr>cf_Model := cf_ExplainModel config\<rparr>)) of
                     Inl e \<Rightarrow> Inl (''creating explain provider: '' @ e)
                   | Inr p \<Rightarrow> Inr p)
             else Inr primary)
          in (case explain of
                Inl e \<Rightarrow> Inl e
              | Inr ex \<Rightarrow> Inr (primary, ex, NewBudget now (budget_windows config))))"

section \<open>Properties\<close>

lemma createSingleProvider_cases:
  assumes "fst (createSingleProvider getenv config) = Inr p"
  obtains (openai) "to_lower (cf_Provider config) = ProviderNameOpenAI"
      "p = NewOpenAIProvider (config\<lparr>cf_APIKey := resolve_api_key getenv (cf_APIKey config)\<rparr>)"
  | (anthropic) "to_lower (cf_Provider config) = ProviderNameAnthropic"
      "p = NewAnthropicProvider (config\<lparr>cf_APIKey := resolve_api_key getenv (cf_APIKey config)\<rparr>)"
  | (noop) "to_lower (cf_Provider config) \<in> {ProviderNameNoop, []}" "p = NoOpProvider"
  using assms by (auto simp: createSingleProvider_def Let_def split: if_splits)

lemma created_provider_model:
  assumes "fst (createSingleProvider getenv config) = Inr p" "p \<noteq> NoOpProvider"
  shows "provider_model p = Some (if cf_Model config = [] then resolved_model config else cf_Model config)"
  using assms(1)
  by (cases rule: createSingleProvider_cases)
    (use assms(2) in \<open>simp_all add: NewOpenAIProvider_def NewAnthropicProvider_def Let_def
      or_else_def resolved_model_def provider_names\<close>)

lemma created_provider_kind:
  assumes "fst (createSingleProvider getenv c) = Inr p" "fst (createSingleProvider getenv (c\<lparr>cf_Model := m\<rparr>)) = Inr q"
  shows "provider_Name q = provider_Name p \<and> (q = NoOpProvider \<longleftrightarrow> p = NoOpProvider)"
  using assms(1)
  by (cases rule: createSingleProvider_cases)
    (use assms(2) in \<open>auto elim!: createSingleProvider_cases
      simp: NewOpenAIProvider_def NewAnthropicProvider_def Let_def provider_names\<close>)

text \<open>The factory routes models: the explain provider is always of the primary's kind, the primary
  sends to the configured model (or the provider's default), the explain provider to the explain model
  when one is given, else to the primary's; and a budget is returned exactly when some limit is positive,
  with nothing charged.\<close>

theorem factory_routes_models:
  assumes "NewProvider getenv now config = Inr (p, ex, b)"
  shows "provider_Name ex = provider_Name p \<and>
    (p \<noteq> NoOpProvider \<longrightarrow> provider_model p = Some (resolved_model config) \<and>
      provider_model ex = Some (or_else (cf_ExplainModel config) (resolved_model config))) \<and>
    (b = None \<longleftrightarrow> cf_DailyTokenLimit config \<le> 0 \<and> cf_MonthlyTokenLimit config \<le> 0) \<and>
    set (budget_used now b) \<subseteq> {0}"
proof -
  have p: "fst (createSingleProvider getenv config) = Inr p"
    and b: "b = NewBudget now (budget_windows config)"
    using assms by (auto simp: NewProvider_def Let_def split: sum.splits)
  have model: "p \<noteq> NoOpProvider \<Longrightarrow> provider_model p = Some (resolved_model config)"
    using created_provider_model [OF p] by (simp add: resolved_model_def)
  have ex: "provider_Name ex = provider_Name p \<and> (p \<noteq> NoOpProvider \<longrightarrow>
      provider_model ex = Some (or_else (cf_ExplainModel config) (resolved_model config)))"
  proof (cases "cf_ExplainModel config \<noteq> [] \<and> cf_ExplainModel config \<noteq> resolved_model config")
    case True
    with assms p have q: "fst (createSingleProvider getenv (config\<lparr>cf_Model := cf_ExplainModel config\<rparr>)) = Inr ex"
      by (auto simp: NewProvider_def Let_def split: sum.splits)
    from created_provider_kind [OF p q] created_provider_model [OF q] True show ?thesis
      by (simp add: or_else_def)
  next
    case False
    with assms p have "ex = p" by (auto simp: NewProvider_def Let_def)
    with model False show ?thesis by (auto simp: or_else_def)
  qed
  have "set (budget_used now b) \<subseteq> {0}"
    unfolding b NewBudget_def
    by (auto simp: budget_used_Some current_tokens_def dest!: set_zip_rightD split: if_splits)
  with ex model b show ?thesis by (auto simp: NewBudget_def budget_windows_def)
qed

lemma lower_OpenAI: "to_lower ''OpenAI'' = ''openai''"
  by code_simp

lemma lower_names: "to_lower [] = []" "to_lower ''noop'' = ''noop''" "to_lower ''openai'' = ''openai''" "to_lower ''anthropic'' = ''anthropic''"
  by code_simp+

theorem factory_routes_models_witness:
  "\<exists>p ex b. NewProvider (\<lambda>_. ''k'') 0
      (DefaultConfig\<lparr>cf_Provider := ''OpenAI'', cf_ExplainModel := ''gpt-4o'', cf_DailyTokenLimit := 9\<rparr>) =
      Inr (p, ex, b) \<and> provider_model p = Some ''gpt-4o-mini'' \<and> provider_model ex = Some ''gpt-4o'' \<and> b \<noteq> None"
proof -
  let ?c = "DefaultConfig\<lparr>cf_Provider := ''OpenAI'', cf_ExplainModel := ''gpt-4o'', cf_DailyTokenLimit := 9\<rparr>"
  have "\<exists>p ex b. NewProvider (\<lambda>_. ''k'') 0 ?c = Inr (p, ex, b) \<and> p \<noteq> NoOpProvider"
    by (simp add: NewProvider_def createSingleProvider_def Let_def provider_names DefaultConfig_def
        lower_OpenAI NewOpenAIProvider_def resolved_model_def)
  then obtain p ex b where n: "NewProvider (\<lambda>_. ''k'') 0 ?c = Inr (p, ex, b)" "p \<noteq> NoOpProvider" by blast
  have "resolved_model ?c = ''gpt-4o-mini''"
    by (simp add: resolved_model_def DefaultConfig_def provider_names lower_OpenAI)
  with factory_routes_models [OF n(1)] n show ?thesis by (auto simp: or_else_def DefaultConfig_def)
qed

end
