(* ===== verification/Circuit_Breaker.thy ===== *)
theory Circuit_Breaker
  imports Go_Prelude
begin

text \<open>
  The circuit breaker of \<open>internal/ai/circuitbreaker.go\<close>: its state, its operations with the
  clock reading as an argument, the step relation of a breaker in use and what holds along its
  runs. The mutex is not modelled: every operation takes it first, so the operations are the
  atomic steps. The callback is run after the unlock; an operation returns the transition that
  it announces.
\<close>

section \<open>State and operations\<close>

datatype CircuitState = CircuitClosed | CircuitOpen | CircuitHalfOpen

fun CircuitState_String :: "CircuitState \<Rightarrow> string" where
  "CircuitState_String CircuitClosed = ''closed''"
| "CircuitState_String CircuitOpen = ''open''"
| "CircuitState_String CircuitHalfOpen = ''half-open''"

record CircuitBreaker =
  cb_state :: CircuitState
  consecutiveFailures :: int
  failureThreshold :: int
  resetTimeout :: duration
  lastFailureTime :: time
  onStateChange :: bool

type_synonym stateTransition = "CircuitState \<times> CircuitState"

definition NewCircuitBreaker :: "int \<Rightarrow> duration \<Rightarrow> bool \<Rightarrow> CircuitBreaker" where
  "NewCircuitBreaker threshold timeout callback =
     \<lparr>cb_state = CircuitClosed, consecutiveFailures = 0, failureThreshold = threshold,
      resetTimeout = timeout, lastFailureTime = zero_time, onStateChange = callback\<rparr>"

definition setStateLocked ::
    "CircuitState \<Rightarrow> CircuitBreaker \<Rightarrow> stateTransition option \<times> CircuitBreaker" where
  "setStateLocked newState cb =
     (let old = cb_state cb in
      (if onStateChange cb \<and> old \<noteq> newState then Some (old, newState) else None,
       cb\<lparr>cb_state := newState\<rparr>))"

definition Allow :: "time \<Rightarrow> CircuitBreaker \<Rightarrow> bool \<times> stateTransition option \<times> CircuitBreaker" where
  "Allow now cb =
     (case cb_state cb of
        CircuitClosed \<Rightarrow> (True, None, cb)
      | CircuitOpen \<Rightarrow>
          if time_sub now (lastFailureTime cb) \<ge> resetTimeout cb
          then (True, setStateLocked CircuitHalfOpen cb)
          else (False, None, cb)
      | CircuitHalfOpen \<Rightarrow> (False, None, cb))"

definition RecordSuccess :: "CircuitBreaker \<Rightarrow> stateTransition option \<times> CircuitBreaker" where
  "RecordSuccess cb =
     (let cb1 = cb\<lparr>consecutiveFailures := 0\<rparr> in
      if cb_state cb1 = CircuitHalfOpen then setStateLocked CircuitClosed cb1 else (None, cb1))"

definition RecordFailure :: "time \<Rightarrow> CircuitBreaker \<Rightarrow> stateTransition option \<times> CircuitBreaker" where
  "RecordFailure now cb =
     (let cb1 = cb\<lparr>consecutiveFailures := wrap64 (consecutiveFailures cb + 1),
                   lastFailureTime := now\<rparr> in
      if cb_state cb1 = CircuitHalfOpen \<or> consecutiveFailures cb1 \<ge> failureThreshold cb1
      then setStateLocked CircuitOpen cb1 else (None, cb1))"

definition RecordRateLimit :: "time \<Rightarrow> CircuitBreaker \<Rightarrow> CircuitBreaker" where
  "RecordRateLimit now cb = cb\<lparr>lastFailureTime := now\<rparr>"

definition State :: "CircuitBreaker \<Rightarrow> CircuitState" where
  "State cb = cb_state cb"

lemmas breaker_op_defs = setStateLocked_def Allow_def RecordSuccess_def RecordFailure_def
  RecordRateLimit_def Let_def

section \<open>A breaker in use\<close>

text \<open>
  The calls a client makes, each with the clock reading it sees, and the step relation: which
  call leads from which breaker to which, with the call's answer (for \<open>Allow\<close>) and the
  announced transition.
\<close>

datatype cb_call = CallAllow time | CallSuccess | CallFailure time | CallRateLimit time

inductive cb_step ::
    "CircuitBreaker \<Rightarrow> cb_call \<Rightarrow> bool option \<Rightarrow> stateTransition option \<Rightarrow> CircuitBreaker \<Rightarrow> bool" where
  step_allow: "Allow now cb = (ok, tr, cb') \<Longrightarrow> cb_step cb (CallAllow now) (Some ok) tr cb'"
| step_success: "RecordSuccess cb = (tr, cb') \<Longrightarrow> cb_step cb CallSuccess None tr cb'"
| step_failure: "RecordFailure now cb = (tr, cb') \<Longrightarrow> cb_step cb (CallFailure now) None tr cb'"
| step_rate_limit: "cb_step cb (CallRateLimit now) None None (RecordRateLimit now cb)"

inductive_cases cb_stepE: "cb_step cb c ans tr cb'"

inductive_simps cb_step_simps:
  "cb_step cb (CallAllow now) ans tr cb'"
  "cb_step cb CallSuccess ans tr cb'"
  "cb_step cb (CallFailure now) ans tr cb'"
  "cb_step cb (CallRateLimit now) ans tr cb'"

inductive cb_reachable :: "int \<Rightarrow> duration \<Rightarrow> bool \<Rightarrow> CircuitBreaker \<Rightarrow> bool"
  for threshold timeout callback where
  cb_start: "cb_reachable threshold timeout callback (NewCircuitBreaker threshold timeout callback)"
| cb_next: "cb_reachable threshold timeout callback cb \<Longrightarrow> cb_step cb c ans tr cb' \<Longrightarrow>
     cb_reachable threshold timeout callback cb'"

text \<open>The same as a function: running a list of calls and collecting the answers of \<open>Allow\<close>.\<close>

fun cb_call_fun :: "cb_call \<Rightarrow> CircuitBreaker \<Rightarrow> bool list \<times> CircuitBreaker" where
  "cb_call_fun (CallAllow now) cb = (case Allow now cb of (ok, _, cb') \<Rightarrow> ([ok], cb'))"
| "cb_call_fun CallSuccess cb = ([], snd (RecordSuccess cb))"
| "cb_call_fun (CallFailure now) cb = ([], snd (RecordFailure now cb))"
| "cb_call_fun (CallRateLimit now) cb = ([], RecordRateLimit now cb)"

fun cb_run :: "cb_call list \<Rightarrow> CircuitBreaker \<Rightarrow> bool list \<times> CircuitBreaker" where
  "cb_run [] cb = ([], cb)"
| "cb_run (c # cs) cb =
     (case cb_call_fun c cb of (out, cb') \<Rightarrow>
        case cb_run cs cb' of (outs, cb'') \<Rightarrow> (out @ outs, cb''))"

lemma cb_run_append:
  "cb_run (cs @ ds) cb =
     (case cb_run cs cb of (o1, cb1) \<Rightarrow> case cb_run ds cb1 of (o2, cb2) \<Rightarrow> (o1 @ o2, cb2))"
  by (induction cs arbitrary: cb) (auto split: prod.splits)

lemma cb_call_fun_step:
  "\<exists>ans tr. cb_step cb c ans tr (snd (cb_call_fun c cb))"
proof (cases c)
  case (CallAllow now)
  obtain ok tr cb' where "Allow now cb = (ok, tr, cb')" by (metis prod_cases3)
  with CallAllow show ?thesis by (auto simp: cb_step_simps)
next
  case (CallFailure now)
  then show ?thesis by (cases "RecordFailure now cb") (auto simp: cb_step_simps)
next
  case CallSuccess
  then show ?thesis by (cases "RecordSuccess cb") (auto simp: cb_step_simps)
qed (auto simp: cb_step_simps)

lemma cb_run_reachable:
  "cb_reachable th to callback cb \<Longrightarrow> cb_reachable th to callback (snd (cb_run cs cb))"
proof (induction cs arbitrary: cb)
  case (Cons c cs)
  obtain ans tr where "cb_step cb c ans tr (snd (cb_call_fun c cb))"
    using cb_call_fun_step by blast
  with Cons.prems have "cb_reachable th to callback (snd (cb_call_fun c cb))"
    by (rule cb_next)
  then show ?case by (auto dest: Cons.IH split: prod.splits)
qed simp

section \<open>Invariants\<close>

text \<open>Configuration fields never change, and a closed breaker is below its threshold.\<close>

definition cb_inv :: "int \<Rightarrow> duration \<Rightarrow> bool \<Rightarrow> CircuitBreaker \<Rightarrow> bool" where
  "cb_inv threshold timeout callback cb \<longleftrightarrow>
     failureThreshold cb = threshold \<and> resetTimeout cb = timeout \<and> onStateChange cb = callback \<and>
     in_int64 (consecutiveFailures cb) \<and>
     (cb_state cb = CircuitClosed \<longrightarrow>
        consecutiveFailures cb = 0 \<or>
        0 < consecutiveFailures cb \<and> consecutiveFailures cb < threshold)"

lemma cb_inv_init: "cb_inv th to callback (NewCircuitBreaker th to callback)"
  by (simp add: cb_inv_def NewCircuitBreaker_def in_int64_def)

lemma wrap64_succ_closed:
  assumes "in_int64 th" "n = 0 \<or> 0 < n \<and> n < th"
  shows "wrap64 (n + 1) = n + 1"
  using assms by (intro wrap64_id) (auto simp: in_int64_def)

lemma cb_step_inv [inv_intros]:
  assumes "cb_step cb c ans tr cb'" "cb_inv th to callback cb" "in_int64 th"
  shows "cb_inv th to callback cb'"
  using assms
proof (induction rule: cb_step.induct)
  case (step_failure now cb tr cb')
  then have fields: "failureThreshold cb = th" by (simp add: cb_inv_def)
  have r: "in_int64 (wrap64 (consecutiveFailures cb + 1))" by (rule wrap64_range)
  show ?case
  proof (cases "cb_state cb = CircuitClosed")
    case True
    then have "wrap64 (consecutiveFailures cb + 1) = consecutiveFailures cb + 1"
      using step_failure.prems wrap64_succ_closed by (simp add: cb_inv_def)
    with True step_failure r show ?thesis
      by (auto simp: cb_inv_def breaker_op_defs split: if_splits)
  next
    case False
    with step_failure r show ?thesis
      by (auto simp: cb_inv_def breaker_op_defs split: if_splits)
  qed
qed (auto simp: cb_inv_def breaker_op_defs in_int64_def split: if_splits CircuitState.splits)

lemma cb_reachable_inv:
  "cb_reachable th to callback cb \<Longrightarrow> in_int64 th \<Longrightarrow> cb_inv th to callback cb"
  by (induction rule: cb_reachable.induct) (auto intro: cb_inv_init cb_step_inv)

text \<open>The edges of the state diagram.\<close>

definition legal_edge :: "CircuitState \<Rightarrow> CircuitState \<Rightarrow> bool" where
  "legal_edge s t \<longleftrightarrow>
     (s, t) \<in> {(CircuitClosed, CircuitOpen), (CircuitOpen, CircuitHalfOpen),
               (CircuitHalfOpen, CircuitClosed), (CircuitHalfOpen, CircuitOpen)}"

section \<open>Probing\<close>

text \<open>Calls that do not report the outcome of a probe.\<close>

fun is_report :: "cb_call \<Rightarrow> bool" where
  "is_report CallSuccess = True"
| "is_report (CallFailure _) = True"
| "is_report _ = False"

lemma half_open_stuck:
  assumes "\<forall>c \<in> set cs. \<not> is_report c" "cb_state cb = CircuitHalfOpen"
  shows "cb_state (snd (cb_run cs cb)) = CircuitHalfOpen \<and> (\<forall>ok \<in> set (fst (cb_run cs cb)). \<not> ok)"
  using assms
proof (induction cs arbitrary: cb)
  case (Cons c cs)
  have "cb_state (snd (cb_call_fun c cb)) = CircuitHalfOpen \<and> (\<forall>ok \<in> set (fst (cb_call_fun c cb)). \<not> ok)"
    using Cons.prems by (cases c) (auto simp: breaker_op_defs)
  with Cons.IH [of "snd (cb_call_fun c cb)"] Cons.prems show ?case
    by (auto split: prod.splits)
qed simp

lemma open_admits_at_most_one:
  assumes "\<forall>c \<in> set cs. \<not> is_report c" "cb_state cb = CircuitOpen"
  shows "count_list (fst (cb_run cs cb)) True \<le> 1"
  using assms
proof (induction cs arbitrary: cb)
  case (Cons c cs)
  have "cb_state (snd (cb_call_fun c cb)) = CircuitOpen \<and> True \<notin> set (fst (cb_call_fun c cb)) \<or>
      cb_state (snd (cb_call_fun c cb)) = CircuitHalfOpen \<and> fst (cb_call_fun c cb) = [True]"
    using Cons.prems by (cases c) (simp_all add: breaker_op_defs)
  then consider
      (stay) "cb_state (snd (cb_call_fun c cb)) = CircuitOpen" "True \<notin> set (fst (cb_call_fun c cb))"
    | (probe) "cb_state (snd (cb_call_fun c cb)) = CircuitHalfOpen" "fst (cb_call_fun c cb) = [True]"
    by blast
  then show ?case
  proof cases
    case stay
    then have "count_list (fst (cb_call_fun c cb)) True = 0" by (simp add: count_list_0_iff)
    with stay Cons.IH [of "snd (cb_call_fun c cb)"] Cons.prems show ?thesis
      by (auto simp: split: prod.splits)
  next
    case probe
    then have "True \<notin> set (fst (cb_run cs (snd (cb_call_fun c cb))))"
      using half_open_stuck [of cs "snd (cb_call_fun c cb)"] Cons.prems by auto
    with probe show ?thesis
      by (auto simp: count_list_0_iff split: prod.splits)
  qed
qed simp

section \<open>Tripping\<close>

lemma closed_failures_below:
  assumes "cb_state cb = CircuitClosed" "consecutiveFailures cb = int k"
    "int (k + length ts) < failureThreshold cb" "in_int64 (failureThreshold cb)"
  shows "cb_state (snd (cb_run (map CallFailure ts) cb)) = CircuitClosed \<and>
    consecutiveFailures (snd (cb_run (map CallFailure ts) cb)) = int (k + length ts) \<and>
    failureThreshold (snd (cb_run (map CallFailure ts) cb)) = failureThreshold cb"
  using assms
proof (induction ts arbitrary: cb k)
  case (Cons t ts)
  let ?cb = "cb\<lparr>consecutiveFailures := int (Suc k), lastFailureTime := t\<rparr>"
  have "wrap64 (int k + 1) = int k + 1"
    using Cons.prems by (intro wrap64_id) (auto simp: in_int64_def)
  then have "snd (RecordFailure t cb) = ?cb"
    using Cons.prems by (simp add: breaker_op_defs add.commute)
  moreover have "cb_state ?cb = CircuitClosed" "consecutiveFailures ?cb = int (Suc k)"
    "int (Suc k + length ts) < failureThreshold ?cb" "in_int64 (failureThreshold ?cb)"
    using Cons.prems by auto
  ultimately show ?case using Cons.IH [of ?cb "Suc k"] by (auto split: prod.splits)
qed simp

lemma breaker_trips_from:
  assumes "cb_state cb = CircuitClosed" "consecutiveFailures cb = int k"
    "failureThreshold cb = int (k + Suc (length ts))" "in_int64 (failureThreshold cb)"
  shows "cb_state (snd (cb_run (map CallFailure ts @ [CallFailure t]) cb)) = CircuitOpen"
proof -
  let ?mid = "snd (cb_run (map CallFailure ts) cb)"
  have mid: "cb_state ?mid = CircuitClosed" "consecutiveFailures ?mid = int (k + length ts)"
    "failureThreshold ?mid = failureThreshold cb"
    using closed_failures_below [OF assms(1,2)] assms by auto
  have "wrap64 (int (k + length ts) + 1) = int (k + length ts) + 1"
    using assms by (intro wrap64_id) (auto simp: in_int64_def)
  then have "cb_state (snd (RecordFailure t ?mid)) = CircuitOpen"
    using mid assms by (simp add: breaker_op_defs)
  then show ?thesis by (auto simp: cb_run_append split: prod.splits)
qed

section \<open>Properties\<close>

text \<open>C15. Every step of a breaker follows an edge of the state diagram or stays in its state, and
  with a callback installed it announces exactly the changes of state, each with the state left and
  the state entered.\<close>

theorem breaker_steps_follow_diagram:
  assumes "cb_step cb c ans tr cb'"
  shows "(cb_state cb' = cb_state cb \<or> legal_edge (cb_state cb) (cb_state cb')) \<and>
    tr = (if onStateChange cb \<and> cb_state cb' \<noteq> cb_state cb then Some (cb_state cb, cb_state cb') else None)"
  using assms
  by (cases rule: cb_stepE; cases "cb_state cb")
    (auto simp: breaker_op_defs legal_edge_def split: if_splits)

theorem breaker_steps_follow_diagram_witness:
  "let cb = (NewCircuitBreaker 1 60 True) in
   cb_step cb (CallFailure 5) None (Some (CircuitClosed, CircuitOpen)) (snd (RecordFailure 5 cb)) \<and>
   legal_edge CircuitClosed CircuitOpen"
proof -
  let ?cb = "NewCircuitBreaker 1 60 True"
  have s: "cb_step ?cb (CallFailure 5) None (Some (CircuitClosed, CircuitOpen)) (snd (RecordFailure 5 ?cb))"
    by (simp add: cb_step_simps breaker_op_defs NewCircuitBreaker_def in_int64_def)
  have "cb_state (snd (RecordFailure 5 ?cb)) = CircuitOpen" "cb_state ?cb = CircuitClosed"
    by (simp_all add: breaker_op_defs NewCircuitBreaker_def in_int64_def)
  with breaker_steps_follow_diagram [OF s] s show ?thesis by (simp add: Let_def)
qed

text \<open>A new breaker with threshold \<open>n + 1\<close> stays closed through \<open>n\<close> consecutive failures and opens
  at the next; and in any history a closed breaker has seen fewer consecutive failures than its
  threshold.\<close>

theorem breaker_trips_at_threshold:
  fixes timeout :: duration and callback :: bool
  assumes "int (Suc (length ts)) < 2 ^ 63"
  defines "cb \<equiv> NewCircuitBreaker (int (Suc (length ts))) timeout callback"
  shows "cb_state (snd (cb_run (map CallFailure ts) cb)) = CircuitClosed \<and>
    cb_state (snd (cb_run (map CallFailure ts @ [CallFailure t]) cb)) = CircuitOpen \<and>
    (\<forall>cs. let cb' = snd (cb_run cs cb) in
       cb_state cb' = CircuitClosed \<longrightarrow>
         0 \<le> consecutiveFailures cb' \<and> consecutiveFailures cb' < failureThreshold cb')"
proof -
  have cb: "cb_state cb = CircuitClosed" "consecutiveFailures cb = int 0"
    "failureThreshold cb = int (Suc (length ts))" "in_int64 (int (Suc (length ts)))"
    using assms by (simp_all add: NewCircuitBreaker_def in_int64_def)
  have inv: "cb_inv (int (Suc (length ts))) timeout callback (snd (cb_run cs cb))" for cs
    using cb_run_reachable [OF cb_start] cb(4) by (auto simp: cb_def intro: cb_reachable_inv)
  have "cb_state (snd (cb_run (map CallFailure ts) cb)) = CircuitClosed"
    using closed_failures_below [of cb 0 ts] cb by simp
  moreover have "cb_state (snd (cb_run (map CallFailure ts @ [CallFailure t]) cb)) = CircuitOpen"
    using breaker_trips_from [of cb 0 ts t] cb by simp
  moreover have "cb_state (snd (cb_run cs cb)) = CircuitClosed \<Longrightarrow>
      0 \<le> consecutiveFailures (snd (cb_run cs cb)) \<and>
      consecutiveFailures (snd (cb_run cs cb)) < failureThreshold (snd (cb_run cs cb))" for cs
    using inv [of cs] by (auto simp: cb_inv_def)
  ultimately show ?thesis by (simp add: Let_def)
qed

theorem breaker_trips_at_threshold_witness:
  "cb_state (snd (cb_run [CallFailure 1, CallFailure 2]
     (NewCircuitBreaker (int (Suc (length [1::time, 2]))) 60 False))) = CircuitClosed"
  using breaker_trips_at_threshold [of "[1, 2]" 60 False 3] by simp

text \<open>An open breaker rejects every call until its reset timeout has passed since the last failure;
  then it admits one probe, and until the outcome of the probe is reported by a success or a failure it
  admits no other call, however the calls and rate-limit reports interleave.\<close>

theorem breaker_single_probe:
  assumes "cb_state cb = CircuitOpen" "\<forall>c \<in> set cs. \<not> is_report c"
  shows "fst (Allow now cb) = (time_sub now (lastFailureTime cb) \<ge> resetTimeout cb) \<and>
    count_list (fst (cb_run cs cb)) True \<le> 1 \<and>
    (fst (Allow now cb) \<longrightarrow> (\<forall>ok \<in> set (fst (cb_run cs (snd (snd (Allow now cb))))). \<not> ok))"
proof -
  have "cb_state (snd (snd (Allow now cb))) = CircuitHalfOpen" if "fst (Allow now cb)"
    using assms that by (auto simp: breaker_op_defs split: if_splits)
  moreover have "fst (Allow now cb) = (time_sub now (lastFailureTime cb) \<ge> resetTimeout cb)"
    using assms by (simp add: breaker_op_defs)
  ultimately show ?thesis
    using open_admits_at_most_one half_open_stuck assms by blast
qed

theorem breaker_single_probe_witness:
  "let cb = (NewCircuitBreaker 1 60 False)\<lparr>cb_state := CircuitOpen\<rparr>;
       cs = [CallAllow 10, CallRateLimit 20, CallAllow 90] in
   fst (Allow 100 cb) \<and> count_list (fst (cb_run cs cb)) True \<le> 1 \<and>
   (\<forall>ok \<in> set (fst (cb_run cs (snd (snd (Allow 100 cb))))). \<not> ok)"
proof -
  let ?cb = "(NewCircuitBreaker 1 60 False)\<lparr>cb_state := CircuitOpen\<rparr>"
  let ?cs = "[CallAllow 10, CallRateLimit 20, CallAllow 90]"
  have "fst (Allow 100 ?cb)"
    by (simp add: breaker_op_defs NewCircuitBreaker_def time_sub_def)
  moreover have "cb_state ?cb = CircuitOpen" "\<forall>c \<in> set ?cs. \<not> is_report c" by simp_all
  ultimately show ?thesis
    unfolding Let_def using breaker_single_probe [of ?cb ?cs 100] by blast
qed

text \<open>A probe whose outcome is a rate limit wedges the breaker: \<open>RecordRateLimit\<close> leaves it
  half-open, and a half-open breaker rejects every call at every later time until someone reports a
  success or a failure, which only an admitted call does. The reset timeout plays no part.\<close>

theorem breaker_rate_limited_probe_wedges:
  assumes "cb_state cb = CircuitHalfOpen" "\<forall>c \<in> set cs. \<not> is_report c"
  shows "let cb' = snd (cb_run (CallRateLimit t # cs) cb) in
    cb_state cb' = CircuitHalfOpen \<and> (\<forall>now. Allow now cb' = (False, None, cb'))"
proof -
  have "cb_state (snd (cb_run (CallRateLimit t # cs) cb)) = CircuitHalfOpen"
    using half_open_stuck [of "CallRateLimit t # cs" cb] assms by auto
  then show ?thesis by (simp add: Let_def Allow_def)
qed

theorem breaker_rate_limited_probe_wedges_witness:
  "let cb = (NewCircuitBreaker 3 60 False)\<lparr>cb_state := CircuitHalfOpen\<rparr>;
       cb' = snd (cb_run [CallRateLimit 10, CallAllow 100] cb) in
   cb_state cb' = CircuitHalfOpen \<and> (\<forall>now. Allow now cb' = (False, None, cb'))"
  using breaker_rate_limited_probe_wedges
    [of "(NewCircuitBreaker 3 60 False)\<lparr>cb_state := CircuitHalfOpen\<rparr>" "[CallAllow 100]" 10]
  by (simp add: Let_def)

end
