(* ===== verification/AI_Manager.thy ===== *)
theory AI_Manager
  imports AI_Provider Circuit_Breaker
begin

text \<open>
  The AI manager (\<open>internal/ai/manager.go\<close>): response cache, token budget, circuit breaker and
  provider routing around one analysis request. What the outside does during a call (the clock
  readings, the provider's answers to the two attempts, the cancellation of the context while
  waiting) is the record \<open>analyze_env\<close>; what the call does to the outside (provider calls,
  metrics, the degraded gauge) is a list of events. A nil response with a nil error, which the
  \<open>Provider\<close> interface permits, is \<open>Inr None\<close>; the code then dereferences nil.
\<close>

section \<open>State and events\<close>

datatype provider_error =
    RateLimitError duration int   \<comment> \<open>retry delay and HTTP status\<close>
  | OtherError string

fun is_rate_limit :: "provider_error \<Rightarrow> bool" where
  "is_rate_limit (RateLimitError _ _) = True"
| "is_rate_limit (OtherError _) = False"

type_synonym provider_outcome = "provider_error + AnalysisResponse option"

datatype manager_error =
    NotConfigured
  | BudgetDenied string
  | CircuitDenied
  | ContextDone string
  | AnalysisFailed string provider_error

datatype analyze_result = Answer AnalysisResponse | Failure manager_error | NilDereference

datatype manager_event =
    CacheHitMetric
  | CacheMissMetric
  | BudgetExceededMetric string
  | ProviderCall string
  | AICallMetric string string string int
  | AIDegraded bool
  | PreviousCallback CircuitState CircuitState

record Manager =
  mg_provider :: "Provider option"
  mg_explainProvider :: "Provider option"
  mg_enabled :: bool
  mg_budget :: "Budget option"
  mg_cache :: "Cache option"
  mg_cb :: "CircuitBreaker option"
  mg_prevCallback :: bool   \<comment> \<open>the breaker had a callback before the manager wrapped it\<close>

definition NewManager :: "Provider option \<Rightarrow> Provider option \<Rightarrow> bool \<Rightarrow> Budget option \<Rightarrow>
    Cache option \<Rightarrow> CircuitBreaker option \<Rightarrow> Manager" where
  "NewManager provider explainProvider enabled budget cache cb =
     (let p = (case provider of None \<Rightarrow> NoOpProvider | Some p \<Rightarrow> p);
          ex = (case explainProvider of None \<Rightarrow> p | Some q \<Rightarrow> q)
      in \<lparr>mg_provider = Some p, mg_explainProvider = Some ex, mg_enabled = enabled,
          mg_budget = budget, mg_cache = cache,
          mg_cb = map_option (\<lambda>c. c\<lparr>onStateChange := True\<rparr>) cb,
          mg_prevCallback = (case cb of None \<Rightarrow> False | Some c \<Rightarrow> onStateChange c)\<rparr>)"

text \<open>The callback \<open>NewManager\<close> installs, run on an announced transition.\<close>

definition on_transition :: "bool \<Rightarrow> stateTransition option \<Rightarrow> manager_event list" where
  "on_transition prev t =
     (case t of None \<Rightarrow> []
      | Some (from, to) \<Rightarrow>
          (case to of CircuitOpen \<Rightarrow> [AIDegraded True] | CircuitHalfOpen \<Rightarrow> [AIDegraded True]
           | CircuitClosed \<Rightarrow> [AIDegraded False]) @
          (if prev then [PreviousCallback from to] else []))"

section \<open>The breaker seen through the manager\<close>

text \<open>Each call of the breaker with its nil check, in the shape \<open>(answer, events, breaker)\<close>.\<close>

definition cb_allow :: "bool \<Rightarrow> time \<Rightarrow> CircuitBreaker option \<Rightarrow>
    bool \<times> manager_event list \<times> CircuitBreaker option" where
  "cb_allow prev now cbo =
     (case cbo of None \<Rightarrow> (True, [], None)
      | Some c \<Rightarrow> let (ok, t, c') = Allow now c in (ok, on_transition prev t, Some c'))"

definition cb_success :: "bool \<Rightarrow> CircuitBreaker option \<Rightarrow> manager_event list \<times> CircuitBreaker option" where
  "cb_success prev cbo =
     (case cbo of None \<Rightarrow> ([], None)
      | Some c \<Rightarrow> let (t, c') = RecordSuccess c in (on_transition prev t, Some c'))"

definition cb_failure :: "bool \<Rightarrow> time \<Rightarrow> CircuitBreaker option \<Rightarrow>
    manager_event list \<times> CircuitBreaker option" where
  "cb_failure prev now cbo =
     (case cbo of None \<Rightarrow> ([], None)
      | Some c \<Rightarrow> let (t, c') = RecordFailure now c in (on_transition prev t, Some c'))"

definition cb_rate_limit :: "time \<Rightarrow> CircuitBreaker option \<Rightarrow> CircuitBreaker option" where
  "cb_rate_limit now = map_option (RecordRateLimit now)"

section \<open>One analysis\<close>

record analyze_env =
  at_get :: time
  at_consume :: time
  at_allow :: time
  at_rate_limit :: time
  at_failure :: time
  at_settle :: time
  at_put :: time
  ev_first :: provider_outcome
  ev_cancel :: "string option"   \<comment> \<open>the context ends before the retry delay\<close>
  ev_second :: provider_outcome

definition estimated_tokens :: "AnalysisRequest \<Rightarrow> int" where
  "estimated_tokens request = max (int (length (ar_Issues request)) * 2000) 500"

definition call_mode :: "AnalysisRequest \<Rightarrow> string" where
  "call_mode request = (if ar_ExplainMode request then ''explain'' else ''analyze'')"

definition route :: "AnalysisRequest \<Rightarrow> Manager \<Rightarrow> Provider option" where
  "route request m =
     (if ar_ExplainMode request \<and> mg_explainProvider m \<noteq> None
      then mg_explainProvider m else mg_provider m)"

text \<open>
  The provider call with the single retry after a rate limit: the events, the breaker after it,
  and the final outcome, or \<open>None\<close> when the context ended during the wait.
\<close>

definition call_provider :: "analyze_env \<Rightarrow> string \<Rightarrow> CircuitBreaker option \<Rightarrow>
    (string + provider_outcome) \<times> manager_event list \<times> CircuitBreaker option" where
  "call_provider env name cb =
     (case ev_first env of
        Inl (RateLimitError delay status) \<Rightarrow>
          let cb1 = cb_rate_limit (at_rate_limit env) cb in
          (case ev_cancel env of
             Some e \<Rightarrow> (Inl e, [ProviderCall name], cb1)
           | None \<Rightarrow> (Inr (ev_second env), [ProviderCall name, ProviderCall name], cb1))
      | outcome \<Rightarrow> (Inr outcome, [ProviderCall name], cb))"

text \<open>Settling a successful call: the breaker, the budget, the cache, the metrics, in this order.\<close>

definition finish_success :: "payload_digest \<Rightarrow> analyze_env \<Rightarrow> AnalysisRequest \<Rightarrow> string \<Rightarrow>
    AnalysisResponse option \<Rightarrow> Manager \<Rightarrow> analyze_result \<times> manager_event list \<times> Manager" where
  "finish_success digest env request name resp m =
     (let (evs, cb) = cb_success (mg_prevCallback m) (mg_cb m);
          m1 = m\<lparr>mg_cb := cb\<rparr>
      in case resp of
           None \<Rightarrow> (NilDereference, evs, m1)
         | Some r \<Rightarrow>
             let m2 = m1\<lparr>mg_budget := settle ReleaseUnused (RecordUsage (at_settle env))
                          (estimated_tokens request) (rs_TokensUsed r) (mg_budget m1)\<rparr>;
                 m3 = m2\<lparr>mg_cache := Put digest (at_put env) request (Some r) [name, []] (mg_cache m2)\<rparr>
             in (Answer r, evs @ [AICallMetric name (call_mode request) ''success'' (rs_TokensUsed r)], m3))"

definition finish_failure :: "analyze_env \<Rightarrow> AnalysisRequest \<Rightarrow> string \<Rightarrow> provider_error \<Rightarrow> Manager \<Rightarrow>
    analyze_result \<times> manager_event list \<times> Manager" where
  "finish_failure env request name err m =
     (let (evs, cb) = (if is_rate_limit err then ([], mg_cb m)
                       else cb_failure (mg_prevCallback m) (at_failure env) (mg_cb m));
          m1 = m\<lparr>mg_cb := cb, mg_budget := ReleaseUnused (estimated_tokens request) (mg_budget m)\<rparr>
      in (Failure (AnalysisFailed name err),
          evs @ [AICallMetric name (call_mode request) ''error'' 0], m1))"

text \<open>After the cache missed: budget first, then the breaker, then the provider.\<close>

definition analyze_uncached :: "payload_digest \<Rightarrow> analyze_env \<Rightarrow> AnalysisRequest \<Rightarrow> string \<Rightarrow> Manager \<Rightarrow>
    analyze_result \<times> manager_event list \<times> Manager" where
  "analyze_uncached digest env request name m =
     (case TryConsume (at_consume env) (estimated_tokens request) (mg_budget m) of
        (Some e, _) \<Rightarrow> (Failure (BudgetDenied e), [BudgetExceededMetric e], m)
      | (None, b) \<Rightarrow>
          let m1 = m\<lparr>mg_budget := b\<rparr>;
              (ok, evs, cb) = cb_allow (mg_prevCallback m1) (at_allow env) (mg_cb m1);
              m2 = m1\<lparr>mg_cb := cb\<rparr>
          in if \<not> ok then (Failure CircuitDenied, evs, m2)
             else let (out, calls, cb') = call_provider env name cb;
                      m3 = m2\<lparr>mg_cb := cb'\<rparr>;
                      (res, evs', m') =
                        (case out of
                           Inl e \<Rightarrow> (Failure (ContextDone e), [], m3)
                         | Inr (Inl err) \<Rightarrow> finish_failure env request name err m3
                         | Inr (Inr resp) \<Rightarrow> finish_success digest env request name resp m3)
                  in (res, evs @ calls @ evs', m'))"

definition Analyze :: "payload_digest \<Rightarrow> analyze_env \<Rightarrow> AnalysisRequest \<Rightarrow> Manager \<Rightarrow>
    analyze_result \<times> manager_event list \<times> Manager" where
  "Analyze digest env request m =
     (case route request m of
        None \<Rightarrow> (Failure NotConfigured, [], m)
      | Some provider \<Rightarrow>
          let name = provider_Name provider;
              (hit, c) = Get digest (at_get env) request [name, []] (mg_cache m);
              m1 = m\<lparr>mg_cache := c\<rparr>
          in case hit of
               Some r \<Rightarrow> (Answer r, [CacheHitMetric], m1)
             | None \<Rightarrow>
                 let (res, evs, m') = analyze_uncached digest env request name m1
                 in (res, (if mg_cache m = None then [] else [CacheMissMetric]) @ evs, m'))"

section \<open>The other operations\<close>

text \<open>\<open>None\<close> where a nil provider would be dereferenced.\<close>

definition Available :: "Manager \<Rightarrow> bool option" where
  "Available m = (if \<not> mg_enabled m then Some False else map_option provider_Available (mg_provider m))"

definition ProviderAvailable :: "Manager \<Rightarrow> bool option" where
  "ProviderAvailable m = map_option provider_Available (mg_provider m)"

definition Name :: "Manager \<Rightarrow> string option" where
  "Name m = map_option provider_Name (mg_provider m)"

definition Enabled :: "Manager \<Rightarrow> bool" where
  "Enabled m = mg_enabled m"

definition SetEnabled :: "bool \<Rightarrow> Manager \<Rightarrow> Manager" where
  "SetEnabled enabled m = m\<lparr>mg_enabled := enabled\<rparr>"

definition Reconfigure :: "(string \<Rightarrow> string) \<Rightarrow> time \<Rightarrow> string \<Rightarrow> string \<Rightarrow> string \<Rightarrow> string \<Rightarrow> Manager \<Rightarrow>
    string option \<times> Manager" where
  "Reconfigure getenv now providerName apiKey model explainModel m =
     (let cfg = \<lparr>cf_Provider = providerName, cf_APIKey = apiKey, cf_Endpoint = [], cf_Model = model,
                 cf_MaxTokens = 0, cf_Timeout = 0, cf_MaxIssues = 0, cf_MinConfidence = 0,
                 cf_ExplainModel = explainModel, cf_DailyTokenLimit = 0, cf_MonthlyTokenLimit = 0\<rparr>
      in case NewProvider getenv now cfg of
           Inl e \<Rightarrow> (Some (''creating provider: '' @ e), m)
         | Inr (newProvider, newExplain, _) \<Rightarrow>
             (None, m\<lparr>mg_provider := Some newProvider, mg_explainProvider := Some newExplain,
                      mg_enabled := (providerName \<noteq> [] \<and> providerName \<noteq> ProviderNameNoop),
                      mg_cache := Clear (mg_cache m)\<rparr>))"

definition AllowChatTurn :: "time \<Rightarrow> Manager \<Rightarrow> manager_error option \<times> manager_event list \<times> Manager" where
  "AllowChatTurn now m =
     (let (ok, evs, cb) = cb_allow (mg_prevCallback m) now (mg_cb m)
      in (if ok then None else Some CircuitDenied, evs, m\<lparr>mg_cb := cb\<rparr>))"

definition RecordChatTurnSuccess :: "Manager \<Rightarrow> manager_event list \<times> Manager" where
  "RecordChatTurnSuccess m =
     (let (evs, cb) = cb_success (mg_prevCallback m) (mg_cb m) in (evs, m\<lparr>mg_cb := cb\<rparr>))"

definition RecordChatTurnFailure :: "time \<Rightarrow> Manager \<Rightarrow> manager_event list \<times> Manager" where
  "RecordChatTurnFailure now m =
     (let (evs, cb) = cb_failure (mg_prevCallback m) now (mg_cb m) in (evs, m\<lparr>mg_cb := cb\<rparr>))"

section \<open>What the stages do\<close>

definition called_provider :: "manager_event list \<Rightarrow> bool" where
  "called_provider evs = list_ex (\<lambda>e. case e of ProviderCall _ \<Rightarrow> True | _ \<Rightarrow> False) evs"

text \<open>The tokens a budget is left charged with after an analysis with this result.\<close>

definition analysis_charge :: "AnalysisRequest \<Rightarrow> analyze_result \<Rightarrow> manager_event list \<Rightarrow> int" where
  "analysis_charge request res evs =
     (case res of
        Answer r \<Rightarrow> if called_provider evs then rs_TokensUsed r else 0
      | Failure NotConfigured \<Rightarrow> 0
      | Failure (BudgetDenied e) \<Rightarrow> 0
      | Failure (AnalysisFailed n e) \<Rightarrow> 0
      | Failure CircuitDenied \<Rightarrow> estimated_tokens request
      | Failure (ContextDone e) \<Rightarrow> estimated_tokens request
      | NilDereference \<Rightarrow> estimated_tokens request)"

lemma on_transition_calls [simp]: "called_provider (on_transition prev t @ evs) = called_provider evs"
  "\<not> called_provider (on_transition prev t)"
  by (auto simp: on_transition_def called_provider_def split: option.splits prod.splits CircuitState.splits)

lemma cb_allow_calls:
  "cb_allow prev now cbo = (ok, evs, cb) \<Longrightarrow> called_provider (evs @ evs') = called_provider evs'"
  by (auto simp: cb_allow_def split: option.splits prod.splits)

lemma cb_record_calls:
  "cb_success prev cbo = (evs, cb) \<Longrightarrow> called_provider (evs @ evs') = called_provider evs'"
  "cb_failure prev now cbo = (evs, cb) \<Longrightarrow> called_provider (evs @ evs') = called_provider evs'"
  by (auto simp: cb_success_def cb_failure_def split: option.splits prod.splits)

lemma called_provider_Cons [simp]:
  "called_provider (ProviderCall n # evs)" "\<not> called_provider []"
  "called_provider (CacheHitMetric # evs) = called_provider evs"
  "called_provider (CacheMissMetric # evs) = called_provider evs"
  "called_provider (BudgetExceededMetric s # evs) = called_provider evs"
  by (simp_all add: called_provider_def)

lemma call_provider_calls:
  "call_provider env name cb = (out, evs, cb') \<Longrightarrow> called_provider (evs @ evs')"
  by (auto simp: call_provider_def Let_def split: sum.splits provider_error.splits option.splits)

lemma call_provider_outcome:
  "call_provider env name cb = (Inr out, evs, cb') \<Longrightarrow> out = ev_first env \<or> out = ev_second env"
  by (auto simp: call_provider_def Let_def split: sum.splits provider_error.splits option.splits)

lemma finish_success_facts:
  assumes "finish_success digest env request name resp m = (res, evs, m')"
  shows "res = (case resp of None \<Rightarrow> NilDereference | Some r \<Rightarrow> Answer r)"
    "mg_budget m' = (case resp of None \<Rightarrow> mg_budget m
      | Some r \<Rightarrow> settle ReleaseUnused (RecordUsage (at_settle env)) (estimated_tokens request)
          (rs_TokensUsed r) (mg_budget m))"
    "mg_cache m' = (case resp of None \<Rightarrow> mg_cache m
      | Some r \<Rightarrow> Put digest (at_put env) request (Some r) [name, []] (mg_cache m))"
    "mg_cb m' = snd (cb_success (mg_prevCallback m) (mg_cb m))"
    "mg_provider m' = mg_provider m" "mg_explainProvider m' = mg_explainProvider m"
    "mg_prevCallback m' = mg_prevCallback m"
  using assms by (cases resp; auto simp: finish_success_def Let_def case_prod_unfold)+

lemma finish_failure_facts:
  assumes "finish_failure env request name err m = (res, evs, m')"
  shows "res = Failure (AnalysisFailed name err)"
    "mg_budget m' = ReleaseUnused (estimated_tokens request) (mg_budget m)"
    "mg_cache m' = mg_cache m" "mg_provider m' = mg_provider m"
    "mg_explainProvider m' = mg_explainProvider m" "mg_prevCallback m' = mg_prevCallback m"
  using assms by (auto simp: finish_failure_def Let_def case_prod_unfold)

lemma estimated_tokens_nonneg: "0 \<le> estimated_tokens request"
  by (simp add: estimated_tokens_def)

text \<open>The four ways an uncached analysis can go.\<close>

lemma analyze_uncached_cases:
  assumes "analyze_uncached digest env request name m = (res, evs, m')"
  obtains
    (refused) e where "TryConsume (at_consume env) (estimated_tokens request) (mg_budget m) = (Some e, mg_budget m)"
      "res = Failure (BudgetDenied e)" "evs = [BudgetExceededMetric e]" "m' = m"
  | (denied) b cb where "TryConsume (at_consume env) (estimated_tokens request) (mg_budget m) = (None, b)"
      "cb_allow (mg_prevCallback m) (at_allow env) (mg_cb m) = (False, evs, cb)"
      "res = Failure CircuitDenied" "m' = m\<lparr>mg_budget := b, mg_cb := cb\<rparr>"
  | (called) b evs1 cb out calls cb' evs2 where
      "TryConsume (at_consume env) (estimated_tokens request) (mg_budget m) = (None, b)"
      "cb_allow (mg_prevCallback m) (at_allow env) (mg_cb m) = (True, evs1, cb)"
      "call_provider env name cb = (out, calls, cb')"
      "(res, evs2, m') = (case out of
          Inl e \<Rightarrow> (Failure (ContextDone e), [], m\<lparr>mg_budget := b, mg_cb := cb'\<rparr>)
        | Inr (Inl err) \<Rightarrow> finish_failure env request name err (m\<lparr>mg_budget := b, mg_cb := cb'\<rparr>)
        | Inr (Inr resp) \<Rightarrow> finish_success digest env request name resp (m\<lparr>mg_budget := b, mg_cb := cb'\<rparr>))"
      "evs = evs1 @ calls @ evs2"
proof (cases "TryConsume (at_consume env) (estimated_tokens request) (mg_budget m)")
  case tc: (Pair e b)
  show thesis
  proof (cases e)
    case (Some e')
    have b: "b = mg_budget m" using tc Some TryConsume_error by blast
    have "(Failure (BudgetDenied e'), [BudgetExceededMetric e'], m) = (res, evs, m')"
      using assms unfolding analyze_uncached_def by (simp only: tc Some prod.case option.case)
    then have "res = Failure (BudgetDenied e')" "evs = [BudgetExceededMetric e']" "m' = m" by auto
    with refused [of e'] tc Some b show thesis by blast
  next
    case None
    obtain ok evs1 cb where al: "cb_allow (mg_prevCallback m) (at_allow env) (mg_cb m) = (ok, evs1, cb)"
      by (cases "cb_allow (mg_prevCallback m) (at_allow env) (mg_cb m)")
    show thesis
    proof (cases ok)
      case False
      with tc None al assms show thesis by (intro denied) (auto simp: analyze_uncached_def Let_def)
    next
      case True
      obtain out calls cb' where cp: "call_provider env name cb = (out, calls, cb')"
        by (cases "call_provider env name cb")
      define X where "X = (case out of
          Inl e \<Rightarrow> (Failure (ContextDone e), [], m\<lparr>mg_budget := b, mg_cb := cb'\<rparr>)
        | Inr (Inl err) \<Rightarrow> finish_failure env request name err (m\<lparr>mg_budget := b, mg_cb := cb'\<rparr>)
        | Inr (Inr resp) \<Rightarrow> finish_success digest env request name resp (m\<lparr>mg_budget := b, mg_cb := cb'\<rparr>))"
      have "(fst X, evs1 @ calls @ fst (snd X), snd (snd X)) = (res, evs, m')"
        using assms tc None al True cp
        by (simp add: analyze_uncached_def Let_def case_prod_unfold X_def cong: sum.case_cong)
      then have "(res, fst (snd X), m') = X" "evs = evs1 @ calls @ fst (snd X)" by auto
      then show thesis
        using called [of b evs1 cb out calls cb' "fst (snd X)"] tc None al True cp by (simp add: X_def)
    qed
  qed
qed

lemma Analyze_cases:
  assumes "Analyze digest env request m = (res, evs, m')"
  obtains
    (unrouted) "route request m = None" "res = Failure NotConfigured" "evs = []" "m' = m"
  | (hit) p r where "route request m = Some p"
      "fst (Get digest (at_get env) request [provider_Name p, []] (mg_cache m)) = Some r"
      "res = Answer r" "evs = [CacheHitMetric]"
      "m' = m\<lparr>mg_cache := snd (Get digest (at_get env) request [provider_Name p, []] (mg_cache m))\<rparr>"
  | (missed) p evs1 where "route request m = Some p"
      "fst (Get digest (at_get env) request [provider_Name p, []] (mg_cache m)) = None"
      "analyze_uncached digest env request (provider_Name p)
        (m\<lparr>mg_cache := snd (Get digest (at_get env) request [provider_Name p, []] (mg_cache m))\<rparr>) = (res, evs1, m')"
      "evs = (if mg_cache m = None then [] else [CacheMissMetric]) @ evs1"
proof (cases "route request m")
  case None
  with assms have "(Failure NotConfigured, [], m) = (res, evs, m')" by (simp add: Analyze_def)
  with None unrouted show thesis by blast
next
  case (Some p)
  obtain h c where g: "Get digest (at_get env) request [provider_Name p, []] (mg_cache m) = (h, c)"
    by (cases "Get digest (at_get env) request [provider_Name p, []] (mg_cache m)")
  show thesis
  proof (cases h)
    case None
    obtain r' evs1 m1 where u: "analyze_uncached digest env request (provider_Name p) (m\<lparr>mg_cache := c\<rparr>) = (r', evs1, m1)"
      by (cases "analyze_uncached digest env request (provider_Name p) (m\<lparr>mg_cache := c\<rparr>)")
    with None assms Some g show thesis
      by (intro missed [of p evs1]) (auto simp: Analyze_def Let_def)
  next
    case (Some r)
    with assms \<open>route request m = Some p\<close> g show thesis
      by (intro hit) (auto simp: Analyze_def Let_def)
  qed
qed

lemma call_provider_cancelled:
  "call_provider env name cb = (Inl e, evs, cb') \<Longrightarrow> ev_cancel env = Some e \<and> (\<exists>d st. ev_first env = Inl (RateLimitError d st))"
  by (auto simp: call_provider_def Let_def split: sum.splits provider_error.splits option.splits)

section \<open>A wedged breaker\<close>

text \<open>The calls that share the breaker: an analysis, and a chat turn with what it reports at its end. A turn that is
  admitted goes to the provider.\<close>

datatype turn_report = TurnSucceeded | TurnFailed time | TurnUnreported

datatype manager_call = AnalyzeCall analyze_env AnalysisRequest | ChatTurnCall time turn_report

definition report_chat_turn :: "turn_report \<Rightarrow> Manager \<Rightarrow> manager_event list \<times> Manager" where
  "report_chat_turn report m =
     (case report of
        TurnSucceeded \<Rightarrow> RecordChatTurnSuccess m
      | TurnFailed now \<Rightarrow> RecordChatTurnFailure now m
      | TurnUnreported \<Rightarrow> ([], m))"

primrec manager_step :: "payload_digest \<Rightarrow> manager_call \<Rightarrow> Manager \<Rightarrow> manager_event list \<times> Manager" where
  "manager_step digest (AnalyzeCall env request) m =
     (let (res, evs, m') = Analyze digest env request m in (evs, m'))"
| "manager_step digest (ChatTurnCall now report) m =
     (let (denied, evs, m1) = AllowChatTurn now m in
      if denied \<noteq> None then (evs, m1)
      else let (evs', m2) = report_chat_turn report m1 in (evs @ ProviderCall ''chat'' # evs', m2))"

fun manager_run :: "payload_digest \<Rightarrow> manager_call list \<Rightarrow> Manager \<Rightarrow> manager_event list \<times> Manager" where
  "manager_run digest [] m = ([], m)"
| "manager_run digest (a # as) m =
     (let (evs, m1) = manager_step digest a m; (evs', m2) = manager_run digest as m1 in (evs @ evs', m2))"

definition wedged :: "Manager \<Rightarrow> bool" where
  "wedged m \<longleftrightarrow> map_option cb_state (mg_cb m) = Some CircuitHalfOpen"

lemma wedged_allow: "wedged m \<Longrightarrow> cb_allow prev now (mg_cb m) = (False, [], mg_cb m)"
  by (auto simp: wedged_def cb_allow_def Allow_def on_transition_def)

lemma wedged_step:
  assumes "wedged m" "manager_step digest a m = (evs, m')"
  shows "wedged m' \<and> \<not> called_provider evs"
proof (cases a)
  case (ChatTurnCall now report)
  with assms wedged_allow [OF assms(1)] show ?thesis
    by (auto simp: AllowChatTurn_def wedged_def)
next
  case (AnalyzeCall env request)
  with assms(2) obtain res where "Analyze digest env request m = (res, evs, m')"
    by (auto split: prod.splits)
  then show ?thesis
  proof (cases rule: Analyze_cases)
    case (missed p evs1)
    from missed(3) show ?thesis
    proof (cases rule: analyze_uncached_cases)
      case (refused e)
      with missed(4) assms(1) show ?thesis by (simp add: wedged_def)
    next
      case (denied b cb)
      with missed(4) assms(1) wedged_allow [OF assms(1)] show ?thesis by (auto simp: wedged_def)
    next
      case (called b evs1 cb out calls cb' evs2)
      with wedged_allow [OF assms(1)] show ?thesis by simp
    qed
  qed (use assms(1) in \<open>simp_all add: wedged_def\<close>)
qed

lemma called_provider_append: "called_provider (a @ b) \<longleftrightarrow> called_provider a \<or> called_provider b"
  by (simp add: called_provider_def)

lemma wedged_run:
  "wedged m \<Longrightarrow> manager_run digest as m = (evs, m') \<Longrightarrow> wedged m' \<and> \<not> called_provider evs"
proof (induction as arbitrary: m evs)
  case (Cons a as)
  obtain e1 m1 where s: "manager_step digest a m = (e1, m1)" by (cases "manager_step digest a m")
  obtain e2 where r: "manager_run digest as m1 = (e2, m')" "evs = e1 @ e2"
    using Cons.prems(2) s by (auto split: prod.splits)
  from wedged_step [OF Cons.prems(1) s] Cons.IH [OF _ r(1)] r(2) show ?case
    by (simp add: called_provider_append)
qed (simp add: called_provider_def)

section \<open>Properties\<close>

text \<open>C1. An analysis settles its budget: on success the budget is charged with exactly the tokens the
  provider reports, on a cache hit, a budget refusal or a failed provider call with nothing; when the
  circuit breaker denies the call, or the context ends during the retry delay, the reservation of
  \<open>max (2000 * issues) 500\<close> tokens stays charged although no tokens were used (charges as read at the
  clock reading of the call, and no integer overflow).\<close>

theorem analyze_settles_budget:
  assumes "Analyze digest env request m = (res, evs, m')"
    and "budget_ok now (mg_budget m)" "at_consume env = now" "at_settle env = now"
    and "in_int64 (estimated_tokens request)"
    and "\<forall>u \<in> set (budget_used now (mg_budget m)). in_int64 (u + estimated_tokens request)"
    and "\<forall>r. ev_first env = Inr (Some r) \<or> ev_second env = Inr (Some r) \<longrightarrow>
      0 \<le> rs_TokensUsed r \<and> in_int64 (rs_TokensUsed r) \<and>
      (\<forall>u \<in> set (budget_used now (mg_budget m)). in_int64 (u + rs_TokensUsed r))"
  shows "budget_used now (mg_budget m') =
    map (\<lambda>u. u + analysis_charge request res evs) (budget_used now (mg_budget m))"
proof -
  let ?n = "estimated_tokens request"
  note n = estimated_tokens_nonneg [of request]
  from assms(1) show ?thesis
  proof (cases rule: Analyze_cases)
    case (missed p evs1)
    have charge_evs: "analysis_charge request res evs = analysis_charge request res evs1"
      using missed(4) by (auto simp: analysis_charge_def split: if_splits cong: analyze_result.case_cong)
    from missed(3) show ?thesis
    proof (cases rule: analyze_uncached_cases)
      case (refused e)
      then show ?thesis using charge_evs by (simp add: analysis_charge_def)
    next
      case (denied b cb)
      have "budget_used now b = map (\<lambda>u. u + ?n) (budget_used now (mg_budget m))"
        using budget_ledger.reserve_used [OF assms(2) n assms(6)] denied(1) assms(3) by simp
      then show ?thesis using denied charge_evs by (simp add: analysis_charge_def)
    next
      case (called b evs1' cb out calls cb' evs2)
      have tc: "TryConsume now ?n (mg_budget m) = (None, b)" using called(1) assms(3) by simp
      have c: "called_provider evs1"
        using called(5) cb_allow_calls [OF called(2)] call_provider_calls [OF called(3)] by simp
      show ?thesis
      proof (cases out)
        case (Inl e)
        have "budget_used now b = map (\<lambda>u. u + ?n) (budget_used now (mg_budget m))"
          using budget_ledger.reserve_used [OF assms(2) n assms(6) tc] by simp
        then show ?thesis using called(4) Inl charge_evs by (simp add: analysis_charge_def)
      next
        case (Inr o1)
        show ?thesis
        proof (cases o1)
          case (Inl err)
          with Inr called(4) have "finish_failure env request (provider_Name p) err
              (m\<lparr>mg_cache := snd (Get digest (at_get env) request [provider_Name p, []] (mg_cache m)),
                 mg_budget := b, mg_cb := cb'\<rparr>) = (res, evs2, m')" by simp
          from finish_failure_facts(1,2) [OF this]
            budget_ledger.refund_exact [OF assms(2) n assms(5,6) tc] charge_evs
          show ?thesis by (simp add: analysis_charge_def)
        next
          case o1: (Inr resp)
          with Inr called(4) have "finish_success digest env request (provider_Name p) resp
              (m\<lparr>mg_cache := snd (Get digest (at_get env) request [provider_Name p, []] (mg_cache m)),
                 mg_budget := b, mg_cb := cb'\<rparr>) = (res, evs2, m')" by simp
          note fs = finish_success_facts(1,2) [OF this]
          show ?thesis
          proof (cases resp)
            case None
            then show ?thesis
              using fs budget_ledger.reserve_used [OF assms(2) n assms(6) tc] charge_evs
              by (simp add: analysis_charge_def)
          next
            case (Some r)
            have "Inr (Some r) = ev_first env \<or> Inr (Some r) = ev_second env"
              using call_provider_outcome [of env _ cb o1 calls cb'] called(3) Inr o1 Some by simp
            then have "0 \<le> rs_TokensUsed r" "in_int64 (rs_TokensUsed r)"
              "\<forall>u \<in> set (budget_used now (mg_budget m)). in_int64 (u + ?n) \<and> in_int64 (u + rs_TokensUsed r)"
              using assms(6,7) by metis+
            from budget_ledger.settle_exact [OF assms(2) n assms(5) this tc] fs Some assms(4) charge_evs c
            show ?thesis by (simp add: analysis_charge_def)
          qed
        qed
      qed
    qed
  qed (simp_all add: analysis_charge_def)
qed

definition example_env :: analyze_env where
  "example_env = \<lparr>at_get = 10, at_consume = 10, at_allow = 10, at_rate_limit = 10, at_failure = 10,
     at_settle = 10, at_put = 10, ev_first = Inr (Some example_response), ev_cancel = None,
     ev_second = Inl (OtherError ''unused'')\<rparr>"

definition example_manager :: Manager where
  "example_manager = NewManager None None True
     (NewBudget 0 [\<lparr>bw_Name = ''daily'', bw_Duration = 100, bw_Limit = 1000\<rparr>])
     (Some (NewCache 10 60 True)) (Some (NewCircuitBreaker 3 30 False))"

definition example_digest :: payload_digest where
  "example_digest p m q = p"

lemmas manager_eval = Analyze_def analyze_uncached_def call_provider_def finish_success_def
  finish_failure_def route_def cb_allow_def cb_success_def cb_failure_def cb_rate_limit_def
  NewManager_def NewBudget_def TryConsume_def charge_window_def window_expired_def
  estimated_tokens_def settle_def ReleaseUnused_def release_window_def RecordUsage_def
  Get_by_key Put_by_key opt_get_def opt_put_def get_key_def put_key_def evict_back_def NewCache_def
  request_key_def computeRequestKey_def extractProviderModel_def NewCircuitBreaker_def Allow_def
  RecordSuccess_def RecordRateLimit_def on_transition_def setStateLocked_def Let_def time_sub_def
  call_mode_def

lemma example_success:
  "\<exists>evs m'. Analyze example_digest example_env example_request example_manager =
     (Answer example_response, evs, m') \<and> called_provider evs"
  by (simp add: manager_eval example_env_def example_manager_def example_request_def
      example_response_def example_digest_def called_provider_def wrap64_id in_int64_def)

theorem analyze_settles_budget_witness:
  "\<exists>evs m'. Analyze example_digest example_env example_request example_manager =
     (Answer example_response, evs, m') \<and> budget_used 10 (mg_budget m') = [700]"
proof -
  obtain evs m' where a: "Analyze example_digest example_env example_request example_manager =
      (Answer example_response, evs, m')" "called_provider evs"
    using example_success by blast
  have b: "budget_ok 10 (mg_budget example_manager)" "budget_used 10 (mg_budget example_manager) = [0]"
    by (simp_all add: example_manager_def NewManager_def NewBudget_def budget_ok_Some in_int64_def
        budget_used_Some current_tokens_def window_expired_def time_sub_def Let_def)
  have "budget_used 10 (mg_budget m') =
      map (\<lambda>u. u + analysis_charge example_request (Answer example_response) evs) [0]"
    using analyze_settles_budget [OF a(1) b(1)] b(2)
    by (simp add: example_env_def estimated_tokens_def example_request_def example_response_def in_int64_def)
  with a show ?thesis by (simp add: analysis_charge_def example_response_def)
qed

text \<open>C27. A rate-limited probe wedges the manager: when the breaker is open and the reset timeout has
  passed, an analysis that is answered 429 twice leaves the breaker half-open, and from then on no
  sequence of analyses and chat turns, however long and whatever the clock, calls the provider again: every
  analysis that would call it and every chat turn is denied.\<close>

theorem rate_limited_probe_wedges_manager:
  assumes "mg_cb m = Some cb" "cb_state cb = CircuitOpen"
    and "time_sub (at_allow env) (lastFailureTime cb) \<ge> resetTimeout cb"
    and "ev_first env = Inl (RateLimitError d st)" "ev_second env = Inl (RateLimitError d' st')"
    and "Analyze digest env request m = (Failure (AnalysisFailed name err), evs, m')"
    and "manager_run digest as m' = (evs'', m'')"
  shows "called_provider evs \<and> map_option cb_state (mg_cb m'') = Some CircuitHalfOpen \<and> \<not> called_provider evs''"
proof -
  have "called_provider evs \<and> wedged m'"
    using assms(6)
  proof (cases rule: Analyze_cases)
    case (missed p evs1)
    from missed(3) show ?thesis
    proof (cases rule: analyze_uncached_cases)
      case (called b evs1' cb1 out calls cb' evs2)
      have c: "called_provider evs"
        using called(5) cb_allow_calls [OF called(2)] call_provider_calls [OF called(3)] missed(4) by simp
      have cb1: "map_option cb_state cb1 = Some CircuitHalfOpen"
        using called(2) assms(1-3) by (auto simp: cb_allow_def Allow_def setStateLocked_def Let_def)
      have cb': "map_option cb_state cb' = Some CircuitHalfOpen"
        using called(3) assms(4) cb1
        by (auto simp: call_provider_def cb_rate_limit_def RecordRateLimit_def Let_def split: option.splits)
      show ?thesis
      proof (cases "ev_cancel env")
        case None
        then have "out = Inr (Inl (RateLimitError d' st'))"
          using called(3) assms(4,5) by (simp add: call_provider_def Let_def)
        with called(4) cb' c show ?thesis by (simp add: finish_failure_def wedged_def)
      next
        case (Some e)
        then have "out = Inl e" using called(3) assms(4) by (simp add: call_provider_def Let_def)
        with called(4) show ?thesis by simp
      qed
    qed simp_all
  qed simp_all
  with wedged_run [OF _ assms(7)] show ?thesis by (simp add: wedged_def)
qed

definition wedge_env :: analyze_env where
  "wedge_env = example_env\<lparr>ev_first := Inl (RateLimitError 5 429), ev_second := Inl (RateLimitError 5 429)\<rparr>"

definition open_breaker :: CircuitBreaker where
  "open_breaker = \<lparr>cb_state = CircuitOpen, consecutiveFailures = 3, failureThreshold = 3,
     resetTimeout = 5, lastFailureTime = 0, onStateChange = True\<rparr>"

definition open_manager :: Manager where
  "open_manager = example_manager\<lparr>mg_cb := Some open_breaker\<rparr>"

theorem rate_limited_probe_wedges_manager_witness:
  "\<exists>name err evs m'. Analyze example_digest wedge_env example_request open_manager =
      (Failure (AnalysisFailed name err), evs, m') \<and> called_provider evs \<and>
    \<not> called_provider (fst (manager_run example_digest
        [AnalyzeCall (example_env\<lparr>at_allow := 999999\<rparr>) example_request, ChatTurnCall 10000000 TurnSucceeded] m'))"
proof -
  let ?as = "[AnalyzeCall (example_env\<lparr>at_allow := 999999\<rparr>) example_request, ChatTurnCall 10000000 TurnSucceeded]"
  have "\<exists>name err evs m'. Analyze example_digest wedge_env example_request open_manager =
      (Failure (AnalysisFailed name err), evs, m')"
    by (simp add: manager_eval wedge_env_def open_manager_def open_breaker_def example_env_def example_manager_def
        example_request_def example_digest_def wrap64_id in_int64_def)
  then obtain name err evs m' where a: "Analyze example_digest wedge_env example_request open_manager =
      (Failure (AnalysisFailed name err), evs, m')" by blast
  obtain evs2 m2 where r: "manager_run example_digest ?as m' = (evs2, m2)"
    by (cases "manager_run example_digest ?as m'")
  have "called_provider evs \<and> map_option cb_state (mg_cb m2) = Some CircuitHalfOpen \<and> \<not> called_provider evs2"
    by (rule rate_limited_probe_wedges_manager [where cb = open_breaker, OF _ _ _ _ _ a r])
      (simp_all add: open_manager_def open_breaker_def wedge_env_def example_env_def time_sub_def)
  with a r show ?thesis by (metis fst_conv)
qed

text \<open>A success is remembered: after an analysis that called the provider and returned a response,
  the same request within the TTL is answered with that response from the cache, without a provider
  call, and with budget and breaker left as they are.\<close>

theorem analyze_again_hits_cache:
  assumes "Analyze digest env request m = (Answer r, evs, m')" "called_provider evs"
    and "mg_cache m = Some c" "cc_enabled c" "cache_inv c"
    and "time_sub (at_get env') (at_put env) \<le> cc_ttl c"
  shows "\<exists>c'. Analyze digest env' request m' = (Answer r, [CacheHitMetric], m'\<lparr>mg_cache := c'\<rparr>)"
  using assms(1)
proof (cases rule: Analyze_cases)
  case (hit p r')
  then show ?thesis using assms(2) by simp
next
  case (missed p evs1)
  let ?k = "request_key digest request [provider_Name p, []]"
  let ?c1 = "opt_get (at_get env) ?k (mg_cache m)"
  from missed(3) show ?thesis
  proof (cases rule: analyze_uncached_cases)
    case (called b evs1' cb out calls cb' evs2)
    from called(4) obtain resp where "finish_success digest env request (provider_Name p) resp
        (m\<lparr>mg_cache := snd ?c1, mg_budget := b, mg_cb := cb'\<rparr>) = (Answer r, evs2, m')"
      by (auto simp: Get_by_key finish_failure_def Let_def split: sum.splits prod.splits)
    note fs = finish_success_facts [OF this]
    have "resp = Some r" using fs(1) by (cases resp) simp_all
    then have cache: "mg_cache m' = opt_put (at_put env) ?k r (snd ?c1)"
      using fs(3) by (simp add: Put_by_key)
    have ok: "cache_ok (mg_cache m)" using assms(3-5) by (simp add: cache_ok_def)
    note ok1 = response_store.ok_get [OF ok, of "at_get env" ?k]
    note put = response_store.ok_put [OF conjunct1 [OF ok1], of "at_put env" ?k r]
    have en: "\<exists>c1. snd ?c1 = Some c1 \<and> cc_enabled c1" using assms(3,4) by (simp add: opt_get_def)
    have entry: "cache_entry (mg_cache m') ?k = Some (r, at_put env)"
    proof -
      from en obtain c1 where c1: "snd ?c1 = Some c1" "cc_enabled c1" by blast
      then have "cache_inv c1" using ok1 by (simp add: cache_ok_def)
      with c1 cache put_key_config [of c1] put_key_refines [of c1 "at_put env" ?k r] show ?thesis
        by (simp add: opt_put_def cache_entry_def lru_put_entry)
    qed
    have "fst (Get digest (at_get env') request [provider_Name p, []] (mg_cache m')) = Some r"
      using response_store.get_result [of "mg_cache m'" "at_get env'" ?k] put ok1 cache entry assms(3,6)
      by (simp add: Get_by_key cache_ttl_def)
    moreover have "route request m' = Some p"
      using fs(5,6) missed(1) by (simp add: route_def split: if_splits)
    ultimately have "Analyze digest env' request m' = (Answer r, [CacheHitMetric], m'\<lparr>mg_cache :=
        snd (Get digest (at_get env') request [provider_Name p, []] (mg_cache m'))\<rparr>)"
      by (simp add: Analyze_def Let_def case_prod_unfold)
    then show ?thesis by blast
  qed simp_all
qed simp_all

theorem analyze_again_hits_cache_witness:
  "\<exists>evs m' c'. Analyze example_digest example_env example_request example_manager =
      (Answer example_response, evs, m') \<and>
    Analyze example_digest (example_env\<lparr>at_get := 50\<rparr>) example_request m' =
      (Answer example_response, [CacheHitMetric], m'\<lparr>mg_cache := c'\<rparr>)"
proof -
  obtain evs m' where a: "Analyze example_digest example_env example_request example_manager =
      (Answer example_response, evs, m')" "called_provider evs"
    using example_success by blast
  have "\<exists>c'. Analyze example_digest (example_env\<lparr>at_get := 50\<rparr>) example_request m' =
      (Answer example_response, [CacheHitMetric], m'\<lparr>mg_cache := c'\<rparr>)"
    by (rule analyze_again_hits_cache [OF a, of "NewCache 10 60 True"])
      (simp_all add: example_manager_def NewManager_def NewCache_inv example_env_def time_sub_def,
       simp_all add: NewCache_def)
  with a show ?thesis by blast
qed

text \<open>Reconfiguring with an empty provider name does not keep the current provider: it installs the
  static provider for both roles and disables AI; every successful reconfiguration empties the cache,
  and leaves budget and breaker as they are.\<close>

theorem reconfigure_empty_disables:
  "\<exists>m'. Reconfigure getenv now [] key model explainModel m = (None, m') \<and>
    mg_provider m' = Some NoOpProvider \<and> mg_explainProvider m' = Some NoOpProvider \<and>
    \<not> Enabled m' \<and> Available m' = Some False \<and> Size (mg_cache m') = 0 \<and>
    mg_budget m' = mg_budget m \<and> mg_cb m' = mg_cb m"
  by (auto simp: Reconfigure_def NewProvider_def createSingleProvider_def Let_def to_lower_def
      provider_names Enabled_def Available_def Size_def Clear_def split: option.splits)

end
