(* ===== verification/Go_Regexp.thy ===== *)
theory Go_Regexp
  imports Go_Prelude
begin

text \<open>
  The part of Go's \<open>regexp\<close> package that the program uses: regular expressions with leftmost-first
  matching. \<open>runs\<close> lists the ways to match at a position in the order of preference; a position is
  the byte before it and the bytes after it. Expressions work on bytes: the classes of the program's
  patterns are ASCII or negations of ASCII classes, and case-insensitive letters have their
  non-ASCII folds (\<open>U+017F\<close> for \<open>s\<close>, \<open>U+212A\<close> for \<open>k\<close>) spelled out.
\<close>

section \<open>Expressions and their matches\<close>

datatype re =
    Eps
  | Cls "char \<Rightarrow> bool"
  | Cat re re
  | Alt re re
  | Star re
  | LazyStar re
  | Bol
  | Eol
  | WordB

type_synonym position = "char option \<times> string"

definition lower_letter :: "char \<Rightarrow> bool" where "lower_letter c \<longleftrightarrow> CHR ''a'' \<le> c \<and> c \<le> CHR ''z''"
definition upper_letter :: "char \<Rightarrow> bool" where "upper_letter c \<longleftrightarrow> CHR ''A'' \<le> c \<and> c \<le> CHR ''Z''"
definition digit_char :: "char \<Rightarrow> bool" where "digit_char c \<longleftrightarrow> CHR ''0'' \<le> c \<and> c \<le> CHR ''9''"

definition alnum :: "char \<Rightarrow> bool" where
  "alnum c \<longleftrightarrow> lower_letter c \<or> upper_letter c \<or> digit_char c"

definition word_char :: "char \<Rightarrow> bool" where
  "word_char c \<longleftrightarrow> alnum c \<or> c = CHR ''_''"

definition at_word_boundary :: "position \<Rightarrow> bool" where
  "at_word_boundary s \<longleftrightarrow>
     (case fst s of None \<Rightarrow> False | Some c \<Rightarrow> word_char c) \<noteq>
     (case snd s of [] \<Rightarrow> False | c # _ \<Rightarrow> word_char c)"

function runs :: "re \<Rightarrow> position \<Rightarrow> position list" where
  "runs Eps s = [s]"
| "runs (Cls p) s = (case snd s of [] \<Rightarrow> [] | x # xs \<Rightarrow> if p x then [(Some x, xs)] else [])"
| "runs (Cat r1 r2) s = concat (map (runs r2) (runs r1 s))"
| "runs (Alt r1 r2) s = runs r1 s @ runs r2 s"
| "runs (Star r) s =
     concat (map (\<lambda>s'. if length (snd s') < length (snd s) then runs (Star r) s' else []) (runs r s)) @ [s]"
| "runs (LazyStar r) s =
     s # concat (map (\<lambda>s'. if length (snd s') < length (snd s) then runs (LazyStar r) s' else []) (runs r s))"
| "runs Bol s = (if fst s = None then [s] else [])"
| "runs Eol s = (if snd s = [] then [s] else [])"
| "runs WordB s = (if at_word_boundary s then [s] else [])"
  by pat_completeness auto
termination by (relation "measures [\<lambda>(r, s). size r, \<lambda>(r, s). length (snd s)]") auto

declare runs.simps(5,6) [simp del]

lemma runs_star:
  "s' \<in> set (runs (Star r) s) \<longleftrightarrow> s' = s \<or>
     (\<exists>s1 \<in> set (runs r s). length (snd s1) < length (snd s) \<and> s' \<in> set (runs (Star r) s1))"
  by (subst runs.simps(5)) auto

lemma runs_lazy:
  "s' \<in> set (runs (LazyStar r) s) \<longleftrightarrow> s' = s \<or>
     (\<exists>s1 \<in> set (runs r s). length (snd s1) < length (snd s) \<and> s' \<in> set (runs (LazyStar r) s1))"
  by (subst runs.simps(6)) auto

text \<open>Repetitions and character classes.\<close>

abbreviation re_plus :: "re \<Rightarrow> re" where "re_plus r \<equiv> Cat r (Star r)"
abbreviation re_opt :: "re \<Rightarrow> re" where "re_opt r \<equiv> Alt r Eps"

fun re_times :: "nat \<Rightarrow> re \<Rightarrow> re" where
  "re_times 0 r = Eps"
| "re_times (Suc n) r = Cat r (re_times n r)"

fun re_upto :: "nat \<Rightarrow> re \<Rightarrow> re" where
  "re_upto 0 r = Eps"
| "re_upto (Suc n) r = re_opt (Cat r (re_upto n r))"

definition re_char :: "char \<Rightarrow> re" where "re_char c = Cls (\<lambda>x. x = c)"

fun re_string :: "string \<Rightarrow> re" where
  "re_string [] = Eps"
| "re_string [c] = re_char c"
| "re_string (c # d # cs) = Cat (re_char c) (re_string (d # cs))"

fun re_alts :: "re list \<Rightarrow> re" where
  "re_alts [] = Cls (\<lambda>_. False)"
| "re_alts [r] = r"
| "re_alts (r # q # rs) = Alt r (re_alts (q # rs))"

fun re_seq :: "re list \<Rightarrow> re" where
  "re_seq [] = Eps"
| "re_seq [r] = r"
| "re_seq (r # q # rs) = Cat r (re_seq (q # rs))"

definition one_of :: "string \<Rightarrow> re" where "one_of cs = Cls (\<lambda>x. x \<in> set cs)"

text \<open>\<open>\\s\<close>: tab, newline, form feed, carriage return, space.\<close>

definition re_space_char :: "char \<Rightarrow> bool" where
  "re_space_char c \<longleftrightarrow> c \<in> {CHR 0x09, CHR 0x0A, CHR 0x0C, CHR 0x0D, CHR 0x20}"

definition re_space :: re where "re_space = Cls re_space_char"
definition re_nonspace :: re where "re_nonspace = Cls (\<lambda>c. \<not> re_space_char c)"
definition re_digit :: re where "re_digit = Cls digit_char"

text \<open>Case-insensitive letters: \<open>s\<close> and \<open>k\<close> also fold to a letter outside ASCII.\<close>

definition long_s :: re where "long_s = re_string [CHR 0xC5, CHR 0xBF]"
definition kelvin :: re where "kelvin = re_string [CHR 0xE2, CHR 0x84, CHR 0xAA]"

definition fold_class :: "(char \<Rightarrow> bool) \<Rightarrow> re" where
  "fold_class p = re_alts [Cls p, long_s, kelvin]"

definition fold_char :: "char \<Rightarrow> re" where
  "fold_char c =
     (let both = Cls (\<lambda>x. lower_char x = lower_char c) in
      if lower_char c = CHR ''s'' then Alt both long_s
      else if lower_char c = CHR ''k'' then Alt both kelvin
      else both)"

definition fold_string :: "string \<Rightarrow> re" where
  "fold_string cs = re_seq (map fold_char cs)"

section \<open>Searching and replacing\<close>

text \<open>\<open>MatchString\<close>: a match at some position.\<close>

fun re_search_from :: "re \<Rightarrow> char option \<Rightarrow> string \<Rightarrow> bool" where
  "re_search_from r pv [] \<longleftrightarrow> runs r (pv, []) \<noteq> []"
| "re_search_from r pv (x # xs) \<longleftrightarrow> runs r (pv, x # xs) \<noteq> [] \<or> re_search_from r (Some x) xs"

definition re_match :: "re \<Rightarrow> string \<Rightarrow> bool" where
  "re_match r xs = re_search_from r None xs"

text \<open>
  \<open>ReplaceAllString\<close> for a replacement without \<open>$\<close>, as all the program's are: the preferred match at the leftmost
  position is replaced and the search goes on behind it. An empty match is replaced too, unless another match ends there
  (\<open>ended\<close>), and one character is copied; no match starts within a character of several bytes.
\<close>

definition inner_byte :: "char \<Rightarrow> bool" where
  "inner_byte c \<longleftrightarrow> (of_char c :: nat) \<in> {128..<192}"

function re_replace_from :: "re \<Rightarrow> string \<Rightarrow> char option \<Rightarrow> bool \<Rightarrow> string \<Rightarrow> string" where
  "re_replace_from r rep pv ended [] = (if runs r (pv, []) = [] \<or> ended then [] else rep)"
| "re_replace_from r rep pv ended (x # xs) =
     (case runs r (pv, x # xs) of
        [] \<Rightarrow> x # re_replace_from r rep (Some x) False xs
      | s # _ \<Rightarrow>
          if length (snd s) < length (x # xs) then rep @ re_replace_from r rep (fst s) True (snd s)
          else (if ended \<or> inner_byte x then [] else rep) @ x # re_replace_from r rep (Some x) False xs)"
  by pat_completeness auto
termination by (relation "measure (\<lambda>(r, rep, pv, ended, xs). length xs)") auto

definition re_replace :: "re \<Rightarrow> string \<Rightarrow> string \<Rightarrow> string" where
  "re_replace r rep xs = re_replace_from r rep None False xs"

section \<open>What an expression accepts\<close>

inductive accepts :: "re \<Rightarrow> string \<Rightarrow> bool" where
  acc_eps: "accepts Eps []"
| acc_cls: "p x \<Longrightarrow> accepts (Cls p) [x]"
| acc_cat: "accepts r u \<Longrightarrow> accepts q v \<Longrightarrow> accepts (Cat r q) (u @ v)"
| acc_alt1: "accepts r u \<Longrightarrow> accepts (Alt r q) u"
| acc_alt2: "accepts q u \<Longrightarrow> accepts (Alt r q) u"
| acc_star0: "accepts (Star r) []"
| acc_star: "accepts r u \<Longrightarrow> accepts (Star r) v \<Longrightarrow> accepts (Star r) (u @ v)"
| acc_lazy0: "accepts (LazyStar r) []"
| acc_lazy: "accepts r u \<Longrightarrow> accepts (LazyStar r) v \<Longrightarrow> accepts (LazyStar r) (u @ v)"

text \<open>Expressions without assertions depend on what they consume only.\<close>

fun plain_re :: "re \<Rightarrow> bool" where
  "plain_re Eps = True"
| "plain_re (Cls p) = True"
| "plain_re (Cat r q) = (plain_re r \<and> plain_re q)"
| "plain_re (Alt r q) = (plain_re r \<and> plain_re q)"
| "plain_re (Star r) = plain_re r"
| "plain_re (LazyStar r) = plain_re r"
| "plain_re _ = False"

fun nullable :: "re \<Rightarrow> bool" where
  "nullable (Cls p) = False"
| "nullable (Cat r q) = (nullable r \<and> nullable q)"
| "nullable (Alt r q) = (nullable r \<or> nullable q)"
| "nullable _ = True"

fun avoids :: "char \<Rightarrow> re \<Rightarrow> bool" where
  "avoids c (Cls p) = (\<not> p c)"
| "avoids c (Cat r q) = (avoids c r \<and> avoids c q)"
| "avoids c (Alt r q) = (avoids c r \<and> avoids c q)"
| "avoids c (Star r) = avoids c r"
| "avoids c (LazyStar r) = avoids c r"
| "avoids c _ = True"

lemma accepts_nullable: "accepts r u \<Longrightarrow> u = [] \<Longrightarrow> nullable r"
  by (induction rule: accepts.induct) auto

lemma accepts_avoids: "accepts r u \<Longrightarrow> avoids c r \<Longrightarrow> c \<notin> set u"
  by (induction rule: accepts.induct) auto

lemma runs_sound:
  "s' \<in> set (runs r s) \<Longrightarrow> plain_re r \<Longrightarrow> \<exists>u. snd s = u @ snd s' \<and> accepts r u"
proof (induction r s arbitrary: s' rule: runs.induct)
  case (1 s)
  then show ?case by (auto intro: accepts.intros)
next
  case (2 p s)
  then obtain x xs where "snd s = [x] @ xs" "p x" "s' = (Some x, xs)"
    by (cases "snd s") (auto split: if_splits)
  then show ?case by (metis accepts.acc_cls snd_conv)
next
  case (3 r1 r2 s)
  then obtain s1 where "s1 \<in> set (runs r1 s)" "s' \<in> set (runs r2 s1)" by auto
  with 3 obtain u v where "snd s = u @ snd s1" "accepts r1 u" "snd s1 = v @ snd s'" "accepts r2 v"
    by (metis plain_re.simps(3))
  then show ?case by (auto intro: accepts.intros)
next
  case (4 r1 r2 s)
  from 4(3,4) consider "s' \<in> set (runs r1 s)" | "s' \<in> set (runs r2 s)" by auto
  then show ?case using 4 by cases (metis plain_re.simps(4) acc_alt1, metis plain_re.simps(4) acc_alt2)
next
  case (5 r s)
  show ?case
  proof (cases "s' = s")
    case False
    with 5(3) [THEN iffD1 [OF runs_star]] obtain s1 where s1: "s1 \<in> set (runs r s)" "length (snd s1) < length (snd s)"
      "s' \<in> set (runs (Star r) s1)" by blast
    with 5 obtain u v where "snd s = u @ snd s1" "accepts r u" "snd s1 = v @ snd s'" "accepts (Star r) v"
      by (metis plain_re.simps(5))
    then show ?thesis by (auto intro: accepts.intros)
  qed (auto intro: accepts.intros)
next
  case (6 r s)
  show ?case
  proof (cases "s' = s")
    case False
    with 6(3) [THEN iffD1 [OF runs_lazy]] obtain s1 where s1: "s1 \<in> set (runs r s)" "length (snd s1) < length (snd s)"
      "s' \<in> set (runs (LazyStar r) s1)" by blast
    with 6 obtain u v where "snd s = u @ snd s1" "accepts r u" "snd s1 = v @ snd s'" "accepts (LazyStar r) v"
      by (metis plain_re.simps(6))
    then show ?thesis by (auto intro: accepts.intros)
  qed (auto intro: accepts.intros)
qed auto

lemma runs_complete:
  "accepts r u \<Longrightarrow> plain_re r \<Longrightarrow> \<exists>pv'. (pv', ys) \<in> set (runs r (pv, u @ ys))"
proof (induction arbitrary: pv ys rule: accepts.induct)
  case (acc_cat r u q v)
  then obtain pv1 pv2 where "(pv1, v @ ys) \<in> set (runs r (pv, u @ v @ ys))" "(pv2, ys) \<in> set (runs q (pv1, v @ ys))"
    by (metis plain_re.simps(3))
  then show ?case by force
next
  case (acc_star0 r)
  have "(pv, ys) \<in> set (runs (Star r) (pv, [] @ ys))" by (rule iffD2 [OF runs_star]) simp
  then show ?case by blast
next
  case (acc_star r u v)
  show ?case
  proof (cases "u = []")
    case False
    from acc_star obtain pv1 pv2 where s: "(pv1, v @ ys) \<in> set (runs r (pv, u @ v @ ys))"
      "(pv2, ys) \<in> set (runs (Star r) (pv1, v @ ys))"
      by (metis plain_re.simps(5))
    then have "(pv2, ys) \<in> set (runs (Star r) (pv, (u @ v) @ ys))"
      using False by (intro iffD2 [OF runs_star] disjI2 bexI [of _ "(pv1, v @ ys)"]) simp_all
    then show ?thesis by blast
  qed (use acc_star in simp)
next
  case (acc_lazy0 r)
  have "(pv, ys) \<in> set (runs (LazyStar r) (pv, [] @ ys))" by (rule iffD2 [OF runs_lazy]) simp
  then show ?case by blast
next
  case (acc_lazy r u v)
  show ?case
  proof (cases "u = []")
    case False
    from acc_lazy obtain pv1 pv2 where s: "(pv1, v @ ys) \<in> set (runs r (pv, u @ v @ ys))"
      "(pv2, ys) \<in> set (runs (LazyStar r) (pv1, v @ ys))"
      by (metis plain_re.simps(6))
    then have "(pv2, ys) \<in> set (runs (LazyStar r) (pv, (u @ v) @ ys))"
      using False by (intro iffD2 [OF runs_lazy] disjI2 bexI [of _ "(pv1, v @ ys)"]) simp_all
    then show ?thesis by blast
  qed (use acc_lazy in simp)
next
  case (acc_alt1 r u q)
  then obtain pv1 where "(pv1, ys) \<in> set (runs r (pv, u @ ys))" by (metis plain_re.simps(4))
  then show ?case by auto
next
  case (acc_alt2 q u r)
  then obtain pv1 where "(pv1, ys) \<in> set (runs q (pv, u @ ys))" by (metis plain_re.simps(4))
  then show ?case by auto
qed simp_all

section \<open>Searching and replacing, in terms of what is accepted\<close>

text \<open>\<open>free_of r xs\<close>: no part of \<open>xs\<close> is accepted.\<close>

definition free_of :: "re \<Rightarrow> string \<Rightarrow> bool" where
  "free_of r xs \<longleftrightarrow> (\<forall>u. accepts r u \<longrightarrow> \<not> sublist u xs)"

lemma search_sublist:
  assumes "plain_re r"
  shows "re_search_from r pv xs \<longleftrightarrow> (\<exists>u. accepts r u \<and> sublist u xs)"
proof -
  have at: "runs r (pv, xs) \<noteq> [] \<longleftrightarrow> (\<exists>u. accepts r u \<and> prefix u xs)" for pv xs
  proof
    assume "runs r (pv, xs) \<noteq> []"
    then have "hd (runs r (pv, xs)) \<in> set (runs r (pv, xs))" by simp
    from runs_sound [OF this assms] show "\<exists>u. accepts r u \<and> prefix u xs" by (auto simp: prefix_def)
  next
    assume "\<exists>u. accepts r u \<and> prefix u xs"
    then obtain u ys where "accepts r u" "xs = u @ ys" by (auto simp: prefix_def)
    with runs_complete [OF _ assms, of u ys pv] show "runs r (pv, xs) \<noteq> []" by auto
  qed
  show ?thesis
    by (induction xs arbitrary: pv) (auto simp: at sublist_Cons_right)
qed

lemma free_of_match: "plain_re r \<Longrightarrow> \<not> re_match r xs \<longleftrightarrow> free_of r xs"
  by (auto simp: re_match_def search_sublist free_of_def)

lemma free_of_suffix: "free_of r (xs @ ys) \<Longrightarrow> free_of r ys"
  by (auto simp: free_of_def intro: sublist_appendI [of ys xs "[]", simplified] sublist_order.order_trans)

lemma free_of_Cons:
  assumes "free_of r xs" "\<And>u. accepts r u \<Longrightarrow> \<not> prefix u (x # xs)"
  shows "free_of r (x # xs)"
  using assms by (auto simp: free_of_def sublist_Cons_right)

text \<open>A bracketed replacement cannot become part of a match of an expression without brackets.\<close>

definition bracketed :: "string \<Rightarrow> bool" where
  "bracketed rep \<longleftrightarrow> (\<exists>mid. rep = CHR ''['' # mid @ [CHR '']''])"

definition separable :: "re \<Rightarrow> bool" where
  "separable r \<longleftrightarrow> plain_re r \<and> \<not> nullable r \<and> avoids (CHR ''['') r \<and> avoids (CHR '']'') r"

lemma sublist_split_char:
  assumes "sublist u (xs @ c # ys)" "c \<notin> set u"
  shows "sublist u xs \<or> sublist u ys"
proof -
  from assms(1) consider "sublist u xs" | "sublist u (c # ys)"
    | us vs where "u = us @ vs" "suffix us xs" "prefix vs (c # ys)"
    unfolding sublist_append by blast
  then show ?thesis
  proof cases
    case 2
    with assms(2) show ?thesis by (cases u) (auto simp: sublist_Cons_right)
  next
    case 3
    with assms(2) have "vs = []" by (cases vs) auto
    with 3 show ?thesis by (auto intro: suffix_imp_sublist)
  qed simp
qed

lemma free_of_bracketed:
  assumes "separable r" "bracketed rep" "free_of r rep" "free_of r ys"
  shows "free_of r (rep @ ys)"
  unfolding free_of_def
proof (intro allI impI notI)
  fix u assume u: "accepts r u" "sublist u (rep @ ys)"
  obtain mid where mid: "rep = CHR ''['' # mid @ [CHR '']'']" using assms(2) by (auto simp: bracketed_def)
  have "CHR '']'' \<notin> set u" using accepts_avoids [OF u(1)] assms(1) by (simp add: separable_def)
  then have "sublist u (CHR ''['' # mid) \<or> sublist u ys"
    using sublist_split_char [of u "CHR ''['' # mid" "CHR '']''" ys] u(2) mid by simp
  moreover have "sublist (CHR ''['' # mid) rep" by (simp add: mid sublist_appendI [of "CHR ''['' # mid" "[]", simplified])
  ultimately show False
    using assms(3,4) u(1) sublist_order.order_trans unfolding free_of_def by blast
qed

lemma runs_suffix: "s' \<in> set (runs r s) \<Longrightarrow> suffix (snd s') (snd s)"
proof (induction r s arbitrary: s' rule: runs.induct)
  case (2 p s)
  then show ?case by (cases "snd s") (auto split: if_splits intro: suffix_ConsI)
next
  case (3 r1 r2 s)
  then obtain s1 where "s1 \<in> set (runs r1 s)" "s' \<in> set (runs r2 s1)" by auto
  with 3(1,2) show ?case by (blast intro: suffix_order.order_trans)
next
  case (5 r s)
  from 5(3) [THEN iffD1 [OF runs_star]] show ?case
    using 5(1,2) by (blast intro: suffix_order.order_trans)
next
  case (6 r s)
  from 6(3) [THEN iffD1 [OF runs_lazy]] show ?case
    using 6(1,2) by (blast intro: suffix_order.order_trans)
qed (auto split: if_splits)

text \<open>One step of a replacement copies a byte, perhaps behind the replacement of an empty match, or replaces a match.\<close>

lemma replace_step:
  obtains (copy) pre where "re_replace_from r rep pv ended (x # xs) = pre @ x # re_replace_from r rep (Some x) False xs"
      "pre = [] \<or> pre = rep" "runs r (pv, x # xs) = [] \<or> \<not> length (snd (hd (runs r (pv, x # xs)))) < length (x # xs)"
  | (replaced) pv' ys where "re_replace_from r rep pv ended (x # xs) = rep @ re_replace_from r rep pv' True ys"
      "length ys < length (x # xs)" "suffix ys (x # xs)"
proof (cases "runs r (pv, x # xs)")
  case Nil
  then show thesis using copy [of "[]"] by simp
next
  case (Cons s ss)
  show thesis
  proof (cases "length (snd s) < length (x # xs)")
    case True
    with Cons have "re_replace_from r rep pv ended (x # xs) = rep @ re_replace_from r rep (fst s) True (snd s)" by simp
    moreover have "suffix (snd s) (x # xs)" using runs_suffix [of s r "(pv, x # xs)"] Cons by simp
    ultimately show thesis using replaced True by blast
  next
    case False
    with Cons copy [of "if ended \<or> inner_byte x then [] else rep"] show thesis by simp
  qed
qed

lemma replace_prefix:
  assumes "bracketed rep"
  shows "prefix u (re_replace_from q rep pv ended xs) \<Longrightarrow> CHR ''['' \<notin> set u \<Longrightarrow> prefix u xs"
proof (induction xs arbitrary: u pv ended)
  case Nil
  then show ?case using assms by (cases u) (auto simp: bracketed_def split: if_splits)
next
  case (Cons x xs)
  show ?case
  proof (cases u)
    case (Cons c cs)
    show ?thesis
    proof (rule replace_step [of q rep pv ended x xs])
      fix pre assume "re_replace_from q rep pv ended (x # xs) = pre @ x # re_replace_from q rep (Some x) False xs" "pre = [] \<or> pre = rep"
      with Cons.prems Cons.IH [of cs "Some x" False] Cons assms show ?thesis by (auto simp: bracketed_def)
    next
      fix pv' ys assume "re_replace_from q rep pv ended (x # xs) = rep @ re_replace_from q rep pv' True ys"
      with Cons.prems Cons assms show ?thesis by (auto simp: bracketed_def)
    qed
  qed simp
qed

text \<open>A replacement removes every match of its expression, and brings back none of another.\<close>

lemma free_of_replaced:
  assumes "separable r" "bracketed rep" "free_of r rep" "free_of r ys" "pre = [] \<or> pre = rep"
  shows "free_of r (pre @ ys)"
  using assms(4,5) free_of_bracketed [OF assms(1-3)] by auto

lemma free_of_replacement:
  assumes "separable r" "free_of r rep"
  shows "free_of r (re_replace_from q rep pv ended [])"
  using assms accepts_nullable [of r] by (auto simp: free_of_def separable_def)

lemma replace_keeps_free:
  assumes "separable r" "bracketed rep" "free_of r rep"
  shows "free_of r xs \<Longrightarrow> free_of r (re_replace_from q rep pv ended xs)"
proof (induction "length xs" arbitrary: xs pv ended rule: less_induct)
  case less
  show ?case
  proof (cases xs)
    case Nil
    then show ?thesis using free_of_replacement [OF assms(1,3)] by simp
  next
    case (Cons x t)
    have np: "\<not> prefix u (x # t)" if "accepts r u" for u
      using less.prems that Cons by (auto simp: free_of_def prefix_imp_sublist)
    show ?thesis unfolding Cons
    proof (rule replace_step [of q rep pv ended x t])
      fix pre assume copy: "re_replace_from q rep pv ended (x # t) = pre @ x # re_replace_from q rep (Some x) False t" "pre = [] \<or> pre = rep"
      have "free_of r (re_replace_from q rep (Some x) False t)"
        using less.hyps [of t] less.prems free_of_suffix [of r "[x]" t] Cons by simp
      moreover have "\<not> prefix u (x # re_replace_from q rep (Some x) False t)" if u: "accepts r u" for u
      proof
        assume "prefix u (x # re_replace_from q rep (Some x) False t)"
        moreover have "CHR ''['' \<notin> set u" using accepts_avoids [OF u] assms(1) by (simp add: separable_def)
        ultimately have "prefix u (x # t)"
          using replace_prefix [OF assms(2), of _ q "Some x" False t] by (cases u) auto
        with np [OF u] show False by simp
      qed
      ultimately have "free_of r (x # re_replace_from q rep (Some x) False t)" by (rule free_of_Cons)
      then show "free_of r (re_replace_from q rep pv ended (x # t))"
        unfolding copy(1) using copy(2) by (rule free_of_replaced [OF assms])
    next
      fix pv' ys assume s: "re_replace_from q rep pv ended (x # t) = rep @ re_replace_from q rep pv' True ys"
        "length ys < length (x # t)" "suffix ys (x # t)"
      have "free_of r ys" using less.prems s(3) Cons free_of_suffix by (auto simp: suffix_def)
      with s less.hyps [of ys pv' True] Cons have "free_of r (re_replace_from q rep pv' True ys)" by simp
      then show "free_of r (re_replace_from q rep pv ended (x # t))"
        unfolding s(1) by (rule free_of_bracketed [OF assms])
    qed
  qed
qed

lemma replace_makes_free:
  assumes "separable r" "bracketed rep" "free_of r rep"
  shows "free_of r (re_replace_from r rep pv ended xs)"
proof (induction "length xs" arbitrary: xs pv ended rule: less_induct)
  case less
  show ?case
  proof (cases xs)
    case Nil
    then show ?thesis using free_of_replacement [OF assms(1,3)] by simp
  next
    case (Cons x t)
    show ?thesis unfolding Cons
    proof (rule replace_step [of r rep pv ended x t])
      fix pre assume copy: "re_replace_from r rep pv ended (x # t) = pre @ x # re_replace_from r rep (Some x) False t" "pre = [] \<or> pre = rep"
        "runs r (pv, x # t) = [] \<or> \<not> length (snd (hd (runs r (pv, x # t)))) < length (x # t)"
      have "\<not> prefix u (x # re_replace_from r rep (Some x) False t)" if u: "accepts r u" for u
      proof
        assume "prefix u (x # re_replace_from r rep (Some x) False t)"
        moreover have "CHR ''['' \<notin> set u" using accepts_avoids [OF u] assms(1) by (simp add: separable_def)
        ultimately have "prefix u (x # t)"
          using replace_prefix [OF assms(2), of _ r "Some x" False t] by (cases u) auto
        then obtain ys where "x # t = u @ ys" by (auto simp: prefix_def)
        then have "runs r (pv, x # t) \<noteq> []"
          using runs_complete [OF u, of ys pv] assms(1) by (auto simp: separable_def)
        moreover from this have "hd (runs r (pv, x # t)) \<in> set (runs r (pv, x # t))" by simp
        from runs_sound [OF this] assms(1) obtain v where
          "x # t = v @ snd (hd (runs r (pv, x # t)))" "accepts r v" by (auto simp: separable_def)
        moreover from this have "v \<noteq> []" using accepts_nullable assms(1) by (auto simp: separable_def)
        ultimately show False using copy(3) by (metis append_eq_append_conv_if length_append length_greater_0_conv less_add_same_cancel2)
      qed
      moreover have "free_of r (re_replace_from r rep (Some x) False t)" using less.hyps [of t] Cons by simp
      ultimately have "free_of r (x # re_replace_from r rep (Some x) False t)" by (intro free_of_Cons)
      then show "free_of r (re_replace_from r rep pv ended (x # t))"
        unfolding copy(1) using copy(2) by (rule free_of_replaced [OF assms])
    next
      fix pv' ys assume s: "re_replace_from r rep pv ended (x # t) = rep @ re_replace_from r rep pv' True ys"
        "length ys < length (x # t)"
      with less.hyps [of ys pv' True] Cons have "free_of r (re_replace_from r rep pv' True ys)" by simp
      then show "free_of r (re_replace_from r rep pv ended (x # t))"
        unfolding s(1) by (rule free_of_bracketed [OF assms])
    qed
  qed
qed

end
