(* ===== verification/AI_Sanitizer.thy ===== *)
theory AI_Sanitizer
  imports Go_Regexp AI_Types
begin

text \<open>
  Sanitizing before data leaves for a provider (\<open>internal/ai/sanitize.go\<close>): the default patterns, the
  replacement of their matches, resource names, issue contexts and whole requests. Compiling a
  custom pattern is the regexp library's, a parameter.
\<close>

section \<open>Patterns\<close>

definition sep_space :: re where "sep_space = re_plus (Cls (\<lambda>c. c = CHR ''='' \<or> c = CHR '':'' \<or> re_space_char c))"

definition dash_opt :: re where "dash_opt = re_opt (one_of ''_-'')"

definition credential_pattern :: re where
  "credential_pattern = re_seq
     [re_alts [re_seq [fold_string ''api'', dash_opt, fold_string ''key''], fold_string ''apikey'',
        fold_string ''token'', fold_string ''secret'', fold_string ''password'', fold_string ''passwd'',
        fold_string ''pwd'', fold_string ''auth''],
      sep_space, re_plus re_nonspace]"

definition bearer_pattern :: re where
  "bearer_pattern = re_seq [fold_string ''bearer'', re_plus re_space,
     re_plus (fold_class (\<lambda>c. alnum c \<or> c = CHR ''-'' \<or> c = CHR ''_''))]"

definition aws_pattern :: re where
  "aws_pattern = re_seq
     [fold_string ''aws'', dash_opt,
      re_alts [re_seq [fold_string ''access'', dash_opt, fold_string ''key''], fold_string ''secret'',
        fold_string ''session''],
      sep_space, re_plus re_nonspace]"

definition access_key_pattern :: re where
  "access_key_pattern = re_seq [re_string ''AKIA'', re_times 16 (Cls (\<lambda>c. digit_char c \<or> upper_letter c))]"

definition base64_pattern :: re where
  "base64_pattern =
     (let b = fold_class (\<lambda>c. alnum c \<or> c = CHR ''+'' \<or> c = CHR ''/'' \<or> c = CHR ''='') in
      re_seq [re_alts [fold_string ''data'', fold_string ''value'', fold_string ''secret''],
        Star (Cls (\<lambda>c. c = CHR '':'' \<or> re_space_char c)), re_times 40 b, Star b])"

definition email_pattern :: re where
  "email_pattern = re_seq
     [re_plus (Cls (\<lambda>c. alnum c \<or> c \<in> set ''._%+-'')), re_char (CHR ''@''),
      re_plus (Cls (\<lambda>c. alnum c \<or> c \<in> set ''.-'')), re_char (CHR ''.''),
      re_times 2 (Cls (\<lambda>c. lower_letter c \<or> upper_letter c)), Star (Cls (\<lambda>c. lower_letter c \<or> upper_letter c))]"

definition octet :: re where "octet = Cat re_digit (re_upto 2 re_digit)"

definition private_ip_pattern :: re where
  "private_ip_pattern =
     (let dot = re_char (CHR ''.'') in re_seq
       [WordB,
        re_alts
         [re_seq [re_string ''10'', dot, octet, dot, octet, dot, octet],
          re_seq [re_string ''172'', dot,
            re_alts [Cat (re_char (CHR ''1'')) (one_of ''6789''), Cat (re_char (CHR ''2'')) re_digit,
              Cat (re_char (CHR ''3'')) (one_of ''01'')], dot, octet, dot, octet],
          re_seq [re_string ''192'', dot, re_string ''168'', dot, octet, dot, octet]],
        WordB])"

definition pem_pattern :: re where
  "pem_pattern =
     (let label = re_plus (Cls (\<lambda>c. upper_letter c \<or> c = CHR '' '')) in re_seq
       [re_string ''-----BEGIN '', label, re_string ''-----'', LazyStar (Cls (\<lambda>_. True)),
        re_string ''-----END '', label, re_string ''-----''])"

definition connection_pattern :: re where
  "connection_pattern = re_seq
     [re_alts [fold_string ''mongodb'', fold_string ''postgres'', fold_string ''mysql'', fold_string ''redis''],
      re_string ''://'', re_plus re_nonspace]"

definition jwt_pattern :: re where
  "jwt_pattern =
     (let b = re_plus (Cls (\<lambda>c. alnum c \<or> c = CHR ''_'' \<or> c = CHR ''-'')); dot = re_char (CHR ''.'') in
      re_seq [re_string ''eyJ'', b, dot, re_string ''eyJ'', b, dot, b])"

definition secret_ref_pattern :: re where
  "secret_ref_pattern = re_seq [fold_string ''secretRef'', re_char (CHR '':''), re_plus (Cls (\<lambda>c. c \<noteq> CHR 0x0A))]"

definition SensitivePatterns :: "re list" where
  "SensitivePatterns =
     [credential_pattern, bearer_pattern, aws_pattern, access_key_pattern, base64_pattern, email_pattern,
      private_ip_pattern, pem_pattern, connection_pattern, jwt_pattern, secret_ref_pattern]"

definition RedactionPlaceholder :: string where "RedactionPlaceholder = ''[REDACTED]''"

section \<open>The sanitizer\<close>

record Sanitizer =
  sz_patterns :: "re list"
  sz_additionalPatterns :: "re list"

definition NewSanitizer :: Sanitizer where
  "NewSanitizer = \<lparr>sz_patterns = SensitivePatterns, sz_additionalPatterns = []\<rparr>"

definition AddPattern :: "(string \<Rightarrow> string + re) \<Rightarrow> string \<Rightarrow> Sanitizer \<Rightarrow> string option \<times> Sanitizer" where
  "AddPattern compile pattern s =
     (case compile pattern of
        Inl e \<Rightarrow> (Some (''invalid sanitizer pattern: '' @ e), s)
      | Inr r \<Rightarrow> (None, s\<lparr>sz_additionalPatterns := sz_additionalPatterns s @ [r]\<rparr>))"

definition SanitizeString :: "Sanitizer \<Rightarrow> string \<Rightarrow> string" where
  "SanitizeString s input =
     fold (\<lambda>pattern result. re_replace pattern RedactionPlaceholder result) (sz_additionalPatterns s)
       (fold (\<lambda>pattern result. re_replace pattern RedactionPlaceholder result) (sz_patterns s) input)"

definition SanitizeStrings :: "Sanitizer \<Rightarrow> string list \<Rightarrow> string list" where
  "SanitizeStrings s inputs = map (SanitizeString s) inputs"

definition sensitiveNamePatterns :: "string list" where
  "sensitiveNamePatterns = [''secret'', ''token'', ''credential'', ''password'', ''key'']"

definition SanitizeResourceName :: "string \<Rightarrow> string" where
  "SanitizeResourceName name =
     (case split_all (CHR ''/'') name of
        [resourceType, resourceName] \<Rightarrow>
          resourceType @ ''/'' @
            (if list_ex (str_contains (to_lower resourceName)) sensitiveNamePatterns
             then resourceType @ ''-'' @ RedactionPlaceholder else resourceName)
      | _ \<Rightarrow> name)"

definition SanitizeIssueContext :: "Sanitizer \<Rightarrow> IssueContext \<Rightarrow> IssueContext" where
  "SanitizeIssueContext s i =
     \<lparr>ic_Type = ic_Type i, ic_Severity = ic_Severity i, ic_Resource = SanitizeResourceName (ic_Resource i),
      ic_Namespace = ic_Namespace i, ic_Message = SanitizeString s (ic_Message i),
      ic_StaticSuggestion = ic_StaticSuggestion i, ic_Events = SanitizeStrings s (ic_Events i),
      ic_Logs = SanitizeStrings s (ic_Logs i)\<rparr>"

definition sanitize_group :: "Sanitizer \<Rightarrow> CausalGroupSummary \<Rightarrow> CausalGroupSummary" where
  "sanitize_group s g =
     \<lparr>cgs_Rule = cgs_Rule g, cgs_Title = SanitizeString s (cgs_Title g),
      cgs_RootCause = SanitizeString s (cgs_RootCause g), cgs_Severity = cgs_Severity g,
      cgs_Confidence = cgs_Confidence g, cgs_Resources = map (SanitizeString s) (cgs_Resources g)\<rparr>"

definition SanitizeAnalysisRequest :: "Sanitizer \<Rightarrow> AnalysisRequest \<Rightarrow> AnalysisRequest" where
  "SanitizeAnalysisRequest s req =
     \<lparr>ar_Issues = map (SanitizeIssueContext s) (ar_Issues req), ar_ClusterContext = ar_ClusterContext req,
      ar_CausalContext = map_option (\<lambda>cc. cc\<lparr>cac_Groups := map (sanitize_group s) (cac_Groups cc)\<rparr>)
        (ar_CausalContext req),
      ar_MaxTokens = ar_MaxTokens req, ar_ExplainMode = ar_ExplainMode req,
      ar_ExplainContext = SanitizeString s (ar_ExplainContext req)\<rparr>"

section \<open>Nothing that the bracket-free patterns match is left\<close>

definition leak_patterns :: "re list" where
  "leak_patterns = [access_key_pattern, email_pattern, jwt_pattern]"

lemma leak_patterns_default: "set leak_patterns \<subseteq> set SensitivePatterns"
  by (simp add: leak_patterns_def SensitivePatterns_def)

lemma re_times_props:
  "plain_re r \<Longrightarrow> plain_re (re_times n r)" "avoids c r \<Longrightarrow> avoids c (re_times n r)"
  "\<not> nullable r \<Longrightarrow> 0 < n \<Longrightarrow> \<not> nullable (re_times n r)"
  by (induction n) auto

lemmas pattern_defs = leak_patterns_def access_key_pattern_def email_pattern_def jwt_pattern_def re_char_def
  alnum_def lower_letter_def upper_letter_def digit_char_def Let_def

lemma leak_patterns_separable: "list_all separable leak_patterns"
  by (simp add: separable_def pattern_defs re_times_props)

lemma placeholder_bracketed: "bracketed RedactionPlaceholder"
  unfolding bracketed_def RedactionPlaceholder_def by (rule exI [of _ "''REDACTED''"]) simp

text \<open>A required byte that the placeholder does not have.\<close>

lemma placeholder_free: "list_all (\<lambda>r. free_of r RedactionPlaceholder) leak_patterns"
proof -
  have "list_all (\<lambda>r. \<not> re_match r RedactionPlaceholder) leak_patterns" by code_simp
  with leak_patterns_separable show ?thesis
    by (auto simp: list_all_iff separable_def free_of_match)
qed

lemma fold_replace_free:
  assumes "r \<in> set leak_patterns" "r \<in> set ps \<or> free_of r xs"
  shows "free_of r (fold (\<lambda>pattern result. re_replace pattern RedactionPlaceholder result) ps xs)"
  using assms(2)
proof (induction ps arbitrary: xs)
  case (Cons p ps)
  have sep: "separable r" "free_of r RedactionPlaceholder"
    using leak_patterns_separable placeholder_free assms(1) by (simp_all add: list_all_iff)
  have "r \<in> set ps \<or> free_of r (re_replace p RedactionPlaceholder xs)"
    using Cons.prems replace_makes_free [OF sep(1) placeholder_bracketed sep(2)]
      replace_keeps_free [OF sep(1) placeholder_bracketed sep(2)]
    by (auto simp: re_replace_def)
  with Cons.IH show ?case by simp
qed simp

lemma SanitizeString_free:
  assumes "r \<in> set leak_patterns" "set SensitivePatterns \<subseteq> set (sz_patterns s)"
  shows "\<not> re_match r (SanitizeString s input)"
proof -
  have "r \<in> set (sz_patterns s)" using assms leak_patterns_default by auto
  then have "free_of r (SanitizeString s input)"
    unfolding SanitizeString_def by (blast intro: fold_replace_free [OF assms(1)])
  moreover have "plain_re r" using leak_patterns_separable assms(1) by (auto simp: list_all_iff separable_def)
  ultimately show ?thesis by (simp add: free_of_match)
qed

text \<open>The free text of a request: what comes from the cluster's messages, events and logs.\<close>

definition request_texts :: "AnalysisRequest \<Rightarrow> string list" where
  "request_texts req =
     concat (map (\<lambda>i. ic_Message i # ic_Events i @ ic_Logs i) (ar_Issues req)) @
     (case ar_CausalContext req of None \<Rightarrow> []
      | Some cc \<Rightarrow> concat (map (\<lambda>g. cgs_Title g # cgs_RootCause g # cgs_Resources g) (cac_Groups cc))) @
     [ar_ExplainContext req]"

lemma request_texts_sanitized:
  "request_texts (SanitizeAnalysisRequest s req) = map (SanitizeString s) (request_texts req)"
  by (simp add: request_texts_def SanitizeAnalysisRequest_def SanitizeIssueContext_def SanitizeStrings_def
      sanitize_group_def map_concat comp_def split: option.split)

section \<open>Properties\<close>

text \<open>C18. No AWS access key id, e-mail address or JSON web token is left in the free text of a sanitized
  request, whatever the request and whatever patterns were added: the replacements of the other
  patterns, before or after, bring none back. The rest of the request keeps its number of issues, their
  types, severities and suggestions, and its cluster context.\<close>

theorem sanitized_request_leaks_nothing:
  "let s = \<lparr>sz_patterns = SensitivePatterns, sz_additionalPatterns = extra\<rparr>;
       req' = SanitizeAnalysisRequest s req
   in list_all (\<lambda>t. list_all (\<lambda>r. \<not> re_match r t) [access_key_pattern, email_pattern, jwt_pattern]) (request_texts req') \<and>
      length (request_texts req') = length (request_texts req) \<and>
      map (\<lambda>i. (ic_Type i, ic_Severity i, ic_StaticSuggestion i)) (ar_Issues req') =
        map (\<lambda>i. (ic_Type i, ic_Severity i, ic_StaticSuggestion i)) (ar_Issues req) \<and>
      ar_ClusterContext req' = ar_ClusterContext req"
proof -
  let ?s = "\<lparr>sz_patterns = SensitivePatterns, sz_additionalPatterns = extra\<rparr>"
  have "list_all (\<lambda>r. \<not> re_match r (SanitizeString ?s t)) leak_patterns" for t
    unfolding list_all_iff by (intro ballI SanitizeString_free) simp_all
  then have "list_all (\<lambda>t. list_all (\<lambda>r. \<not> re_match r t) leak_patterns) (request_texts (SanitizeAnalysisRequest ?s req))"
    unfolding request_texts_sanitized by (simp add: list_all_iff)
  then show ?thesis
    by (simp add: Let_def request_texts_sanitized leak_patterns_def)
      (simp add: SanitizeAnalysisRequest_def SanitizeIssueContext_def)
qed

end
