(* ===== verification/Go_Text.thy ===== *)
theory Go_Text
  imports Float64
begin

text \<open>
  The parts of Go's \<open>time\<close> and \<open>fmt\<close> that the code uses: dates of UTC times, counted in nanoseconds
  from the zero time (1 January of year 1), the text of durations, RFC 3339 parsing, and floats with
  a fixed number of decimals.
\<close>

section \<open>Dates\<close>

text \<open>Days since the zero time to year, month and day of the proleptic Gregorian calendar.\<close>

definition civil :: "int \<Rightarrow> int \<times> int \<times> int" where
  "civil d =
     (let z = d + 306; era = z div 146097; doe = z mod 146097;
          yoe = (doe - doe div 1460 + doe div 36524 - doe div 146096) div 365;
          doy = doe - (365 * yoe + yoe div 4 - yoe div 100);
          mp = (5 * doy + 2) div 153;
          dd = doy - (153 * mp + 2) div 5 + 1;
          mm = (if mp < 10 then mp + 3 else mp - 9);
          y = yoe + era * 400
      in (if mm \<le> 2 then y + 1 else y, mm, dd))"

definition pad_left :: "nat \<Rightarrow> string \<Rightarrow> string" where
  "pad_left n s = replicate (n - length s) (CHR ''0'') @ s"

text \<open>\<open>Format("2006-01-02")\<close> and \<open>Format(time.RFC3339)\<close>.\<close>

definition format_date :: "time \<Rightarrow> string" where
  "format_date t =
     (let (y, m, d) = civil (t div (24 * hour))
      in pad_left 4 (itoa y) @ ''-'' @ pad_left 2 (itoa m) @ ''-'' @ pad_left 2 (itoa d))"

definition format_rfc3339 :: "time \<Rightarrow> string" where
  "format_rfc3339 t =
     (let s = t mod (24 * hour)
      in format_date t @ ''T'' @ pad_left 2 (itoa (s div hour)) @ '':'' @
         pad_left 2 (itoa (s mod hour div minute)) @ '':'' @ pad_left 2 (itoa (s mod minute div second)) @ ''Z'')"

text \<open>\<open>AddDate(0, 0, days)\<close> of a UTC time, and \<open>Duration.Hours\<close>.\<close>

definition add_days :: "time \<Rightarrow> int \<Rightarrow> time" where
  "add_days t days = t + days * (24 * hour)"

definition quot_int :: "int \<Rightarrow> int \<Rightarrow> int" where
  "quot_int a b = (if a < 0 then - (- a div b) else a div b)"

definition duration_seconds :: "duration \<Rightarrow> f64" where
  "duration_seconds d = fadd (float64 (quot_int d second)) (fdiv (float64 (go_rem d second)) (fl 1000000000))"

definition hours_of :: "duration \<Rightarrow> f64" where
  "hours_of d =
     (let h = quot_int d hour; nsec = d - h * hour
      in fadd (float64 h) (fdiv (float64 nsec) (60 * 60 * 1000000000)))"

text \<open>The conversion \<open>int(x)\<close> of a float truncates.\<close>

definition f64_to_int :: "f64 \<Rightarrow> int" where
  "f64_to_int x = (if x < 0 then - \<lfloor>- x\<rfloor> else \<lfloor>x\<rfloor>)"

lemma civil_examples:
  "civil 0 = (1, 1, 1)" "civil 719162 = (1970, 1, 1)" "civil 738944 = (2024, 2, 29)"
  by code_simp+

section \<open>Floats with fixed decimals\<close>

text \<open>\<open>%.0f\<close> and \<open>%.1f\<close>: the exact value rounded to nearest, ties to even.\<close>

definition fmt_f0 :: "f64 \<Rightarrow> string" where
  "fmt_f0 x = (if x < 0 then ''-'' @ itoa (round_even (- x)) else itoa (round_even x))"

definition fmt_f1 :: "f64 \<Rightarrow> string" where
  "fmt_f1 x =
     (let n = round_even (\<bar>x\<bar> * 10)
      in (if x < 0 then ''-'' else []) @ itoa (n div 10) @ ''.'' @ itoa (n mod 10))"

section \<open>Durations\<close>

text \<open>\<open>Duration.String\<close>: the fraction without trailing zeros, then the units.\<close>

definition trim_zeros :: "string \<Rightarrow> string" where
  "trim_zeros s = rev (dropWhile (\<lambda>c. c = CHR ''0'') (rev s))"

definition frac_text :: "nat \<Rightarrow> int \<Rightarrow> string" where
  "frac_text p v = (let t = trim_zeros (pad_left p (itoa v)) in if t = [] then [] else ''.'' @ t)"

definition duration_String :: "duration \<Rightarrow> string" where
  "duration_String d =
     (let u = \<bar>d\<bar>; sign = (if d < 0 then ''-'' else []) in
      if u = 0 then ''0s''
      else if u < 1000 then sign @ itoa u @ ''ns''
      else if u < 1000000 then sign @ itoa (u div 1000) @ frac_text 3 (u mod 1000) @ [CHR 0xC2, CHR 0xB5, CHR ''s'']
      else if u < second then sign @ itoa (u div 1000000) @ frac_text 6 (u mod 1000000) @ ''ms''
      else let h = u div hour; m = u mod hour div minute; s = u mod minute in
        sign @ (if h > 0 then itoa h @ ''h'' else []) @ (if u \<ge> minute then itoa m @ ''m'' else []) @
        itoa (s div second) @ frac_text 9 (s mod second) @ ''s'')"

text \<open>\<open>Duration.Round\<close>: to the nearest multiple, halves away from zero, unless that overflows.\<close>

definition duration_Round :: "duration \<Rightarrow> duration \<Rightarrow> duration" where
  "duration_Round d m =
     (if m \<le> 0 then d
      else let r = \<bar>d\<bar> mod m;
               u = (if r + r < m then \<bar>d\<bar> - r else \<bar>d\<bar> + m - r)
           in if d < 0 then max (- (2 ^ 63)) (- u) else min (2 ^ 63 - 1) u)"

lemma duration_examples:
  "duration_String 0 = ''0s''" "duration_String (90 * minute) = ''1h30m0s''"
  "duration_Round (90 * second) minute = 2 * minute"
  by code_simp+

section \<open>RFC 3339\<close>

text \<open>Days from the zero time to a date.\<close>

definition days_of_civil :: "int \<Rightarrow> int \<Rightarrow> int \<Rightarrow> int" where
  "days_of_civil y m d =
     (let y' = (if m \<le> 2 then y - 1 else y); era = y' div 400; yoe = y' mod 400;
          mp = (if m > 2 then m - 3 else m + 9); doy = (153 * mp + 2) div 5 + d - 1;
          doe = yoe * 365 + yoe div 4 - yoe div 100 + doy
      in era * 146097 + doe - 306)"

definition days_in_month :: "int \<Rightarrow> int \<Rightarrow> int" where
  "days_in_month y m =
     (if m = 2 then (if y mod 4 = 0 \<and> (y mod 100 \<noteq> 0 \<or> y mod 400 = 0) then 29 else 28)
      else if m \<in> {4, 6, 9, 11} then 30 else 31)"

definition is_digit :: "char \<Rightarrow> bool" where
  "is_digit c \<longleftrightarrow> CHR ''0'' \<le> c \<and> c \<le> CHR ''9''"

definition digits_value :: "string \<Rightarrow> int" where
  "digits_value s = foldl (\<lambda>n c. 10 * n + (int (of_char c) - 48)) 0 s"

text \<open>The value of the digits in \<open>s[i:j]\<close> when it lies between the bounds.\<close>

definition field_in :: "string \<Rightarrow> nat \<Rightarrow> nat \<Rightarrow> int \<Rightarrow> int \<Rightarrow> int option" where
  "field_in s i j lo hi =
     (let f = take (j - i) (drop i s); v = digits_value f
      in if list_all is_digit f \<and> length f = j - i \<and> lo \<le> v \<and> v \<le> hi then Some v else None)"

definition zone_offset :: "string \<Rightarrow> int option" where
  "zone_offset s =
     (if s = ''Z'' then Some 0
      else if length s \<noteq> 6 \<or> s ! 0 \<notin> {CHR ''+'', CHR ''-''} \<or> s ! 3 \<noteq> CHR '':'' then None
      else case (field_in s 1 3 0 23, field_in s 4 6 0 59) of
             (Some h, Some m) \<Rightarrow> Some ((if s ! 0 = CHR ''-'' then - 1 else 1) * (h * hour + m * minute))
           | _ \<Rightarrow> None)"

text \<open>The optional fraction of a second, at most nine digits of which count, and the rest.\<close>

definition fraction_of :: "string \<Rightarrow> int \<times> string" where
  "fraction_of s =
     (case s of
        c # c' # _ \<Rightarrow>
          if c = CHR ''.'' \<and> is_digit c'
          then let ds = takeWhile is_digit (tl s); ds9 = take 9 ds
               in (digits_value ds9 * 10 ^ (9 - length ds9), drop (length ds) (tl s))
          else (0, s)
      | _ \<Rightarrow> (0, s))"

definition parse_rfc3339 :: "string \<Rightarrow> time option" where
  "parse_rfc3339 s =
     (if length s < 19 \<or> s ! 4 \<noteq> CHR ''-'' \<or> s ! 7 \<noteq> CHR ''-'' \<or> s ! 10 \<noteq> CHR ''T'' \<or>
         s ! 13 \<noteq> CHR '':'' \<or> s ! 16 \<noteq> CHR '':'' then None
      else case (field_in s 0 4 0 9999, field_in s 5 7 1 12, field_in s 8 10 1 31) of
        (Some y, Some m, Some d) \<Rightarrow>
          if d > days_in_month y m then None
          else (case (field_in s 11 13 0 23, field_in s 14 16 0 59, field_in s 17 19 0 59) of
             (Some hh, Some mi, Some ss) \<Rightarrow>
               let (frac, rest) = fraction_of (drop 19 s) in
               (case zone_offset rest of
                  None \<Rightarrow> None
                | Some off \<Rightarrow> Some (days_of_civil y m d * (24 * hour) + hh * hour + mi * minute +
                    ss * second + frac - off))
           | _ \<Rightarrow> None)
      | _ \<Rightarrow> None)"

lemma parse_examples:
  "parse_rfc3339 ''1970-01-01T00:00:01Z'' = Some (719162 * (24 * hour) + second)"
  "parse_rfc3339 ''1970-01-01T02:00:00.5+01:00'' = Some (719162 * (24 * hour) + hour + 500000000)"
  "parse_rfc3339 ''2023-02-29T00:00:00Z'' = None"
  by code_simp+

section \<open>Runes\<close>

text \<open>The conversion of a string to \<open>[]rune\<close>, each rune as its UTF-8 bytes: a byte that starts no
  valid sequence becomes the replacement character.\<close>

definition byte_in :: "nat \<Rightarrow> nat \<Rightarrow> string \<Rightarrow> nat \<Rightarrow> bool" where
  "byte_in lo hi s i \<longleftrightarrow> i < length s \<and> lo \<le> of_char (s ! i) \<and> of_char (s ! i) \<le> hi"

definition rune_width :: "string \<Rightarrow> nat" where
  "rune_width s =
     (if byte_in 0 0x7F s 0 then 1
      else if byte_in 0xC2 0xDF s 0 \<and> byte_in 0x80 0xBF s 1 then 2
      else if (byte_in 0xE0 0xE0 s 0 \<and> byte_in 0xA0 0xBF s 1 \<or> byte_in 0xE1 0xEC s 0 \<and> byte_in 0x80 0xBF s 1 \<or>
          byte_in 0xED 0xED s 0 \<and> byte_in 0x80 0x9F s 1 \<or> byte_in 0xEE 0xEF s 0 \<and> byte_in 0x80 0xBF s 1) \<and>
        byte_in 0x80 0xBF s 2 then 3
      else if (byte_in 0xF0 0xF0 s 0 \<and> byte_in 0x90 0xBF s 1 \<or> byte_in 0xF1 0xF3 s 0 \<and> byte_in 0x80 0xBF s 1 \<or>
          byte_in 0xF4 0xF4 s 0 \<and> byte_in 0x80 0x8F s 1) \<and> byte_in 0x80 0xBF s 2 \<and> byte_in 0x80 0xBF s 3 then 4
      else 0)"

definition replacement_char :: string where
  "replacement_char = [CHR 0xEF, CHR 0xBF, CHR 0xBD]"

function runes :: "string \<Rightarrow> string list" where
  "runes [] = []"
| "runes (c # cs) =
     (let w = rune_width (c # cs) in
      if w = 0 then replacement_char # runes cs else take w (c # cs) # runes (drop w (c # cs)))"
  by pat_completeness auto
termination by (relation "measure length") auto

declare runes.simps(2) [simp del]

section \<open>Trimming, searching and numbers\<close>

text \<open>\<open>strings.TrimSpace\<close>: the white space of Unicode in UTF-8.\<close>

definition unicode_spaces :: "string list" where
  "unicode_spaces =
     [[CHR 0x09], [CHR 0x0A], [CHR 0x0B], [CHR 0x0C], [CHR 0x0D], [CHR 0x20], [CHR 0xC2, CHR 0x85],
      [CHR 0xC2, CHR 0xA0], [CHR 0xE1, CHR 0x9A, CHR 0x80], [CHR 0xE2, CHR 0x80, CHR 0xA8],
      [CHR 0xE2, CHR 0x80, CHR 0xA9], [CHR 0xE2, CHR 0x80, CHR 0xAF], [CHR 0xE2, CHR 0x81, CHR 0x9F],
      [CHR 0xE3, CHR 0x80, CHR 0x80]] @
     map (\<lambda>n. [CHR 0xE2, CHR 0x80, char_of n]) [0x80..<(0x8B :: nat)]"

function trim_left :: "string list \<Rightarrow> string \<Rightarrow> string" where
  "trim_left sps xs =
     (case find (\<lambda>p. p \<noteq> [] \<and> has_prefix xs p) sps of
        None \<Rightarrow> xs
      | Some p \<Rightarrow> trim_left sps (drop (length p) xs))"
  by pat_completeness auto
termination
  by (relation "measure (\<lambda>(sps, xs). length xs)")
    (auto simp: find_Some_iff has_prefix_iff intro!: diff_less)

declare trim_left.simps [simp del]

definition trim_space :: "string \<Rightarrow> string" where
  "trim_space xs = rev (trim_left (map rev unicode_spaces) (rev (trim_left unicode_spaces xs)))"

text \<open>\<open>strings.Index\<close>.\<close>

fun str_index :: "string \<Rightarrow> string \<Rightarrow> int option" where
  "str_index [] p = (if p = [] then Some 0 else None)"
| "str_index (x # xs) p = (if has_prefix (x # xs) p then Some 0 else map_option (\<lambda>i. i + 1) (str_index xs p))"

text \<open>\<open>strconv.Atoi\<close> of a decimal number: \<open>None\<close> for a syntax or range error.\<close>

definition go_atoi :: "string \<Rightarrow> int option" where
  "go_atoi s =
     (let (neg, ds) = (case s of [] \<Rightarrow> (False, [])
            | c # cs \<Rightarrow> if c = CHR ''-'' then (True, cs) else if c = CHR ''+'' then (False, cs) else (False, s));
          n = (if neg then - digits_value ds else digits_value ds)
      in if ds = [] \<or> \<not> list_all is_digit ds \<or> \<not> in_int64 n then None else Some n)"

lemma str_index_bounds: "str_index xs p = Some i \<Longrightarrow> 0 \<le> i \<and> i + int (length p) \<le> int (length xs)"
proof (induction xs arbitrary: i)
  case (Cons x xs)
  then show ?case
    by (cases "has_prefix (x # xs) p") (auto simp: has_prefix_iff dest: prefix_length_le)
qed (auto split: if_splits)

text \<open>Values that the examples and messages of later theories use.\<close>

lemma itoa_values: "itoa 0 = ''0''" "itoa 1 = ''1''" "itoa 500 = ''500''"
  by code_simp+

lemma trim_space_values: "trim_space [] = []" "trim_space ''hello'' = ''hello''" "trim_space ''true'' = ''true''"
  by code_simp+

end
