(* ===== verification/AI_Client.thy ===== *)
theory AI_Client
  imports AI_Manager AI_Sanitizer Go_Text
begin

text \<open>
  The HTTP providers (\<open>internal/ai/openai.go\<close>, \<open>anthropic.go\<close>, \<open>schema.go\<close>) and the prompts and
  responses they exchange (\<open>provider.go\<close>). The exchange itself is the parameter \<open>send\<close>, the JSON
  library's encoders and decoders are parameters too. A panic is \<open>None\<close>.
\<close>

section \<open>Repairing a model's JSON (openai.go)\<close>

definition fence :: string where "fence = ([CHR 0x60] @ [CHR 0x60] @ [CHR 0x60])"

text \<open>\<open>lower\<close> is \<open>strings.ToLower\<close>, which may change the length of text outside ASCII.\<close>

definition extractJSON :: "(string \<Rightarrow> string) \<Rightarrow> string \<Rightarrow> string option" where
  "extractJSON lower content =
     (case str_index (lower content) (fence @ ''json'') of
        Some idx \<Rightarrow>
          (case go_slice content (idx + 7) (int (length content)) of
             None \<Rightarrow> None
           | Some rest \<Rightarrow>
               (case str_index rest fence of
                  Some end \<Rightarrow> Some (trim_space (take (nat end) rest))
                | None \<Rightarrow> Some (trim_space rest)))
      | None \<Rightarrow>
          (case str_index content fence of
             Some idx \<Rightarrow>
               (let rest = drop (nat (idx + 3)) content;
                    rest' = (case rest of c # cs \<Rightarrow> if c = CHR 0x0A then cs else rest | [] \<Rightarrow> rest)
                in (case str_index rest' fence of
                      Some end \<Rightarrow> Some (trim_space (take (nat end) rest'))
                    | None \<Rightarrow> Some (trim_space rest')))
           | None \<Rightarrow> Some content))"

definition isValidJSONEscapeChar :: "char \<Rightarrow> bool" where
  "isValidJSONEscapeChar c \<longleftrightarrow> c \<in> {CHR 0x22, CHR 0x5C, CHR ''/'', CHR ''b'', CHR ''f'', CHR ''n'', CHR ''r'', CHR ''t'', CHR ''u''}"

definition slash :: char where "slash = CHR 0x5C"

text \<open>The run of backslashes at the front, and the rest behind it.\<close>

definition slash_run :: "string \<Rightarrow> nat" where "slash_run s = length (takeWhile (\<lambda>c. c = slash) s)"

function fixInvalidJSONEscapes :: "string \<Rightarrow> string" where
  "fixInvalidJSONEscapes [] = []"
| "fixInvalidJSONEscapes (c # cs) =
     (if c \<noteq> slash then c # fixInvalidJSONEscapes cs
      else let n = slash_run (c # cs); rest = drop n (c # cs);
               n' = (if rest \<noteq> [] \<and> \<not> isValidJSONEscapeChar (hd rest) \<and> odd n then n - 1 else n)
           in replicate n' slash @ fixInvalidJSONEscapes rest)"
  by pat_completeness auto
termination by (relation "measure length") (auto simp: slash_run_def)

declare fixInvalidJSONEscapes.simps(2) [simp del]

section \<open>Errors and retries (openai.go)\<close>

definition rate_limit_text :: "int \<Rightarrow> duration \<Rightarrow> string" where
  "rate_limit_text status delay = ''rate limited (status '' @ itoa status @ ''), retry after '' @ duration_String delay"

definition error_text :: "provider_error \<Rightarrow> string" where
  "error_text e = (case e of RateLimitError delay status \<Rightarrow> rate_limit_text status delay | OtherError m \<Rightarrow> m)"

definition parseRetryAfter :: "string \<Rightarrow> duration" where
  "parseRetryAfter header =
     (if header = [] then 5 * second
      else case go_atoi header of
        None \<Rightarrow> 5 * second
      | Some secs \<Rightarrow> if secs \<le> 0 then 5 * second else min (wrap64 (secs * second)) (30 * second))"

definition isRetryableForFallback :: "provider_error option \<Rightarrow> bool" where
  "isRetryableForFallback err =
     (case err of None \<Rightarrow> False
      | Some (RateLimitError _ _) \<Rightarrow> False
      | Some (OtherError m) \<Rightarrow> str_contains m ''status 400'')"

section \<open>Schemas (schema.go)\<close>

datatype json = JStr string | JBool bool | JList "json list" | JObj "(string \<times> json) list"

definition typed :: "string \<Rightarrow> json" where "typed t = JObj [(''type'', JStr t)]"

definition string_array :: json where
  "string_array = JObj [(''type'', JStr ''array''), (''items'', typed ''string'')]"

definition required :: "string list \<Rightarrow> string \<times> json" where
  "required ks = (''required'', JList (map JStr ks))"

definition AnalysisResponseSchema :: json where
  "AnalysisResponseSchema = JObj
     [(''type'', JStr ''object''),
      (''properties'', JObj
        [(''suggestions'', JObj
           [(''type'', JStr ''object''),
            (''additionalProperties'', JObj
              [(''type'', JStr ''object''),
               (''properties'', JObj
                 [(''suggestion'', typed ''string''), (''rootCause'', typed ''string''),
                  (''steps'', string_array), (''references'', string_array), (''confidence'', typed ''number'')]),
               required [''suggestion'', ''rootCause'', ''steps'', ''references'', ''confidence''],
               (''additionalProperties'', JBool False)])]),
         (''causalInsights'', JObj
           [(''type'', JStr ''array''),
            (''items'', JObj
              [(''type'', JStr ''object''),
               (''properties'', JObj
                 [(''groupID'', typed ''string''), (''aiRootCause'', typed ''string''),
                  (''aiSuggestion'', typed ''string''), (''aiSteps'', string_array),
                  (''confidence'', typed ''number'')]),
               required [''groupID'', ''aiRootCause'', ''aiSuggestion'', ''aiSteps'', ''confidence''],
               (''additionalProperties'', JBool False)])]),
         (''summary'', typed ''string'')]),
      required [''suggestions'', ''causalInsights'', ''summary''],
      (''additionalProperties'', JBool False)]"

definition ExplainResponseSchema :: json where
  "ExplainResponseSchema = JObj
     [(''type'', JStr ''object''),
      (''properties'', JObj
        [(''narrative'', typed ''string''),
         (''riskLevel'', JObj [(''type'', JStr ''string''),
            (''enum'', JList [JStr ''low'', JStr ''medium'', JStr ''high'', JStr ''critical''])]),
         (''topIssues'', JObj
           [(''type'', JStr ''array''),
            (''items'', JObj
              [(''type'', JStr ''object''),
               (''properties'', JObj
                 [(''title'', typed ''string''), (''severity'', typed ''string''), (''impact'', typed ''string'')]),
               required [''title'', ''severity'', ''impact''],
               (''additionalProperties'', JBool False)])]),
         (''trendDirection'', JObj [(''type'', JStr ''string''),
            (''enum'', JList [JStr ''improving'', JStr ''stable'', JStr ''degrading''])]),
         (''confidence'', typed ''number'')]),
      required [''narrative'', ''riskLevel'', ''topIssues'', ''trendDirection'', ''confidence''],
      (''additionalProperties'', JBool False)]"

section \<open>Prompts (provider.go)\<close>

record encoders =
  en_cluster :: "ClusterContext \<Rightarrow> string"     \<comment> \<open>indented\<close>
  en_issue :: "IssueContext \<Rightarrow> string"
  en_group :: "CausalGroupSummary \<Rightarrow> string"

definition numbered :: "string \<Rightarrow> string list \<Rightarrow> string" where
  "numbered key lines = concat (map (\<lambda>(i, l). key @ ''_'' @ itoa (int i) @ '': '' @ l @ [CHR 0x0A]) (enumerate 0 lines))"

definition causal_prompt :: "encoders \<Rightarrow> CausalAnalysisContext \<Rightarrow> string" where
  "causal_prompt en cc =
     ([CHR 0x0A] @ [CHR 0x0A] @
       ''Causal Correlation Analysis (issues have been automatically grouped by likely root '' @
       ''cause):'' @ [CHR 0x0A] @ ''Total issues: '') @
     itoa (cac_TotalIssues cc) @ '', Uncorrelated: '' @ itoa (cac_UncorrelatedCount cc) @
     ([CHR 0x0A] @ [CHR 0x0A] @ ''Groups:'' @ [CHR 0x0A]) @ numbered ''group'' (map (en_group en) (cac_Groups cc)) @
     ([CHR 0x0A] @
       ''Use the correlation data above to provide deeper root cause analysis. Correlated '' @
       ''issues should be analyzed together.'' @ [CHR 0x0A] @
       ''For each group, use the exact group key (group_0, group_1, ...) as the '' @
       [CHR 0x22] @ ''groupID'' @ [CHR 0x22] @ '' value in your causalInsights response.'')"

definition BuildPrompt :: "encoders \<Rightarrow> AnalysisRequest \<Rightarrow> string" where
  "BuildPrompt en request =
     (if ar_ExplainMode request \<and> ar_ExplainContext request \<noteq> []
      then SanitizeString NewSanitizer (ar_ExplainContext request)
      else (''Analyze these Kubernetes health check issues and provide enhanced suggestions.'' @
       [CHR 0x0A] @ ''Use the exact issue key (issue_0, issue_1, ...) in your response.'' @
       [CHR 0x0A] @ [CHR 0x0A] @ ''Cluster Context:'' @ [CHR 0x0A]) @
        en_cluster en (ar_ClusterContext request) @ ([CHR 0x0A] @ [CHR 0x0A] @ ''Issues:'' @ [CHR 0x0A]) @
        numbered ''issue'' (map (en_issue en) (ar_Issues request)) @
        (case ar_CausalContext request of None \<Rightarrow> []
         | Some cc \<Rightarrow> if cac_Groups cc = [] then [] else causal_prompt en cc) @
        ([CHR 0x0A] @ [CHR 0x0A] @
       ''Provide a JSON response with enhanced suggestions for each issue.''))"

definition systemPrompt :: string where
  "systemPrompt = (''You are a Kubernetes troubleshooting expert. You analyze health check issues from '' @
       ''Kubernetes clusters and provide actionable suggestions.'' @ [CHR 0x0A] @ [CHR 0x0A] @
       ''When analyzing issues:'' @ [CHR 0x0A] @
       ''1. Identify the root cause based on the error type and message'' @ [CHR 0x0A] @
       ''2. Provide specific, actionable remediation steps'' @ [CHR 0x0A] @
       ''3. Consider common patterns and best practices'' @ [CHR 0x0A] @
       ''4. Reference relevant Kubernetes documentation when helpful'' @ [CHR 0x0A] @
       [CHR 0x0A] @
       ''Each issue is labeled with an index key (issue_0, issue_1, ...). Use the EXACT same '' @
       ''key in your response.'' @ [CHR 0x0A] @ [CHR 0x0A] @
       ''Respond in JSON format with this structure:'' @ [CHR 0x0A] @ ''{'' @ [CHR 0x0A] @
       ''  '' @ [CHR 0x22] @ ''suggestions'' @ [CHR 0x22] @ '': {'' @ [CHR 0x0A] @ ''    '' @
       [CHR 0x22] @ ''issue_0'' @ [CHR 0x22] @ '': {'' @ [CHR 0x0A] @ ''      '' @ [CHR 0x22] @
       ''suggestion'' @ [CHR 0x22] @ '': '' @ [CHR 0x22] @ ''Main suggestion text'' @
       [CHR 0x22] @ '','' @ [CHR 0x0A] @ ''      '' @ [CHR 0x22] @ ''rootCause'' @ [CHR 0x22] @
       '': '' @ [CHR 0x22] @ ''Likely root cause'' @ [CHR 0x22] @ '','' @ [CHR 0x0A] @
       ''      '' @ [CHR 0x22] @ ''steps'' @ [CHR 0x22] @ '': ['' @ [CHR 0x22] @ ''Step 1'' @
       [CHR 0x22] @ '', '' @ [CHR 0x22] @ ''Step 2'' @ [CHR 0x22] @ ''],'' @ [CHR 0x0A] @
       ''      '' @ [CHR 0x22] @ ''references'' @ [CHR 0x22] @ '': ['' @ [CHR 0x22] @
       ''https://kubernetes.io/...'' @ [CHR 0x22] @ ''],'' @ [CHR 0x0A] @ ''      '' @
       [CHR 0x22] @ ''confidence'' @ [CHR 0x22] @ '': 0.8'' @ [CHR 0x0A] @ ''    },'' @
       [CHR 0x0A] @ ''    '' @ [CHR 0x22] @ ''issue_1'' @ [CHR 0x22] @ '': { ... }'' @
       [CHR 0x0A] @ ''  },'' @ [CHR 0x0A] @ ''  '' @ [CHR 0x22] @ ''summary'' @ [CHR 0x22] @
       '': '' @ [CHR 0x22] @ ''Overall analysis summary'' @ [CHR 0x22] @ [CHR 0x0A] @ ''}'' @
       [CHR 0x0A] @ [CHR 0x0A] @
       ''Keep suggestions concise but actionable. Focus on the most impactful fixes.'' @
       [CHR 0x0A] @ [CHR 0x0A] @
       ''IMPORTANT: Do NOT reference other issues by their index key (e.g., '' @ [CHR 0x22] @
       ''see issue_7'' @ [CHR 0x22] @
       '') in suggestion text. Each suggestion must be self-contained and understandable on '' @
       ''its own. Use resource names instead if you need to reference related issues.'' @
       [CHR 0x0A] @ [CHR 0x0A] @
       ''When causal correlation data is provided in the request, also analyze each '' @
       ''correlation group and provide deeper root cause analysis. Include a '' @ [CHR 0x22] @
       ''causalInsights'' @ [CHR 0x22] @ '' array in your JSON response:'' @ [CHR 0x0A] @
       [CHR 0x0A] @ ''{'' @ [CHR 0x0A] @ ''  '' @ [CHR 0x22] @ ''suggestions'' @ [CHR 0x22] @
       '': { ... },'' @ [CHR 0x0A] @ ''  '' @ [CHR 0x22] @ ''causalInsights'' @ [CHR 0x22] @
       '': ['' @ [CHR 0x0A] @ ''    {'' @ [CHR 0x0A] @ ''      '' @ [CHR 0x22] @ ''groupID'' @
       [CHR 0x22] @ '': '' @ [CHR 0x22] @ ''group_0'' @ [CHR 0x22] @ '','' @ [CHR 0x0A] @
       ''      '' @ [CHR 0x22] @ ''aiRootCause'' @ [CHR 0x22] @ '': '' @ [CHR 0x22] @
       ''Detailed analysis of why this correlation exists'' @ [CHR 0x22] @ '','' @ [CHR 0x0A] @
       ''      '' @ [CHR 0x22] @ ''aiSuggestion'' @ [CHR 0x22] @ '': '' @ [CHR 0x22] @
       ''Recommended resolution approach'' @ [CHR 0x22] @ '','' @ [CHR 0x0A] @ ''      '' @
       [CHR 0x22] @ ''aiSteps'' @ [CHR 0x22] @ '': ['' @ [CHR 0x22] @ ''Step 1'' @ [CHR 0x22] @
       '', '' @ [CHR 0x22] @ ''Step 2'' @ [CHR 0x22] @ ''],'' @ [CHR 0x0A] @ ''      '' @
       [CHR 0x22] @ ''confidence'' @ [CHR 0x22] @ '': 0.85'' @ [CHR 0x0A] @ ''    }'' @
       [CHR 0x0A] @ ''  ],'' @ [CHR 0x0A] @ ''  '' @ [CHR 0x22] @ ''summary'' @ [CHR 0x22] @
       '': '' @ [CHR 0x22] @ ''Overall analysis summary'' @ [CHR 0x22] @ [CHR 0x0A] @ ''}'' @
       [CHR 0x0A] @ [CHR 0x0A] @
       ''Each causalInsight must use the exact group key (group_0, group_1, ...) as the '' @
       [CHR 0x22] @ ''groupID'' @ [CHR 0x22] @
       '' value. If no causal correlation data is provided, omit the causalInsights array '' @
       ''entirely.'')"

section \<open>Responses (provider.go)\<close>

definition re_issue_ref :: re where
  "re_issue_ref = re_seq [Alt (re_string ''issue'') (re_string ''group''), re_char (CHR ''_''), re_plus re_digit]"

definition issueRefPattern :: re where
  "issueRefPattern = re_seq [Star re_space, re_char (CHR ''(''),
     re_opt (re_seq [re_string ''see'', re_plus re_space]), re_issue_ref, re_char (CHR '')'')]"

definition bareIssueRefPattern :: re where
  "bareIssueRefPattern = re_seq [WordB, re_issue_ref, WordB]"

definition StripIssueReferences :: "string \<Rightarrow> string" where
  "StripIssueReferences text =
     trim_space (re_replace bareIssueRefPattern [] (re_replace issueRefPattern [] text))"

text \<open>What the JSON decoder fills in, and the clamping of a confidence.\<close>

record parsed =
  pr_Suggestions :: "string \<rightharpoonup> EnhancedSuggestion"
  pr_CausalInsights :: "CausalGroupInsight list"
  pr_Summary :: string

definition clamp_unit :: "f64 \<Rightarrow> f64" where
  "clamp_unit c = (let c1 = (if c < 0 then 0 else c) in if c1 > 1 then 1 else c1)"

definition clean_suggestion :: "EnhancedSuggestion \<Rightarrow> EnhancedSuggestion" where
  "clean_suggestion s = s\<lparr>es_Suggestion := StripIssueReferences (es_Suggestion s),
     es_RootCause := StripIssueReferences (es_RootCause s),
     es_Steps := map StripIssueReferences (es_Steps s),
     es_Confidence := clamp_unit (es_Confidence s)\<rparr>"

definition clean_insight :: "CausalGroupInsight \<Rightarrow> CausalGroupInsight" where
  "clean_insight g = g\<lparr>cgi_AIRootCause := StripIssueReferences (cgi_AIRootCause g),
     cgi_AISuggestion := StripIssueReferences (cgi_AISuggestion g),
     cgi_AISteps := map StripIssueReferences (cgi_AISteps g),
     cgi_Confidence := clamp_unit (cgi_Confidence g)\<rparr>"

definition no_parse :: parsed where
  "no_parse = \<lparr>pr_Suggestions = Map.empty, pr_CausalInsights = [], pr_Summary = []\<rparr>"

text \<open>\<open>decode\<close> is \<open>json.NewDecoder(...).Decode\<close>: the first JSON value of the text.\<close>

fun try_suffixes :: "(string \<Rightarrow> parsed option) \<Rightarrow> string \<Rightarrow> string list \<Rightarrow> parsed" where
  "try_suffixes decode content [] = no_parse"
| "try_suffixes decode content (sfx # rest) =
     (case decode (content @ sfx) of
        None \<Rightarrow> try_suffixes decode content rest
      | Some raw \<Rightarrow> if pr_Suggestions raw \<noteq> Map.empty then raw else try_suffixes decode content rest)"

definition tryPartialParse :: "(string \<Rightarrow> parsed option) \<Rightarrow> string \<Rightarrow> parsed" where
  "tryPartialParse decode content = try_suffixes decode content [''}'', ''}}'', ''}}}'', '']}'', '']}}'']"

record decoders =
  de_lower :: "string \<Rightarrow> string"                  \<comment> \<open>\<open>strings.ToLower\<close>\<close>
  de_unmarshal :: "string \<Rightarrow> parsed option"        \<comment> \<open>\<open>json.Unmarshal\<close> of the whole text\<close>
  de_decode :: "string \<Rightarrow> parsed option"

definition parse_cleaned :: "decoders \<Rightarrow> string \<Rightarrow> string \<Rightarrow> int \<Rightarrow> AnalysisResponse" where
  "parse_cleaned de content cleaned tokens =
     (case de_unmarshal de cleaned of
        Some p \<Rightarrow>
          \<lparr>rs_EnhancedSuggestions = map_option clean_suggestion \<circ> pr_Suggestions p,
           rs_CausalInsights = map clean_insight (pr_CausalInsights p), rs_Summary = pr_Summary p,
           rs_RawContent = content, rs_TokensUsed = tokens, rs_Truncated = False, rs_ParseFailed = False\<rparr>
      | None \<Rightarrow>
          (let partial = tryPartialParse (de_decode de) cleaned in
           if pr_Suggestions partial \<noteq> Map.empty
           then \<lparr>rs_EnhancedSuggestions = pr_Suggestions partial, rs_CausalInsights = pr_CausalInsights partial,
                 rs_Summary = pr_Summary partial, rs_RawContent = content, rs_TokensUsed = tokens,
                 rs_Truncated = True, rs_ParseFailed = False\<rparr>
           else \<lparr>rs_EnhancedSuggestions = Map.empty, rs_CausalInsights = [], rs_Summary = content,
                 rs_RawContent = content, rs_TokensUsed = tokens, rs_Truncated = False, rs_ParseFailed = True\<rparr>))"

definition ParseResponse :: "decoders \<Rightarrow> string \<Rightarrow> int \<Rightarrow> AnalysisResponse option" where
  "ParseResponse de content tokens =
     map_option (\<lambda>json. parse_cleaned de content (fixInvalidJSONEscapes json) tokens) (extractJSON (de_lower de) content)"

section \<open>Explaining the cluster (provider.go)\<close>

definition explainUnknown :: string where "explainUnknown = ''unknown''"

record ExplainIssue =
  ei_Title :: string
  ei_Severity :: string
  ei_Impact :: string

record ExplainResponse =
  ex_Narrative :: string
  ex_RiskLevel :: string
  ex_TopIssues :: "ExplainIssue list option"     \<comment> \<open>\<open>None\<close> is nil\<close>
  ex_TrendDirection :: string
  ex_Confidence :: f64
  ex_TokensUsed :: int

record explain_decoders =
  xd_lower :: "string \<Rightarrow> string"
  xd_unmarshal :: "string \<Rightarrow> ExplainResponse option"
  xd_raw_string :: "string \<Rightarrow> string option"            \<comment> \<open>the field \<open>topIssues\<close>, when it is a JSON string\<close>
  xd_issues :: "string \<Rightarrow> ExplainIssue list option option" \<comment> \<open>the inner option is nil for JSON null\<close>

definition top_issues :: "explain_decoders \<Rightarrow> string \<Rightarrow> ExplainResponse \<Rightarrow> ExplainIssue list option" where
  "top_issues xd cleaned r =
     (case ex_TopIssues r of
        Some is \<Rightarrow> Some is
      | None \<Rightarrow>
          (case xd_raw_string xd cleaned of
             None \<Rightarrow> None
           | Some s \<Rightarrow> if trim_space s = [] then None
               else (case xd_issues xd s of None \<Rightarrow> None | Some is \<Rightarrow> is)))"

definition normalize_level :: "(string \<Rightarrow> string) \<Rightarrow> string list \<Rightarrow> string \<Rightarrow> string" where
  "normalize_level lower levels s = (if lower s \<in> set levels then lower s else explainUnknown)"

definition risk_levels :: "string list" where
  "risk_levels = [''low'', ''medium'', ''high'', ''critical'']"

definition trend_directions :: "string list" where
  "trend_directions = [''improving'', ''stable'', ''degrading'']"

definition explain_cleaned :: "explain_decoders \<Rightarrow> string \<Rightarrow> string \<Rightarrow> int \<Rightarrow> ExplainResponse" where
  "explain_cleaned xd content cleaned tokens =
     (case xd_unmarshal xd cleaned of
        None \<Rightarrow> \<lparr>ex_Narrative = content, ex_RiskLevel = explainUnknown, ex_TopIssues = None,
          ex_TrendDirection = explainUnknown, ex_Confidence = 0, ex_TokensUsed = tokens\<rparr>
      | Some r \<Rightarrow>
          \<lparr>ex_Narrative = (if trim_space (ex_Narrative r) = [] then content else ex_Narrative r),
           ex_RiskLevel = normalize_level (xd_lower xd) risk_levels (ex_RiskLevel r),
           ex_TopIssues = top_issues xd cleaned r,
           ex_TrendDirection = normalize_level (xd_lower xd) trend_directions (ex_TrendDirection r),
           ex_Confidence = clamp_unit (ex_Confidence r), ex_TokensUsed = tokens\<rparr>)"

definition ParseExplainResponse :: "explain_decoders \<Rightarrow> string \<Rightarrow> int \<Rightarrow> ExplainResponse option" where
  "ParseExplainResponse xd content tokens =
     map_option (\<lambda>json. explain_cleaned xd content (fixInvalidJSONEscapes json) tokens)
       (extractJSON (xd_lower xd) content)"

text \<open>The prompt: \<open>health\<close> and \<open>summary\<close> are the encoded results and their summary, \<open>causal\<close> the encoded
  groups when there are any, \<open>history\<close> the encoded snapshots when there are any.\<close>

definition health_section :: "string \<Rightarrow> string option \<Rightarrow> string" where
  "health_section health summary =
     (if length health > 8192
      then (case summary of Some s \<Rightarrow> s | None \<Rightarrow> (''{'' @ [CHR 0x22] @ ''note'' @ [CHR 0x22] @ '':'' @ [CHR 0x22] @
       ''health data truncated due to size'' @ [CHR 0x22] @ ''}''))
      else health)"

definition BuildExplainPrompt :: "string \<Rightarrow> string option \<Rightarrow> string option \<Rightarrow> string option \<Rightarrow> string" where
  "BuildExplainPrompt health summary causal history =
     (''You are a Kubernetes cluster health advisor. Analyze the following cluster health '' @
       ''data and provide a concise narrative explanation.'' @ [CHR 0x0A] @ [CHR 0x0A] @
       ''Current Health Results:'' @ [CHR 0x0A]) @
     health_section health summary @ [CHR 0x0A] @
     (case causal of None \<Rightarrow> [] | Some c \<Rightarrow> ([CHR 0x0A] @ ''Causal Analysis:'' @ [CHR 0x0A]) @ c @ [CHR 0x0A]) @
     (case history of None \<Rightarrow> [] | Some h \<Rightarrow> ([CHR 0x0A] @ ''Recent Health Score History:'' @ [CHR 0x0A]) @ h @ [CHR 0x0A]) @
     ([CHR 0x0A] @ ''Respond with a JSON object containing:'' @ [CHR 0x0A] @ ''- '' @
       [CHR 0x22] @ ''narrative'' @ [CHR 0x22] @
       '': A 2-4 sentence human-readable summary of cluster health'' @ [CHR 0x0A] @ ''- '' @
       [CHR 0x22] @ ''riskLevel'' @ [CHR 0x22] @ '': one of '' @ [CHR 0x22] @ ''low'' @
       [CHR 0x22] @ '', '' @ [CHR 0x22] @ ''medium'' @ [CHR 0x22] @ '', '' @ [CHR 0x22] @
       ''high'' @ [CHR 0x22] @ '', '' @ [CHR 0x22] @ ''critical'' @ [CHR 0x22] @ [CHR 0x0A] @
       ''- '' @ [CHR 0x22] @ ''topIssues'' @ [CHR 0x22] @ '': array of {'' @ [CHR 0x22] @
       ''title'' @ [CHR 0x22] @ '', '' @ [CHR 0x22] @ ''severity'' @ [CHR 0x22] @ '', '' @
       [CHR 0x22] @ ''impact'' @ [CHR 0x22] @ ''} for top 3 issues'' @ [CHR 0x0A] @ ''- '' @
       [CHR 0x22] @ ''trendDirection'' @ [CHR 0x22] @ '': one of '' @ [CHR 0x22] @
       ''improving'' @ [CHR 0x22] @ '', '' @ [CHR 0x22] @ ''stable'' @ [CHR 0x22] @ '', '' @
       [CHR 0x22] @ ''degrading'' @ [CHR 0x22] @ [CHR 0x0A] @ ''- '' @ [CHR 0x22] @
       ''confidence'' @ [CHR 0x22] @ '': your confidence 0-1'' @ [CHR 0x0A])"

section \<open>The HTTP exchange (openai.go, anthropic.go)\<close>

datatype http_outcome =
    SendFailed string
  | ReadFailed string
  | Response int string string     \<comment> \<open>status, \<open>Retry-After\<close> header, body (at most 1 MiB)\<close>

text \<open>The error text of a status that is not OK. The length is that of the bytes, the cut that of the
  runes: fewer than 500 runes in more than 500 bytes make the slice expression panic.\<close>

definition api_error_body :: "string \<Rightarrow> string option" where
  "api_error_body body =
     (let errBody = SanitizeString NewSanitizer body in
      if length errBody > 500
      then map_option (\<lambda>rs. concat rs @ ''...(truncated)'') (go_slice (runes errBody) 0 500)
      else Some errBody)"

text \<open>The part the two clients share: everything up to decoding the body of a successful response.\<close>

definition http_body :: "http_outcome \<Rightarrow> (provider_error + string) option" where
  "http_body out =
     (case out of
        SendFailed e \<Rightarrow> Some (Inl (OtherError (''failed to send request: '' @ e)))
      | ReadFailed e \<Rightarrow> Some (Inl (OtherError (''failed to read response: '' @ e)))
      | Response status retry body \<Rightarrow>
          if status = 429 then Some (Inl (RateLimitError (parseRetryAfter retry) status))
          else if status \<noteq> 200
          then map_option (\<lambda>b. Inl (OtherError (''API error (status '' @ itoa status @ ''): '' @ b)))
                 (api_error_body body)
          else Some (Inr body))"

record api_result =
  ap_Content :: string
  ap_TokensUsed :: int
  ap_Truncated :: bool

record openAIResponse =
  or_Choices :: "(string \<times> string) list"     \<comment> \<open>content and finish reason\<close>
  or_TotalTokens :: int
  or_Error :: "string option"

definition openai_result :: "string + openAIResponse \<Rightarrow> provider_error + api_result" where
  "openai_result dec =
     (case dec of
        Inl e \<Rightarrow> Inl (OtherError (''failed to parse response: '' @ e))
      | Inr r \<Rightarrow>
          (case or_Error r of
             Some m \<Rightarrow> Inl (OtherError (''API error: '' @ m))
           | None \<Rightarrow>
               (case or_Choices r of
                  [] \<Rightarrow> Inl (OtherError ''no response from API'')
                | (content, reason) # _ \<Rightarrow>
                    Inr \<lparr>ap_Content = content, ap_TokensUsed = or_TotalTokens r, ap_Truncated = (reason = ''length'')\<rparr>)))"

record content_block =
  bk_Type :: string
  bk_Text :: string
  bk_Input :: string     \<comment> \<open>raw JSON\<close>

record anthropicResponse =
  an_StopReason :: string
  an_Content :: "content_block list"
  an_InputTokens :: int
  an_OutputTokens :: int
  an_Error :: "string option"

definition block_content :: "content_block list \<Rightarrow> string option" where
  "block_content bs =
     (case find (\<lambda>b. bk_Type b = ''tool_use'' \<and> bk_Input b \<noteq> []) bs of
        Some b \<Rightarrow> Some (bk_Input b)
      | None \<Rightarrow> map_option bk_Text (find (\<lambda>b. bk_Type b = ''text'') bs))"

definition anthropic_result :: "string + anthropicResponse \<Rightarrow> provider_error + api_result" where
  "anthropic_result dec =
     (case dec of
        Inl e \<Rightarrow> Inl (OtherError (''failed to parse response: '' @ e))
      | Inr r \<Rightarrow>
          (case an_Error r of
             Some m \<Rightarrow> Inl (OtherError (''API error: '' @ m))
           | None \<Rightarrow>
               if an_Content r = [] then Inl (OtherError ''no response from API'')
               else (case block_content (an_Content r) of
                  None \<Rightarrow> Inl (OtherError ''no text or tool_use content in response'')
                | Some content \<Rightarrow>
                    Inr \<lparr>ap_Content = content, ap_TokensUsed = wrap64 (an_InputTokens r + an_OutputTokens r),
                      ap_Truncated = (an_StopReason r = ''max_tokens'')\<rparr>)))"

text \<open>One request: \<open>finish\<close> decodes the body of a successful response.\<close>

definition do_request :: "('req \<Rightarrow> http_outcome) \<Rightarrow> (string \<Rightarrow> provider_error + api_result) \<Rightarrow> 'req \<Rightarrow>
    (provider_error + api_result) option" where
  "do_request send finish req =
     (case http_body (send req) of
        None \<Rightarrow> None
      | Some (Inl e) \<Rightarrow> Some (Inl e)
      | Some (Inr body) \<Rightarrow> Some (finish body))"

record openAIRequest =
  oq_Model :: string
  oq_Messages :: "(string \<times> string) list"     \<comment> \<open>role and content\<close>
  oq_MaxTokens :: int
  oq_Temperature :: f64
  oq_ResponseFormat :: "(string \<times> json) option"  \<comment> \<open>strict schema and its name\<close>

record anthropicRequest =
  aq_Model :: string
  aq_MaxTokens :: int
  aq_System :: string
  aq_Messages :: "(string \<times> string) list"
  aq_Tool :: "(string \<times> string \<times> json) option"  \<comment> \<open>name, description and schema of the forced tool\<close>

definition openai_request :: "encoders \<Rightarrow> http_provider \<Rightarrow> AnalysisRequest \<Rightarrow> openAIRequest" where
  "openai_request en p request =
     \<lparr>oq_Model = hp_model p,
      oq_Messages = [(''system'', systemPrompt), (''user'', BuildPrompt en request)],
      oq_MaxTokens = hp_maxTokens p, oq_Temperature = fl (3 / 10),
      oq_ResponseFormat = Some (if ar_ExplainMode request then (''explain_response'', ExplainResponseSchema)
        else (''analysis_response'', AnalysisResponseSchema))\<rparr>"

definition anthropic_request :: "encoders \<Rightarrow> http_provider \<Rightarrow> AnalysisRequest \<Rightarrow> anthropicRequest" where
  "anthropic_request en p request =
     \<lparr>aq_Model = hp_model p, aq_MaxTokens = hp_maxTokens p, aq_System = systemPrompt,
      aq_Messages = [(''user'', BuildPrompt en request)],
      aq_Tool = Some (if ar_ExplainMode request
        then (''explain_cluster'', ''Provide structured explanation of cluster health'', ExplainResponseSchema)
        else (''analyze_issues'', ''Provide structured analysis of Kubernetes health check issues'', AnalysisResponseSchema))\<rparr>"

text \<open>The exchange with its fallback: the second request is the first without its schema.\<close>

definition with_fallback :: "('req \<Rightarrow> (provider_error + api_result) option) \<Rightarrow> 'req \<Rightarrow> 'req \<Rightarrow>
    (provider_error + api_result) option" where
  "with_fallback call req plain =
     (case call req of
        None \<Rightarrow> None
      | Some (Inr r) \<Rightarrow> Some (Inr r)
      | Some (Inl e) \<Rightarrow> if isRetryableForFallback (Some e) then call plain else Some (Inl e))"

definition answer :: "decoders \<Rightarrow> (provider_error + api_result) option \<Rightarrow> (provider_error + AnalysisResponse) option" where
  "answer de out =
     (case out of
        None \<Rightarrow> None
      | Some (Inl e) \<Rightarrow> Some (Inl e)
      | Some (Inr r) \<Rightarrow>
          map_option (\<lambda>resp. Inr (resp\<lparr>rs_Truncated := ap_Truncated r\<rparr>))
            (ParseResponse de (ap_Content r) (ap_TokensUsed r)))"

definition not_configured :: provider_error where "not_configured = OtherError ''AI provider not configured''"

definition openai_Analyze :: "encoders \<Rightarrow> decoders \<Rightarrow> (string \<Rightarrow> string + openAIResponse) \<Rightarrow>
    (openAIRequest \<Rightarrow> http_outcome) \<Rightarrow> http_provider \<Rightarrow> AnalysisRequest \<Rightarrow> (provider_error + AnalysisResponse) option" where
  "openai_Analyze en de api send p request =
     (if \<not> provider_Available (OpenAIProvider p) then Some (Inl not_configured)
      else let req = openai_request en p request in
        answer de (with_fallback (do_request send (openai_result \<circ> api)) req (req\<lparr>oq_ResponseFormat := None\<rparr>)))"

definition anthropic_Analyze :: "encoders \<Rightarrow> decoders \<Rightarrow> (string \<Rightarrow> string + anthropicResponse) \<Rightarrow>
    (anthropicRequest \<Rightarrow> http_outcome) \<Rightarrow> http_provider \<Rightarrow> AnalysisRequest \<Rightarrow> (provider_error + AnalysisResponse) option" where
  "anthropic_Analyze en de api send p request =
     (if \<not> provider_Available (AnthropicProvider p) then Some (Inl not_configured)
      else let req = anthropic_request en p request in
        answer de (with_fallback (do_request send (anthropic_result \<circ> api)) req (req\<lparr>aq_Tool := None\<rparr>)))"

section \<open>Facts\<close>

subsection \<open>JSON escapes\<close>

text \<open>Every escape in the text is one that JSON knows (a backslash at the very end is no escape).\<close>

fun escapes_ok :: "string \<Rightarrow> bool" where
  "escapes_ok [] = True"
| "escapes_ok [c] = True"
| "escapes_ok (c # d # cs) =
     (if c = slash then isValidJSONEscapeChar d \<and> escapes_ok cs else escapes_ok (d # cs))"

lemma slash_valid [simp]: "isValidJSONEscapeChar slash"
  by (simp add: isValidJSONEscapeChar_def slash_def)

text \<open>A run of backslashes is pairs, and one more when its length is odd.\<close>

lemma escapes_ok_run:
  assumes "rest = [] \<or> hd rest \<noteq> slash"
  shows "escapes_ok (replicate n slash @ rest) \<longleftrightarrow>
    (if even n \<or> rest = [] then escapes_ok rest else isValidJSONEscapeChar (hd rest) \<and> escapes_ok (tl rest))"
proof (induction n rule: less_induct)
  case (less n)
  consider "n = 0" | "n = 1" | m where "n = Suc (Suc m)" by (metis One_nat_def not0_implies_Suc)
  then show ?case
  proof cases
    case 2
    with assms show ?thesis by (cases rest) auto
  next
    case (3 m)
    with less [of m] show ?thesis by simp
  qed simp
qed

lemma escapes_ok_Cons: "c \<noteq> slash \<Longrightarrow> escapes_ok (c # cs) \<longleftrightarrow> escapes_ok cs"
  by (cases cs) simp_all

lemma slash_run_split:
  obtains n rest where "s = replicate n slash @ rest" "rest = [] \<or> hd rest \<noteq> slash" "slash_run s = n" "drop n s = rest"
proof -
  let ?t = "takeWhile (\<lambda>c. c = slash) s" and ?r = "dropWhile (\<lambda>c. c = slash) s"
  have "?t = replicate (length ?t) slash" by (induction s) auto
  then have "s = replicate (slash_run s) slash @ ?r"
    unfolding slash_run_def by (metis takeWhile_dropWhile_id)
  moreover have "?r = [] \<or> hd ?r \<noteq> slash" using hd_dropWhile by blast
  moreover have "drop (slash_run s) s = ?r" by (simp add: slash_run_def dropWhile_eq_drop)
  ultimately show thesis using that by blast
qed

lemma takeWhile_slashes: "takeWhile (\<lambda>c. c = slash) (replicate n slash @ rest) =
    replicate n slash @ takeWhile (\<lambda>c. c = slash) rest"
  by (induction n) auto

lemma fix_run:
  assumes "0 < n" "rest = [] \<or> hd rest \<noteq> slash"
  shows "fixInvalidJSONEscapes (replicate n slash @ rest) =
    replicate (if rest \<noteq> [] \<and> \<not> isValidJSONEscapeChar (hd rest) \<and> odd n then n - 1 else n) slash @
      fixInvalidJSONEscapes rest"
proof -
  obtain m where n: "n = Suc m" using assms(1) by (cases n) auto
  have "takeWhile (\<lambda>c. c = slash) rest = []" using assms(2) by (cases rest) auto
  then have "slash_run (replicate n slash @ rest) = n"
    by (simp add: slash_run_def takeWhile_slashes)
  with n show ?thesis by (simp add: fixInvalidJSONEscapes.simps(2))
qed

text \<open>Induction along the runs of a text.\<close>

lemma run_induct [case_names Nil Char Run]:
  assumes "P []" and "\<And>c cs. c \<noteq> slash \<Longrightarrow> P cs \<Longrightarrow> P (c # cs)"
    and "\<And>n rest. 0 < n \<Longrightarrow> rest = [] \<or> hd rest \<noteq> slash \<Longrightarrow> P rest \<Longrightarrow> (rest \<noteq> [] \<Longrightarrow> P (tl rest)) \<Longrightarrow>
      P (replicate n slash @ rest)"
  shows "P s"
proof (induction "length s" arbitrary: s rule: less_induct)
  case less
  show ?case
  proof (cases s)
    case (Cons c cs)
    show ?thesis
    proof (cases "c = slash")
      case True
      obtain n rest where s: "s = replicate n slash @ rest" "rest = [] \<or> hd rest \<noteq> slash" by (rule slash_run_split)
      with True Cons have n: "0 < n" by (cases n) auto
      then have "P rest" "rest \<noteq> [] \<Longrightarrow> P (tl rest)" using less s(1) by simp_all
      with assms(3) n s show ?thesis by blast
    qed (use Cons less assms(2) in simp)
  qed (simp add: assms(1))
qed

lemma fix_hd: "rest \<noteq> [] \<Longrightarrow> hd rest \<noteq> slash \<Longrightarrow>
  fixInvalidJSONEscapes rest = hd rest # fixInvalidJSONEscapes (tl rest)"
  by (cases rest) (simp_all add: fixInvalidJSONEscapes.simps(2))

lemma fix_escapes_ok: "escapes_ok (fixInvalidJSONEscapes s)"
proof (induction s rule: run_induct)
  case (Char c cs)
  then show ?case by (simp add: fixInvalidJSONEscapes.simps(2) escapes_ok_Cons)
next
  case (Run n rest)
  let ?n = "if rest \<noteq> [] \<and> \<not> isValidJSONEscapeChar (hd rest) \<and> odd n then n - 1 else n"
  have r: "fixInvalidJSONEscapes rest = [] \<or> hd (fixInvalidJSONEscapes rest) \<noteq> slash"
    using Run(2) fix_hd by (cases "rest = []") auto
  from Run fix_hd show ?case
    unfolding fix_run [OF Run(1,2)] escapes_ok_run [OF r] by (cases "rest = []") auto
qed simp

lemma fix_escapes_id: "escapes_ok s \<Longrightarrow> fixInvalidJSONEscapes s = s"
proof (induction s rule: run_induct)
  case (Char c cs)
  then show ?case by (simp add: fixInvalidJSONEscapes.simps(2) escapes_ok_Cons)
next
  case (Run n rest)
  then show ?case
    using fix_hd [of rest] fix_run [OF Run(1,2)] escapes_ok_run [OF Run(2), of n]
    by (cases "rest = []") (auto split: if_splits)
qed simp

lemma fix_escapes_subseq: "subseq (fixInvalidJSONEscapes s) s"
proof (induction s rule: run_induct)
  case (Char c cs)
  then show ?case by (simp add: fixInvalidJSONEscapes.simps(2))
next
  case (Run n rest)
  have "subseq (replicate m slash) (replicate n slash)" if "m \<le> n" for m
    using that by (metis le_add_diff_inverse2 replicate_add subseq_drop_many subseq_order.order_refl)
  with Run show ?case by (auto simp: fix_run intro!: list_emb_append_mono)
qed simp

subsection \<open>Extraction\<close>

lemma extractJSON_total: "length (lower content) = length content \<Longrightarrow> extractJSON lower content \<noteq> None"
  using str_index_bounds [of "lower content" "fence @ ''json''"]
  by (auto simp: extractJSON_def Let_def go_slice_def fence_def split: option.splits)

lemma clamp_unit_range: "0 \<le> clamp_unit c \<and> clamp_unit c \<le> 1"
  by (simp add: clamp_unit_def)

section \<open>The contract of a provider client\<close>

locale provider_client =
  fixes available :: "http_provider \<Rightarrow> bool"
    and analyze :: "'env \<Rightarrow> http_provider \<Rightarrow> AnalysisRequest \<Rightarrow> (provider_error + AnalysisResponse) option"
  assumes unavailable: "\<not> available p \<Longrightarrow> analyze env p request = Some (Inl not_configured)"
    and failed_parse_empty: "analyze env p request = Some (Inr resp) \<Longrightarrow> rs_ParseFailed resp \<Longrightarrow>
      rs_EnhancedSuggestions resp = Map.empty \<and> rs_CausalInsights resp = []"
begin

lemma answered_available: "analyze env p request = Some (Inr resp) \<Longrightarrow> available p"
  using unavailable by fastforce

lemma no_advice_from_failed_parse:
  "analyze env p request = Some (Inr resp) \<Longrightarrow> rs_EnhancedSuggestions resp key = Some s \<Longrightarrow> \<not> rs_ParseFailed resp"
  using failed_parse_empty by fastforce

end

lemma answer_failed_parse:
  assumes "answer de out = Some (Inr resp)" "rs_ParseFailed resp"
  shows "rs_EnhancedSuggestions resp = Map.empty \<and> rs_CausalInsights resp = []"
  using assms
  by (auto simp: answer_def ParseResponse_def parse_cleaned_def Let_def split: option.splits sum.splits if_splits)

interpretation openai: provider_client "\<lambda>p. provider_Available (OpenAIProvider p)"
  "\<lambda>(en, de, api, send). openai_Analyze en de api send"
  by unfold_locales (auto simp: openai_Analyze_def Let_def split: if_splits dest: answer_failed_parse)

interpretation anthropic: provider_client "\<lambda>p. provider_Available (AnthropicProvider p)"
  "\<lambda>(en, de, api, send). anthropic_Analyze en de api send"
  by unfold_locales (auto simp: anthropic_Analyze_def Let_def split: if_splits dest: answer_failed_parse)

section \<open>Properties\<close>

text \<open>The repair of JSON escapes leaves a text in which every escape is one that JSON knows, it only
  drops bytes, it changes nothing in a text whose escapes are valid and nothing else is left unchanged;
  so repairing twice is repairing once.\<close>

theorem escapes_repaired:
  "escapes_ok (fixInvalidJSONEscapes s) \<and> subseq (fixInvalidJSONEscapes s) s \<and>
   (fixInvalidJSONEscapes s = s \<longleftrightarrow> escapes_ok s) \<and>
   fixInvalidJSONEscapes (fixInvalidJSONEscapes s) = fixInvalidJSONEscapes s"
  using fix_escapes_ok [of s] fix_escapes_id fix_escapes_subseq by metis

text \<open>The delay taken from a \<open>Retry-After\<close> header is at most 30 seconds, and positive unless the
  header is a number of seconds whose nanoseconds overflow: then it can be negative, which retries
  without waiting.\<close>

theorem retry_after_range:
  "parseRetryAfter header \<le> 30 * second \<and>
   (0 < parseRetryAfter header \<or> (\<exists>n. go_atoi header = Some n \<and> 9223372036 < n)) \<and>
   go_atoi ''9223372037'' = Some 9223372037 \<and> parseRetryAfter ''9223372037'' < 0"
proof -
  have num: "go_atoi ''9223372037'' = Some 9223372037"
    by (simp add: go_atoi_def is_digit_def digits_value_def in_int64_def)
  have "wrap64 9223372037000000000 < 0" by code_simp
  with num have neg: "parseRetryAfter ''9223372037'' < 0" by (simp add: parseRetryAfter_def)
  have "parseRetryAfter header \<le> 30 * second"
    by (simp add: parseRetryAfter_def split: option.split)
  moreover have "0 < parseRetryAfter header \<or> (\<exists>n. go_atoi header = Some n \<and> 9223372036 < n)"
  proof (cases "go_atoi header")
    case (Some n)
    then show ?thesis
      by (cases "n \<le> 9223372036") (simp_all add: parseRetryAfter_def in_int64_def)
  qed (simp add: parseRetryAfter_def)
  ultimately show ?thesis using num neg by blast
qed

text \<open>Where the JSON starts is searched in the lower-cased text and cut from the original: while lower
  case keeps lengths, as on ASCII, nothing panics, but a letter whose lower case is longer (\<open>U+023A\<close> has
  two bytes, its lower case \<open>U+2C65\<close> three) in front of a final fence makes the cut panic.\<close>

theorem extract_json_unicode_panics:
  assumes "lower_rune [CHR 0xC8, CHR 0xBA] = [CHR 0xE2, CHR 0xB1, CHR 0xA5]"
    and "\<forall>c. byte_in 0 0x7F [c] 0 \<longrightarrow> lower_rune [c] = [lower_char c]"
  shows "extractJSON (\<lambda>s. concat (map lower_rune (runes s))) ([CHR 0xC8, CHR 0xBA] @ ([CHR 0x60] @ [CHR 0x60] @ [CHR 0x60] @ ''json'')) = None \<and>
    extractJSON to_lower content \<noteq> None"
proof -
  have r: "runes ([CHR 0xC8, CHR 0xBA] @ ([CHR 0x60] @ [CHR 0x60] @ [CHR 0x60] @ ''json'')) =
      [[CHR 0xC8, CHR 0xBA], [CHR 0x60], [CHR 0x60], [CHR 0x60], ''j'', ''s'', ''o'', ''n'']"
    by (simp add: runes.simps(2) rune_width_def byte_in_def Let_def)
  have "concat (map lower_rune (runes ([CHR 0xC8, CHR 0xBA] @ ([CHR 0x60] @ [CHR 0x60] @ [CHR 0x60] @ ''json'')))) =
      [CHR 0xE2, CHR 0xB1, CHR 0xA5] @ ([CHR 0x60] @ [CHR 0x60] @ [CHR 0x60] @ ''json'')"
    unfolding r using assms by (simp add: byte_in_def lower_char_def)
  moreover have "str_index ([CHR 0xE2, CHR 0xB1, CHR 0xA5] @ ([CHR 0x60] @ [CHR 0x60] @ [CHR 0x60] @ ''json'')) (fence @ ''json'') = Some 3"
    by (simp add: fence_def)
  ultimately have "extractJSON (\<lambda>s. concat (map lower_rune (runes s))) ([CHR 0xC8, CHR 0xBA] @ ([CHR 0x60] @ [CHR 0x60] @ [CHR 0x60] @ ''json'')) = None"
    by (simp add: extractJSON_def go_slice_def)
  then show ?thesis using extractJSON_total [of to_lower content] by (simp add: to_lower_def)
qed

definition lower_u023a :: "string \<Rightarrow> string" where
  "lower_u023a r = (if r = [CHR 0xC8, CHR 0xBA] then [CHR 0xE2, CHR 0xB1, CHR 0xA5] else to_lower r)"

theorem extract_json_unicode_panics_witness:
  "extractJSON (\<lambda>s. concat (map lower_u023a (runes s))) ([CHR 0xC8, CHR 0xBA] @ ([CHR 0x60] @ [CHR 0x60] @ [CHR 0x60] @ ''json'')) = None"
  using extract_json_unicode_panics [of lower_u023a] by (simp add: lower_u023a_def to_lower_def)

text \<open>A response that is not marked as truncated has confidences between 0 and 1 in every suggestion
  and insight. A truncated one is what the partial parser found, taken over without clamping and without
  stripping references.\<close>

theorem parsed_confidences_in_unit:
  assumes "ParseResponse de content tokens = Some r"
  shows "(if rs_Truncated r
      then \<exists>json. extractJSON (de_lower de) content = Some json \<and>
        (let p = tryPartialParse (de_decode de) (fixInvalidJSONEscapes json) in
         rs_EnhancedSuggestions r = pr_Suggestions p \<and> rs_CausalInsights r = pr_CausalInsights p)
      else pred_option (\<lambda>s. 0 \<le> es_Confidence s \<and> es_Confidence s \<le> 1) (rs_EnhancedSuggestions r key) \<and>
        list_all (\<lambda>g. 0 \<le> cgi_Confidence g \<and> cgi_Confidence g \<le> 1) (rs_CausalInsights r)) \<and>
    rs_TokensUsed r = tokens \<and> rs_RawContent r = content"
proof -
  from assms obtain json where json: "extractJSON (de_lower de) content = Some json"
    "r = parse_cleaned de content (fixInvalidJSONEscapes json) tokens" by (auto simp: ParseResponse_def)
  show ?thesis
    unfolding json(1) unfolding json(2) parse_cleaned_def
    by (auto simp: Let_def clean_suggestion_def clean_insight_def clamp_unit_range list_all_iff pred_option_def
        split: option.splits if_splits)
qed

definition overconfident :: decoders where
  "overconfident =
     (let p = no_parse\<lparr>pr_Suggestions := [issue_key 0 \<mapsto> \<lparr>es_Suggestion = ''restart'', es_RootCause = [], es_Steps = [],
          es_References = [], es_Confidence = 7\<rparr>]\<rparr>
      in \<lparr>de_lower = to_lower, de_unmarshal = (\<lambda>s. if s = ''{}'' then Some p else None), de_decode = (\<lambda>_. Some p)\<rparr>)"

lemma overconfident_parses:
  "\<exists>r. ParseResponse overconfident ''{}'' 5 = Some r \<and> \<not> rs_Truncated r \<and> rs_EnhancedSuggestions r (issue_key 0) \<noteq> None"
  "\<exists>r. ParseResponse overconfident ''{'' 5 = Some r \<and> rs_Truncated r"
  by (simp_all add: overconfident_def ParseResponse_def extractJSON_def fence_def to_lower_def lower_char_def
      parse_cleaned_def fixInvalidJSONEscapes.simps(2) slash_def tryPartialParse_def no_parse_def Let_def fun_eq_iff)

theorem parsed_confidences_in_unit_witness:
  "(\<exists>s. rs_EnhancedSuggestions (the (ParseResponse overconfident ''{}'' 5)) (issue_key 0) = Some s \<and>
      es_Confidence s \<le> 1) \<and>
   rs_TokensUsed (the (ParseResponse overconfident ''{'' 5)) = 5"
proof -
  from overconfident_parses obtain r r' s where r: "ParseResponse overconfident ''{}'' 5 = Some r" "\<not> rs_Truncated r"
    "rs_EnhancedSuggestions r (issue_key 0) = Some s" "ParseResponse overconfident ''{'' 5 = Some r'" by blast
  with parsed_confidences_in_unit [OF r(1), of "issue_key 0"] parsed_confidences_in_unit [OF r(4)]
  show ?thesis by simp
qed

section \<open>Two more panics and refusals\<close>

text \<open>An error body of more than 500 bytes and fewer than 500 runes makes the client panic.\<close>

lemma api_error_panics_iff:
  "http_body (Response status retry body) = None \<longleftrightarrow> status \<noteq> 429 \<and> status \<noteq> 200 \<and>
     500 < length (SanitizeString NewSanitizer body) \<and> length (runes (SanitizeString NewSanitizer body)) < 500"
  by (auto simp: http_body_def api_error_body_def Let_def go_slice_def)

text \<open>Strict mode needs every object to list all its properties as required and to allow no others.\<close>

fun object_strict :: "(string \<times> json) list \<Rightarrow> bool" where
  "object_strict fs =
     (if map_of fs ''type'' = Some (JStr ''object'')
      then map_of fs ''additionalProperties'' = Some (JBool False) \<and>
        (case (map_of fs ''properties'', map_of fs ''required'') of
           (Some (JObj ps), Some (JList rs)) \<Rightarrow> set (map (JStr \<circ> fst) ps) = set rs
         | _ \<Rightarrow> False)
      else True)"

fun strict_schema :: "json \<Rightarrow> bool" where
  "strict_schema (JObj fs) = (object_strict fs \<and> list_all (\<lambda>f. strict_schema (snd f)) fs)"
| "strict_schema (JList js) = list_all strict_schema js"
| "strict_schema _ = True"

text \<open>The explain schema is strict as its comment says; the analysis schema, whose comment says the same,
  is not: its suggestions are an object with further properties.\<close>

lemma schemas_strict: "strict_schema ExplainResponseSchema" "\<not> strict_schema AnalysisResponseSchema"
  by (simp_all add: ExplainResponseSchema_def AnalysisResponseSchema_def typed_def string_array_def required_def)

end
