(* ===== verification/Checker_Core.thy ===== *)
theory Checker_Core
  imports Go_Prelude
begin

text \<open>
  Issues, check results and the registry of checkers (\<open>internal/checker/checker.go\<close>, \<open>registry.go\<close>,
  \<open>convert.go\<close>), the loop over namespaces that the checkers share, and the contract of a health
  checker (locales \<open>issue_source\<close> and \<open>health_checker\<close>), which every checker's theory interprets. The type of an issue's
  metadata is a parameter: a map here, the address of a map where maps are shared and written
  (\<open>AI_Enhancement\<close>). Counts are unbounded integers: they are lengths of lists in memory.
\<close>

section \<open>Issues and results\<close>

definition SeverityCritical :: string where "SeverityCritical = ''Critical''"
definition SeverityWarning :: string where "SeverityWarning = ''Warning''"
definition SeverityInfo :: string where "SeverityInfo = ''Info''"

lemmas severity_defs = SeverityCritical_def SeverityWarning_def SeverityInfo_def

definition severities :: "string list" where
  "severities = [SeverityCritical, SeverityWarning, SeverityInfo]"

lemma distinct_severities: "distinct severities"
  by (simp add: severities_def severity_defs)

type_synonym metadata = "string \<rightharpoonup> string"

record 'm Issue =
  iss_Type :: string
  iss_Severity :: string
  iss_Resource :: string
  iss_Namespace :: string
  iss_Message :: string
  iss_Suggestion :: string
  iss_Metadata :: "'m option"

record 'm CheckResult =
  cr_CheckerName :: string
  cr_Healthy :: int
  cr_Issues :: "'m Issue list"
  cr_Error :: "string option"

type_synonym issue = "metadata Issue"
type_synonym result = "metadata CheckResult"

definition no_result :: "string \<Rightarrow> 'm CheckResult" where
  "no_result name = \<lparr>cr_CheckerName = name, cr_Healthy = 0, cr_Issues = [], cr_Error = None\<rparr>"

definition failed_result :: "string \<Rightarrow> string \<Rightarrow> 'm CheckResult" where
  "failed_result name e = (no_result name)\<lparr>cr_Error := Some e\<rparr>"

text \<open>A Go map used as a counter: \<open>m[k]++\<close>, and reading it with the zero default.\<close>

definition bump :: "string \<Rightarrow> (string \<rightharpoonup> int) \<Rightarrow> (string \<rightharpoonup> int)" where
  "bump k m = m(k \<mapsto> (case m k of None \<Rightarrow> 1 | Some n \<Rightarrow> n + 1))"

definition count_of :: "(string \<rightharpoonup> int) \<Rightarrow> string \<Rightarrow> int" where
  "count_of m k = (case m k of None \<Rightarrow> 0 | Some n \<Rightarrow> n)"

definition CountBySeverity :: "'m CheckResult \<Rightarrow> (string \<rightharpoonup> int)" where
  "CountBySeverity r = fold (\<lambda>i. bump (iss_Severity i)) (cr_Issues r) Map.empty"

definition HasCritical :: "'m CheckResult \<Rightarrow> bool" where
  "HasCritical r = list_ex (\<lambda>i. iss_Severity i = SeverityCritical) (cr_Issues r)"

definition TotalIssues :: "'m CheckResult \<Rightarrow> int" where
  "TotalIssues r = int (length (cr_Issues r))"

subsection \<open>Counters\<close>

lemma count_of_empty [simp]: "count_of Map.empty k = 0"
  by (simp add: count_of_def)

lemma count_of_bump: "count_of (bump k m) k' = count_of m k' + (if k = k' then 1 else 0)"
  by (simp add: count_of_def bump_def split: option.splits)

lemma count_of_fold_bump:
  "count_of (fold (\<lambda>x. bump (f x)) xs m) k = count_of m k + int (count_list (map f xs) k)"
  by (induction xs arbitrary: m) (simp_all add: count_of_bump)

lemma count_CountBySeverity:
  "count_of (CountBySeverity r) k = int (count_list (map iss_Severity (cr_Issues r)) k)"
  by (simp add: CountBySeverity_def count_of_fold_bump)

lemma HasCritical_iff: "HasCritical r \<longleftrightarrow> 0 < count_of (CountBySeverity r) SeverityCritical"
proof -
  have "HasCritical r \<longleftrightarrow> SeverityCritical \<in> set (map iss_Severity (cr_Issues r))"
    unfolding HasCritical_def list_ex_iff set_map image_iff by (simp add: eq_commute)
  then show ?thesis
    using count_list_0_iff [of "map iss_Severity (cr_Issues r)" SeverityCritical]
    unfolding count_CountBySeverity of_nat_0_less_iff neq0_conv [symmetric] by simp
qed

text \<open>The sum over the severities is the number of issues when each issue has one of them.\<close>

definition severity_total :: "(string \<rightharpoonup> int) \<Rightarrow> int" where
  "severity_total m = sum_list (map (count_of m) severities)"

lemma sum_count_list_subset:
  assumes "set xs \<subseteq> set ks" "distinct ks"
  shows "sum_list (map (count_list xs) ks) = length xs"
proof -
  have "sum_list (map (count_list xs) ks) = (\<Sum>k \<in> set ks. count_list xs k)"
    using assms(2) by (simp add: sum_list_distinct_conv_sum_set)
  also have "\<dots> = (\<Sum>k \<in> set xs. count_list xs k)"
    using assms(1) by (intro sum.mono_neutral_right) (auto simp: count_list_0_iff)
  also have "\<dots> = length xs" by (rule sum_count_set) simp_all
  finally show ?thesis .
qed

lemma int_sum_list: "int (sum_list ns) = sum_list (map int ns)"
  by (induction ns) simp_all

lemma severity_total_issues:
  assumes "\<forall>i \<in> set (cr_Issues r). iss_Severity i \<in> set severities"
  shows "severity_total (CountBySeverity r) = TotalIssues r"
proof -
  let ?xs = "map iss_Severity (cr_Issues r)"
  have "severity_total (CountBySeverity r) = int (sum_list (map (count_list ?xs) severities))"
    unfolding severity_total_def int_sum_list map_map comp_def count_CountBySeverity [symmetric] ..
  also have "\<dots> = int (length ?xs)"
    using assms by (subst sum_count_list_subset [OF _ distinct_severities]) auto
  finally show ?thesis by (simp add: TotalIssues_def)
qed

section \<open>The loop over namespaces\<close>

text \<open>
  Most checkers list the objects of a kind in each namespace, skip a namespace whose list fails, and
  count an object as healthy when it has no issue. \<open>List\<close> is the data source's (for the type of
  the list) and may fail.
\<close>

type_synonym 'a lister = "string \<Rightarrow> string + 'a list"

record 'a ns_source =
  src_list :: "'a lister"
  src_namespaces :: "string list"

definition tally :: "('a \<Rightarrow> issue list) \<Rightarrow> 'a \<Rightarrow> result \<Rightarrow> result" where
  "tally check obj r =
     (let issues = check obj in
      if issues = [] then r\<lparr>cr_Healthy := cr_Healthy r + 1\<rparr>
      else r\<lparr>cr_Issues := cr_Issues r @ issues\<rparr>)"

definition check_namespaces :: "string \<Rightarrow> 'a ns_source \<Rightarrow> (string \<Rightarrow> 'a list \<Rightarrow> result \<Rightarrow> result) \<Rightarrow> result" where
  "check_namespaces name src body =
     fold (\<lambda>ns r. case src_list src ns of Inl _ \<Rightarrow> r | Inr items \<Rightarrow> body ns items r)
       (src_namespaces src) (no_result name)"

lemma tally_fields [simp]:
  "cr_CheckerName (tally check obj r) = cr_CheckerName r"
  "cr_Error (tally check obj r) = cr_Error r"
  "cr_Issues (tally check obj r) = cr_Issues r @ check obj"
  "cr_Healthy (tally check obj r) = cr_Healthy r + (if check obj = [] then 1 else 0)"
  by (simp_all add: tally_def Let_def)

lemma fold_tally_fields [simp]:
  "cr_CheckerName (fold (tally check) objs r) = cr_CheckerName r"
  "cr_Error (fold (tally check) objs r) = cr_Error r"
  "cr_Issues (fold (tally check) objs r) = cr_Issues r @ concat (map check objs)"
  "cr_Healthy (fold (tally check) objs r) = cr_Healthy r + int (length (filter (\<lambda>x. check x = []) objs))"
  by (induction objs arbitrary: r) auto

text \<open>The objects a check sees: those of every namespace that could be listed.\<close>

definition listed :: "'a ns_source \<Rightarrow> 'a list" where
  "listed src = concat (map (\<lambda>ns. case src_list src ns of Inl _ \<Rightarrow> [] | Inr xs \<Rightarrow> xs) (src_namespaces src))"

lemma listed_iff:
  "x \<in> set (listed src) \<longleftrightarrow> (\<exists>ns xs. ns \<in> set (src_namespaces src) \<and> src_list src ns = Inr xs \<and> x \<in> set xs)"
  by (force simp: listed_def split: sum.splits)

lemma fold_listed:
  "fold (\<lambda>ns r. case src_list src ns of Inl _ \<Rightarrow> r | Inr xs \<Rightarrow> fold (tally check) xs r) nss r =
   fold (tally check) (concat (map (\<lambda>ns. case src_list src ns of Inl _ \<Rightarrow> [] | Inr xs \<Rightarrow> xs) nss)) r"
  by (induction nss arbitrary: r) (simp_all split: sum.splits)

lemma check_namespaces_tally:
  "check_namespaces name src (\<lambda>ns. fold (tally check)) = fold (tally check) (listed src) (no_result name)"
  by (simp add: check_namespaces_def listed_def fold_listed)

text \<open>What a check keeps of any result: no name or error is touched, issues and health only grow.\<close>

lemma fold_invariant_result:
  assumes "P r" "\<And>x r. x \<in> set xs \<Longrightarrow> P r \<Longrightarrow> P (f x r)"
  shows "P (fold f xs r)"
  using assms by (induction xs arbitrary: r) simp_all

lemma check_namespaces_invariant:
  assumes "P (no_result name)"
    and "\<And>ns xs r. ns \<in> set (src_namespaces src) \<Longrightarrow> src_list src ns = Inr xs \<Longrightarrow> P r \<Longrightarrow> P (body ns xs r)"
  shows "P (check_namespaces name src body)"
  unfolding check_namespaces_def
  by (rule fold_invariant_result [where P = P]) (use assms in \<open>auto split: sum.splits\<close>)

section \<open>The contract of a health checker\<close>

text \<open>The objects a source lists for a namespace live in it (or anywhere, for the empty name).\<close>

definition source_ok :: "('a \<Rightarrow> string) \<Rightarrow> 'a ns_source \<Rightarrow> bool" where
  "source_ok namespace src \<longleftrightarrow>
     (\<forall>ns \<in> set (src_namespaces src). case src_list src ns of Inl _ \<Rightarrow> True
      | Inr xs \<Rightarrow> ns = [] \<or> (\<forall>x \<in> set xs. namespace x = ns))"

definition issue_in :: "string list \<Rightarrow> issue \<Rightarrow> bool" where
  "issue_in nss i \<longleftrightarrow> iss_Namespace i \<in> set nss \<or> [] \<in> set nss"

locale issue_source =
  fixes name :: string
    and check :: "'c \<Rightarrow> result"
    and namespaces :: "'c \<Rightarrow> string list"
    and ok :: "'c \<Rightarrow> bool"
  assumes check_name: "cr_CheckerName (check c) = name"
    and check_severity: "i \<in> set (cr_Issues (check c)) \<Longrightarrow> iss_Severity i \<in> set severities"
    and check_namespace: "ok c \<Longrightarrow> i \<in> set (cr_Issues (check c)) \<Longrightarrow> issue_in (namespaces c) i"
    and check_healthy: "0 \<le> cr_Healthy (check c)"
begin

lemma severities_partition: "severity_total (CountBySeverity (check c)) = TotalIssues (check c)"
  using check_severity by (intro severity_total_issues) blast

lemma critical_iff: "HasCritical (check c) \<longleftrightarrow> 0 < count_of (CountBySeverity (check c)) SeverityCritical"
  by (rule HasCritical_iff)

lemma issues_outside:
  assumes "ok c" "ns \<notin> set (namespaces c)" "[] \<notin> set (namespaces c)"
  shows "filter (\<lambda>i. iss_Namespace i = ns) (cr_Issues (check c)) = []"
  using check_namespace [OF assms(1)] assms(2,3) by (auto simp: filter_empty_conv issue_in_def)

end

text \<open>The checkers of the core and Flux resources never report an error themselves.\<close>

locale health_checker = issue_source +
  assumes check_no_error: "cr_Error (check c) = None"
begin

lemma critical_checked: "HasCritical (check c) \<Longrightarrow> cr_Error (check c) = None \<and> 0 < TotalIssues (check c)"
  by (auto simp: HasCritical_def TotalIssues_def check_no_error list_ex_iff)

end

text \<open>A checker made of the shared loop meets the contract when its per-object check does.\<close>

lemma tally_checker:
  assumes "\<And>x i. i \<in> set (check x) \<Longrightarrow> iss_Severity i \<in> set severities \<and> iss_Namespace i = namespace x"
  shows "health_checker name (\<lambda>src. check_namespaces name src (\<lambda>ns. fold (tally check)))
    src_namespaces (source_ok namespace)"
proof
  fix src :: "'a ns_source" and i
  assume ok: "source_ok namespace src"
    and "i \<in> set (cr_Issues (check_namespaces name src (\<lambda>ns. fold (tally check))))"
  then obtain x where x: "x \<in> set (listed src)" "i \<in> set (check x)"
    by (auto simp: check_namespaces_tally no_result_def)
  then obtain ns xs where ns: "ns \<in> set (src_namespaces src)" "src_list src ns = Inr xs" "x \<in> set xs"
    by (auto simp: listed_iff)
  with ok have "ns = [] \<or> namespace x = ns" by (force simp: source_ok_def)
  with ns(1) assms [OF x(2)] show "issue_in (src_namespaces src) i" by (auto simp: issue_in_def)
qed (use assms in \<open>auto simp: check_namespaces_tally no_result_def\<close>)

section \<open>The registry\<close>

text \<open>A checker with its context: what \<open>Supports\<close> answers and how \<open>Check\<close> ends. A nil result is \<open>None\<close>.\<close>

datatype check_outcome = Checked "result option" | CheckFailed string | CheckPanicked string

record Checker =
  ck_Name :: string
  ck_Supports :: bool
  ck_Check :: check_outcome

type_synonym Registry = "(string \<times> Checker) list"

definition go_quote :: "string \<Rightarrow> string" where
  "go_quote s = CHR 0x22 # concat (map (\<lambda>c. if c = CHR 0x22 \<or> c = CHR 0x5C then [CHR 0x5C, c]
     else if c = CHR 0x0A then [CHR 0x5C, CHR ''n''] else if c = CHR 0x09 then [CHR 0x5C, CHR ''t'']
     else [c]) s) @ [CHR 0x22]"

definition NewRegistry :: Registry where "NewRegistry = []"

definition Register :: "Checker \<Rightarrow> Registry \<Rightarrow> string option \<times> Registry" where
  "Register c r =
     (if map_of r (ck_Name c) \<noteq> None
      then (Some (''checker '' @ go_quote (ck_Name c) @ '' already registered''), r)
      else (None, AList.update (ck_Name c) c r))"

definition Unregister :: "string \<Rightarrow> Registry \<Rightarrow> bool \<times> Registry" where
  "Unregister name r = (map_of r name \<noteq> None, if map_of r name \<noteq> None then AList.delete name r else r)"

definition Replace :: "Checker \<Rightarrow> Registry \<Rightarrow> Registry" where
  "Replace c r = AList.update (ck_Name c) c r"

definition registry_Get :: "string \<Rightarrow> Registry \<Rightarrow> Checker option" where
  "registry_Get name r = map_of r name"

definition List :: "(string list \<Rightarrow> string list) \<Rightarrow> Registry \<Rightarrow> string list" where
  "List ord r = ord (map fst r)"

definition Run :: "string \<Rightarrow> Registry \<Rightarrow> check_outcome" where
  "Run name r =
     (case registry_Get name r of
        None \<Rightarrow> CheckFailed (''checker '' @ go_quote name @ '' not found'')
      | Some c \<Rightarrow>
          if \<not> ck_Supports c
          then Checked (Some (failed_result name
            (''checker '' @ go_quote name @ '' is not supported in this environment'')))
          else ck_Check c)"

text \<open>One goroutine of \<open>RunAll\<close>: an error becomes a result, a panic is recovered into one.\<close>

definition run_one :: "Registry \<Rightarrow> string \<Rightarrow> result option" where
  "run_one r name =
     (case Run name r of
        Checked res \<Rightarrow> res
      | CheckFailed e \<Rightarrow> Some (failed_result name e)
      | CheckPanicked e \<Rightarrow> Some (failed_result name (''checker '' @ go_quote name @ '' panicked: '' @ e)))"

text \<open>
  \<open>RunAll\<close>: \<open>ord\<close> is the iteration order of the registry's map when no names are given, and
  \<open>arrive\<close> the order in which the goroutines' results come out of the channel.
\<close>

definition RunAll :: "(string list \<Rightarrow> string list) \<Rightarrow>
    ((string \<times> result option) list \<Rightarrow> (string \<times> result option) list) \<Rightarrow>
    string list option \<Rightarrow> Registry \<Rightarrow> (string \<rightharpoonup> result option)" where
  "RunAll ord arrive names r =
     (let ns = (case names of None \<Rightarrow> List ord r | Some ns \<Rightarrow> ns)
      in fold (\<lambda>(n, res) m. m(n \<mapsto> res)) (arrive (map (\<lambda>n. (n, run_one r n)) ns)) Map.empty)"

record AggregateResults =
  ag_TotalHealthy :: int
  ag_TotalIssues :: int
  ag_BySeverity :: "string \<rightharpoonup> int"
  ag_CheckerErrors :: "string list"

text \<open>One round of the aggregation loop; \<open>None\<close> is the nil dereference on a nil result.\<close>

definition aggregate_step :: "string \<times> result option \<Rightarrow> AggregateResults option \<Rightarrow> AggregateResults option" where
  "aggregate_step nr agg =
     (case (agg, nr) of
        (Some a, (name, Some res)) \<Rightarrow>
          (case cr_Error res of
             Some e \<Rightarrow> Some (a\<lparr>ag_CheckerErrors := ag_CheckerErrors a @ [name @ '': '' @ e]\<rparr>)
           | None \<Rightarrow> Some (a\<lparr>ag_TotalHealthy := ag_TotalHealthy a + cr_Healthy res,
               ag_TotalIssues := ag_TotalIssues a + int (length (cr_Issues res)),
               ag_BySeverity := fold (\<lambda>i. bump (iss_Severity i)) (cr_Issues res) (ag_BySeverity a)\<rparr>))
      | _ \<Rightarrow> None)"

definition Aggregate :: "(string \<times> result option) list \<Rightarrow> AggregateResults option" where
  "Aggregate results = fold aggregate_step results
     (Some \<lparr>ag_TotalHealthy = 0, ag_TotalIssues = 0, ag_BySeverity = Map.empty, ag_CheckerErrors = []\<rparr>)"

section \<open>Conversion to the API types\<close>

record DiagnosticIssue =
  di_Type :: string
  di_Severity :: string
  di_Message :: string
  di_Suggestion :: string

definition ToAPIIssue :: "'m Issue \<Rightarrow> DiagnosticIssue" where
  "ToAPIIssue i = \<lparr>di_Type = iss_Type i, di_Severity = iss_Severity i, di_Message = iss_Message i,
     di_Suggestion = iss_Suggestion i\<rparr>"

definition ToAPIIssues :: "'m Issue list \<Rightarrow> DiagnosticIssue list" where
  "ToAPIIssues is = map ToAPIIssue is"

definition FromAPIIssue :: "DiagnosticIssue \<Rightarrow> 'm Issue" where
  "FromAPIIssue d = \<lparr>iss_Type = di_Type d, iss_Severity = di_Severity d, iss_Resource = [],
     iss_Namespace = [], iss_Message = di_Message d, iss_Suggestion = di_Suggestion d,
     iss_Metadata = None\<rparr>"

definition FromAPIIssues :: "DiagnosticIssue list \<Rightarrow> 'm Issue list" where
  "FromAPIIssues ds = map FromAPIIssue ds"

text \<open>The results in the order in which the map is ranged over.\<close>

definition MergeResults :: "(string \<times> 'm CheckResult option) list \<Rightarrow> DiagnosticIssue list" where
  "MergeResults results = concat (map (\<lambda>(_, ro).
     (case ro of Some r \<Rightarrow> if cr_Error r = None then ToAPIIssues (cr_Issues r) else [] | None \<Rightarrow> [])) results)"

section \<open>Facts about the registry\<close>

lemma fold_upd_same:
  "fold (\<lambda>(n, res) m. m(n \<mapsto> res)) (map (\<lambda>n. (n, f n)) ns) m =
   (\<lambda>n. if n \<in> set ns then Some (f n) else m n)"
  by (induction ns arbitrary: m) auto

lemma fold_upd_fun:
  assumes "\<forall>(n, res) \<in> set xs. res = f n"
  shows "fold (\<lambda>(n, res) m. m(n \<mapsto> res)) xs m = (\<lambda>n. if n \<in> fst ` set xs then Some (f n) else m n)"
  using assms by (induction xs arbitrary: m) (auto simp: fun_eq_iff)

definition ran_ok :: "string \<times> result option \<Rightarrow> bool" where
  "ran_ok nr = (case snd nr of None \<Rightarrow> False | Some r \<Rightarrow> cr_Error r = None)"

lemma aggregate_step_None [simp]: "fold aggregate_step rs None = None"
  by (induction rs) (simp_all add: aggregate_step_def split: prod.splits)

lemma severity_total_bump:
  "k \<in> set severities \<Longrightarrow> severity_total (bump k m) = severity_total m + 1"
  using distinct_severities by (auto simp: severity_total_def severities_def count_of_bump)

lemma severity_total_fold:
  "\<forall>i \<in> set is. iss_Severity i \<in> set severities \<Longrightarrow>
   severity_total (fold (\<lambda>i. bump (iss_Severity i)) is m) = severity_total m + int (length is)"
  by (induction "is" arbitrary: m) (simp_all add: severity_total_bump)

lemma fold_aggregate:
  assumes "\<forall>nr \<in> set results. \<exists>r. snd nr = Some r \<and>
    (\<forall>i \<in> set (cr_Issues r). iss_Severity i \<in> set severities)"
  shows "\<exists>a'. fold aggregate_step results (Some a) = Some a' \<and>
    severity_total (ag_BySeverity a') - severity_total (ag_BySeverity a) = ag_TotalIssues a' - ag_TotalIssues a \<and>
    ag_TotalIssues a' = ag_TotalIssues a + sum_list (map (\<lambda>nr. TotalIssues (the (snd nr))) (filter ran_ok results)) \<and>
    ag_TotalHealthy a' = ag_TotalHealthy a + sum_list (map (\<lambda>nr. cr_Healthy (the (snd nr))) (filter ran_ok results)) \<and>
    length (ag_CheckerErrors a') = length (ag_CheckerErrors a) + length (filter (\<lambda>nr. \<not> ran_ok nr) results)"
  using assms
proof (induction results arbitrary: a)
  case (Cons nr rs)
  obtain name r where nr: "nr = (name, Some r)" using Cons.prems by (cases nr) auto
  have sev: "\<forall>i \<in> set (cr_Issues r). iss_Severity i \<in> set severities"
    using Cons.prems nr by simp
  obtain a1 where a1: "aggregate_step nr (Some a) = Some a1"
    by (cases "cr_Error r") (auto simp: aggregate_step_def nr)
  have step: "severity_total (ag_BySeverity a1) - severity_total (ag_BySeverity a) = ag_TotalIssues a1 - ag_TotalIssues a"
    "ag_TotalIssues a1 = ag_TotalIssues a + (if ran_ok nr then TotalIssues r else 0)"
    "ag_TotalHealthy a1 = ag_TotalHealthy a + (if ran_ok nr then cr_Healthy r else 0)"
    "length (ag_CheckerErrors a1) = length (ag_CheckerErrors a) + (if ran_ok nr then 0 else 1)"
    using a1 severity_total_fold [OF sev] nr
    by (auto simp: aggregate_step_def ran_ok_def TotalIssues_def split: option.splits)
  from Cons.IH [of a1] Cons.prems obtain a' where a': "fold aggregate_step rs (Some a1) = Some a'"
    "severity_total (ag_BySeverity a') - severity_total (ag_BySeverity a1) = ag_TotalIssues a' - ag_TotalIssues a1"
    "ag_TotalIssues a' = ag_TotalIssues a1 + sum_list (map (\<lambda>nr. TotalIssues (the (snd nr))) (filter ran_ok rs))"
    "ag_TotalHealthy a' = ag_TotalHealthy a1 + sum_list (map (\<lambda>nr. cr_Healthy (the (snd nr))) (filter ran_ok rs))"
    "length (ag_CheckerErrors a') = length (ag_CheckerErrors a1) + length (filter (\<lambda>nr. \<not> ran_ok nr) rs)"
    by auto
  show ?case
    using a1 a' step nr by (intro exI [of _ a']) (simp split: if_splits)
qed simp

section \<open>Properties\<close>

text \<open>C13. Running the registry returns a result for exactly the requested names (all registered ones
  when none are requested), in whatever order goroutines finish; an unknown, unsupported, failing or
  panicking checker yields a result carrying its error, so one checker cannot take down the others.\<close>

theorem registry_runs_all:
  assumes "range_order ord" "range_order arrive"
  shows "RunAll ord arrive names r n =
      (if n \<in> (case names of None \<Rightarrow> fst ` set r | Some ns \<Rightarrow> set ns) then Some (run_one r n) else None) \<and>
    (case map_of r n of
       None \<Rightarrow> \<exists>e. run_one r n = Some (failed_result n e)
     | Some c \<Rightarrow> if \<not> ck_Supports c then \<exists>e. run_one r n = Some (failed_result n e)
         else case ck_Check c of Checked res \<Rightarrow> run_one r n = res
           | CheckFailed e \<Rightarrow> run_one r n = Some (failed_result n e)
           | CheckPanicked p \<Rightarrow> \<exists>e. run_one r n = Some (failed_result n e))"
proof
  let ?ns = "case names of None \<Rightarrow> List ord r | Some ns \<Rightarrow> ns"
  let ?xs = "map (\<lambda>n. (n, run_one r n)) ?ns"
  have s: "set (arrive ?xs) = set ?xs" using range_order_set [OF assms(2)] .
  have "set ?ns = (case names of None \<Rightarrow> fst ` set r | Some ns \<Rightarrow> set ns)"
    using range_order_set [OF assms(1)] by (simp add: List_def split: option.splits)
  moreover have "fold (\<lambda>(n, res) m. m(n \<mapsto> res)) (arrive ?xs) Map.empty =
      (\<lambda>n. if n \<in> fst ` set (arrive ?xs) then Some (run_one r n) else None)"
    by (subst fold_upd_fun [where f = "run_one r"]) (use s in auto)
  moreover have "fst ` set (arrive ?xs) = set ?ns" unfolding s by force
  ultimately show "RunAll ord arrive names r n =
      (if n \<in> (case names of None \<Rightarrow> fst ` set r | Some ns \<Rightarrow> set ns) then Some (run_one r n) else None)"
    by (simp add: RunAll_def)
  show "case map_of r n of
       None \<Rightarrow> \<exists>e. run_one r n = Some (failed_result n e)
     | Some c \<Rightarrow> if \<not> ck_Supports c then \<exists>e. run_one r n = Some (failed_result n e)
         else case ck_Check c of Checked res \<Rightarrow> run_one r n = res
           | CheckFailed e \<Rightarrow> run_one r n = Some (failed_result n e)
           | CheckPanicked p \<Rightarrow> \<exists>e. run_one r n = Some (failed_result n e)"
    by (auto simp: run_one_def Run_def registry_Get_def split: option.splits check_outcome.splits)
qed

definition example_registry :: Registry where
  "example_registry = snd (Register \<lparr>ck_Name = ''pvcs'', ck_Supports = True,
       ck_Check = Checked (Some (no_result ''pvcs''))\<rparr>
     (snd (Register \<lparr>ck_Name = ''bad'', ck_Supports = True, ck_Check = CheckPanicked ''boom''\<rparr> NewRegistry)))"

lemma example_registry_eval:
  "example_registry = [(''bad'', \<lparr>ck_Name = ''bad'', ck_Supports = True, ck_Check = CheckPanicked ''boom''\<rparr>),
    (''pvcs'', \<lparr>ck_Name = ''pvcs'', ck_Supports = True, ck_Check = Checked (Some (no_result ''pvcs''))\<rparr>)]"
  by (simp add: example_registry_def Register_def NewRegistry_def)

theorem registry_runs_all_witness:
  "RunAll rev rev None example_registry ''pvcs'' = Some (Some (no_result ''pvcs'')) \<and>
   (\<exists>e. RunAll rev rev None example_registry ''bad'' = Some (Some (failed_result ''bad'' e)))"
  using registry_runs_all [of rev rev None example_registry "''pvcs''"]
    registry_runs_all [of rev rev None example_registry "''bad''"]
  by (auto simp: example_registry_eval)

text \<open>Aggregation conserves counts: when no result is nil and every issue has one of the three
  severities, the aggregate exists, its per-severity counts add up to its number of issues, its totals
  are the sums over the checkers without an error, it lists one error per failed checker, and none of
  this depends on the order in which the map of results is ranged over.\<close>

theorem aggregate_conserves:
  assumes "\<forall>nr \<in> set results. \<exists>r. snd nr = Some r \<and>
      (\<forall>i \<in> set (cr_Issues r). iss_Severity i \<in> set severities)"
    and "range_order ord"
  shows "\<exists>a. Aggregate (ord results) = Some a \<and>
    severity_total (ag_BySeverity a) = ag_TotalIssues a \<and>
    ag_TotalIssues a = sum_list (map (\<lambda>nr. TotalIssues (the (snd nr))) (filter ran_ok results)) \<and>
    ag_TotalHealthy a = sum_list (map (\<lambda>nr. cr_Healthy (the (snd nr))) (filter ran_ok results)) \<and>
    length (ag_CheckerErrors a) = length (filter (\<lambda>nr. \<not> ran_ok nr) results)"
proof -
  have m: "mset (ord results) = mset results" using range_order_mset [OF assms(2)] .
  have sums: "sum_list (map f (filter P (ord results))) = sum_list (map f (filter P results))"
    for f :: "string \<times> result option \<Rightarrow> int" and P
    by (metis m mset_filter mset_map sum_mset_sum_list)
  have len: "length (filter P (ord results)) = length (filter P results)" for P
    by (metis m mset_filter size_mset)
  have "\<forall>nr \<in> set (ord results). \<exists>r. snd nr = Some r \<and>
      (\<forall>i \<in> set (cr_Issues r). iss_Severity i \<in> set severities)"
    using assms range_order_set [OF assms(2)] by simp
  from fold_aggregate [OF this, of "\<lparr>ag_TotalHealthy = 0, ag_TotalIssues = 0,
      ag_BySeverity = Map.empty, ag_CheckerErrors = []\<rparr>"]
  show ?thesis
    by (simp add: Aggregate_def sums len severity_total_def severities_def)
qed

theorem aggregate_conserves_witness:
  "\<exists>a. Aggregate [(''pvcs'', Some (no_result ''pvcs'')), (''bad'', Some (failed_result ''bad'' ''e''))] = Some a \<and>
    ag_TotalIssues a = 0 \<and> length (ag_CheckerErrors a) = 1"
  using aggregate_conserves [of "[(''bad'', Some (failed_result ''bad'' ''e'')),
    (''pvcs'', Some (no_result ''pvcs''))]" rev]
  by (auto simp: no_result_def failed_result_def ran_ok_def TotalIssues_def)

end
