(* ===== verification/Go_Parse.thy ===== *)
theory Go_Parse
  imports Go_Text Go_Regexp
begin

text \<open>
  More of Go's library: \<open>time.ParseDuration\<close>, \<open>strconv.ParseBool\<close> and prefixes, and what anchored
  regular expressions match.
\<close>

section \<open>Durations\<close>

text \<open>The leading digits as a number, and the rest: \<open>None\<close> beyond \<open>2 ^ 63\<close>.\<close>

fun leading_int :: "int \<Rightarrow> string \<Rightarrow> (int \<times> string) option" where
  "leading_int x [] = Some (x, [])"
| "leading_int x (c # cs) =
     (if \<not> is_digit c then Some (x, c # cs)
      else if x > 2 ^ 63 div 10 then None
      else let y = x * 10 + digits_value [c] in if y > 2 ^ 63 then None else leading_int y cs)"

text \<open>The digits behind the point, their scale, and the rest: digits that do not fit are dropped.\<close>

fun leading_fraction :: "int \<Rightarrow> f64 \<Rightarrow> bool \<Rightarrow> string \<Rightarrow> int \<times> f64 \<times> string" where
  "leading_fraction x scale over [] = (x, scale, [])"
| "leading_fraction x scale over (c # cs) =
     (if \<not> is_digit c then (x, scale, c # cs)
      else if over then leading_fraction x scale True cs
      else if x > (2 ^ 63 - 1) div 10 then leading_fraction x scale True cs
      else let y = x * 10 + digits_value [c] in
        if y > 2 ^ 63 then leading_fraction x scale True cs
        else leading_fraction y (fmul scale 10) False cs)"

definition duration_units :: "(string \<times> int) list" where
  "duration_units = [(''ns'', 1), (''us'', 1000), ([CHR 0xC2, CHR 0xB5, CHR ''s''], 1000),
     ([CHR 0xCE, CHR 0xBC, CHR ''s''], 1000), (''ms'', 1000000), (''s'', second), (''m'', minute), (''h'', hour)]"

text \<open>One number with its unit: the nanoseconds (unsigned) and the rest.\<close>

definition duration_part :: "string \<Rightarrow> (int \<times> string) option" where
  "duration_part s =
     (if \<not> (case s of [] \<Rightarrow> False | c # _ \<Rightarrow> c = CHR ''.'' \<or> is_digit c) then None
      else case leading_int 0 s of
        None \<Rightarrow> None
      | Some (v, s1) \<Rightarrow>
          let pre = length s1 \<noteq> length s;
              (f, scale, s2, post) = (case s1 of
                 c # cs \<Rightarrow> if c = CHR ''.''
                   then (let (f, scale, r) = leading_fraction 0 1 False cs in (f, scale, r, length r \<noteq> length cs))
                   else (0, 1, s1, False)
               | [] \<Rightarrow> (0, 1, [], False));
              u = takeWhile (\<lambda>c. \<not> (c = CHR ''.'' \<or> is_digit c)) s2;
              rest = dropWhile (\<lambda>c. \<not> (c = CHR ''.'' \<or> is_digit c)) s2
          in if \<not> pre \<and> \<not> post \<or> u = [] then None
             else case map_of duration_units u of
               None \<Rightarrow> None
             | Some unit \<Rightarrow>
                 if v > 2 ^ 63 div unit then None
                 else let w = v * unit + (if f > 0 then f64_to_int (fmul (float64 f) (fdiv (float64 unit) scale)) else 0)
                   in if w > 2 ^ 63 then None else Some (w, rest))"

lemma leading_int_length: "leading_int x s = Some (y, r) \<Longrightarrow> length r \<le> length s"
  by (induction x s rule: leading_int.induct) (auto simp: Let_def split: if_splits)

lemma leading_fraction_length: "leading_fraction x sc ov s = (y, sc', r) \<Longrightarrow> length r \<le> length s"
  by (induction x sc ov s rule: leading_fraction.induct) (auto simp: Let_def split: if_splits)

lemma dropWhile_shrinks: "takeWhile P xs \<noteq> [] \<Longrightarrow> length (dropWhile P xs) < length xs"
  by (cases xs) (auto simp: le_imp_less_Suc length_dropWhile_le split: if_splits)

lemma duration_part_shrinks: "duration_part s = Some (w, r) \<Longrightarrow> length r < length s"
proof -
  assume a: "duration_part s = Some (w, r)"
  obtain v s1 where l: "leading_int 0 s = Some (v, s1)" using a by (auto simp: duration_part_def split: if_splits option.splits)
  define s2 where "s2 = (case s1 of
                 c # cs \<Rightarrow> if c = CHR ''.'' then snd (snd (leading_fraction 0 1 False cs)) else s1 | [] \<Rightarrow> [])"
  have "length (snd (snd (leading_fraction 0 1 False cs))) \<le> length cs" for cs
    using leading_fraction_length [of 0 1 False cs] by (cases "leading_fraction 0 1 False cs") auto
  then have "length s2 \<le> length s1" by (auto simp: s2_def le_SucI split: list.splits)
  moreover have "length s1 \<le> length s" using leading_int_length [OF l] .
  moreover have "length r < length s2"
    using a l
    by (auto simp: duration_part_def s2_def Let_def case_prod_unfold dropWhile_shrinks
        le_imp_less_Suc length_dropWhile_le split: if_splits option.splits list.splits)
  ultimately show ?thesis by simp
qed

function duration_sum :: "int \<Rightarrow> string \<Rightarrow> int option" where
  "duration_sum d s =
     (if s = [] then Some d
      else case duration_part s of
        None \<Rightarrow> None
      | Some (w, r) \<Rightarrow> let d' = (d + w) mod 2 ^ 64 in if d' > 2 ^ 63 then None else duration_sum d' r)"
  by pat_completeness auto
termination by (relation "measure (\<lambda>(d, s). length s)") (auto simp: duration_part_shrinks)

declare duration_sum.simps [simp del]

definition parse_duration :: "string \<Rightarrow> duration option" where
  "parse_duration s =
     (let (neg, t) = (case s of [] \<Rightarrow> (False, [])
            | c # cs \<Rightarrow> if c = CHR ''-'' then (True, cs) else if c = CHR ''+'' then (False, cs) else (False, s))
      in if t = ''0'' then Some 0
         else if t = [] then None
         else case duration_sum 0 t of
           None \<Rightarrow> None
         | Some d \<Rightarrow> if neg then Some (- d) else if d > 2 ^ 63 - 1 then None else Some d)"

lemma parse_duration_examples:
  "parse_duration ''24h'' = Some (24 * hour)" "parse_duration ''1h30m'' = Some (90 * minute)"
  "parse_duration ''-5s'' = Some (- 5 * second)" "parse_duration ''5'' = None" "parse_duration ''h'' = None"
  "parse_duration ''9223372036854775808ns'' = None"
  by code_simp+

section \<open>Booleans and prefixes\<close>

definition parse_bool :: "string \<Rightarrow> bool option" where
  "parse_bool s =
     (if s \<in> {''1'', ''t'', ''T'', ''TRUE'', ''true'', ''True''} then Some True
      else if s \<in> {''0'', ''f'', ''F'', ''FALSE'', ''false'', ''False''} then Some False
      else None)"

definition trim_prefix :: "string \<Rightarrow> string \<Rightarrow> string" where
  "trim_prefix s p = (if has_prefix s p then drop (length p) s else s)"

section \<open>Anchored expressions\<close>

abbreviation anchored :: "re \<Rightarrow> re" where
  "anchored r \<equiv> Cat Bol (Cat r Eol)"

inductive_simps accepts_Eps [simp]: "accepts Eps u"
inductive_simps accepts_Cls [simp]: "accepts (Cls p) u"
inductive_simps accepts_Cat: "accepts (Cat r q) u"
inductive_simps accepts_Alt: "accepts (Alt r q) u"

lemma accepts_Cls_Cat: "accepts (Cat (Cls p) r) u \<longleftrightarrow> (case u of [] \<Rightarrow> False | c # cs \<Rightarrow> p c \<and> accepts r cs)"
  using exI [of "\<lambda>v. \<exists>w. u = v @ w \<and> accepts (Cls p) v \<and> accepts r w" "[hd u]"]
  by (cases u) (auto simp: accepts_Cat)

lemma accepts_Star_Cls [simp]: "accepts (Star (Cls p)) u \<longleftrightarrow> list_all p u"
proof
  show "accepts (Star (Cls p)) u \<Longrightarrow> list_all p u"
    by (induction "Star (Cls p)" u rule: accepts.induct) auto
  show "list_all p u \<Longrightarrow> accepts (Star (Cls p)) u"
  proof (induction u)
    case (Cons x u)
    then show ?case using acc_star [of "Cls p" "[x]" u] by simp
  qed (simp add: acc_star0)
qed

lemma accepts_plus_Cls [simp]: "accepts (re_plus (Cls p)) u \<longleftrightarrow> u \<noteq> [] \<and> list_all p u"
  by (cases u) (auto simp: accepts_Cls_Cat)

lemma accepts_upto_Cls [simp]: "accepts (re_upto n (Cls p)) u \<longleftrightarrow> length u \<le> n \<and> list_all p u"
proof (induction n arbitrary: u)
  case (Suc n)
  then show ?case by (cases u) (auto simp: accepts_Alt accepts_Cls_Cat)
qed auto

lemma plain_upto [simp]: "plain_re (re_upto n r) \<longleftrightarrow> n = 0 \<or> plain_re r"
  by (induction n) auto

lemma search_no_start: "\<not> re_search_from (Cat Bol r) (Some c) xs"
  by (induction xs arbitrary: c) simp_all

text \<open>An anchored expression matches exactly the strings it accepts.\<close>

lemma match_anchored:
  assumes "plain_re r"
  shows "re_match (anchored r) xs \<longleftrightarrow> accepts r xs"
proof -
  have "re_match (anchored r) xs \<longleftrightarrow> runs (anchored r) (None, xs) \<noteq> []"
    using search_no_start by (cases xs) (simp_all add: re_match_def)
  also have "\<dots> \<longleftrightarrow> (\<exists>s \<in> set (runs r (None, xs)). snd s = [])"
    by (auto simp: concat_eq_Nil_conv)
  also have "\<dots> \<longleftrightarrow> accepts r xs"
  proof
    assume "\<exists>s \<in> set (runs r (None, xs)). snd s = []"
    then show "accepts r xs" using runs_sound [OF _ assms] by force
  next
    assume "accepts r xs"
    from runs_complete [OF this assms, where pv = None and ys = "[]"]
    show "\<exists>s \<in> set (runs r (None, xs)). snd s = []" by (metis append_Nil2 snd_conv)
  qed
  finally show ?thesis .
qed

section \<open>Labels\<close>

text \<open>The name of a Kubernetes object as several of the sources' expressions spell it.\<close>

definition lower_alnum :: "char \<Rightarrow> bool" where
  "lower_alnum c \<longleftrightarrow> lower_letter c \<or> digit_char c"

definition label_char :: "char \<Rightarrow> bool" where
  "label_char c \<longleftrightarrow> lower_alnum c \<or> c = CHR ''-''"

definition dns_label :: re where
  "dns_label = Cat (Cls lower_alnum) (re_opt (Cat (re_upto 61 (Cls label_char)) (Cls lower_alnum)))"

definition is_label :: "string \<Rightarrow> bool" where
  "is_label s \<longleftrightarrow> s \<noteq> [] \<and> length s \<le> 63 \<and> list_all label_char s \<and> lower_alnum (hd s) \<and> lower_alnum (last s)"

lemma plain_label [simp]: "plain_re dns_label"
  by (simp add: dns_label_def)

lemma accepts_label: "accepts dns_label s \<longleftrightarrow> is_label s"
proof (cases s)
  case (Cons c cs)
  have "accepts (Cat (re_upto 61 (Cls label_char)) (Cls lower_alnum)) cs \<longleftrightarrow>
      cs \<noteq> [] \<and> length cs \<le> 62 \<and> list_all label_char cs \<and> lower_alnum (last cs)"
    by (cases cs rule: rev_cases) (auto simp: accepts_Cat label_char_def)
  then show ?thesis
    by (auto simp: Cons dns_label_def accepts_Cls_Cat accepts_Alt is_label_def label_char_def)
qed (simp add: dns_label_def accepts_Cls_Cat is_label_def)

lemma match_label: "re_match (anchored dns_label) s \<longleftrightarrow> is_label s"
  by (simp add: match_anchored accepts_label)

end
