(* ===== verification/AI_Enhancement.thy ===== *)
theory AI_Enhancement
  imports AI_Manager AI_Sanitizer Checker_Core Go_Parse
begin

text \<open>
  Enhancing the issues of check results with a provider's advice (\<open>EnhanceWithAI\<close> and
  \<open>EnhanceAllWithAI\<close> of \<open>internal/checker/checker.go\<close>). The metadata maps of issues are shared: the
  workload checker puts one map into all the best-practice issues of a container. So an issue holds
  the address of its map and the maps live in a store. A panic is \<open>None\<close>.
\<close>

section \<open>Signatures\<close>

definition validNamespace :: re where
  "validNamespace = anchored dns_label"

definition IsValidNamespace :: "string \<Rightarrow> bool" where
  "IsValidNamespace name = re_match validNamespace name"

definition PodHashSuffix :: re where
  "PodHashSuffix =
     (let hex = Cls (\<lambda>c. CHR ''a'' \<le> c \<and> c \<le> CHR ''f'' \<or> digit_char c) in
      re_seq [re_char (CHR ''-''), re_times 5 hex, Star hex,
        re_opt (Cat (re_char (CHR ''-'')) (re_times 5 (Cls lower_alnum)))])"

definition normalizeMessage :: "string \<Rightarrow> string" where
  "normalizeMessage msg =
     trim_space (re_replace (re_plus re_space) '' '' (re_replace PodHashSuffix ''-<pod>'' msg))"

definition normalizeIssueSignature :: "'m Issue \<Rightarrow> string" where
  "normalizeIssueSignature i =
     (let ns = (if iss_Namespace i \<noteq> [] \<and> \<not> IsValidNamespace (iss_Namespace i) then ''<invalid>'' else iss_Namespace i)
      in iss_Type i @ ''|'' @ iss_Severity i @ ''|'' @ ns @ ''|'' @ normalizeMessage (iss_Message i))"

definition severityRank :: "string \<Rightarrow> int" where
  "severityRank s = (if s = SeverityCritical then 0 else if s = SeverityWarning then 1
     else if s = SeverityInfo then 2 else 3)"

section \<open>State and context\<close>

type_synonym stored_issue = "nat Issue"
type_synonym stored_result = "nat CheckResult"

record enhancement =
  en_results :: "(string \<times> stored_result option) list"
  en_meta :: "nat \<rightharpoonup> metadata"
  en_next :: nat                       \<comment> \<open>addresses from here on are unused\<close>

record enhance_context =
  ec_enabled :: bool
  ec_available :: "bool option"        \<comment> \<open>\<open>None\<close> without a provider\<close>
  ec_analyze :: "AnalysisRequest \<Rightarrow> provider_outcome"
  ec_enrich :: "(IssueContext list \<Rightarrow> IssueContext list) option"   \<comment> \<open>the context builder, when enabled\<close>
  ec_cluster :: ClusterContext
  ec_causal :: "CausalAnalysisContext option"
  ec_maxIssues :: int
  ec_minConfidence :: f64

definition defaultMaxAIIssues :: int where "defaultMaxAIIssues = 15"
definition defaultMinConfidence :: f64 where "defaultMinConfidence = fl (3 / 10)"

record issueRef =
  rf_checkerName :: string
  rf_issueIdx :: int

definition ai_ready :: "enhance_context \<Rightarrow> bool" where
  "ai_ready ctx \<longleftrightarrow> ec_enabled ctx \<and> ec_available ctx = Some True"

definition min_confidence :: "enhance_context \<Rightarrow> f64" where
  "min_confidence ctx = (if ec_minConfidence ctx \<le> 0 then defaultMinConfidence else ec_minConfidence ctx)"

definition max_issues :: "enhance_context \<Rightarrow> int" where
  "max_issues ctx = (if ec_maxIssues ctx \<le> 0 then defaultMaxAIIssues else ec_maxIssues ctx)"

definition issue_context :: "'m Issue \<Rightarrow> IssueContext" where
  "issue_context i = \<lparr>ic_Type = iss_Type i, ic_Severity = iss_Severity i, ic_Resource = iss_Resource i,
     ic_Namespace = iss_Namespace i, ic_Message = iss_Message i, ic_StaticSuggestion = iss_Suggestion i,
     ic_Events = [], ic_Logs = []\<rparr>"

definition analysis_request :: "enhance_context \<Rightarrow> IssueContext list \<Rightarrow> AnalysisRequest" where
  "analysis_request ctx ics =
     SanitizeAnalysisRequest NewSanitizer
       \<lparr>ar_Issues = (case ec_enrich ctx of None \<Rightarrow> ics | Some enrich \<Rightarrow> enrich ics),
        ar_ClusterContext = ec_cluster ctx, ar_CausalContext = ec_causal ctx, ar_MaxTokens = 0,
        ar_ExplainMode = False, ar_ExplainContext = []\<rparr>"

section \<open>Applying advice to an issue\<close>

definition advised_suggestion :: "EnhancedSuggestion \<Rightarrow> string \<Rightarrow> string" where
  "advised_suggestion s old =
     (if old \<noteq> [] then old @ ([CHR 0x0A] @ [CHR 0x0A] @ ''AI Analysis: '') @ es_Suggestion s else ''AI Analysis: '' @ es_Suggestion s)"

definition useful :: "enhance_context \<Rightarrow> EnhancedSuggestion \<Rightarrow> bool" where
  "useful ctx s \<longleftrightarrow> es_Suggestion s \<noteq> [] \<and> es_Confidence s > min_confidence ctx"

text \<open>The issue, the store of metadata and the next address after the advice.\<close>

definition enhance_issue :: "EnhancedSuggestion \<Rightarrow> stored_issue \<Rightarrow> (nat \<rightharpoonup> metadata) \<Rightarrow> nat \<Rightarrow>
    stored_issue \<times> (nat \<rightharpoonup> metadata) \<times> nat" where
  "enhance_issue s i meta next =
     (let i1 = i\<lparr>iss_Suggestion := advised_suggestion s (iss_Suggestion i)\<rparr> in
      if es_RootCause s = [] then (i1, meta, next)
      else case iss_Metadata i of
        None \<Rightarrow> (i1\<lparr>iss_Metadata := Some next\<rparr>, meta(next \<mapsto> [''aiRootCause'' \<mapsto> es_RootCause s]), next + 1)
      | Some a \<Rightarrow> (i1, meta(a \<mapsto> (case meta a of None \<Rightarrow> Map.empty | Some m \<Rightarrow> m)(''aiRootCause'' \<mapsto> es_RootCause s)), next))"

definition set_issue :: "int \<Rightarrow> 'm Issue \<Rightarrow> 'm CheckResult \<Rightarrow> 'm CheckResult" where
  "set_issue idx i r = r\<lparr>cr_Issues := (cr_Issues r)[nat idx := i]\<rparr>"

definition update_result :: "string \<Rightarrow> ('m CheckResult \<Rightarrow> 'm CheckResult) \<Rightarrow>
    (string \<times> 'm CheckResult option) list \<Rightarrow> (string \<times> 'm CheckResult option) list" where
  "update_result name f rs = map (\<lambda>(n, ro). (n, if n = name then map_option f ro else ro)) rs"

definition issue_at :: "(string \<times> 'm CheckResult option) list \<Rightarrow> issueRef \<Rightarrow> 'm Issue option" where
  "issue_at rs ref =
     (case map_of rs (rf_checkerName ref) of
        Some (Some r) \<Rightarrow> go_index (cr_Issues r) (rf_issueIdx ref)
      | _ \<Rightarrow> None)"

definition apply_advice :: "EnhancedSuggestion \<Rightarrow> issueRef \<Rightarrow> enhancement \<Rightarrow> enhancement option" where
  "apply_advice s ref st =
     (case issue_at (en_results st) ref of
        None \<Rightarrow> None
      | Some i \<Rightarrow>
          let (i', meta, next) = enhance_issue s i (en_meta st) (en_next st)
          in Some \<lparr>en_results = update_result (rf_checkerName ref) (set_issue (rf_issueIdx ref) i') (en_results st),
               en_meta = meta, en_next = next\<rparr>)"

fun apply_all :: "EnhancedSuggestion \<Rightarrow> issueRef list \<Rightarrow> enhancement \<Rightarrow> enhancement option" where
  "apply_all s [] st = Some st"
| "apply_all s (ref # refs) st = (case apply_advice s ref st of None \<Rightarrow> None | Some st' \<Rightarrow> apply_all s refs st')"

section \<open>The batched call\<close>

definition collect_result :: "string \<Rightarrow> 'm CheckResult \<Rightarrow> (IssueContext \<times> issueRef) list" where
  "collect_result name r =
     map (\<lambda>(i, iss). (issue_context iss, \<lparr>rf_checkerName = name, rf_issueIdx = int i\<rparr>))
       (filter (\<lambda>(i, iss). iss_Severity iss \<noteq> SeverityInfo) (enumerate 0 (cr_Issues r)))"

text \<open>A nil result makes the loop panic.\<close>

definition collectIssuesForAI :: "(string \<times> 'm CheckResult option) list \<Rightarrow>
    ((IssueContext \<times> issueRef) list \<times> int) option" where
  "collectIssuesForAI rs =
     map_option (\<lambda>parts. (concat (map fst parts), sum_list (map snd parts)))
       (those (map (\<lambda>name. case map_of rs name of
            Some (Some r) \<Rightarrow>
              Some (if cr_Error r \<noteq> None then ([], 0)
                else (collect_result name r, int (length (filter (\<lambda>i. iss_Severity i = SeverityInfo) (cr_Issues r)))))
          | _ \<Rightarrow> None) (sort (map fst rs))))"

definition cap_issues :: "int \<Rightarrow> (IssueContext \<times> issueRef) list \<Rightarrow> (IssueContext \<times> issueRef) list" where
  "cap_issues maxIssues pairs =
     (if int (length pairs) > maxIssues
      then take (nat maxIssues) (sort_key (\<lambda>p. severityRank (ic_Severity (fst p))) pairs)
      else pairs)"

text \<open>The signature leaves the namespace out.\<close>

definition context_signature :: "IssueContext \<Rightarrow> string" where
  "context_signature ic =
     normalizeIssueSignature (\<lparr>iss_Type = ic_Type ic, iss_Severity = ic_Severity ic, iss_Resource = [],
       iss_Namespace = [], iss_Message = ic_Message ic, iss_Suggestion = [], iss_Metadata = None\<rparr> :: stored_issue)"

definition dedup_issues :: "(IssueContext \<times> issueRef) list \<Rightarrow> (string \<times> (IssueContext \<times> issueRef) list) list" where
  "dedup_issues pairs = group_by (\<lambda>p. context_signature (fst p)) pairs"

text \<open>The fan-out: the advice for each group goes to all its issues.\<close>

fun fan_out :: "enhance_context \<Rightarrow> AnalysisResponse \<Rightarrow> (nat \<times> issueRef list) list \<Rightarrow> int \<Rightarrow> enhancement \<Rightarrow>
    (int \<times> enhancement) option" where
  "fan_out ctx resp [] n st = Some (n, st)"
| "fan_out ctx resp ((i, refs) # gs) n st =
     (case rs_EnhancedSuggestions resp (issue_key i) of
        None \<Rightarrow> fan_out ctx resp gs n st
      | Some s \<Rightarrow>
          if \<not> useful ctx s then fan_out ctx resp gs n st
          else (case apply_all s refs st of
                  None \<Rightarrow> None
                | Some st' \<Rightarrow> fan_out ctx resp gs (n + int (length refs)) st'))"

record enhance_outcome =
  eo_enhanced :: int
  eo_tokens :: int
  eo_total :: int
  eo_response :: "AnalysisResponse option"
  eo_error :: "provider_error option"

definition nothing_sent :: enhance_outcome where
  "nothing_sent = \<lparr>eo_enhanced = 0, eo_tokens = 0, eo_total = 0, eo_response = None, eo_error = None\<rparr>"

definition sent_groups :: "enhance_context \<Rightarrow> (IssueContext \<times> issueRef) list \<Rightarrow> (IssueContext \<times> issueRef) list list" where
  "sent_groups ctx pairs = map snd (dedup_issues (cap_issues (max_issues ctx) pairs))"

definition EnhanceAllWithAI :: "enhance_context \<Rightarrow> enhancement \<Rightarrow> (enhance_outcome \<times> enhancement) option" where
  "EnhanceAllWithAI ctx st =
     (if \<not> ai_ready ctx then Some (nothing_sent, st)
      else case collectIssuesForAI (en_results st) of
        None \<Rightarrow> None
      | Some (pairs, infoFiltered) \<Rightarrow>
          if pairs = [] then Some (nothing_sent, st)
          else let total = int (length pairs); groups = sent_groups ctx pairs in
            (case ec_analyze ctx (analysis_request ctx (map (fst \<circ> hd) groups)) of
               Inl e \<Rightarrow> Some (nothing_sent\<lparr>eo_total := total, eo_error := Some e\<rparr>, st)
             | Inr None \<Rightarrow> None
             | Inr (Some resp) \<Rightarrow>
                 map_option (\<lambda>(n, st'). (\<lparr>eo_enhanced = n, eo_tokens = rs_TokensUsed resp, eo_total = total,
                     eo_response = Some resp, eo_error = None\<rparr>, st'))
                   (fan_out ctx resp (enumerate 0 (map (map snd) groups)) 0 st)))"

section \<open>The call for one result\<close>

definition advice_for :: "AnalysisResponse \<Rightarrow> nat \<Rightarrow> 'm Issue \<Rightarrow> EnhancedSuggestion option" where
  "advice_for resp i iss =
     (let find = rs_EnhancedSuggestions resp in
      case find (issue_key i) of Some s \<Rightarrow> Some s | None \<Rightarrow>
      (case find (iss_Namespace iss @ ''/'' @ iss_Resource iss) of Some s \<Rightarrow> Some s | None \<Rightarrow>
      (case find (iss_Resource iss) of Some s \<Rightarrow> Some s | None \<Rightarrow>
       find (iss_Type iss @ ''/'' @ iss_Resource iss))))"

fun enhance_each :: "enhance_context \<Rightarrow> AnalysisResponse \<Rightarrow> nat \<Rightarrow> stored_issue list \<Rightarrow> (nat \<rightharpoonup> metadata) \<Rightarrow> nat \<Rightarrow>
    stored_issue list \<times> (nat \<rightharpoonup> metadata) \<times> nat" where
  "enhance_each ctx resp k [] meta next = ([], meta, next)"
| "enhance_each ctx resp k (i # is) meta next =
     (let (i', meta1, next1) = (case advice_for resp k i of
            Some s \<Rightarrow> if useful ctx s then enhance_issue s i meta next else (i, meta, next)
          | None \<Rightarrow> (i, meta, next));
          (is', meta2, next2) = enhance_each ctx resp (k + 1) is meta1 next1
      in (i' # is', meta2, next2))"

text \<open>The result with its store: \<open>None\<close> when the response is nil, else the error and the new state.\<close>

definition EnhanceWithAI :: "enhance_context \<Rightarrow> stored_result \<Rightarrow> (nat \<rightharpoonup> metadata) \<Rightarrow> nat \<Rightarrow>
    (provider_error option \<times> stored_result \<times> (nat \<rightharpoonup> metadata) \<times> nat) option" where
  "EnhanceWithAI ctx r meta next =
     (if \<not> ai_ready ctx \<or> cr_Issues r = [] then Some (None, r, meta, next)
      else case ec_analyze ctx (analysis_request ctx (map issue_context (cr_Issues r))) of
        Inl e \<Rightarrow> Some (Some e, r, meta, next)
      | Inr None \<Rightarrow> None
      | Inr (Some resp) \<Rightarrow>
          let (is, meta', next') = enhance_each ctx resp 0 (cr_Issues r) meta next
          in Some (None, r\<lparr>cr_Issues := is\<rparr>, meta', next'))"

section \<open>What enhancement leaves alone\<close>

text \<open>An issue afterwards: the same but for its metadata and a suggestion that was at most extended, by text
  with the marker of the AI, and only unless the issue is informational.\<close>

definition issue_kept :: "'m Issue \<Rightarrow> 'm Issue \<Rightarrow> bool" where
  "issue_kept i j \<longleftrightarrow>
     iss_Type j = iss_Type i \<and> iss_Severity j = iss_Severity i \<and> iss_Resource j = iss_Resource i \<and>
     iss_Namespace j = iss_Namespace i \<and> iss_Message j = iss_Message i \<and>
     prefix (iss_Suggestion i) (iss_Suggestion j) \<and> (iss_Severity i = SeverityInfo \<longrightarrow> j = i) \<and>
     (iss_Suggestion j \<noteq> iss_Suggestion i \<longrightarrow> str_contains (iss_Suggestion j) ''AI Analysis: '')"

definition result_kept :: "'m CheckResult \<Rightarrow> 'm CheckResult \<Rightarrow> bool" where
  "result_kept r s \<longleftrightarrow> cr_CheckerName s = cr_CheckerName r \<and> cr_Healthy s = cr_Healthy r \<and>
     cr_Error s = cr_Error r \<and> list_all2 issue_kept (cr_Issues r) (cr_Issues s)"

definition results_kept :: "(string \<times> 'm CheckResult option) list \<Rightarrow> (string \<times> 'm CheckResult option) list \<Rightarrow> bool" where
  "results_kept = list_all2 (\<lambda>(n, ro) (n', ro'). n = n' \<and> rel_option result_kept ro ro')"

lemma issue_kept_refl [simp]: "issue_kept i i"
  by (simp add: issue_kept_def)

lemma issue_kept_trans: "issue_kept i j \<Longrightarrow> issue_kept j k \<Longrightarrow> issue_kept i k"
  by (auto simp: issue_kept_def intro: prefix_order.trans)

lemma result_kept_refl [simp]: "result_kept r r"
  by (simp add: result_kept_def list.rel_refl)

lemma result_kept_trans: "result_kept r s \<Longrightarrow> result_kept s t \<Longrightarrow> result_kept r t"
  by (auto simp: result_kept_def intro: list_all2_trans [OF issue_kept_trans])

lemma results_kept_refl [simp]: "results_kept rs rs"
  by (auto simp: results_kept_def intro!: list.rel_refl option.rel_refl)

lemma results_kept_trans:
  assumes "results_kept rs ss" "results_kept ss ts"
  shows "results_kept rs ts"
  unfolding results_kept_def
  by (rule list_all2_trans [OF _ assms [unfolded results_kept_def]])
    (auto simp: option_rel_Some1 option_rel_Some2 elim!: option.rel_cases intro: result_kept_trans)

lemma results_kept_names: "results_kept rs ss \<Longrightarrow> map fst ss = map fst rs"
  unfolding results_kept_def by (induction rs ss rule: list_all2_induct) auto

lemma results_kept_map_of:
  "results_kept rs ss \<Longrightarrow> rel_option (rel_option result_kept) (map_of rs n) (map_of ss n)"
  unfolding results_kept_def by (induction rs ss rule: list_all2_induct) auto

lemma enhance_issue_kept:
  assumes "iss_Severity i \<noteq> SeverityInfo"
  shows "issue_kept i (fst (enhance_issue s i meta next))"
  using assms sublist_appendI [of "''AI Analysis: ''" "iss_Suggestion i @ [CHR 0x0A, CHR 0x0A]" "es_Suggestion s"]
    sublist_appendI [of "''AI Analysis: ''" "[]" "es_Suggestion s"]
  by (auto simp: issue_kept_def enhance_issue_def advised_suggestion_def Let_def str_contains_iff split: option.splits)

lemma set_issue_kept:
  assumes "go_index (cr_Issues r) k = Some i" "issue_kept i j"
  shows "result_kept r (set_issue k j r)"
proof -
  have k: "0 \<le> k" "nat k < length (cr_Issues r)" "cr_Issues r ! nat k = i"
    using assms(1) by (auto simp: go_index_def split: if_splits)
  have "list_all2 issue_kept (cr_Issues r) ((cr_Issues r)[nat k := j])"
    using k assms(2) by (auto simp: list_all2_conv_all_nth nth_list_update)
  then show ?thesis by (simp add: result_kept_def set_issue_def)
qed

lemma map_of_update_result:
  "map_of (update_result n f rs) k = (if k = n then map_option (map_option f) (map_of rs k) else map_of rs k)"
  by (induction rs) (auto simp: update_result_def)

lemma update_result_kept:
  assumes "distinct (map fst rs)" "map_of rs n = Some (Some r)" "result_kept r (f r)"
  shows "results_kept rs (update_result n f rs)"
  unfolding results_kept_def update_result_def list_all2_map2
proof (rule list.rel_refl_strong)
  fix x assume x: "x \<in> set rs"
  show "(\<lambda>(n, ro) (n', ro'). n = n' \<and> rel_option result_kept ro ro') x
          ((\<lambda>(m, ro). (m, if m = n then map_option f ro else ro)) x)"
  proof (cases "fst x = n")
    case True
    then have "snd x = Some r" using assms(1,2) x by (metis map_of_eq_Some_iff option.inject prod.collapse)
    then show ?thesis using True assms(3) by (cases x) simp
  next
    case False
    then show ?thesis by (cases x) (auto intro: option.rel_refl)
  qed
qed

text \<open>A reference is good while it points at an issue that is not informational.\<close>

definition good_ref :: "(string \<times> 'm CheckResult option) list \<Rightarrow> issueRef \<Rightarrow> bool" where
  "good_ref rs ref \<longleftrightarrow> pred_option (\<lambda>i. iss_Severity i \<noteq> SeverityInfo) (issue_at rs ref) \<and> issue_at rs ref \<noteq> None"

lemma good_ref_Some: "good_ref rs ref \<longleftrightarrow> (\<exists>i. issue_at rs ref = Some i \<and> iss_Severity i \<noteq> SeverityInfo)"
  by (auto simp: good_ref_def)

lemma issue_at_kept:
  assumes "results_kept rs ss" "issue_at rs ref = Some i"
  shows "\<exists>j. issue_at ss ref = Some j \<and> issue_kept i j"
proof -
  obtain r where r: "map_of rs (rf_checkerName ref) = Some (Some r)" "go_index (cr_Issues r) (rf_issueIdx ref) = Some i"
    using assms(2) by (auto simp: issue_at_def split: option.splits)
  obtain s where s: "map_of ss (rf_checkerName ref) = Some (Some s)" "result_kept r s"
    using results_kept_map_of [OF assms(1), of "rf_checkerName ref"] r(1) by (auto simp: option_rel_Some1)
  then show ?thesis
    using r(2) s(2)
    by (auto simp: issue_at_def go_index_def result_kept_def list_all2_conv_all_nth split: if_splits)
qed

lemma good_ref_kept: "results_kept rs ss \<Longrightarrow> good_ref rs ref \<Longrightarrow> good_ref ss ref"
  by (fastforce simp: good_ref_Some issue_kept_def dest: issue_at_kept)

lemma apply_advice_ok:
  assumes "distinct (map fst (en_results st))" "good_ref (en_results st) ref"
  shows "\<exists>st'. apply_advice s ref st = Some st' \<and> results_kept (en_results st) (en_results st')"
proof -
  obtain i where i: "issue_at (en_results st) ref = Some i" "iss_Severity i \<noteq> SeverityInfo"
    using assms(2) by (auto simp: good_ref_Some)
  then obtain r where r: "map_of (en_results st) (rf_checkerName ref) = Some (Some r)"
      "go_index (cr_Issues r) (rf_issueIdx ref) = Some i"
    by (auto simp: issue_at_def split: option.splits)
  obtain j m n where e: "enhance_issue s i (en_meta st) (en_next st) = (j, m, n)" by (metis prod_cases3)
  have "issue_kept i j" using enhance_issue_kept [OF i(2), of s "en_meta st" "en_next st"] e by simp
  then show ?thesis
    using update_result_kept [OF assms(1) r(1), of "set_issue (rf_issueIdx ref) j"] set_issue_kept [OF r(2)]
    by (simp add: apply_advice_def i(1) e)
qed

lemma apply_all_ok:
  assumes "distinct (map fst (en_results st))" "\<forall>ref \<in> set refs. good_ref (en_results st) ref"
  shows "\<exists>st'. apply_all s refs st = Some st' \<and> results_kept (en_results st) (en_results st')"
  using assms
proof (induction refs arbitrary: st)
  case (Cons ref refs)
  obtain st1 where st1: "apply_advice s ref st = Some st1" "results_kept (en_results st) (en_results st1)"
    using apply_advice_ok Cons.prems by fastforce
  have "\<exists>st'. apply_all s refs st1 = Some st' \<and> results_kept (en_results st1) (en_results st')"
    using Cons.prems st1(2) by (intro Cons.IH) (auto simp: results_kept_names intro: good_ref_kept)
  then show ?case using st1 by (auto intro: results_kept_trans)
qed simp

lemma fan_out_ok:
  assumes "distinct (map fst (en_results st))" "\<forall>(k, refs) \<in> set gs. \<forall>ref \<in> set refs. good_ref (en_results st) ref"
  shows "\<exists>n' st'. fan_out ctx resp gs n st = Some (n', st') \<and> results_kept (en_results st) (en_results st') \<and>
           n \<le> n' \<and> n' \<le> n + (\<Sum>(k, refs) \<leftarrow> gs. int (length refs))"
  using assms
proof (induction gs arbitrary: n st)
  case (Cons g gs)
  obtain k refs where g: "g = (k, refs)" by (cases g)
  have skip: ?case if "fan_out ctx resp (g # gs) n st = fan_out ctx resp gs n st"
    using Cons.IH [of st n] Cons.prems that by (fastforce simp: g)
  show ?case
  proof (cases "rs_EnhancedSuggestions resp (issue_key k)")
    case None
    then show ?thesis by (intro skip) (simp add: g)
  next
    case (Some s)
    show ?thesis
    proof (cases "useful ctx s")
      case False
      then show ?thesis using Some by (intro skip) (simp add: g)
    next
      case True
      obtain st1 where st1: "apply_all s refs st = Some st1" "results_kept (en_results st) (en_results st1)"
        using apply_all_ok [OF Cons.prems(1), of refs s] Cons.prems(2) by (auto simp: g)
      have "\<forall>(k, refs) \<in> set gs. \<forall>ref \<in> set refs. good_ref (en_results st1) ref"
      proof clarify
        fix k' refs' ref assume "(k', refs') \<in> set gs" "ref \<in> set refs'"
        then have "good_ref (en_results st) ref" using Cons.prems(2) by auto
        then show "good_ref (en_results st1) ref" by (rule good_ref_kept [OF st1(2)])
      qed
      then have "\<exists>n' st'. fan_out ctx resp gs (n + int (length refs)) st1 = Some (n', st') \<and>
          results_kept (en_results st1) (en_results st') \<and> n + int (length refs) \<le> n' \<and>
          n' \<le> n + int (length refs) + (\<Sum>(k, refs) \<leftarrow> gs. int (length refs))"
        using Cons.prems(1) results_kept_names [OF st1(2)] by (intro Cons.IH) simp_all
      then obtain n' st' where "fan_out ctx resp gs (n + int (length refs)) st1 = Some (n', st')"
          "results_kept (en_results st1) (en_results st')" "n + int (length refs) \<le> n'"
          "n' \<le> n + int (length refs) + (\<Sum>(k, refs) \<leftarrow> gs. int (length refs))"
        by blast
      then show ?thesis using True Some st1 by (auto simp: g intro: results_kept_trans)
    qed
  qed
qed simp

section \<open>What is sent\<close>

lemma concat_map_default_append:
  "mset (concat (map snd (AList.map_default k [x] (\<lambda>ys. ys @ [x]) m))) = add_mset x (mset (concat (map snd m)))"
  by (induction m) auto

lemma mset_group_into: "mset (concat (map snd (group_into f m xs))) = mset (concat (map snd m)) + mset xs"
  by (induction xs arbitrary: m) (auto simp: concat_map_default_append)

lemma mset_dedup: "mset (concat (map snd (dedup_issues pairs))) = mset pairs"
  by (simp add: dedup_issues_def mset_group_into)

lemma mset_sent_groups: "mset (concat (sent_groups ctx pairs)) = mset (cap_issues (max_issues ctx) pairs)"
  by (simp add: sent_groups_def mset_dedup)

lemma max_issues_pos: "0 < max_issues ctx"
  by (simp add: max_issues_def defaultMaxAIIssues_def)

lemma length_cap_issues: "0 \<le> n \<Longrightarrow> int (length (cap_issues n pairs)) = min (int (length pairs)) n"
  by (auto simp: cap_issues_def min_def)

lemma set_cap_issues: "set (cap_issues n pairs) \<subseteq> set pairs"
  using set_take_subset [of "nat n" "sort_key (\<lambda>p. severityRank (ic_Severity (fst p))) pairs"]
  by (auto simp: cap_issues_def)

lemma length_concat_mset: "mset (concat xss) = mset ys \<Longrightarrow> (\<Sum>xs \<leftarrow> xss. int (length xs)) = int (length ys)"
proof -
  have "(\<Sum>xs \<leftarrow> xss. int (length xs)) = int (length (concat xss))" by (induction xss) simp_all
  then show "mset (concat xss) = mset ys \<Longrightarrow> ?thesis" by (metis size_mset)
qed

lemma sum_enumerate_snd: "(\<Sum>(k, x) \<leftarrow> enumerate n xs. f x) = (\<Sum>x \<leftarrow> xs. f x)" for f :: "'a \<Rightarrow> int"
  by (induction xs arbitrary: n) simp_all

lemma cap_most_severe:
  "\<exists>dropped. mset (cap_issues n pairs) + mset dropped = mset pairs \<and>
     (\<forall>p \<in> set (cap_issues n pairs). \<forall>q \<in> set dropped. severityRank (ic_Severity (fst p)) \<le> severityRank (ic_Severity (fst q)))"
proof (cases "int (length pairs) > n")
  case True
  let ?r = "\<lambda>p. severityRank (ic_Severity (fst p))"
  let ?s = "sort_key ?r pairs"
  have "sorted (map ?r (take (nat n) ?s @ drop (nat n) ?s))" unfolding append_take_drop_id by simp
  then have "\<forall>p \<in> set (take (nat n) ?s). \<forall>q \<in> set (drop (nat n) ?s). ?r p \<le> ?r q"
    unfolding map_append sorted_append by simp
  moreover have "mset (take (nat n) ?s) + mset (drop (nat n) ?s) = mset pairs"
    by (metis append_take_drop_id mset_append mset_sort)
  ultimately show ?thesis using True by (auto simp: cap_issues_def)
qed (auto simp: cap_issues_def intro: exI [of _ "[]"])

lemma sent_group_signature:
  assumes "g \<in> set (sent_groups ctx pairs)"
  shows "g \<noteq> []" and "\<exists>k. g = filter (\<lambda>p. context_signature (fst p) = k) (cap_issues (max_issues ctx) pairs)"
proof -
  obtain k where "(k, g) \<in> set (group_by (\<lambda>p. context_signature (fst p)) (cap_issues (max_issues ctx) pairs))"
    using assms by (auto simp: sent_groups_def dedup_issues_def)
  from group_by_mem [OF this]
  show "g \<noteq> []" "\<exists>k. g = filter (\<lambda>p. context_signature (fst p) = k) (cap_issues (max_issues ctx) pairs)" by blast+
qed

lemma sent_signatures_distinct: "distinct (map (\<lambda>g. context_signature (fst (hd g))) (sent_groups ctx pairs))"
proof -
  let ?m = "dedup_issues (cap_issues (max_issues ctx) pairs)"
  have "context_signature (fst (hd ys)) = k" if "(k, ys) \<in> set ?m" for k ys
  proof -
    note ys = group_by_mem [OF that [unfolded dedup_issues_def]]
    have "hd ys \<in> set ys" using ys(2) by simp
    then show ?thesis by (subst (asm) (2) ys(1)) simp
  qed
  then have "map (\<lambda>g. context_signature (fst (hd g))) (map snd ?m) = map fst ?m"
    unfolding map_map by (intro map_cong) auto
  then show ?thesis
    unfolding sent_groups_def by (simp only: dedup_issues_def distinct_group_into list.map distinct.simps)
qed

section \<open>The whole call\<close>

lemma those_all_Some:
  "(\<And>x. x \<in> set xs \<Longrightarrow> f x \<noteq> None) \<Longrightarrow> those (map f xs) = Some (map (the \<circ> f) xs)"
  by (rule those_map_Some) simp

lemma collect_result_good:
  assumes "map_of rs name = Some (Some r)" "(ic, ref) \<in> set (collect_result name r)"
  shows "good_ref rs ref"
  using assms by (auto simp: collect_result_def good_ref_Some issue_at_def go_index_def in_set_enumerate_eq)

lemma collect_good:
  assumes "list_all (\<lambda>(n, ro). ro \<noteq> None) rs"
  shows "\<exists>pairs k. collectIssuesForAI rs = Some (pairs, k) \<and> (\<forall>(ic, ref) \<in> set pairs. good_ref rs ref)"
proof -
  let ?part = "\<lambda>name. case map_of rs name of
      Some (Some r) \<Rightarrow>
        Some (if cr_Error r \<noteq> None then ([], 0)
          else (collect_result name r, int (length (filter (\<lambda>i. iss_Severity i = SeverityInfo) (cr_Issues r)))))
    | _ \<Rightarrow> None"
  have r: "\<exists>r. map_of rs name = Some (Some r)" if name: "name \<in> fst ` set rs" for name
  proof -
    obtain ro where ro: "map_of rs name = Some ro"
      using name by (cases "map_of rs name") (simp_all add: map_of_eq_None_iff)
    then have "ro \<noteq> None" using assms map_of_SomeD [OF ro] by (fastforce simp: list_all_iff)
    then show ?thesis using ro by auto
  qed
  have some: "those (map ?part (sort (map fst rs))) = Some (map (the \<circ> ?part) (sort (map fst rs)))"
  proof (rule those_all_Some)
    fix name assume "name \<in> set (sort (map fst rs))"
    then obtain q where "map_of rs name = Some (Some q)" using r [of name] by auto
    then show "?part name \<noteq> None" by simp
  qed
  have "good_ref rs ref" if name: "name \<in> fst ` set rs" and p: "(ic, ref) \<in> set (fst (the (?part name)))" for name ic ref
  proof -
    obtain q where q: "map_of rs name = Some (Some q)" using r [OF name] by blast
    then show ?thesis using p collect_result_good [OF q] by (simp split: if_splits)
  qed
  then have "\<forall>(ic, ref) \<in> set (concat (map fst (map (the \<circ> ?part) (sort (map fst rs))))). good_ref rs ref"
    unfolding set_concat set_map set_sort image_image by (intro ballI) (auto simp only: UN_iff comp_def)
  then show ?thesis unfolding collectIssuesForAI_def some by simp
qed

lemma enhance_all_kept:
  assumes "distinct (map fst (en_results st))"
    and "list_all (\<lambda>(n, ro). ro \<noteq> None) (en_results st)"
    and "(\<forall>req. ec_analyze ctx req \<noteq> Inr None) \<or> EnhanceAllWithAI ctx st \<noteq> None"
  shows "\<exists>out st'. EnhanceAllWithAI ctx st = Some (out, st') \<and> results_kept (en_results st) (en_results st') \<and>
    0 \<le> eo_enhanced out \<and> eo_enhanced out \<le> min (eo_total out) (max_issues ctx)"
proof -
  obtain pairs k where c: "collectIssuesForAI (en_results st) = Some (pairs, k)"
      "\<forall>(ic, ref) \<in> set pairs. good_ref (en_results st) ref"
    using collect_good [OF assms(2)] by blast
  let ?gs = "enumerate 0 (map (map snd) (sent_groups ctx pairs))"
  have pos: "0 \<le> min (int (length pairs)) (max_issues ctx)" using max_issues_pos [of ctx] by simp
  have "set g \<subseteq> set pairs" if "g \<in> set (sent_groups ctx pairs)" for g
    using that mset_sent_groups [of ctx pairs, THEN arg_cong [where f = set_mset]] set_cap_issues by fastforce
  then have good: "\<forall>(k, refs) \<in> set ?gs. \<forall>ref \<in> set refs. good_ref (en_results st) ref"
    using c(2) by (fastforce dest!: in_set_enumerate_eq [THEN iffD1] simp: set_conv_nth [of "sent_groups ctx pairs"])
  have len: "(\<Sum>(k, refs) \<leftarrow> ?gs. int (length refs)) = min (int (length pairs)) (max_issues ctx)"
    using length_concat_mset [OF mset_sent_groups [of ctx pairs]] length_cap_issues [of "max_issues ctx" pairs] max_issues_pos [of ctx]
    by (simp add: sum_enumerate_snd comp_def)
  show ?thesis
  proof (cases "ec_analyze ctx (analysis_request ctx (map (fst \<circ> hd) (sent_groups ctx pairs)))")
    case (Inr ro)
    show ?thesis
    proof (cases ro)
      case None
      then have "ec_analyze ctx (analysis_request ctx (map (fst \<circ> hd) (sent_groups ctx pairs))) = Inr None" using Inr by simp
      then have "EnhanceAllWithAI ctx st \<noteq> None" using assms(3) by blast
      then show ?thesis using pos by (auto simp: EnhanceAllWithAI_def c(1) Inr None nothing_sent_def split: if_splits)
    next
      case (Some resp)
      then show ?thesis
        using fan_out_ok [OF assms(1) good, of ctx resp 0] pos unfolding len
        by (auto simp: EnhanceAllWithAI_def c(1) Inr nothing_sent_def)
    qed
  qed (use pos in \<open>auto simp: EnhanceAllWithAI_def c(1) nothing_sent_def\<close>)
qed

text \<open>C17. Enhancing all the results in one call never loses or rewrites a finding: when the keys are
  distinct, no result is nil and the provider returns a response or an error, the call succeeds; every
  checker keeps its name, health count and error, every issue its type, severity, resource, namespace and
  message; a suggestion only grows at its end, by marked text; of an informational issue every field is untouched, the
  address of its metadata map included (the map itself may get a root cause, where another issue that is advised has the same
  map); and the number of issues reported as enhanced is between zero and the smaller of the number found and the cap.\<close>

theorem enhance_all_respects_issues:
  assumes "distinct (map fst (en_results st))"
    and "list_all (\<lambda>(n, ro). ro \<noteq> None) (en_results st)"
    and "\<And>req. ec_analyze ctx req \<noteq> Inr None"
  shows "\<exists>out st'. EnhanceAllWithAI ctx st = Some (out, st') \<and> results_kept (en_results st) (en_results st') \<and>
    0 \<le> eo_enhanced out \<and> eo_enhanced out \<le> min (eo_total out) (max_issues ctx)"
  using enhance_all_kept [OF assms(1,2)] assms(3) by blast

definition enh_issue :: "string \<Rightarrow> string \<Rightarrow> stored_issue" where
  "enh_issue sev msg = \<lparr>iss_Type = ''BestPractice'', iss_Severity = sev, iss_Resource = ''deployment/web'',
     iss_Namespace = ''shop'', iss_Message = msg, iss_Suggestion = [], iss_Metadata = Some 0\<rparr>"

definition enh_state :: enhancement where
  "enh_state = \<lparr>en_results = [(''workloads'', Some ((no_result ''workloads'')\<lparr>cr_Issues :=
      [enh_issue SeverityWarning ''no limits'', enh_issue SeverityWarning ''no probes'', enh_issue SeverityInfo ''no tag'']\<rparr>))],
     en_meta = [0 \<mapsto> [''container'' \<mapsto> ''app'']], en_next = 1\<rparr>"

definition enh_advice :: EnhancedSuggestion where
  "enh_advice = \<lparr>es_Suggestion = ''set limits'', es_RootCause = ''memory pressure'', es_Steps = [], es_References = [], es_Confidence = 9 / 10\<rparr>"

definition enh_ctx :: enhance_context where
  "enh_ctx = \<lparr>ec_enabled = True, ec_available = Some True,
     ec_analyze = (\<lambda>_. Inr (Some \<lparr>rs_EnhancedSuggestions = [issue_key 0 \<mapsto> enh_advice], rs_CausalInsights = [], rs_Summary = [],
       rs_RawContent = [], rs_TokensUsed = 40, rs_Truncated = False, rs_ParseFailed = False\<rparr>)),
     ec_enrich = None, ec_cluster = \<lparr>cl_KubernetesVersion = [], cl_Provider = [], cl_FluxVersion = [], cl_Namespaces = []\<rparr>,
     ec_causal = None, ec_maxIssues = 0, ec_minConfidence = 1 / 2\<rparr>"

lemma enhance_all_respects_issues_witness:
  "\<exists>out st'. EnhanceAllWithAI enh_ctx enh_state = Some (out, st') \<and> results_kept (en_results enh_state) (en_results st') \<and>
    0 \<le> eo_enhanced out \<and> eo_enhanced out \<le> min (eo_total out) (max_issues enh_ctx)"
  by (rule enhance_all_respects_issues) (simp_all add: enh_state_def enh_ctx_def)

text \<open>What one call sends: the issues kept by the cap are as many as fit, none of them is less severe
  than one that was dropped, and they are grouped so that each group is non-empty, shares one signature and no
  two groups have the same one. So each distinct signature among the kept issues is sent exactly once.\<close>

theorem sent_groups_prioritised:
  "\<exists>dropped. mset (concat (sent_groups ctx pairs)) + mset dropped = mset pairs \<and>
     int (length (concat (sent_groups ctx pairs))) = min (int (length pairs)) (max_issues ctx) \<and>
     list_all (\<lambda>p. list_all (\<lambda>q. severityRank (ic_Severity (fst p)) \<le> severityRank (ic_Severity (fst q))) dropped)
       (concat (sent_groups ctx pairs)) \<and>
     distinct (map (\<lambda>g. context_signature (fst (hd g))) (sent_groups ctx pairs)) \<and>
     list_all (\<lambda>g. g \<noteq> [] \<and> list_all (\<lambda>p. context_signature (fst p) = context_signature (fst (hd g))) g) (sent_groups ctx pairs)"
proof -
  let ?c = "cap_issues (max_issues ctx) pairs"
  have s: "set (concat (sent_groups ctx pairs)) = set ?c"
    using mset_sent_groups [of ctx pairs] by (metis set_mset_mset)
  have "length (concat (sent_groups ctx pairs)) = length ?c"
    using mset_sent_groups [of ctx pairs] by (metis size_mset)
  then have l: "int (length (concat (sent_groups ctx pairs))) = min (int (length pairs)) (max_issues ctx)"
    using length_cap_issues [of "max_issues ctx" pairs] max_issues_pos [of ctx] by simp
  have g: "g \<noteq> [] \<and> list_all (\<lambda>p. context_signature (fst p) = context_signature (fst (hd g))) g"
    if sent: "g \<in> set (sent_groups ctx pairs)" for g
  proof -
    obtain k where k: "g = filter (\<lambda>p. context_signature (fst p) = k) ?c" using sent_group_signature(2) [OF sent] by blast
    have k': "context_signature (fst p) = k" if "p \<in> set g" for p using that by (simp add: k)
    show ?thesis
      using sent_group_signature(1) [OF sent] k' by (simp add: list_all_iff)
  qed
  obtain dropped where "mset ?c + mset dropped = mset pairs"
      "\<forall>p \<in> set ?c. \<forall>q \<in> set dropped. severityRank (ic_Severity (fst p)) \<le> severityRank (ic_Severity (fst q))"
    using cap_most_severe by blast
  then show ?thesis
    using g l sent_signatures_distinct [of ctx pairs] unfolding list_all_iff s mset_sent_groups by blast
qed

text \<open>The signature that groups issues leaves the namespace out, so issues of different tenants with one
  message share the advice given for the first.\<close>

lemma dedup_ignores_namespace: "context_signature (ic\<lparr>ic_Namespace := ns\<rparr>) = context_signature ic"
  by (simp add: context_signature_def)

text \<open>Advice written through one issue is read through every issue that shares its metadata map: in
  \<open>enh_state\<close> only the first issue is advised, yet the root cause shows at the map of all three.\<close>

lemma root_cause_leaks_through_shared_metadata:
  assumes "issue_at (en_results st) ref = Some i" "iss_Metadata i = Some a" "es_RootCause s \<noteq> []"
    and "apply_advice s ref st = Some st'"
  shows "\<exists>m. en_meta st' a = Some m \<and> m ''aiRootCause'' = Some (es_RootCause s)"
  using assms by (auto simp: apply_advice_def enhance_issue_def Let_def)

lemmas enh_defs = enh_ctx_def enh_state_def enh_issue_def enh_advice_def

lemma informational_issue_gets_root_cause:
  "(case EnhanceWithAI enh_ctx (the (the (map_of (en_results enh_state) ''workloads''))) (en_meta enh_state) 1 of
      Some (None, r, meta, _) \<Rightarrow> cr_Issues r ! 2 = enh_issue SeverityInfo ''no tag'' \<and>
         the (meta 0) ''aiRootCause'' = Some ''memory pressure''
    | _ \<Rightarrow> False)"
  by (simp add: EnhanceWithAI_def enh_defs ai_ready_def advice_for_def useful_def min_confidence_def
      enhance_issue_def Let_def issue_key_def itoa_def digits_of.simps
      SeverityInfo_def SeverityWarning_def no_result_def)

end
