(* ===== verification/Health_History.thy ===== *)
theory Health_History
  imports Float64 Checker_Core
begin

text \<open>
  The health history (\<open>internal/history/ringbuffer.go\<close>): a ring buffer of snapshots and the health
  score. Reads of the buffer go through \<open>go_index\<close>, so an index out of range is \<open>None\<close>; the
  refinement below shows that none ever is, save for a negative argument of \<open>Last\<close>.
\<close>

section \<open>The buffer\<close>

record HealthSnapshot =
  sn_Timestamp :: time
  sn_TotalHealthy :: int
  sn_TotalIssues :: int
  sn_BySeverity :: "string \<rightharpoonup> int"
  sn_ByChecker :: "string \<rightharpoonup> int"
  sn_HealthScore :: f64

definition zero_snapshot :: HealthSnapshot where
  "zero_snapshot = \<lparr>sn_Timestamp = zero_time, sn_TotalHealthy = 0, sn_TotalIssues = 0,
     sn_BySeverity = Map.empty, sn_ByChecker = Map.empty, sn_HealthScore = 0\<rparr>"

record RingBuffer =
  rb_buf :: "HealthSnapshot list"
  rb_capacity :: int
  rb_head :: int
  rb_count :: int

definition history_New :: "int \<Rightarrow> RingBuffer" where
  "history_New capacity =
     (let c = (if capacity < 1 then 1 else capacity)
      in \<lparr>rb_buf = replicate (nat c) zero_snapshot, rb_capacity = c, rb_head = 0, rb_count = 0\<rparr>)"

definition history_Add :: "HealthSnapshot \<Rightarrow> RingBuffer \<Rightarrow> RingBuffer option" where
  "history_Add s rb =
     (case go_index (rb_buf rb) (rb_head rb) of
        None \<Rightarrow> None
      | Some _ \<Rightarrow> Some (rb\<lparr>
          rb_buf := (rb_buf rb)[nat (rb_head rb) := s],
          rb_head := go_rem (rb_head rb + 1) (rb_capacity rb),
          rb_count := (if rb_count rb < rb_capacity rb then rb_count rb + 1 else rb_count rb)\<rparr>))"

text \<open>\<open>Latest\<close>: the snapshot and whether there is one.\<close>

definition history_Latest :: "RingBuffer \<Rightarrow> (HealthSnapshot \<times> bool) option" where
  "history_Latest rb =
     (if rb_count rb = 0 then Some (zero_snapshot, False)
      else map_option (\<lambda>s. (s, True))
        (go_index (rb_buf rb) (go_rem (rb_head rb - 1 + rb_capacity rb) (rb_capacity rb))))"

definition read_from :: "RingBuffer \<Rightarrow> int \<Rightarrow> int \<Rightarrow> HealthSnapshot list option" where
  "read_from rb start n =
     those (map (\<lambda>i. go_index (rb_buf rb) (go_rem (start + int i) (rb_capacity rb))) [0..<nat n])"

text \<open>\<open>Last\<close>: a negative length makes \<open>make\<close> panic.\<close>

definition history_Last :: "int \<Rightarrow> RingBuffer \<Rightarrow> HealthSnapshot list option" where
  "history_Last n rb =
     (let n' = (if n > rb_count rb then rb_count rb else n) in
      if n' = 0 then Some []
      else if n' < 0 then None
      else read_from rb (go_rem (rb_head rb - n' + rb_capacity rb) (rb_capacity rb)) n')"

definition history_Since :: "time \<Rightarrow> RingBuffer \<Rightarrow> HealthSnapshot list option" where
  "history_Since t rb =
     (if rb_count rb = 0 then Some []
      else map_option (filter (\<lambda>s. \<not> sn_Timestamp s < t))
        (read_from rb (go_rem (rb_head rb - rb_count rb + rb_capacity rb) (rb_capacity rb)) (rb_count rb)))"

definition history_Len :: "RingBuffer \<Rightarrow> int" where
  "history_Len rb = rb_count rb"

definition ComputeScore :: "int \<Rightarrow> int \<Rightarrow> f64" where
  "ComputeScore healthy issues =
     (let total = wrap64 (healthy + issues) in
      if total = 0 then 100 else fmul (fdiv (float64 healthy) (float64 total)) 100)"

section \<open>The buffer as the list of its latest snapshots\<close>

fun add_all :: "HealthSnapshot list \<Rightarrow> RingBuffer \<Rightarrow> RingBuffer option" where
  "add_all [] rb = Some rb"
| "add_all (s # ss) rb = (case history_Add s rb of None \<Rightarrow> None | Some rb' \<Rightarrow> add_all ss rb')"

text \<open>\<open>xs\<close> are the live snapshots, oldest first: \<open>xs ! i\<close> lies \<open>count - i\<close> cells behind the head.\<close>

definition ring_holds :: "RingBuffer \<Rightarrow> HealthSnapshot list \<Rightarrow> bool" where
  "ring_holds rb xs \<longleftrightarrow> 0 < rb_capacity rb \<and> int (length (rb_buf rb)) = rb_capacity rb \<and>
     0 \<le> rb_head rb \<and> rb_head rb < rb_capacity rb \<and> rb_count rb = int (length xs) \<and>
     int (length xs) \<le> rb_capacity rb \<and>
     (\<forall>i < length xs. rb_buf rb ! nat ((rb_head rb - int (length xs) + int i) mod rb_capacity rb) = xs ! i)"

lemma ring_holds_new: "ring_holds (history_New capacity) []"
  by (simp add: ring_holds_def history_New_def)

lemma mod_cell_distinct:
  assumes "0 \<le> h" "h < c" "0 < d" "d < c"
  shows "(h - d) mod c \<noteq> (h :: int)"
proof
  assume "(h - d) mod c = h"
  then have "(h - d) mod c = h mod c" using assms by simp
  then have "c dvd (h - d) - h" by (simp add: mod_eq_dvd_iff)
  then show False using assms by (auto dest: zdvd_imp_le)
qed

lemma ring_holds_add:
  assumes "ring_holds rb xs"
  obtains rb' where "history_Add s rb = Some rb'" "ring_holds rb' (last_n (nat (rb_capacity rb)) (xs @ [s]))"
    "rb_capacity rb' = rb_capacity rb"
proof -
  let ?c = "rb_capacity rb" and ?h = "rb_head rb" and ?n = "length xs"
  note h = assms [unfolded ring_holds_def]
  define rb' where "rb' = rb\<lparr>rb_buf := (rb_buf rb)[nat ?h := s], rb_head := (?h + 1) mod ?c,
    rb_count := (if rb_count rb < ?c then rb_count rb + 1 else rb_count rb)\<rparr>"
  have add: "history_Add s rb = Some rb'"
    using h by (simp add: history_Add_def go_index_def rb'_def)
  have cell: "rb_buf rb' ! nat ((?h - int d) mod ?c) = rb_buf rb ! nat ((?h - int d) mod ?c)"
    if "0 < d" "int d < ?c" for d
  proof -
    have "0 \<le> (?h - int d) mod ?c" using h by simp
    with mod_cell_distinct [of ?h ?c "int d"] h that have "nat ((?h - int d) mod ?c) \<noteq> nat ?h"
      using eq_nat_nat_iff [of "(?h - int d) mod ?c" ?h] by simp
    then show ?thesis by (simp add: rb'_def)
  qed
  have here: "rb_buf rb' ! nat (?h mod ?c) = s" using h by (simp add: rb'_def nat_less_iff)
  have shift: "((?h + 1) mod ?c - int m + int i) mod ?c = (?h - (int m - 1 - int i)) mod ?c" for m i
    using mod_add_left_eq [of "?h + 1" ?c "int i - int m"] by (simp add: algebra_simps)
  let ?xs' = "last_n (nat ?c) (xs @ [s])"
  note [simp del] = length_last_n
  have "ring_holds rb' ?xs'"
  proof (cases "int ?n < ?c")
    case True
    then have xs': "?xs' = xs @ [s]" by (simp add: last_n_def)
    have "rb_buf rb' ! nat ((rb_head rb' - int (length ?xs') + int i) mod ?c) = ?xs' ! i" if i: "i < length ?xs'" for i
    proof (cases "i = ?n")
      case False
      with i xs' have i: "i < ?n" by simp
      have "rb_head rb' = (?h + 1) mod ?c" by (simp add: rb'_def)
      then have "(rb_head rb' - int (length ?xs') + int i) mod ?c = (?h - int (?n - i)) mod ?c"
        using shift [of "length ?xs'" i] i by (simp add: xs' of_nat_diff algebra_simps)
      moreover have "(?h - int (?n - i)) mod ?c = (?h - int ?n + int i) mod ?c"
        using i by (simp add: of_nat_diff algebra_simps)
      ultimately show ?thesis
        using cell [of "?n - i"] i True h xs' by (simp add: nth_append)
    next
      case True
      have "rb_head rb' = (?h + 1) mod ?c" by (simp add: rb'_def)
      with True shift [of "length ?xs'" i] have "(rb_head rb' - int (length ?xs') + int i) mod ?c = ?h mod ?c"
        by (simp add: xs')
      with here True show ?thesis by (simp add: xs')
    qed
    with True h xs' show ?thesis by (simp add: ring_holds_def rb'_def)
  next
    case False
    with h have n: "int ?n = ?c" by simp
    then have ne: "0 < ?n" using h by linarith
    have "nat ?c = ?n" using n by linarith
    then have xs': "?xs' = tl xs @ [s]" using ne by (cases xs) (simp_all add: last_n_def)
    then have len: "length ?xs' = ?n" using ne by simp
    have "rb_buf rb' ! nat ((rb_head rb' - int (length ?xs') + int i) mod ?c) = ?xs' ! i" if i: "i < ?n" for i
    proof -
      have hd: "rb_head rb' = (?h + 1) mod ?c" by (simp add: rb'_def)
      show ?thesis
      proof (cases "Suc i = ?n")
        case False
        with i have i': "Suc i < ?n" by simp
        have "(rb_head rb' - int (length ?xs') + int i) mod ?c = (?h - int (?n - Suc i)) mod ?c"
          using shift [of "length ?xs'" i] i' by (simp add: hd len of_nat_diff algebra_simps)
        moreover have "(?h - int (?n - Suc i)) mod ?c = (?h - int ?n + int (Suc i)) mod ?c"
          using i' by (simp add: of_nat_diff algebra_simps)
        moreover have "rb_buf rb ! nat ((?h - int ?n + int (Suc i)) mod ?c) = xs ! Suc i" using h i' by blast
        ultimately show ?thesis
          using cell [of "?n - Suc i"] i' n xs' by (simp add: nth_append nth_tl)
      next
        case True
        then have "int ?n - 1 - int i = 0" by linarith
        then have "(rb_head rb' - int (length ?xs') + int i) mod ?c = ?h mod ?c"
          using shift [of "length ?xs'" i] by (simp add: hd len)
        with here True xs' show ?thesis by (simp add: nth_append)
      qed
    qed
    with n h len show ?thesis by (simp add: ring_holds_def rb'_def)
  qed
  with add that show thesis by (simp add: rb'_def)
qed

lemma last_n_append: "last_n c (last_n c xs @ ys) = last_n c (xs @ ys)"
  by (cases "c \<le> length xs") (simp_all add: last_n_def add.commute)

lemma add_all_holds:
  assumes "ring_holds rb xs" "length xs \<le> nat (rb_capacity rb)"
  shows "\<exists>rb'. add_all ss rb = Some rb' \<and> ring_holds rb' (last_n (nat (rb_capacity rb)) (xs @ ss))"
  using assms
proof (induction ss arbitrary: rb xs)
  case Nil
  then show ?case by (simp add: last_n_def)
next
  case (Cons s ss)
  from ring_holds_add [OF Cons.prems(1), of s] obtain rb1 where rb1: "history_Add s rb = Some rb1"
    "ring_holds rb1 (last_n (nat (rb_capacity rb)) (xs @ [s]))" "rb_capacity rb1 = rb_capacity rb"
    by metis
  with Cons.IH [OF rb1(2)] show ?case
    by (simp add: last_n_append)
qed

lemma read_from_holds:
  assumes "ring_holds rb xs" "n \<le> length xs"
  shows "read_from rb (go_rem (rb_head rb - int n + rb_capacity rb) (rb_capacity rb)) (int n) = Some (last_n n xs)"
proof -
  let ?c = "rb_capacity rb" and ?h = "rb_head rb"
  note h = assms(1) [unfolded ring_holds_def]
  have start: "go_rem (?h - int n + ?c) ?c = (?h - int n) mod ?c" using h assms(2) by simp
  have cell: "go_index (rb_buf rb) (go_rem ((?h - int n) mod ?c + int i) ?c) = Some (last_n n xs ! i)"
    if i: "i < n" for i
  proof -
    let ?j = "length xs - n + i"
    have j: "?j < length xs" using i assms(2) by simp
    have "go_rem ((?h - int n) mod ?c + int i) ?c = (?h - int (length xs) + int ?j) mod ?c"
      using h assms(2) by (simp add: mod_simps of_nat_diff algebra_simps)
    moreover have "rb_buf rb ! nat ((?h - int (length xs) + int ?j) mod ?c) = xs ! ?j" using h j by blast
    ultimately show ?thesis using h j assms(2) by (simp add: go_index_def last_n_def)
  qed
  have "map ((!) (last_n n xs)) [0..<n] = last_n n xs"
    using map_nth [of "last_n n xs"] assms(2) by simp
  with those_map_Some [of "[0..<n]" _ "(!) (last_n n xs)"] cell show ?thesis
    unfolding read_from_def start by simp
qed

lemma history_Last_holds:
  assumes "ring_holds rb xs"
  shows "history_Last n rb = (if n < 0 then None else Some (last_n (nat n) xs))"
proof -
  have c: "rb_count rb = int (length xs)" using assms by (simp add: ring_holds_def)
  consider "n < 0" | "n = 0" | "0 < n" "n \<le> int (length xs)" | "int (length xs) < n" by linarith
  then show ?thesis
  proof cases
    case 3
    with c read_from_holds [OF assms, of "nat n"] show ?thesis by (simp add: history_Last_def)
  next
    case 4
    then have "last_n (nat n) xs = last_n (length xs) xs" by (simp add: last_n_def)
    with 4 c read_from_holds [OF assms, of "length xs"] show ?thesis
      by (simp add: history_Last_def Let_def) (simp add: last_n_def)
  qed (use c in \<open>simp_all add: history_Last_def last_n_def\<close>)
qed

lemma history_Latest_holds:
  assumes "ring_holds rb xs"
  shows "history_Latest rb = Some (if xs = [] then (zero_snapshot, False) else (last xs, True))"
proof (cases "xs = []")
  case False
  have "rb_head rb - 1 + rb_capacity rb = rb_head rb - int 1 + rb_capacity rb" by simp
  moreover have "read_from rb (go_rem (rb_head rb - int 1 + rb_capacity rb) (rb_capacity rb)) (int 1) = Some (last_n 1 xs)"
    using read_from_holds [OF assms, of 1] False by (cases xs) simp_all
  moreover have "last_n 1 xs = [last xs]" using False by (cases xs rule: rev_cases) (auto simp: last_n_def)
  moreover have "0 < rb_capacity rb" "0 \<le> rb_head rb" using assms by (simp_all add: ring_holds_def)
  ultimately show ?thesis
    using assms False by (simp add: history_Latest_def read_from_def ring_holds_def split: option.splits)
qed (use assms in \<open>simp add: history_Latest_def ring_holds_def\<close>)

lemma history_Since_holds:
  assumes "ring_holds rb xs"
  shows "history_Since t rb = Some (filter (\<lambda>s. t \<le> sn_Timestamp s) xs)"
proof (cases "xs = []")
  case False
  have "rb_count rb = int (length xs)" using assms by (simp add: ring_holds_def)
  with read_from_holds [OF assms, of "length xs"] False show ?thesis
    by (simp add: history_Since_def last_n_def not_less)
qed (use assms in \<open>simp add: history_Since_def ring_holds_def\<close>)

section \<open>Properties\<close>

text \<open>The ring buffer is the list of the latest snapshots: whatever is added to a new buffer, no index
  goes out of range, and \<open>Len\<close>, \<open>Latest\<close>, \<open>Last\<close> and \<open>Since\<close> answer from the last
  \<open>max 1 capacity\<close> snapshots in the order they came; only \<open>Last\<close> with a negative number panics.\<close>

theorem history_refines_list:
  "let kept = last_n (nat (max 1 capacity)) ss in
   \<exists>rb. add_all ss (history_New capacity) = Some rb \<and>
     history_Len rb = int (length kept) \<and>
     history_Latest rb = Some (if kept = [] then (zero_snapshot, False) else (last kept, True)) \<and>
     history_Last n rb = (if n < 0 then None else Some (last_n (nat n) kept)) \<and>
     history_Since t rb = Some (filter (\<lambda>s. t \<le> sn_Timestamp s) kept)"
proof -
  have c: "nat (rb_capacity (history_New capacity)) = nat (max 1 capacity)"
    by (simp add: history_New_def max_def)
  from add_all_holds [OF ring_holds_new [of capacity], of ss] obtain rb where rb:
    "add_all ss (history_New capacity) = Some rb" "ring_holds rb (last_n (nat (max 1 capacity)) ss)"
    unfolding c by auto
  then show ?thesis
    by (auto simp: Let_def history_Len_def ring_holds_def history_Latest_holds [OF rb(2)] history_Last_holds [OF rb(2)]
        history_Since_holds [OF rb(2)])
qed

text \<open>The health score of counts that are not negative, and whose sum is an \<open>int\<close>, lies between 0
  and 100 after every rounding, and it is 100 when there is no issue.\<close>

theorem compute_score_range:
  assumes "0 \<le> healthy" "0 \<le> issues" "in_int64 (healthy + issues)"
  shows "0 \<le> ComputeScore healthy issues \<and> ComputeScore healthy issues \<le> 100 \<and>
    ComputeScore healthy 0 = 100"
proof -
  have score: "0 \<le> ComputeScore healthy i \<and> ComputeScore healthy i \<le> 100" if "0 \<le> i" "in_int64 (healthy + i)" for i
  proof (cases "healthy + i = 0")
    case False
    let ?h = "float64 healthy" and ?t = "float64 (healthy + i)"
    have "0 \<le> ?h" "?h \<le> ?t" using assms(1) that by (auto simp: float64_def intro: fl_nonneg fl_mono)
    then have "0 \<le> ?h / ?t" "?h / ?t \<le> 1" by (auto simp: divide_le_eq_1)
    then have q: "0 \<le> fl (?h / ?t) \<and> fl (?h / ?t) \<le> 1" by (rule fl_unit)
    then have "fl (fl (?h / ?t) * 100) \<le> fl 100" by (intro fl_mono) simp
    with q False that show ?thesis by (simp add: ComputeScore_def fdiv_def fmul_def fl_nonneg)
  qed (use that in \<open>simp add: ComputeScore_def\<close>)
  have "ComputeScore healthy 0 = 100"
  proof (cases "healthy = 0")
    case False
    have "in_int64 healthy" using assms by (simp add: in_int64_def)
    moreover have "1 \<le> float64 healthy" using False assms(1) fl_mono [of 1 "of_int healthy"] by (simp add: float64_def)
    ultimately show ?thesis using False by (simp add: ComputeScore_def fdiv_def fmul_def)
  qed (simp add: ComputeScore_def in_int64_def)
  with score [OF assms(2,3)] show ?thesis by simp
qed

theorem compute_score_range_witness:
  "ComputeScore 3 1 \<le> 100 \<and> 0 \<le> ComputeScore 3 1 \<and> ComputeScore 7 0 = 100"
  using compute_score_range [of 3 1] compute_score_range [of 7 0] by (simp add: in_int64_def)

end
