(* ===== verification/Resource_Checkers.thy ===== *)
theory Resource_Checkers
  imports Checker_Core Go_Text
begin

text \<open>
  The checkers of core resources (\<open>internal/checker/resource/\<close>): persistent volume claims, network
  policies, secrets and resource quotas. The records of Kubernetes objects hold the fields the code
  reads. PEM decoding and X.509 parsing (\<open>tls_lib\<close>) and the float of a quantity (\<open>q_float\<close>, as
  \<open>Quantity.AsApproximateFloat64\<close> gives it) come from outside. The local time zone is UTC.
\<close>

section \<open>Persistent volume claims (pvc.go)\<close>

record PVCCondition =
  pcond_Type :: string
  pcond_Status :: string

record PVC =
  pvc_Name :: string
  pvc_Namespace :: string
  pvc_Phase :: string
  pvc_Conditions :: "PVCCondition list"
  pvc_VolumeName :: string
  pvc_StorageClassName :: "string option"
  pvc_AccessModes :: "string list"
  pvc_Capacity :: "(string \<rightharpoonup> rat) option"

definition PVCCheckerName :: string where "PVCCheckerName = ''pvcs''"

definition getStorageClassName :: "PVC \<Rightarrow> string" where
  "getStorageClassName pvc = (case pvc_StorageClassName pvc of Some n \<Rightarrow> n | None \<Rightarrow> [])"

definition formatAccessModes :: "string list \<Rightarrow> string" where
  "formatAccessModes modes = (if modes = [] then [] else str_join '','' modes)"

definition pvc_ref :: "PVC \<Rightarrow> string" where
  "pvc_ref pvc = ''pvc/'' @ pvc_Name pvc"

text \<open>The message and suggestion of a pending claim, after the loop over its conditions.\<close>

definition pending_text :: "PVC \<Rightarrow> string \<times> string" where
  "pending_text pvc = fold
     (\<lambda>c ms. if pcond_Type c = ''Resizing''
        then (''PVC '' @ pvc_Name pvc @ '' is pending resize'',
              ''Wait for the resize operation to complete'')
        else ms)
     (pvc_Conditions pvc)
     (''PVC '' @ pvc_Name pvc @ '' is in Pending state'',
      (''Check if matching PersistentVolumes exist: kubectl get pv. Verify the StorageClass '' @
       ''exists and has a provisioner: kubectl get storageclass. Check events: kubectl '' @
       ''describe pvc '') @
      pvc_Name pvc @ '' -n '' @ pvc_Namespace pvc @
      ''. Common causes: no available PVs, StorageClass misconfiguration, or quota limits.'')"

definition pvc_phase_issues :: "PVC \<Rightarrow> issue list" where
  "pvc_phase_issues pvc =
     (if pvc_Phase pvc = ''Pending'' then
        [\<lparr>iss_Type = ''PVCPending'', iss_Severity = SeverityWarning, iss_Resource = pvc_ref pvc,
          iss_Namespace = pvc_Namespace pvc, iss_Message = fst (pending_text pvc),
          iss_Suggestion = snd (pending_text pvc),
          iss_Metadata = Some [''pvc'' \<mapsto> pvc_Name pvc, ''storageClass'' \<mapsto> getStorageClassName pvc,
            ''accessModes'' \<mapsto> formatAccessModes (pvc_AccessModes pvc)]\<rparr>]
      else if pvc_Phase pvc = ''Lost'' then
        [\<lparr>iss_Type = ''PVCLost'', iss_Severity = SeverityCritical, iss_Resource = pvc_ref pvc,
          iss_Namespace = pvc_Namespace pvc,
          iss_Message = ''PVC '' @ pvc_Name pvc @ '' has lost its bound PersistentVolume'',
          iss_Suggestion = ''The bound PersistentVolume has been lost. Check PV status: kubectl get pv '' @
            pvc_VolumeName pvc @ (''. If the PV was deleted, the data may be unrecoverable depending on the reclaim '' @
       ''policy. To recover: recreate the PV pointing to the same storage, or restore from '' @
       ''backup.''),
          iss_Metadata = Some [''pvc'' \<mapsto> pvc_Name pvc, ''volumeName'' \<mapsto> pvc_VolumeName pvc,
            ''storageClass'' \<mapsto> getStorageClassName pvc]\<rparr>]
      else [])"

definition pvc_resize_issue :: "PVC \<Rightarrow> issue" where
  "pvc_resize_issue pvc =
     \<lparr>iss_Type = ''PVCResizePending'', iss_Severity = SeverityInfo, iss_Resource = pvc_ref pvc,
      iss_Namespace = pvc_Namespace pvc,
      iss_Message = ''PVC filesystem resize is pending - requires pod restart'',
      iss_Suggestion = (''PVC filesystem resize requires a pod restart to complete. Delete the pod using this '' @
       ''PVC (it will be recreated by its controller): kubectl delete pod <pod-name> -n '') @
        pvc_Namespace pvc @ ''. Find the pod: kubectl get pods -n '' @ pvc_Namespace pvc @
        '' -o json | grep '' @ pvc_Name pvc @ ''.'',
      iss_Metadata = Some [''pvc'' \<mapsto> pvc_Name pvc]\<rparr>"

definition pvc_capacity_issue :: "PVC \<Rightarrow> issue" where
  "pvc_capacity_issue pvc =
     \<lparr>iss_Type = ''PVCNoCapacity'', iss_Severity = SeverityWarning, iss_Resource = pvc_ref pvc,
      iss_Namespace = pvc_Namespace pvc, iss_Message = ''PVC is bound but reports no capacity'',
      iss_Suggestion = ''Check the underlying PersistentVolume status'',
      iss_Metadata = Some [''pvc'' \<mapsto> pvc_Name pvc, ''volumeName'' \<mapsto> pvc_VolumeName pvc]\<rparr>"

definition checkPVC :: "PVC \<Rightarrow> issue list" where
  "checkPVC pvc =
     pvc_phase_issues pvc @
     concat (map (\<lambda>c. if pcond_Type c = ''FileSystemResizePending'' \<and> pcond_Status c = ''True''
       then [pvc_resize_issue pvc] else []) (pvc_Conditions pvc)) @
     (if pvc_Phase pvc = ''Bound'' \<and> pvc_Capacity pvc = None then [pvc_capacity_issue pvc] else [])"

definition pvc_Check :: "PVC ns_source \<Rightarrow> result" where
  "pvc_Check src = check_namespaces PVCCheckerName src (\<lambda>ns. fold (tally checkPVC))"

section \<open>Network policies (networkpolicy.go)\<close>

record PolicyRule =
  rule_Peers :: nat   \<comment> \<open>entries of \<open>from\<close> or \<open>to\<close>\<close>
  rule_Ports :: nat

record NetworkPolicy =
  np_Name :: string
  np_Namespace :: string
  np_MatchLabels :: nat
  np_MatchExpressions :: nat
  np_PolicyTypes :: "string list"
  np_Ingress :: "PolicyRule list"
  np_Egress :: "PolicyRule list"

definition NetworkPolicyCheckerName :: string where "NetworkPolicyCheckerName = ''networkpolicies''"

definition isAllowAll :: "NetworkPolicy \<Rightarrow> bool" where
  "isAllowAll np =
     (let open_rule = (\<lambda>r. rule_Peers r = 0 \<and> rule_Ports r = 0) in
      if ''Ingress'' \<in> set (np_PolicyTypes np) \<and> list_ex open_rule (np_Ingress np) then True
      else if ''Egress'' \<in> set (np_PolicyTypes np) \<and> list_ex open_rule (np_Egress np) then True
      else False)"

definition checkNetworkPolicy :: "NetworkPolicy \<Rightarrow> issue list" where
  "checkNetworkPolicy np =
     (if isAllowAll np then
        [\<lparr>iss_Type = ''OverlyPermissivePolicy'', iss_Severity = SeverityWarning,
          iss_Resource = ''networkpolicy/'' @ np_Name np, iss_Namespace = np_Namespace np,
          iss_Message = ''NetworkPolicy '' @ np_Name np @
            '' allows all traffic (may be intentional for default-allow patterns)'',
          iss_Suggestion = (''This policy allows all traffic without restrictions. If intentional (e.g., a '' @
       ''default-allow baseline), this is fine. If not, tighten the rules: kubectl edit '' @
       ''networkpolicy '') @
            np_Name np @ '' -n '' @ np_Namespace np @
            ''. See Kubernetes docs on network policies for examples of restrictive policies.'',
          iss_Metadata = Some [''networkPolicy'' \<mapsto> np_Name np]\<rparr>]
      else []) @
     (if np_MatchLabels np = 0 \<and> np_MatchExpressions np = 0 then
        [\<lparr>iss_Type = ''NamespaceWidePolicy'', iss_Severity = SeverityInfo,
          iss_Resource = ''networkpolicy/'' @ np_Name np, iss_Namespace = np_Namespace np,
          iss_Message = ''NetworkPolicy '' @ np_Name np @
            '' applies to all pods in namespace (empty pod selector)'',
          iss_Suggestion = (''This policy applies to all pods in the namespace (empty pod selector). This is '' @
       ''common for default-deny or default-allow policies. Verify intent: kubectl get '' @
       ''networkpolicy '') @
            np_Name np @ '' -n '' @ np_Namespace np @ '' -o yaml.'',
          iss_Metadata = Some [''networkPolicy'' \<mapsto> np_Name np]\<rparr>]
      else [])"

definition no_policy_issue :: "string \<Rightarrow> issue" where
  "no_policy_issue ns =
     \<lparr>iss_Type = ''NoNetworkPolicy'', iss_Severity = SeverityInfo, iss_Resource = ''namespace/'' @ ns,
      iss_Namespace = ns, iss_Message = ''Namespace '' @ ns @ '' has no NetworkPolicies defined'',
      iss_Suggestion = (''No NetworkPolicies found in this namespace. Without policies, all pod-to-pod '' @
       ''traffic is allowed. Consider adding a default-deny policy and then allow specific '' @
       ''traffic. List current traffic patterns: kubectl get pods -n '') @
        ns @ '' -o wide. See Kubernetes docs on network policies.'',
      iss_Metadata = Some [''namespace'' \<mapsto> ns]\<rparr>"

definition check_policies :: "string \<Rightarrow> NetworkPolicy list \<Rightarrow> result \<Rightarrow> result" where
  "check_policies ns items r =
     (if items = [] then r\<lparr>cr_Issues := cr_Issues r @ [no_policy_issue ns]\<rparr>
      else fold (tally checkNetworkPolicy) items r)"

definition networkpolicy_Check :: "NetworkPolicy ns_source \<Rightarrow> result" where
  "networkpolicy_Check src = check_namespaces NetworkPolicyCheckerName src check_policies"

section \<open>Secrets (secret.go)\<close>

record Certificate =
  ct_NotBefore :: time
  ct_NotAfter :: time
  ct_Subject :: string
  ct_Issuer :: string

record tls_lib =
  tl_pem_decode :: "string \<Rightarrow> string option"
  tl_parse_certificate :: "string \<Rightarrow> string + Certificate"

record Secret =
  sec_Name :: string
  sec_Namespace :: string
  sec_Type :: string
  sec_Data :: "(string \<times> string) list"
  sec_StringData :: "(string \<times> string) list"

record SecretChecker =
  sc_certExpiryWarningDays :: int
  sc_checkCertExpiry :: bool

datatype config_value = CfgInt int | CfgBool bool | CfgOther

type_synonym config = "(string \<rightharpoonup> config_value) option"

definition SecretCheckerName :: string where "SecretCheckerName = ''secrets''"

definition NewSecretChecker :: SecretChecker where
  "NewSecretChecker = \<lparr>sc_certExpiryWarningDays = 30, sc_checkCertExpiry = True\<rparr>"

definition WithCertExpiryWarningDays :: "int \<Rightarrow> SecretChecker \<Rightarrow> SecretChecker" where
  "WithCertExpiryWarningDays days c = c\<lparr>sc_certExpiryWarningDays := days\<rparr>"

definition secret_issue :: "Secret \<Rightarrow> string \<Rightarrow> string \<Rightarrow> string \<Rightarrow> string \<Rightarrow> metadata \<Rightarrow> issue" where
  "secret_issue s typ severity message suggestion meta =
     \<lparr>iss_Type = typ, iss_Severity = severity, iss_Resource = ''secret/'' @ sec_Name s,
      iss_Namespace = sec_Namespace s, iss_Message = message, iss_Suggestion = suggestion,
      iss_Metadata = Some meta\<rparr>"

definition cert_expired_issue :: "Secret \<Rightarrow> Certificate \<Rightarrow> issue" where
  "cert_expired_issue s cert = secret_issue s ''CertExpired'' SeverityCritical
     (''TLS certificate expired on '' @ format_date (ct_NotAfter cert))
     ((''This TLS certificate has expired and must be renewed immediately. If using '' @
       ''cert-manager, check the Certificate resource: kubectl get certificate -n '') @
      sec_Namespace s @ ''. Force renewal: kubectl delete secret '' @ sec_Name s @ '' -n '' @ sec_Namespace s @
      ('' (cert-manager will recreate it). If manually managed, generate and apply a new '' @
       ''certificate.''))
     [''secret'' \<mapsto> sec_Name s, ''expiry'' \<mapsto> format_rfc3339 (ct_NotAfter cert),
      ''subject'' \<mapsto> ct_Subject cert, ''issuer'' \<mapsto> ct_Issuer cert]"

definition days_until_expiry :: "time \<Rightarrow> Certificate \<Rightarrow> int" where
  "days_until_expiry now cert = f64_to_int (fdiv (hours_of (time_sub (ct_NotAfter cert) now)) 24)"

definition cert_expiring_issue :: "time \<Rightarrow> Secret \<Rightarrow> Certificate \<Rightarrow> issue" where
  "cert_expiring_issue now s cert = secret_issue s ''CertExpiringSoon'' SeverityWarning
     (''TLS certificate expires in '' @ itoa (days_until_expiry now cert) @ '' days (on '' @
      format_date (ct_NotAfter cert) @ '')'')
     ((''This TLS certificate is expiring soon. Plan renewal before expiry to avoid '' @
       ''downtime. If using cert-manager: kubectl get certificate -n '') @
      sec_Namespace s @ ('' to check auto-renewal status. If manually managed, generate a new certificate and '' @
       ''update the secret.''))
     [''secret'' \<mapsto> sec_Name s, ''expiry'' \<mapsto> format_rfc3339 (ct_NotAfter cert),
      ''daysRemaining'' \<mapsto> itoa (days_until_expiry now cert),
      ''subject'' \<mapsto> ct_Subject cert, ''issuer'' \<mapsto> ct_Issuer cert]"

definition cert_not_yet_valid_issue :: "Secret \<Rightarrow> Certificate \<Rightarrow> issue" where
  "cert_not_yet_valid_issue s cert = secret_issue s ''CertNotYetValid'' SeverityWarning
     (''TLS certificate is not valid until '' @ format_date (ct_NotBefore cert))
     ''Verify the certificate validity period is correct''
     [''secret'' \<mapsto> sec_Name s, ''validFrom'' \<mapsto> format_rfc3339 (ct_NotBefore cert),
      ''subject'' \<mapsto> ct_Subject cert]"

definition checkTLSCertificateWith :: "tls_lib \<Rightarrow> time \<Rightarrow> int \<Rightarrow> Secret \<Rightarrow> issue list" where
  "checkTLSCertificateWith lib now days s =
     (case map_of (sec_Data s) ''tls.crt'' of
        None \<Rightarrow> []
      | Some certData \<Rightarrow>
          (case tl_pem_decode lib certData of
             None \<Rightarrow> [secret_issue s ''InvalidCertificate'' SeverityWarning
               ''Failed to parse TLS certificate PEM data''
               ''Verify the certificate is properly PEM encoded'' [''secret'' \<mapsto> sec_Name s]]
           | Some bytes \<Rightarrow>
               (case tl_parse_certificate lib bytes of
                  Inl err \<Rightarrow> [secret_issue s ''InvalidCertificate'' SeverityWarning
                    (''Failed to parse certificate: '' @ err)
                    ''Verify the certificate data is valid'' [''secret'' \<mapsto> sec_Name s]]
                | Inr cert \<Rightarrow>
                    (let warningThreshold = add_days now days in
                     (if now > ct_NotAfter cert then [cert_expired_issue s cert]
                      else if ct_NotAfter cert < warningThreshold then [cert_expiring_issue now s cert]
                      else []) @
                     (if now < ct_NotBefore cert then [cert_not_yet_valid_issue s cert] else [])))))"

definition empty_secret_issue :: "Secret \<Rightarrow> issue" where
  "empty_secret_issue s = secret_issue s ''EmptySecret'' SeverityWarning
     (''Secret '' @ sec_Name s @ '' has no data'')
     ((''This secret has no data keys. If it should contain data, populate it with: kubectl '' @
       ''create secret generic '') @
      sec_Name s @ '' --from-literal=key=value -n '' @ sec_Namespace s @
      ('' --dry-run=client -o yaml | kubectl apply -f -. Check if any workloads reference '' @
       ''this secret: kubectl get pods -n '') @
      sec_Namespace s @ '' -o json | grep '' @ sec_Name s @ ''.'')
     [''secret'' \<mapsto> sec_Name s, ''type'' \<mapsto> sec_Type s]"

definition checkSecretWith :: "tls_lib \<Rightarrow> time \<Rightarrow> int \<Rightarrow> bool \<Rightarrow> Secret \<Rightarrow> issue list" where
  "checkSecretWith lib now days checkExpiry s =
     (if checkExpiry \<and> sec_Type s = ''kubernetes.io/tls'' then checkTLSCertificateWith lib now days s else []) @
     (if checkExpiry \<and> sec_Type s = ''Opaque'' \<and> map_of (sec_Data s) ''tls.crt'' \<noteq> None
      then checkTLSCertificateWith lib now days s else []) @
     (if sec_Data s = [] \<and> sec_StringData s = [] \<and> sec_Type s \<noteq> ''kubernetes.io/service-account-token''
      then [empty_secret_issue s] else [])"

definition secret_config :: "config \<Rightarrow> SecretChecker \<Rightarrow> int \<times> bool" where
  "secret_config cfg c =
     (case cfg of
        None \<Rightarrow> (sc_certExpiryWarningDays c, sc_checkCertExpiry c)
      | Some m \<Rightarrow>
          ((case m ''certExpiryWarningDays'' of Some (CfgInt d) \<Rightarrow> d | _ \<Rightarrow> sc_certExpiryWarningDays c),
           (case m ''checkCertExpiry'' of Some (CfgBool b) \<Rightarrow> b | _ \<Rightarrow> sc_checkCertExpiry c)))"

definition secret_Check :: "tls_lib \<Rightarrow> time \<Rightarrow> SecretChecker \<Rightarrow> config \<Rightarrow> Secret ns_source \<Rightarrow> result" where
  "secret_Check lib now c cfg src =
     (let (days, expiry) = secret_config cfg c
      in check_namespaces SecretCheckerName src (\<lambda>ns. fold (tally (checkSecretWith lib now days expiry))))"

section \<open>Resource quotas (quota.go)\<close>

record Quantity =
  q_float :: f64
  q_text :: string

record ResourceQuota =
  rq_Name :: string
  rq_Namespace :: string
  rq_Hard :: "(string \<times> Quantity) list"
  rq_Used :: "string \<rightharpoonup> Quantity"

definition QuotaCheckerName :: string where "QuotaCheckerName = ''quotas''"

definition DefaultQuotaWarningPercent :: int where "DefaultQuotaWarningPercent = 80"

definition usage_percent :: "f64 \<Rightarrow> f64 \<Rightarrow> f64" where
  "usage_percent usedValue hardValue = fmul (fdiv usedValue hardValue) 100"

definition quota_message :: "ResourceQuota \<Rightarrow> string \<Rightarrow> f64 \<Rightarrow> Quantity \<Rightarrow> Quantity \<Rightarrow> string" where
  "quota_message quota resource percent used hard =
     ''ResourceQuota '' @ rq_Name quota @ '': '' @ resource @ '' is at '' @ fmt_f0 percent @ ''% ('' @
     q_text used @ ''/'' @ q_text hard @ '')''"

definition quota_metadata :: "ResourceQuota \<Rightarrow> string \<Rightarrow> f64 \<Rightarrow> Quantity \<Rightarrow> Quantity \<Rightarrow> metadata" where
  "quota_metadata quota resource percent used hard =
     [''quota'' \<mapsto> rq_Name quota, ''resource'' \<mapsto> resource, ''used'' \<mapsto> q_text used,
      ''hard'' \<mapsto> q_text hard, ''usagePercent'' \<mapsto> fmt_f1 percent]"

text \<open>One round of the loop over the hard limits.\<close>

definition check_quota_resource :: "ResourceQuota \<Rightarrow> int \<Rightarrow> string \<times> Quantity \<Rightarrow> issue list" where
  "check_quota_resource quota warningPercent rh =
     (let (resource, hard) = rh in
      case rq_Used quota resource of
        None \<Rightarrow> []
      | Some used \<Rightarrow>
          if q_float hard \<le> 0 then []
          else let percent = usage_percent (q_float used) (q_float hard) in
            if percent \<ge> 100 then
              [\<lparr>iss_Type = ''QuotaExceeded'', iss_Severity = SeverityCritical,
                iss_Resource = ''resourcequota/'' @ rq_Name quota, iss_Namespace = rq_Namespace quota,
                iss_Message = quota_message quota resource percent used hard,
                iss_Suggestion = (''Quota is fully consumed. New pods requesting this resource will fail to schedule. '' @
       ''Check current usage: kubectl describe resourcequota '') @
                  rq_Name quota @ '' -n '' @ rq_Namespace quota @
                  (''. Options: request a quota increase from your platform team, or reduce usage by '' @
       ''scaling down or optimizing resource requests.''),
                iss_Metadata = Some (quota_metadata quota resource percent used hard)\<rparr>]
            else if percent \<ge> float64 warningPercent then
              [\<lparr>iss_Type = ''QuotaNearLimit'', iss_Severity = SeverityWarning,
                iss_Resource = ''resourcequota/'' @ rq_Name quota, iss_Namespace = rq_Namespace quota,
                iss_Message = quota_message quota resource percent used hard,
                iss_Suggestion = ''Quota usage is approaching the limit (warning at '' @ itoa warningPercent @
                  ''%). Review usage: kubectl describe resourcequota '' @ rq_Name quota @ '' -n '' @
                  rq_Namespace quota @ (''. Plan ahead: request a quota increase from your platform team before deployments '' @
       ''fail.''),
                iss_Metadata = Some (quota_metadata quota resource percent used hard)\<rparr>]
            else [])"

text \<open>The argument \<open>ord\<close> is the order in which the map of hard limits is ranged over.\<close>

definition checkQuotaWith :: "((string \<times> Quantity) list \<Rightarrow> (string \<times> Quantity) list) \<Rightarrow> int \<Rightarrow>
    ResourceQuota \<Rightarrow> issue list" where
  "checkQuotaWith ord warningPercent quota =
     concat (map (check_quota_resource quota warningPercent) (ord (rq_Hard quota)))"

definition quota_config :: "config \<Rightarrow> int \<Rightarrow> int" where
  "quota_config cfg warningPercent =
     (case cfg of None \<Rightarrow> warningPercent
      | Some m \<Rightarrow> (case m ''usageWarningPercent'' of Some (CfgInt p) \<Rightarrow> p | _ \<Rightarrow> warningPercent))"

definition quota_Check :: "((string \<times> Quantity) list \<Rightarrow> (string \<times> Quantity) list) \<Rightarrow> int \<Rightarrow> config \<Rightarrow>
    ResourceQuota ns_source \<Rightarrow> result" where
  "quota_Check ord warningPercent cfg src = check_namespaces QuotaCheckerName src
     (\<lambda>ns. fold (tally (checkQuotaWith ord (quota_config cfg warningPercent))))"

section \<open>The checkers meet the contract\<close>

lemmas check_object_defs = checkPVC_def pvc_phase_issues_def pvc_resize_issue_def pvc_capacity_issue_def
  checkNetworkPolicy_def no_policy_issue_def checkQuotaWith_def check_quota_resource_def

lemma secret_issue_fields [simp]:
  "iss_Type (secret_issue s t sev m sg md) = t"
  "iss_Severity (secret_issue s t sev m sg md) = sev"
  "iss_Namespace (secret_issue s t sev m sg md) = sec_Namespace s"
  by (simp_all add: secret_issue_def)

lemma cert_issue_fields [simp]:
  "iss_Type (cert_expired_issue s c) = ''CertExpired''"
  "iss_Severity (cert_expired_issue s c) = SeverityCritical"
  "iss_Namespace (cert_expired_issue s c) = sec_Namespace s"
  "iss_Type (cert_expiring_issue now s c) = ''CertExpiringSoon''"
  "iss_Severity (cert_expiring_issue now s c) = SeverityWarning"
  "iss_Namespace (cert_expiring_issue now s c) = sec_Namespace s"
  "iss_Type (cert_not_yet_valid_issue s c) = ''CertNotYetValid''"
  "iss_Severity (cert_not_yet_valid_issue s c) = SeverityWarning"
  "iss_Namespace (cert_not_yet_valid_issue s c) = sec_Namespace s"
  "iss_Severity (empty_secret_issue s) = SeverityWarning"
  "iss_Namespace (empty_secret_issue s) = sec_Namespace s"
  by (simp_all add: cert_expired_issue_def cert_expiring_issue_def cert_not_yet_valid_issue_def
      empty_secret_issue_def)

lemma severities_members [simp]:
  "SeverityCritical \<in> set severities" "SeverityWarning \<in> set severities" "SeverityInfo \<in> set severities"
  by (simp_all add: severities_def)

lemma tls_check_issue:
  "i \<in> set (checkTLSCertificateWith lib now days s) \<Longrightarrow>
   iss_Severity i \<in> set severities \<and> iss_Namespace i = sec_Namespace s"
proof -
  have "list_all (\<lambda>i. iss_Severity i \<in> set severities \<and> iss_Namespace i = sec_Namespace s)
      (checkTLSCertificateWith lib now days s)"
    unfolding checkTLSCertificateWith_def Let_def by (simp split: option.split sum.split)
  then show "i \<in> set (checkTLSCertificateWith lib now days s) \<Longrightarrow> ?thesis"
    by (simp add: list_all_iff)
qed

interpretation pvc: health_checker PVCCheckerName pvc_Check src_namespaces "source_ok pvc_Namespace"
  unfolding pvc_Check_def
  by (rule tally_checker) (auto simp: check_object_defs split: if_splits)

lemma secret_check_issue:
  "i \<in> set (checkSecretWith lib now days expiry s) \<Longrightarrow>
   iss_Severity i \<in> set severities \<and> iss_Namespace i = sec_Namespace s"
  unfolding checkSecretWith_def using tls_check_issue by (auto split: if_splits)

interpretation secrets: health_checker SecretCheckerName "secret_Check lib now c cfg" src_namespaces
    "source_ok sec_Namespace" for lib now c cfg
  unfolding secret_Check_def case_prod_unfold Let_def
  by (rule tally_checker) (rule secret_check_issue)

lemma quota_check_issue:
  "i \<in> set (checkQuotaWith ord w q) \<Longrightarrow>
   iss_Severity i \<in> set severities \<and> iss_Namespace i = rq_Namespace q"
  by (auto simp: check_object_defs Let_def split: if_splits option.splits)

interpretation quotas: health_checker QuotaCheckerName "quota_Check ord w cfg" src_namespaces
    "source_ok rq_Namespace" for ord w cfg
  unfolding quota_Check_def
  by (rule tally_checker) (rule quota_check_issue)

lemma networkpolicy_check_issue:
  "i \<in> set (checkNetworkPolicy np) \<Longrightarrow>
   iss_Severity i \<in> set severities \<and> iss_Namespace i = np_Namespace np"
  by (auto simp: check_object_defs split: if_splits)

lemma check_policies_fields [simp]:
  "cr_CheckerName (check_policies ns items r) = cr_CheckerName r"
  "cr_Error (check_policies ns items r) = cr_Error r"
  "cr_Issues (check_policies ns items r) = cr_Issues r @
     (if items = [] then [no_policy_issue ns] else concat (map checkNetworkPolicy items))"
  "cr_Healthy (check_policies ns items r) =
     cr_Healthy r + int (length (filter (\<lambda>np. checkNetworkPolicy np = []) items))"
  by (simp_all add: check_policies_def)

interpretation networkpolicies: health_checker NetworkPolicyCheckerName networkpolicy_Check src_namespaces
    "source_ok np_Namespace"
proof
  fix src :: "NetworkPolicy ns_source" and i
  let ?nss = "src_namespaces src"
  show "cr_CheckerName (networkpolicy_Check src) = NetworkPolicyCheckerName"
    unfolding networkpolicy_Check_def
    by (rule check_namespaces_invariant) (simp_all add: no_result_def)
  show "cr_Error (networkpolicy_Check src) = None"
    unfolding networkpolicy_Check_def
    by (rule check_namespaces_invariant) (simp_all add: no_result_def)
  show "0 \<le> cr_Healthy (networkpolicy_Check src)"
    unfolding networkpolicy_Check_def
    by (rule check_namespaces_invariant) (simp_all add: no_result_def)
  have "\<forall>i \<in> set (cr_Issues (networkpolicy_Check src)). iss_Severity i \<in> set severities"
    unfolding networkpolicy_Check_def
    by (rule check_namespaces_invariant)
      (auto simp: no_result_def no_policy_issue_def dest: networkpolicy_check_issue)
  then show "i \<in> set (cr_Issues (networkpolicy_Check src)) \<Longrightarrow> iss_Severity i \<in> set severities" by blast
  assume ok: "source_ok np_Namespace src"
  have "\<forall>i \<in> set (cr_Issues (networkpolicy_Check src)). issue_in ?nss i"
    unfolding networkpolicy_Check_def
  proof (rule check_namespaces_invariant)
    fix ns xs and r :: result
    assume ns: "ns \<in> set ?nss" "src_list src ns = Inr xs" and r: "\<forall>i \<in> set (cr_Issues r). issue_in ?nss i"
    with ok have "ns = [] \<or> (\<forall>x \<in> set xs. np_Namespace x = ns)" by (force simp: source_ok_def)
    then have "\<forall>x \<in> set xs. \<forall>i \<in> set (checkNetworkPolicy x). issue_in ?nss i"
      using ns(1) networkpolicy_check_issue by (metis issue_in_def)
    with ns(1) r show "\<forall>i \<in> set (cr_Issues (check_policies ns xs r)). issue_in ?nss i"
      by (auto simp: issue_in_def no_policy_issue_def)
  qed (simp add: no_result_def)
  then show "i \<in> set (cr_Issues (networkpolicy_Check src)) \<Longrightarrow> issue_in ?nss i" by blast
qed

section \<open>Quota percentages are exact at the limit\<close>

definition is_f64 :: "rat \<Rightarrow> bool" where
  "is_f64 x \<longleftrightarrow> fl x = x"

lemma f64_mantissa:
  assumes "is_f64 x" "0 < x"
  obtains n where "x = of_int n * two_to (exponent x - 52)" "2 ^ 52 \<le> n" "n < 2 ^ 53"
proof -
  let ?q = "two_to (exponent x - 52)"
  let ?n = "round_even (x / ?q)"
  have x: "x = of_int ?n * ?q" using assms by (simp add: is_f64_def fl_def fl_pos_def Let_def)
  have "two_to (exponent x) = of_int (2 ^ 52) * ?q" "two_to (exponent x + 1) = of_int (2 ^ 53) * ?q"
    using two_to_add_nat [of "exponent x - 52" 52] two_to_add_nat [of "exponent x - 52" 53]
    by (simp_all add: add.commute mult.commute)
  with exponent_bounds [OF assms(2)] x
  have "of_int (2 ^ 52) * ?q \<le> of_int ?n * ?q" "of_int ?n * ?q < of_int (2 ^ 53) * ?q" by simp_all
  then have "rat_of_int (2 ^ 52) \<le> of_int ?n" "of_int ?n < rat_of_int (2 ^ 53)"
    by (simp_all only: mult_le_cancel_right_pos [OF two_to_pos] mult_less_cancel_right_pos [OF two_to_pos])
  then have "2 ^ 52 \<le> ?n" "?n < 2 ^ 53" by (simp_all only: of_int_le_iff of_int_less_iff)
  with x that show thesis by blast
qed

text \<open>A double below another is below it by a factor of at least \<open>1 - 2 ^ (- 53)\<close>.\<close>

lemma f64_gap:
  assumes u: "is_f64 u" "0 < u" and h: "is_f64 h" "u < h"
  shows "u \<le> h * (1 - 1 / 2 ^ 53)"
proof -
  from u h have h0: "0 < h" by simp
  obtain n where n: "h = of_int n * two_to (exponent h - 52)" "2 ^ 52 \<le> n" "n < 2 ^ 53"
    using f64_mantissa [OF h(1) h0] .
  obtain m where m: "u = of_int m * two_to (exponent u - 52)" "2 ^ 52 \<le> m" "m < 2 ^ 53"
    using f64_mantissa [OF u] .
  have le: "exponent u \<le> exponent h" using exponent_le u(2) h(2) by simp
  show ?thesis
  proof (cases "exponent u = exponent h")
    case True
    let ?q = "two_to (exponent h - 52)"
    have "of_int m * ?q < of_int n * ?q" using h(2) n(1) m(1) True by simp
    then have "m < n" by (simp add: mult_less_cancel_right_pos)
    then have "rat_of_int m \<le> of_int n - 1" by (metis of_int_1 of_int_diff of_int_le_iff zle_diff1_eq)
    moreover have "rat_of_int n \<le> 2 ^ 53"
      using n(3) by (metis less_imp_le of_int_le_iff of_int_numeral of_int_power)
    ultimately have "rat_of_int m \<le> of_int n * (1 - 1 / 2 ^ 53)" by (simp add: field_simps)
    then have "of_int m * ?q \<le> of_int n * (1 - 1 / 2 ^ 53) * ?q" by (intro mult_right_mono) simp_all
    moreover have "u = of_int m * ?q" using m(1) True by simp
    moreover have "h * (1 - 1 / 2 ^ 53) = of_int n * (1 - 1 / 2 ^ 53) * ?q"
      using arg_cong [OF n(1), of "\<lambda>x. x * (1 - 1 / 2 ^ 53)"] by (simp only: mult_ac)
    ultimately show ?thesis by (simp only:)
  next
    case False
    with le have "exponent u \<le> exponent h - 1" by simp
    then have "two_to (exponent u - 52) \<le> two_to (exponent h - 53)" by (intro two_to_mono) simp
    moreover have m': "rat_of_int m \<le> 2 ^ 53 - 1"
    proof -
      have "rat_of_int m \<le> of_int (2 ^ 53 - 1)" using m(3) by (simp only: of_int_le_iff)
      then show ?thesis by simp
    qed
    moreover have "0 \<le> rat_of_int m" using m(2) by simp
    ultimately have "of_int m * two_to (exponent u - 52) \<le> (2 ^ 53 - 1) * two_to (exponent h - 53)"
      by (intro mult_mono) simp_all
    then have "u \<le> (2 ^ 53 - 1) * two_to (exponent h - 53)" by (rule ord_eq_le_trans [OF m(1)])
    also have "\<dots> = (1 - 1 / 2 ^ 53) * (2 ^ 53 * two_to (exponent h - 53))" by (simp add: algebra_simps)
    also have "2 ^ 53 * two_to (exponent h - 53) = 2 ^ 52 * two_to (exponent h - 52)"
      using two_to_succ [of "exponent h - 53"] by simp
    also have "(1 - 1 / 2 ^ 53) * (2 ^ 52 * two_to (exponent h - 52)) \<le> (1 - 1 / 2 ^ 53) * h"
    proof -
      have "(2::rat) ^ 52 \<le> of_int n" using n(2) by (metis of_int_le_iff of_int_numeral of_int_power)
      then have "2 ^ 52 * two_to (exponent h - 52) \<le> of_int n * two_to (exponent h - 52)"
        by (intro mult_right_mono) simp_all
      then have "2 ^ 52 * two_to (exponent h - 52) \<le> h" by (rule ord_le_eq_trans [OF _ n(1) [symmetric]])
      then show ?thesis by (intro mult_left_mono) simp_all
    qed
    finally show ?thesis by (simp add: mult.commute)
  qed
qed

lemma usage_percent_below:
  assumes "u \<le> h * (1 - 1 / 2 ^ 53)" "0 < h"
  shows "usage_percent u h < 100"
proof -
  have "u / h \<le> 1 - 1 / 2 ^ 53" using assms by (simp add: field_simps)
  then have "fdiv u h \<le> fl (1 - 1 / 2 ^ 53)" unfolding fdiv_def by (rule fl_mono)
  also have "fl (1 - 1 / 2 ^ 53) = 1 - 1 / 2 ^ 53"
    by (simp add: fl_at [where e = "-1"] fl_eval)
  finally have "usage_percent u h \<le> fl ((1 - 1 / 2 ^ 53) * 100)"
    unfolding usage_percent_def fmul_def by (intro fl_mono) simp
  also have "fl ((1 - 1 / 2 ^ 53) * 100) < 100"
    by (simp add: fl_at [where e = 6] fl_eval)
  finally show ?thesis .
qed

lemma usage_percent_above:
  assumes "0 < h" "h \<le> u"
  shows "100 \<le> usage_percent u h"
proof -
  have "fl 1 \<le> fdiv u h" unfolding fdiv_def using assms by (intro fl_mono) (simp add: field_simps)
  then have "fl 100 \<le> usage_percent u h" unfolding usage_percent_def fmul_def by (intro fl_mono) simp
  then show ?thesis by simp
qed

lemma usage_percent_iff:
  assumes "is_f64 u" "is_f64 h" "0 < h"
  shows "100 \<le> usage_percent u h \<longleftrightarrow> h \<le> u"
proof (cases "h \<le> u")
  case False
  then have "u \<le> h * (1 - 1 / 2 ^ 53)"
    using f64_gap [OF assms(1) _ assms(2)] assms(3) by (cases "0 < u") (simp_all add: order_trans [of u 0])
  with usage_percent_below assms(3) False show ?thesis by force
qed (use usage_percent_above assms in auto)

section \<open>Properties\<close>

text \<open>Every object a resource checker sees is accounted for once: it is counted as healthy exactly
  when its check reports nothing, the reported issues are those of the listed objects (plus one note per
  namespace without a network policy), and the per-severity counts add up to the number of issues.\<close>

theorem resource_checkers_account:
  "cr_Healthy (pvc_Check ps) + int (length (filter (\<lambda>p. checkPVC p \<noteq> []) (listed ps))) = int (length (listed ps)) \<and>
   cr_Issues (pvc_Check ps) = concat (map checkPVC (listed ps)) \<and>
   cr_Healthy (networkpolicy_Check ns) + int (length (filter (\<lambda>p. checkNetworkPolicy p \<noteq> []) (listed ns))) =
     int (length (listed ns)) \<and>
   severity_total (CountBySeverity (pvc_Check ps)) = TotalIssues (pvc_Check ps) \<and>
   severity_total (CountBySeverity (networkpolicy_Check ns)) = TotalIssues (networkpolicy_Check ns) \<and>
   severity_total (CountBySeverity (secret_Check lib now c cfg ss)) = TotalIssues (secret_Check lib now c cfg ss) \<and>
   severity_total (CountBySeverity (quota_Check ord w cfg qs)) = TotalIssues (quota_Check ord w cfg qs)"
proof -
  have len: "int (length (filter (\<lambda>x. f x = []) xs)) + int (length (filter (\<lambda>x. f x \<noteq> []) xs)) = int (length xs)"
    for f :: "'x \<Rightarrow> issue list" and xs
    by (induction xs) simp_all
  have np: "cr_Healthy (fold (\<lambda>n r. case src_list ns n of Inl _ \<Rightarrow> r | Inr xs \<Rightarrow> check_policies n xs r) nss r) =
      cr_Healthy r + int (length (filter (\<lambda>p. checkNetworkPolicy p = [])
        (concat (map (\<lambda>n. case src_list ns n of Inl _ \<Rightarrow> [] | Inr xs \<Rightarrow> xs) nss))))" for nss r
    by (induction nss arbitrary: r) (simp_all split: sum.splits)
  show ?thesis
    using len [of checkPVC "listed ps"] len [of checkNetworkPolicy "listed ns"]
      pvc.severities_partition [of ps] networkpolicies.severities_partition [of ns]
      secrets.severities_partition [of lib now c cfg ss] quotas.severities_partition [of ord w cfg qs]
    by (simp add: pvc_Check_def check_namespaces_tally no_result_def networkpolicy_Check_def
        check_namespaces_def np listed_def)
qed

text \<open>A certificate is reported unless it is valid now and for the whole warning period: the check of
  a TLS secret is silent exactly when there is no certificate in it or one that decodes, parses, is valid
  already and does not end before now plus the warning days.\<close>

theorem tls_silent_iff_valid:
  "checkTLSCertificateWith lib now days s = [] \<longleftrightarrow>
   (case map_of (sec_Data s) ''tls.crt'' of None \<Rightarrow> True
    | Some pem \<Rightarrow> \<exists>der cert. tl_pem_decode lib pem = Some der \<and> tl_parse_certificate lib der = Inr cert \<and>
        ct_NotBefore cert \<le> now \<and> now \<le> ct_NotAfter cert \<and> add_days now days \<le> ct_NotAfter cert)"
  by (auto simp: checkTLSCertificateWith_def Let_def not_less split: option.split sum.split)

text \<open>The quota check is exact at the limit in spite of floating point: for quantities with a positive
  hard limit, \<open>QuotaExceeded\<close> is reported exactly when the used quantity is at least the hard limit, so no
  rounding of the percentage hides an exhausted quota or reports one that is not.\<close>

theorem quota_exceeded_iff:
  assumes "rq_Used quota resource = Some used" "is_f64 (q_float used)" "is_f64 (q_float hard)" "0 < q_float hard"
  shows "list_ex (\<lambda>i. iss_Type i = ''QuotaExceeded'') (check_quota_resource quota w (resource, hard)) \<longleftrightarrow>
    q_float hard \<le> q_float used"
  using usage_percent_iff [OF assms(2-4)] assms(1,4)
  by (auto simp: check_quota_resource_def Let_def not_le)

definition example_quota :: ResourceQuota where
  "example_quota = \<lparr>rq_Name = ''q'', rq_Namespace = ''team'', rq_Hard = [(''pods'', \<lparr>q_float = 10, q_text = ''10''\<rparr>)],
     rq_Used = [''pods'' \<mapsto> \<lparr>q_float = 10, q_text = ''10''\<rparr>]\<rparr>"

theorem quota_exceeded_iff_witness:
  "list_ex (\<lambda>i. iss_Type i = ''QuotaExceeded'')
     (check_quota_resource example_quota 80 (''pods'', \<lparr>q_float = 10, q_text = ''10''\<rparr>))"
  using quota_exceeded_iff [of example_quota "''pods''" "\<lparr>q_float = 10, q_text = ''10''\<rparr>"
      "\<lparr>q_float = 10, q_text = ''10''\<rparr>" 80]
  by (simp add: example_quota_def is_f64_def)

end
