(* ===== verification/Plugin_Checker.thy ===== *)
theory Plugin_Checker
  imports Checker_Core
begin

text \<open>
  Checkers defined by users as CEL rules (\<open>internal/checker/plugin/checker.go\<close>, \<open>evaluator.go\<close>). The
  CEL library is the parameter \<open>cel\<close>: compiling an expression gives an error or a program, running a
  program on an object gives an error (a cost or time limit included) or a value.
\<close>

section \<open>The evaluator\<close>

datatype cel_value = CelBool bool | CelString string | CelOther string   \<comment> \<open>with its type's name\<close>

record ('p, 'obj) cel =
  cel_compile :: "string \<Rightarrow> string + 'p"
  cel_program :: "'p \<Rightarrow> string + 'p"
  cel_eval :: "'p \<Rightarrow> 'obj \<Rightarrow> string + cel_value"

fun cel_type :: "cel_value \<Rightarrow> string" where
  "cel_type (CelBool _) = ''bool''"
| "cel_type (CelString _) = ''string''"
| "cel_type (CelOther t) = t"

definition Compile :: "('p, 'obj) cel \<Rightarrow> string \<Rightarrow> string + 'p" where
  "Compile cel expr =
     (case cel_compile cel expr of
        Inl e \<Rightarrow> Inl (''CEL compilation error: '' @ e)
      | Inr ast \<Rightarrow>
          (case cel_program cel ast of
             Inl e \<Rightarrow> Inl (''CEL program creation error: '' @ e)
           | Inr prg \<Rightarrow> Inr prg))"

definition Evaluate :: "('p, 'obj) cel \<Rightarrow> 'p \<Rightarrow> 'obj \<Rightarrow> string + bool" where
  "Evaluate cel prg obj =
     (case cel_eval cel prg obj of
        Inl e \<Rightarrow> Inl (''CEL evaluation error: '' @ e)
      | Inr (CelBool b) \<Rightarrow> Inr b
      | Inr v \<Rightarrow> Inl (''CEL expression did not return bool, got '' @ cel_type v))"

definition EvaluateString :: "('p, 'obj) cel \<Rightarrow> 'p \<Rightarrow> 'obj \<Rightarrow> string + string" where
  "EvaluateString cel prg obj =
     (case cel_eval cel prg obj of
        Inl e \<Rightarrow> Inl (''CEL evaluation error: '' @ e)
      | Inr (CelString s) \<Rightarrow> Inr s
      | Inr v \<Rightarrow> Inl (''CEL expression did not return string, got '' @ cel_type v))"

definition EvaluateMessage :: "('p, 'obj) cel \<Rightarrow> string \<Rightarrow> 'obj \<Rightarrow> string + string" where
  "EvaluateMessage cel msgExpr obj =
     (if \<not> has_prefix msgExpr ''='' then Inr msgExpr
      else case cel_compile cel (tl msgExpr) of
        Inl e \<Rightarrow> Inl (''CEL message compilation error: '' @ e)
      | Inr ast \<Rightarrow>
          (case cel_program cel ast of
             Inl e \<Rightarrow> Inl (''CEL message program error: '' @ e)
           | Inr prg \<Rightarrow>
               (case cel_eval cel prg obj of
                  Inl e \<Rightarrow> Inl (''CEL message evaluation error: '' @ e)
                | Inr (CelString s) \<Rightarrow> Inr s
                | Inr v \<Rightarrow> Inl (''CEL message expression did not return string, got '' @ cel_type v))))"

section \<open>The checker\<close>

record CheckRule =
  rl_Name :: string
  rl_Condition :: string
  rl_Severity :: string
  rl_Message :: string

record TargetGVR =
  tg_Group :: string
  tg_Version :: string
  tg_Kind :: string
  tg_Resource :: string

record CheckPluginSpec =
  sp_TargetResource :: TargetGVR
  sp_Rules :: "CheckRule list"

record 'p compiledCheck =
  cc_rule :: CheckRule
  cc_program :: 'p
  cc_msgProg :: "'p option"

record 'p PluginChecker =
  pl_name :: string
  pl_spec :: CheckPluginSpec
  pl_compiled :: "'p compiledCheck list"

record 'obj plugin_object =
  po_Name :: string
  po_Object :: 'obj

definition compile_rule :: "('p, 'obj) cel \<Rightarrow> CheckRule \<Rightarrow> string + 'p compiledCheck" where
  "compile_rule cel rule =
     (case Compile cel (rl_Condition rule) of
        Inl e \<Rightarrow> Inl (''rule '' @ go_quote (rl_Name rule) @ '': '' @ e)
      | Inr prg \<Rightarrow>
          if rl_Message rule \<noteq> [] \<and> hd (rl_Message rule) = CHR ''=''
          then (case Compile cel (tl (rl_Message rule)) of
                  Inl e \<Rightarrow> Inl (''rule '' @ go_quote (rl_Name rule) @ '' message: '' @ e)
                | Inr m \<Rightarrow> Inr \<lparr>cc_rule = rule, cc_program = prg, cc_msgProg = Some m\<rparr>)
          else Inr \<lparr>cc_rule = rule, cc_program = prg, cc_msgProg = None\<rparr>)"

fun compile_rules :: "('p, 'obj) cel \<Rightarrow> CheckRule list \<Rightarrow> string + 'p compiledCheck list" where
  "compile_rules cel [] = Inr []"
| "compile_rules cel (r # rs) =
     (case compile_rule cel r of
        Inl e \<Rightarrow> Inl e
      | Inr c \<Rightarrow> (case compile_rules cel rs of Inl e \<Rightarrow> Inl e | Inr cs \<Rightarrow> Inr (c # cs)))"

text \<open>The first argument is the error of creating the CEL environment, if it fails.\<close>

definition NewPluginChecker :: "string option \<Rightarrow> ('p, 'obj) cel \<Rightarrow> string \<Rightarrow> CheckPluginSpec \<Rightarrow>
    string + 'p PluginChecker" where
  "NewPluginChecker envError cel name spec =
     (case envError of
        Some e \<Rightarrow> Inl (''failed to create evaluator: failed to create CEL environment: '' @ e)
      | None \<Rightarrow>
          (case compile_rules cel (sp_Rules spec) of
             Inl e \<Rightarrow> Inl e
           | Inr cs \<Rightarrow> Inr \<lparr>pl_name = name, pl_spec = spec, pl_compiled = cs\<rparr>))"

definition plugin_Name :: "'p PluginChecker \<Rightarrow> string" where
  "plugin_Name p = ''plugin:'' @ pl_name p"

definition isValidSeverity :: "string \<Rightarrow> bool" where
  "isValidSeverity s \<longleftrightarrow> s = SeverityCritical \<or> s = SeverityWarning \<or> s = SeverityInfo"

definition rule_severity :: "string \<Rightarrow> string" where
  "rule_severity s = (if s = [] then SeverityWarning else if \<not> isValidSeverity s then SeverityWarning else s)"

definition plugin_issue :: "string \<Rightarrow> string \<Rightarrow> string \<Rightarrow> string \<Rightarrow> string \<Rightarrow> issue" where
  "plugin_issue typ severity resource ns message =
     \<lparr>iss_Type = typ, iss_Severity = severity, iss_Resource = resource, iss_Namespace = ns,
      iss_Message = message, iss_Suggestion = [], iss_Metadata = None\<rparr>"

definition rule_message :: "('p, 'obj) cel \<Rightarrow> 'p compiledCheck \<Rightarrow> 'obj \<Rightarrow> string" where
  "rule_message cel cc obj =
     (case cc_msgProg cc of
        None \<Rightarrow> rl_Message (cc_rule cc)
      | Some m \<Rightarrow>
          (case EvaluateString cel m obj of
             Inr s \<Rightarrow> s
           | Inl e \<Rightarrow> ''Rule '' @ go_quote (rl_Name (cc_rule cc)) @
               '' triggered (message evaluation failed: '' @ e @ '')''))"

text \<open>One rule on one object: whether it matched (\<open>hasIssue\<close>), and the issue it adds.\<close>

definition apply_rule :: "('p, 'obj) cel \<Rightarrow> 'p PluginChecker \<Rightarrow> string \<Rightarrow> 'obj plugin_object \<Rightarrow>
    'p compiledCheck \<Rightarrow> bool \<times> issue list" where
  "apply_rule cel p ns item cc =
     (let resource = tg_Resource (sp_TargetResource (pl_spec p)) @ ''/'' @ po_Name item in
      case Evaluate cel (cc_program cc) (po_Object item) of
        Inl err \<Rightarrow> (False, [plugin_issue (''plugin:'' @ pl_name p @ '':eval-error'') SeverityWarning resource ns
          (''CEL rule '' @ go_quote (rl_Name (cc_rule cc)) @ '' evaluation failed: '' @ err)])
      | Inr matched \<Rightarrow>
          if \<not> matched then (False, [])
          else (True, [plugin_issue (''plugin:'' @ pl_name p @ '':'' @ rl_Name (cc_rule cc))
            (rule_severity (rl_Severity (cc_rule cc))) resource ns (rule_message cel cc (po_Object item))]))"

definition check_object :: "('p, 'obj) cel \<Rightarrow> 'p PluginChecker \<Rightarrow> string \<Rightarrow> 'obj plugin_object \<Rightarrow> result \<Rightarrow> result" where
  "check_object cel p ns item r =
     (let outs = map (apply_rule cel p ns item) (pl_compiled p);
          r1 = r\<lparr>cr_Issues := cr_Issues r @ concat (map snd outs)\<rparr>
      in if \<not> list_ex fst outs then r1\<lparr>cr_Healthy := cr_Healthy r1 + 1\<rparr> else r1)"

definition plugin_gvk :: "'p PluginChecker \<Rightarrow> string" where
  "plugin_gvk p = (let g = sp_TargetResource (pl_spec p) in tg_Group g @ ''/'' @ tg_Version g @ ''/'' @ tg_Kind g)"

definition list_error_issue :: "'p PluginChecker \<Rightarrow> string \<Rightarrow> string \<Rightarrow> issue" where
  "list_error_issue p ns err =
     plugin_issue (''plugin:'' @ pl_name p @ '':list-error'') SeverityWarning (plugin_gvk p) ns
       (''Failed to list '' @ tg_Kind (sp_TargetResource (pl_spec p)) @ '' resources: '' @ err)"

definition check_plugin_ns :: "('p, 'obj) cel \<Rightarrow> 'p PluginChecker \<Rightarrow> ('obj plugin_object) lister \<Rightarrow> string \<Rightarrow>
    result \<times> string list \<Rightarrow> result \<times> string list" where
  "check_plugin_ns cel p list ns st =
     (let (r, nsErrors) = st in
      case list ns of
        Inl err \<Rightarrow> (r\<lparr>cr_Issues := cr_Issues r @ [list_error_issue p ns err]\<rparr>, nsErrors @ [ns])
      | Inr items \<Rightarrow> (fold (check_object cel p ns) items r, nsErrors))"

definition plugin_Check :: "('p, 'obj) cel \<Rightarrow> 'p PluginChecker \<Rightarrow> ('obj plugin_object) ns_source \<Rightarrow> result" where
  "plugin_Check cel p src =
     (let (r, nsErrors) = fold (check_plugin_ns cel p (src_list src)) (src_namespaces src)
            (no_result (plugin_Name p), []) in
      if length nsErrors = length (src_namespaces src)
      then r\<lparr>cr_Error := Some (''all '' @ itoa (int (length nsErrors)) @ '' namespace(s) failed: ['' @
             str_join '' '' nsErrors @ '']'')\<rparr>
      else r)"

section \<open>The contract\<close>

lemma plugin_issue_fields [simp]:
  "iss_Severity (plugin_issue t sev res ns m) = sev"
  "iss_Namespace (plugin_issue t sev res ns m) = ns"
  "iss_Type (plugin_issue t sev res ns m) = t"
  by (simp_all add: plugin_issue_def)

lemma rule_severity_valid: "rule_severity s \<in> set severities"
  by (auto simp: rule_severity_def isValidSeverity_def severities_def)

lemma apply_rule_issue:
  "i \<in> set (snd (apply_rule cel p ns item cc)) \<Longrightarrow> iss_Severity i \<in> set severities \<and> iss_Namespace i = ns"
  using rule_severity_valid [of "rl_Severity (cc_rule cc)"]
  by (auto simp: apply_rule_def Let_def severities_def split: sum.splits if_splits)

definition plugin_result_ok :: "'p PluginChecker \<Rightarrow> string list \<Rightarrow> result \<Rightarrow> bool" where
  "plugin_result_ok p nss r \<longleftrightarrow> cr_CheckerName r = plugin_Name p \<and> 0 \<le> cr_Healthy r \<and>
     (\<forall>i \<in> set (cr_Issues r). iss_Severity i \<in> set severities \<and> iss_Namespace i \<in> set nss)"

lemma check_object_ok:
  "plugin_result_ok p nss r \<Longrightarrow> ns \<in> set nss \<Longrightarrow> plugin_result_ok p nss (check_object cel p ns item r)"
  using apply_rule_issue [of _ cel p ns item]
  by (auto simp: check_object_def plugin_result_ok_def Let_def)

lemma check_plugin_ns_ok:
  assumes "plugin_result_ok p nss (fst st)" "ns \<in> set nss"
  shows "plugin_result_ok p nss (fst (check_plugin_ns cel p list ns st))"
proof (cases "list ns")
  case (Inl e)
  with assms show ?thesis
    by (auto simp: check_plugin_ns_def plugin_result_ok_def list_error_issue_def severities_def split: prod.splits)
next
  case (Inr items)
  have "plugin_result_ok p nss (fold (check_object cel p ns) items r)" if "plugin_result_ok p nss r" for r
    by (rule fold_invariant_result [where P = "plugin_result_ok p nss"]) (use that assms(2) check_object_ok in auto)
  with Inr assms show ?thesis by (auto simp: check_plugin_ns_def split: prod.splits)
qed

lemma plugin_Check_ok: "plugin_result_ok p (src_namespaces src) (plugin_Check cel p src)"
proof -
  let ?P = "\<lambda>st. plugin_result_ok p (src_namespaces src) (fst st)"
  have "?P (fold (check_plugin_ns cel p (src_list src)) (src_namespaces src) (no_result (plugin_Name p), []))"
  proof (rule fold_invariant_result [where P = ?P])
    show "?P (no_result (plugin_Name p), [])" by (simp add: plugin_result_ok_def no_result_def)
  qed (rule check_plugin_ns_ok)
  then show ?thesis by (auto simp: plugin_Check_def plugin_result_ok_def Let_def split: prod.splits)
qed

interpretation plugins: issue_source "plugin_Name p" "plugin_Check cel p" src_namespaces "\<lambda>_. True" for cel p
  by unfold_locales
    (use plugin_Check_ok [of p _ cel, unfolded plugin_result_ok_def] in \<open>auto simp: issue_in_def\<close>)

section \<open>Properties\<close>

text \<open>A rule that cannot be evaluated hides the object's state: when every rule of a plugin fails on an
  object, the object gets one warning per rule and is still counted as healthy.\<close>

theorem plugin_eval_error_counts_healthy:
  assumes "\<forall>cc \<in> set (pl_compiled p). \<exists>e. Evaluate cel (cc_program cc) (po_Object item) = Inl e"
  shows "cr_Healthy (check_object cel p ns item r) = cr_Healthy r + 1 \<and>
    length (cr_Issues (check_object cel p ns item r)) = length (cr_Issues r) + length (pl_compiled p) \<and>
    (\<forall>i \<in> set (drop (length (cr_Issues r)) (cr_Issues (check_object cel p ns item r))).
       iss_Severity i = SeverityWarning)"
proof -
  let ?outs = "map (apply_rule cel p ns item) (pl_compiled p)"
  have one: "\<exists>i. apply_rule cel p ns item cc = (False, [i]) \<and> iss_Severity i = SeverityWarning"
    if "cc \<in> set (pl_compiled p)" for cc
    using assms that by (force simp: apply_rule_def Let_def)
  have "\<not> list_ex fst ?outs" using one by (force simp: list_ex_iff)
  moreover have "length (concat (map snd (map (apply_rule cel p ns item) ccs))) = length ccs"
    if "set ccs \<subseteq> set (pl_compiled p)" for ccs
    using that one by (induction ccs) fastforce+
  moreover have "\<forall>i \<in> set (concat (map snd ?outs)). iss_Severity i = SeverityWarning"
    using one by fastforce
  ultimately show ?thesis by (simp add: check_object_def Let_def)
qed

definition example_plugin :: "unit PluginChecker" where
  "example_plugin = \<lparr>pl_name = ''p'', pl_spec = \<lparr>sp_TargetResource = \<lparr>tg_Group = [], tg_Version = ''v1'',
       tg_Kind = ''Pod'', tg_Resource = ''pods''\<rparr>, sp_Rules = []\<rparr>,
     pl_compiled = [\<lparr>cc_rule = \<lparr>rl_Name = ''r'', rl_Condition = ''x'', rl_Severity = [], rl_Message = ''m''\<rparr>,
       cc_program = (), cc_msgProg = None\<rparr>]\<rparr>"

definition failing_cel :: "(unit, unit) cel" where
  "failing_cel = \<lparr>cel_compile = (\<lambda>_. Inr ()), cel_program = (\<lambda>_. Inr ()), cel_eval = (\<lambda>_ _. Inl ''no such key'')\<rparr>"

theorem plugin_eval_error_counts_healthy_witness:
  "cr_Healthy (check_object failing_cel example_plugin ''team'' \<lparr>po_Name = ''a'', po_Object = ()\<rparr> (no_result ''c'')) = 1"
proof -
  have "\<forall>cc \<in> set (pl_compiled example_plugin). \<exists>e. Evaluate failing_cel (cc_program cc)
      (po_Object \<lparr>po_Name = ''a'', po_Object = ()\<rparr>) = Inl e"
    by (simp add: example_plugin_def failing_cel_def Evaluate_def)
  from plugin_eval_error_counts_healthy [OF this, of "''team''" "no_result ''c''"] show ?thesis
    by (simp add: no_result_def)
qed

text \<open>A plugin check without namespaces is reported as failed: with an empty list of namespaces nothing
  is listed and no list fails, yet the result carries the error that all zero namespaces failed.\<close>

theorem plugin_no_namespaces_is_error:
  "plugin_Check cel p \<lparr>src_list = list, src_namespaces = []\<rparr> =
     failed_result (plugin_Name p) ''all 0 namespace(s) failed: []''"
proof -
  have "itoa 0 = ''0''" by code_simp
  then show ?thesis by (simp add: plugin_Check_def no_result_def failed_result_def)
qed

end
