(* ===== verification/Flux_Checkers.thy ===== *)
theory Flux_Checkers
  imports Resource_Checkers
begin

text \<open>
  The checkers of Flux resources (\<open>internal/checker/flux/\<close>): Helm releases, kustomizations and Git
  repositories. The records hold the fields the code reads. Which snapshot of a Helm history is the
  latest is decided by the Flux library (\<open>Snapshots.Latest\<close>): the parameter \<open>latest\<close>. Messages are
  byte strings, so cutting one may split a character, as in the code.
\<close>

section \<open>Shared parts\<close>

record FluxCondition =
  fc_Type :: string
  fc_Status :: string
  fc_Reason :: string
  fc_Message :: string

definition DefaultStaleThreshold :: duration where "DefaultStaleThreshold = hour"

definition findCondition :: "FluxCondition list \<Rightarrow> string \<Rightarrow> FluxCondition option" where
  "findCondition conditions condType = find (\<lambda>c. fc_Type c = condType) conditions"

definition truncateMessage :: "string \<Rightarrow> nat \<Rightarrow> string" where
  "truncateMessage msg maxLen = (if length msg \<le> maxLen then msg else take (maxLen - 3) msg @ ''...'')"

definition parseReconcileRequestTime :: "string \<Rightarrow> time option" where
  "parseReconcileRequestTime v = (if v = [] then None else parse_rfc3339 v)"

text \<open>\<open>Supports\<close>: the error of listing one object is none, or not a missing resource type.\<close>

definition flux_Supports :: "('e \<Rightarrow> bool) \<Rightarrow> 'e option \<Rightarrow> bool" where
  "flux_Supports is_no_match err = (case err of None \<Rightarrow> True | Some e \<Rightarrow> \<not> is_no_match e)"

definition flux_issue :: "string \<Rightarrow> string \<Rightarrow> string \<Rightarrow> string \<Rightarrow> string \<Rightarrow> string \<Rightarrow> metadata \<Rightarrow> issue" where
  "flux_issue ref ns typ severity message suggestion meta =
     \<lparr>iss_Type = typ, iss_Severity = severity, iss_Resource = ref, iss_Namespace = ns,
      iss_Message = message, iss_Suggestion = suggestion, iss_Metadata = Some meta\<rparr>"

definition is_ready :: "FluxCondition option \<Rightarrow> bool" where
  "is_ready c = (case c of None \<Rightarrow> False | Some r \<Rightarrow> fc_Status r = ''True'')"

definition stale_metadata :: "string \<Rightarrow> string \<Rightarrow> time \<Rightarrow> duration \<Rightarrow> string \<Rightarrow> metadata" where
  "stale_metadata key name lastReconcile stale source =
     [key \<mapsto> name, ''lastReconcile'' \<mapsto> format_rfc3339 lastReconcile,
      ''staleDuration'' \<mapsto> duration_String stale, ''timestampSource'' \<mapsto> source]"

definition lookup_suggestion :: "(string \<times> string) list \<Rightarrow> string \<Rightarrow> string \<Rightarrow> string" where
  "lookup_suggestion m reason d = (case map_of m reason of Some s \<Rightarrow> s | None \<Rightarrow> d)"

section \<open>Helm releases (helmrelease.go)\<close>

record HelmSnapshot =
  hs_ChartName :: string
  hs_ChartVersion :: string
  hs_Version :: int
  hs_Status :: string

record HelmRelease =
  hr_Name :: string
  hr_Namespace :: string
  hr_Suspend :: bool
  hr_Conditions :: "FluxCondition list"
  hr_LastHandledReconcileAt :: string
  hr_History :: "HelmSnapshot list"

definition HelmReleaseCheckerName :: string where "HelmReleaseCheckerName = ''helmreleases''"

definition helm_suggestions :: "(string \<times> string) list" where
  "helm_suggestions =
     [(''UpgradeFailed'', (''Helm upgrade failed. Investigate with: kubectl describe helmrelease <name> -n '' @
       ''<namespace> and kubectl logs -n flux-system deploy/helm-controller | grep <name>. '' @
       ''Common causes: incompatible values, removed/renamed chart fields, or resource '' @
       ''conflicts. Check release history: helm history <name> -n <namespace>.'')),
      (''InstallFailed'', (''Helm install failed. Verify the chart exists and values are valid: kubectl describe '' @
       ''helmrelease <name> -n <namespace>. Common causes: chart not found, invalid values, '' @
       ''or pre-existing resources that conflict. Check: kubectl get events -n <namespace> '' @
       ''--field-selector reason=InstallFailed.'')),
      (''UninstallFailed'', (''Helm uninstall blocked. Check for finalizers: kubectl get helmrelease <name> -n '' @
       ''<namespace> -o jsonpath='' @ [CHR 0x27] @ ''{.metadata.finalizers}'' @ [CHR 0x27] @
       ''. Resources with finalizers or PVCs with retain policy can block deletion.'')),
      (''ArtifactFailed'', (''Chart artifact unavailable. Verify the source: kubectl get '' @
       ''helmrepository,gitrepository -n flux-system. Check source readiness: flux get '' @
       ''sources all -n flux-system.'')),
      (''ChartPullFailed'', (''Chart pull failed. Check repository access: kubectl describe helmrepository <repo> '' @
       ''-n flux-system. Verify credentials in the referenced Secret and network access to '' @
       ''the registry.'')),
      (''ReconciliationFailed'', (''Reconciliation failed. Check controller logs: kubectl logs -n flux-system '' @
       ''deploy/helm-controller --tail=50 | grep <name>. Force reconciliation: flux '' @
       ''reconcile helmrelease <name> -n <namespace>.'')),
      (''DependencyNotReady'', (''A dependency is not ready. Check dependent HelmReleases: kubectl get helmrelease -n '' @
       ''<namespace>. Resolve the upstream dependency first before this release can proceed.'')),
      (''ValuesValidationFailed'', (''Values do not match the chart schema. Inspect the chart'' @ [CHR 0x27] @
       ''s values.schema.json: helm show values <chart> and helm show readme <chart>. Check '' @
       ''which values are invalid in the HelmRelease events.''))]"

definition getSuggestionForHelmReason :: "string \<Rightarrow> string" where
  "getSuggestionForHelmReason reason = lookup_suggestion helm_suggestions reason
     ''Check HelmRelease status: kubectl describe helmrelease <name> -n <namespace>''"

definition hr_ref :: "HelmRelease \<Rightarrow> string" where
  "hr_ref hr = ''helmrelease/'' @ hr_Name hr"

definition helm_suspended :: "HelmRelease \<Rightarrow> issue list" where
  "helm_suspended hr =
     (if hr_Suspend hr then
        [flux_issue (hr_ref hr) (hr_Namespace hr) ''Suspended'' SeverityWarning
          (''HelmRelease '' @ hr_Name hr @ '' is suspended'')
          (''This HelmRelease is suspended and will not be reconciled. Resume with: flux resume '' @
       ''helmrelease '' @
       hr_Name hr @
       '' -n '' @
       hr_Namespace hr @
       ''. Check who suspended it: kubectl get helmrelease '' @
       hr_Name hr @
       '' -n '' @
       hr_Namespace hr @
       '' -o jsonpath='' @ [CHR 0x27] @ ''{.metadata.annotations}'' @ [CHR 0x27] @ ''.'')
          [''release'' \<mapsto> hr_Name hr]]
      else [])"

definition helm_severity :: "string \<Rightarrow> string" where
  "helm_severity reason =
     (if reason \<in> {''UpgradeFailed'', ''InstallFailed'', ''UninstallFailed''} then SeverityCritical
      else if reason \<in> {''ArtifactFailed'', ''ChartPullFailed''} then SeverityCritical
      else if reason = ''ReconciliationFailed'' then SeverityCritical
      else SeverityWarning)"

definition helm_not_ready :: "HelmRelease \<Rightarrow> issue list" where
  "helm_not_ready hr =
     (case findCondition (hr_Conditions hr) ''Ready'' of
        None \<Rightarrow> []
      | Some c \<Rightarrow>
          if fc_Status c \<noteq> ''True'' then
            [flux_issue (hr_ref hr) (hr_Namespace hr) (fc_Reason c) (helm_severity (fc_Reason c))
              (truncateMessage (fc_Message c) 200) (getSuggestionForHelmReason (fc_Reason c))
              [''release'' \<mapsto> hr_Name hr, ''reason'' \<mapsto> fc_Reason c]]
          else [])"

definition helm_stale :: "duration \<Rightarrow> time \<Rightarrow> HelmRelease \<Rightarrow> issue list" where
  "helm_stale threshold now hr =
     (if \<not> hr_Suspend hr \<and> is_ready (findCondition (hr_Conditions hr) ''Ready'') then
        (case parseReconcileRequestTime (hr_LastHandledReconcileAt hr) of
           None \<Rightarrow> []
         | Some lastReconcile \<Rightarrow>
             let stale = time_sub now lastReconcile in
             if stale > threshold then
               [flux_issue (hr_ref hr) (hr_Namespace hr) ''StaleReconciliation'' SeverityWarning
                 (''HelmRelease last reconciled '' @ duration_String (duration_Round stale minute) @ '' ago'')
                 (''Check if the Helm controller is running: kubectl get deploy -n flux-system '' @
       ''helm-controller. Force reconciliation: flux reconcile helmrelease '' @
       hr_Name hr @
       '' -n '' @
       hr_Namespace hr @
       ''. Check controller logs: kubectl logs -n flux-system deploy/helm-controller --tail=20.'')
                 (stale_metadata ''release'' (hr_Name hr) lastReconcile stale ''status.lastHandledReconcileAt'')]
             else [])
      else [])"

definition helm_failed :: "(HelmSnapshot list \<Rightarrow> HelmSnapshot option) \<Rightarrow> HelmRelease \<Rightarrow> issue list" where
  "helm_failed latest hr =
     (if hr_History hr = [] then []
      else case latest (hr_History hr) of
        None \<Rightarrow> []
      | Some s \<Rightarrow>
          if hs_Status s = ''failed'' then
            [flux_issue (hr_ref hr) (hr_Namespace hr) ''ReleaseFailed'' SeverityCritical
              (''HelmRelease '' @ hs_ChartName s @ '' version '' @ itoa (hs_Version s) @ '' is in failed state'')
              (''Release is in failed state. Check release history: helm history '' @
       hr_Name hr @
       '' -n '' @
       hr_Namespace hr @
       ''. View events: kubectl describe helmrelease '' @
       hr_Name hr @
       '' -n '' @
       hr_Namespace hr @
       ''. Consider rolling back: flux reconcile helmrelease '' @
       hr_Name hr @
       '' -n '' @
       hr_Namespace hr @
       '' --force.'')
              [''release'' \<mapsto> hr_Name hr, ''chartName'' \<mapsto> hs_ChartName s,
               ''chartVersion'' \<mapsto> hs_ChartVersion s, ''version'' \<mapsto> itoa (hs_Version s)]]
          else [])"

definition checkHelmRelease :: "(HelmSnapshot list \<Rightarrow> HelmSnapshot option) \<Rightarrow> duration \<Rightarrow> time \<Rightarrow>
    HelmRelease \<Rightarrow> issue list" where
  "checkHelmRelease latest threshold now hr =
     helm_suspended hr @ helm_not_ready hr @ helm_stale threshold now hr @ helm_failed latest hr"

definition helm_Check :: "(HelmSnapshot list \<Rightarrow> HelmSnapshot option) \<Rightarrow> duration \<Rightarrow> time \<Rightarrow>
    HelmRelease ns_source \<Rightarrow> result" where
  "helm_Check latest threshold now src =
     check_namespaces HelmReleaseCheckerName src (\<lambda>ns. fold (tally (checkHelmRelease latest threshold now)))"

section \<open>Kustomizations (kustomization.go)\<close>

record Kustomization =
  ks_Name :: string
  ks_Namespace :: string
  ks_Suspend :: bool
  ks_Conditions :: "FluxCondition list"
  ks_LastHandledReconcileAt :: string
  ks_LastAttemptedRevision :: string
  ks_LastAppliedRevision :: string

definition KustomizationCheckerName :: string where "KustomizationCheckerName = ''kustomizations''"

definition kustomization_suggestions :: "(string \<times> string) list" where
  "kustomization_suggestions =
     [(''BuildFailed'', (''Kustomize build failed. Test locally: kustomize build <path>. Check controller '' @
       ''logs: kubectl logs -n flux-system deploy/kustomize-controller --tail=50 | grep '' @
       ''<name>. Common causes: missing bases, invalid patches, or YAML syntax errors.'')),
      (''ValidationFailed'', (''Manifest validation failed against the Kubernetes API schema. Validate locally: '' @
       ''kubectl apply --dry-run=server -f <manifests>. Common causes: deprecated API '' @
       ''versions, invalid field names, or missing required fields.'')),
      (''HealthCheckFailed'', (''Deployed resources failed health checks. Check which resources are unhealthy: '' @
       ''kubectl describe kustomization <name> -n <namespace>. The health check message '' @
       ''usually lists specific failing resources.'')),
      (''ArtifactFailed'', (''Source artifact is unavailable. Check source status: flux get sources all -n '' @
       ''flux-system. Verify the GitRepository is ready: kubectl describe gitrepository '' @
       ''<name> -n flux-system.'')),
      (''ReconciliationFailed'', (''Reconciliation failed. Check controller logs: kubectl logs -n flux-system '' @
       ''deploy/kustomize-controller --tail=50 | grep <name>. Force reconciliation: flux '' @
       ''reconcile kustomization <name> -n <namespace>.'')),
      (''DependencyNotReady'', (''A dependency is not ready. Check the dependency chain: flux get kustomizations -n '' @
       ''<namespace>. Resolve the upstream dependency first before this Kustomization can '' @
       ''proceed.'')),
      (''PruneFailed'', (''Resource pruning failed. Check for finalizers or deletion protection: kubectl get '' @
       ''<resource> -o jsonpath='' @ [CHR 0x27] @ ''{.metadata.finalizers}'' @ [CHR 0x27] @
       ''. Resources with Helm ownership or custom finalizers may block pruning.''))]"

definition getSuggestionForKustomizationReason :: "string \<Rightarrow> string" where
  "getSuggestionForKustomizationReason reason = lookup_suggestion kustomization_suggestions reason
     ''Check Kustomization status: kubectl describe kustomization <name> -n <namespace>''"

definition ks_ref :: "Kustomization \<Rightarrow> string" where
  "ks_ref ks = ''kustomization/'' @ ks_Name ks"

definition kustomization_suspended :: "Kustomization \<Rightarrow> issue list" where
  "kustomization_suspended ks =
     (if ks_Suspend ks then
        [flux_issue (ks_ref ks) (ks_Namespace ks) ''Suspended'' SeverityWarning
          (''Kustomization '' @ ks_Name ks @ '' is suspended'')
          (''This Kustomization is suspended and will not be reconciled. Resume with: flux '' @
       ''resume kustomization '' @
       ks_Name ks @
       '' -n '' @
       ks_Namespace ks @
       ''. Check who suspended it: kubectl get kustomization '' @
       ks_Name ks @
       '' -n '' @
       ks_Namespace ks @
       '' -o jsonpath='' @ [CHR 0x27] @ ''{.metadata.annotations}'' @ [CHR 0x27] @ ''.'')
          [''kustomization'' \<mapsto> ks_Name ks]]
      else [])"

definition kustomization_severity :: "string \<Rightarrow> string" where
  "kustomization_severity reason =
     (if reason \<in> {''BuildFailed'', ''ValidationFailed'', ''HealthCheckFailed''} then SeverityCritical
      else if reason \<in> {''ArtifactFailed'', ''ReconciliationFailed''} then SeverityCritical
      else SeverityWarning)"

definition kustomization_not_ready :: "Kustomization \<Rightarrow> issue list" where
  "kustomization_not_ready ks =
     (case findCondition (ks_Conditions ks) ''Ready'' of
        None \<Rightarrow> []
      | Some c \<Rightarrow>
          if fc_Status c \<noteq> ''True'' then
            [flux_issue (ks_ref ks) (ks_Namespace ks) (fc_Reason c) (kustomization_severity (fc_Reason c))
              (truncateMessage (fc_Message c) 200) (getSuggestionForKustomizationReason (fc_Reason c))
              [''kustomization'' \<mapsto> ks_Name ks, ''reason'' \<mapsto> fc_Reason c]]
          else [])"

definition kustomization_stale :: "duration \<Rightarrow> time \<Rightarrow> Kustomization \<Rightarrow> issue list" where
  "kustomization_stale threshold now ks =
     (if \<not> ks_Suspend ks \<and> is_ready (findCondition (ks_Conditions ks) ''Ready'') \<and>
         ks_LastAttemptedRevision ks \<noteq> [] then
        (case parseReconcileRequestTime (ks_LastHandledReconcileAt ks) of
           None \<Rightarrow> []
         | Some lastReconcile \<Rightarrow>
             let stale = time_sub now lastReconcile in
             if stale > threshold then
               [flux_issue (ks_ref ks) (ks_Namespace ks) ''StaleReconciliation'' SeverityWarning
                 (''Kustomization last reconciled '' @ duration_String (duration_Round stale minute) @ '' ago'')
                 (''Check if the Kustomize controller is running: kubectl get deploy -n flux-system '' @
       ''kustomize-controller. Force reconciliation: flux reconcile kustomization '' @
       ks_Name ks @
       '' -n '' @
       ks_Namespace ks @
       ''. Check controller logs: kubectl logs -n flux-system deploy/kustomize-controller '' @
       ''--tail=20.'')
                 (stale_metadata ''kustomization'' (ks_Name ks) lastReconcile stale ''status.lastHandledReconcileAt'')]
             else [])
      else [])"

definition kustomization_pending :: "Kustomization \<Rightarrow> issue list" where
  "kustomization_pending ks =
     (if ks_LastAttemptedRevision ks \<noteq> [] \<and> ks_LastAppliedRevision ks \<noteq> [] \<and>
         ks_LastAttemptedRevision ks \<noteq> ks_LastAppliedRevision ks then
        [flux_issue (ks_ref ks) (ks_Namespace ks) ''PendingChanges'' SeverityInfo
          (''Kustomization has pending changes from '' @ ks_LastAppliedRevision ks @ '' to '' @
           ks_LastAttemptedRevision ks)
          (''Kustomization has unapplied changes. This can be normal during reconciliation. '' @
       ''Check status: flux get kustomization '' @
       ks_Name ks @
       '' -n '' @
       ks_Namespace ks @
       ''. If stuck, force reconciliation: flux reconcile kustomization '' @
       ks_Name ks @
       '' -n '' @
       ks_Namespace ks @
       ''.'')
          [''kustomization'' \<mapsto> ks_Name ks, ''fromRevision'' \<mapsto> ks_LastAppliedRevision ks,
           ''toRevision'' \<mapsto> ks_LastAttemptedRevision ks]]
      else [])"

definition kustomization_unhealthy :: "Kustomization \<Rightarrow> issue list" where
  "kustomization_unhealthy ks =
     (case findCondition (ks_Conditions ks) ''Healthy'' of
        None \<Rightarrow> []
      | Some c \<Rightarrow>
          if fc_Status c = ''False'' then
            [flux_issue (ks_ref ks) (ks_Namespace ks) ''UnhealthyResources'' SeverityWarning
              (truncateMessage (fc_Message c) 200)
              (''Resources managed by this Kustomization are unhealthy. Check which resources are '' @
       ''failing: kubectl describe kustomization '' @
       ks_Name ks @
       '' -n '' @
       ks_Namespace ks @
       ''. The health check message lists specific failing resources and their status.'')
              [''kustomization'' \<mapsto> ks_Name ks, ''healthReason'' \<mapsto> fc_Reason c]]
          else [])"

definition checkKustomization :: "duration \<Rightarrow> time \<Rightarrow> Kustomization \<Rightarrow> issue list" where
  "checkKustomization threshold now ks =
     kustomization_suspended ks @ kustomization_not_ready ks @ kustomization_stale threshold now ks @
     kustomization_pending ks @ kustomization_unhealthy ks"

definition kustomization_Check :: "duration \<Rightarrow> time \<Rightarrow> Kustomization ns_source \<Rightarrow> result" where
  "kustomization_Check threshold now src =
     check_namespaces KustomizationCheckerName src (\<lambda>ns. fold (tally (checkKustomization threshold now)))"

section \<open>Git repositories (gitrepository.go)\<close>

record GitArtifact =
  ga_Revision :: string
  ga_LastUpdateTime :: time

record GitRepository =
  gr_Name :: string
  gr_Namespace :: string
  gr_Suspend :: bool
  gr_URL :: string
  gr_SecretRef :: "string option"
  gr_Conditions :: "FluxCondition list"
  gr_LastHandledReconcileAt :: string
  gr_Artifact :: "GitArtifact option"

definition GitRepositoryCheckerName :: string where "GitRepositoryCheckerName = ''gitrepositories''"

definition git_suggestions :: "(string \<times> string) list" where
  "git_suggestions =
     [(''GitOperationFailed'', (''Git operation failed. Check the repository URL and network connectivity. Verify the '' @
       ''repo exists and is accessible: kubectl describe gitrepository <name> -n '' @
       ''<namespace>. If behind a proxy, check that the source-controller has proper proxy '' @
       ''configuration.'')),
      (''AuthenticationFailed'', (''Authentication to the Git repository failed. Check the credentials Secret: kubectl '' @
       ''get secret <secret-name> -n <namespace> -o yaml. For SSH: verify the key is not '' @
       ''expired. For HTTPS: verify the token has repo access. Regenerate credentials if '' @
       ''needed and update the Secret.'')),
      (''CheckoutFailed'', (''Git checkout failed. The branch, tag, or commit reference may not exist. Verify the '' @
       ''ref: kubectl get gitrepository <name> -n <namespace> -o jsonpath='' @ [CHR 0x27] @
       ''{.spec.ref}'' @ [CHR 0x27] @
       ''. Ensure the referenced branch/tag exists in the remote repository.'')),
      (''CloneFailed'', (''Git clone failed. Check repository URL and access: kubectl describe gitrepository '' @
       ''<name> -n <namespace>. Common causes: wrong URL, network issues, or authentication '' @
       ''problems. Test access: git ls-remote <url>.'')),
      (''StorageOperationFailed'', (''Source controller storage error. This may indicate disk pressure or a bug. Restart '' @
       ''the controller: kubectl rollout restart deploy/source-controller -n flux-system. '' @
       ''Check disk usage on the controller pod: kubectl exec -n flux-system '' @
       ''deploy/source-controller -- df -h.'')),
      (''ReconciliationFailed'', (''Reconciliation failed. Check controller logs: kubectl logs -n flux-system '' @
       ''deploy/source-controller --tail=50 | grep <name>. Force reconciliation: flux '' @
       ''reconcile source git <name> -n <namespace>.''))]"

definition getSuggestionForGitRepoReason :: "string \<Rightarrow> string" where
  "getSuggestionForGitRepoReason reason = lookup_suggestion git_suggestions reason
     ''Check GitRepository status: kubectl describe gitrepository <name> -n <namespace>''"

definition isPrivateRepo :: "string \<Rightarrow> bool" where
  "isPrivateRepo url \<longleftrightarrow> has_prefix url ''git@'' \<or> has_prefix url ''ssh://''"

definition gr_ref :: "GitRepository \<Rightarrow> string" where
  "gr_ref gr = ''gitrepository/'' @ gr_Name gr"

definition git_suspended :: "GitRepository \<Rightarrow> issue list" where
  "git_suspended gr =
     (if gr_Suspend gr then
        [flux_issue (gr_ref gr) (gr_Namespace gr) ''Suspended'' SeverityWarning
          (''GitRepository '' @ gr_Name gr @ '' is suspended'')
          (''This GitRepository is suspended and will not fetch new revisions. Resume with: flux '' @
       ''resume source git '' @
       gr_Name gr @
       '' -n '' @
       gr_Namespace gr @
       ''.'')
          [''repository'' \<mapsto> gr_Name gr, ''url'' \<mapsto> gr_URL gr]]
      else [])"

definition git_severity :: "string \<Rightarrow> string" where
  "git_severity reason =
     (if reason \<in> {''GitOperationFailed'', ''AuthenticationFailed''} then SeverityCritical
      else if reason \<in> {''CheckoutFailed'', ''CloneFailed''} then SeverityCritical
      else if reason = ''StorageOperationFailed'' then SeverityCritical
      else SeverityWarning)"

definition git_not_ready :: "GitRepository \<Rightarrow> issue list" where
  "git_not_ready gr =
     (case findCondition (gr_Conditions gr) ''Ready'' of
        None \<Rightarrow> []
      | Some c \<Rightarrow>
          if fc_Status c \<noteq> ''True'' then
            [flux_issue (gr_ref gr) (gr_Namespace gr) (fc_Reason c) (git_severity (fc_Reason c))
              (truncateMessage (fc_Message c) 200) (getSuggestionForGitRepoReason (fc_Reason c))
              [''repository'' \<mapsto> gr_Name gr, ''url'' \<mapsto> gr_URL gr, ''reason'' \<mapsto> fc_Reason c]]
          else [])"

text \<open>The last reconciliation: the handled request, else the artifact's update time if it is set.\<close>

definition git_last_reconcile :: "GitRepository \<Rightarrow> (time \<times> string) option" where
  "git_last_reconcile gr =
     (case parseReconcileRequestTime (gr_LastHandledReconcileAt gr) of
        Some t \<Rightarrow> Some (t, ''status.lastHandledReconcileAt'')
      | None \<Rightarrow>
          (case gr_Artifact gr of
             Some a \<Rightarrow> if ga_LastUpdateTime a \<noteq> zero_time
               then Some (ga_LastUpdateTime a, ''status.artifact.lastUpdateTime'') else None
           | None \<Rightarrow> None))"

definition git_stale :: "duration \<Rightarrow> time \<Rightarrow> GitRepository \<Rightarrow> issue list" where
  "git_stale threshold now gr =
     (if \<not> gr_Suspend gr \<and> is_ready (findCondition (gr_Conditions gr) ''Ready'') then
        (case git_last_reconcile gr of
           None \<Rightarrow> []
         | Some (lastReconcile, source) \<Rightarrow>
             let stale = time_sub now lastReconcile in
             if stale > threshold then
               [flux_issue (gr_ref gr) (gr_Namespace gr) ''StaleReconciliation'' SeverityWarning
                 (''GitRepository last reconciled '' @ duration_String (duration_Round stale minute) @ '' ago'')
                 (''Check if the source controller is running: kubectl get deploy -n flux-system '' @
       ''source-controller. Force reconciliation: flux reconcile source git '' @
       gr_Name gr @
       '' -n '' @
       gr_Namespace gr @
       ''.'')
                 (stale_metadata ''repository'' (gr_Name gr) lastReconcile stale source)]
             else [])
      else [])"

definition has_artifact :: "GitRepository \<Rightarrow> bool" where
  "has_artifact gr = (case gr_Artifact gr of None \<Rightarrow> False | Some a \<Rightarrow> ga_Revision a \<noteq> [])"

definition git_no_artifact :: "GitRepository \<Rightarrow> issue list" where
  "git_no_artifact gr =
     (if \<not> has_artifact gr \<and> is_ready (findCondition (gr_Conditions gr) ''Ready'') then
        [flux_issue (gr_ref gr) (gr_Namespace gr) ''NoArtifact'' SeverityWarning
          ''GitRepository is ready but has no artifact''
          (''GitRepository shows Ready but has no artifact. This may indicate a storage issue. '' @
       ''Check source-controller logs: kubectl logs -n flux-system deploy/source-controller '' @
       ''--tail=30 | grep '' @
       gr_Name gr @
       ''. Try forcing a reconciliation: flux reconcile source git '' @
       gr_Name gr @
       '' -n '' @
       gr_Namespace gr @
       ''.'')
          [''repository'' \<mapsto> gr_Name gr]]
      else [])"

definition git_no_auth :: "GitRepository \<Rightarrow> issue list" where
  "git_no_auth gr =
     (if gr_SecretRef gr = None \<and> isPrivateRepo (gr_URL gr) then
        [flux_issue (gr_ref gr) (gr_Namespace gr) ''NoAuthentication'' SeverityWarning
          ''GitRepository appears to be private but has no secretRef configured''
          (''This repository uses an SSH or private URL but has no secretRef for authentication. '' @
       ''Create a Secret with the credentials and reference it: kubectl create secret '' @
       ''generic git-creds --from-file=identity=<key> -n '' @
       gr_Namespace gr @
       ''. Then add secretRef to the GitRepository spec.'')
          [''repository'' \<mapsto> gr_Name gr, ''url'' \<mapsto> gr_URL gr]]
      else [])"

definition checkGitRepository :: "duration \<Rightarrow> time \<Rightarrow> GitRepository \<Rightarrow> issue list" where
  "checkGitRepository threshold now gr =
     git_suspended gr @ git_not_ready gr @ git_stale threshold now gr @ git_no_artifact gr @ git_no_auth gr"

definition git_Check :: "duration \<Rightarrow> time \<Rightarrow> GitRepository ns_source \<Rightarrow> result" where
  "git_Check threshold now src =
     check_namespaces GitRepositoryCheckerName src (\<lambda>ns. fold (tally (checkGitRepository threshold now)))"

section \<open>The checkers meet the contract\<close>

lemma flux_issue_fields [simp]:
  "iss_Type (flux_issue ref ns t sev m sg md) = t"
  "iss_Severity (flux_issue ref ns t sev m sg md) = sev"
  "iss_Namespace (flux_issue ref ns t sev m sg md) = ns"
  "iss_Message (flux_issue ref ns t sev m sg md) = m"
  by (simp_all add: flux_issue_def)

lemma flux_severity_members [simp]:
  "helm_severity r \<in> set severities" "kustomization_severity r \<in> set severities"
  "git_severity r \<in> set severities"
  by (simp_all add: helm_severity_def kustomization_severity_def git_severity_def)

lemmas flux_check_defs = checkHelmRelease_def helm_suspended_def helm_not_ready_def helm_stale_def
  helm_failed_def checkKustomization_def kustomization_suspended_def kustomization_not_ready_def
  kustomization_stale_def kustomization_pending_def kustomization_unhealthy_def checkGitRepository_def
  git_suspended_def git_not_ready_def git_stale_def git_no_artifact_def git_no_auth_def

lemma flux_check_issues:
  "list_all (\<lambda>i. iss_Severity i \<in> set severities \<and> iss_Namespace i = hr_Namespace hr)
     (checkHelmRelease latest threshold now hr)"
  "list_all (\<lambda>i. iss_Severity i \<in> set severities \<and> iss_Namespace i = ks_Namespace ks)
     (checkKustomization threshold now ks)"
  "list_all (\<lambda>i. iss_Severity i \<in> set severities \<and> iss_Namespace i = gr_Namespace gr)
     (checkGitRepository threshold now gr)"
  unfolding flux_check_defs Let_def by (simp_all split: option.split prod.split)

interpretation helmreleases: health_checker HelmReleaseCheckerName "helm_Check latest threshold now"
    src_namespaces "source_ok hr_Namespace" for latest threshold now
  unfolding helm_Check_def
  by (rule tally_checker) (use flux_check_issues(1) in \<open>auto simp: list_all_iff\<close>)

interpretation kustomizations: health_checker KustomizationCheckerName "kustomization_Check threshold now"
    src_namespaces "source_ok ks_Namespace" for threshold now
  unfolding kustomization_Check_def
  by (rule tally_checker) (use flux_check_issues(2) in \<open>auto simp: list_all_iff\<close>)

interpretation gitrepositories: health_checker GitRepositoryCheckerName "git_Check threshold now"
    src_namespaces "source_ok gr_Namespace" for threshold now
  unfolding git_Check_def
  by (rule tally_checker) (use flux_check_issues(3) in \<open>auto simp: list_all_iff\<close>)

section \<open>Properties\<close>

text \<open>Which Flux resources are critical: a Helm release exactly when its ready condition fails for one
  of the six failure reasons or its latest release failed; a kustomization or a Git repository exactly
  when its ready condition fails for one of five reasons. Suspension, staleness, pending changes, failed
  health and missing artifacts or credentials are never critical.\<close>

theorem flux_critical_iff:
  "(list_ex (\<lambda>i. iss_Severity i = SeverityCritical) (checkHelmRelease latest threshold now hr) \<longleftrightarrow>
     (\<exists>c. findCondition (hr_Conditions hr) ''Ready'' = Some c \<and> fc_Status c \<noteq> ''True'' \<and>
        fc_Reason c \<in> {''UpgradeFailed'', ''InstallFailed'', ''UninstallFailed'', ''ArtifactFailed'',
          ''ChartPullFailed'', ''ReconciliationFailed''}) \<or>
     (\<exists>s. hr_History hr \<noteq> [] \<and> latest (hr_History hr) = Some s \<and> hs_Status s = ''failed'')) \<and>
   (list_ex (\<lambda>i. iss_Severity i = SeverityCritical) (checkKustomization threshold now ks) \<longleftrightarrow>
     (\<exists>c. findCondition (ks_Conditions ks) ''Ready'' = Some c \<and> fc_Status c \<noteq> ''True'' \<and>
        fc_Reason c \<in> {''BuildFailed'', ''ValidationFailed'', ''HealthCheckFailed'', ''ArtifactFailed'',
          ''ReconciliationFailed''})) \<and>
   (list_ex (\<lambda>i. iss_Severity i = SeverityCritical) (checkGitRepository threshold now gr) \<longleftrightarrow>
     (\<exists>c. findCondition (gr_Conditions gr) ''Ready'' = Some c \<and> fc_Status c \<noteq> ''True'' \<and>
        fc_Reason c \<in> {''GitOperationFailed'', ''AuthenticationFailed'', ''CheckoutFailed'', ''CloneFailed'',
          ''StorageOperationFailed''}))"
proof (intro conjI)
  have crit: "SeverityCritical \<noteq> SeverityWarning" "SeverityInfo \<noteq> SeverityCritical"
    by (simp_all add: severity_defs)
  have sev: "helm_severity r = SeverityCritical \<longleftrightarrow> r \<in> {''UpgradeFailed'', ''InstallFailed'', ''UninstallFailed'',
      ''ArtifactFailed'', ''ChartPullFailed'', ''ReconciliationFailed''}"
    "kustomization_severity r = SeverityCritical \<longleftrightarrow> r \<in> {''BuildFailed'', ''ValidationFailed'',
      ''HealthCheckFailed'', ''ArtifactFailed'', ''ReconciliationFailed''}"
    "git_severity r = SeverityCritical \<longleftrightarrow> r \<in> {''GitOperationFailed'', ''AuthenticationFailed'',
      ''CheckoutFailed'', ''CloneFailed'', ''StorageOperationFailed''}" for r
    using crit by (auto simp: helm_severity_def kustomization_severity_def git_severity_def)
  note rules = flux_check_defs Let_def list_ex_append sev
  show "list_ex (\<lambda>i. iss_Severity i = SeverityCritical) (checkHelmRelease latest threshold now hr) \<longleftrightarrow>
     (\<exists>c. findCondition (hr_Conditions hr) ''Ready'' = Some c \<and> fc_Status c \<noteq> ''True'' \<and>
        fc_Reason c \<in> {''UpgradeFailed'', ''InstallFailed'', ''UninstallFailed'', ''ArtifactFailed'',
          ''ChartPullFailed'', ''ReconciliationFailed''}) \<or>
     (\<exists>s. hr_History hr \<noteq> [] \<and> latest (hr_History hr) = Some s \<and> hs_Status s = ''failed'')"
    using crit by (cases "findCondition (hr_Conditions hr) ''Ready''"; cases "latest (hr_History hr)")
      (simp_all add: rules is_ready_def split: option.split)
  show "list_ex (\<lambda>i. iss_Severity i = SeverityCritical) (checkKustomization threshold now ks) \<longleftrightarrow>
     (\<exists>c. findCondition (ks_Conditions ks) ''Ready'' = Some c \<and> fc_Status c \<noteq> ''True'' \<and>
        fc_Reason c \<in> {''BuildFailed'', ''ValidationFailed'', ''HealthCheckFailed'', ''ArtifactFailed'',
          ''ReconciliationFailed''})"
    using crit by (cases "findCondition (ks_Conditions ks) ''Ready''")
      (simp_all add: rules is_ready_def split: option.split)
  show "list_ex (\<lambda>i. iss_Severity i = SeverityCritical) (checkGitRepository threshold now gr) \<longleftrightarrow>
     (\<exists>c. findCondition (gr_Conditions gr) ''Ready'' = Some c \<and> fc_Status c \<noteq> ''True'' \<and>
        fc_Reason c \<in> {''GitOperationFailed'', ''AuthenticationFailed'', ''CheckoutFailed'', ''CloneFailed'',
          ''StorageOperationFailed''})"
    using crit by (cases "findCondition (gr_Conditions gr) ''Ready''")
      (simp_all add: rules is_ready_def split: option.split prod.split)
qed

end
