(* ===== verification/Workload_Checker.thy ===== *)
theory Workload_Checker
  imports Resource_Checkers
begin

text \<open>
  The workload checker (\<open>internal/checker/workload/checker.go\<close>): deployments, stateful sets and
  daemon sets are judged by their pods, which are listed once per namespace and matched by label
  selector. The parsing of a selector (\<open>metav1.LabelSelectorAsSelector\<close>) is a parameter that gives
  an error or the matching predicate on labels.
\<close>

section \<open>Pods and workloads\<close>

record ContainerStatus =
  cs_Name :: string
  cs_Ready :: bool
  cs_Waiting :: "(string \<times> string) option"    \<comment> \<open>reason and message\<close>
  cs_Terminated :: "(string \<times> int) option"    \<comment> \<open>reason and exit code\<close>
  cs_RestartCount :: int

record PodCondition =
  pc_Type :: string
  pc_Status :: string
  pc_Reason :: string
  pc_Message :: string

record Container =
  cn_Name :: string
  cn_Limits :: "string \<rightharpoonup> rat"
  cn_Requests :: "string \<rightharpoonup> rat"
  cn_LivenessProbe :: bool
  cn_ReadinessProbe :: bool

type_synonym labels = "string \<rightharpoonup> string"

record Pod =
  pod_Name :: string
  pod_Labels :: labels
  pod_Phase :: string
  pod_ContainerStatuses :: "ContainerStatus list"
  pod_Conditions :: "PodCondition list"
  pod_Containers :: "Container list"

record 'sel Workload =
  wl_Name :: string
  wl_Selector :: 'sel

definition workload_CheckerName :: string where "workload_CheckerName = ''workloads''"

definition DefaultRestartThreshold :: int where "DefaultRestartThreshold = 3"

definition getRestartThreshold :: "config \<Rightarrow> int" where
  "getRestartThreshold cfg =
     (case cfg of None \<Rightarrow> DefaultRestartThreshold
      | Some m \<Rightarrow> (case m ''restartThreshold'' of Some (CfgInt t) \<Rightarrow> t | _ \<Rightarrow> DefaultRestartThreshold))"

section \<open>Suggestions\<close>

definition waiting_suggestions :: "(string \<times> string) list" where
  "waiting_suggestions =
     [(''ImagePullBackOff'', (''The container image cannot be pulled. Common causes: typo in image name/tag, '' @
       ''missing imagePullSecrets, or private registry without credentials. Investigate '' @
       ''with: kubectl describe pod <pod> | grep -A5 '' @ [CHR 0x27] @ ''Events'' @ [CHR 0x27] @
       '' and kubectl get events --field-selector reason=Failed'')),
      (''ErrImagePull'', (''Image pull failed. Verify the image exists: docker manifest inspect <image>:<tag>. '' @
       ''For private registries, ensure imagePullSecrets are configured: kubectl get pod '' @
       ''<pod> -o jsonpath='' @ [CHR 0x27] @ ''{.spec.imagePullSecrets}'' @ [CHR 0x27] @
       ''. See Kubernetes docs on private registries.'')),
      (''CrashLoopBackOff'', (''The container is repeatedly crashing. Check recent logs with: kubectl logs <pod> '' @
       ''--previous. Common causes: missing config/secrets, incorrect entrypoint, or '' @
       ''application errors. If OOM-related, check: kubectl describe pod <pod> | grep -i oom'')),
      (''CreateContainerConfigError'', (''Container configuration is invalid. Usually a missing ConfigMap or Secret. Check '' @
       ''which references are broken: kubectl describe pod <pod> | grep -A3 '' @ [CHR 0x27] @
       ''Warning'' @ [CHR 0x27] @
       ''. Verify referenced ConfigMaps/Secrets exist: kubectl get cm,secret -n <namespace>'')),
      (''ContainerCreating'', (''Container is being created. If stuck for more than a few minutes, check events: '' @
       ''kubectl describe pod <pod>. Common causes: slow image pull, volume mount issues, or '' @
       ''node resource pressure.'')),
      (''PodInitializing'', (''Init containers are running. If stuck, check init container logs: kubectl logs '' @
       ''<pod> -c <init-container-name>. List init containers: kubectl get pod <pod> -o '' @
       ''jsonpath='' @ [CHR 0x27] @ ''{.spec.initContainers[*].name}'' @ [CHR 0x27]))]"

definition GetSuggestionForWaitingReason :: "string \<Rightarrow> string" where
  "GetSuggestionForWaitingReason reason =
     (case map_of waiting_suggestions reason of
        Some s \<Rightarrow> s
      | None \<Rightarrow> ''Check pod events for more details: kubectl describe pod <pod>'')"

definition GetSuggestionForTerminatedReason :: "string \<Rightarrow> int \<Rightarrow> string" where
  "GetSuggestionForTerminatedReason reason exitCode =
     (if reason = ''OOMKilled'' then
        (''Container exceeded its memory limit and was OOM-killed. Check current limits: '' @
       ''kubectl describe pod <pod> | grep -A2 '' @ [CHR 0x27] @ ''Limits'' @ [CHR 0x27] @
       ''. Increase the memory limit in the pod spec, or profile the application to reduce '' @
       ''memory usage. See Kubernetes docs on managing resources for containers.'')
      else if exitCode = 137 then
        (''Container was killed with SIGKILL (exit code 137). This typically indicates OOM '' @
       ''kill or an external signal. Check: kubectl describe pod <pod> | grep -i oom, and '' @
       ''kubectl top pod <pod> to see current memory usage. Also check node memory pressure: '' @
       ''kubectl describe node <node> | grep -A5 '' @ [CHR 0x27] @ ''Conditions'' @ [CHR 0x27] @
       ''.'')
      else if exitCode = 143 then
        (''Container received SIGTERM (exit code 143). This is normal during rolling updates, '' @
       ''scale-downs, or pod evictions. If unexpected, check: kubectl get events '' @
       ''--field-selector reason=Killing -n <namespace>.'')
      else if exitCode = 1 then
        (''Application exited with error code 1. Check logs: kubectl logs <pod> --previous. '' @
       ''Common causes: unhandled exceptions, missing configuration, or failed startup '' @
       ''checks.'')
      else if exitCode = 126 then
        (''Command cannot be executed (exit code 126). The entrypoint or command exists but is '' @
       ''not executable. Check file permissions in the container image and verify the binary '' @
       ''format matches the container architecture (e.g., amd64 vs arm64).'')
      else if exitCode = 127 then
        (''Command not found (exit code 127). The entrypoint or command does not exist in the '' @
       ''container. Verify the image contains the expected binary: kubectl exec <pod> -- ls '' @
       ''/path/to/binary. Check the container'' @ [CHR 0x27] @
       ''s command and args fields in the pod spec.'')
      else ''Container exited with code '' @ itoa exitCode @
        ''. Check application logs: kubectl logs <pod> --previous.'')"

section \<open>Diagnosing a pod\<close>

definition workload_issue :: "string \<Rightarrow> string \<Rightarrow> string \<Rightarrow> string \<Rightarrow> string \<Rightarrow> string \<Rightarrow> metadata \<Rightarrow> issue" where
  "workload_issue ns ref typ severity message suggestion meta =
     \<lparr>iss_Type = typ, iss_Severity = severity, iss_Resource = ref, iss_Namespace = ns,
      iss_Message = message, iss_Suggestion = suggestion, iss_Metadata = Some meta\<rparr>"

definition phase_issues :: "Pod \<Rightarrow> string \<Rightarrow> string \<Rightarrow> issue list" where
  "phase_issues pod ns ref =
     (if pod_Phase pod \<noteq> ''Running'' \<and> pod_Phase pod \<noteq> ''Succeeded''
      then [workload_issue ns ref ''PodNotRunning'' SeverityCritical
        (''Pod '' @ pod_Name pod @ '' is in '' @ pod_Phase pod @ '' phase'') []
        [''pod'' \<mapsto> pod_Name pod, ''phase'' \<mapsto> pod_Phase pod]]
      else [])"

definition not_ready_issue :: "Pod \<Rightarrow> string \<Rightarrow> string \<Rightarrow> ContainerStatus \<Rightarrow> issue" where
  "not_ready_issue pod ns ref cs =
     (let meta = [''pod'' \<mapsto> pod_Name pod, ''container'' \<mapsto> cs_Name cs] in
      case cs_Waiting cs of
        Some (reason, msg) \<Rightarrow>
          workload_issue ns ref ''ContainerNotReady'' SeverityCritical
            (''Container '' @ cs_Name cs @ '' is waiting: '' @ reason @ (if msg \<noteq> [] then '' - '' @ msg else []))
            (GetSuggestionForWaitingReason reason) (meta(''reason'' \<mapsto> reason))
      | None \<Rightarrow>
          (case cs_Terminated cs of
             Some (reason, code) \<Rightarrow>
               workload_issue ns ref ''ContainerNotReady'' SeverityCritical
                 (''Container '' @ cs_Name cs @ '' terminated: '' @ reason @ '' (exit code '' @ itoa code @ '')'')
                 (GetSuggestionForTerminatedReason reason code)
                 (meta(''reason'' \<mapsto> reason, ''exitCode'' \<mapsto> itoa code))
           | None \<Rightarrow>
               workload_issue ns ref ''ContainerNotReady'' SeverityCritical
                 (''Container '' @ cs_Name cs @ '' in pod '' @ pod_Name pod @ '' is not ready'') [] meta))"

definition restart_issue :: "Pod \<Rightarrow> string \<Rightarrow> string \<Rightarrow> int \<Rightarrow> ContainerStatus \<Rightarrow> issue" where
  "restart_issue pod ns ref threshold cs =
     workload_issue ns ref ''HighRestartCount'' SeverityWarning
       (''Container '' @ cs_Name cs @ '' has restarted '' @ itoa (cs_RestartCount cs) @
        '' times (threshold: '' @ itoa threshold @ '')'')
       (''Check previous logs: kubectl logs '' @ pod_Name pod @ '' -c '' @ cs_Name cs @ '' --previous -n '' @ ns @
        (''. Common causes: OOM kills, liveness probe failures, or application crashes. Check '' @
       ''exit reason: kubectl describe pod '') @
        pod_Name pod @ '' -n '' @ ns @ ('' | grep -A5 '' @ [CHR 0x27] @ ''Last State'' @ [CHR 0x27] @ ''.''))
       [''pod'' \<mapsto> pod_Name pod, ''container'' \<mapsto> cs_Name cs, ''restartCount'' \<mapsto> itoa (cs_RestartCount cs)]"

text \<open>The conversion to \<open>int32\<close> after \<open>min\<close> only matters for a threshold that is not negative.\<close>

definition container_status_issues :: "Pod \<Rightarrow> string \<Rightarrow> string \<Rightarrow> int \<Rightarrow> ContainerStatus \<Rightarrow> issue list" where
  "container_status_issues pod ns ref threshold cs =
     (if \<not> cs_Ready cs then [not_ready_issue pod ns ref cs] else []) @
     (if threshold \<ge> 0 \<and> cs_RestartCount cs > min threshold (2 ^ 31 - 1)
      then [restart_issue pod ns ref threshold cs] else [])"

definition condition_issues :: "Pod \<Rightarrow> string \<Rightarrow> string \<Rightarrow> PodCondition \<Rightarrow> issue list" where
  "condition_issues pod ns ref cond =
     (if pc_Status cond = ''False'' then
        if pc_Type cond = ''PodScheduled'' then
          [workload_issue ns ref ''SchedulingFailed'' SeverityCritical
            (''Pod '' @ pod_Name pod @ '' failed to schedule: '' @ pc_Message cond)
            ((''Check node capacity: kubectl describe nodes | grep -A5 '' @ [CHR 0x27] @
       ''Allocated resources'' @ [CHR 0x27] @
       ''. Verify taints/tolerations: kubectl get nodes -o '' @
       ''custom-columns=NAME:.metadata.name,TAINTS:.spec.taints. Check pod affinity rules: '' @
       ''kubectl get pod '') @
             pod_Name pod @ '' -n '' @ ns @
             ('' -o jsonpath='' @ [CHR 0x27] @ ''{.spec.affinity}'' @ [CHR 0x27] @
       ''. See Kubernetes docs on scheduling and eviction.''))
            [''pod'' \<mapsto> pod_Name pod, ''reason'' \<mapsto> pc_Reason cond]]
        else if pc_Type cond = ''Ready'' then
          if pc_Reason cond = ''ContainersNotReady'' then []
          else [workload_issue ns ref ''PodNotReady'' SeverityWarning
            (''Pod '' @ pod_Name pod @ '' not ready: '' @ pc_Message cond) []
            [''pod'' \<mapsto> pod_Name pod, ''reason'' \<mapsto> pc_Reason cond]]
        else []
      else [])"

definition quantity_zero :: "string \<Rightarrow> (string \<rightharpoonup> rat) \<Rightarrow> bool" where
  "quantity_zero name m = (case m name of None \<Rightarrow> True | Some q \<Rightarrow> q = 0)"

definition checkContainerBestPractices :: "Container \<Rightarrow> string \<Rightarrow> string \<Rightarrow> string \<Rightarrow> issue list" where
  "checkContainerBestPractices c podName ns ref =
     (let meta = [''pod'' \<mapsto> podName, ''container'' \<mapsto> cn_Name c] in
      (if quantity_zero ''memory'' (cn_Limits c) then
         [workload_issue ns ref ''NoMemoryLimit'' SeverityWarning
           (''Container '' @ cn_Name c @ '' has no memory limit set'')
           ((''Set a memory limit to prevent OOM issues and ensure fair resource sharing. Without '' @
       ''a limit, the container can consume all available node memory. Check current usage: '' @
       ''kubectl top pod <pod> -n '') @
            ns @ ''. See Kubernetes docs on resource management for containers.'') meta] else []) @
      (if quantity_zero ''cpu'' (cn_Limits c) then
         [workload_issue ns ref ''NoCPULimit'' SeverityInfo
           (''Container '' @ cn_Name c @ '' has no CPU limit set'')
           ((''Consider setting CPU limits for predictable performance. Note: some teams '' @
       ''intentionally omit CPU limits to avoid throttling. Check current usage: kubectl top '' @
       ''pod <pod> -n '') @
            ns @ ''.'') meta] else []) @
      (if quantity_zero ''memory'' (cn_Requests c) \<and> quantity_zero ''cpu'' (cn_Requests c) then
         [workload_issue ns ref ''NoResourceRequests'' SeverityWarning
           (''Container '' @ cn_Name c @ '' has no resource requests set'')
           (''Set resource requests so the scheduler can place pods on nodes with sufficient '' @
       ''capacity. Without requests, pods get BestEffort QoS and are evicted first under '' @
       ''memory pressure. See Kubernetes docs on pod QoS classes.'')
           meta] else []) @
      (if \<not> cn_LivenessProbe c then
         [workload_issue ns ref ''NoLivenessProbe'' SeverityInfo
           (''Container '' @ cn_Name c @ '' has no liveness probe configured'')
           (''Add a liveness probe to enable automatic container restart when the application '' @
       ''becomes unresponsive. Use httpGet for HTTP services or exec for CLI-based checks. '' @
       ''See Kubernetes docs on configure liveness, readiness and startup probes.'')
           meta] else []) @
      (if \<not> cn_ReadinessProbe c then
         [workload_issue ns ref ''NoReadinessProbe'' SeverityInfo
           (''Container '' @ cn_Name c @ '' has no readiness probe configured'')
           (''Add a readiness probe to prevent traffic from being sent to pods that are not ready '' @
       ''to serve requests. This is especially important for services behind a '' @
       ''Service/Ingress. See Kubernetes docs on configure liveness, readiness and startup '' @
       ''probes.'')
           meta] else []))"

definition diagnosePod :: "Pod \<Rightarrow> string \<Rightarrow> string \<Rightarrow> int \<Rightarrow> issue list" where
  "diagnosePod pod ns ref threshold =
     phase_issues pod ns ref @
     concat (map (container_status_issues pod ns ref threshold) (pod_ContainerStatuses pod)) @
     concat (map (condition_issues pod ns ref) (pod_Conditions pod)) @
     concat (map (\<lambda>c. checkContainerBestPractices c (pod_Name pod) ns ref) (pod_Containers pod))"

definition diagnosePods :: "Pod list \<Rightarrow> string \<Rightarrow> string \<Rightarrow> int \<Rightarrow> issue list" where
  "diagnosePods pods ns ref threshold = concat (map (\<lambda>p. diagnosePod p ns ref threshold) pods)"

section \<open>Checking the workloads\<close>

type_synonym 'sel selector_lib = "'sel \<Rightarrow> string + (labels \<Rightarrow> bool)"

definition filterPodsForWorkload :: "'sel selector_lib \<Rightarrow> Pod list \<Rightarrow> 'sel \<Rightarrow> string + Pod list" where
  "filterPodsForWorkload lib pods selector =
     (case lib selector of Inl e \<Rightarrow> Inl e | Inr sel \<Rightarrow> Inr (filter (\<lambda>p. sel (pod_Labels p)) pods))"

record 'sel workload_source =
  ws_pods :: "Pod lister"
  ws_deployments :: "'sel Workload lister"
  ws_statefulsets :: "'sel Workload lister"
  ws_daemonsets :: "'sel Workload lister"
  ws_namespaces :: "string list"
  ws_config :: config

text \<open>The loop over the listed workloads of one kind; \<open>prefix\<close> is that of the resource reference.\<close>

definition check_workload :: "'sel selector_lib \<Rightarrow> Pod list \<Rightarrow> string \<Rightarrow> int \<Rightarrow> string \<Rightarrow> 'sel Workload \<Rightarrow>
    result \<Rightarrow> result" where
  "check_workload lib pods ns threshold kind w r =
     (case filterPodsForWorkload lib pods (wl_Selector w) of
        Inl _ \<Rightarrow> r
      | Inr matched \<Rightarrow> tally (\<lambda>w. diagnosePods matched ns (kind @ ''/'' @ wl_Name w) threshold) w r)"

definition check_kind :: "'sel selector_lib \<Rightarrow> Pod list \<Rightarrow> string \<Rightarrow> int \<Rightarrow> string \<Rightarrow> 'sel Workload lister \<Rightarrow>
    result \<Rightarrow> result" where
  "check_kind lib pods ns threshold kind list r =
     (case list ns of Inl _ \<Rightarrow> r | Inr ws \<Rightarrow> fold (check_workload lib pods ns threshold kind) ws r)"

text \<open>One namespace: the pod cache is filled unless it has the namespace, an error caches no pods.\<close>

definition check_workloads_in :: "'sel selector_lib \<Rightarrow> 'sel workload_source \<Rightarrow> int \<Rightarrow> string \<Rightarrow>
    result \<times> (string \<rightharpoonup> Pod list) \<Rightarrow> result \<times> (string \<rightharpoonup> Pod list)" where
  "check_workloads_in lib src threshold ns st =
     (let (r, podCache) = st;
          podCache' = (if podCache ns = None
            then podCache(ns \<mapsto> (case ws_pods src ns of Inl _ \<Rightarrow> [] | Inr ps \<Rightarrow> ps)) else podCache);
          pods = the (podCache' ns);
          r1 = check_kind lib pods ns threshold ''deployment'' (ws_deployments src) r;
          r2 = check_kind lib pods ns threshold ''statefulset'' (ws_statefulsets src) r1;
          r3 = check_kind lib pods ns threshold ''daemonset'' (ws_daemonsets src) r2
      in (r3, podCache'))"

definition workload_Check :: "'sel selector_lib \<Rightarrow> 'sel workload_source \<Rightarrow> result" where
  "workload_Check lib src =
     fst (fold (check_workloads_in lib src (getRestartThreshold (ws_config src))) (ws_namespaces src)
       (no_result workload_CheckerName, Map.empty))"

section \<open>Facts\<close>

lemma workload_issue_fields [simp]:
  "iss_Type (workload_issue ns ref t sev m sg md) = t"
  "iss_Severity (workload_issue ns ref t sev m sg md) = sev"
  "iss_Namespace (workload_issue ns ref t sev m sg md) = ns"
  "iss_Resource (workload_issue ns ref t sev m sg md) = ref"
  by (simp_all add: workload_issue_def)

lemma pod_issue_fields [simp]:
  "iss_Severity (not_ready_issue pod ns ref cs) = SeverityCritical"
  "iss_Namespace (not_ready_issue pod ns ref cs) = ns"
  "iss_Severity (restart_issue pod ns ref t cs) = SeverityWarning"
  "iss_Namespace (restart_issue pod ns ref t cs) = ns"
  by (simp_all add: not_ready_issue_def restart_issue_def Let_def split: option.split prod.split)

text \<open>Which severities each part of a diagnosis has.\<close>

lemma diagnosis_severities:
  "\<forall>i \<in> set (phase_issues pod ns ref). iss_Severity i = SeverityCritical \<and> iss_Namespace i = ns"
  "\<forall>i \<in> set (container_status_issues pod ns ref t cs).
     iss_Severity i \<in> {SeverityCritical, SeverityWarning} \<and> iss_Namespace i = ns"
  "\<forall>i \<in> set (condition_issues pod ns ref cond).
     iss_Severity i \<in> {SeverityCritical, SeverityWarning} \<and> iss_Namespace i = ns"
  "\<forall>i \<in> set (checkContainerBestPractices c p ns ref).
     iss_Severity i \<in> {SeverityWarning, SeverityInfo} \<and> iss_Namespace i = ns"
  unfolding Ball_set_list_all
  by (simp_all add: phase_issues_def container_status_issues_def condition_issues_def
      checkContainerBestPractices_def Let_def)

text \<open>The issue types of a diagnosis.\<close>

definition workload_types :: "string list" where
  "workload_types = [''PodNotRunning'', ''ContainerNotReady'', ''HighRestartCount'', ''SchedulingFailed'',
     ''PodNotReady'', ''NoMemoryLimit'', ''NoCPULimit'', ''NoResourceRequests'', ''NoLivenessProbe'',
     ''NoReadinessProbe'']"

lemma diagnosis_types:
  "\<forall>i \<in> set (phase_issues pod ns ref). iss_Type i \<in> set workload_types"
  "\<forall>i \<in> set (container_status_issues pod ns ref t cs). iss_Type i \<in> set workload_types"
  "\<forall>i \<in> set (condition_issues pod ns ref cond). iss_Type i \<in> set workload_types"
  "\<forall>i \<in> set (checkContainerBestPractices c p ns ref). iss_Type i \<in> set workload_types"
  unfolding Ball_set_list_all
  by (simp_all add: phase_issues_def container_status_issues_def condition_issues_def not_ready_issue_def
      restart_issue_def checkContainerBestPractices_def Let_def workload_types_def split: option.split)

lemma diagnosePods_issue:
  "\<forall>i \<in> set (diagnosePods pods ns ref t). iss_Severity i \<in> set severities \<and> iss_Namespace i = ns \<and>
     iss_Type i \<in> set workload_types"
  using diagnosis_severities diagnosis_types by (fastforce simp: diagnosePods_def diagnosePod_def severities_def)

definition workload_result_ok :: "string list \<Rightarrow> result \<Rightarrow> bool" where
  "workload_result_ok nss r \<longleftrightarrow> cr_CheckerName r = workload_CheckerName \<and> cr_Error r = None \<and> 0 \<le> cr_Healthy r \<and>
     (\<forall>i \<in> set (cr_Issues r). iss_Severity i \<in> set severities \<and> iss_Namespace i \<in> set nss \<and>
       iss_Type i \<in> set workload_types)"

lemma check_kind_ok [inv_intros]:
  assumes "workload_result_ok nss r" "ns \<in> set nss"
  shows "workload_result_ok nss (check_kind lib pods ns t kind list r)"
proof -
  have step: "workload_result_ok nss (check_workload lib pods ns t kind w r)" if "workload_result_ok nss r" for w r
    using that assms(2) diagnosePods_issue
    by (auto simp: check_workload_def workload_result_ok_def split: sum.splits)
  show ?thesis
    unfolding check_kind_def
    by (cases "list ns") (auto intro: fold_invariant_result [where P = "workload_result_ok nss"] assms(1) step)
qed

lemma workload_Check_ok: "workload_result_ok (ws_namespaces src) (workload_Check lib src)"
proof -
  let ?P = "\<lambda>st. workload_result_ok (ws_namespaces src) (fst st)"
  have "?P (fold (check_workloads_in lib src t) (ws_namespaces src) (no_result workload_CheckerName, Map.empty))" for t
    by (rule fold_invariant_result [where P = ?P])
      (auto simp: check_workloads_in_def Let_def intro!: check_kind_ok split: prod.splits,
       auto simp: workload_result_ok_def no_result_def)
  then show ?thesis by (simp add: workload_Check_def)
qed

interpretation workloads: health_checker workload_CheckerName "workload_Check lib" ws_namespaces "\<lambda>_. True" for lib
proof
  fix src :: "'a workload_source" and i
  note ok = workload_Check_ok [of src lib, unfolded workload_result_ok_def]
  show "cr_CheckerName (workload_Check lib src) = workload_CheckerName" using ok by simp
  show "cr_Error (workload_Check lib src) = None" using ok by simp
  show "0 \<le> cr_Healthy (workload_Check lib src)" using ok by simp
  assume "i \<in> set (cr_Issues (workload_Check lib src))"
  then show "iss_Severity i \<in> set severities" "issue_in (ws_namespaces src) i"
    using ok by (auto simp: issue_in_def)
qed

lemma critical_parts:
  "list_ex (\<lambda>i. iss_Severity i = SeverityCritical) (phase_issues pod ns ref) \<longleftrightarrow>
     pod_Phase pod \<notin> {''Running'', ''Succeeded''}"
  "list_ex (\<lambda>i. iss_Severity i = SeverityCritical) (container_status_issues pod ns ref t cs) \<longleftrightarrow> \<not> cs_Ready cs"
  "list_ex (\<lambda>i. iss_Severity i = SeverityCritical) (condition_issues pod ns ref cond) \<longleftrightarrow>
     pc_Status cond = ''False'' \<and> pc_Type cond = ''PodScheduled''"
  "\<not> list_ex (\<lambda>i. iss_Severity i = SeverityCritical) (checkContainerBestPractices c p ns ref)"
  by (simp_all add: phase_issues_def container_status_issues_def condition_issues_def
      checkContainerBestPractices_def Let_def severity_defs)

lemma list_ex_concat_map: "list_ex P (concat (map f xs)) \<longleftrightarrow> (\<exists>x \<in> set xs. list_ex P (f x))"
  by (auto simp: list_ex_iff)

lemma check_kind_no_pods:
  assumes "list ns = Inr ws" "\<forall>w \<in> set ws. \<exists>sel. lib (wl_Selector w) = Inr sel"
  shows "check_kind lib [] ns t kind list r = r\<lparr>cr_Healthy := cr_Healthy r + int (length ws)\<rparr>"
proof -
  have "\<forall>w \<in> set ws. \<exists>sel. lib (wl_Selector w) = Inr sel \<Longrightarrow>
      fold (check_workload lib [] ns t kind) ws r = r\<lparr>cr_Healthy := cr_Healthy r + int (length ws)\<rparr>" for r
    by (induction ws arbitrary: r)
      (auto simp: check_workload_def filterPodsForWorkload_def tally_def diagnosePods_def Let_def)
  with assms show ?thesis by (simp add: check_kind_def)
qed

lemma workload_Check_types:
  "i \<in> set (cr_Issues (workload_Check lib src)) \<Longrightarrow> iss_Type i \<in> set workload_types"
  using workload_Check_ok [of src lib] by (simp add: workload_result_ok_def)

section \<open>Properties\<close>

text \<open>A pod's diagnosis is critical exactly when the pod is not running or succeeded, or one of its
  containers is not ready, or it could not be scheduled: restarts, a failed readiness condition and the
  best practices never make it critical, and no restart threshold does.\<close>

theorem pod_critical_iff:
  "list_ex (\<lambda>i. iss_Severity i = SeverityCritical) (diagnosePod pod ns ref threshold) \<longleftrightarrow>
     pod_Phase pod \<notin> {''Running'', ''Succeeded''} \<or>
     (\<exists>cs \<in> set (pod_ContainerStatuses pod). \<not> cs_Ready cs) \<or>
     (\<exists>cond \<in> set (pod_Conditions pod). pc_Status cond = ''False'' \<and> pc_Type cond = ''PodScheduled'')"
  by (simp add: diagnosePod_def list_ex_concat_map critical_parts)

definition restarting_pod :: Pod where
  "restarting_pod = \<lparr>pod_Name = ''api-1'', pod_Labels = Map.empty, pod_Phase = ''Running'',
     pod_ContainerStatuses = [\<lparr>cs_Name = ''api'', cs_Ready = True, cs_Waiting = None, cs_Terminated = None,
       cs_RestartCount = 100\<rparr>],
     pod_Conditions = [], pod_Containers = []\<rparr>"

theorem pod_critical_iff_witness:
  "\<not> list_ex (\<lambda>i. iss_Severity i = SeverityCritical) (diagnosePod restarting_pod ''team'' ''deployment/api'' 3) \<and>
   length (diagnosePod restarting_pod ''team'' ''deployment/api'' 3) = 1"
  using pod_critical_iff [of restarting_pod "''team''" "''deployment/api''" 3]
  by (simp add: restarting_pod_def diagnosePod_def phase_issues_def container_status_issues_def)

text \<open>A failed pod list makes workloads healthy: when the pods of a namespace cannot be listed, every
  deployment, stateful set and daemon set in it whose selector parses is counted as healthy, and no
  issue and no error is reported.\<close>

theorem pod_list_failure_counts_healthy:
  assumes "ws_namespaces src = [ns]" "ws_pods src ns = Inl e"
    and "ws_deployments src ns = Inr ds" "ws_statefulsets src ns = Inr ss" "ws_daemonsets src ns = Inr dms"
    and "\<forall>w \<in> set (ds @ ss @ dms). \<exists>sel. lib (wl_Selector w) = Inr sel"
  shows "workload_Check lib src = \<lparr>cr_CheckerName = workload_CheckerName,
    cr_Healthy = int (length ds + length ss + length dms), cr_Issues = [], cr_Error = None\<rparr>"
proof -
  have "\<forall>w \<in> set ds. \<exists>sel. lib (wl_Selector w) = Inr sel" "\<forall>w \<in> set ss. \<exists>sel. lib (wl_Selector w) = Inr sel"
    "\<forall>w \<in> set dms. \<exists>sel. lib (wl_Selector w) = Inr sel"
    using assms(6) by auto
  with assms(1-5) show ?thesis
    by (simp add: workload_Check_def check_workloads_in_def Let_def check_kind_no_pods no_result_def)
qed

definition failing_source :: "unit workload_source" where
  "failing_source = \<lparr>ws_pods = (\<lambda>_. Inl ''timeout''), ws_deployments = (\<lambda>_. Inr [\<lparr>wl_Name = ''api'', wl_Selector = ()\<rparr>]),
     ws_statefulsets = (\<lambda>_. Inr []), ws_daemonsets = (\<lambda>_. Inr []), ws_namespaces = [''team''], ws_config = None\<rparr>"

theorem pod_list_failure_counts_healthy_witness:
  "cr_Healthy (workload_Check (\<lambda>_. Inr (\<lambda>_. True)) failing_source) = 1"
  using pod_list_failure_counts_healthy [of failing_source "''team''" "''timeout''"
      "[\<lparr>wl_Name = ''api'', wl_Selector = ()\<rparr>]" "[]" "[]" "\<lambda>_. Inr (\<lambda>_. True)"]
  by (simp add: failing_source_def)

end
