(* ===== verification/Causal.thy ===== *)
theory Causal
  imports Checker_Core Go_Text AI_Types "HOL-Library.Product_Lexorder"
begin

text \<open>
  Causal correlation (\<open>internal/causal/\<close>): three strategies group the issues of a health check by
  cross-checker rules, by ownership of resources and by time, and the correlator deduplicates and
  sorts the groups. The results map is an association list; every loop over a map visits it in an
  order given as a parameter (\<open>map_orders\<close>), of which only \<open>range_order\<close> is assumed. Confidences are
  doubles (\<open>Float64\<close>).
\<close>

section \<open>Types (types.go)\<close>

record TimelineEvent =
  te_Timestamp :: time
  te_Checker :: string
  te_Issue :: issue

record CausalGroup =
  cg_ID :: string
  cg_Title :: string
  cg_RootCause :: string
  cg_Severity :: string
  cg_Events :: "TimelineEvent list"
  cg_Rule :: string
  cg_Confidence :: f64
  cg_FirstSeen :: time
  cg_LastSeen :: time
  cg_AIRootCause :: string
  cg_AISuggestion :: string
  cg_AISteps :: "string list"
  cg_AIEnhanced :: bool

record CausalContext =
  cx_Groups :: "CausalGroup list"
  cx_UncorrelatedCount :: int
  cx_TotalIssues :: int

type_synonym results = "(string \<times> result option) list"

record CorrelationInput =
  ci_Results :: results
  ci_Timestamp :: time

record map_orders =
  mo_rule :: "string \<Rightarrow> results \<Rightarrow> results"          \<comment> \<open>the results, for each rule\<close>
  mo_rule_ns :: "string list \<Rightarrow> string list"
  mo_graph :: "results \<Rightarrow> results"
  mo_graph_ns :: "(string \<times> TimelineEvent list) list \<Rightarrow> (string \<times> TimelineEvent list) list"
  mo_temporal :: "results \<Rightarrow> results"
  mo_temporal_ns :: "(string \<times> TimelineEvent list) list \<Rightarrow> (string \<times> TimelineEvent list) list"

definition orders_ok :: "map_orders \<Rightarrow> bool" where
  "orders_ok mo \<longleftrightarrow> (\<forall>r. range_order (mo_rule mo r)) \<and> range_order (mo_rule_ns mo) \<and>
     range_order (mo_graph mo) \<and> range_order (mo_graph_ns mo) \<and>
     range_order (mo_temporal mo) \<and> range_order (mo_temporal_ns mo)"

section \<open>Shared helpers\<close>

definition clusterScope :: string where "clusterScope = ''_cluster''"

definition scope_of :: "issue \<Rightarrow> string" where
  "scope_of i = (if iss_Namespace i = [] then clusterScope else iss_Namespace i)"

text \<open>Milliseconds since the Unix epoch, which is 719162 days after the zero time.\<close>

definition unix_milli :: "time \<Rightarrow> int" where
  "unix_milli t = (t - 719162 * (24 * hour)) div 1000000"

definition severity_prio :: "string \<Rightarrow> int" where
  "severity_prio s = (if s = SeverityCritical then 3 else if s = SeverityWarning then 2
     else if s = SeverityInfo then 1 else 0)"

definition highestSeverity :: "TimelineEvent list \<Rightarrow> string" where
  "highestSeverity events = fst (fold
     (\<lambda>e (best, bestPrio). let p = severity_prio (iss_Severity (te_Issue e)) in
        if p > bestPrio then (iss_Severity (te_Issue e), p) else (best, bestPrio))
     events ([], 0))"

text \<open>The distinct checkers in byte order.\<close>

definition uniqueCheckers :: "TimelineEvent list \<Rightarrow> string list" where
  "uniqueCheckers events = sort (remdups (map te_Checker events))"

text \<open>The events of the results that are there and have no error, results in the given order.\<close>

definition flattenEvents :: "results \<Rightarrow> time \<Rightarrow> TimelineEvent list" where
  "flattenEvents rs ts = concat (map (\<lambda>(name, ro).
     (case ro of None \<Rightarrow> []
      | Some r \<Rightarrow> if cr_Error r \<noteq> None then []
          else map (\<lambda>i. \<lparr>te_Timestamp = ts, te_Checker = name, te_Issue = i\<rparr>) (cr_Issues r))) rs)"

section \<open>Temporal correlation (temporal.go)\<close>

definition DefaultTimeWindow :: duration where "DefaultTimeWindow = 2 * minute"

definition NewTemporalCorrelator :: "duration \<Rightarrow> duration" where
  "NewTemporalCorrelator window = (if window \<le> 0 then DefaultTimeWindow else window)"

definition temporalConfidence :: "TimelineEvent list \<Rightarrow> f64" where
  "temporalConfidence events =
     (let base = fl (1 / 2);
          base1 = (if length (uniqueCheckers events) > 1 then fadd base (fl (1 / 5)) else base);
          base2 = (if length events \<ge> 4 then fadd base1 (fl (1 / 10)) else base1)
      in if base2 > 1 then 1 else base2)"

definition buildTemporalGroup :: "string \<Rightarrow> TimelineEvent list \<Rightarrow> CausalGroup" where
  "buildTemporalGroup ns events =
     \<lparr>cg_ID = ''temporal-'' @ ns @ ''-'' @ itoa (unix_milli (te_Timestamp (hd events))),
      cg_Title = itoa (int (length events)) @ '' related issues in '' @ ns @ '' ('' @
        str_join '', '' (uniqueCheckers events) @ '')'',
      cg_RootCause = [], cg_Severity = highestSeverity events, cg_Events = events,
      cg_Rule = ''temporal'', cg_Confidence = temporalConfidence events,
      cg_FirstSeen = te_Timestamp (hd events), cg_LastSeen = te_Timestamp (last events),
      cg_AIRootCause = [], cg_AISuggestion = [], cg_AISteps = [], cg_AIEnhanced = False\<rparr>"

text \<open>
  The sliding window: each event that no earlier window took opens one and takes the later
  untaken events within it; the others stay for the next.
\<close>

function window_groups :: "duration \<Rightarrow> TimelineEvent list \<Rightarrow> TimelineEvent list list" where
  "window_groups w [] = []"
| "window_groups w (e # es) =
     (let near = (\<lambda>x. time_sub (te_Timestamp x) (te_Timestamp e) \<le> w)
      in (e # filter near es) # window_groups w (filter (\<lambda>x. \<not> near x) es))"
  by pat_completeness auto
termination by (relation "measure (\<lambda>(w, es). length es)") (auto simp: le_imp_less_Suc)

definition temporal_Correlate :: "duration \<Rightarrow> map_orders \<Rightarrow> CorrelationInput \<Rightarrow> CausalGroup list" where
  "temporal_Correlate window mo input =
     (let byNS = group_by (\<lambda>e. scope_of (te_Issue e))
            (flattenEvents (mo_temporal mo (ci_Results input)) (ci_Timestamp input))
      in concat (map (\<lambda>(ns, events).
           if length events < 2 then []
           else map (buildTemporalGroup ns)
             (filter (\<lambda>g. \<not> length g < 2) (window_groups window (sort_key te_Timestamp events))))
         (mo_temporal_ns mo byNS)))"

section \<open>The resource graph (graph.go)\<close>

definition resourceHierarchy :: "string \<Rightarrow> int" where
  "resourceHierarchy kind =
     (case map_of [(''deployment'', 3), (''statefulset'', 3), (''daemonset'', 3), (''replicaset'', 2), (''pod'', 1)] kind of
        Some l \<Rightarrow> l | None \<Rightarrow> 0)"

definition parseResource :: "string \<Rightarrow> string \<times> string" where
  "parseResource resource =
     (case split2 (CHR ''/'') resource of
        Some (kind, name) \<Rightarrow> (to_lower kind, name)
      | None \<Rightarrow> ([], resource))"

definition relatedByOwnership :: "string \<Rightarrow> string \<Rightarrow> string \<Rightarrow> string \<Rightarrow> bool" where
  "relatedByOwnership kindA nameA kindB nameB =
     (let levelA = resourceHierarchy kindA; levelB = resourceHierarchy kindB in
      if kindA = kindB \<and> nameA = nameB then False
      else if levelA = 0 \<or> levelB = 0 then False
      else if levelA > levelB then has_prefix nameB (nameA @ ''-'') \<or> nameB = nameA
      else if levelB > levelA then has_prefix nameA (nameB @ ''-'') \<or> nameA = nameB
      else False)"

definition event_resource :: "TimelineEvent \<Rightarrow> string \<times> string" where
  "event_resource e = parseResource (iss_Resource (te_Issue e))"

definition related_events :: "TimelineEvent \<Rightarrow> TimelineEvent \<Rightarrow> bool" where
  "related_events a b = relatedByOwnership (fst (event_resource a)) (snd (event_resource a))
     (fst (event_resource b)) (snd (event_resource b))"

text \<open>
  One round of the loop over the indices: the chain of an unused event, which uses its members;
  a chain of one is released.
\<close>

definition chain_round :: "TimelineEvent list \<Rightarrow> nat \<Rightarrow> nat list \<times> nat list list \<Rightarrow> nat list \<times> nat list list" where
  "chain_round es i st =
     (let (used, chains) = st in
      if i \<in> set used then (used, chains)
      else let js = filter (\<lambda>j. j \<noteq> i \<and> j \<notin> set used \<and> related_events (es ! i) (es ! j)) [0..<length es] in
        if js = [] then (used, chains) else (i # js @ used, chains @ [i # js]))"

definition ownership_chains :: "TimelineEvent list \<Rightarrow> nat list list" where
  "ownership_chains es = snd (fold (chain_round es) [0..<length es] ([], []))"

definition graphConfidence :: "TimelineEvent list \<Rightarrow> f64" where
  "graphConfidence events =
     (if length events \<ge> 3 then fl (9 / 10) else if length events = 2 then fl (7 / 10) else fl (1 / 2))"

definition root_resource :: "TimelineEvent list \<Rightarrow> string" where
  "root_resource events =
     (let (r, level) = fold (\<lambda>e (r, level).
            let l = resourceHierarchy (fst (event_resource e))
            in if l > level then (iss_Resource (te_Issue e), l) else (r, level)) events ([], 0)
      in if r = [] \<and> events \<noteq> [] then iss_Resource (te_Issue (hd events)) else r)"

definition buildGraphGroup :: "string \<Rightarrow> time \<Rightarrow> TimelineEvent list \<Rightarrow> CausalGroup" where
  "buildGraphGroup ns ts events =
     (let root = root_resource events;
          sorted = sort_key (\<lambda>e. iss_Resource (te_Issue e)) events
      in \<lparr>cg_ID = ''graph-'' @ ns @ ''-'' @ root @ ''-'' @ itoa (unix_milli ts),
          cg_Title = ''ownership chain: '' @ root @ '' in '' @ ns @ '' ('' @
            str_join '', '' (uniqueCheckers events) @ '')'',
          cg_RootCause = [], cg_Severity = highestSeverity events, cg_Events = sorted,
          cg_Rule = ''resource-graph'', cg_Confidence = graphConfidence sorted,
          cg_FirstSeen = ts, cg_LastSeen = ts,
          cg_AIRootCause = [], cg_AISuggestion = [], cg_AISteps = [], cg_AIEnhanced = False\<rparr>)"

definition graph_Correlate :: "map_orders \<Rightarrow> CorrelationInput \<Rightarrow> CausalGroup list" where
  "graph_Correlate mo input =
     (let events = flattenEvents (mo_graph mo (ci_Results input)) (ci_Timestamp input) in
      if length events < 2 then []
      else let byNS = group_by (\<lambda>e. scope_of (te_Issue e)) events in
        concat (map (\<lambda>(ns, es).
          if length es < 2 then []
          else map (\<lambda>c. buildGraphGroup ns (ci_Timestamp input) (map ((!) es) c)) (ownership_chains es))
        (mo_graph_ns mo byNS)))"

section \<open>Cross-checker rules (rules.go)\<close>

record CrossCheckerRule =
  xr_Name :: string
  xr_Match :: "string \<Rightarrow> issue \<Rightarrow> string option"
  xr_RequiredTags :: "string list"
  xr_RootCause :: "string \<Rightarrow> string"
  xr_Confidence :: f64

definition serious :: "issue \<Rightarrow> bool" where
  "serious i \<longleftrightarrow> iss_Severity i = SeverityCritical \<or> iss_Severity i = SeverityWarning"

definition type_contains :: "issue \<Rightarrow> string \<Rightarrow> bool" where
  "type_contains i s = str_contains (to_upper (iss_Type i)) s"

definition oomQuotaRule :: CrossCheckerRule where
  "oomQuotaRule =
     \<lparr>xr_Name = ''oom-quota'',
      xr_Match = (\<lambda>checker i.
        if checker = ''workloads'' \<and> type_contains i ''OOM'' then Some ''oom''
        else if checker = ''quotas'' \<and> serious i then Some ''quota''
        else None),
      xr_RequiredTags = [''oom'', ''quota''],
      xr_RootCause = (\<lambda>ns. ''OOM kills are likely caused by resource quota pressure in namespace '' @ ns),
      xr_Confidence = fl (85 / 100)\<rparr>"

definition crashImagePullRule :: CrossCheckerRule where
  "crashImagePullRule =
     \<lparr>xr_Name = ''crash-imagepull'',
      xr_Match = (\<lambda>checker i.
        if checker \<noteq> ''workloads'' then None
        else if type_contains i ''CRASHLOOP'' then Some ''crash''
        else if type_contains i ''IMAGEPULL'' then Some ''imagepull''
        else None),
      xr_RequiredTags = [''crash'', ''imagepull''],
      xr_RootCause = (\<lambda>ns. ''CrashLoop may be caused by image pull failures in namespace '' @ ns @
        ('' '' @ [CHR 0xE2, CHR 0x80, CHR 0x94] @ '' pods restarting with wrong/missing images'')),
      xr_Confidence = fl (8 / 10)\<rparr>"

definition fluxChainRule :: CrossCheckerRule where
  "fluxChainRule =
     \<lparr>xr_Name = ''flux-chain'',
      xr_Match = (\<lambda>checker i.
        if \<not> serious i then None
        else if checker = ''gitrepositories'' then Some ''flux-source''
        else if checker = ''helmreleases'' \<or> checker = ''kustomizations'' then Some ''flux-consumer''
        else None),
      xr_RequiredTags = [''flux-source'', ''flux-consumer''],
      xr_RootCause = (\<lambda>ns. ''Flux delivery pipeline failure in namespace '' @ ns @
        ('' '' @ [CHR 0xE2, CHR 0x80, CHR 0x94] @
       '' source issue is blocking downstream reconciliation'')),
      xr_Confidence = fl (9 / 10)\<rparr>"

definition pvcWorkloadRule :: CrossCheckerRule where
  "pvcWorkloadRule =
     \<lparr>xr_Name = ''pvc-workload'',
      xr_Match = (\<lambda>checker i.
        if checker = ''pvcs'' \<and> serious i then Some ''pvc''
        else if checker = ''workloads'' \<and> (type_contains i ''PENDING'' \<or> type_contains i ''UNSCHEDULABLE'')
        then Some ''workload-pending''
        else None),
      xr_RequiredTags = [''pvc'', ''workload-pending''],
      xr_RootCause = (\<lambda>ns. ''Workload scheduling issues in namespace '' @ ns @
        ('' may be caused by PVC binding failures '' @ [CHR 0xE2, CHR 0x80, CHR 0x94] @
       '' pods can'' @ [CHR 0x27] @ ''t start until volumes are bound'')),
      xr_Confidence = fl (75 / 100)\<rparr>"

definition DefaultRules :: "CrossCheckerRule list" where
  "DefaultRules = [oomQuotaRule, crashImagePullRule, fluxChainRule, pvcWorkloadRule]"

record taggedEvent =
  tg_ns :: string
  tg_rule :: string
  tg_event :: TimelineEvent
  tg_tag :: string

text \<open>The entries of \<open>byNSAndRule\<close> in the order of insertion, for one rule.\<close>

definition tag_events :: "CrossCheckerRule \<Rightarrow> TimelineEvent list \<Rightarrow> taggedEvent list" where
  "tag_events rule es = concat (map (\<lambda>e.
     (case xr_Match rule (te_Checker e) (te_Issue e) of
        None \<Rightarrow> []
      | Some tag \<Rightarrow> [\<lparr>tg_ns = scope_of (te_Issue e), tg_rule = xr_Name rule, tg_event = e, tg_tag = tag\<rparr>])) es)"

definition rule_group :: "string \<Rightarrow> time \<Rightarrow> CrossCheckerRule \<Rightarrow> TimelineEvent list \<Rightarrow> CausalGroup" where
  "rule_group ns ts rule events =
     \<lparr>cg_ID = ''rule-'' @ xr_Name rule @ ''-'' @ ns @ ''-'' @ itoa (unix_milli ts),
      cg_Title = xr_Name rule @ '': '' @ itoa (int (length events)) @ '' issues in '' @ ns,
      cg_RootCause = xr_RootCause rule ns, cg_Severity = highestSeverity events, cg_Events = events,
      cg_Rule = xr_Name rule, cg_Confidence = xr_Confidence rule, cg_FirstSeen = ts, cg_LastSeen = ts,
      cg_AIRootCause = [], cg_AISuggestion = [], cg_AISteps = [], cg_AIEnhanced = False\<rparr>"

definition apply_rule_in :: "taggedEvent list \<Rightarrow> time \<Rightarrow> string \<Rightarrow> CrossCheckerRule \<Rightarrow> CausalGroup list" where
  "apply_rule_in tes ts ns rule =
     (let tagged = filter (\<lambda>te. tg_ns te = ns \<and> tg_rule te = xr_Name rule) tes in
      if tagged = [] then []
      else if \<not> list_all (\<lambda>req. req \<in> tg_tag ` set tagged) (xr_RequiredTags rule) then []
      else [rule_group ns ts rule (map tg_event tagged)])"

definition applyCrossCheckerRules :: "CrossCheckerRule list \<Rightarrow> map_orders \<Rightarrow> CorrelationInput \<Rightarrow> CausalGroup list" where
  "applyCrossCheckerRules rules mo input =
     (let tes = concat (map (\<lambda>rule. tag_events rule
            (flattenEvents (mo_rule mo (xr_Name rule) (ci_Results input)) (ci_Timestamp input))) rules)
      in concat (map (\<lambda>ns. concat (map (apply_rule_in tes (ci_Timestamp input) ns) rules))
           (mo_rule_ns mo (remdups (map tg_ns tes)))))"

section \<open>The correlator (correlator.go)\<close>

record Correlator =
  co_window :: duration
  co_rules :: "CrossCheckerRule list"

definition NewCorrelatorWithWindow :: "duration \<Rightarrow> Correlator" where
  "NewCorrelatorWithWindow window = \<lparr>co_window = NewTemporalCorrelator window, co_rules = DefaultRules\<rparr>"

definition NewCorrelator :: Correlator where
  "NewCorrelator = \<lparr>co_window = NewTemporalCorrelator DefaultTimeWindow, co_rules = DefaultRules\<rparr>"

definition event_key :: "TimelineEvent \<Rightarrow> string" where
  "event_key e = te_Checker e @ '':'' @ iss_Namespace (te_Issue e) @ ''/'' @ iss_Resource (te_Issue e) @
     '':'' @ iss_Type (te_Issue e)"

text \<open>The events of a group that are not claimed yet, claiming them on the way.\<close>

fun keep_events :: "string list \<Rightarrow> TimelineEvent list \<Rightarrow> TimelineEvent list \<times> string list" where
  "keep_events claimed [] = ([], claimed)"
| "keep_events claimed (e # es) =
     (if event_key e \<in> set claimed then keep_events claimed es
      else let (kept, claimed') = keep_events (event_key e # claimed) es in (e # kept, claimed'))"

definition dedup_group :: "CausalGroup \<Rightarrow> string list \<times> CausalGroup list \<Rightarrow> string list \<times> CausalGroup list" where
  "dedup_group g st =
     (let (claimed, result) = st; (kept, claimed') = keep_events claimed (cg_Events g) in
      if length kept < 2 then (fold (\<lambda>e c. removeAll (event_key e) c) kept claimed', result)
      else (claimed', result @ [g\<lparr>cg_Events := kept\<rparr>]))"

definition deduplicateGroups :: "CausalGroup list \<Rightarrow> CausalGroup list" where
  "deduplicateGroups groups =
     snd (fold dedup_group (sort_key (\<lambda>g. - cg_Confidence g) groups) ([], []))"

definition sortGroups :: "CausalGroup list \<Rightarrow> CausalGroup list" where
  "sortGroups groups = sort_key (\<lambda>g. (- severity_prio (cg_Severity g), - cg_Confidence g)) groups"

definition total_issues :: "results \<Rightarrow> int" where
  "total_issues rs = sum_list (map (\<lambda>(name, ro).
     (case ro of None \<Rightarrow> 0 | Some r \<Rightarrow> if cr_Error r = None then int (length (cr_Issues r)) else 0)) rs)"

definition causal_Analyze :: "Correlator \<Rightarrow> map_orders \<Rightarrow> CorrelationInput \<Rightarrow> CausalContext" where
  "causal_Analyze c mo input =
     (let totalIssues = total_issues (ci_Results input) in
      if totalIssues = 0 then \<lparr>cx_Groups = [], cx_UncorrelatedCount = 0, cx_TotalIssues = 0\<rparr>
      else let allGroups = applyCrossCheckerRules (co_rules c) mo input @ graph_Correlate mo input @
                 temporal_Correlate (co_window c) mo input;
               groups = deduplicateGroups allGroups;
               correlated = remdups (map event_key (concat (map cg_Events groups)))
           in \<lparr>cx_Groups = sortGroups groups,
               cx_UncorrelatedCount = totalIssues - int (length correlated),
               cx_TotalIssues = totalIssues\<rparr>)"

section \<open>Conversion for the AI (convert.go)\<close>

definition ToAIContext :: "CausalContext option \<Rightarrow> CausalAnalysisContext option" where
  "ToAIContext cco =
     (case cco of None \<Rightarrow> None
      | Some cc \<Rightarrow>
          if cx_Groups cc = [] then None
          else Some \<lparr>cac_Groups = map (\<lambda>g.
                 \<lparr>cgs_Rule = cg_Rule g, cgs_Title = cg_Title g, cgs_RootCause = cg_RootCause g,
                  cgs_Severity = cg_Severity g, cgs_Confidence = cg_Confidence g,
                  cgs_Resources = map (\<lambda>e. iss_Namespace (te_Issue e) @ ''/'' @ iss_Resource (te_Issue e))
                    (cg_Events g)\<rparr>) (cx_Groups cc),
               cac_UncorrelatedCount = cx_UncorrelatedCount cc, cac_TotalIssues = cx_TotalIssues cc\<rparr>)"

section \<open>The contract of a correlation strategy\<close>

definition input_events :: "CorrelationInput \<Rightarrow> TimelineEvent set" where
  "input_events input = set (flattenEvents (ci_Results input) (ci_Timestamp input))"

definition event_prio :: "TimelineEvent \<Rightarrow> int" where
  "event_prio e = severity_prio (iss_Severity (te_Issue e))"

locale correlation_strategy =
  fixes correlate :: "map_orders \<Rightarrow> CorrelationInput \<Rightarrow> CausalGroup list"
  assumes from_input: "orders_ok mo \<Longrightarrow> g \<in> set (correlate mo input) \<Longrightarrow> set (cg_Events g) \<subseteq> input_events input"
    and not_single: "g \<in> set (correlate mo input) \<Longrightarrow> 2 \<le> length (cg_Events g)"
    and severity_covers: "g \<in> set (correlate mo input) \<Longrightarrow> e \<in> set (cg_Events g) \<Longrightarrow>
      event_prio e \<le> severity_prio (cg_Severity g)"
    and confidence_unit: "g \<in> set (correlate mo input) \<Longrightarrow> 0 \<le> cg_Confidence g \<and> cg_Confidence g \<le> 1"
begin

lemma no_issues_no_groups:
  assumes "orders_ok mo" "input_events input = {}"
  shows "correlate mo input = []"
proof (rule ccontr)
  assume "correlate mo input \<noteq> []"
  then have "hd (correlate mo input) \<in> set (correlate mo input)" by simp
  with from_input [OF assms(1) this] not_single [OF this] assms(2) show False by simp
qed

lemma critical_reported:
  assumes "g \<in> set (correlate mo input)" "e \<in> set (cg_Events g)" "iss_Severity (te_Issue e) = SeverityCritical"
  shows "cg_Severity g = SeverityCritical"
  using severity_covers [OF assms(1,2)] assms(3)
  by (auto simp: event_prio_def severity_prio_def split: if_splits)

end

lemma flattenEvents_set:
  "e \<in> set (flattenEvents rs ts) \<longleftrightarrow>
   (\<exists>name r i. (name, Some r) \<in> set rs \<and> cr_Error r = None \<and> i \<in> set (cr_Issues r) \<and>
      e = \<lparr>te_Timestamp = ts, te_Checker = name, te_Issue = i\<rparr>)"
  by (force simp: flattenEvents_def split: option.splits if_splits)

lemma flattenEvents_order:
  "range_order ord \<Longrightarrow> set (flattenEvents (ord rs) ts) = set (flattenEvents rs ts)"
  by (auto simp: flattenEvents_set range_order_set)

lemma highestSeverity_covers:
  assumes "e \<in> set es"
  shows "event_prio e \<le> severity_prio (highestSeverity es)"
proof -
  define f where "f = (\<lambda>(e :: TimelineEvent) (best, bestPrio). let p = severity_prio (iss_Severity (te_Issue e)) in
        if p > bestPrio then (iss_Severity (te_Issue e), p) else (best, bestPrio))"
  have f: "f x (b, severity_prio b) = (let b' = (if event_prio x > severity_prio b then iss_Severity (te_Issue x) else b)
      in (b', severity_prio b'))" for x b
    by (simp add: f_def event_prio_def Let_def)
  have step: "snd (fold f es (b, severity_prio b)) = severity_prio (fst (fold f es (b, severity_prio b))) \<and>
      severity_prio b \<le> snd (fold f es (b, severity_prio b)) \<and>
      (\<forall>e \<in> set es. event_prio e \<le> snd (fold f es (b, severity_prio b)))" for b
  proof (induction es arbitrary: b)
    case (Cons x xs)
    define b' where "b' = (if event_prio x > severity_prio b then iss_Severity (te_Issue x) else b)"
    have "fold f (x # xs) (b, severity_prio b) = fold f xs (b', severity_prio b')"
      by (simp add: f b'_def Let_def)
    moreover have "severity_prio b \<le> severity_prio b'" "event_prio x \<le> severity_prio b'"
      by (auto simp: b'_def event_prio_def)
    ultimately show ?case using Cons.IH [of b'] by auto
  qed simp
  have "severity_prio [] = 0" by (simp add: severity_prio_def severity_defs)
  then have "event_prio e \<le> severity_prio (fst (fold f es ([], 0)))"
    using step [of "[]"] assms by metis
  then show ?thesis by (simp only: highestSeverity_def f_def)
qed

lemma group_by_sub: "(k, ys) \<in> set (group_by f xs) \<Longrightarrow> set ys \<subseteq> set xs"
  by (metis filter_is_subset group_by_mem(1))

lemma decimal_unit: "0 \<le> a \<Longrightarrow> a \<le> b \<Longrightarrow> 0 < b \<Longrightarrow> 0 \<le> fl (a / b) \<and> fl (a / b) \<le> 1"
  by (rule fl_unit) simp_all

subsection \<open>Time\<close>

lemma window_groups_sub: "g \<in> set (window_groups w es) \<Longrightarrow> set g \<subseteq> set es"
  by (induction w es rule: window_groups.induct) (fastforce simp: Let_def)+

lemma temporalConfidence_unit: "0 \<le> temporalConfidence es \<and> temporalConfidence es \<le> 1"
proof -
  have "0 \<le> fl (1 / 2)" "0 \<le> fl (1 / 5)" "0 \<le> fl (1 / 10)" by (simp_all add: fl_nonneg)
  then show ?thesis by (simp add: temporalConfidence_def Let_def fadd_def fl_nonneg)
qed

lemma temporal_group_facts:
  assumes "g \<in> set (temporal_Correlate window mo input)"
  obtains ns es where "g = buildTemporalGroup ns es" "2 \<le> length es"
    "set es \<subseteq> set (flattenEvents (mo_temporal mo (ci_Results input)) (ci_Timestamp input)) \<or> \<not> orders_ok mo"
proof -
  let ?all = "flattenEvents (mo_temporal mo (ci_Results input)) (ci_Timestamp input)"
  let ?by = "group_by (\<lambda>e. scope_of (te_Issue e)) ?all"
  from assms obtain ns events es where m: "(ns, events) \<in> set (mo_temporal_ns mo ?by)"
    "es \<in> set (window_groups window (sort_key te_Timestamp events))" "\<not> length es < 2" "g = buildTemporalGroup ns es"
    by (auto simp: temporal_Correlate_def Let_def split: if_splits)
  have "set es \<subseteq> set events" using window_groups_sub [OF m(2)] by simp
  moreover have "set events \<subseteq> set ?all" if "orders_ok mo"
  proof -
    have "(ns, events) \<in> set ?by"
      using m(1) range_order_set [of "mo_temporal_ns mo"] that by (simp add: orders_ok_def)
    then show ?thesis by (rule group_by_sub)
  qed
  ultimately show thesis using that [of ns es] m by fastforce
qed

interpretation temporal: correlation_strategy "temporal_Correlate window" for window
proof
  fix mo g input
  assume g: "g \<in> set (temporal_Correlate window mo input)"
  from temporal_group_facts [OF this] obtain ns es where es: "g = buildTemporalGroup ns es" "2 \<le> length es"
    "set es \<subseteq> set (flattenEvents (mo_temporal mo (ci_Results input)) (ci_Timestamp input)) \<or> \<not> orders_ok mo"
    by metis
  then show "2 \<le> length (cg_Events g)" "0 \<le> cg_Confidence g \<and> cg_Confidence g \<le> 1"
    using temporalConfidence_unit by (simp_all add: buildTemporalGroup_def)
  show "e \<in> set (cg_Events g) \<Longrightarrow> event_prio e \<le> severity_prio (cg_Severity g)" for e
    using es(1) highestSeverity_covers by (simp add: buildTemporalGroup_def)
  show "set (cg_Events g) \<subseteq> input_events input" if "orders_ok mo"
    using es that flattenEvents_order [of "mo_temporal mo"]
    by (simp add: buildTemporalGroup_def input_events_def orders_ok_def)
qed

subsection \<open>The resource graph\<close>

lemma ownership_chains_sub:
  "c \<in> set (ownership_chains es) \<Longrightarrow> set c \<subseteq> {..<length es} \<and> 2 \<le> length c"
proof -
  let ?P = "\<lambda>st. \<forall>c \<in> set (snd st). set c \<subseteq> {..<length es} \<and> 2 \<le> length c"
  have "?P (fold (chain_round es) [0..<length es] ([], []))"
  proof (rule fold_invariant_result [where P = ?P])
    fix i and st :: "nat list \<times> nat list list" assume "i \<in> set [0..<length es]" "?P st"
    then show "?P (chain_round es i st)"
      by (auto simp: chain_round_def Let_def Suc_le_eq split: prod.splits if_splits)
  qed simp
  then show "c \<in> set (ownership_chains es) \<Longrightarrow> ?thesis" by (simp add: ownership_chains_def)
qed

lemma graphConfidence_unit: "0 \<le> graphConfidence es \<and> graphConfidence es \<le> 1"
  using decimal_unit [of 9 10] decimal_unit [of 7 10] decimal_unit [of 1 2] by (simp add: graphConfidence_def)

lemma graph_group_facts:
  assumes "g \<in> set (graph_Correlate mo input)"
  obtains ns es where "g = buildGraphGroup ns (ci_Timestamp input) es" "2 \<le> length es"
    "set es \<subseteq> set (flattenEvents (mo_graph mo (ci_Results input)) (ci_Timestamp input)) \<or> \<not> orders_ok mo"
proof -
  let ?all = "flattenEvents (mo_graph mo (ci_Results input)) (ci_Timestamp input)"
  let ?by = "group_by (\<lambda>e. scope_of (te_Issue e)) ?all"
  from assms obtain ns events c where m: "(ns, events) \<in> set (mo_graph_ns mo ?by)"
    "c \<in> set (ownership_chains events)" "g = buildGraphGroup ns (ci_Timestamp input) (map ((!) events) c)"
    by (auto simp: graph_Correlate_def Let_def split: if_splits)
  have c: "set c \<subseteq> {..<length events}" "2 \<le> length c" using ownership_chains_sub [OF m(2)] by auto
  then have "set (map ((!) events) c) \<subseteq> set events" by auto
  moreover have "set events \<subseteq> set ?all" if "orders_ok mo"
  proof -
    have "(ns, events) \<in> set ?by"
      using m(1) range_order_set [of "mo_graph_ns mo"] that by (simp add: orders_ok_def)
    then show ?thesis by (rule group_by_sub)
  qed
  ultimately show thesis using that [OF m(3)] c(2) by fastforce
qed

interpretation graph: correlation_strategy graph_Correlate
proof
  fix mo g input
  assume g: "g \<in> set (graph_Correlate mo input)"
  from graph_group_facts [OF this] obtain ns es where es: "g = buildGraphGroup ns (ci_Timestamp input) es"
    "2 \<le> length es"
    "set es \<subseteq> set (flattenEvents (mo_graph mo (ci_Results input)) (ci_Timestamp input)) \<or> \<not> orders_ok mo"
    by metis
  then show "2 \<le> length (cg_Events g)" "0 \<le> cg_Confidence g \<and> cg_Confidence g \<le> 1"
    using graphConfidence_unit by (simp_all add: buildGraphGroup_def Let_def)
  show "e \<in> set (cg_Events g) \<Longrightarrow> event_prio e \<le> severity_prio (cg_Severity g)" for e
    using es(1) highestSeverity_covers by (simp add: buildGraphGroup_def Let_def)
  show "set (cg_Events g) \<subseteq> input_events input" if "orders_ok mo"
    using es that flattenEvents_order [of "mo_graph mo"]
    by (simp add: buildGraphGroup_def input_events_def orders_ok_def Let_def)
qed

subsection \<open>Rules\<close>

text \<open>A rule needs two different tags, so it never fires on one issue.\<close>

definition rule_ok :: "CrossCheckerRule \<Rightarrow> bool" where
  "rule_ok rule \<longleftrightarrow> 2 \<le> card (set (xr_RequiredTags rule)) \<and> 0 \<le> xr_Confidence rule \<and> xr_Confidence rule \<le> 1"

lemma DefaultRules_ok: "\<forall>rule \<in> set DefaultRules. rule_ok rule"
  using decimal_unit [of 85 100] decimal_unit [of 8 10] decimal_unit [of 9 10] decimal_unit [of 75 100]
  by (simp add: DefaultRules_def rule_ok_def oomQuotaRule_def crashImagePullRule_def fluxChainRule_def
      pvcWorkloadRule_def card_insert_if)

lemma tag_events_sub: "te \<in> set (tag_events rule es) \<Longrightarrow> tg_event te \<in> set es"
  by (auto simp: tag_events_def split: option.splits)

lemma rule_group_facts:
  assumes "g \<in> set (applyCrossCheckerRules rules mo input)" "\<forall>rule \<in> set rules. rule_ok rule"
  obtains ns rule es where "g = rule_group ns (ci_Timestamp input) rule es" "rule \<in> set rules" "2 \<le> length es"
    "set es \<subseteq> input_events input \<or> \<not> orders_ok mo"
proof -
  let ?all = "\<lambda>rule. flattenEvents (mo_rule mo (xr_Name rule) (ci_Results input)) (ci_Timestamp input)"
  let ?tes = "concat (map (\<lambda>rule. tag_events rule (?all rule)) rules)"
  from assms(1) obtain ns rule where r: "rule \<in> set rules"
    "g \<in> set (apply_rule_in ?tes (ci_Timestamp input) ns rule)"
    by (auto simp: applyCrossCheckerRules_def Let_def)
  let ?tagged = "filter (\<lambda>te. tg_ns te = ns \<and> tg_rule te = xr_Name rule) ?tes"
  from r(2) have g: "g = rule_group ns (ci_Timestamp input) rule (map tg_event ?tagged)"
    and req: "set (xr_RequiredTags rule) \<subseteq> tg_tag ` set ?tagged"
    by (auto simp: apply_rule_in_def Let_def list_all_iff split: if_splits)
  have "2 \<le> card (tg_tag ` set ?tagged)"
    using card_mono [OF _ req] assms(2) r(1) by (force simp: rule_ok_def)
  also have "\<dots> \<le> card (set ?tagged)" by (rule card_image_le) (rule finite_set)
  also have "\<dots> \<le> length ?tagged" by (rule card_length)
  finally have len: "2 \<le> length (map tg_event ?tagged)" by simp
  have "set (map tg_event ?tagged) \<subseteq> input_events input" if "orders_ok mo"
  proof
    fix e assume "e \<in> set (map tg_event ?tagged)"
    then obtain rl te where "rl \<in> set rules" "te \<in> set (tag_events rl (?all rl))" "e = tg_event te" by auto
    with tag_events_sub have "e \<in> set (?all rl)" by blast
    with that flattenEvents_order [of "mo_rule mo (xr_Name rl)"] show "e \<in> input_events input"
      by (simp add: orders_ok_def input_events_def)
  qed
  with that [OF g r(1) len] show thesis by blast
qed

text \<open>A rule fires only when each tag it requires is given to an issue of the input by a rule of its name.\<close>

lemma rule_group_tags:
  assumes "g \<in> set (applyCrossCheckerRules rules mo input)" "orders_ok mo"
  obtains rule where "rule \<in> set rules" "cg_Rule g = xr_Name rule"
    "\<forall>tag \<in> set (xr_RequiredTags rule). \<exists>rl \<in> set rules. \<exists>e \<in> input_events input.
       xr_Name rl = xr_Name rule \<and> xr_Match rl (te_Checker e) (te_Issue e) = Some tag"
proof -
  let ?all = "\<lambda>rule. flattenEvents (mo_rule mo (xr_Name rule) (ci_Results input)) (ci_Timestamp input)"
  let ?tes = "concat (map (\<lambda>rule. tag_events rule (?all rule)) rules)"
  from assms(1) obtain ns rule where r: "rule \<in> set rules"
    "g \<in> set (apply_rule_in ?tes (ci_Timestamp input) ns rule)"
    by (auto simp: applyCrossCheckerRules_def Let_def)
  let ?tagged = "filter (\<lambda>te. tg_ns te = ns \<and> tg_rule te = xr_Name rule) ?tes"
  from r(2) have g: "cg_Rule g = xr_Name rule" and req: "set (xr_RequiredTags rule) \<subseteq> tg_tag ` set ?tagged"
    by (auto simp: apply_rule_in_def rule_group_def Let_def list_all_iff split: if_splits)
  have "\<exists>rl \<in> set rules. \<exists>e \<in> input_events input.
      xr_Name rl = xr_Name rule \<and> xr_Match rl (te_Checker e) (te_Issue e) = Some tag"
    if "tag \<in> set (xr_RequiredTags rule)" for tag
  proof -
    from that req obtain te rl where te: "rl \<in> set rules" "te \<in> set (tag_events rl (?all rl))" "tg_tag te = tag"
      "tg_rule te = xr_Name rule" by auto
    then obtain e where "e \<in> set (?all rl)" "xr_Match rl (te_Checker e) (te_Issue e) = Some tag"
      "xr_Name rl = xr_Name rule"
      by (auto simp: tag_events_def split: option.splits)
    moreover have "set (?all rl) = input_events input"
      using assms(2) flattenEvents_order [of "mo_rule mo (xr_Name rl)"] by (simp add: orders_ok_def input_events_def)
    ultimately show ?thesis using te(1) by metis
  qed
  with that [OF r(1) g] show thesis by blast
qed

interpretation cross_rules: correlation_strategy "applyCrossCheckerRules DefaultRules"
proof
  fix mo g input
  assume g: "g \<in> set (applyCrossCheckerRules DefaultRules mo input)"
  from rule_group_facts [OF this DefaultRules_ok] obtain ns rule es where
    es: "g = rule_group ns (ci_Timestamp input) rule es" "rule \<in> set DefaultRules" "2 \<le> length es"
      "set es \<subseteq> input_events input \<or> \<not> orders_ok mo"
    by metis
  then show "2 \<le> length (cg_Events g)" "0 \<le> cg_Confidence g \<and> cg_Confidence g \<le> 1"
    using DefaultRules_ok by (auto simp: rule_group_def rule_ok_def)
  show "e \<in> set (cg_Events g) \<Longrightarrow> event_prio e \<le> severity_prio (cg_Severity g)" for e
    using es(1) highestSeverity_covers by (simp add: rule_group_def)
  show "set (cg_Events g) \<subseteq> input_events input" if "orders_ok mo"
    using es that by (simp add: rule_group_def)
qed

section \<open>Deduplication\<close>

lemma keep_events_facts:
  "keep_events claimed es = (kept, claimed') \<Longrightarrow>
   set claimed' = set claimed \<union> event_key ` set kept \<and> distinct (map event_key kept) \<and>
   event_key ` set kept \<inter> set claimed = {} \<and> set kept \<subseteq> set es"
proof (induction claimed es arbitrary: kept claimed' rule: keep_events.induct)
  case (2 claimed e es)
  show ?case
  proof (cases "event_key e \<in> set claimed")
    case True
    with 2 show ?thesis by auto
  next
    case False
    obtain k c where kc: "keep_events (event_key e # claimed) es = (k, c)" by fastforce
    with 2(2) [OF False kc] 2(3) False show ?thesis by (auto simp: disjoint_iff)
  qed
qed simp

lemma release_claims:
  "set (fold (\<lambda>e c. removeAll (event_key e) c) kept claimed) = set claimed - event_key ` set kept"
  by (induction kept arbitrary: claimed) auto

definition group_keys :: "CausalGroup list \<Rightarrow> string list" where
  "group_keys gs = map event_key (concat (map cg_Events gs))"

definition shrunk_from :: "CausalGroup list \<Rightarrow> CausalGroup \<Rightarrow> bool" where
  "shrunk_from gs g \<longleftrightarrow> (\<exists>g0 \<in> set gs. \<exists>es. g = g0\<lparr>cg_Events := es\<rparr> \<and> set es \<subseteq> set (cg_Events g0))"

definition dedup_inv :: "CausalGroup list \<Rightarrow> string list \<times> CausalGroup list \<Rightarrow> bool" where
  "dedup_inv gs st \<longleftrightarrow> set (fst st) = set (group_keys (snd st)) \<and> distinct (group_keys (snd st)) \<and>
     (\<forall>g \<in> set (snd st). 2 \<le> length (cg_Events g) \<and> shrunk_from gs g)"

lemma group_keys_snoc: "group_keys (gs @ [g]) = group_keys gs @ map event_key (cg_Events g)"
  by (simp add: group_keys_def)

lemma dedup_group_inv [inv_intros]:
  assumes "dedup_inv gs st" "g \<in> set gs"
  shows "dedup_inv gs (dedup_group g st)"
proof -
  obtain claimed result where st: "st = (claimed, result)" by fastforce
  obtain kept claimed' where k: "keep_events claimed (cg_Events g) = (kept, claimed')" by fastforce
  note kf = keep_events_facts [OF k]
  show ?thesis
  proof (cases "length kept < 2")
    case True
    have "set claimed' - event_key ` set kept = set claimed" using kf by auto
    with assms(1) True show ?thesis by (simp add: dedup_group_def st k dedup_inv_def release_claims)
  next
    case False
    have "shrunk_from gs (g\<lparr>cg_Events := kept\<rparr>)"
      unfolding shrunk_from_def using assms(2) kf by blast
    with assms(1) False kf show ?thesis
      by (auto simp add: dedup_group_def st k dedup_inv_def group_keys_snoc)
  qed
qed

lemma deduplicateGroups_facts:
  "distinct (group_keys (deduplicateGroups gs))"
  "g \<in> set (deduplicateGroups gs) \<Longrightarrow> 2 \<le> length (cg_Events g) \<and> shrunk_from gs g"
proof -
  have "dedup_inv gs (fold dedup_group (sort_key (\<lambda>g. - cg_Confidence g) gs) ([], []))"
    by (rule fold_invariant_result [where P = "dedup_inv gs"])
      (auto intro: dedup_group_inv simp: dedup_inv_def [of _ "([], [])"] group_keys_def)
  then show "distinct (group_keys (deduplicateGroups gs))"
    "g \<in> set (deduplicateGroups gs) \<Longrightarrow> 2 \<le> length (cg_Events g) \<and> shrunk_from gs g"
    by (simp_all add: dedup_inv_def deduplicateGroups_def)
qed

lemma sortGroups_mset [simp]: "mset (sortGroups gs) = mset gs" "set (sortGroups gs) = set gs"
  by (simp_all add: sortGroups_def)

lemma mset_group_keys:
  "mset (group_keys gs) = image_mset event_key (\<Sum>\<^sub># (image_mset (\<lambda>g. mset (cg_Events g)) (mset gs)))"
  by (induction gs) (simp_all add: group_keys_def)

lemma group_keys_mset: "mset gs = mset gs' \<Longrightarrow> mset (group_keys gs) = mset (group_keys gs')"
  by (simp add: mset_group_keys)

lemma total_issues_flatten: "total_issues rs = int (length (flattenEvents rs ts))"
  by (induction rs) (auto simp: total_issues_def flattenEvents_def split: option.splits prod.splits)

lemma length_group_keys: "length (group_keys gs) = sum_list (map (\<lambda>g. length (cg_Events g)) gs)"
  by (induction gs) (simp_all add: group_keys_def)

text \<open>What the correlator's groups are: those of the strategies, shrunk and sorted.\<close>

definition strategy_groups :: "duration \<Rightarrow> map_orders \<Rightarrow> CorrelationInput \<Rightarrow> CausalGroup list" where
  "strategy_groups window mo input = applyCrossCheckerRules DefaultRules mo input @ graph_Correlate mo input @
     temporal_Correlate window mo input"

lemma strategy_group_facts:
  assumes "g \<in> set (strategy_groups w mo input)"
  shows "orders_ok mo \<Longrightarrow> set (cg_Events g) \<subseteq> input_events input"
    "e \<in> set (cg_Events g) \<Longrightarrow> event_prio e \<le> severity_prio (cg_Severity g)"
    "0 \<le> cg_Confidence g \<and> cg_Confidence g \<le> 1"
proof -
  consider (rules) "g \<in> set (applyCrossCheckerRules DefaultRules mo input)"
    | (graph) "g \<in> set (graph_Correlate mo input)" | (temporal) "g \<in> set (temporal_Correlate w mo input)"
    using assms unfolding strategy_groups_def set_append by blast
  note cases = this
  show "set (cg_Events g) \<subseteq> input_events input" if "orders_ok mo"
    using cases by cases (rule cross_rules.from_input [OF that] graph.from_input [OF that]
      temporal.from_input [OF that], assumption)+
  show "event_prio e \<le> severity_prio (cg_Severity g)" if "e \<in> set (cg_Events g)"
    using cases by cases (rule cross_rules.severity_covers [OF _ that] graph.severity_covers [OF _ that]
      temporal.severity_covers [OF _ that], assumption)+
  show "0 \<le> cg_Confidence g \<and> cg_Confidence g \<le> 1"
    using cases by cases (rule cross_rules.confidence_unit graph.confidence_unit
      temporal.confidence_unit, assumption)+
qed

lemma causal_Analyze_groups:
  assumes "co_rules c = DefaultRules"
  shows "cx_Groups (causal_Analyze c mo input) =
      (if total_issues (ci_Results input) = 0 then []
       else sortGroups (deduplicateGroups (strategy_groups (co_window c) mo input)))"
    "cx_TotalIssues (causal_Analyze c mo input) = total_issues (ci_Results input)"
  using assms by (simp_all add: causal_Analyze_def Let_def strategy_groups_def)

lemma distinct_keys_events:
  "distinct (group_keys gs) \<Longrightarrow> distinct (concat (map cg_Events gs))"
  by (simp add: group_keys_def distinct_map)

lemma causal_groups_facts:
  assumes "orders_ok mo" "co_rules c = DefaultRules"
  shows "distinct (group_keys (cx_Groups (causal_Analyze c mo input))) \<and>
    sorted (map (\<lambda>g. (- severity_prio (cg_Severity g), - cg_Confidence g)) (cx_Groups (causal_Analyze c mo input))) \<and>
    (\<forall>g \<in> set (cx_Groups (causal_Analyze c mo input)).
       2 \<le> length (cg_Events g) \<and> set (cg_Events g) \<subseteq> input_events input \<and>
       (\<forall>e \<in> set (cg_Events g). event_prio e \<le> severity_prio (cg_Severity g)) \<and>
       0 \<le> cg_Confidence g \<and> cg_Confidence g \<le> 1)"
proof (cases "total_issues (ci_Results input) = 0")
  case True
  with causal_Analyze_groups [OF assms(2)] show ?thesis by (simp add: group_keys_def)
next
  case False
  let ?gs = "deduplicateGroups (strategy_groups (co_window c) mo input)"
  have gs: "cx_Groups (causal_Analyze c mo input) = sortGroups ?gs"
    using causal_Analyze_groups [OF assms(2)] False by simp
  have "distinct (group_keys (sortGroups ?gs))"
    using deduplicateGroups_facts(1) group_keys_mset [of "sortGroups ?gs" ?gs]
    by (metis mset_eq_imp_distinct_iff sortGroups_mset(1))
  moreover have "2 \<le> length (cg_Events g) \<and> set (cg_Events g) \<subseteq> input_events input \<and>
       (\<forall>e \<in> set (cg_Events g). event_prio e \<le> severity_prio (cg_Severity g)) \<and>
       0 \<le> cg_Confidence g \<and> cg_Confidence g \<le> 1" if "g \<in> set ?gs" for g
  proof -
    from deduplicateGroups_facts(2) [OF that] obtain g0 es where g: "2 \<le> length (cg_Events g)"
      "g0 \<in> set (strategy_groups (co_window c) mo input)" "g = g0\<lparr>cg_Events := es\<rparr>" "set es \<subseteq> set (cg_Events g0)"
      by (auto simp: shrunk_from_def)
    with strategy_group_facts [OF g(2)] assms(1) show ?thesis by fastforce
  qed
  ultimately show ?thesis unfolding gs by (simp add: sortGroups_def)
qed

section \<open>A run of the correlator\<close>

text \<open>Three workload issues of one scan, two of them with the same key.\<close>

definition ex_orders :: map_orders where
  "ex_orders = \<lparr>mo_rule = (\<lambda>_ xs. xs), mo_rule_ns = (\<lambda>xs. xs), mo_graph = (\<lambda>xs. xs), mo_graph_ns = rev,
     mo_temporal = rev, mo_temporal_ns = (\<lambda>xs. xs)\<rparr>"

lemma ex_orders_ok: "orders_ok ex_orders"
  by (simp add: orders_ok_def ex_orders_def range_order_def)

definition ex_issue :: "string \<Rightarrow> string \<Rightarrow> issue" where
  "ex_issue ty res = \<lparr>iss_Type = ty, iss_Severity = ''Warning'', iss_Resource = res, iss_Namespace = ''ns'',
     iss_Message = [], iss_Suggestion = [], iss_Metadata = None\<rparr>"

definition ex_input :: CorrelationInput where
  "ex_input = \<lparr>ci_Results = [(''workloads'', Some \<lparr>cr_CheckerName = ''workloads'', cr_Healthy = 0,
       cr_Issues = [ex_issue ''A'' ''r'', ex_issue ''A'' ''r'', ex_issue ''B'' ''r''], cr_Error = None\<rparr>)],
     ci_Timestamp = 0\<rparr>"

lemma ex_rules: "applyCrossCheckerRules DefaultRules ex_orders ex_input = []"
  by (simp add: applyCrossCheckerRules_def DefaultRules_def tag_events_def flattenEvents_def ex_orders_def ex_input_def
    oomQuotaRule_def crashImagePullRule_def fluxChainRule_def pvcWorkloadRule_def type_contains_def ex_issue_def
    serious_def to_upper_def go_defs)

definition ex_events :: "TimelineEvent list" where
  "ex_events = map (\<lambda>i. \<lparr>te_Timestamp = 0, te_Checker = ''workloads'', te_Issue = i\<rparr>)
    [ex_issue ''A'' ''r'', ex_issue ''A'' ''r'', ex_issue ''B'' ''r'']"

lemma ex_len: "\<not> length ex_events < 2"
  by (simp add: ex_events_def)

lemma ex_flat: "flattenEvents (ci_Results ex_input) 0 = ex_events" "ci_Timestamp ex_input = 0"
  "rev (ci_Results ex_input) = ci_Results ex_input"
  by (simp_all add: flattenEvents_def ex_input_def ex_events_def)

lemma ex_by: "group_by (\<lambda>e. scope_of (te_Issue e)) ex_events = [(''ns'', ex_events)]"
  by (simp add: ex_events_def ex_issue_def scope_of_def)

lemma ex_chains: "ownership_chains ex_events = []"
  by code_simp

lemma ex_graph: "graph_Correlate ex_orders ex_input = []"
  by (simp add: graph_Correlate_def ex_flat ex_orders_def ex_by ex_chains)

lemma ex_window: "window_groups (co_window NewCorrelator) (sort_key te_Timestamp ex_events) = [ex_events]"
  by (simp add: ex_events_def NewCorrelator_def NewTemporalCorrelator_def DefaultTimeWindow_def Let_def time_sub_def)

lemma ex_temporal: "temporal_Correlate (co_window NewCorrelator) ex_orders ex_input = [buildTemporalGroup ''ns'' ex_events]"
  by (simp add: temporal_Correlate_def ex_flat ex_orders_def ex_by ex_window ex_len)

lemma ex_rules_default: "co_rules NewCorrelator = DefaultRules"
  by (simp add: NewCorrelator_def)

lemma ex_total: "cx_TotalIssues (causal_Analyze NewCorrelator ex_orders ex_input) = 3"
  unfolding causal_Analyze_groups(2) [OF ex_rules_default] by (simp add: total_issues_def ex_input_def)

lemma ex_groups: "length (cx_Groups (causal_Analyze NewCorrelator ex_orders ex_input)) = 1"
proof -
  have "total_issues (ci_Results ex_input) = 3" by (simp add: total_issues_def ex_input_def)
  moreover have "deduplicateGroups [buildTemporalGroup ''ns'' ex_events] =
      [(buildTemporalGroup ''ns'' ex_events)\<lparr>cg_Events := [ex_events ! 0, ex_events ! 2]\<rparr>]"
    by (simp add: deduplicateGroups_def dedup_group_def buildTemporalGroup_def ex_events_def ex_issue_def event_key_def)
  ultimately show ?thesis
    unfolding causal_Analyze_groups(1) [OF ex_rules_default]
    by (simp add: strategy_groups_def ex_rules ex_graph ex_temporal sortGroups_def)
qed

lemma ex_unc: "cx_UncorrelatedCount (causal_Analyze NewCorrelator ex_orders ex_input) = 1"
proof -
  have t: "total_issues (ci_Results ex_input) = 3" by (simp add: total_issues_def ex_input_def)
  have g: "map event_key (concat (map cg_Events (deduplicateGroups [buildTemporalGroup ''ns'' ex_events]))) = map event_key [ex_events ! 0, ex_events ! 2]"
    by (simp add: deduplicateGroups_def dedup_group_def buildTemporalGroup_def ex_events_def ex_issue_def event_key_def)
  show ?thesis
    by (simp add: causal_Analyze_def t ex_rules_default ex_rules ex_graph ex_temporal g Let_def)
      (simp add: ex_events_def event_key_def ex_issue_def)
qed

section \<open>Properties\<close>



text \<open>The count of uncorrelated issues is the number of issues outside the groups, counted with
  multiplicity and never negative. Since an event key has no pod in it, the second of two issues that
  share checker, namespace, resource and type is dropped from its group and counted as uncorrelated.\<close>

theorem causal_counts:
  assumes "orders_ok mo" "co_rules c = DefaultRules"
  shows "cx_UncorrelatedCount (causal_Analyze c mo input) +
      int (sum_list (map (\<lambda>g. length (cg_Events g)) (cx_Groups (causal_Analyze c mo input)))) =
      cx_TotalIssues (causal_Analyze c mo input) \<and>
    0 \<le> cx_UncorrelatedCount (causal_Analyze c mo input)"
proof (cases "total_issues (ci_Results input) = 0")
  case True
  then show ?thesis by (simp add: causal_Analyze_def)
next
  case False
  let ?gs = "deduplicateGroups (strategy_groups (co_window c) mo input)"
  let ?out = "cx_Groups (causal_Analyze c mo input)"
  have out: "?out = sortGroups ?gs" using causal_Analyze_groups [OF assms(2)] False by simp
  have dist: "distinct (group_keys ?gs)" by (rule deduplicateGroups_facts(1))
  have un: "cx_UncorrelatedCount (causal_Analyze c mo input) =
      total_issues (ci_Results input) - int (length (group_keys ?gs))"
  proof -
    have "map event_key (concat (map cg_Events ?gs)) = group_keys ?gs" by (simp add: group_keys_def)
    with False assms(2) show ?thesis
      unfolding causal_Analyze_def Let_def strategy_groups_def
      by (simp add: distinct_remdups_id [OF dist, unfolded strategy_groups_def])
  qed
  have len: "sum_list (map (\<lambda>g. length (cg_Events g)) ?out) = length (group_keys ?gs)"
    unfolding out length_group_keys [symmetric]
    using group_keys_mset [of "sortGroups ?gs" ?gs] by (metis size_mset sortGroups_mset(1))
  have wf: "distinct (group_keys ?out)" "\<forall>g \<in> set ?out. set (cg_Events g) \<subseteq> input_events input"
    using causal_groups_facts [OF assms] by blast+
  let ?evs = "concat (map cg_Events ?out)"
  have "length ?evs = card (set ?evs)"
    using distinct_card [OF distinct_keys_events [OF wf(1)]] by simp
  also have "\<dots> \<le> card (input_events input)"
    using wf(2) by (intro card_mono) (auto simp: input_events_def)
  also have "\<dots> \<le> length (flattenEvents (ci_Results input) (ci_Timestamp input))"
    unfolding input_events_def by (rule card_length)
  finally have "int (length ?evs) \<le> total_issues (ci_Results input)"
    by (simp add: total_issues_flatten [of _ "ci_Timestamp input"])
  moreover have "length ?evs = sum_list (map (\<lambda>g. length (cg_Events g)) ?out)"
    by (simp add: length_concat comp_def)
  ultimately show ?thesis using un len causal_Analyze_groups(2) [OF assms(2)] by simp
qed

theorem causal_counts_witness:
  "int (sum_list (map (\<lambda>g. length (cg_Events g)) (cx_Groups (causal_Analyze NewCorrelator ex_orders ex_input)))) = 2 \<and>
   cx_UncorrelatedCount (causal_Analyze NewCorrelator ex_orders ex_input) = 1"
  using causal_counts [OF ex_orders_ok ex_rules_default, of ex_input] ex_unc ex_total by simp

end
