(* ===== verification/Dashboard_Types.thy ===== *)
theory Dashboard_Types
  imports AI_Enhancement AI_Client Causal Health_History
begin

text \<open>
  The data of the dashboard (\<open>internal/dashboard/server.go\<close>, \<open>enrichment_queue.go\<close>): updates, issue states,
  the state of a cluster and the requests of the enrichment queue. The metadata of a dashboard issue is a value:
  nothing writes to it once the issue is made. An \<open>AIStatus\<close> is a value too, because the one field that is written through a
  shared pointer (\<open>CheckPhase\<close>) is never read from the cached status. The counter of checks is unbounded: a
  run of \<open>2 ^ 64\<close> checks is left out.
\<close>

record AIStatus =
  as_Enabled :: bool
  as_Provider :: string
  as_LastError :: string
  as_IssuesEnhanced :: int
  as_TokensUsed :: int
  as_EstimatedCostUSD :: f64
  as_CacheHit :: bool
  as_IssuesCapped :: bool
  as_TotalIssueCount :: int
  as_Pending :: bool
  as_CheckPhase :: string

definition no_status :: AIStatus where
  "no_status = \<lparr>as_Enabled = False, as_Provider = [], as_LastError = [], as_IssuesEnhanced = 0, as_TokensUsed = 0,
     as_EstimatedCostUSD = 0, as_CacheHit = False, as_IssuesCapped = False, as_TotalIssueCount = 0,
     as_Pending = False, as_CheckPhase = []\<rparr>"

record DashIssue =
  dx_Type :: string
  dx_Severity :: string
  dx_Resource :: string
  dx_Namespace :: string
  dx_Message :: string
  dx_Suggestion :: string
  dx_AIEnhanced :: bool
  dx_RootCause :: string
  dx_Metadata :: "metadata option"

record DashResult =
  dr_Name :: string
  dr_Healthy :: int
  dr_Issues :: "DashIssue list"
  dr_Error :: string

record Summary =
  su_TotalHealthy :: int
  su_TotalIssues :: int
  su_CriticalCount :: int
  su_WarningCount :: int
  su_InfoCount :: int
  su_HealthScore :: f64
  su_DeploymentReady :: int
  su_DeploymentDesired :: int
  su_DeploymentReadinessScore :: f64

datatype action = ActionAcknowledged | ActionSnoozed

record IssueState =
  st_Key :: string
  st_Action :: action
  st_Reason :: string
  st_SnoozedUntil :: "time option"
  st_CreatedAt :: time

definition IsExpired :: "time \<Rightarrow> IssueState \<Rightarrow> bool" where
  "IsExpired now st \<longleftrightarrow>
     st_Action st = ActionSnoozed \<and> (case st_SnoozedUntil st of None \<Rightarrow> False | Some t \<Rightarrow> t < now)"

type_synonym issue_states = "string \<rightharpoonup> IssueState"

record HealthUpdate =
  hu_Timestamp :: time
  hu_ClusterID :: string
  hu_Namespaces :: "string list"
  hu_Results :: "(string \<times> DashResult) list"
  hu_Summary :: Summary
  hu_AIStatus :: "AIStatus option"
  hu_IssueStates :: issue_states

record aiEnhancement =
  ae_Suggestion :: string
  ae_RootCause :: string

record ExplainCacheEntry =
  xc_Response :: ExplainResponse
  xc_IssueHash :: string
  xc_CachedAt :: time

record clusterState =
  cs_latest :: "HealthUpdate option"
  cs_latestCausal :: "CausalContext option"
  cs_history :: RingBuffer
  cs_lastAICacheHash :: string
  cs_currentIssueHash :: string
  cs_aiConfigVersion :: string
  cs_lastAIResult :: "AIStatus option"
  cs_lastAIEnhancements :: "string \<rightharpoonup> string \<rightharpoonup> aiEnhancement"
  cs_lastCausalInsights :: "CausalGroupInsight list"
  cs_lastExplain :: "ExplainCacheEntry option"
  cs_checkCounter :: nat
  cs_issueStates :: issue_states

text \<open>The state made for a new cluster, and \<open>getOrCreateClusterState\<close>.\<close>

definition new_cluster :: "int \<Rightarrow> clusterState" where
  "new_cluster historySize = \<lparr>cs_latest = None, cs_latestCausal = None, cs_history = history_New historySize,
     cs_lastAICacheHash = [], cs_currentIssueHash = [], cs_aiConfigVersion = [], cs_lastAIResult = None,
     cs_lastAIEnhancements = Map.empty, cs_lastCausalInsights = [], cs_lastExplain = None, cs_checkCounter = 0,
     cs_issueStates = Map.empty\<rparr>"

type_synonym clusters = "string \<rightharpoonup> clusterState"

definition getOrCreateClusterState :: "int \<Rightarrow> string \<Rightarrow> clusters \<Rightarrow> clusterState \<times> clusters" where
  "getOrCreateClusterState historySize cluster cls =
     (case cls cluster of
        Some cs \<Rightarrow> (cs, cls)
      | None \<Rightarrow> (let cs = new_cluster historySize in (cs, cls(cluster \<mapsto> cs))))"

text \<open>A request of the enrichment queue. The provider is its name; its answers are in the check context.\<close>

record enrichmentRequest =
  er_clusterID :: string
  er_generation :: nat
  er_issueHash :: string
  er_configVersion :: string
  er_results :: enhancement
  er_causalCtx :: "CausalContext option"
  er_checkCtx :: enhance_context
  er_provider :: string
  er_aiModel :: string
  er_enqueuedAt :: time

end
