(* ===== verification/Admission.thy ===== *)
theory Admission
  imports Plugin_Checker
begin

text \<open>
  The custom resources (\<open>api/v1alpha1/*_types.go\<close>), their admission webhooks (\<open>*_webhook.go\<close>), and the
  resolution of a scope to namespaces (\<open>internal/scope/resolver.go\<close>). A rejected request is one with a
  non-empty list of field errors; the list of supported values that the message of \<open>NotSupported\<close> ends with
  comes in map order and is left out. \<open>url.Parse\<close> is the parameter \<open>parse_url\<close>: the scheme and the host name.
  The type of label selectors is a type variable.
\<close>

section \<open>Types\<close>

record TroubleshootSpec =
  ts_Kind :: string
  ts_Name :: string
  ts_Actions :: "string list"
  ts_TailLines :: int
  ts_TTL :: "int option"

record 's ScopeConfig =
  sc_Namespaces :: "string list"
  sc_NamespaceSelector :: "'s option"
  sc_CurrentNamespaceOnly :: bool

record WorkloadCheckConfig =
  wc_RestartThreshold :: int
  wc_IncludeJobs :: bool

record SecretCheckConfig =
  sk_CheckCertExpiry :: bool
  sk_CertExpiryWarningDays :: int
  sk_CheckReferences :: bool

record CheckerConfig =
  kc_Workloads :: "WorkloadCheckConfig option"
  kc_Secrets :: "SecretCheckConfig option"
  kc_Quotas :: "int option"            \<comment> \<open>the warning percentage, its only field\<close>
  kc_PVCs :: "int option"

record NotificationTarget =
  nt_Type :: string
  nt_URL :: string
  nt_SecretRef :: "(string \<times> string) option"     \<comment> \<open>name and key\<close>
  nt_OnCompletion :: bool
  nt_OnSeverity :: string

record 's TeamHealthSpec =
  hs_Scope :: "'s ScopeConfig"
  hs_Checks :: "string list"
  hs_Config :: CheckerConfig
  hs_TTL :: "int option"
  hs_Notify :: "NotificationTarget list"

definition AllowHTTPWebhooksAnnotation :: string where
  "AllowHTTPWebhooksAnnotation = ''assist.cluster.local/allow-http-webhooks''"

section \<open>Errors\<close>

datatype field_error =
    FieldRequired string string
  | NotSupported string string
  | FieldInvalid string string string
  | Forbidden string string
  | Duplicate string string
  | InternalError string string

definition field_index :: "string \<Rightarrow> nat \<Rightarrow> string" where
  "field_index path i = path @ ''['' @ itoa (int i) @ '']''"

definition unsupported :: "string \<Rightarrow> string list \<Rightarrow> string list \<Rightarrow> field_error list" where
  "unsupported path valid xs =
     map (\<lambda>(i, x). NotSupported (field_index path i) x) (filter (\<lambda>(i, x). x \<notin> set valid) (enumerate 0 xs))"

lemma filter_enumerate_Nil: "filter (\<lambda>(i, x). P x) (enumerate n xs) = [] \<longleftrightarrow> list_all (\<lambda>x. \<not> P x) xs"
  by (induction xs arbitrary: n) auto

lemma unsupported_Nil [simp]: "unsupported path valid xs = [] \<longleftrightarrow> set xs \<subseteq> set valid"
  by (auto simp: unsupported_def filter_enumerate_Nil list_all_iff)

definition negative_ttl :: "int option \<Rightarrow> field_error list" where
  "negative_ttl ttl =
     (case ttl of Some t \<Rightarrow> if t < 0 then [FieldInvalid ''spec.ttlSecondsAfterFinished'' (itoa t) ''must be >= 0''] else []
      | None \<Rightarrow> [])"

section \<open>Troubleshoot requests\<close>

definition validTargetKinds :: "string list" where
  "validTargetKinds = [''Deployment'', ''StatefulSet'', ''DaemonSet'', ''Pod'', ''ReplicaSet'']"

definition validActions :: "string list" where
  "validActions = [''diagnose'', ''logs'', ''events'', ''describe'', ''all'']"

definition troubleshoot_ValidateCreate :: "TroubleshootSpec \<Rightarrow> field_error list" where
  "troubleshoot_ValidateCreate tr =
     (if ts_Name tr = [] then [FieldRequired ''spec.target.name'' ''target name is required''] else []) @
     (if ts_Kind tr \<noteq> [] \<and> ts_Kind tr \<notin> set validTargetKinds then [NotSupported ''spec.target.kind'' (ts_Kind tr)] else []) @
     unsupported ''spec.actions'' validActions (ts_Actions tr) @ negative_ttl (ts_TTL tr)"

definition troubleshoot_ValidateUpdate :: "TroubleshootSpec \<Rightarrow> TroubleshootSpec \<Rightarrow> field_error list" where
  "troubleshoot_ValidateUpdate old new =
     (if ts_Name new \<noteq> ts_Name old then [Forbidden ''spec.target.name'' ''field is immutable''] else []) @
     (if ts_Kind new \<noteq> ts_Kind old then [Forbidden ''spec.target.kind'' ''field is immutable''] else [])"

section \<open>Team health requests\<close>

definition validCheckerNames :: "string list" where
  "validCheckerNames = [''workloads'', ''helmreleases'', ''kustomizations'', ''gitrepositories'', ''secrets'', ''pvcs'',
     ''quotas'', ''networkpolicies'']"

type_synonym url_parser = "string \<Rightarrow> (string \<times> string) option"

definition allows_http :: "(string \<rightharpoonup> string) \<Rightarrow> bool" where
  "allows_http annotations \<longleftrightarrow> annotations AllowHTTPWebhooksAnnotation = Some ''true''"

definition validate_target :: "url_parser \<Rightarrow> (string \<rightharpoonup> string) \<Rightarrow> string \<Rightarrow> NotificationTarget \<Rightarrow> field_error list" where
  "validate_target parse_url annotations path t =
     (if nt_URL t = [] \<and> nt_SecretRef t = None then [FieldRequired path ''must specify url or secretRef''] else []) @
     (if nt_URL t \<noteq> [] \<and> nt_SecretRef t \<noteq> None then [Forbidden path ''cannot specify both url and secretRef''] else []) @
     (if nt_URL t = [] then []
      else case parse_url (nt_URL t) of
        None \<Rightarrow> [FieldInvalid (path @ ''.url'') (nt_URL t) ''invalid URL'']
      | Some (scheme, _) \<Rightarrow>
          if scheme \<noteq> ''https'' \<and> \<not> allows_http annotations
          then [FieldInvalid (path @ ''.url'') (nt_URL t)
                  (''webhook URL must use HTTPS (annotate with '' @ AllowHTTPWebhooksAnnotation @ ''=true to override)'')]
          else [])"

fun duplicates :: "string \<Rightarrow> string set \<Rightarrow> nat \<Rightarrow> string list \<Rightarrow> field_error list" where
  "duplicates path seen i [] = []"
| "duplicates path seen i (x # xs) =
     (if x \<in> seen then [Duplicate (field_index path i) x] else []) @ duplicates path (insert x seen) (i + 1) xs"

definition validateSpec :: "url_parser \<Rightarrow> (string \<rightharpoonup> string) \<Rightarrow> 's TeamHealthSpec \<Rightarrow> field_error list" where
  "validateSpec parse_url annotations hr =
     unsupported ''spec.checks'' validCheckerNames (hs_Checks hr) @ negative_ttl (hs_TTL hr) @
     concat (map (\<lambda>(i, t). validate_target parse_url annotations (field_index ''spec.notify'' i) t) (enumerate 0 (hs_Notify hr))) @
     (if sc_CurrentNamespaceOnly (hs_Scope hr)
      then (if sc_Namespaces (hs_Scope hr) \<noteq> []
            then [Forbidden ''spec.scope.namespaces'' ''cannot set namespaces when currentNamespaceOnly is true''] else []) @
           (if sc_NamespaceSelector (hs_Scope hr) \<noteq> None
            then [Forbidden ''spec.scope.namespaceSelector'' ''cannot set namespaceSelector when currentNamespaceOnly is true''] else [])
      else []) @
     duplicates ''spec.scope.namespaces'' {} 0 (sc_Namespaces (hs_Scope hr))"

definition teamhealth_ValidateCreate :: "url_parser \<Rightarrow> (string \<rightharpoonup> string) \<Rightarrow> 's TeamHealthSpec \<Rightarrow> field_error list" where
  "teamhealth_ValidateCreate = validateSpec"

definition teamhealth_ValidateUpdate :: "url_parser \<Rightarrow> (string \<rightharpoonup> string) \<Rightarrow> 's TeamHealthSpec \<Rightarrow> 's TeamHealthSpec \<Rightarrow>
    field_error list" where
  "teamhealth_ValidateUpdate parse_url annotations old new =
     validateSpec parse_url annotations new @
     (if sc_CurrentNamespaceOnly (hs_Scope new) \<noteq> sc_CurrentNamespaceOnly (hs_Scope old)
      then [Forbidden ''spec.scope.currentNamespaceOnly'' ''field is immutable''] else [])"

section \<open>Check plugins\<close>

definition validate_rule :: "('p, 'obj) cel \<Rightarrow> string \<Rightarrow> CheckRule \<Rightarrow> field_error list" where
  "validate_rule cel path rule =
     (if rl_Condition rule = [] then [FieldRequired (path @ ''.condition'') ''condition is required'']
      else case cel_compile cel (rl_Condition rule) of
        Inl e \<Rightarrow> [FieldInvalid (path @ ''.condition'') (rl_Condition rule) (''invalid CEL expression: '' @ e)]
      | Inr _ \<Rightarrow> []) @
     (if has_prefix (rl_Message rule) ''=''
      then case cel_compile cel (tl (rl_Message rule)) of
        Inl e \<Rightarrow> [FieldInvalid (path @ ''.message'') (rl_Message rule) (''invalid CEL message expression: '' @ e)]
      | Inr _ \<Rightarrow> []
      else [])"

definition validateCheckPlugin :: "string option \<Rightarrow> ('p, 'obj) cel \<Rightarrow> CheckPluginSpec \<Rightarrow> field_error list" where
  "validateCheckPlugin envError cel spec =
     (if sp_Rules spec = [] then [FieldRequired ''spec.rules'' ''at least one rule is required''] else []) @
     (case envError of
        Some e \<Rightarrow> [InternalError ''spec'' (''failed to create CEL environment: '' @ e)]
      | None \<Rightarrow> concat (map (\<lambda>(i, r). validate_rule cel (field_index ''spec.rules'' i) r) (enumerate 0 (sp_Rules spec))))"

section \<open>Scopes\<close>

text \<open>The data source: whether a namespace can be read, and the namespaces that a selector lists.\<close>

record 's namespace_source =
  nss_get :: "string \<Rightarrow> bool"
  nss_selector :: "'s \<Rightarrow> string option"                     \<comment> \<open>the error of an invalid selector\<close>
  nss_list :: "'s \<Rightarrow> string + (string \<times> string) list"       \<comment> \<open>names and phases\<close>

definition validateNamespaces :: "'s namespace_source \<Rightarrow> string list \<Rightarrow> string list" where
  "validateNamespaces src nss = sort (filter (nss_get src) nss)"

definition resolveBySelector :: "'s namespace_source \<Rightarrow> 's \<Rightarrow> string + string list" where
  "resolveBySelector src sel =
     (case nss_selector src sel of
        Some e \<Rightarrow> Inl e
      | None \<Rightarrow>
          (case nss_list src sel of
             Inl e \<Rightarrow> Inl e
           | Inr items \<Rightarrow> Inr (sort (map fst (filter (\<lambda>(n, phase). phase \<noteq> ''Terminating'') items)))))"

definition ResolveNamespaces :: "'s namespace_source \<Rightarrow> string \<Rightarrow> 's ScopeConfig \<Rightarrow> string + string list" where
  "ResolveNamespaces src defaultNamespace scope =
     (if sc_Namespaces scope \<noteq> [] then Inr (validateNamespaces src (sc_Namespaces scope))
      else case sc_NamespaceSelector scope of
        Some sel \<Rightarrow> resolveBySelector src sel
      | None \<Rightarrow> Inr [defaultNamespace])"

definition systemNamespaces :: "string list" where
  "systemNamespaces = [''kube-system'', ''kube-public'', ''kube-node-lease'', ''flux-system'']"

definition FilterSystemNamespaces :: "string list \<Rightarrow> string list" where
  "FilterSystemNamespaces nss = filter (\<lambda>ns. ns \<notin> set systemNamespaces) nss"

section \<open>Properties\<close>

lemma duplicates_Nil: "duplicates path seen i xs = [] \<longleftrightarrow> distinct xs \<and> set xs \<inter> seen = {}"
  by (induction xs arbitrary: seen i) auto

lemma enumerate_concat_Nil:
  assumes "\<And>i x. f i x = [] \<longleftrightarrow> Q x"
  shows "concat (map (\<lambda>(i, x). f i x) (enumerate n xs)) = [] \<longleftrightarrow> list_all Q xs"
  by (induction xs arbitrary: n) (simp_all add: assms)

definition target_ok :: "url_parser \<Rightarrow> (string \<rightharpoonup> string) \<Rightarrow> NotificationTarget \<Rightarrow> bool" where
  "target_ok parse_url annotations t \<longleftrightarrow>
     (nt_URL t = []) \<noteq> (nt_SecretRef t = None) \<and>
     (nt_URL t = [] \<or> (\<exists>scheme host. parse_url (nt_URL t) = Some (scheme, host) \<and> (scheme = ''https'' \<or> allows_http annotations)))"

lemma validate_target_Nil: "validate_target parse_url annotations path t = [] \<longleftrightarrow> target_ok parse_url annotations t"
  by (auto simp: validate_target_def target_ok_def split: option.splits)

text \<open>C39. The webhook of team health requests admits the creation of exactly the well-formed specifications: known
  checkers, no negative lifetime, every notification target with exactly one of a URL and a secret reference and with an
  HTTPS URL unless the annotation allows others, no explicit namespaces or selector besides
  \<open>currentNamespaceOnly\<close>, and no namespace twice; and it admits exactly the updates to such a specification that leave
  \<open>currentNamespaceOnly\<close> as it was.\<close>

theorem teamhealth_admission_iff:
  "(teamhealth_ValidateCreate parse_url annotations hr = [] \<longleftrightarrow>
     set (hs_Checks hr) \<subseteq> set validCheckerNames \<and> pred_option (\<lambda>t. 0 \<le> t) (hs_TTL hr) \<and>
     list_all (target_ok parse_url annotations) (hs_Notify hr) \<and> distinct (sc_Namespaces (hs_Scope hr)) \<and>
     (if sc_CurrentNamespaceOnly (hs_Scope hr)
      then sc_Namespaces (hs_Scope hr) = [] \<and> sc_NamespaceSelector (hs_Scope hr) = None else True)) \<and>
   (teamhealth_ValidateUpdate parse_url annotations old hr = [] \<longleftrightarrow>
     teamhealth_ValidateCreate parse_url annotations hr = [] \<and>
     sc_CurrentNamespaceOnly (hs_Scope hr) = sc_CurrentNamespaceOnly (hs_Scope old))"
proof (rule conjI)
  show "teamhealth_ValidateCreate parse_url annotations hr = [] \<longleftrightarrow>
     set (hs_Checks hr) \<subseteq> set validCheckerNames \<and> pred_option (\<lambda>t. 0 \<le> t) (hs_TTL hr) \<and>
     list_all (target_ok parse_url annotations) (hs_Notify hr) \<and> distinct (sc_Namespaces (hs_Scope hr)) \<and>
     (if sc_CurrentNamespaceOnly (hs_Scope hr)
      then sc_Namespaces (hs_Scope hr) = [] \<and> sc_NamespaceSelector (hs_Scope hr) = None else True)"
    unfolding teamhealth_ValidateCreate_def validateSpec_def append_is_Nil_conv unsupported_Nil duplicates_Nil
      enumerate_concat_Nil [OF validate_target_Nil]
    by (auto simp: negative_ttl_def split: option.splits if_splits)
  show "teamhealth_ValidateUpdate parse_url annotations old hr = [] \<longleftrightarrow>
     teamhealth_ValidateCreate parse_url annotations hr = [] \<and>
     sc_CurrentNamespaceOnly (hs_Scope hr) = sc_CurrentNamespaceOnly (hs_Scope old)"
    by (simp add: teamhealth_ValidateUpdate_def teamhealth_ValidateCreate_def)
qed

text \<open>A list that names a namespace twice is refused.\<close>

lemma namespace_twice_refused:
  "\<not> distinct (sc_Namespaces (hs_Scope hr)) \<Longrightarrow> validateSpec parse_url annotations hr \<noteq> []"
  by (simp add: validateSpec_def duplicates_Nil)

lemma compile_rules_Inr: "(\<exists>cs. compile_rules cel rs = Inr cs) \<longleftrightarrow> (\<forall>r \<in> set rs. \<exists>c. compile_rule cel r = Inr c)"
  by (induction rs) (auto split: sum.splits)

lemma compile_total:
  assumes "\<And>ast. \<exists>prg. cel_program cel ast = Inr prg"
  shows "(\<exists>prg. Compile cel expr = Inr prg) \<longleftrightarrow> (\<exists>ast. cel_compile cel expr = Inr ast)"
  using assms by (auto simp: Compile_def split: sum.splits) (metis Inl_Inr_False)

lemma validate_rule_Nil:
  assumes "\<And>ast. \<exists>prg. cel_program cel ast = Inr prg"
  shows "validate_rule cel path r = [] \<longleftrightarrow> rl_Condition r \<noteq> [] \<and> (\<exists>c. compile_rule cel r = Inr c)"
proof -
  have c: "(\<exists>prg. Compile cel e = Inr prg) \<longleftrightarrow> (\<exists>ast. cel_compile cel e = Inr ast)" for e
    by (rule compile_total [OF assms])
  have h: "has_prefix (rl_Message r) ''='' \<longleftrightarrow> rl_Message r \<noteq> [] \<and> hd (rl_Message r) = CHR ''=''"
    by (cases "rl_Message r") auto
  show ?thesis
    using c [of "rl_Condition r"] c [of "tl (rl_Message r)"]
    by (auto simp: validate_rule_def compile_rule_def h split: sum.splits if_splits)
qed

text \<open>The webhook of check plugins and the compilation in the controller agree: when the environment can be
  made and every compiled expression gives a program, a plugin is admitted exactly when it has a rule, no
  condition is empty, and the controller can compile it.\<close>

theorem plugin_admission_iff_compiles:
  assumes "\<And>ast. \<exists>prg. cel_program cel ast = Inr prg"
  shows "validateCheckPlugin None cel spec = [] \<longleftrightarrow>
    sp_Rules spec \<noteq> [] \<and> list_all (\<lambda>r. rl_Condition r \<noteq> []) (sp_Rules spec) \<and>
    (\<exists>pc. NewPluginChecker None cel name spec = Inr pc)"
proof -
  have "(\<exists>pc. NewPluginChecker None cel name spec = Inr pc) \<longleftrightarrow> (\<exists>cs. compile_rules cel (sp_Rules spec) = Inr cs)"
    by (auto simp: NewPluginChecker_def split: sum.splits)
  then show ?thesis
    unfolding compile_rules_Inr validateCheckPlugin_def append_is_Nil_conv option.case
      enumerate_concat_Nil [OF validate_rule_Nil [OF assms]]
    by (auto simp: list_all_iff)
qed

definition ex_cel :: "(string, unit) cel" where
  "ex_cel = \<lparr>cel_compile = (\<lambda>e. if e = ''bad'' then Inl ''syntax error'' else Inr e), cel_program = Inr,
     cel_eval = (\<lambda>p _. Inr (CelBool (p = ''true'')))\<rparr>"

definition ex_plugin :: "string \<Rightarrow> CheckPluginSpec" where
  "ex_plugin cond = \<lparr>sp_TargetResource = \<lparr>tg_Group = [], tg_Version = ''v1'', tg_Kind = ''Pod'', tg_Resource = ''pods''\<rparr>,
     sp_Rules = [\<lparr>rl_Name = ''r'', rl_Condition = cond, rl_Severity = ''Warning'', rl_Message = ''=name''\<rparr>]\<rparr>"

lemma plugin_admission_iff_compiles_witness:
  "(validateCheckPlugin None ex_cel (ex_plugin ''bad'') = []) = False \<and>
   validateCheckPlugin None ex_cel (ex_plugin ''true'') = []"
  using plugin_admission_iff_compiles [of ex_cel "ex_plugin ''bad''" "''p''"] plugin_admission_iff_compiles [of ex_cel "ex_plugin ''true''" "''p''"]
  by (simp add: ex_cel_def ex_plugin_def NewPluginChecker_def compile_rule_def Compile_def)

text \<open>What a scope resolves to: the result is sorted; from an explicit list it holds exactly the entries
  that exist, whatever \<open>currentNamespaceOnly\<close> says; from a selector the listed namespaces that are not terminating;
  otherwise the namespace of the request.\<close>

theorem resolved_namespaces:
  assumes "ResolveNamespaces src dflt scope = Inr nss"
  shows "sorted nss \<and>
    (if sc_Namespaces scope \<noteq> [] then mset nss = mset (filter (nss_get src) (sc_Namespaces scope))
     else case sc_NamespaceSelector scope of
       None \<Rightarrow> nss = [dflt]
     | Some sel \<Rightarrow> (\<exists>items. nss_list src sel = Inr items \<and>
         mset nss = mset (map fst (filter (\<lambda>(n, phase). phase \<noteq> ''Terminating'') items))))"
  using assms
  by (auto simp: ResolveNamespaces_def validateNamespaces_def resolveBySelector_def split: if_splits option.splits sum.splits)

definition ex_source :: "bool namespace_source" where
  "ex_source = \<lparr>nss_get = (\<lambda>n. n \<noteq> ''gone''), nss_selector = (\<lambda>_. None), nss_list = (\<lambda>_. Inr [(''b'', ''Active'')])\<rparr>"

lemma resolved_namespaces_witness:
  "ResolveNamespaces ex_source ''own'' \<lparr>sc_Namespaces = [''gone'', ''x'', ''a''], sc_NamespaceSelector = None, sc_CurrentNamespaceOnly = True\<rparr> =
     Inr [''a'', ''x''] \<and> sorted [''a'', ''x'']"
  using resolved_namespaces [of ex_source "''own''"
    "\<lparr>sc_Namespaces = [''gone'', ''x'', ''a''], sc_NamespaceSelector = None, sc_CurrentNamespaceOnly = True\<rparr>" "[''a'', ''x'']"]
  by (simp add: ResolveNamespaces_def validateNamespaces_def ex_source_def)

text \<open>The flag \<open>currentNamespaceOnly\<close> has no effect on the resolver.\<close>

lemma current_namespace_only_ignored:
  "ResolveNamespaces src dflt (scope\<lparr>sc_CurrentNamespaceOnly := b\<rparr>) = ResolveNamespaces src dflt scope"
  by (simp add: ResolveNamespaces_def)

end
