(* ===== verification/Request_Lifecycle.thy ===== *)
theory Request_Lifecycle
  imports Checker_Core Go_Text
begin

text \<open>
  What the controllers of team health and troubleshoot requests share (\<open>internal/controller/\<close>): phases,
  conditions, the lifetime of finished requests, and the contract of a controller that runs a request once
  (locale \<open>one_shot_controller\<close>). A reconcile is a function of its environment (the answers of the API server,
  the clock) and of the request as the API server stores it; \<open>None\<close> is a request that is gone.
\<close>

section \<open>Phases and conditions\<close>

text \<open>\<open>PhaseNone\<close> is the empty string of a request that no controller has seen.\<close>

datatype phase = PhaseNone | PhasePending | PhaseRunning | PhaseCompleted | PhaseFailed

definition finished :: "phase \<Rightarrow> bool" where
  "finished p \<longleftrightarrow> p = PhaseCompleted \<or> p = PhaseFailed"

record condition =
  cd_Type :: string
  cd_Status :: bool
  cd_ObservedGeneration :: int
  cd_Reason :: string
  cd_Message :: string

text \<open>\<open>meta.SetStatusCondition\<close>: the condition of the type is replaced, or added at the end. The time of the last
  transition is left out.\<close>

fun set_condition :: "condition \<Rightarrow> condition list \<Rightarrow> condition list" where
  "set_condition c [] = [c]"
| "set_condition c (d # ds) = (if cd_Type d = cd_Type c then c # ds else d # set_condition c ds)"

definition condition_of :: "condition list \<Rightarrow> string \<Rightarrow> condition option" where
  "condition_of cs t = find (\<lambda>c. cd_Type c = t) cs"

lemma condition_of_set: "condition_of (set_condition c cs) t = (if t = cd_Type c then Some c else condition_of cs t)"
  by (induction cs) (auto simp: condition_of_def)

lemma set_condition_types: "distinct (map cd_Type cs) \<Longrightarrow> distinct (map cd_Type (set_condition c cs))"
proof (induction cs)
  case (Cons d cs)
  have "cd_Type ` set (set_condition c cs) = insert (cd_Type c) (cd_Type ` set cs)" by (induction cs) auto
  then show ?case using Cons by auto
qed simp

section \<open>The lifetime of a finished request\<close>

datatype ttl_decision = KeepForever | Expired | KeepFor duration

text \<open>\<open>now\<close> is the clock; \<open>time.Until\<close> saturates.\<close>

definition ttl_check :: "time \<Rightarrow> int option \<Rightarrow> time option \<Rightarrow> ttl_decision" where
  "ttl_check now ttl completed =
     (case (ttl, completed) of
        (Some secs, Some fin) \<Rightarrow>
          (let remaining = time_sub (fin + wrap64 (secs * second)) now
           in if remaining \<le> 0 then Expired else KeepFor remaining)
      | _ \<Rightarrow> KeepForever)"

text \<open>A lifetime of 32 bits does not overflow: the request expires at its completion plus the lifetime.\<close>

lemma ttl_expired_iff:
  assumes "0 \<le> secs" "secs < 2 ^ 31"
  shows "ttl_check now (Some secs) (Some fin) = Expired \<longleftrightarrow> fin + secs * second \<le> now"
proof -
  have "in_int64 (secs * second)" using assms by (auto simp: in_int64_def)
  then show ?thesis by (auto simp: ttl_check_def Let_def time_sub_def)
qed

section \<open>Controllers that run a request once\<close>

locale one_shot_controller =
  fixes reconcile :: "'env \<Rightarrow> 'req option \<Rightarrow> 'req option"
    and phase_of :: "'req \<Rightarrow> phase"
    and started :: "'req \<Rightarrow> bool"
  assumes gone: "reconcile env None = None"
    and finished_kept: "finished (phase_of r) \<Longrightarrow> reconcile env (Some r) = Some r \<or> reconcile env (Some r) = None"
    and running_skipped: "phase_of r = PhaseRunning \<Longrightarrow> started r \<Longrightarrow> reconcile env (Some r) = Some r"
    and moves_on: "reconcile env (Some r) = Some r' \<Longrightarrow> r' = r \<or>
      started r' \<and> (phase_of r' = PhaseRunning \<or> finished (phase_of r'))"
begin

lemma gone_for_ever: "fold reconcile envs None = None"
  by (induction envs) (simp_all add: gone)

lemma finished_for_ever:
  assumes "finished (phase_of r)"
  shows "fold reconcile envs (Some r) = Some r \<or> fold reconcile envs (Some r) = None"
proof (induction envs)
  case (Cons env envs)
  then show ?case using finished_kept [OF assms, of env] gone_for_ever by auto
qed simp

text \<open>A request left running is never taken up again.\<close>

lemma running_for_ever:
  assumes "phase_of r = PhaseRunning" "started r"
  shows "fold reconcile envs (Some r) = Some r"
  by (induction envs) (simp_all add: running_skipped [OF assms])

text \<open>So one reconcile decides: whatever happens afterwards, the request is unchanged or deleted.\<close>

lemma one_reconcile_decides:
  assumes "reconcile env (Some r) = Some r'" "r' \<noteq> r"
  shows "fold reconcile envs (Some r') = Some r' \<or> finished (phase_of r') \<and> fold reconcile envs (Some r') = None"
  using moves_on [OF assms(1)] assms(2) running_for_ever [of r'] finished_for_ever [of r'] by blast

end

end
