(* ===== verification/Troubleshoot_Controller.thy ===== *)
theory Troubleshoot_Controller
  imports Workload_Checker Admission Request_Lifecycle "HOL-Library.Product_Lexorder"
begin

text \<open>
  The controller of troubleshoot requests (\<open>internal/controller/troubleshootrequest_controller.go\<close>): it finds the
  pods of the target, diagnoses them, stores their logs and events in config maps, and records what it found. The
  answers of the API server and the clock are the environment of a reconcile; the API server filters pods by the
  parsed selector. Times are UTC. Metrics and recorded events are left out.
\<close>

section \<open>Requests\<close>

record TroubleshootStatus =
  tst_ObservedGeneration :: int
  tst_Phase :: phase
  tst_Summary :: string
  tst_Issues :: "DiagnosticIssue list"
  tst_LogsConfigMap :: string
  tst_EventsConfigMap :: string
  tst_StartedAt :: "time option"
  tst_CompletedAt :: "time option"
  tst_Conditions :: "condition list"

record TroubleshootRequest =
  tr_Name :: string
  tr_Namespace :: string
  tr_Generation :: int
  tr_Spec :: TroubleshootSpec
  tr_Status :: TroubleshootStatus

definition highRestartThreshold :: int where "highRestartThreshold = 3"
definition defaultTailLines :: int where "defaultTailLines = 100"

section \<open>Diagnosis\<close>

definition diag :: "string \<Rightarrow> string \<Rightarrow> string \<Rightarrow> string \<Rightarrow> DiagnosticIssue" where
  "diag typ severity message suggestion =
     \<lparr>di_Type = typ, di_Severity = severity, di_Message = message, di_Suggestion = suggestion\<rparr>"

definition diag_container_status :: "string \<Rightarrow> Pod \<Rightarrow> ContainerStatus \<Rightarrow> DiagnosticIssue list" where
  "diag_container_status ns pod cs =
     (if cs_Ready cs then []
      else [case cs_Waiting cs of
          Some (reason, msg) \<Rightarrow> diag ''ContainerNotReady'' ''Critical''
            (''Container '' @ cs_Name cs @ '' is waiting: '' @ reason @ '' - '' @ msg) (GetSuggestionForWaitingReason reason)
        | None \<Rightarrow>
            (case cs_Terminated cs of
               Some (reason, code) \<Rightarrow> diag ''ContainerNotReady'' ''Critical''
                 (''Container '' @ cs_Name cs @ '' terminated: '' @ reason @ '' (exit code '' @ itoa code @ '')'')
                 (GetSuggestionForTerminatedReason reason code)
             | None \<Rightarrow> diag ''ContainerNotReady'' ''Critical''
                 (''Container '' @ cs_Name cs @ '' in pod '' @ pod_Name pod @ '' is not ready'') [])]) @
     (if cs_RestartCount cs > highRestartThreshold
      then [diag ''HighRestartCount'' ''Warning''
        (''Container '' @ cs_Name cs @ '' has restarted '' @ itoa (cs_RestartCount cs) @ '' times'')
        (''Check previous logs: kubectl logs '' @ pod_Name pod @ '' -c '' @ cs_Name cs @ '' --previous -n '' @ ns @
         ''. Common causes: OOM kills, liveness probe failures, or application crashes.'')]
      else [])"

definition diag_condition :: "string \<Rightarrow> Pod \<Rightarrow> PodCondition \<Rightarrow> DiagnosticIssue list" where
  "diag_condition ns pod c =
     (if pc_Status c \<noteq> ''False'' then []
      else if pc_Type c = ''PodScheduled''
      then [diag ''SchedulingFailed'' ''Critical''
        (''Pod '' @ pod_Name pod @ '' failed to schedule: '' @ pc_Message c)
        ((''Check node capacity: kubectl describe nodes | grep -A5 '' @ [CHR 0x27] @
       ''Allocated resources'' @ [CHR 0x27] @
       ''. Verify taints/tolerations: kubectl get nodes -o '' @
       ''custom-columns=NAME:.metadata.name,TAINTS:.spec.taints. Check pod affinity: kubectl '' @
       ''get pod '') @
         pod_Name pod @ '' -n '' @ ns @ ('' -o jsonpath='' @ [CHR 0x27] @ ''{.spec.affinity}'' @ [CHR 0x27] @ ''.''))]
      else if pc_Type c = ''Ready''
      then (if pc_Reason c = ''ContainersNotReady'' then []
        else [diag ''PodNotReady'' ''Warning'' (''Pod '' @ pod_Name pod @ '' not ready: '' @ pc_Message c) []])
      else [])"

definition diag_container :: "string \<Rightarrow> Pod \<Rightarrow> Container \<Rightarrow> DiagnosticIssue list" where
  "diag_container ns pod c =
     (if quantity_zero ''memory'' (cn_Limits c)
      then [diag ''NoMemoryLimit'' ''Warning'' (''Container '' @ cn_Name c @ '' has no memory limit set'')
        ((''Set a memory limit to prevent OOM issues and ensure fair resource sharing. Check '' @
       ''current usage: kubectl top pod '') @
         pod_Name pod @ '' -n '' @ ns @ ''. See Kubernetes docs on resource management for containers.'')] else []) @
     (if quantity_zero ''cpu'' (cn_Limits c)
      then [diag ''NoCPULimit'' ''Info'' (''Container '' @ cn_Name c @ '' has no CPU limit set'')
        (''Consider setting CPU limits for predictable performance. Note: some teams '' @
       ''intentionally omit CPU limits to avoid throttling.'')] else []) @
     (if quantity_zero ''memory'' (cn_Requests c) \<and> quantity_zero ''cpu'' (cn_Requests c)
      then [diag ''NoResourceRequests'' ''Warning'' (''Container '' @ cn_Name c @ '' has no resource requests set'')
        (''Set resource requests so the scheduler can place pods on nodes with sufficient '' @
       ''capacity. Without requests, pods get BestEffort QoS and are evicted first under '' @
       ''memory pressure.'')] else []) @
     (if \<not> cn_LivenessProbe c
      then [diag ''NoLivenessProbe'' ''Info'' (''Container '' @ cn_Name c @ '' has no liveness probe configured'')
        (''Add a liveness probe to enable automatic container restart when the application '' @
       ''becomes unresponsive. See Kubernetes docs on configure liveness, readiness and '' @
       ''startup probes.'')] else []) @
     (if \<not> cn_ReadinessProbe c
      then [diag ''NoReadinessProbe'' ''Info'' (''Container '' @ cn_Name c @ '' has no readiness probe configured'')
        (''Add a readiness probe to prevent traffic from being sent to pods that are not '' @
       ''ready. This is especially important for services behind a Service/Ingress.'')] else [])"

definition diagnosePodsDetailed :: "string \<Rightarrow> Pod list \<Rightarrow> DiagnosticIssue list" where
  "diagnosePodsDetailed ns pods = concat (map (\<lambda>pod.
     (if pod_Phase pod \<noteq> ''Running''
      then [diag ''PodNotRunning'' ''Critical'' (''Pod '' @ pod_Name pod @ '' is in '' @ pod_Phase pod @ '' phase'') []]
      else []) @
     concat (map (diag_container_status ns pod) (pod_ContainerStatuses pod)) @
     concat (map (diag_condition ns pod) (pod_Conditions pod)) @
     concat (map (diag_container ns pod) (pod_Containers pod))) pods)"

section \<open>Logs\<close>

text \<open>The log of a container: no stream, an error while reading, or the text, of which the limited reader has
  passed on at most \<open>maxPerContainer\<close> bytes.\<close>

datatype log_outcome = StreamError string | ReadError string | LogText string

definition maxPerContainer :: nat where "maxPerContainer = 64 * 1024"
definition maxTotalSize :: nat where "maxTotalSize = 900 * 1024"

definition data_key :: "string \<Rightarrow> string \<Rightarrow> string" where
  "data_key pod container = pod @ ''-'' @ container"

text \<open>Both loops in one: the inner one breaks only when the outer one does.\<close>

fun collect_log_data :: "(string \<Rightarrow> string \<Rightarrow> log_outcome) \<Rightarrow> nat \<Rightarrow> (string \<times> string) list \<Rightarrow> (string \<times> string) list \<Rightarrow>
    (string \<times> string) list" where
  "collect_log_data reader before data [] = data"
| "collect_log_data reader before data ((p, c) # rest) =
     (case reader p c of
        StreamError e \<Rightarrow> collect_log_data reader before (AList.update (data_key p c) (''Error getting logs: '' @ e) data) rest
      | ReadError e \<Rightarrow> collect_log_data reader before (AList.update (data_key p c) (''Error reading logs: '' @ e) data) rest
      | LogText t \<Rightarrow>
          let t' = take maxPerContainer t; read' = before + length t';
              content = (if length t' \<ge> maxPerContainer
                then t' @ ([CHR 0x0A] @ ''[truncated: exceeded 64KB per-container limit]'') else t')
          in if read' > maxTotalSize
             then AList.update (data_key p c) (content @ ([CHR 0x0A] @ ''[truncated: total log size exceeded 900KB]'')) data
             else collect_log_data reader read' (AList.update (data_key p c) content data) rest)"

definition pod_containers :: "Pod list \<Rightarrow> (string \<times> string) list" where
  "pod_containers pods = concat (map (\<lambda>p. map (\<lambda>c. (pod_Name p, cn_Name c)) (pod_Containers p)) pods)"

definition tail_lines :: "TroubleshootRequest \<Rightarrow> int" where
  "tail_lines tr = (if ts_TailLines (tr_Spec tr) = 0 then defaultTailLines else ts_TailLines (tr_Spec tr))"

section \<open>Events\<close>

record K8sEvent =
  ev_UID :: string
  ev_Name :: string
  ev_InvolvedObject :: string
  ev_Type :: string
  ev_Reason :: string
  ev_Message :: string
  ev_LastTimestamp :: time
  ev_EventTime :: time
  ev_FirstTimestamp :: time
  ev_CreationTimestamp :: time

definition eventTimestamp :: "K8sEvent \<Rightarrow> time" where
  "eventTimestamp e =
     (if ev_LastTimestamp e \<noteq> 0 then ev_LastTimestamp e
      else if ev_EventTime e \<noteq> 0 then ev_EventTime e
      else if ev_FirstTimestamp e \<noteq> 0 then ev_FirstTimestamp e
      else ev_CreationTimestamp e)"

definition event_line :: "K8sEvent \<Rightarrow> string" where
  "event_line e =
     (let ts = eventTimestamp e in
      ''['' @ (if ts = 0 then ''unknown-time'' else format_rfc3339 ts) @ ''] '' @ ev_Type e @ '' '' @ ev_Reason e @ '': '' @ ev_Message e)"

definition filterRecentRelevantEvents :: "K8sEvent list \<Rightarrow> string list \<Rightarrow> time \<Rightarrow> string list" where
  "filterRecentRelevantEvents events targets since =
     map snd (sort (map (\<lambda>e. (eventTimestamp e, event_line e))
       (filter (\<lambda>e. ev_InvolvedObject e \<in> set targets \<and> \<not> (eventTimestamp e \<noteq> 0 \<and> eventTimestamp e < since)) events)))"

definition event_key :: "K8sEvent \<Rightarrow> string" where
  "event_key e = (if ev_UID e \<noteq> [] then ev_UID e
     else ev_Name e @ ''|'' @ ev_InvolvedObject e @ ''|'' @ ev_Reason e @ ''|'' @ ev_Message e)"

fun unseen_events :: "string set \<Rightarrow> K8sEvent list \<Rightarrow> K8sEvent list" where
  "unseen_events seen [] = []"
| "unseen_events seen (e # es) =
     (if event_key e \<in> seen then unseen_events seen es else e # unseen_events (insert (event_key e) seen) es)"

text \<open>\<open>names\<close> are the target names in the order of the map's iteration; the first failing list ends it.\<close>

definition listEventsByTargets :: "(string \<Rightarrow> string + K8sEvent list) \<Rightarrow> string list \<Rightarrow> string + K8sEvent list" where
  "listEventsByTargets list names =
     (case find (\<lambda>n. \<exists>e. list n = Inl e) names of
        Some n \<Rightarrow> Inl (case list n of Inl e \<Rightarrow> e | Inr _ \<Rightarrow> [])
      | None \<Rightarrow> Inr (unseen_events {} (concat (map (\<lambda>n. case list n of Inl _ \<Rightarrow> [] | Inr es \<Rightarrow> es) names))))"

section \<open>The reconcile\<close>

text \<open>The environment of a reconcile. \<open>te_list_events\<close> is by target name, through the client set;
  \<open>te_all_events\<close> is the list without one. \<open>te_store\<close> is the error of storing a config map, or none.\<close>

record 'sel ts_env =
  te_fetch_error :: "string option"
  te_delete_error :: "string option"
  te_update_error :: "string option"
  te_patch_error :: "string option"
  te_now :: time                          \<comment> \<open>when the reconcile starts\<close>
  te_done :: time                         \<comment> \<open>when it completes the status\<close>
  te_workload :: "string \<Rightarrow> string + 'sel"  \<comment> \<open>the target by kind: its selector\<close>
  te_pod :: "string + Pod"
  te_selector :: "'sel selector_lib"
  te_pods :: "string + Pod list"
  te_clientset :: bool
  te_log :: "string \<Rightarrow> string \<Rightarrow> log_outcome"
  te_order :: "string list \<Rightarrow> string list"
  te_list_events :: "string \<Rightarrow> string + K8sEvent list"
  te_all_events :: "string + K8sEvent list"
  te_store :: "string \<Rightarrow> (string \<times> string) list \<Rightarrow> string option"

definition findTargetPods :: "'sel ts_env \<Rightarrow> TroubleshootRequest \<Rightarrow> string + Pod list" where
  "findTargetPods env tr =
     (let kind = ts_Kind (tr_Spec tr) in
      if kind = ''Pod'' then (case te_pod env of Inl e \<Rightarrow> Inl e | Inr p \<Rightarrow> Inr [p])
      else if kind \<notin> {''Deployment'', [], ''StatefulSet'', ''DaemonSet'', ''ReplicaSet''}
      then Inl (''unsupported target kind: '' @ kind)
      else case te_workload env (if kind = [] then ''Deployment'' else kind) of
        Inl e \<Rightarrow> Inl e
      | Inr selector \<Rightarrow>
          (case te_selector env selector of
             Inl e \<Rightarrow> Inl e
           | Inr sel \<Rightarrow>
               (case te_pods env of Inl e \<Rightarrow> Inl e | Inr ps \<Rightarrow> Inr (filter (\<lambda>p. sel (pod_Labels p)) ps))))"

definition collectLogs :: "'sel ts_env \<Rightarrow> TroubleshootRequest \<Rightarrow> Pod list \<Rightarrow> string + string" where
  "collectLogs env tr pods =
     (if \<not> te_clientset env then Inl ''clientset not initialized''
      else let cm = tr_Name tr @ ''-logs'' in
        case te_store env cm (collect_log_data (te_log env) 0 [] (pod_containers pods)) of
          Some e \<Rightarrow> Inl e
        | None \<Rightarrow> Inr cm)"

definition target_names :: "TroubleshootRequest \<Rightarrow> Pod list \<Rightarrow> string list" where
  "target_names tr pods = remdups (ts_Name (tr_Spec tr) # map pod_Name pods)"

definition collectEvents :: "'sel ts_env \<Rightarrow> TroubleshootRequest \<Rightarrow> Pod list \<Rightarrow> string + string" where
  "collectEvents env tr pods =
     (let cm = tr_Name tr @ ''-events''; names = target_names tr pods in
      case (if te_clientset env then listEventsByTargets (te_list_events env) (te_order env names) else te_all_events env) of
        Inl e \<Rightarrow> Inl e
      | Inr events \<Rightarrow>
          (case te_store env cm [(''events'', str_join [CHR 0x0A] (filterRecentRelevantEvents events names (te_now env - hour)))] of
             Some e \<Rightarrow> Inl e
           | None \<Rightarrow> Inr cm))"

definition ts_generateSummary :: "Pod list \<Rightarrow> DiagnosticIssue list \<Rightarrow> string" where
  "ts_generateSummary pods issues =
     (let critical = length (filter (\<lambda>i. di_Severity i = ''Critical'') issues);
          warning = length (filter (\<lambda>i. di_Severity i = ''Warning'') issues)
      in if issues = [] then ''All '' @ itoa (int (length pods)) @ '' pod(s) healthy - no issues found''
         else if critical > 0
         then itoa (int critical) @ '' critical, '' @ itoa (int warning) @ '' warning issue(s) found''
         else itoa (int warning) @ '' warning issue(s) found'')"

definition ts_condition :: "TroubleshootRequest \<Rightarrow> string \<Rightarrow> bool \<Rightarrow> string \<Rightarrow> string \<Rightarrow> TroubleshootStatus \<Rightarrow> TroubleshootStatus" where
  "ts_condition tr typ status reason msg st =
     st\<lparr>tst_Conditions := set_condition \<lparr>cd_Type = typ, cd_Status = status, cd_ObservedGeneration = tr_Generation tr,
        cd_Reason = reason, cd_Message = msg\<rparr> (tst_Conditions st)\<rparr>"

definition ts_setFailed :: "'sel ts_env \<Rightarrow> TroubleshootRequest \<Rightarrow> string \<Rightarrow> TroubleshootStatus \<Rightarrow> TroubleshootStatus" where
  "ts_setFailed env tr message st =
     ts_condition tr ''Complete'' False ''Failed'' message
       (st\<lparr>tst_Phase := PhaseFailed, tst_Summary := message, tst_CompletedAt := Some (te_done env)\<rparr>)"

definition diagnose_actions :: "string list" where "diagnose_actions = [''diagnose'', ''all'', ''describe'']"
definition log_actions :: "string list" where "log_actions = [''logs'', ''all'', ''describe'']"
definition event_actions :: "string list" where "event_actions = [''events'', ''all'', ''describe'']"

text \<open>The status with the collected logs or events, and whether data is missing.\<close>

definition with_logs :: "'sel ts_env \<Rightarrow> TroubleshootRequest \<Rightarrow> Pod list \<Rightarrow> TroubleshootStatus \<Rightarrow> TroubleshootStatus \<times> bool" where
  "with_logs env tr pods st =
     (if list_ex (\<lambda>a. a \<in> set log_actions) (ts_Actions (tr_Spec tr))
      then (case collectLogs env tr pods of
              Inl e \<Rightarrow> (ts_condition tr ''LogsCollected'' False ''Failed'' (''Log collection failed: '' @ e) st, True)
            | Inr cm \<Rightarrow> (ts_condition tr ''LogsCollected'' True ''Collected'' ''Logs stored in ConfigMap''
                (st\<lparr>tst_LogsConfigMap := cm\<rparr>), False))
      else (st, False))"

definition with_events :: "'sel ts_env \<Rightarrow> TroubleshootRequest \<Rightarrow> Pod list \<Rightarrow> TroubleshootStatus \<Rightarrow> TroubleshootStatus \<times> bool" where
  "with_events env tr pods st =
     (if list_ex (\<lambda>a. a \<in> set event_actions) (ts_Actions (tr_Spec tr))
      then (case collectEvents env tr pods of
              Inl e \<Rightarrow> (ts_condition tr ''EventsCollected'' False ''Failed'' (''Event collection failed: '' @ e) st, True)
            | Inr cm \<Rightarrow> (ts_condition tr ''EventsCollected'' True ''Collected'' ''Events stored in ConfigMap''
                (st\<lparr>tst_EventsConfigMap := cm\<rparr>), False))
      else (st, False))"

definition found_issues :: "TroubleshootRequest \<Rightarrow> Pod list \<Rightarrow> DiagnosticIssue list" where
  "found_issues tr pods =
     concat (map (\<lambda>a. if a \<in> set diagnose_actions then diagnosePodsDetailed (tr_Namespace tr) pods else [])
       (ts_Actions (tr_Spec tr)))"

definition ts_complete :: "'sel ts_env \<Rightarrow> TroubleshootRequest \<Rightarrow> Pod list \<Rightarrow> TroubleshootStatus \<Rightarrow> TroubleshootStatus" where
  "ts_complete env tr pods st =
     (let st0 = ts_condition tr ''TargetFound'' True ''Found'' (''Found '' @ itoa (int (length pods)) @ '' pod(s)'') st;
          issues = found_issues tr pods;
          (st1, partial1) = with_logs env tr pods st0;
          (st2, partial2) = with_events env tr pods st1;
          st3 = st2\<lparr>tst_Issues := issues,
            tst_Summary := ts_generateSummary pods issues @ (if partial1 \<or> partial2 then '' (partial data)'' else []),
            tst_Phase := PhaseCompleted, tst_CompletedAt := Some (te_done env)\<rparr>
      in ts_condition tr ''Complete'' True ''Complete'' ''Troubleshooting completed''
           (ts_condition tr ''Diagnosed'' True ''Diagnosed'' (''Found '' @ itoa (int (length issues)) @ '' issue(s)'') st3))"

datatype ts_result = Done | Requeue duration | ReconcileError string

definition running_status :: "'sel ts_env \<Rightarrow> TroubleshootRequest \<Rightarrow> TroubleshootStatus" where
  "running_status env tr = (tr_Status tr)\<lparr>tst_ObservedGeneration := tr_Generation tr, tst_Phase := PhaseRunning,
     tst_StartedAt := Some (te_now env)\<rparr>"

definition final_status :: "'sel ts_env \<Rightarrow> TroubleshootRequest \<Rightarrow> TroubleshootStatus" where
  "final_status env tr =
     (let st = running_status env tr in
      case findTargetPods env tr of
        Inl e \<Rightarrow> ts_setFailed env tr (''Failed to find target: '' @ e) st
      | Inr [] \<Rightarrow> ts_setFailed env tr ''No pods found for target workload'' st
      | Inr pods \<Rightarrow> ts_complete env tr pods st)"

text \<open>The error of the last patch: \<open>setFailed\<close> hands it on as it is, a completion says what was not patched.\<close>

definition final_patch_error :: "'sel ts_env \<Rightarrow> TroubleshootRequest \<Rightarrow> string \<Rightarrow> string" where
  "final_patch_error env tr e =
     (case findTargetPods env tr of
        Inl _ \<Rightarrow> e
      | Inr [] \<Rightarrow> e
      | Inr _ \<Rightarrow> ''failed to patch TroubleshootRequest status: '' @ e)"

text \<open>\<open>handleTTLCleanup\<close>, and the whole reconcile on the stored request.\<close>

definition ts_handleTTLCleanup :: "'sel ts_env \<Rightarrow> TroubleshootRequest \<Rightarrow> ts_result \<times> TroubleshootRequest option" where
  "ts_handleTTLCleanup env tr =
     (case ttl_check (te_now env) (ts_TTL (tr_Spec tr)) (tst_CompletedAt (tr_Status tr)) of
        KeepForever \<Rightarrow> (Done, Some tr)
      | KeepFor d \<Rightarrow> (Requeue d, Some tr)
      | Expired \<Rightarrow>
          (case te_delete_error env of Some e \<Rightarrow> (ReconcileError e, Some tr) | None \<Rightarrow> (Done, None)))"

definition ts_Reconcile :: "'sel ts_env \<Rightarrow> TroubleshootRequest option \<Rightarrow> ts_result \<times> TroubleshootRequest option" where
  "ts_Reconcile env stored =
     (case stored of
        None \<Rightarrow> (Done, None)
      | Some tr \<Rightarrow>
          (case te_fetch_error env of
             Some e \<Rightarrow> (ReconcileError (''failed to fetch TroubleshootRequest: '' @ e), Some tr)
           | None \<Rightarrow>
               if finished (tst_Phase (tr_Status tr)) then ts_handleTTLCleanup env tr
               else if tst_Phase (tr_Status tr) = PhaseRunning \<and> tst_StartedAt (tr_Status tr) \<noteq> None
               then (Requeue (10 * second), Some tr)
               else (case te_update_error env of
                       Some e \<Rightarrow> (ReconcileError e, Some tr)
                     | None \<Rightarrow>
                         (case te_patch_error env of
                            Some e \<Rightarrow> (ReconcileError (final_patch_error env tr e), Some (tr\<lparr>tr_Status := running_status env tr\<rparr>))
                          | None \<Rightarrow> (Done, Some (tr\<lparr>tr_Status := final_status env tr\<rparr>))))))"

section \<open>A request runs once\<close>

definition ts_step :: "'sel ts_env \<Rightarrow> TroubleshootRequest option \<Rightarrow> TroubleshootRequest option" where
  "ts_step env s = snd (ts_Reconcile env s)"

definition ts_phase :: "TroubleshootRequest \<Rightarrow> phase" where
  "ts_phase tr = tst_Phase (tr_Status tr)"

definition ts_started :: "TroubleshootRequest \<Rightarrow> bool" where
  "ts_started tr \<longleftrightarrow> tst_StartedAt (tr_Status tr) \<noteq> None"

lemma condition_keeps [simp]:
  "tst_Phase (ts_condition tr t b r m st) = tst_Phase st"
  "tst_StartedAt (ts_condition tr t b r m st) = tst_StartedAt st"
  "tst_Issues (ts_condition tr t b r m st) = tst_Issues st"
  "tst_Summary (ts_condition tr t b r m st) = tst_Summary st"
  "tst_CompletedAt (ts_condition tr t b r m st) = tst_CompletedAt st"
  "tst_LogsConfigMap (ts_condition tr t b r m st) = tst_LogsConfigMap st"
  "tst_EventsConfigMap (ts_condition tr t b r m st) = tst_EventsConfigMap st"
  by (simp_all add: ts_condition_def)

lemma with_keeps [simp]:
  "tst_StartedAt (fst (with_logs env tr pods st)) = tst_StartedAt st"
  "tst_StartedAt (fst (with_events env tr pods st)) = tst_StartedAt st"
  by (auto simp: with_logs_def with_events_def split: sum.splits)

lemma complete_status [simp]:
  "tst_Phase (ts_complete env tr pods st) = PhaseCompleted"
  "tst_StartedAt (ts_complete env tr pods st) = tst_StartedAt st"
  "tst_Issues (ts_complete env tr pods st) = found_issues tr pods"
  "tst_CompletedAt (ts_complete env tr pods st) = Some (te_done env)"
  by (auto simp: ts_complete_def Let_def case_prod_unfold)

lemma failed_status [simp]:
  "tst_Phase (ts_setFailed env tr m st) = PhaseFailed"
  "tst_StartedAt (ts_setFailed env tr m st) = tst_StartedAt st"
  "tst_CompletedAt (ts_setFailed env tr m st) = Some (te_done env)"
  by (auto simp: ts_setFailed_def)

lemma final_status_ends:
  "finished (tst_Phase (final_status env tr))" "tst_StartedAt (final_status env tr) = Some (te_now env)"
  "tst_CompletedAt (final_status env tr) = Some (te_done env)"
  by (auto simp: final_status_def running_status_def finished_def Let_def split: sum.splits list.splits)

interpretation ts: one_shot_controller ts_step ts_phase ts_started
proof
  fix env :: "'a ts_env" and r r'
  show "ts_step env None = None" by (simp add: ts_step_def ts_Reconcile_def)
  show "finished (ts_phase r) \<Longrightarrow> ts_step env (Some r) = Some r \<or> ts_step env (Some r) = None"
    by (auto simp: ts_step_def ts_Reconcile_def ts_phase_def ts_handleTTLCleanup_def split: option.splits ttl_decision.splits)
  show "ts_phase r = PhaseRunning \<Longrightarrow> ts_started r \<Longrightarrow> ts_step env (Some r) = Some r"
    by (auto simp: ts_step_def ts_Reconcile_def ts_phase_def ts_started_def finished_def split: option.splits)
  show "ts_step env (Some r) = Some r' \<Longrightarrow> r' = r \<or> ts_started r' \<and> (ts_phase r' = PhaseRunning \<or> finished (ts_phase r'))"
    using final_status_ends [of env r]
    by (auto simp: ts_step_def ts_Reconcile_def ts_phase_def ts_started_def ts_handleTTLCleanup_def running_status_def
        split: option.splits ttl_decision.splits if_splits)
qed

text \<open>What a request in service goes through, whatever the API server and the clock answer.\<close>

text \<open>C2. A troubleshoot request is diagnosed at most once: after the reconcile that changed its status, no later
  reconcile changes it again, under any answers of the API server and at any times; it can only be deleted, and
  only when it has finished.\<close>

theorem troubleshoot_runs_once:
  fixes env :: "'sel ts_env" and envs :: "'sel ts_env list"
  assumes "ts_step env (Some tr) = Some tr'" "tr' \<noteq> tr"
  shows "fold ts_step envs (Some tr') = Some tr' \<or> finished (ts_phase tr') \<and> fold ts_step envs (Some tr') = None"
  by (rule ts.one_reconcile_decides [OF assms])

text \<open>C29. A lost completion leaves the request running for ever: when a reconcile takes up a request (one that is
  neither finished nor already running, fetched and stored as running without error) and the status patch at the
  end of the diagnosis fails, the reconcile returns that error (as it is when no pod was found, else saying that
  the status was not patched), the request stays stored as running, and no later reconcile completes it, fails it
  or applies its lifetime.\<close>

theorem troubleshoot_lost_patch_wedges:
  fixes env :: "'sel ts_env" and envs :: "'sel ts_env list"
  assumes "\<not> finished (ts_phase tr)" "ts_phase tr = PhaseRunning \<longrightarrow> \<not> ts_started tr"
    and "te_fetch_error env = None" "te_update_error env = None" "te_patch_error env = Some e"
  shows "\<exists>tr'. ts_Reconcile env (Some tr) =
      (ReconcileError (if (case findTargetPods env tr of Inl _ \<Rightarrow> True | Inr pods \<Rightarrow> pods = []) then e
         else ''failed to patch TroubleshootRequest status: '' @ e), Some tr') \<and>
    ts_phase tr' = PhaseRunning \<and> tst_CompletedAt (tr_Status tr') = tst_CompletedAt (tr_Status tr) \<and>
    fold ts_step envs (Some tr') = Some tr'"
proof -
  define tr' where "tr' = tr\<lparr>tr_Status := running_status env tr\<rparr>"
  have "ts_phase tr' = PhaseRunning" "ts_started tr'"
    by (simp_all add: tr'_def ts_phase_def ts_started_def running_status_def)
  then have "fold ts_step envs (Some tr') = Some tr'" by (rule ts.running_for_ever)
  moreover have "ts_Reconcile env (Some tr) = (ReconcileError (final_patch_error env tr e), Some tr')"
    using assms by (auto simp: ts_Reconcile_def ts_phase_def ts_started_def tr'_def)
  moreover have "final_patch_error env tr e =
      (if (case findTargetPods env tr of Inl _ \<Rightarrow> True | Inr pods \<Rightarrow> pods = []) then e
       else ''failed to patch TroubleshootRequest status: '' @ e)"
    by (simp add: final_patch_error_def split: sum.split list.split)
  ultimately show ?thesis using \<open>ts_phase tr' = PhaseRunning\<close> by (auto simp: tr'_def running_status_def)
qed

section \<open>What a completed request says\<close>

lemma digits_of_digits: "c \<in> set (digits_of n) \<Longrightarrow> 48 \<le> (of_char c :: nat) \<and> of_char c \<le> (57 :: nat)"
proof (induction n rule: digits_of.induct)
  case (1 n)
  then show ?case by (subst (asm) (2) digits_of.simps) (auto split: if_splits)
qed

lemma itoa_not_letter: "itoa (int n) @ xs \<noteq> CHR ''A'' # ys"
proof
  assume "itoa (int n) @ xs = CHR ''A'' # ys"
  then have "CHR ''A'' \<in> set (digits_of n)" by (cases "digits_of n") (auto simp: itoa_def)
  then show False using digits_of_digits by force
qed

lemma concat_map_copies:
  "concat (map (\<lambda>a. if P a then xs else []) as) = concat (replicate (length (filter P as)) xs)"
  by (induction as) auto

lemma found_issues_copies:
  "found_issues tr pods = concat (replicate (length (filter (\<lambda>a. a \<in> set diagnose_actions) (ts_Actions (tr_Spec tr))))
     (diagnosePodsDetailed (tr_Namespace tr) pods))"
  by (simp add: found_issues_def concat_map_copies)

text \<open>A pod without findings.\<close>

definition clean_container :: "Container \<Rightarrow> bool" where
  "clean_container c \<longleftrightarrow> \<not> quantity_zero ''memory'' (cn_Limits c) \<and> \<not> quantity_zero ''cpu'' (cn_Limits c) \<and>
     \<not> (quantity_zero ''memory'' (cn_Requests c) \<and> quantity_zero ''cpu'' (cn_Requests c)) \<and>
     cn_LivenessProbe c \<and> cn_ReadinessProbe c"

definition clean_condition :: "PodCondition \<Rightarrow> bool" where
  "clean_condition c \<longleftrightarrow> \<not> (pc_Status c = ''False'' \<and> (pc_Type c = ''PodScheduled'' \<or>
     pc_Type c = ''Ready'' \<and> pc_Reason c \<noteq> ''ContainersNotReady''))"

definition clean_pod :: "Pod \<Rightarrow> bool" where
  "clean_pod p \<longleftrightarrow> pod_Phase p = ''Running'' \<and>
     list_all (\<lambda>cs. cs_Ready cs \<and> cs_RestartCount cs \<le> highRestartThreshold) (pod_ContainerStatuses p) \<and>
     list_all clean_condition (pod_Conditions p) \<and> list_all clean_container (pod_Containers p)"

lemma diagnosis_Nil: "diagnosePodsDetailed ns pods = [] \<longleftrightarrow> list_all clean_pod pods"
proof -
  have "diag_container_status ns p cs = [] \<longleftrightarrow> cs_Ready cs \<and> cs_RestartCount cs \<le> highRestartThreshold" for p cs
    by (auto simp: diag_container_status_def)
  moreover have "diag_condition ns p c = [] \<longleftrightarrow> clean_condition c" for p c
    by (auto simp: diag_condition_def clean_condition_def)
  moreover have "diag_container ns p c = [] \<longleftrightarrow> clean_container c" for p c
    unfolding diag_container_def append_is_Nil_conv clean_container_def by simp
  ultimately show ?thesis
    by (auto simp: diagnosePodsDetailed_def clean_pod_def list_all_iff)
qed

text \<open>What a completed troubleshoot request reports: its issues are the diagnosis of the pods once for every
  diagnosing action of the request, so the list is empty exactly when no action diagnoses or every pod is clean
  (running, its containers ready and seldom restarted, scheduled, with limits, requests and probes); and the
  summary then claims that all pods are healthy, also when nothing was diagnosed.\<close>

theorem troubleshoot_findings:
  "found_issues tr pods = concat (replicate (length (filter (\<lambda>a. a \<in> set diagnose_actions) (ts_Actions (tr_Spec tr))))
     (diagnosePodsDetailed (tr_Namespace tr) pods)) \<and>
   (found_issues tr pods = []) =
     (if list_ex (\<lambda>a. a \<in> set diagnose_actions) (ts_Actions (tr_Spec tr)) then list_all clean_pod pods else True) \<and>
   (ts_generateSummary pods (found_issues tr pods) = ''All '' @ itoa (int (length pods)) @ '' pod(s) healthy - no issues found'') =
     (found_issues tr pods = [])"
proof -
  have "(found_issues tr pods = []) =
     (if list_ex (\<lambda>a. a \<in> set diagnose_actions) (ts_Actions (tr_Spec tr)) then list_all clean_pod pods else True)"
    by (auto simp: found_issues_copies diagnosis_Nil list_ex_iff filter_empty_conv)
  moreover have "itoa (int n) @ ys \<noteq> ''All '' @ zs" for n ys zs
    using itoa_not_letter by simp
  ultimately show ?thesis by (auto simp: found_issues_copies ts_generateSummary_def Let_def)
qed

section \<open>The size of the logs\<close>

definition data_size :: "(string \<times> string) list \<Rightarrow> nat" where
  "data_size data = sum_list (map (\<lambda>(_, v). length v) data)"

definition error_size :: "log_outcome \<Rightarrow> nat" where
  "error_size out = (case out of StreamError e \<Rightarrow> 20 + length e | ReadError e \<Rightarrow> 20 + length e | LogText _ \<Rightarrow> 0)"

lemma data_size_update: "data_size (AList.update k v data) \<le> data_size data + length v"
  by (induction data) (auto simp: data_size_def)

lemma collect_log_data_size:
  "before \<le> maxTotalSize \<Longrightarrow> 65536 * data_size (collect_log_data reader before data cs) \<le>
    65536 * (data_size data + 43 + sum_list (map (\<lambda>(p, c). error_size (reader p c)) cs)) + 65583 * (987136 - before)"
proof (induction reader before data cs rule: collect_log_data.induct)
  case (2 reader before data p c rest)
  let ?k = "data_key p c"
  show ?case
  proof (cases "reader p c")
    case (LogText t)
    let ?t = "take maxPerContainer t"
    define u where "u = (if length ?t \<ge> maxPerContainer then ?t @ ([CHR 0x0A] @ ''[truncated: exceeded 64KB per-container limit]'') else ?t)"
    have u: "65536 * length u \<le> 65583 * length ?t" by (auto simp: u_def maxPerContainer_def)
    have t: "length ?t \<le> 65536" by (simp add: maxPerContainer_def)
    show ?thesis
    proof (cases "before + length ?t > maxTotalSize")
      case True
      have "data_size (AList.update ?k (u @ ([CHR 0x0A] @ ''[truncated: total log size exceeded 900KB]'')) data) \<le> data_size data + length u + 43"
        using data_size_update [of ?k "u @ ([CHR 0x0A] @ ''[truncated: total log size exceeded 900KB]'')" data] by simp
      moreover have "collect_log_data reader before data ((p, c) # rest) =
          AList.update ?k (u @ ([CHR 0x0A] @ ''[truncated: total log size exceeded 900KB]'')) data"
        using True by (simp add: LogText Let_def u_def)
      moreover have "length u + length u * 65535 \<le> 65583 * (987136 - before)"
        using u t 2(4) by (simp add: maxTotalSize_def)
      ultimately show ?thesis by simp
    next
      case False
      have "data_size (AList.update ?k u data) \<le> data_size data + length u" by (rule data_size_update)
      moreover have "65536 * data_size (collect_log_data reader (before + length ?t) (AList.update ?k u data) rest) \<le>
        65536 * (data_size (AList.update ?k u data) + 43 + sum_list (map (\<lambda>(p, c). error_size (reader p c)) rest)) +
        65583 * (987136 - (before + length ?t))"
        using "2.IH"(3) [OF LogText refl refl refl] False by (simp add: u_def)
      moreover have "collect_log_data reader before data ((p, c) # rest) =
          collect_log_data reader (before + length ?t) (AList.update ?k u data) rest"
        using False by (simp add: LogText Let_def u_def)
      moreover have "65536 * length u + 65583 * (987136 - (before + length ?t)) \<le> 65583 * (987136 - before)"
        using u False by (simp add: maxTotalSize_def diff_mult_distrib2)
      ultimately show ?thesis by (simp add: LogText error_size_def)
    qed
  next
    case (StreamError e)
    have "data_size (AList.update ?k (''Error getting logs: '' @ e) data) \<le> data_size data + 20 + length e"
      using data_size_update [of ?k "''Error getting logs: '' @ e" data] by simp
    then show ?thesis using "2.IH"(1) [OF StreamError 2(4)] StreamError by (simp add: error_size_def)
  next
    case (ReadError e)
    have "data_size (AList.update ?k (''Error reading logs: '' @ e) data) \<le> data_size data + 20 + length e"
      using data_size_update [of ?k "''Error reading logs: '' @ e" data] by simp
    then show ?thesis using "2.IH"(2) [OF ReadError 2(4)] ReadError by (simp add: error_size_def)
  qed
qed simp

text \<open>The stored logs fit a config map however many containers there are and whatever they log: the values
  together are at most 987887 bytes (of the \<open>2 ^ 20\<close> that the API server allows) and the texts of the errors.\<close>

theorem logs_fit_config_map:
  "data_size (collect_log_data reader 0 [] (pod_containers pods)) \<le>
     987887 + sum_list (map (\<lambda>(p, c). error_size (reader p c)) (pod_containers pods)) \<and> (987887::nat) < 2 ^ 20"
  using collect_log_data_size [of 0 reader "[]" "pod_containers pods"] by (simp add: data_size_def)

section \<open>Examples\<close>

definition ex_ts_request :: TroubleshootRequest where
  "ex_ts_request = \<lparr>tr_Name = ''why'', tr_Namespace = ''shop'', tr_Generation = 1,
     tr_Spec = \<lparr>ts_Kind = ''Pod'', ts_Name = ''cart-1'', ts_Actions = [''diagnose'', ''describe''], ts_TailLines = 0, ts_TTL = Some 60\<rparr>,
     tr_Status = \<lparr>tst_ObservedGeneration = 0, tst_Phase = PhaseNone, tst_Summary = [], tst_Issues = [], tst_LogsConfigMap = [],
       tst_EventsConfigMap = [], tst_StartedAt = None, tst_CompletedAt = None, tst_Conditions = []\<rparr>\<rparr>"

definition ex_ts_env :: "string option \<Rightarrow> unit ts_env" where
  "ex_ts_env patch = \<lparr>te_fetch_error = None, te_delete_error = None, te_update_error = None, te_patch_error = patch,
     te_now = 5, te_done = 9, te_workload = (\<lambda>_. Inl ''not found''),
     te_pod = Inr \<lparr>pod_Name = ''cart-1'', pod_Labels = Map.empty, pod_Phase = ''Pending'', pod_ContainerStatuses = [],
       pod_Conditions = [], pod_Containers = []\<rparr>,
     te_selector = (\<lambda>_. Inl ''no selector''), te_pods = Inr [], te_clientset = False, te_log = (\<lambda>_ _. LogText []),
     te_order = id, te_list_events = (\<lambda>_. Inr []), te_all_events = Inr [], te_store = (\<lambda>_ _. None)\<rparr>"

lemma troubleshoot_runs_once_witness:
  "ts_step (ex_ts_env None) (Some ex_ts_request) =
     Some (ex_ts_request\<lparr>tr_Status := final_status (ex_ts_env None) ex_ts_request\<rparr>) \<and>
   (fold ts_step [ex_ts_env None] (Some (ex_ts_request\<lparr>tr_Status := final_status (ex_ts_env None) ex_ts_request\<rparr>)) \<in>
     {Some (ex_ts_request\<lparr>tr_Status := final_status (ex_ts_env None) ex_ts_request\<rparr>), None})"
proof -
  let ?r = "ex_ts_request\<lparr>tr_Status := final_status (ex_ts_env None) ex_ts_request\<rparr>"
  have s: "ts_step (ex_ts_env None) (Some ex_ts_request) = Some ?r"
    by (simp add: ts_step_def ts_Reconcile_def ex_ts_request_def ex_ts_env_def finished_def)
  have "tst_Phase (tr_Status ?r) \<noteq> tst_Phase (tr_Status ex_ts_request)"
    using final_status_ends [of "ex_ts_env None" ex_ts_request] by (auto simp: finished_def ex_ts_request_def)
  then have "?r \<noteq> ex_ts_request" by metis
  from troubleshoot_runs_once [OF s this, of "[ex_ts_env None]"] s show ?thesis by auto
qed

text \<open>A diagnosis whose completion meets a conflict, followed by a reconcile without errors.\<close>

lemma troubleshoot_lost_patch_wedges_witness:
  "\<exists>tr'. ts_Reconcile (ex_ts_env (Some ''conflict'')) (Some ex_ts_request) =
      (ReconcileError ''failed to patch TroubleshootRequest status: conflict'', Some tr') \<and>
    ts_phase tr' = PhaseRunning \<and> tst_CompletedAt (tr_Status tr') = None \<and>
    fold ts_step [ex_ts_env None] (Some tr') = Some tr'"
  using troubleshoot_lost_patch_wedges [of ex_ts_request "ex_ts_env (Some ''conflict'')" "''conflict''" "[ex_ts_env None]"]
  by (auto simp: ex_ts_env_def ex_ts_request_def ts_phase_def finished_def findTargetPods_def)

end
