(* ===== verification/Issue_States.thy ===== *)
theory Issue_States
  imports Dashboard_Types Troubleshoot_Controller Go_Parse
begin

text \<open>
  Issue states and troubleshoot requests made from the dashboard (\<open>internal/dashboard/handlers_issues.go\<close>, and
  \<open>cleanupExpiredIssueStates\<close> of \<open>server.go\<close>). Decoding of JSON is a parameter: a handler receives what the
  decoder made of the body. The query parameter \<open>clusterId\<close> and the clock are arguments.
\<close>

section \<open>Requests and answers\<close>

datatype 'a body = Body 'a | BodyTooLarge | BodyInvalid | TrailingTokens

datatype 'a answer = HttpError nat string | HttpOk nat 'a

definition decodeJSONBody :: "'a body \<Rightarrow> (nat \<times> string) + 'a" where
  "decodeJSONBody b =
     (case b of
        Body x \<Rightarrow> Inr x
      | BodyTooLarge \<Rightarrow> Inl (413, ''Request body too large'')
      | BodyInvalid \<Rightarrow> Inl (400, ''Invalid JSON body'')
      | TrailingTokens \<Rightarrow> Inl (400, ''Invalid JSON body''))"

definition maxIssueKeyLen :: nat where "maxIssueKeyLen = 512"
definition maxIssueReasonLen :: nat where "maxIssueReasonLen = 1024"
definition maxSnoozeDuration :: duration where "maxSnoozeDuration = 24 * hour"

definition any_char :: "char \<Rightarrow> bool" where
  "any_char c \<longleftrightarrow> c \<noteq> CHR 0x0A"

definition issueKeyRe :: re where
  "issueKeyRe = anchored (Cat dns_label (Cat (Cls (\<lambda>c. c = CHR ''/'')) (Cat (re_plus (Cls any_char))
     (Cat (Cls (\<lambda>c. c = CHR ''/'')) (re_plus (Cls any_char))))))"

definition validateIssueKey :: "string \<Rightarrow> string option" where
  "validateIssueKey key =
     (if key = [] then Some ''key is required''
      else if length key > maxIssueKeyLen then Some (''key exceeds maximum length of '' @ itoa (int maxIssueKeyLen))
      else if \<not> re_match issueKeyRe key then Some ''key must match format namespace/resource/type''
      else None)"

section \<open>Acknowledging and snoozing\<close>

record ack_body =
  ab_Key :: string
  ab_Reason :: string

record snooze_body =
  sb_Key :: string
  sb_Duration :: string
  sb_Reason :: string

definition set_state :: "int \<Rightarrow> string \<Rightarrow> IssueState \<Rightarrow> clusters \<Rightarrow> clusters" where
  "set_state historySize cluster st cls =
     (let (cs, cls') = getOrCreateClusterState historySize cluster cls
      in cls'(cluster \<mapsto> cs\<lparr>cs_issueStates := (cs_issueStates cs)(st_Key st \<mapsto> st)\<rparr>))"

definition remove_state :: "string \<Rightarrow> string \<Rightarrow> clusters \<Rightarrow> clusters" where
  "remove_state cluster key cls =
     (case cls cluster of
        None \<Rightarrow> cls
      | Some cs \<Rightarrow> cls(cluster \<mapsto> cs\<lparr>cs_issueStates := (cs_issueStates cs)(key := None)\<rparr>))"

definition reason_too_long :: string where
  "reason_too_long = ''reason exceeds maximum length of '' @ itoa (int maxIssueReasonLen)"

definition post_acknowledge :: "int \<Rightarrow> time \<Rightarrow> string \<Rightarrow> ack_body body \<Rightarrow> clusters \<Rightarrow> IssueState answer \<times> clusters" where
  "post_acknowledge historySize now cluster b cls =
     (case decodeJSONBody b of
        Inl (code, e) \<Rightarrow> (HttpError code e, cls)
      | Inr req \<Rightarrow>
          (case validateIssueKey (ab_Key req) of
             Some e \<Rightarrow> (HttpError 400 e, cls)
           | None \<Rightarrow>
               if length (ab_Reason req) > maxIssueReasonLen then (HttpError 400 reason_too_long, cls)
               else let st = \<lparr>st_Key = ab_Key req, st_Action = ActionAcknowledged, st_Reason = ab_Reason req,
                      st_SnoozedUntil = None, st_CreatedAt = now\<rparr>
                 in (HttpOk 200 st, set_state historySize cluster st cls)))"

text \<open>The handlers of DELETE for acknowledged and snoozed issues are the same.\<close>

definition delete_state :: "string \<Rightarrow> string body \<Rightarrow> clusters \<Rightarrow> string answer \<times> clusters" where
  "delete_state cluster b cls =
     (case decodeJSONBody b of
        Inl (code, e) \<Rightarrow> (HttpError code e, cls)
      | Inr key \<Rightarrow>
          (case validateIssueKey key of
             Some e \<Rightarrow> (HttpError 400 e, cls)
           | None \<Rightarrow> (HttpOk 200 ''removed'', remove_state cluster key cls)))"

text \<open>The clock is read twice: for the end of the snooze, and \<open>late\<close> nanoseconds after it for the creation.\<close>

definition post_snooze :: "int \<Rightarrow> time \<Rightarrow> nat \<Rightarrow> string \<Rightarrow> snooze_body body \<Rightarrow> clusters \<Rightarrow> IssueState answer \<times> clusters" where
  "post_snooze historySize now late cluster b cls =
     (case decodeJSONBody b of
        Inl (code, e) \<Rightarrow> (HttpError code e, cls)
      | Inr req \<Rightarrow>
          (case validateIssueKey (sb_Key req) of
             Some e \<Rightarrow> (HttpError 400 e, cls)
           | None \<Rightarrow>
               if length (sb_Reason req) > maxIssueReasonLen then (HttpError 400 reason_too_long, cls)
               else if sb_Duration req = [] then (HttpError 400 ''duration is required'', cls)
               else case parse_duration (sb_Duration req) of
                 None \<Rightarrow> (HttpError 400 ''invalid duration format'', cls)
               | Some dur \<Rightarrow>
                   if dur \<le> 0 then (HttpError 400 ''duration must be positive'', cls)
                   else if dur > maxSnoozeDuration
                   then (HttpError 400 (''duration must be <= '' @ duration_String maxSnoozeDuration), cls)
                   else let st = \<lparr>st_Key = sb_Key req, st_Action = ActionSnoozed, st_Reason = sb_Reason req,
                          st_SnoozedUntil = Some (now + dur), st_CreatedAt = now + int late\<rparr>
                     in (HttpOk 200 st, set_state historySize cluster st cls)))"

datatype http_method = GET | POST | DELETE | OtherMethod

definition method_not_allowed :: "'a answer" where
  "method_not_allowed = HttpError 405 ''Method not allowed''"

text \<open>The states that have not expired, which is what reading leaves behind.\<close>

definition unexpired :: "time \<Rightarrow> issue_states \<Rightarrow> issue_states" where
  "unexpired now sts = (\<lambda>k. case sts k of None \<Rightarrow> None | Some st \<Rightarrow> if IsExpired now st then None else Some st)"

definition prune :: "time \<Rightarrow> clusterState \<Rightarrow> clusterState" where
  "prune now cs = cs\<lparr>cs_issueStates := unexpired now (cs_issueStates cs)\<rparr>"

definition handleIssueStates :: "http_method \<Rightarrow> time \<Rightarrow> string \<Rightarrow> clusters \<Rightarrow> issue_states answer \<times> clusters" where
  "handleIssueStates m now cluster cls =
     (if m \<noteq> GET then (method_not_allowed, cls)
      else case cls cluster of
        None \<Rightarrow> (HttpOk 200 Map.empty, cls)
      | Some cs \<Rightarrow> (HttpOk 200 (cs_issueStates (prune now cs)), cls(cluster \<mapsto> prune now cs)))"

definition cleanupExpiredIssueStates :: "time \<Rightarrow> clusters \<Rightarrow> clusters" where
  "cleanupExpiredIssueStates now cls = (\<lambda>c. map_option (prune now) (cls c))"

section \<open>Sequences of operations\<close>

datatype issue_op =
    Acknowledge time string "ack_body body"
  | Snooze time nat string "snooze_body body"
  | Remove string "string body"
  | ListStates time string
  | CleanupStates time

definition issue_step :: "int \<Rightarrow> issue_op \<Rightarrow> clusters \<Rightarrow> clusters" where
  "issue_step historySize op cls =
     (case op of
        Acknowledge now c b \<Rightarrow> snd (post_acknowledge historySize now c b cls)
      | Snooze now late c b \<Rightarrow> snd (post_snooze historySize now late c b cls)
      | Remove c b \<Rightarrow> snd (delete_state c b cls)
      | ListStates now c \<Rightarrow> snd (handleIssueStates GET now c cls)
      | CleanupStates now \<Rightarrow> cleanupExpiredIssueStates now cls)"

section \<open>Troubleshoot requests\<close>

record troubleshoot_body =
  tb_Namespace :: string
  tb_Kind :: string
  tb_Name :: string
  tb_Actions :: "string list"
  tb_TailLines :: int
  tb_TTL :: "int option"

definition k8sNameRe :: re where
  "k8sNameRe = anchored dns_label"

definition maxTailLines :: int where "maxTailLines = 10000"
definition maxTTLSeconds :: int where "maxTTLSeconds = 86400"

definition dashboardTargetKinds :: "string list" where
  "dashboardTargetKinds = [''Deployment'', ''StatefulSet'', ''DaemonSet'', ''Pod'', ''ReplicaSet'']"

definition dashboardActions :: "string list" where
  "dashboardActions = [''diagnose'', ''logs'', ''events'', ''describe'', ''all'']"

text \<open>The namespace and the specification of the request to create, or the error. \<open>writer\<close>: not in console
  mode.\<close>

definition requested_troubleshoot :: "bool \<Rightarrow> troubleshoot_body body \<Rightarrow> (nat \<times> string) + (string \<times> TroubleshootSpec)" where
  "requested_troubleshoot writer b =
     (if \<not> writer then Inl (503, ''TroubleshootRequest creation not available (console mode)'')
      else case decodeJSONBody b of
        Inl e \<Rightarrow> Inl e
      | Inr r \<Rightarrow>
          if tb_Name r = [] then Inl (400, ''target.name is required'')
          else if \<not> re_match k8sNameRe (tb_Name r)
          then Inl (400, ''target.name must be a valid Kubernetes name (lowercase, alphanumeric, hyphens)'')
          else let kind = (if tb_Kind r = [] then ''Deployment'' else tb_Kind r) in
            if kind \<notin> set dashboardTargetKinds
            then Inl (400, (''invalid target.kind: must be one of Deployment, StatefulSet, DaemonSet, Pod, '' @
       ''ReplicaSet''))
            else let ns = (if tb_Namespace r = [] then ''default'' else tb_Namespace r) in
              if \<not> re_match k8sNameRe ns
              then Inl (400, ''namespace must be a valid Kubernetes name (lowercase, alphanumeric, hyphens)'')
              else let actions = (if tb_Actions r = [] then [''diagnose''] else tb_Actions r) in
                case find (\<lambda>a. a \<notin> set dashboardActions) actions of
                  Some a \<Rightarrow> Inl (400, ''invalid action '' @ go_quote a @ '': must be one of diagnose, logs, events, describe, all'')
                | None \<Rightarrow>
                    let actions' = (if ''all'' \<in> set actions then [''all''] else actions);
                        tail = (if tb_TailLines r \<le> 0 then 100 else tb_TailLines r)
                    in if tail > maxTailLines then Inl (400, ''tailLines must be <= '' @ itoa maxTailLines)
                       else if pred_option (\<lambda>t. 0 < t \<and> t \<le> maxTTLSeconds) (tb_TTL r)
                       then Inr (ns, \<lparr>ts_Kind = kind, ts_Name = tb_Name r, ts_Actions = actions', ts_TailLines = tail, ts_TTL = tb_TTL r\<rparr>)
                       else Inl (400, ''ttlSecondsAfterFinished must be between 1 and '' @ itoa maxTTLSeconds))"

text \<open>\<open>create\<close> is the API server: the name it generated, or an error.\<close>

definition handlePostTroubleshoot :: "(string \<Rightarrow> TroubleshootSpec \<Rightarrow> string + string) \<Rightarrow> bool \<Rightarrow> troubleshoot_body body \<Rightarrow>
    (string \<times> string \<times> string) answer" where
  "handlePostTroubleshoot create writer b =
     (case requested_troubleshoot writer b of
        Inl (code, e) \<Rightarrow> HttpError code e
      | Inr (ns, spec) \<Rightarrow>
          (case create ns spec of
             Inl e \<Rightarrow> HttpError 500 ''Failed to create TroubleshootRequest''
           | Inr name \<Rightarrow> HttpOk 201 (name, ns, ''Pending'')))"

record TroubleshootRequestSummary =
  tsu_Name :: string
  tsu_Namespace :: string
  tsu_Phase :: phase
  tsu_Kind :: string
  tsu_Target :: string

text \<open>\<open>list_requests\<close> is the API server: the requests of a namespace, or of all for the empty one.\<close>

definition handleListTroubleshoot :: "(string \<Rightarrow> string + TroubleshootRequest list) \<Rightarrow> bool \<Rightarrow> string \<Rightarrow>
    TroubleshootRequestSummary list answer" where
  "handleListTroubleshoot list_requests writer ns =
     (if \<not> writer then HttpError 503 ''TroubleshootRequest listing not available (console mode)''
      else case list_requests ns of
        Inl e \<Rightarrow> HttpError 500 ''Failed to list TroubleshootRequests''
      | Inr items \<Rightarrow> HttpOk 200 (map (\<lambda>i. \<lparr>tsu_Name = tr_Name i, tsu_Namespace = tr_Namespace i,
          tsu_Phase = tst_Phase (tr_Status i), tsu_Kind = ts_Kind (tr_Spec i), tsu_Target = ts_Name (tr_Spec i)\<rparr>) items))"

section \<open>Keys\<close>

definition issue_key_ok :: "string \<Rightarrow> bool" where
  "issue_key_ok key \<longleftrightarrow> length key \<le> maxIssueKeyLen \<and>
     (\<exists>ns res typ. key = ns @ ''/'' @ res @ ''/'' @ typ \<and> is_label ns \<and> res \<noteq> [] \<and> typ \<noteq> [] \<and>
        list_all any_char res \<and> list_all any_char typ)"

lemma accepts_issue_key:
  "accepts (Cat dns_label (Cat (Cls (\<lambda>c. c = CHR ''/'')) (Cat (re_plus (Cls any_char))
     (Cat (Cls (\<lambda>c. c = CHR ''/'')) (re_plus (Cls any_char)))))) key \<longleftrightarrow>
   (\<exists>ns res typ. key = ns @ ''/'' @ res @ ''/'' @ typ \<and> is_label ns \<and> res \<noteq> [] \<and> typ \<noteq> [] \<and>
      list_all any_char res \<and> list_all any_char typ)"
proof -
  have slash: "accepts (Cat (Cls (\<lambda>c. c = CHR ''/'')) r) u \<longleftrightarrow> (\<exists>v. u = CHR ''/'' # v \<and> accepts r v)" for r u
    by (cases u) (auto simp: accepts_Cls_Cat)
  have split: "accepts (Cat r q) u \<longleftrightarrow> (\<exists>v w. u = v @ w \<and> accepts r v \<and> accepts q w)" for r q u
    by (rule accepts_Cat)
  show ?thesis
    unfolding split [of dns_label] accepts_label slash split [of "re_plus (Cls any_char)"] accepts_plus_Cls append_Cons append_Nil by blast
qed

lemma validateIssueKey_None: "validateIssueKey key = None \<longleftrightarrow> issue_key_ok key"
proof -
  have "re_match issueKeyRe key \<longleftrightarrow> (\<exists>ns res typ. key = ns @ ''/'' @ res @ ''/'' @ typ \<and> is_label ns \<and> res \<noteq> [] \<and>
      typ \<noteq> [] \<and> list_all any_char res \<and> list_all any_char typ)"
    unfolding issueKeyRe_def accepts_issue_key [symmetric] by (rule match_anchored) simp
  then show ?thesis by (auto simp: validateIssueKey_def issue_key_ok_def)
qed

text \<open>The key of an issue of a cluster-scoped object has an empty namespace: the dashboard cannot mute it.\<close>

lemma cluster_scoped_not_mutable: "validateIssueKey (''/'' @ res @ ''/'' @ typ) \<noteq> None"
proof -
  have "\<not> issue_key_ok (CHR ''/'' # xs)" for xs
  proof
    assume "issue_key_ok (CHR ''/'' # xs)"
    then obtain ns u where "CHR ''/'' # xs = ns @ u" "is_label ns" by (auto simp: issue_key_ok_def)
    then have "lower_alnum (CHR ''/'')" by (cases ns) (auto simp: is_label_def)
    then show False by (simp add: lower_alnum_def lower_letter_def digit_char_def)
  qed
  then show ?thesis unfolding validateIssueKey_None by simp
qed

section \<open>What every stored state looks like\<close>

definition state_ok :: "string \<Rightarrow> IssueState \<Rightarrow> bool" where
  "state_ok k st \<longleftrightarrow> st_Key st = k \<and> issue_key_ok k \<and> length (st_Reason st) \<le> maxIssueReasonLen \<and>
     (case st_Action st of
        ActionAcknowledged \<Rightarrow> st_SnoozedUntil st = None
      | ActionSnoozed \<Rightarrow> (case st_SnoozedUntil st of None \<Rightarrow> False | Some t \<Rightarrow> t \<le> st_CreatedAt st + maxSnoozeDuration))"

definition states_ok :: "clusters \<Rightarrow> bool" where
  "states_ok cls \<longleftrightarrow> (\<forall>c cs k st. cls c = Some cs \<longrightarrow> cs_issueStates cs k = Some st \<longrightarrow> state_ok k st)"

lemma states_ok_upd:
  assumes "states_ok cls" "\<And>k st. cs_issueStates cs k = Some st \<Longrightarrow> state_ok k st"
  shows "states_ok (cls(c \<mapsto> cs))"
  using assms by (auto simp: states_ok_def)

lemma set_state_ok:
  assumes "states_ok cls" "state_ok (st_Key st) st"
  shows "states_ok (set_state historySize c st cls)"
proof -
  obtain cs cls' where g: "getOrCreateClusterState historySize c cls = (cs, cls')" by (metis surj_pair)
  then have "states_ok cls'" "\<And>k st. cs_issueStates cs k = Some st \<Longrightarrow> state_ok k st"
    using assms(1) by (auto simp: getOrCreateClusterState_def Let_def states_ok_def new_cluster_def split: option.splits if_splits)
  then have "states_ok (cls'(c \<mapsto> cs\<lparr>cs_issueStates := (cs_issueStates cs)(st_Key st \<mapsto> st)\<rparr>))"
    using assms(2) by (intro states_ok_upd) (auto split: if_splits)
  then show ?thesis by (simp add: set_state_def g)
qed

lemma unexpired_Some: "unexpired now sts k = Some st \<longleftrightarrow> sts k = Some st \<and> \<not> IsExpired now st"
  by (auto simp: unexpired_def split: option.splits)

lemma issue_step_ok: "states_ok cls \<Longrightarrow> states_ok (issue_step historySize op cls)"
proof (cases op)
  case (Acknowledge now c b)
  then show "states_ok cls \<Longrightarrow> ?thesis"
    by (auto simp: issue_step_def post_acknowledge_def Let_def validateIssueKey_None state_ok_def intro!: set_state_ok split: sum.split option.split)
next
  case (Snooze now late c b)
  then show "states_ok cls \<Longrightarrow> ?thesis"
    by (auto simp: issue_step_def post_snooze_def Let_def validateIssueKey_None state_ok_def intro!: set_state_ok split: sum.split option.split)
next
  case (Remove c b)
  then show "states_ok cls \<Longrightarrow> ?thesis"
    by (auto simp: issue_step_def delete_state_def remove_state_def states_ok_def split: sum.split option.split)
next
  case (ListStates now c)
  then show "states_ok cls \<Longrightarrow> ?thesis"
    by (auto simp: issue_step_def handleIssueStates_def prune_def unexpired_Some states_ok_def split: option.split)
next
  case (CleanupStates now)
  then show "states_ok cls \<Longrightarrow> ?thesis"
    by (auto simp: issue_step_def cleanupExpiredIssueStates_def prune_def unexpired_Some states_ok_def)
qed

text \<open>C22. Whatever is posted, deleted, read and cleaned up in whatever order, every stored state is filed under its
  own key, which has the form namespace/resource/type and at most 512 bytes; its reason has at most 1024 bytes;
  an acknowledgement has no end, and a snooze ends within a day.\<close>

theorem issue_states_ok: "states_ok (fold (issue_step historySize) ops Map.empty)"
proof -
  have "states_ok cls \<Longrightarrow> states_ok (fold (issue_step historySize) ops cls)" for cls
    by (induction ops arbitrary: cls) (simp_all add: issue_step_ok)
  from this [of Map.empty] show ?thesis by (simp add: states_ok_def [of Map.empty])
qed

section \<open>Expiry\<close>

text \<open>What is muted in a cluster at a time.\<close>

definition muted :: "time \<Rightarrow> string \<Rightarrow> clusters \<Rightarrow> issue_states" where
  "muted now cluster cls = (case cls cluster of None \<Rightarrow> Map.empty | Some cs \<Rightarrow> unexpired now (cs_issueStates cs))"

lemma expired_later: "IsExpired t st \<Longrightarrow> t \<le> t' \<Longrightarrow> IsExpired t' st"
  by (auto simp: IsExpired_def split: option.splits)

lemma unexpired_twice: "t \<le> t' \<Longrightarrow> unexpired t' (unexpired t sts) = unexpired t' sts"
  by (rule ext) (auto simp: unexpired_def dest: expired_later split: option.split)

text \<open>Cleaning up is invisible: after any number of cleanups and reads at earlier times, by anyone and of any
  cluster, the states that a read returns are those it would have returned without them.\<close>

theorem cleanup_invisible:
  assumes "list_all (\<lambda>op. case op of CleanupStates t \<Rightarrow> t \<le> now | ListStates t c \<Rightarrow> t \<le> now | _ \<Rightarrow> False) ops"
  shows "fst (handleIssueStates GET now cluster (fold (issue_step historySize) ops cls)) = fst (handleIssueStates GET now cluster cls)"
proof -
  have "muted now cluster (fold (issue_step historySize) ops cls) = muted now cluster cls \<and>
      (fold (issue_step historySize) ops cls cluster = None) = (cls cluster = None)"
    using assms
  proof (induction ops arbitrary: cls)
    case (Cons op ops)
    have "muted now cluster (issue_step historySize op cls) = muted now cluster cls \<and>
        (issue_step historySize op cls cluster = None) = (cls cluster = None)"
      using Cons.prems
      by (auto simp: issue_step_def handleIssueStates_def cleanupExpiredIssueStates_def muted_def prune_def unexpired_twice
          split: issue_op.splits option.split)
    then show ?case using Cons by simp
  qed simp
  then show ?thesis
    by (auto simp: handleIssueStates_def muted_def prune_def split: option.splits)
qed

text \<open>A snooze lasts exactly as long as it was asked for: an accepted snooze of \<open>d\<close> mutes its issue at every time
  up to \<open>now + d\<close>, at none after it, and changes no other issue and no other cluster.\<close>

theorem snooze_lasts:
  assumes "post_snooze historySize now late cluster b cls = (HttpOk 200 st, cls')"
  shows "\<exists>req d. b = Body req \<and> parse_duration (sb_Duration req) = Some d \<and> 0 < d \<and> d \<le> maxSnoozeDuration \<and>
    (muted t cluster cls' (sb_Key req) \<noteq> None) = (t \<le> now + d) \<and>
    (if k \<noteq> sb_Key req then muted t cluster cls' k = muted t cluster cls k else True) \<and>
    (if c \<noteq> cluster then cls' c = cls c else True)"
proof -
  obtain req d where r: "b = Body req" "parse_duration (sb_Duration req) = Some d" "0 < d" "d \<le> maxSnoozeDuration"
    and c: "cls' = set_state historySize cluster \<lparr>st_Key = sb_Key req, st_Action = ActionSnoozed, st_Reason = sb_Reason req,
        st_SnoozedUntil = Some (now + d), st_CreatedAt = now + int late\<rparr> cls"
    using assms by (auto simp: post_snooze_def decodeJSONBody_def Let_def split: body.splits option.splits if_splits)
  show ?thesis
    using r unfolding c
    by (auto simp: set_state_def getOrCreateClusterState_def new_cluster_def muted_def unexpired_def IsExpired_def Let_def
        split: option.split)
qed

section \<open>The requests made are served\<close>

text \<open>A troubleshoot request made from the dashboard is one the webhook admits and the resource definition
  allows: valid names, a known kind, some known actions with \<open>all\<close> only alone, 1 to 10000 lines, and a lifetime
  of at most a day, at whose end, and not before, the controller deletes the finished request.\<close>

theorem dashboard_troubleshoot_admitted:
  assumes "requested_troubleshoot writer b = Inr (ns, spec)"
  shows "troubleshoot_ValidateCreate spec = [] \<and> is_label ns \<and> is_label (ts_Name spec) \<and>
    ts_Actions spec \<noteq> [] \<and> (if ''all'' \<in> set (ts_Actions spec) then ts_Actions spec = [''all''] else True) \<and>
    1 \<le> ts_TailLines spec \<and> ts_TailLines spec \<le> 10000 \<and>
    (case ts_TTL spec of None \<Rightarrow> True
     | Some secs \<Rightarrow> 0 < secs \<and> (ttl_check now (Some secs) (Some fin) = Expired) = (fin + secs * second \<le> now))"
proof -
  obtain r where b: "b = Body r" "tb_Name r \<noteq> []" "is_label (tb_Name r)" "is_label ns"
    and spec: "ts_Kind spec \<in> set dashboardTargetKinds" "ts_Name spec = tb_Name r" "ts_Actions spec \<noteq> []"
      "list_all (\<lambda>a. a \<in> set dashboardActions) (ts_Actions spec)"
      "''all'' \<in> set (ts_Actions spec) \<longrightarrow> ts_Actions spec = [''all'']"
      "1 \<le> ts_TailLines spec" "ts_TailLines spec \<le> maxTailLines" "pred_option (\<lambda>t. 0 < t \<and> t \<le> maxTTLSeconds) (ts_TTL spec)"
    using assms
    by (auto simp: requested_troubleshoot_def decodeJSONBody_def Let_def k8sNameRe_def match_label find_None_iff list_all_iff dashboardActions_def
        split: body.splits if_splits option.splits)
  have "set dashboardTargetKinds = set validTargetKinds" "set dashboardActions = set validActions"
    by (simp_all add: dashboardTargetKinds_def validTargetKinds_def dashboardActions_def validActions_def)
  then have "troubleshoot_ValidateCreate spec = []"
    using b spec unfolding troubleshoot_ValidateCreate_def append_is_Nil_conv unsupported_Nil
    by (auto simp: negative_ttl_def list_all_iff split: option.split)
  moreover have "case ts_TTL spec of None \<Rightarrow> True
     | Some secs \<Rightarrow> 0 < secs \<and> (ttl_check now (Some secs) (Some fin) = Expired) = (fin + secs * second \<le> now)"
    using spec(8) by (auto simp: maxTTLSeconds_def ttl_expired_iff split: option.split)
  ultimately show ?thesis using b spec by (auto simp: maxTailLines_def)
qed

section \<open>Examples\<close>

definition ex_key :: string where "ex_key = ''shop/pod/cart-1/CrashLoop''"

lemma ex_key_ok: "validateIssueKey ex_key = None"
proof -
  have "ex_key = ''shop'' @ ''/'' @ ''pod/cart-1'' @ ''/'' @ ''CrashLoop''" by (simp add: ex_key_def)
  moreover have "is_label ''shop''" "list_all any_char ''pod/cart-1''" "list_all any_char ''CrashLoop''" by code_simp+
  ultimately show ?thesis
    unfolding validateIssueKey_None issue_key_ok_def by (intro conjI exI [of _ "''shop''"] exI [of _ "''pod/cart-1''"] exI [of _ "''CrashLoop''"])
      (simp_all add: ex_key_def maxIssueKeyLen_def)
qed

definition ex_snooze :: "snooze_body body" where
  "ex_snooze = Body \<lparr>sb_Key = ex_key, sb_Duration = ''1h30m'', sb_Reason = []\<rparr>"

definition ex_snoozed :: IssueState where
  "ex_snoozed = \<lparr>st_Key = ex_key, st_Action = ActionSnoozed, st_Reason = [], st_SnoozedUntil = Some (90 * minute), st_CreatedAt = 4\<rparr>"

lemma ex_snooze_ok: "post_snooze 10 0 4 [] ex_snooze Map.empty = (HttpOk 200 ex_snoozed, set_state 10 [] ex_snoozed Map.empty)"
proof -
  have "0 < 90 * minute" "90 * minute \<le> maxSnoozeDuration" by (simp_all add: maxSnoozeDuration_def)
  then show ?thesis
    by (simp add: post_snooze_def decodeJSONBody_def ex_snooze_def ex_snoozed_def ex_key_ok parse_duration_examples Let_def)
qed

lemma snooze_lasts_witness:
  "(muted (90 * minute) [] (set_state 10 [] ex_snoozed Map.empty) ex_key \<noteq> None) \<and>
   muted (90 * minute + 1) [] (set_state 10 [] ex_snoozed Map.empty) ex_key = None"
  using snooze_lasts [OF ex_snooze_ok, of "90 * minute" ex_key "[]"] snooze_lasts [OF ex_snooze_ok, of "90 * minute + 1" ex_key "[]"]
  by (auto simp: ex_snooze_def parse_duration_examples)

lemma cleanup_invisible_witness:
  "fst (handleIssueStates GET 9 [] (fold (issue_step 10) [CleanupStates 5, ListStates 7 []] (set_state 10 [] ex_snoozed Map.empty))) =
   fst (handleIssueStates GET 9 [] (set_state 10 [] ex_snoozed Map.empty))"
  by (rule cleanup_invisible) simp

lemma dashboard_troubleshoot_admitted_witness:
  "troubleshoot_ValidateCreate \<lparr>ts_Kind = ''Deployment'', ts_Name = ''web'', ts_Actions = [''all''], ts_TailLines = 100, ts_TTL = Some 60\<rparr> = []"
proof -
  have "is_label ''web''" "is_label ''default''" by code_simp+
  then have "requested_troubleshoot True (Body \<lparr>tb_Namespace = [], tb_Kind = [], tb_Name = ''web'', tb_Actions = [''logs'', ''all''],
      tb_TailLines = 0, tb_TTL = Some 60\<rparr>) =
    Inr (''default'', \<lparr>ts_Kind = ''Deployment'', ts_Name = ''web'', ts_Actions = [''all''], ts_TailLines = 100, ts_TTL = Some 60\<rparr>)"
    by (simp add: requested_troubleshoot_def decodeJSONBody_def k8sNameRe_def match_label dashboardTargetKinds_def
        dashboardActions_def maxTailLines_def maxTTLSeconds_def)
  from dashboard_troubleshoot_admitted [OF this] show ?thesis by simp
qed

end
