(* ===== verification/Notifiers.thy ===== *)
theory Notifiers
  imports Admission Go_Text Float64 "HOL-Library.Word"
begin

text \<open>
  The notifiers of finished health checks (\<open>internal/notifier/\<close>): payloads, the HTTP client that refuses
  private addresses, and the registry. An address is Go's 16-byte form as a word; the network (parsing of URLs,
  name resolution, connections, answers) is a record of parameters. Payloads are the values that are marshalled;
  marshalling them does not fail.
\<close>

unbundle bit_operations_syntax

section \<open>Addresses\<close>

type_synonym ip = "128 word"

definition IPv4 :: "nat \<Rightarrow> nat \<Rightarrow> nat \<Rightarrow> nat \<Rightarrow> ip" where
  "IPv4 a b c d = push_bit 32 (mask 16) OR of_nat (((a * 256 + b) * 256 + c) * 256 + d)"

definition To4 :: "ip \<Rightarrow> 32 word option" where
  "To4 x = (if drop_bit 32 x = mask 16 then Some (ucast x) else None)"

text \<open>\<open>net.IPNet\<close> with a mask of \<open>k\<close> leading ones, and \<open>Contains\<close>: the network and the address must have the
  same length once both are reduced to 4 bytes where they can be.\<close>

record IPNet =
  net_IP :: ip
  net_ones :: nat

definition CIDRMask :: "nat \<Rightarrow> 'w::len word" where
  "CIDRMask ones = push_bit (LENGTH('w) - ones) (- 1)"

definition net_Contains :: "IPNet \<Rightarrow> ip \<Rightarrow> bool" where
  "net_Contains n x =
     (case (To4 (net_IP n), To4 x) of
        (Some a, Some b) \<Rightarrow> a AND CIDRMask (net_ones n) = b AND CIDRMask (net_ones n)
      | (None, None) \<Rightarrow> net_IP n AND CIDRMask (net_ones n) = x AND CIDRMask (net_ones n)
      | _ \<Rightarrow> False)"

definition privateNetworks :: "IPNet list" where
  "privateNetworks =
     [\<lparr>net_IP = IPv4 10 0 0 0, net_ones = 8\<rparr>,
      \<lparr>net_IP = IPv4 172 16 0 0, net_ones = 12\<rparr>,
      \<lparr>net_IP = IPv4 192 168 0 0, net_ones = 16\<rparr>,
      \<lparr>net_IP = IPv4 169 254 0 0, net_ones = 16\<rparr>,
      \<lparr>net_IP = IPv4 127 0 0 0, net_ones = 8\<rparr>,
      \<lparr>net_IP = 1, net_ones = 128\<rparr>,
      \<lparr>net_IP = 0, net_ones = 128\<rparr>,
      \<lparr>net_IP = push_bit 112 0xFE80, net_ones = 10\<rparr>,
      \<lparr>net_IP = push_bit 112 0xFC00, net_ones = 7\<rparr>]"

definition isPrivateIP :: "ip \<Rightarrow> bool" where
  "isPrivateIP x = list_ex (\<lambda>n. net_Contains n x) privateNetworks"

section \<open>The network\<close>

datatype payload = PStr string | PInt int | PFloat f64 | PTime time | PBool bool
  | PList "payload list" | PObj "(string \<times> payload) list"

record net_env =
  ne_parse_url :: url_parser                        \<comment> \<open>scheme and host name\<close>
  ne_request_error :: "string \<Rightarrow> string option"
  ne_port :: "string \<Rightarrow> string"
  ne_lookup :: "string \<Rightarrow> string + ip list"
  ne_connect :: "ip \<Rightarrow> string \<Rightarrow> bool"
  ne_answer :: "ip \<Rightarrow> string \<Rightarrow> payload \<Rightarrow> string + int"  \<comment> \<open>an error or the status code\<close>
  ne_show_ip :: "ip \<Rightarrow> string"

text \<open>The dialer of the safe client; the testing bypass is left out.\<close>

definition newSafeDialContext :: "net_env \<Rightarrow> string \<Rightarrow> string \<Rightarrow> string + ip" where
  "newSafeDialContext env host port =
     (case ne_lookup env host of
        Inl e \<Rightarrow> Inl (''DNS lookup failed for '' @ host @ '': '' @ e)
      | Inr ips \<Rightarrow>
          (case find isPrivateIP ips of
             Some x \<Rightarrow> Inl (''SSRF protection: '' @ host @ '' resolves to private IP '' @ ne_show_ip env x)
           | None \<Rightarrow>
               (case find (\<lambda>x. ne_connect env x port) ips of
                  Some x \<Rightarrow> Inr x
                | None \<Rightarrow> Inl (''failed to connect to '' @ host @ '': all resolved IPs unreachable''))))"

definition validateWebhookURL :: "net_env \<Rightarrow> string \<Rightarrow> string option" where
  "validateWebhookURL env rawURL =
     (case ne_parse_url env rawURL of
        None \<Rightarrow> Some ''invalid webhook URL''
      | Some (scheme, host) \<Rightarrow>
          if scheme \<noteq> ''http'' \<and> scheme \<noteq> ''https'' then Some ''webhook URL must use http or https scheme''
          else if host = [] then Some ''webhook URL must include host''
          else None)"

text \<open>A delivery: the address and the payload it received.\<close>

type_synonym delivery = "ip \<times> payload"

definition host_of :: "net_env \<Rightarrow> string \<Rightarrow> string" where
  "host_of env url = (case ne_parse_url env url of None \<Rightarrow> [] | Some (_, host) \<Rightarrow> host)"

text \<open>The body that the \<open>Send\<close> methods share: the error and what was delivered. Redirects are not followed, so
  their status is the answer.\<close>

definition send_payload :: "string \<Rightarrow> string \<Rightarrow> net_env \<Rightarrow> string \<Rightarrow> payload \<Rightarrow> string option \<times> delivery option" where
  "send_payload what name env url body =
     (case validateWebhookURL env url of
        Some e \<Rightarrow> (Some (''SSRF protection: '' @ e), None)
      | None \<Rightarrow>
          (case ne_request_error env url of
             Some e \<Rightarrow> (Some (''create request: '' @ e), None)
           | None \<Rightarrow>
               (case newSafeDialContext env (host_of env url) (ne_port env url) of
                  Inl e \<Rightarrow> (Some (''send '' @ what @ '': '' @ e), None)
                | Inr x \<Rightarrow>
                    (case ne_answer env x url body of
                       Inl e \<Rightarrow> (Some (''send '' @ what @ '': '' @ e), Some (x, body))
                     | Inr status \<Rightarrow>
                         (if status < 200 \<or> status \<ge> 300 then Some (name @ '' returned status '' @ itoa status) else None,
                          Some (x, body))))))"

section \<open>Payloads\<close>

record Notification =
  no_Summary :: string
  no_TotalHealthy :: int
  no_TotalIssues :: int
  no_CriticalCount :: int
  no_WarningCount :: int
  no_HealthScore :: f64
  no_Timestamp :: time
  no_RequestName :: string
  no_Namespace :: string

definition webhook_payload :: "Notification \<Rightarrow> payload" where
  "webhook_payload n = PObj
     [(''summary'', PStr (no_Summary n)), (''totalHealthy'', PInt (no_TotalHealthy n)),
      (''totalIssues'', PInt (no_TotalIssues n)), (''criticalCount'', PInt (no_CriticalCount n)),
      (''warningCount'', PInt (no_WarningCount n)), (''healthScore'', PFloat (no_HealthScore n)),
      (''timestamp'', PTime (no_Timestamp n)), (''requestName'', PStr (no_RequestName n)),
      (''namespace'', PStr (no_Namespace n))]"

definition text_obj :: "string \<Rightarrow> string \<Rightarrow> payload" where
  "text_obj typ t = PObj [(''type'', PStr typ), (''text'', PStr t)]"

definition slack_payload :: "Notification \<Rightarrow> payload" where
  "slack_payload n =
     (let emoji = (if no_CriticalCount n > 0 then [CHR 0xF0, CHR 0x9F, CHR 0x94, CHR 0xB4] else if no_WarningCount n > 0 then [CHR 0xF0, CHR 0x9F, CHR 0x9F, CHR 0xA1] else [CHR 0xF0, CHR 0x9F, CHR 0x9F, CHR 0xA2]) in
      PObj [(''blocks'', PList
        [PObj [(''type'', PStr ''header''), (''text'', text_obj ''plain_text'' (emoji @ '' KubeAssist Health Report''))],
         PObj [(''type'', PStr ''section''),
           (''text'', text_obj ''mrkdwn'' (''*'' @ no_RequestName n @ (''* in '' @ [CHR 0x60]) @ no_Namespace n @ [CHR 0x60]))],
         PObj [(''type'', PStr ''section''), (''fields'', PList
           [text_obj ''mrkdwn'' ((''*Health Score*'' @ [CHR 0x0A]) @ fmt_f1 (no_HealthScore n) @ ''%''),
            text_obj ''mrkdwn'' ((''*Issues*'' @ [CHR 0x0A]) @ itoa (no_TotalIssues n) @ '' total''),
            text_obj ''mrkdwn'' ((''*Critical*'' @ [CHR 0x0A]) @ itoa (no_CriticalCount n)),
            text_obj ''mrkdwn'' ((''*Warning*'' @ [CHR 0x0A]) @ itoa (no_WarningCount n))])],
         PObj [(''type'', PStr ''context''), (''elements'', PList
           [text_obj ''mrkdwn'' (''Checked at '' @ format_rfc3339 (no_Timestamp n))])]])])"

definition column :: "payload list \<Rightarrow> payload" where
  "column items = PObj [(''type'', PStr ''Column''), (''items'', PList items)]"

definition fact :: "string \<Rightarrow> int \<Rightarrow> payload" where
  "fact title n = PObj [(''title'', PStr title), (''value'', PStr (itoa n))]"

definition teams_body :: "Notification \<Rightarrow> payload list" where
  "teams_body n =
     [PObj [(''type'', PStr ''TextBlock''), (''size'', PStr ''Large''), (''weight'', PStr ''Bolder''),
        (''text'', PStr ''KubeAssist Health Report'')],
      PObj [(''type'', PStr ''TextBlock''), (''text'', PStr (no_RequestName n @ '' in '' @ no_Namespace n)),
        (''isSubtle'', PBool True)],
      PObj [(''type'', PStr ''ColumnSet''), (''columns'', PList
        [column [PObj [(''type'', PStr ''TextBlock''), (''text'', PStr ''Health Score''), (''weight'', PStr ''Bolder'')],
           text_obj ''TextBlock'' (fmt_f1 (no_HealthScore n) @ ''%'')],
         column [PObj [(''type'', PStr ''TextBlock''), (''text'', PStr ''Issues''), (''weight'', PStr ''Bolder'')],
           text_obj ''TextBlock'' (itoa (no_TotalIssues n))]])],
      PObj [(''type'', PStr ''FactSet''), (''facts'', PList
        [fact ''Critical'' (no_CriticalCount n), fact ''Warning'' (no_WarningCount n), fact ''Healthy'' (no_TotalHealthy n)])]]"

definition teams_payload :: "Notification \<Rightarrow> payload" where
  "teams_payload n = PObj [(''type'', PStr ''message''), (''attachments'', PList
     [PObj [(''contentType'', PStr ''application/vnd.microsoft.card.adaptive''),
        (''content'', PObj [(''$schema'', PStr ''http://adaptivecards.io/schemas/adaptive-card.json''),
          (''type'', PStr ''AdaptiveCard''), (''version'', PStr ''1.4''), (''body'', PList (teams_body n))])]])]"

definition mapSeverity :: "Notification \<Rightarrow> string" where
  "mapSeverity n = (if no_CriticalCount n > 0 then ''critical'' else if no_WarningCount n > 0 then ''warning'' else ''info'')"

definition pagerduty_payload :: "string \<Rightarrow> Notification \<Rightarrow> payload" where
  "pagerduty_payload key n = PObj
     [(''routing_key'', PStr key),
      (''dedup_key'', PStr (''kubeassist/'' @ no_Namespace n @ ''/'' @ no_RequestName n)),
      (''event_action'', PStr (if no_TotalIssues n = 0 then ''resolve'' else ''trigger'')),
      (''payload'', PObj
        [(''summary'', PStr (no_Summary n)), (''source'', PStr ''kubeassist''), (''severity'', PStr (mapSeverity n)),
         (''timestamp'', PStr (format_rfc3339 (no_Timestamp n))),
         (''custom_details'', PObj
           [(''health_score'', PFloat (no_HealthScore n)), (''total_healthy'', PInt (no_TotalHealthy n)),
            (''total_issues'', PInt (no_TotalIssues n)), (''critical_count'', PInt (no_CriticalCount n)),
            (''warning_count'', PInt (no_WarningCount n)), (''request_name'', PStr (no_RequestName n)),
            (''namespace'', PStr (no_Namespace n))])])]"

definition pagerDutyEventsURL :: string where "pagerDutyEventsURL = ''https://events.pagerduty.com/v2/enqueue''"

section \<open>Notifiers\<close>

datatype notifier = WebhookNotifier string | SlackNotifier string | TeamsNotifier string | PagerDutyNotifier string

definition notifier_Name :: "notifier \<Rightarrow> string" where
  "notifier_Name n = (case n of WebhookNotifier _ \<Rightarrow> ''webhook'' | SlackNotifier _ \<Rightarrow> ''slack''
     | TeamsNotifier _ \<Rightarrow> ''teams'' | PagerDutyNotifier _ \<Rightarrow> ''pagerduty'')"

definition webhook_Send :: "string \<Rightarrow> net_env \<Rightarrow> Notification \<Rightarrow> string option \<times> delivery option" where
  "webhook_Send url env n = send_payload ''webhook'' ''webhook'' env url (webhook_payload n)"

definition slack_Send :: "string \<Rightarrow> net_env \<Rightarrow> Notification \<Rightarrow> string option \<times> delivery option" where
  "slack_Send url env n = send_payload ''slack notification'' ''slack'' env url (slack_payload n)"

definition teams_Send :: "string \<Rightarrow> net_env \<Rightarrow> Notification \<Rightarrow> string option \<times> delivery option" where
  "teams_Send url env n = send_payload ''teams notification'' ''teams'' env url (teams_payload n)"

definition pagerduty_Send :: "string \<Rightarrow> net_env \<Rightarrow> Notification \<Rightarrow> string option \<times> delivery option" where
  "pagerduty_Send key env n = send_payload ''pagerduty notification'' ''pagerduty'' env pagerDutyEventsURL (pagerduty_payload key n)"

definition Send :: "notifier \<Rightarrow> net_env \<Rightarrow> Notification \<Rightarrow> string option \<times> delivery option" where
  "Send nt = (case nt of WebhookNotifier u \<Rightarrow> webhook_Send u | SlackNotifier u \<Rightarrow> slack_Send u
     | TeamsNotifier u \<Rightarrow> teams_Send u | PagerDutyNotifier k \<Rightarrow> pagerduty_Send k)"

text \<open>The registry: every notifier is tried; the first error is the result.\<close>

definition Register_notifier :: "notifier \<Rightarrow> notifier list \<Rightarrow> notifier list" where
  "Register_notifier n r = r @ [n]"

fun NotifyAll :: "net_env \<Rightarrow> Notification \<Rightarrow> notifier list \<Rightarrow> string option \<times> delivery list" where
  "NotifyAll env n [] = (None, [])"
| "NotifyAll env n (nt # nts) =
     (let (err, d) = Send nt env n; (err', ds) = NotifyAll env n nts
      in (case err of Some e \<Rightarrow> Some (''notifier '' @ notifier_Name nt @ '': '' @ e) | None \<Rightarrow> err',
          (case d of None \<Rightarrow> ds | Some x \<Rightarrow> x # ds)))"

section \<open>Which addresses are private\<close>

lemma AND_CIDRMask_eq_iff:
  fixes a b :: "'w::len word"
  shows "a AND CIDRMask k = b AND CIDRMask k \<longleftrightarrow> drop_bit (LENGTH('w) - k) a = drop_bit (LENGTH('w) - k) b"
proof -
  have m: "x AND CIDRMask k = push_bit (LENGTH('w) - k) (drop_bit (LENGTH('w) - k) x)" for x :: "'w word"
    by (rule bit_eqI) (auto simp: CIDRMask_def bit_simps)
  have "drop_bit n (push_bit n (drop_bit n x)) = drop_bit n x" for n and x :: "'w word"
    by (rule bit_eqI) (auto simp: bit_simps dest: bit_imp_le_length)
  then show ?thesis unfolding m by metis
qed

lemma To4_IPv4:
  assumes "a < 256" "b < 256" "c < 256" "d < 256"
  shows "To4 (IPv4 a b c d) = Some (of_nat (((a * 256 + b) * 256 + c) * 256 + d))"
proof -
  define v where "v = ((a * 256 + b) * 256 + c) * 256 + d"
  have v: "v < 2 ^ 32" using assms by (simp add: v_def)
  then have hi: "\<not> bit v i" if "32 \<le> i" for i
    using that by (metis bit_take_bit_iff not_le take_bit_nat_eq_self)
  have "drop_bit 32 (push_bit 32 (mask 16) OR of_nat v :: ip) = mask 16"
    using hi by (intro bit_eqI) (auto simp: bit_simps)
  moreover have "(ucast (push_bit 32 (mask 16) OR of_nat v :: ip) :: 32 word) = of_nat v"
    by (rule bit_eqI) (auto simp: bit_simps)
  ultimately show ?thesis by (simp add: To4_def IPv4_def v_def)
qed

lemma mixed_radix:
  fixes n :: nat
  assumes "r < n" "s < n"
  shows "a * n + r = b * n + s \<longleftrightarrow> a = b \<and> r = s"
proof -
  have "(a * n + r) div n = a" "(b * n + s) div n = b" using assms by simp_all
  then show ?thesis by (metis add_left_cancel)
qed

lemma octet_prefixes:
  fixes a b c d :: nat
  assumes "b < 256" "c < 256" "d < 256"
  shows "(((a * 256 + b) * 256 + c) * 256 + d) div 2 ^ 24 = a"
    "(((a * 256 + b) * 256 + c) * 256 + d) div 2 ^ 20 = a * 16 + b div 16"
    "(((a * 256 + b) * 256 + c) * 256 + d) div 2 ^ 16 = a * 256 + b"
proof -
  have "((a * 256 + b) * 256 + c) * 256 + d = (a * 256 + b) * 2 ^ 16 + (c * 256 + d)" by simp
  moreover have r: "c * 256 + d < 2 ^ 16" using assms by simp
  ultimately show q: "(((a * 256 + b) * 256 + c) * 256 + d) div 2 ^ 16 = a * 256 + b" by simp
  then show "(((a * 256 + b) * 256 + c) * 256 + d) div 2 ^ 24 = a"
    "(((a * 256 + b) * 256 + c) * 256 + d) div 2 ^ 20 = a * 16 + b div 16"
    using assms by (simp_all add: div_mult2_eq [of _ "2 ^ 16" 256, simplified] div_mult2_eq [of _ "2 ^ 16" 16, simplified])
qed

lemma Contains_IPv4:
  assumes "a < 256" "b < 256" "c < 256" "d < 256" "a' < 256" "b' < 256" "c' < 256" "d' < 256"
  shows "net_Contains \<lparr>net_IP = IPv4 a b c d, net_ones = k\<rparr> (IPv4 a' b' c' d') \<longleftrightarrow>
    (((a * 256 + b) * 256 + c) * 256 + d) div 2 ^ (32 - k) = (((a' * 256 + b') * 256 + c') * 256 + d') div 2 ^ (32 - k)"
proof -
  have key: "(of_nat v :: 32 word) AND CIDRMask k = of_nat w AND CIDRMask k \<longleftrightarrow> v div 2 ^ (32 - k) = w div 2 ^ (32 - k)"
    if "v < 2 ^ 32" "w < 2 ^ 32" for v w :: nat
    using that unfolding AND_CIDRMask_eq_iff unfolding word_unat_eq_iff
    unfolding unat_drop_bit_eq unfolding drop_bit_eq_div by (simp add: unat_of_nat)
  have "((a * 256 + b) * 256 + c) * 256 + d < 2 ^ 32" "((a' * 256 + b') * 256 + c') * 256 + d' < 2 ^ 32"
    using assms by simp_all
  from key [OF this] show ?thesis
    by (simp only: net_Contains_def To4_IPv4 [OF assms(1-4)] To4_IPv4 [OF assms(5-8)] option.case prod.case IPNet.simps)
qed

lemma Contains_IPv6: "To4 (net_IP n) = None \<Longrightarrow> To4 x = Some y \<Longrightarrow> \<not> net_Contains n x"
  by (simp add: net_Contains_def)

lemma private_IPv6_nets:
  "To4 1 = None" "To4 0 = None" "To4 (push_bit 112 0xFE80) = None" "To4 (push_bit 112 0xFC00) = None"
  by (simp_all add: To4_def mask_eq_exp_minus_1)

text \<open>Of the IPv4 addresses, the client refuses exactly the private ranges of RFC 1918, link-local and
  loopback addresses; 0.0.0.0, which reaches the local host as well, is not among them.\<close>

theorem private_ipv4_iff:
  assumes "a < 256" "b < 256" "c < 256" "d < 256"
  shows "isPrivateIP (IPv4 a b c d) \<longleftrightarrow>
    a = 10 \<or> a = 127 \<or> a = 172 \<and> 16 \<le> b \<and> b < 32 \<or> a = 192 \<and> b = 168 \<or> a = 169 \<and> b = 254"
proof -
  have six: "\<not> net_Contains n (IPv4 a b c d)" if "To4 (net_IP n) = None" for n
    by (rule Contains_IPv6 [OF that To4_IPv4 [OF assms]])
  have "isPrivateIP (IPv4 a b c d) \<longleftrightarrow> a = 10 \<or> a * 16 + b div 16 = 172 * 16 + 1 \<or> a * 256 + b = 192 * 256 + 168 \<or>
      a * 256 + b = 169 * 256 + 254 \<or> a = 127"
    using assms octet_prefixes [OF assms(2-4), of a]
    by (simp add: isPrivateIP_def privateNetworks_def six private_IPv6_nets [simplified] Contains_IPv4)
  moreover have "a * 16 + b div 16 = 172 * 16 + 1 \<longleftrightarrow> a = 172 \<and> b div 16 = 1"
    using assms(2) by (intro mixed_radix) simp_all
  moreover have "b div 16 = 1 \<longleftrightarrow> 16 \<le> b \<and> b < 32" by (auto simp: div_nat_eqI)
  moreover have "a * 256 + b = 192 * 256 + 168 \<longleftrightarrow> a = 192 \<and> b = 168" using assms(2) by (intro mixed_radix) simp_all
  moreover have "a * 256 + b = 169 * 256 + 254 \<longleftrightarrow> a = 169 \<and> b = 254" using assms(2) by (intro mixed_radix) simp_all
  ultimately show ?thesis by blast
qed

lemma private_ipv4_iff_witness: "isPrivateIP (IPv4 172 31 255 1) \<and> \<not> isPrivateIP (IPv4 172 32 0 1) \<and> \<not> isPrivateIP (IPv4 0 0 0 0)"
  using private_ipv4_iff [of 172 31 255 1] private_ipv4_iff [of 172 32 0 1] private_ipv4_iff [of 0 0 0 0] by simp

section \<open>The contract of a notifier\<close>

locale notifier_contract =
  fixes send :: "net_env \<Rightarrow> Notification \<Rightarrow> string option \<times> delivery option"
  assumes public: "snd (send env n) = Some (x, body) \<Longrightarrow> \<not> isPrivateIP x"
    and delivers: "fst (send env n) = None \<Longrightarrow> snd (send env n) \<noteq> None"
begin

lemma success_reaches_public: "fst (send env n) = None \<Longrightarrow> \<exists>x body. snd (send env n) = Some (x, body) \<and> \<not> isPrivateIP x"
  using delivers public by (metis not_None_eq surj_pair)

lemma delivery_public: "pred_option (\<lambda>(x, _). \<not> isPrivateIP x) (snd (send env n))"
  using public by (cases "snd (send env n)") auto

end

lemma dial_public: "newSafeDialContext env host port = Inr x \<Longrightarrow> \<not> isPrivateIP x"
  by (auto simp: newSafeDialContext_def find_None_iff find_Some_iff split: sum.splits option.splits)

lemma send_payload_contract: "notifier_contract (\<lambda>env n. send_payload what name env url (body n))"
  by unfold_locales (auto simp: send_payload_def dest: dial_public split: option.splits sum.splits if_splits)

interpretation webhook: notifier_contract "webhook_Send url" for url
  unfolding webhook_Send_def [abs_def] by (rule send_payload_contract)

interpretation slack: notifier_contract "slack_Send url" for url
  unfolding slack_Send_def [abs_def] by (rule send_payload_contract)

interpretation teams: notifier_contract "teams_Send url" for url
  unfolding teams_Send_def [abs_def] by (rule send_payload_contract)

interpretation pagerduty: notifier_contract "pagerduty_Send key" for key
  unfolding pagerduty_Send_def [abs_def] by (rule send_payload_contract)

lemma Send_public: "pred_option (\<lambda>(x, _). \<not> isPrivateIP x) (snd (Send nt env n))"
  by (cases nt) (simp_all only: Send_def notifier.case webhook.delivery_public slack.delivery_public
      teams.delivery_public pagerduty.delivery_public)

text \<open>Every registered notifier is tried whatever the others do, the registry reports an error exactly when
  one of them failed, and nothing is ever delivered to a private address: not by a name that resolves to one, and
  not by a redirect.\<close>

theorem notify_all_safe:
  "snd (NotifyAll env n nts) = List.map_filter (\<lambda>nt. snd (Send nt env n)) nts \<and>
   (fst (NotifyAll env n nts) = None) = list_all (\<lambda>nt. fst (Send nt env n) = None) nts \<and>
   list_all (\<lambda>(x, _). \<not> isPrivateIP x) (snd (NotifyAll env n nts))"
proof (induction nts)
  case (Cons nt nts)
  then show ?case using Send_public [of nt env n]
    by (auto simp: Let_def case_prod_unfold map_filter_simps split: option.splits)
qed (simp add: map_filter_simps)

end
