(* ===== verification/TeamHealth_Controller.thy ===== *)
theory TeamHealth_Controller
  imports Notifiers AI_Enhancement Causal Request_Lifecycle
begin

text \<open>
  The controller of team health requests (\<open>internal/controller/teamhealthrequest_controller.go\<close>): it resolves
  the scope, runs the checkers, correlates and enhances the issues, records the results and dispatches the
  notifications. The answers of the API server, the clock, the checkers and the AI provider are the environment
  of a reconcile. Metrics and recorded events are left out. The results carry their metadata as values until the
  enhancement, which gives every map its own address: the status drops metadata, so sharing does not show.
\<close>

definition MaxNamespaces :: nat where "MaxNamespaces = 50"

section \<open>Requests\<close>

record CheckerResult =
  ak_Healthy :: int
  ak_Issues :: "DiagnosticIssue list"
  ak_Error :: string

record TeamHealthStatus =
  hst_ObservedGeneration :: int
  hst_Phase :: phase
  hst_Summary :: string
  hst_Results :: "string \<rightharpoonup> CheckerResult"
  hst_NamespacesChecked :: "string list"
  hst_LastCheckTime :: "time option"
  hst_StartedAt :: "time option"
  hst_CompletedAt :: "time option"
  hst_Conditions :: "condition list"

record 's TeamHealthRequest =
  hr_Name :: string
  hr_Namespace :: string
  hr_Generation :: int
  hr_Annotations :: "string \<rightharpoonup> string"
  hr_Spec :: "'s TeamHealthSpec"
  hr_Status :: TeamHealthStatus

section \<open>Configuration of a check\<close>

definition getCheckerNames :: "string list \<Rightarrow> string list option" where
  "getCheckerNames checks = (if checks = [] then None else Some checks)"

definition buildCheckerConfig :: "CheckerConfig \<Rightarrow> (string \<rightharpoonup> int)" where
  "buildCheckerConfig cfg =
     (case kc_Workloads cfg of
        None \<Rightarrow> Map.empty
      | Some w \<Rightarrow> if wc_RestartThreshold w > 0 then [''restartThreshold'' \<mapsto> wc_RestartThreshold w] else Map.empty)"

section \<open>Results\<close>

record aggregationResult =
  ar_apiResults :: "string \<rightharpoonup> CheckerResult"
  ar_totalHealthy :: int
  ar_totalIssues :: int
  ar_criticalCount :: int
  ar_warningCount :: int

definition api_result :: "'m CheckResult \<Rightarrow> CheckerResult" where
  "api_result r = \<lparr>ak_Healthy = min (cr_Healthy r) (2 ^ 31 - 1),
     ak_Issues = (if cr_Error r = None then ToAPIIssues (cr_Issues r) else []),
     ak_Error = (case cr_Error r of None \<Rightarrow> [] | Some e \<Rightarrow> e)\<rparr>"

definition count_severity :: "string \<Rightarrow> 'm CheckResult \<Rightarrow> int" where
  "count_severity s r = int (length (filter (\<lambda>i. iss_Severity i = s) (cr_Issues r)))"

text \<open>A nil result makes the loop panic.\<close>

fun aggregateResults :: "(string \<times> 'm CheckResult option) list \<Rightarrow> aggregationResult \<Rightarrow> aggregationResult option" where
  "aggregateResults [] agg = Some agg"
| "aggregateResults ((name, None) # rs) agg = None"
| "aggregateResults ((name, Some r) # rs) agg =
     (let agg1 = agg\<lparr>ar_apiResults := (ar_apiResults agg)(name \<mapsto> api_result r)\<rparr> in
      aggregateResults rs
        (if cr_Error r \<noteq> None then agg1
         else agg1\<lparr>ar_totalHealthy := ar_totalHealthy agg + cr_Healthy r,
           ar_totalIssues := ar_totalIssues agg + int (length (cr_Issues r)),
           ar_criticalCount := ar_criticalCount agg + count_severity SeverityCritical r,
           ar_warningCount := ar_warningCount agg + count_severity SeverityWarning r\<rparr>))"

definition no_aggregate :: aggregationResult where
  "no_aggregate = \<lparr>ar_apiResults = Map.empty, ar_totalHealthy = 0, ar_totalIssues = 0, ar_criticalCount = 0,
     ar_warningCount = 0\<rparr>"

definition th_generateSummary :: "int \<Rightarrow> int \<Rightarrow> int \<Rightarrow> int \<Rightarrow> string" where
  "th_generateSummary healthy issues critical warning =
     (if issues = 0 then ''All '' @ itoa healthy @ '' resource(s) healthy - no issues found''
      else if critical > 0
      then itoa critical @ '' critical, '' @ itoa warning @ '' warning issue(s) found across '' @ itoa (healthy + issues) @ '' resource(s)''
      else itoa warning @ '' warning issue(s) found across '' @ itoa (healthy + issues) @ '' resource(s)'')"

section \<open>The environment of a reconcile\<close>

text \<open>\<open>he_checkers\<close> is the registry whose checkers see the namespaces and the configuration of the check context,
  \<open>he_names\<close> the iteration order of the map of results, \<open>he_ai\<close> the provider with the settings of the check
  context but for the causal analysis.\<close>

record 's th_env =
  he_fetch_error :: "string option"
  he_delete_error :: "string option"
  he_running_error :: "string option"
  he_patch_error :: "string option"
  he_now :: time
  he_correlated :: time
  he_done :: time
  he_source :: "'s namespace_source"
  he_checkers :: "string list \<Rightarrow> (string \<rightharpoonup> int) \<Rightarrow> Registry"
  he_list_order :: "string list \<Rightarrow> string list"
  he_arrive :: "(string \<times> result option) list \<Rightarrow> (string \<times> result option) list"
  he_names :: "string list \<Rightarrow> string list"
  he_correlator :: "Correlator option"
  he_causal_orders :: map_orders
  he_ai :: enhance_context
  he_notifiers :: bool                 \<comment> \<open>a notifier registry is configured\<close>

definition th_results :: "'s th_env \<Rightarrow> 's TeamHealthSpec \<Rightarrow> string list \<Rightarrow> results" where
  "th_results env spec nss =
     (let r = he_checkers env nss (buildCheckerConfig (hs_Config spec));
          names = getCheckerNames (hs_Checks spec);
          m = RunAll (he_list_order env) (he_arrive env) names r;
          ns = (case names of None \<Rightarrow> List (he_list_order env) r | Some ns \<Rightarrow> ns)
      in map (\<lambda>n. (n, case m n of None \<Rightarrow> None | Some x \<Rightarrow> x)) (he_names env (remdups ns)))"

definition th_causal :: "'s th_env \<Rightarrow> results \<Rightarrow> CausalAnalysisContext option" where
  "th_causal env rs =
     (case he_correlator env of
        None \<Rightarrow> None
      | Some c \<Rightarrow> ToAIContext (Some (causal_Analyze c (he_causal_orders env) \<lparr>ci_Results = rs, ci_Timestamp = he_correlated env\<rparr>)))"

text \<open>Giving every metadata map an address of its own.\<close>

definition put_address :: "issue \<Rightarrow> nat \<times> (nat \<rightharpoonup> metadata) \<times> stored_issue list \<Rightarrow> nat \<times> (nat \<rightharpoonup> metadata) \<times> stored_issue list" where
  "put_address i st =
     (let (next, meta, is) = st;
          stored = (\<lambda>a. \<lparr>iss_Type = iss_Type i, iss_Severity = iss_Severity i, iss_Resource = iss_Resource i,
            iss_Namespace = iss_Namespace i, iss_Message = iss_Message i, iss_Suggestion = iss_Suggestion i, iss_Metadata = a\<rparr>)
      in case iss_Metadata i of
           None \<Rightarrow> (next, meta, is @ [stored None])
         | Some m \<Rightarrow> (next + 1, meta(next \<mapsto> m), is @ [stored (Some next)]))"

definition store_result :: "result \<Rightarrow> nat \<Rightarrow> (nat \<rightharpoonup> metadata) \<Rightarrow> stored_result \<times> nat \<times> (nat \<rightharpoonup> metadata)" where
  "store_result r next meta =
     (let (next', meta', is) = fold put_address (cr_Issues r) (next, meta, [])
      in (\<lparr>cr_CheckerName = cr_CheckerName r, cr_Healthy = cr_Healthy r, cr_Issues = is, cr_Error = cr_Error r\<rparr>, next', meta'))"

fun store_results :: "results \<Rightarrow> nat \<Rightarrow> (nat \<rightharpoonup> metadata) \<Rightarrow> enhancement" where
  "store_results [] next meta = \<lparr>en_results = [], en_meta = meta, en_next = next\<rparr>"
| "store_results ((n, None) # rs) next meta =
     (let st = store_results rs next meta in st\<lparr>en_results := (n, None) # en_results st\<rparr>)"
| "store_results ((n, Some r) # rs) next meta =
     (let (r', next', meta') = store_result r next meta; st = store_results rs next' meta'
      in st\<lparr>en_results := (n, Some r') # en_results st\<rparr>)"

text \<open>The provider is asked when it is there and available. An error leaves the results as they are; a panic is
  \<open>None\<close>.\<close>

definition th_enhance :: "'s th_env \<Rightarrow> results \<Rightarrow> (string \<times> stored_result option) list option" where
  "th_enhance env rs =
     (let st = store_results rs 0 Map.empty in
      if ec_available (he_ai env) = Some True
      then map_option (\<lambda>(_, st'). en_results st')
        (EnhanceAllWithAI ((he_ai env)\<lparr>ec_enabled := True, ec_causal := th_causal env rs\<rparr>) st)
      else Some (en_results st))"

section \<open>The reconcile\<close>

definition th_condition :: "'s TeamHealthRequest \<Rightarrow> string \<Rightarrow> bool \<Rightarrow> string \<Rightarrow> string \<Rightarrow> TeamHealthStatus \<Rightarrow> TeamHealthStatus" where
  "th_condition hr typ status reason msg st =
     st\<lparr>hst_Conditions := set_condition \<lparr>cd_Type = typ, cd_Status = status, cd_ObservedGeneration = hr_Generation hr,
        cd_Reason = reason, cd_Message = msg\<rparr> (hst_Conditions st)\<rparr>"

definition th_setFailed :: "'s th_env \<Rightarrow> 's TeamHealthRequest \<Rightarrow> string \<Rightarrow> TeamHealthStatus \<Rightarrow> TeamHealthStatus" where
  "th_setFailed env hr message st =
     th_condition hr ''Complete'' False ''Failed'' message
       (st\<lparr>hst_Phase := PhaseFailed, hst_Summary := message, hst_LastCheckTime := Some (he_done env),
          hst_CompletedAt := Some (he_done env)\<rparr>)"

text \<open>What the first patch stores. The observed generation is set before the base of the patch is copied, so that no
  patch of the reconcile ever contains it.\<close>

definition th_running :: "'s th_env \<Rightarrow> 's TeamHealthRequest \<Rightarrow> TeamHealthStatus" where
  "th_running env hr =
     (let st = hr_Status hr in
      st\<lparr>hst_Phase := PhaseRunning,
        hst_StartedAt := (case hst_StartedAt st of None \<Rightarrow> Some (he_now env) | t \<Rightarrow> t)\<rparr>)"

definition namespaces_condition :: "'s TeamHealthRequest \<Rightarrow> nat \<Rightarrow> TeamHealthStatus \<Rightarrow> TeamHealthStatus" where
  "namespaces_condition hr found =
     (if found > MaxNamespaces
      then th_condition hr ''NamespacesResolved'' True ''Truncated''
        (''Evaluated '' @ itoa (int MaxNamespaces) @ '' of '' @ itoa (int found) @ '' namespace(s) (max: '' @ itoa (int MaxNamespaces) @ '')'')
      else th_condition hr ''NamespacesResolved'' True ''Resolved'' (''Found '' @ itoa (int found) @ '' namespace(s)''))"

definition th_complete :: "'s th_env \<Rightarrow> 's TeamHealthRequest \<Rightarrow> string list \<Rightarrow> TeamHealthStatus \<Rightarrow>
    (TeamHealthStatus \<times> aggregationResult) option" where
  "th_complete env hr found st =
     (let nss = take MaxNamespaces found;
          st1 = namespaces_condition hr (length found) (st\<lparr>hst_NamespacesChecked := nss\<rparr>);
          rs = th_results env (hr_Spec hr) nss
      in case th_enhance env rs of
           None \<Rightarrow> None
         | Some enhanced \<Rightarrow>
             (case aggregateResults enhanced no_aggregate of
                None \<Rightarrow> None
              | Some agg \<Rightarrow>
                  let st2 = st1\<lparr>hst_Results := ar_apiResults agg,
                        hst_Summary := th_generateSummary (ar_totalHealthy agg) (ar_totalIssues agg) (ar_criticalCount agg)
                            (ar_warningCount agg) @
                          (if length found > MaxNamespaces
                           then '' (evaluated '' @ itoa (int MaxNamespaces) @ '' of '' @ itoa (int (length found)) @ '' namespaces)''
                           else []),
                        hst_LastCheckTime := Some (he_done env), hst_CompletedAt := Some (he_done env), hst_Phase := PhaseCompleted\<rparr>
                  in Some (th_condition hr ''Complete'' True ''Complete'' ''Health check completed''
                       (th_condition hr ''CheckersCompleted'' True ''Completed''
                          (''Ran '' @ itoa (int (length rs)) @ '' checker(s)'') st2), agg)))"

text \<open>The final status with the totals when the checkers ran; \<open>None\<close> is a panic.\<close>

definition th_final :: "'s th_env \<Rightarrow> 's TeamHealthRequest \<Rightarrow> (TeamHealthStatus \<times> aggregationResult option) option" where
  "th_final env hr =
     (let st = th_running env hr in
      case ResolveNamespaces (he_source env) (hr_Namespace hr) (hs_Scope (hr_Spec hr)) of
        Inl e \<Rightarrow> Some (th_setFailed env hr (''Failed to resolve namespaces: '' @ e) st, None)
      | Inr found \<Rightarrow>
          if found = [] then Some (th_setFailed env hr ''No namespaces found matching scope'' st, None)
          else map_option (\<lambda>(st', agg). (st', Some agg)) (th_complete env hr found st))"

datatype th_result = HealthDone | HealthRequeue duration | HealthError string | HealthPanic

text \<open>What the reconcile answers, the stored request afterwards, and the totals to notify about. The error of the last
  patch is handed on as it is by \<open>setFailed\<close> (no totals) and wrapped after a completed check.\<close>

definition th_Reconcile :: "'s th_env \<Rightarrow> 's TeamHealthRequest option \<Rightarrow>
    th_result \<times> 's TeamHealthRequest option \<times> ('s TeamHealthRequest \<times> aggregationResult) option" where
  "th_Reconcile env stored =
     (case stored of
        None \<Rightarrow> (HealthDone, None, None)
      | Some hr \<Rightarrow>
          (case he_fetch_error env of
             Some e \<Rightarrow> (HealthError (''failed to fetch TeamHealthRequest: '' @ e), Some hr, None)
           | None \<Rightarrow>
               if finished (hst_Phase (hr_Status hr))
               then (case ttl_check (he_now env) (hs_TTL (hr_Spec hr)) (hst_CompletedAt (hr_Status hr)) of
                       KeepForever \<Rightarrow> (HealthDone, Some hr, None)
                     | KeepFor d \<Rightarrow> (HealthRequeue d, Some hr, None)
                     | Expired \<Rightarrow>
                         (case he_delete_error env of
                            Some e \<Rightarrow> (HealthError e, Some hr, None)
                          | None \<Rightarrow> (HealthDone, None, None)))
               else if hst_Phase (hr_Status hr) = PhaseRunning \<and> hst_StartedAt (hr_Status hr) \<noteq> None
               then (HealthRequeue (5 * second), Some hr, None)
               else (case he_running_error env of
                       Some e \<Rightarrow> (HealthError (''failed to patch TeamHealthRequest running status: '' @ e), Some hr, None)
                     | None \<Rightarrow>
                         (let running = hr\<lparr>hr_Status := th_running env hr\<rparr> in
                          case th_final env hr of
                            None \<Rightarrow> (HealthPanic, Some running, None)
                          | Some (st, agg) \<Rightarrow>
                              (case he_patch_error env of
                                 Some e \<Rightarrow>
                                   (HealthError (if agg = None then e else ''failed to patch TeamHealthRequest status: '' @ e),
                                    Some running, None)
                               | None \<Rightarrow>
                                   (let final = hr\<lparr>hr_Status := st\<rparr> in
                                    (HealthDone, Some final,
                                     case agg of Some a \<Rightarrow> if hs_Notify (hr_Spec hr) \<noteq> [] \<and> he_notifiers env then Some (final, a) else None
                                     | None \<Rightarrow> None)))))))"

section \<open>Notifications\<close>

definition severityMet :: "string \<Rightarrow> int \<Rightarrow> int \<Rightarrow> bool" where
  "severityMet threshold critical warning =
     (if threshold = ''Critical'' then critical > 0
      else if threshold = ''Warning'' then critical > 0 \<or> warning > 0
      else True)"

definition validateNotificationURL :: "url_parser \<Rightarrow> (string \<rightharpoonup> string) \<Rightarrow> string \<Rightarrow> string option" where
  "validateNotificationURL parse_url annotations rawURL =
     (case parse_url rawURL of
        None \<Rightarrow> Some ''invalid webhook URL''
      | Some (scheme, host) \<Rightarrow>
          if host = [] then Some ''webhook URL must include a host''
          else if scheme \<noteq> ''https'' \<and> (scheme \<noteq> ''http'' \<or> \<not> allows_http annotations)
          then Some (''webhook URL must use HTTPS (annotate with '' @ AllowHTTPWebhooksAnnotation @ ''=true to override)'')
          else None)"

text \<open>The secrets of the cluster by namespace and name; \<open>configured\<close> is \<open>NotificationSecretNamespace\<close>.\<close>

type_synonym secrets = "string \<Rightarrow> string \<Rightarrow> (string \<rightharpoonup> string) option"

definition target_url :: "secrets \<Rightarrow> string \<Rightarrow> 's TeamHealthRequest \<Rightarrow> NotificationTarget \<Rightarrow> string" where
  "target_url secrets configured hr t =
     (if nt_URL t \<noteq> [] then nt_URL t
      else case nt_SecretRef t of
        None \<Rightarrow> []
      | Some (name, key) \<Rightarrow>
          (let ns = (if trim_space configured = [] then hr_Namespace hr else trim_space configured) in
           if configured \<noteq> [] \<and> hr_Namespace hr \<noteq> ns then []
           else case secrets ns name of None \<Rightarrow> [] | Some data \<Rightarrow> (case data key of None \<Rightarrow> [] | Some u \<Rightarrow> u)))"

definition notifier_for :: "string \<Rightarrow> string \<Rightarrow> notifier option" where
  "notifier_for typ url =
     (if typ = ''webhook'' then Some (WebhookNotifier url) else if typ = ''slack'' then Some (SlackNotifier url)
      else if typ = ''pagerduty'' then Some (PagerDutyNotifier url) else if typ = ''teams'' then Some (TeamsNotifier url)
      else None)"

definition target_notifier :: "url_parser \<Rightarrow> secrets \<Rightarrow> string \<Rightarrow> 's TeamHealthRequest \<Rightarrow> int \<Rightarrow> int \<Rightarrow>
    NotificationTarget \<Rightarrow> notifier option" where
  "target_notifier parse_url secrets configured hr critical warning t =
     (if \<not> nt_OnCompletion t then None
      else if nt_OnSeverity t \<noteq> [] \<and> \<not> severityMet (nt_OnSeverity t) critical warning then None
      else let url = target_url secrets configured hr t in
        if url = [] then None
        else if nt_Type t \<noteq> ''pagerduty'' \<and> validateNotificationURL parse_url (hr_Annotations hr) url \<noteq> None then None
        else notifier_for (nt_Type t) url)"

definition health_notification :: "time \<Rightarrow> 's TeamHealthRequest \<Rightarrow> aggregationResult \<Rightarrow> Notification" where
  "health_notification now hr a =
     \<lparr>no_Summary = hst_Summary (hr_Status hr), no_TotalHealthy = ar_totalHealthy a, no_TotalIssues = ar_totalIssues a,
      no_CriticalCount = ar_criticalCount a, no_WarningCount = ar_warningCount a,
      no_HealthScore = (if ar_totalHealthy a + ar_totalIssues a > 0
        then fmul (fdiv (float64 (ar_totalHealthy a)) (float64 (ar_totalHealthy a + ar_totalIssues a))) 100 else 100),
      no_Timestamp = now, no_RequestName = hr_Name hr, no_Namespace = hr_Namespace hr\<rparr>"

text \<open>What is delivered: the notifiers of the targets in their order, each sent to.\<close>

definition dispatchNotifications :: "net_env \<Rightarrow> secrets \<Rightarrow> string \<Rightarrow> time \<Rightarrow> 's TeamHealthRequest \<Rightarrow> aggregationResult \<Rightarrow>
    delivery list" where
  "dispatchNotifications net secrets configured now hr a =
     List.map_filter (\<lambda>n. snd (Send n net (health_notification now hr a)))
       (List.map_filter (target_notifier (ne_parse_url net) secrets configured hr (ar_criticalCount a) (ar_warningCount a))
          (hs_Notify (hr_Spec hr)))"

text \<open>The semaphore: the permits taken and their number; without a semaphore (\<open>None\<close>) every dispatch starts.\<close>

definition launchNotifications :: "(nat \<times> nat) option \<Rightarrow> bool \<times> (nat \<times> nat) option" where
  "launchNotifications sem =
     (case sem of None \<Rightarrow> (True, None)
      | Some (taken, permits) \<Rightarrow> if taken < permits then (True, Some (taken + 1, permits)) else (False, sem))"

section \<open>A request runs once\<close>

definition th_step :: "'s th_env \<Rightarrow> 's TeamHealthRequest option \<Rightarrow> 's TeamHealthRequest option" where
  "th_step env s = fst (snd (th_Reconcile env s))"

definition th_phase :: "'s TeamHealthRequest \<Rightarrow> phase" where
  "th_phase hr = hst_Phase (hr_Status hr)"

definition th_started :: "'s TeamHealthRequest \<Rightarrow> bool" where
  "th_started hr \<longleftrightarrow> hst_StartedAt (hr_Status hr) \<noteq> None"

text \<open>Reconciles in a row: the request and what was notified about.\<close>

fun th_run :: "'s th_env list \<Rightarrow> 's TeamHealthRequest option \<Rightarrow>
    's TeamHealthRequest option \<times> ('s TeamHealthRequest \<times> aggregationResult) list" where
  "th_run [] s = (s, [])"
| "th_run (env # envs) s =
     (let (_, s', note) = th_Reconcile env s; (s'', notes) = th_run envs s'
      in (s'', (case note of None \<Rightarrow> notes | Some n \<Rightarrow> n # notes)))"

lemma th_condition_keeps [simp]:
  "hst_Phase (th_condition hr t b r m st) = hst_Phase st"
  "hst_StartedAt (th_condition hr t b r m st) = hst_StartedAt st"
  "hst_Summary (th_condition hr t b r m st) = hst_Summary st"
  "hst_Results (th_condition hr t b r m st) = hst_Results st"
  "hst_CompletedAt (th_condition hr t b r m st) = hst_CompletedAt st"
  "hst_NamespacesChecked (th_condition hr t b r m st) = hst_NamespacesChecked st"
  by (simp_all add: th_condition_def)

lemma namespaces_condition_keeps [simp]:
  "hst_StartedAt (namespaces_condition hr n st) = hst_StartedAt st"
  "hst_NamespacesChecked (namespaces_condition hr n st) = hst_NamespacesChecked st"
  by (simp_all add: namespaces_condition_def)

lemma th_complete_ends:
  "th_complete env hr found st = Some (st', agg) \<Longrightarrow> hst_Phase st' = PhaseCompleted \<and> hst_StartedAt st' = hst_StartedAt st"
  by (auto simp: th_complete_def Let_def split: option.splits)

lemma th_final_ends:
  "th_final env hr = Some (st, agg) \<Longrightarrow> finished (hst_Phase st) \<and> hst_StartedAt st \<noteq> None"
  by (auto simp: th_final_def th_setFailed_def th_running_def finished_def Let_def dest!: th_complete_ends
      split: sum.splits if_splits option.splits)

interpretation th: one_shot_controller th_step th_phase th_started
proof
  fix env :: "'a th_env" and r r'
  show "th_step env None = None" by (simp add: th_step_def th_Reconcile_def)
  show "finished (th_phase r) \<Longrightarrow> th_step env (Some r) = Some r \<or> th_step env (Some r) = None"
    by (auto simp: th_step_def th_Reconcile_def th_phase_def split: option.splits ttl_decision.splits)
  show "th_phase r = PhaseRunning \<Longrightarrow> th_started r \<Longrightarrow> th_step env (Some r) = Some r"
    by (auto simp: th_step_def th_Reconcile_def th_phase_def th_started_def finished_def split: option.splits)
  show "th_step env (Some r) = Some r' \<Longrightarrow> r' = r \<or> th_started r' \<and> (th_phase r' = PhaseRunning \<or> finished (th_phase r'))"
    by (auto simp: th_step_def th_Reconcile_def th_phase_def th_started_def th_running_def Let_def dest!: th_final_ends
        split: option.splits ttl_decision.splits if_splits)
qed

text \<open>A request that no reconcile serves any more: finished, or running since a known time.\<close>

definition th_settled :: "'s TeamHealthRequest \<Rightarrow> bool" where
  "th_settled hr \<longleftrightarrow> finished (th_phase hr) \<or> th_phase hr = PhaseRunning \<and> th_started hr"

text \<open>The stored request after each reconcile.\<close>

fun th_states :: "'s th_env list \<Rightarrow> 's TeamHealthRequest option \<Rightarrow> 's TeamHealthRequest option list" where
  "th_states [] s = []"
| "th_states (env # envs) s = th_step env s # th_states envs (th_step env s)"

abbreviation th_note :: "'s th_env \<Rightarrow> 's TeamHealthRequest option \<Rightarrow> ('s TeamHealthRequest \<times> aggregationResult) option" where
  "th_note env s \<equiv> snd (snd (th_Reconcile env s))"

lemma th_run_Cons: "th_run (env # envs) s =
  (fst (th_run envs (th_step env s)),
   (case th_note env s of None \<Rightarrow> [] | Some n \<Rightarrow> [n]) @ snd (th_run envs (th_step env s)))"
  by (simp add: case_prod_unfold Let_def th_step_def split: option.split)

declare th_run.simps(2) [simp del] and th_run_Cons [simp]

lemma th_final_completed: "th_final env hr = Some (st, Some agg) \<Longrightarrow> hst_Phase st = PhaseCompleted"
  by (auto simp: th_final_def Let_def dest!: th_complete_ends split: sum.splits if_splits)

text \<open>One reconcile: nothing, a deletion, or the request settles; only a completion notifies, about what it stored.\<close>

lemma th_settles:
  "th_note env s = None \<and> (th_step env s = s \<or> th_step env s = None) \<or>
   (\<exists>r'. th_step env s = Some r' \<and> th_settled r' \<and>
     (th_note env s = None \<or> (\<exists>agg. th_note env s = Some (r', agg) \<and> th_phase r' = PhaseCompleted)))"
proof (cases "th_note env s")
  case None
  then show ?thesis
    using th.moves_on [of env "the s"] by (cases s; cases "th_step env s") (auto simp: th_settled_def th.gone)
next
  case (Some n)
  then have "\<exists>r' agg. th_step env s = Some r' \<and> th_note env s = Some (r', agg) \<and> th_phase r' = PhaseCompleted"
    by (cases s) (auto simp: th_step_def th_Reconcile_def th_phase_def Let_def dest: th_final_completed
        split: option.splits ttl_decision.splits if_splits)
  then show ?thesis by (auto simp: th_settled_def finished_def)
qed

lemma settled_step:
  assumes "th_settled r"
  shows "th_note env (Some r) = None" "th_step env (Some r) = Some r \<or> th_step env (Some r) = None"
proof -
  show "th_note env (Some r) = None"
    using assms by (auto simp: th_settled_def th_phase_def th_started_def th_Reconcile_def split: option.splits ttl_decision.splits)
  show "th_step env (Some r) = Some r \<or> th_step env (Some r) = None"
    using assms th.finished_kept [of r env] th.running_skipped [of r env] unfolding th_settled_def by auto
qed

lemma gone_states: "th_states envs None = replicate (length envs) None" "snd (th_run envs None) = []"
  by (induction envs) (simp_all add: th.gone th_run_Cons Let_def, simp add: th_Reconcile_def)

lemma settled_silent: "th_settled r \<Longrightarrow> snd (th_run envs (Some r)) = []"
proof (induction envs)
  case (Cons env envs)
  then show ?case using settled_step [OF Cons.prems, of env] by (auto simp: th_run_Cons gone_states)
qed simp

lemma settled_states:
  assumes "th_settled r"
  shows "\<exists>b c. th_states envs (Some r) = replicate b (Some r) @ replicate c None"
proof (induction envs)
  case Nil
  have "th_states [] (Some r) = replicate 0 (Some r) @ replicate 0 None" by simp
  then show ?case by blast
next
  case (Cons env envs)
  then obtain b c where ih: "th_states envs (Some r) = replicate b (Some r) @ replicate c None" by blast
  from settled_step(2) [OF assms, of env] show ?case
  proof
    assume "th_step env (Some r) = Some r"
    then have "th_states (env # envs) (Some r) = replicate (Suc b) (Some r) @ replicate c None" by (simp add: ih)
    then show ?thesis by blast
  next
    assume "th_step env (Some r) = None"
    then have "th_states (env # envs) (Some r) = replicate 0 (Some r) @ replicate (Suc (length envs)) None"
      by (simp add: gone_states)
    then show ?thesis by blast
  qed
qed

text \<open>C11. A team health request changes at most once and is notified about at most once: over any sequence of
  reconciles, under any answers and at any times, the stored request is the one it was, then one other request (in
  which it is completed, failed or running), then deleted; at most one of the reconciles dispatches
  notifications, and it does so about the completed request that it has just stored.\<close>

theorem notified_at_most_once:
  "\<exists>a b c r'. th_states envs s = replicate a s @ replicate b (Some r') @ replicate c None \<and>
    (snd (th_run envs s) = [] \<or> (\<exists>agg. snd (th_run envs s) = [(r', agg)] \<and> b > 0 \<and> th_phase r' = PhaseCompleted))"
proof (induction envs arbitrary: s)
  case Nil
  have "th_states [] s = replicate 0 s @ replicate 0 (Some undefined) @ replicate 0 None \<and> snd (th_run [] s) = []" by simp
  then show ?case by blast
next
  case (Cons env envs)
  let ?s = "th_step env s"
  consider (same) "th_note env s = None" "?s = s" | (gone) "th_note env s = None" "?s = None"
    | (settles) r' where "?s = Some r'" "th_settled r'"
        "th_note env s = None \<or> (\<exists>agg. th_note env s = Some (r', agg) \<and> th_phase r' = PhaseCompleted)"
    using th_settles [of env s] by metis
  then show ?case
  proof cases
    case same
    from Cons.IH [of s] obtain a b c r' where
      "th_states envs s = replicate a s @ replicate b (Some r') @ replicate c None"
      "snd (th_run envs s) = [] \<or> (\<exists>agg. snd (th_run envs s) = [(r', agg)] \<and> b > 0 \<and> th_phase r' = PhaseCompleted)"
      by blast
    then show ?thesis using same
      by (intro exI [of _ "Suc a"] exI [of _ b] exI [of _ c] exI [of _ r']) (simp add: th_run_Cons)
  next
    case gone
    then show ?thesis
      by (intro exI [of _ 0] exI [of _ "Suc (length envs)"]) (simp add: th_run_Cons gone_states)
  next
    case (settles r')
    obtain b c where "th_states envs (Some r') = replicate b (Some r') @ replicate c None"
      using settled_states [OF settles(2)] by blast
    then show ?thesis using settles settled_silent [OF settles(2), of envs]
      by (intro exI [of _ 0] exI [of _ "Suc b"] exI [of _ c] exI [of _ r']) (auto simp: th_run_Cons)
  qed
qed

text \<open>No reconcile stores the generation that it observed.\<close>

lemma observed_generation_never_stored:
  "hst_ObservedGeneration (th_running env hr) = hst_ObservedGeneration (hr_Status hr)"
  "th_final env hr = Some (st, agg) \<Longrightarrow> hst_ObservedGeneration st = hst_ObservedGeneration (hr_Status hr)"
  by (auto simp: th_running_def th_final_def th_setFailed_def th_condition_def th_complete_def namespaces_condition_def Let_def
      split: sum.splits if_splits option.splits)

section \<open>The totals\<close>

text \<open>A sum over the results without error of a function of the healthy count and the severities.\<close>

definition totals :: "(int \<Rightarrow> string list \<Rightarrow> int) \<Rightarrow> (string \<times> 'm CheckResult option) list \<Rightarrow> int" where
  "totals f rs = sum_list (map (\<lambda>(_, ro).
     (case ro of None \<Rightarrow> 0
      | Some r \<Rightarrow> if cr_Error r = None then f (cr_Healthy r) (map iss_Severity (cr_Issues r)) else 0)) rs)"

abbreviation healthy_total :: "(string \<times> 'm CheckResult option) list \<Rightarrow> int" where
  "healthy_total \<equiv> totals (\<lambda>h ss. h)"

abbreviation issue_total :: "(string \<times> 'm CheckResult option) list \<Rightarrow> int" where
  "issue_total \<equiv> totals (\<lambda>h ss. int (length ss))"

abbreviation severity_count :: "string \<Rightarrow> (string \<times> 'm CheckResult option) list \<Rightarrow> int" where
  "severity_count s \<equiv> totals (\<lambda>h ss. int (length (filter (\<lambda>x. x = s) ss)))"

definition same_counts :: "string \<times> 'm CheckResult option \<Rightarrow> string \<times> 'n CheckResult option \<Rightarrow> bool" where
  "same_counts x y \<longleftrightarrow> fst x = fst y \<and> rel_option (\<lambda>r q. cr_Healthy r = cr_Healthy q \<and> cr_Error r = cr_Error q \<and>
     map iss_Severity (cr_Issues r) = map iss_Severity (cr_Issues q)) (snd x) (snd y)"

lemma totals_same: "list_all2 same_counts rs qs \<Longrightarrow> totals f rs = totals f qs"
proof (induction rs qs rule: list_all2_induct)
  case (Cons x xs y ys)
  then show ?case by (cases x; cases y) (auto simp: totals_def same_counts_def elim!: option.rel_cases)
qed (simp add: totals_def)

lemma same_counts_names: "list_all2 same_counts rs qs \<Longrightarrow> map fst rs = map fst qs"
  by (induction rs qs rule: list_all2_induct) (auto simp: same_counts_def)

lemma same_counts_nil:
  "list_all2 same_counts rs qs \<Longrightarrow> list_all (\<lambda>(n, ro). ro \<noteq> None) rs = list_all (\<lambda>(n, ro). ro \<noteq> None) qs"
  by (induction rs qs rule: list_all2_induct) (auto simp: same_counts_def elim!: option.rel_cases)

lemma kept_same_counts: "results_kept rs qs \<Longrightarrow> list_all2 same_counts rs qs"
proof -
  have "map iss_Severity is = map iss_Severity js" if "list_all2 issue_kept is js" for "is" js :: "'a Issue list"
    using that by (induction "is" js rule: list_all2_induct) (auto simp: issue_kept_def)
  then show "results_kept rs qs \<Longrightarrow> list_all2 same_counts rs qs"
    unfolding results_kept_def
    by (elim list_all2_mono) (auto simp: same_counts_def result_kept_def elim!: option.rel_mono_strong)
qed

lemma severities_of_stored:
  "map iss_Severity (snd (snd (fold put_address is (next, meta, js)))) = map iss_Severity js @ map iss_Severity is"
  by (induction "is" arbitrary: "next" meta js) (simp_all add: put_address_def Let_def split: option.split)

lemma store_results_same: "list_all2 same_counts rs (en_results (store_results rs next meta))"
proof (induction rs "next" meta rule: store_results.induct)
  case (3 n r rs "next" meta)
  then show ?case
    using severities_of_stored [of "cr_Issues r" "next" meta "[]"]
    by (auto simp: store_result_def Let_def case_prod_unfold same_counts_def)
qed (auto simp: same_counts_def Let_def)

lemma aggregate_totals:
  assumes "list_all (\<lambda>(n, ro). ro \<noteq> None) rs"
  shows "\<exists>agg'. aggregateResults rs agg = Some agg' \<and>
    ar_totalHealthy agg' = ar_totalHealthy agg + healthy_total rs \<and>
    ar_totalIssues agg' = ar_totalIssues agg + issue_total rs \<and>
    ar_criticalCount agg' = ar_criticalCount agg + severity_count SeverityCritical rs \<and>
    ar_warningCount agg' = ar_warningCount agg + severity_count SeverityWarning rs \<and>
    dom (ar_apiResults agg') = dom (ar_apiResults agg) \<union> fst ` set rs"
  using assms
proof (induction rs agg rule: aggregateResults.induct)
  case (3 name r rs agg)
  then show ?case
    by (cases "cr_Error r") (force simp: totals_def Let_def count_severity_def filter_map comp_def)+
qed (auto simp: totals_def)

text \<open>A check that can run completes and counts right: when the scope resolves to namespaces, no checker
  answers nil and the provider never does, the request completes with at most 50 namespaces; every checker that
  was asked for has a result; the totals are those of the checkers that did not fail, and the advice of the
  provider changes none of them.\<close>

theorem teamhealth_completes:
  assumes "ResolveNamespaces (he_source env) (hr_Namespace hr) (hs_Scope (hr_Spec hr)) = Inr found" "found \<noteq> []"
    and "range_order (he_names env)"
    and "list_all (\<lambda>(n, ro). ro \<noteq> None) (th_results env (hr_Spec hr) (take MaxNamespaces found))"
    and "\<And>req. ec_analyze (he_ai env) req \<noteq> Inr None"
  shows "\<exists>st agg. th_final env hr = Some (st, Some agg) \<and> hst_Phase st = PhaseCompleted \<and>
    hst_NamespacesChecked st = take 50 found \<and>
    dom (hst_Results st) = fst ` set (th_results env (hr_Spec hr) (take 50 found)) \<and>
    ar_totalHealthy agg = healthy_total (th_results env (hr_Spec hr) (take 50 found)) \<and>
    ar_totalIssues agg = issue_total (th_results env (hr_Spec hr) (take 50 found)) \<and>
    ar_criticalCount agg = severity_count SeverityCritical (th_results env (hr_Spec hr) (take 50 found)) \<and>
    ar_warningCount agg = severity_count SeverityWarning (th_results env (hr_Spec hr) (take 50 found))"
proof -
  define rs where "rs = th_results env (hr_Spec hr) (take MaxNamespaces found)"
  define st0 where "st0 = store_results rs 0 Map.empty"
  have same0: "list_all2 same_counts rs (en_results st0)" by (simp add: st0_def store_results_same)
  have "distinct (map fst rs)"
    by (simp add: rs_def th_results_def Let_def comp_def range_order_distinct [OF assms(3)])
  then have d: "distinct (map fst (en_results st0))" by (simp add: same_counts_names [OF same0, symmetric])
  have n: "list_all (\<lambda>(n, ro). ro \<noteq> None) (en_results st0)"
    using assms(4) same_counts_nil [OF same0] by (simp add: rs_def)
  have "\<exists>qs. th_enhance env rs = Some qs \<and> results_kept (en_results st0) qs"
  proof (cases "ec_available (he_ai env) = Some True")
    case True
    have "\<exists>out st'. EnhanceAllWithAI ((he_ai env)\<lparr>ec_enabled := True, ec_causal := th_causal env rs\<rparr>) st0 = Some (out, st') \<and>
        results_kept (en_results st0) (en_results st') \<and> 0 \<le> eo_enhanced out \<and>
        eo_enhanced out \<le> min (eo_total out) (max_issues ((he_ai env)\<lparr>ec_enabled := True, ec_causal := th_causal env rs\<rparr>))"
      using assms(5) by (intro enhance_all_kept [OF d n]) simp
    then show ?thesis using True by (auto simp: th_enhance_def Let_def st0_def)
  qed (simp add: th_enhance_def Let_def st0_def)
  then obtain qs where qs: "th_enhance env rs = Some qs" and kept: "results_kept (en_results st0) qs" by blast
  have same: "list_all2 same_counts (en_results st0) qs" by (rule kept_same_counts [OF kept])
  obtain agg where agg: "aggregateResults qs no_aggregate = Some agg"
    "ar_totalHealthy agg = healthy_total qs" "ar_totalIssues agg = issue_total qs"
    "ar_criticalCount agg = severity_count SeverityCritical qs" "ar_warningCount agg = severity_count SeverityWarning qs"
    "dom (ar_apiResults agg) = fst ` set qs"
    using aggregate_totals [of qs no_aggregate] n same_counts_nil [OF same] by (auto simp: no_aggregate_def)
  have t: "totals f qs = totals f rs" for f
    using totals_same [OF same] totals_same [OF same0] by simp
  have names: "fst ` set qs = fst ` set rs"
    using same_counts_names [OF same] same_counts_names [OF same0] by (metis list.set_map)
  show ?thesis
    using assms(1,2) qs agg names
    by (simp add: th_final_def th_complete_def Let_def rs_def [symmetric] t MaxNamespaces_def [symmetric])
qed

section \<open>Who is notified\<close>

definition url_allowed :: "url_parser \<Rightarrow> (string \<rightharpoonup> string) \<Rightarrow> string \<Rightarrow> bool" where
  "url_allowed parse_url annotations url \<longleftrightarrow>
     (\<exists>scheme host. parse_url url = Some (scheme, host) \<and> host \<noteq> [] \<and>
        (scheme = ''https'' \<or> scheme = ''http'' \<and> allows_http annotations))"

lemma validateNotificationURL_None: "validateNotificationURL parse_url annotations url = None \<longleftrightarrow> url_allowed parse_url annotations url"
  by (auto simp: validateNotificationURL_def url_allowed_def split: option.splits)

text \<open>The address is the one that was dialled for the host and the port of the URL.\<close>

definition dialled :: "net_env \<Rightarrow> string \<Rightarrow> delivery \<Rightarrow> bool" where
  "dialled net url d \<longleftrightarrow> newSafeDialContext net (host_of net url) (ne_port net url) = Inr (fst d)"

lemma send_payload_dialled: "pred_option (dialled net url) (snd (send_payload what name net url body))"
  by (simp add: send_payload_def dialled_def split: option.split sum.split)

lemma Send_dialled:
  "pred_option (dialled net (case n of PagerDutyNotifier key \<Rightarrow> pagerDutyEventsURL | WebhookNotifier url \<Rightarrow> url
     | SlackNotifier url \<Rightarrow> url | TeamsNotifier url \<Rightarrow> url)) (snd (Send n net msg))"
  by (cases n) (simp_all add: Send_def webhook_Send_def slack_Send_def teams_Send_def pagerduty_Send_def send_payload_dialled)

text \<open>C21. A notifier is made only for a target that asks for it: one that wants completions, whose severity is met,
  and whose URL has a host and HTTPS (or HTTP where the annotation allows it), and it delivers only to an address
  dialled for that URL; PagerDuty alone takes its key unchecked, and delivers only to an address dialled for the
  events URL of PagerDuty. When a secret namespace is configured (not only blanks), the secrets are never read for
  a request of another namespace.\<close>

theorem notification_targets_checked:
  assumes "target_notifier (ne_parse_url net) secrets configured hr critical warning t = Some n"
  shows "nt_OnCompletion t \<and> severityMet (nt_OnSeverity t) critical warning \<and>
    (case n of
       PagerDutyNotifier key \<Rightarrow> nt_Type t = ''pagerduty'' \<and>
         pred_option (dialled net ''https://events.pagerduty.com/v2/enqueue'') (snd (Send n net msg))
     | WebhookNotifier url \<Rightarrow> url_allowed (ne_parse_url net) (hr_Annotations hr) url \<and> pred_option (dialled net url) (snd (Send n net msg))
     | SlackNotifier url \<Rightarrow> url_allowed (ne_parse_url net) (hr_Annotations hr) url \<and> pred_option (dialled net url) (snd (Send n net msg))
     | TeamsNotifier url \<Rightarrow> url_allowed (ne_parse_url net) (hr_Annotations hr) url \<and> pred_option (dialled net url) (snd (Send n net msg))) \<and>
    (if configured \<noteq> [] \<and> trim_space configured \<noteq> hr_Namespace hr \<and> trim_space configured \<noteq> []
     then target_notifier (ne_parse_url net) secrets' configured hr critical warning t = Some n else True)"
proof -
  have s: "severityMet [] critical warning" by (simp add: severityMet_def)
  have "target_url secrets' configured hr t = target_url secrets configured hr t"
    if "configured \<noteq> []" "trim_space configured \<noteq> hr_Namespace hr" "trim_space configured \<noteq> []"
    using that by (auto simp: target_url_def Let_def split: option.split)
  moreover note Send_dialled [of net n msg]
  ultimately show ?thesis
    using assms s
    by (auto simp: target_notifier_def notifier_for_def validateNotificationURL_None pagerDutyEventsURL_def Let_def split: if_splits)
qed

text \<open>A routing key is not a URL: where the documentation puts it, in the URL of the target, the webhook of team
  health requests rejects it unless plain HTTP is allowed.\<close>

lemma routing_key_rejected:
  assumes "nt_URL t \<noteq> []" "parse_url (nt_URL t) = Some (scheme, host)" "scheme \<noteq> ''https''" "\<not> allows_http annotations"
  shows "validate_target parse_url annotations path t \<noteq> []"
  using assms by (simp add: validate_target_def)

text \<open>With the annotation the webhook admits any scheme, but only HTTP and HTTPS are ever delivered to.\<close>

lemma admitted_but_never_sent:
  assumes "nt_URL t \<noteq> []" "nt_SecretRef t = None" "parse_url (nt_URL t) = Some (scheme, host)" "scheme \<notin> {''http'', ''https''}"
    and "allows_http (hr_Annotations hr)" "nt_Type t \<noteq> ''pagerduty''"
  shows "validate_target parse_url (hr_Annotations hr) path t = [] \<and>
    target_notifier parse_url secrets configured hr critical warning t = None"
  using assms by (auto simp: validate_target_def target_notifier_def target_url_def validateNotificationURL_None url_allowed_def Let_def)

text \<open>When every checker fails, the request completes and says that all resources are healthy.\<close>

lemma all_failed_all_healthy:
  assumes "list_all (\<lambda>(n, ro). case ro of Some r \<Rightarrow> cr_Error r \<noteq> None | None \<Rightarrow> False) rs"
  shows "\<exists>agg. aggregateResults rs no_aggregate = Some agg \<and>
    th_generateSummary (ar_totalHealthy agg) (ar_totalIssues agg) (ar_criticalCount agg) (ar_warningCount agg) =
      ''All 0 resource(s) healthy - no issues found''"
proof -
  have "list_all (\<lambda>(n, ro). ro \<noteq> None) rs" using assms by (auto simp: list_all_iff split: option.splits)
  moreover have "healthy_total rs = 0" "issue_total rs = 0"
    using assms by (induction rs) (auto simp: totals_def split: option.splits)
  moreover have "itoa 0 = ''0''" by (rule itoa_values)
  ultimately show ?thesis
    using aggregate_totals [of rs no_aggregate] by (auto simp: th_generateSummary_def no_aggregate_def)
qed

section \<open>Examples\<close>

definition ex_hr :: "bool TeamHealthRequest" where
  "ex_hr = \<lparr>hr_Name = ''weekly'', hr_Namespace = ''shop'', hr_Generation = 1, hr_Annotations = Map.empty,
     hr_Spec = \<lparr>hs_Scope = \<lparr>sc_Namespaces = [], sc_NamespaceSelector = None, sc_CurrentNamespaceOnly = True\<rparr>,
       hs_Checks = [''pvcs'', ''bad''], hs_Config = \<lparr>kc_Workloads = None, kc_Secrets = None, kc_Quotas = None, kc_PVCs = None\<rparr>,
       hs_TTL = None, hs_Notify = []\<rparr>,
     hr_Status = \<lparr>hst_ObservedGeneration = 0, hst_Phase = PhaseNone, hst_Summary = [], hst_Results = Map.empty,
       hst_NamespacesChecked = [], hst_LastCheckTime = None, hst_StartedAt = None, hst_CompletedAt = None, hst_Conditions = []\<rparr>\<rparr>"

definition ex_th_env :: "bool th_env" where
  "ex_th_env = \<lparr>he_fetch_error = None, he_delete_error = None, he_running_error = None, he_patch_error = None,
     he_now = 1, he_correlated = 2, he_done = 3, he_source = ex_source, he_checkers = (\<lambda>_ _. example_registry),
     he_list_order = rev, he_arrive = rev, he_names = rev, he_correlator = None, he_causal_orders = ex_orders, he_ai = enh_ctx,
     he_notifiers = True\<rparr>"

lemma ex_th_results:
  "th_results ex_th_env (hr_Spec ex_hr) nss = [(''bad'', run_one example_registry ''bad''), (''pvcs'', run_one example_registry ''pvcs'')]"
  by (simp add: th_results_def ex_th_env_def ex_hr_def getCheckerNames_def RunAll_def)

lemma teamhealth_completes_witness:
  "\<exists>st agg. th_final ex_th_env ex_hr = Some (st, Some agg) \<and> hst_Phase st = PhaseCompleted \<and>
    dom (hst_Results st) = {''pvcs'', ''bad''} \<and> ar_totalIssues agg = 0"
proof -
  have bad: "run_one example_registry ''bad'' \<noteq> None" "run_one example_registry ''pvcs'' = Some (no_result ''pvcs'')"
    by (simp_all add: run_one_def Run_def registry_Get_def example_registry_eval)
  have "\<exists>e. run_one example_registry ''bad'' = Some (failed_result ''bad'' e)"
    unfolding run_one_def Run_def registry_Get_def example_registry_eval by (simp, blast)
  then have "issue_total [(''bad'', run_one example_registry ''bad''), (''pvcs'', run_one example_registry ''pvcs'')] = 0"
    using bad(2) by (auto simp: totals_def failed_result_def no_result_def)
  moreover have "ResolveNamespaces (he_source ex_th_env) (hr_Namespace ex_hr) (hs_Scope (hr_Spec ex_hr)) = Inr [''shop'']"
    by (simp add: ResolveNamespaces_def ex_hr_def)
  moreover have "range_order (he_names ex_th_env)" "\<And>req. ec_analyze (he_ai ex_th_env) req \<noteq> Inr None"
    by (simp_all add: ex_th_env_def enh_ctx_def)
  moreover have "list_all (\<lambda>(n, ro). ro \<noteq> None) (th_results ex_th_env (hr_Spec ex_hr) (take MaxNamespaces [''shop'']))"
    using bad by (simp add: ex_th_results)
  ultimately show ?thesis
    using teamhealth_completes [of ex_th_env ex_hr "[''shop'']"] by (auto simp: ex_th_results)
qed

definition ex_net :: net_env where
  "ex_net = \<lparr>ne_parse_url = (\<lambda>u. Some (''https'', take 11 (drop 8 u))), ne_request_error = (\<lambda>_. None), ne_port = (\<lambda>_. ''443''),
     ne_lookup = (\<lambda>_. Inr [IPv4 34 1 2 3]), ne_connect = (\<lambda>_ _. True), ne_answer = (\<lambda>_ _ _. Inr 202), ne_show_ip = (\<lambda>_. [])\<rparr>"

definition ex_target :: NotificationTarget where
  "ex_target = \<lparr>nt_Type = ''pagerduty'', nt_URL = [], nt_SecretRef = Some (''pager'', ''key''), nt_OnCompletion = True,
     nt_OnSeverity = ''Warning''\<rparr>"

lemma notification_targets_checked_witness:
  "target_notifier (ne_parse_url ex_net) (\<lambda>_ _. Some (\<lambda>_. Some ''R0''))  [] ex_hr 0 2 ex_target = Some (PagerDutyNotifier ''R0'') \<and>
   severityMet ''Warning'' 0 2 \<and>
   pred_option (dialled ex_net ''https://events.pagerduty.com/v2/enqueue'')
     (snd (Send (PagerDutyNotifier ''R0'') ex_net (health_notification 7 ex_hr no_aggregate)))"
proof -
  have t: "target_notifier (ne_parse_url ex_net) (\<lambda>_ _. Some (\<lambda>_. Some ''R0'')) [] ex_hr 0 2 ex_target = Some (PagerDutyNotifier ''R0'')"
    by (simp add: ex_target_def ex_hr_def target_notifier_def target_url_def severityMet_def notifier_for_def)
  show ?thesis using t notification_targets_checked [OF t] by (simp add: ex_target_def)
qed

end
