(* ===== verification/Plugin_Controller.thy ===== *)
theory Plugin_Controller
  imports Admission
begin

text \<open>
  The controller of check plugins (\<open>internal/controller/checkplugin_controller.go\<close>): a reconcile fetches the
  object, keeps the finalizer, compiles the rules and registers the checker. What the API server answers is the
  environment of a reconcile; the outcome of a registered checker's next run is the parameter \<open>run\<close>.
\<close>

record check_plugin =
  cp_Namespace :: string
  cp_Name :: string
  cp_DisplayName :: string
  cp_Deleting :: bool
  cp_Finalizer :: bool
  cp_Spec :: CheckPluginSpec
  cp_Ready :: bool
  cp_Error :: string

datatype fetch = NotFound | FetchError string | Found check_plugin

datatype recorded = PluginUnregistered string | CompilationFailed string string | PluginRegistered string int

text \<open>The answers to the fetch and to the two patches (an error or none), and whether there is a recorder.\<close>

record plugin_env =
  pe_fetch :: fetch
  pe_finalizer_patch :: "string option"
  pe_status_patch :: "string option"
  pe_recorder :: bool

record plugin_outcome =
  po_error :: "string option"
  po_registry :: Registry
  po_events :: "recorded list"
  po_plugin :: "check_plugin option"     \<comment> \<open>the object as the API server stores it afterwards\<close>

definition updateStatus :: "plugin_env \<Rightarrow> bool \<Rightarrow> string \<Rightarrow> check_plugin \<Rightarrow> string option \<times> check_plugin" where
  "updateStatus env ready msg cp =
     (case pe_status_patch env of
        Some e \<Rightarrow> (Some e, cp)
      | None \<Rightarrow> (None, cp\<lparr>cp_Ready := ready, cp_Error := msg\<rparr>))"

definition registry_key :: "check_plugin \<Rightarrow> string" where
  "registry_key cp = ''plugin:'' @ cp_Name cp"

definition plugin_checker :: "('p PluginChecker \<Rightarrow> check_outcome) \<Rightarrow> 'p PluginChecker \<Rightarrow> Checker" where
  "plugin_checker run pc = \<lparr>ck_Name = plugin_Name pc, ck_Supports = True, ck_Check = run pc\<rparr>"

definition finish :: "plugin_env \<Rightarrow> recorded \<Rightarrow> Registry \<Rightarrow> bool \<Rightarrow> string \<Rightarrow> check_plugin \<Rightarrow> plugin_outcome" where
  "finish env ev reg ready msg cp =
     (let (e, cp') = updateStatus env ready msg cp
      in \<lparr>po_error = e, po_registry = reg, po_events = (if pe_recorder env then [ev] else []), po_plugin = Some cp'\<rparr>)"

definition compile_and_register :: "string option \<Rightarrow> ('p, 'obj) cel \<Rightarrow> ('p PluginChecker \<Rightarrow> check_outcome) \<Rightarrow>
    plugin_env \<Rightarrow> Registry \<Rightarrow> check_plugin \<Rightarrow> plugin_outcome" where
  "compile_and_register envError cel run env reg cp =
     (case NewPluginChecker envError cel (cp_Name cp) (cp_Spec cp) of
        Inl e \<Rightarrow> finish env (CompilationFailed (cp_DisplayName cp) e) reg False e cp
      | Inr pc \<Rightarrow>
          finish env (PluginRegistered (cp_DisplayName cp) (int (length (sp_Rules (cp_Spec cp)))))
            (Replace (plugin_checker run pc) reg) True [] cp)"

definition plugin_Reconcile :: "string option \<Rightarrow> ('p, 'obj) cel \<Rightarrow> ('p PluginChecker \<Rightarrow> check_outcome) \<Rightarrow>
    plugin_env \<Rightarrow> Registry \<Rightarrow> plugin_outcome" where
  "plugin_Reconcile envError cel run env reg =
     (case pe_fetch env of
        NotFound \<Rightarrow> \<lparr>po_error = None, po_registry = reg, po_events = [], po_plugin = None\<rparr>
      | FetchError e \<Rightarrow>
          \<lparr>po_error = Some (''failed to fetch CheckPlugin: '' @ e), po_registry = reg, po_events = [], po_plugin = None\<rparr>
      | Found cp \<Rightarrow>
          if cp_Deleting cp
          then (if cp_Finalizer cp
            then (let reg' = snd (Unregister (registry_key cp) reg);
                      evs = (if pe_recorder env then [PluginUnregistered (cp_DisplayName cp)] else [])
                  in case pe_finalizer_patch env of
                    Some e \<Rightarrow> \<lparr>po_error = Some (''failed to remove finalizer from CheckPlugin: '' @ e),
                      po_registry = reg', po_events = evs, po_plugin = Some cp\<rparr>
                  | None \<Rightarrow> \<lparr>po_error = None, po_registry = reg', po_events = evs, po_plugin = Some (cp\<lparr>cp_Finalizer := False\<rparr>)\<rparr>)
            else \<lparr>po_error = None, po_registry = reg, po_events = [], po_plugin = Some cp\<rparr>)
          else if cp_Finalizer cp then compile_and_register envError cel run env reg cp
          else (case pe_finalizer_patch env of
                  Some e \<Rightarrow> \<lparr>po_error = Some (''failed to add finalizer to CheckPlugin: '' @ e),
                    po_registry = reg, po_events = [], po_plugin = Some cp\<rparr>
                | None \<Rightarrow> compile_and_register envError cel run env reg (cp\<lparr>cp_Finalizer := True\<rparr>)))"

section \<open>Properties\<close>

lemma map_of_Replace: "map_of (Replace c reg) k = (if k = ck_Name c then Some c else map_of reg k)"
  by (simp add: Replace_def update_conv')

lemma map_of_Unregister: "map_of (snd (Unregister n reg)) k = (if k = n then None else map_of reg k)"
  by (auto simp: Unregister_def delete_conv')

lemma checker_name: "NewPluginChecker envError cel name spec = Inr pc \<Longrightarrow> plugin_Name pc = ''plugin:'' @ name"
  by (auto simp: NewPluginChecker_def plugin_Name_def split: option.splits sum.splits)

lemma registered_key:
  "map_of (po_registry (compile_and_register envError cel run env reg cp)) k =
     (case NewPluginChecker envError cel (cp_Name cp) (cp_Spec cp) of
        Inl e \<Rightarrow> map_of reg k
      | Inr pc \<Rightarrow> if k = registry_key cp then Some (plugin_checker run pc) else map_of reg k)"
  by (auto simp: compile_and_register_def finish_def updateStatus_def map_of_Replace plugin_checker_def registry_key_def
      checker_name split: sum.splits option.splits)

lemma compile_and_register_plugin:
  "po_error (compile_and_register envError cel run env reg cp) = None \<Longrightarrow>
     po_plugin (compile_and_register envError cel run env reg cp) =
       (case NewPluginChecker envError cel (cp_Name cp) (cp_Spec cp) of
          Inl e \<Rightarrow> Some (cp\<lparr>cp_Ready := False, cp_Error := e\<rparr>)
        | Inr pc \<Rightarrow> Some (cp\<lparr>cp_Ready := True, cp_Error := []\<rparr>))"
  by (auto simp: compile_and_register_def finish_def updateStatus_def split: sum.splits option.splits)

text \<open>What a reconcile does to the registry: it never touches a checker under another key, so the built-in
  checkers stay; when it succeeds for a live plugin, the status says ready exactly when the rules compile, and then
  the compiled checker is registered under the plugin's key. When the rules do not compile the registry stays as it
  was: a checker registered for an earlier version of the plugin keeps running although the status says that the
  plugin is not ready. When it succeeds for a deleted plugin with its finalizer, nothing is registered under the
  key.\<close>

theorem plugin_reconcile_registry:
  assumes "pe_fetch env = Found cp" "po_error (plugin_Reconcile envError cel run env reg) = None"
  shows "(k \<noteq> registry_key cp \<longrightarrow> map_of (po_registry (plugin_Reconcile envError cel run env reg)) k = map_of reg k) \<and>
    (if cp_Deleting cp
     then (cp_Finalizer cp \<longrightarrow> map_of (po_registry (plugin_Reconcile envError cel run env reg)) (registry_key cp) = None)
     else (case NewPluginChecker envError cel (cp_Name cp) (cp_Spec cp) of
         Inr pc \<Rightarrow> map_of (po_registry (plugin_Reconcile envError cel run env reg)) (registry_key cp) = Some (plugin_checker run pc) \<and>
           map_option cp_Ready (po_plugin (plugin_Reconcile envError cel run env reg)) = Some True
       | Inl e \<Rightarrow> map_of (po_registry (plugin_Reconcile envError cel run env reg)) (registry_key cp) = map_of reg (registry_key cp) \<and>
           map_option cp_Ready (po_plugin (plugin_Reconcile envError cel run env reg)) = Some False))"
proof (cases "cp_Deleting cp")
  case True
  then show ?thesis
    using assms by (auto simp: plugin_Reconcile_def Let_def map_of_Unregister split: option.splits if_splits)
next
  case False
  define cp' where "cp' = (if cp_Finalizer cp then cp else cp\<lparr>cp_Finalizer := True\<rparr>)"
  have r: "plugin_Reconcile envError cel run env reg = compile_and_register envError cel run env reg cp'"
    using assms False by (auto simp: plugin_Reconcile_def cp'_def split: option.splits if_splits)
  have cp': "cp_Name cp' = cp_Name cp" "cp_Spec cp' = cp_Spec cp" "registry_key cp' = registry_key cp"
    by (simp_all add: cp'_def registry_key_def)
  show ?thesis
    using False assms(2) compile_and_register_plugin [of envError cel run env reg cp']
    unfolding r registered_key cp' by (auto split: sum.splits)
qed

definition ex_check_plugin :: "string \<Rightarrow> string \<Rightarrow> string \<Rightarrow> bool \<Rightarrow> check_plugin" where
  "ex_check_plugin ns name cond deleting = \<lparr>cp_Namespace = ns, cp_Name = name, cp_DisplayName = ''Pods'', cp_Deleting = deleting,
     cp_Finalizer = True, cp_Spec = ex_plugin cond, cp_Ready = True, cp_Error = []\<rparr>"

definition ex_plugin_env :: "check_plugin \<Rightarrow> plugin_env" where
  "ex_plugin_env cp = \<lparr>pe_fetch = Found cp, pe_finalizer_patch = None, pe_status_patch = None, pe_recorder = True\<rparr>"

definition ex_registry :: Registry where
  "ex_registry = [(''pvcs'', \<lparr>ck_Name = ''pvcs'', ck_Supports = True, ck_Check = CheckFailed ''timeout''\<rparr>)]"

definition ex_reconcile :: "check_plugin \<Rightarrow> Registry \<Rightarrow> plugin_outcome" where
  "ex_reconcile cp reg = plugin_Reconcile None ex_cel (\<lambda>_. Checked None) (ex_plugin_env cp) reg"

lemmas ex_reconcile_defs = ex_reconcile_def ex_plugin_env_def ex_check_plugin_def plugin_Reconcile_def compile_and_register_def
  finish_def updateStatus_def ex_cel_def ex_plugin_def NewPluginChecker_def compile_rule_def Compile_def

lemma plugin_reconcile_registry_witness:
  "map_of (po_registry (ex_reconcile (ex_check_plugin ''a'' ''p'' ''bad'' False) ex_registry)) ''pvcs'' = map_of ex_registry ''pvcs'' \<and>
   map_option cp_Ready (po_plugin (ex_reconcile (ex_check_plugin ''a'' ''p'' ''bad'' False) ex_registry)) = Some False"
  using plugin_reconcile_registry [of "ex_plugin_env (ex_check_plugin ''a'' ''p'' ''bad'' False)"
      "ex_check_plugin ''a'' ''p'' ''bad'' False" None ex_cel "\<lambda>_. Checked None" "ex_registry" "''pvcs''"]
  by (simp add: ex_reconcile_defs registry_key_def)

text \<open>The key leaves the namespace out: two plugins with one name share it, so deleting one of them removes the
  checker of the other.\<close>

lemma deleting_a_namesake_unregisters:
  assumes "cp_Name a = cp_Name b" "cp_Deleting a" "cp_Finalizer a" "pe_fetch env = Found a"
  shows "map_of (po_registry (plugin_Reconcile envError cel run env reg)) (registry_key b) = None"
  using assms by (simp add: plugin_Reconcile_def Let_def map_of_Unregister registry_key_def split: option.splits)

end
