(* ===== verification/Enrichment_Queue.thy ===== *)
theory Enrichment_Queue
  imports Dashboard_Types
begin

text \<open>
  The queue of enrichment requests (\<open>internal/dashboard/enrichment_queue.go\<close>): a bounded channel with one
  worker, a map of pending requests that keeps the newest per cluster, and the set of clusters in flight. Each
  method holds the lock for its whole body, so it is one step; the worker takes from the channel without
  the lock. The order in which a \<open>range\<close> loop visits the pending map is the parameter \<open>ord\<close>. The capacity
  is positive, so a send finds room or finds the buffer full. The gauge of the depth is \<open>Depth\<close>.
\<close>

type_synonym request = enrichmentRequest
type_synonym pending_map = "(string \<times> request) list"

record enrichmentQueue =
  qu_ch :: "request list"                    \<comment> \<open>the buffer of the channel, oldest first\<close>
  qu_pending :: pending_map
  qu_inflight :: "string set"
  qu_capacity :: int

definition newEnrichmentQueue :: "int \<Rightarrow> enrichmentQueue" where
  "newEnrichmentQueue capacity =
     \<lparr>qu_ch = [], qu_pending = [], qu_inflight = {}, qu_capacity = (if capacity \<le> 0 then 16 else capacity)\<rparr>"

definition has_room :: "enrichmentQueue \<Rightarrow> bool" where
  "has_room q \<longleftrightarrow> int (length (qu_ch q)) < qu_capacity q"

text \<open>One turn of the outer loop of \<open>dispatchPendingLocked\<close>: \<open>None\<close> when it returns.\<close>

definition dispatch_turn :: "(pending_map \<Rightarrow> pending_map) \<Rightarrow> enrichmentQueue \<Rightarrow> enrichmentQueue option" where
  "dispatch_turn ord q =
     (case find (\<lambda>(c, _). c \<notin> qu_inflight q) (ord (qu_pending q)) of
        None \<Rightarrow> None
      | Some (c, req) \<Rightarrow>
          if has_room q
          then Some (q\<lparr>qu_ch := qu_ch q @ [req], qu_pending := AList.delete c (qu_pending q),
                 qu_inflight := insert c (qu_inflight q)\<rparr>)
          else None)"

partial_function (option) dispatchPendingLocked ::
    "(pending_map \<Rightarrow> pending_map) \<Rightarrow> enrichmentQueue \<Rightarrow> enrichmentQueue option" where
  "dispatchPendingLocked ord q =
     (case dispatch_turn ord q of None \<Rightarrow> Some q | Some q' \<Rightarrow> dispatchPendingLocked ord q')"

text \<open>Whether the request is accepted, and the queue. \<open>None\<close> stands for a loop that does not end.\<close>

definition Enqueue :: "(pending_map \<Rightarrow> pending_map) \<Rightarrow> request \<Rightarrow> enrichmentQueue \<Rightarrow> (bool \<times> enrichmentQueue) option" where
  "Enqueue ord req q =
     (let c = er_clusterID req in
      if c \<in> qu_inflight q then Some (True, q\<lparr>qu_pending := AList.update c req (qu_pending q)\<rparr>)
      else if map_of (qu_pending q) c \<noteq> None
      then map_option (\<lambda>q'. (True, q')) (dispatchPendingLocked ord (q\<lparr>qu_pending := AList.update c req (qu_pending q)\<rparr>))
      else if has_room q then Some (True, q\<lparr>qu_ch := qu_ch q @ [req], qu_inflight := insert c (qu_inflight q)\<rparr>)
      else Some (False, q))"

definition markDone :: "(pending_map \<Rightarrow> pending_map) \<Rightarrow> string \<Rightarrow> enrichmentQueue \<Rightarrow> enrichmentQueue option" where
  "markDone ord c q = dispatchPendingLocked ord (q\<lparr>qu_inflight := qu_inflight q - {c}\<rparr>)"

definition Depth :: "enrichmentQueue \<Rightarrow> int" where
  "Depth q = int (length (qu_pending q)) + int (card (qu_inflight q))"

text \<open>The worker of \<open>Run\<close> takes the oldest request.\<close>

definition receive :: "enrichmentQueue \<Rightarrow> (request \<times> enrichmentQueue) option" where
  "receive q = (case qu_ch q of [] \<Rightarrow> None | r # rs \<Rightarrow> Some (r, q\<lparr>qu_ch := rs\<rparr>))"

section \<open>The queue and its worker\<close>

text \<open>The request at the worker, and the histories of accepted and of taken requests.\<close>

record queue_system =
  sy_queue :: enrichmentQueue
  sy_worker :: "request option"
  sy_accepted :: "request list"
  sy_taken :: "request list"

definition queue_start :: "int \<Rightarrow> queue_system" where
  "queue_start capacity =
     \<lparr>sy_queue = newEnrichmentQueue capacity, sy_worker = None, sy_accepted = [], sy_taken = []\<rparr>"

text \<open>The next step of the worker: finish the request it has, or take the next one.\<close>

definition worker_step :: "(pending_map \<Rightarrow> pending_map) \<Rightarrow> queue_system \<Rightarrow> queue_system option" where
  "worker_step ord s =
     (case sy_worker s of
        Some r \<Rightarrow> map_option (\<lambda>q. s\<lparr>sy_queue := q, sy_worker := None\<rparr>) (markDone ord (er_clusterID r) (sy_queue s))
      | None \<Rightarrow> map_option (\<lambda>(r, q). s\<lparr>sy_queue := q, sy_worker := Some r, sy_taken := sy_taken s @ [r]\<rparr>)
                  (receive (sy_queue s)))"

definition enqueue_step :: "(pending_map \<Rightarrow> pending_map) \<Rightarrow> request \<Rightarrow> queue_system \<Rightarrow> queue_system option" where
  "enqueue_step ord req s =
     map_option (\<lambda>(ok, q). s\<lparr>sy_queue := q, sy_accepted := (if ok then sy_accepted s @ [req] else sy_accepted s)\<rparr>)
       (Enqueue ord req (sy_queue s))"

inductive queue_reachable :: "int \<Rightarrow> queue_system \<Rightarrow> bool" for capacity where
  start: "queue_reachable capacity (queue_start capacity)"
| worker: "queue_reachable capacity s \<Longrightarrow> range_order ord \<Longrightarrow> worker_step ord s = Some s' \<Longrightarrow> queue_reachable capacity s'"
| enqueue: "queue_reachable capacity s \<Longrightarrow> range_order ord \<Longrightarrow> enqueue_step ord req s = Some s' \<Longrightarrow>
    queue_reachable capacity s'"

text \<open>The worker's steps while nothing is enqueued.\<close>

fun run_worker :: "(pending_map \<Rightarrow> pending_map) \<Rightarrow> nat \<Rightarrow> queue_system \<Rightarrow> queue_system" where
  "run_worker ord 0 s = s"
| "run_worker ord (Suc n) s = (case worker_step ord s of None \<Rightarrow> s | Some s' \<Rightarrow> run_worker ord n s')"

section \<open>Dispatching ends\<close>

lemma dispatch_turn_Some:
  assumes "dispatch_turn ord q = Some q'" "range_order ord"
  shows "\<exists>c req. (c, req) \<in> set (qu_pending q) \<and> c \<notin> qu_inflight q \<and> has_room q \<and>
     q' = q\<lparr>qu_ch := qu_ch q @ [req], qu_pending := AList.delete c (qu_pending q), qu_inflight := insert c (qu_inflight q)\<rparr>"
proof -
  obtain c req where f: "find (\<lambda>(c, _). c \<notin> qu_inflight q) (ord (qu_pending q)) = Some (c, req)"
    using assms(1) by (auto simp: dispatch_turn_def split: option.splits)
  then have "(c, req) \<in> set (qu_pending q)" "c \<notin> qu_inflight q"
    using range_order_set [OF assms(2), of "qu_pending q"] by (auto simp: find_Some_iff) (metis nth_mem)
  then show ?thesis using assms(1) f by (auto simp: dispatch_turn_def split: if_splits)
qed

lemma dispatch_turn_None:
  assumes "range_order ord"
  shows "dispatch_turn ord q = None \<longleftrightarrow> (\<forall>c \<in> fst ` set (qu_pending q). c \<in> qu_inflight q) \<or> \<not> has_room q"
proof -
  have "find (\<lambda>(c, _). c \<notin> qu_inflight q) (ord (qu_pending q)) = None \<longleftrightarrow> (\<forall>c \<in> fst ` set (qu_pending q). c \<in> qu_inflight q)"
    using range_order_set [OF assms, of "qu_pending q"] by (auto simp: find_None_iff)
  then show ?thesis by (auto simp: dispatch_turn_def split: option.splits)
qed

lemma delete_shrinks: "(c, r) \<in> set xs \<Longrightarrow> length (AList.delete c xs) < length xs"
  unfolding AList.delete_eq by (rule length_filter_less) auto

lemma dispatch_shrinks:
  "dispatch_turn ord q = Some q' \<Longrightarrow> range_order ord \<Longrightarrow> length (qu_pending q') < length (qu_pending q)"
  by (auto dest!: dispatch_turn_Some intro: delete_shrinks)

text \<open>The loop ends: an induction over the turns that also shows what holds afterwards.\<close>

lemma dispatch_induct:
  assumes "range_order ord" "P q"
    and step: "\<And>q q'. P q \<Longrightarrow> dispatch_turn ord q = Some q' \<Longrightarrow> P q'"
  shows "\<exists>q'. dispatchPendingLocked ord q = Some q' \<and> P q' \<and> dispatch_turn ord q' = None"
  using assms(2)
proof (induction "length (qu_pending q)" arbitrary: q rule: less_induct)
  case less
  show ?case
  proof (cases "dispatch_turn ord q")
    case None
    then show ?thesis using less.prems by (subst dispatchPendingLocked.simps) simp
  next
    case (Some q')
    then show ?thesis
      using less.hyps [of q'] dispatch_shrinks [OF Some assms(1)] step [OF less.prems Some]
      by (subst dispatchPendingLocked.simps) simp
  qed
qed

text \<open>C38. The loop that promotes pending requests always ends: whatever order the map is visited in, it
  returns a queue in which every pending cluster is in flight or the channel is full.\<close>

theorem dispatch_terminates:
  assumes "range_order ord"
  shows "\<exists>q'. dispatchPendingLocked ord q = Some q' \<and>
    (fst ` set (qu_pending q') \<subseteq> qu_inflight q' \<or> \<not> has_room q')"
  using dispatch_induct [OF assms, of "\<lambda>_. True" q] dispatch_turn_None [OF assms] by blast

definition ex_request :: "string \<Rightarrow> nat \<Rightarrow> request" where
  "ex_request c g = \<lparr>er_clusterID = c, er_generation = g, er_issueHash = [], er_configVersion = [], er_results = enh_state,
     er_causalCtx = None, er_checkCtx = enh_ctx, er_provider = ''noop'', er_aiModel = [], er_enqueuedAt = 0\<rparr>"

definition ex_queue :: enrichmentQueue where
  "ex_queue = \<lparr>qu_ch = [], qu_pending = [(''a'', ex_request ''a'' 1), (''b'', ex_request ''b'' 1)], qu_inflight = {}, qu_capacity = 1\<rparr>"

lemma dispatch_terminates_witness:
  "\<exists>q'. dispatchPendingLocked rev ex_queue = Some q' \<and>
    (if has_room q' then fst ` set (qu_pending q') \<subseteq> qu_inflight q' else True)"
  using dispatch_terminates [of rev ex_queue] by auto

section \<open>The invariant\<close>

definition at_worker :: "request option \<Rightarrow> request list" where
  "at_worker w = (case w of None \<Rightarrow> [] | Some r \<Rightarrow> [r])"

lemma at_worker_simps [simp]: "at_worker None = []" "at_worker (Some r) = [r]" "at_worker w = [] \<longleftrightarrow> w = None"
  by (simp_all add: at_worker_def split: option.splits)

text \<open>The clusters in flight are those of the request at the worker and of the channel, each once.\<close>

definition queue_ok :: "request option \<Rightarrow> enrichmentQueue \<Rightarrow> bool" where
  "queue_ok w q \<longleftrightarrow> 0 < qu_capacity q \<and> int (length (qu_ch q)) \<le> qu_capacity q \<and>
     distinct (map fst (qu_pending q)) \<and> (\<forall>(c, r) \<in> set (qu_pending q). er_clusterID r = c) \<and>
     distinct (map er_clusterID (at_worker w @ qu_ch q)) \<and>
     qu_inflight q = set (map er_clusterID (at_worker w @ qu_ch q))"

abbreviation of_cluster :: "string \<Rightarrow> request list \<Rightarrow> request list" where
  "of_cluster c \<equiv> filter (\<lambda>r. er_clusterID r = c)"

text \<open>The requests of a cluster that were taken or still will be, in order.\<close>

definition cluster_line :: "request list \<Rightarrow> enrichmentQueue \<Rightarrow> string \<Rightarrow> request list" where
  "cluster_line taken q c = of_cluster c (taken @ qu_ch q) @ (case map_of (qu_pending q) c of None \<Rightarrow> [] | Some r \<Rightarrow> [r])"

text \<open>What is left of the accepted requests: some of them, in order, and always the newest.\<close>

definition keeps_newest :: "'a list \<Rightarrow> 'a list \<Rightarrow> bool" where
  "keeps_newest xs ys \<longleftrightarrow> subseq xs ys \<and> (ys = [] \<or> xs \<noteq> [] \<and> last xs = last ys)"

definition drained :: "queue_system \<Rightarrow> bool" where
  "drained s \<longleftrightarrow> sy_worker s = None \<and> qu_ch (sy_queue s) = [] \<and> qu_pending (sy_queue s) = []"

definition system_ok :: "queue_system \<Rightarrow> bool" where
  "system_ok s \<longleftrightarrow> queue_ok (sy_worker s) (sy_queue s) \<and>
     (at_worker (sy_worker s) @ qu_ch (sy_queue s) = [] \<longrightarrow> drained s) \<and>
     (\<forall>c. keeps_newest (cluster_line (sy_taken s) (sy_queue s) c) (of_cluster c (sy_accepted s)))"

lemma keeps_newest_snoc: "keeps_newest xs ys \<Longrightarrow> keeps_newest (xs @ [x]) (ys @ [x])"
  by (auto simp: keeps_newest_def intro: list_emb_append_mono)

lemma keeps_newest_replace: "subseq (xs @ zs) ys \<Longrightarrow> keeps_newest (xs @ [x]) (ys @ [x])"
  using subseq_order.trans [of xs "xs @ zs" ys] by (auto simp: keeps_newest_def intro: list_emb_append_mono)

lemma set_delete: "set (AList.delete c xs) \<subseteq> set xs"
  by (auto simp: AList.delete_eq)

lemma set_update: "set (AList.update c r xs) \<subseteq> insert (c, r) (set xs)"
  by (induction xs) auto

lemma length_delete:
  assumes "distinct (map fst xs)" "(c, r) \<in> set xs"
  shows "length (AList.delete c xs) = length xs - 1"
proof -
  have "length (map fst (AList.delete c xs)) = card (set (map fst xs) - {c})"
    using distinct_card [OF distinct_delete [OF assms(1), of c]] by (simp add: delete_keys)
  also have "\<dots> = card (set (map fst xs)) - 1" using assms(2) by (intro card_Diff_singleton) force
  finally show ?thesis using distinct_card [OF assms(1)] by simp
qed

lemma turn_ok:
  assumes "queue_ok w q" "dispatch_turn ord q = Some q'" "range_order ord"
  shows "queue_ok w q'" "cluster_line t q' = cluster_line t q"
    "length (qu_ch q') + length (qu_pending q') = length (qu_ch q) + length (qu_pending q)"
proof -
  obtain c req where t: "(c, req) \<in> set (qu_pending q)" "c \<notin> qu_inflight q" "has_room q"
      "q' = q\<lparr>qu_ch := qu_ch q @ [req], qu_pending := AList.delete c (qu_pending q), qu_inflight := insert c (qu_inflight q)\<rparr>"
    using dispatch_turn_Some [OF assms(2,3)] by blast
  have d: "distinct (map fst (qu_pending q))" and k: "er_clusterID req = c"
    using assms(1) t(1) by (auto simp: queue_ok_def)
  have m: "map_of (qu_pending q) c = Some req" using d t(1) by simp
  show "queue_ok w q'"
    using assms(1) t(2,3) k set_delete [of c "qu_pending q"]
    by (auto simp: queue_ok_def t(4) has_room_def distinct_delete)
  show "cluster_line t q' = cluster_line t q"
    using m k by (auto simp: fun_eq_iff cluster_line_def t(4) delete_conv')
  have "length (AList.delete c (qu_pending q)) = length (qu_pending q) - 1" by (rule length_delete [OF d t(1)])
  then show "length (qu_ch q') + length (qu_pending q') = length (qu_ch q) + length (qu_pending q)"
    using t(1) by (cases "qu_pending q") (auto simp: t(4))
qed


lemma dispatch_ok:
  assumes "range_order ord" "queue_ok w q"
  shows "\<exists>q'. dispatchPendingLocked ord q = Some q' \<and> queue_ok w q' \<and> cluster_line t q' = cluster_line t q \<and>
    length (qu_ch q') + length (qu_pending q') = length (qu_ch q) + length (qu_pending q) \<and>
    (at_worker w @ qu_ch q' = [] \<longrightarrow> qu_pending q' = [])"
proof -
  let ?P = "\<lambda>q'. queue_ok w q' \<and> cluster_line t q' = cluster_line t q \<and>
    length (qu_ch q') + length (qu_pending q') = length (qu_ch q) + length (qu_pending q)"
  obtain q' where q': "dispatchPendingLocked ord q = Some q'" "?P q'" "dispatch_turn ord q' = None"
    using dispatch_induct [OF assms(1), of ?P q] turn_ok [OF _ _ assms(1)] assms(2) by metis
  have "qu_pending q' = []" if "at_worker w @ qu_ch q' = []"
  proof -
    have "qu_inflight q' = {}" "has_room q'" using q'(2) that by (auto simp: queue_ok_def has_room_def)
    then show ?thesis using q'(3) dispatch_turn_None [OF assms(1), of q'] by auto
  qed
  then show ?thesis using q'(1,2) by blast
qed

lemma start_ok: "system_ok (queue_start capacity)"
  by (simp add: system_ok_def queue_start_def newEnrichmentQueue_def queue_ok_def drained_def cluster_line_def keeps_newest_def)

lemma update_ok: "queue_ok w q \<Longrightarrow> queue_ok w (q\<lparr>qu_pending := AList.update (er_clusterID r) r (qu_pending q)\<rparr>)"
  by (auto simp: queue_ok_def distinct_update dest: set_mp [OF set_update])

lemma inflight_line:
  assumes "keeps_newest (cluster_line t q (er_clusterID r)) acc"
  shows "keeps_newest (cluster_line t (q\<lparr>qu_pending := AList.update (er_clusterID r) r (qu_pending q)\<rparr>) (er_clusterID r)) (acc @ [r])"
proof -
  let ?xs = "of_cluster (er_clusterID r) (t @ qu_ch q)"
  have "subseq (?xs @ (case map_of (qu_pending q) (er_clusterID r) of None \<Rightarrow> [] | Some r \<Rightarrow> [r])) acc"
    using assms by (simp add: cluster_line_def keeps_newest_def)
  then have "keeps_newest (?xs @ [r]) (acc @ [r])" by (rule keeps_newest_replace)
  then show ?thesis by (simp add: cluster_line_def update_conv')
qed

lemma enqueue_ok:
  assumes "system_ok s" "range_order ord"
  shows "\<exists>s'. enqueue_step ord req s = Some s' \<and> system_ok s'"
proof -
  let ?q = "sy_queue s" and ?w = "sy_worker s" and ?c = "er_clusterID req" and ?t = "sy_taken s"
  let ?q1 = "?q\<lparr>qu_pending := AList.update ?c req (qu_pending ?q)\<rparr>"
  have ok: "queue_ok ?w ?q" and idle: "at_worker ?w @ qu_ch ?q = [] \<longrightarrow> drained s"
    and new: "keeps_newest (cluster_line ?t ?q c) (of_cluster c (sy_accepted s))" for c
    using assms(1) by (auto simp: system_ok_def)
  have line1: "keeps_newest (cluster_line ?t ?q1 c) (of_cluster c (sy_accepted s @ [req]))" for c
    using inflight_line [OF new [of ?c]] new [of c] by (cases "c = ?c") (simp_all add: cluster_line_def update_conv')
  show ?thesis
  proof (cases "?c \<in> qu_inflight ?q")
    case True
    then show ?thesis
      using update_ok [OF ok] line1 ok idle
      by (auto simp: enqueue_step_def Enqueue_def system_ok_def queue_ok_def drained_def)
  next
    case out: False
    show ?thesis
    proof (cases "map_of (qu_pending ?q) ?c")
      case None
      show ?thesis
      proof (cases "has_room ?q")
        case True
        have "queue_ok ?w (?q\<lparr>qu_ch := qu_ch ?q @ [req], qu_inflight := insert ?c (qu_inflight ?q)\<rparr>)"
          using ok out True by (auto simp: queue_ok_def has_room_def)
        moreover have "keeps_newest (cluster_line ?t (?q\<lparr>qu_ch := qu_ch ?q @ [req], qu_inflight := insert ?c (qu_inflight ?q)\<rparr>) c)
            (of_cluster c (sy_accepted s @ [req]))" for c
          using keeps_newest_snoc [OF new [of c], of req] new [of c] None by (auto simp: cluster_line_def)
        ultimately show ?thesis
          using None out True by (auto simp: enqueue_step_def Enqueue_def system_ok_def)
      next
        case False
        then show ?thesis
          using None out assms(1) by (simp add: enqueue_step_def Enqueue_def)
      qed
    next
      case (Some r)
      obtain q' where "dispatchPendingLocked ord ?q1 = Some q'" "queue_ok ?w q'" "cluster_line ?t q' = cluster_line ?t ?q1"
          "at_worker ?w @ qu_ch q' = [] \<longrightarrow> qu_pending q' = []"
        using dispatch_ok [OF assms(2) update_ok [OF ok], where t = ?t] by blast
      then show ?thesis
        using Some out line1 by (auto simp: enqueue_step_def Enqueue_def system_ok_def drained_def split: option.splits)
    qed
  qed
qed

lemma worker_ok:
  assumes "system_ok s" "range_order ord"
  shows "case worker_step ord s of None \<Rightarrow> drained s | Some s' \<Rightarrow> system_ok s'"
proof (cases "sy_worker s")
  case None
  show ?thesis
  proof (cases "qu_ch (sy_queue s)")
    case Nil
    then show ?thesis using assms(1) None by (simp add: worker_step_def receive_def system_ok_def)
  next
    case (Cons r rs)
    have "cluster_line (sy_taken s @ [r]) (sy_queue s\<lparr>qu_ch := rs\<rparr>) c = cluster_line (sy_taken s) (sy_queue s) c" for c
      by (simp add: cluster_line_def Cons)
    then show ?thesis
      using assms(1) None Cons by (simp add: worker_step_def receive_def system_ok_def queue_ok_def)
  qed
next
  case (Some r)
  let ?q = "sy_queue s"
  have "queue_ok None (?q\<lparr>qu_inflight := qu_inflight ?q - {er_clusterID r}\<rparr>)"
    using assms(1) Some by (auto simp: system_ok_def queue_ok_def)
  from dispatch_ok [OF assms(2) this, where t = "sy_taken s"]
  show ?thesis
    using assms(1) Some
    by (auto simp: worker_step_def markDone_def system_ok_def drained_def cluster_line_def)
qed

lemma reachable_ok: "queue_reachable capacity s \<Longrightarrow> system_ok s"
proof (induction rule: queue_reachable.induct)
  case start
  then show ?case by (rule start_ok)
next
  case (worker s ord s')
  then show ?case using worker_ok [of s ord] by simp
next
  case (enqueue s ord req s')
  then show ?case using enqueue_ok [of s ord req] by auto
qed

section \<open>What the queue guarantees\<close>

text \<open>C4. At every moment each cluster has at most one request between the channel and the worker, so one
  cluster is never enriched twice at a time; the channel stays within its capacity; the set of clusters in
  flight is exactly that of these requests; and a request is pending only while another one is on its
  way. So none is ever left behind.\<close>

theorem queue_single_writer:
  assumes "queue_reachable capacity s"
  shows "distinct (map er_clusterID (at_worker (sy_worker s) @ qu_ch (sy_queue s))) \<and>
    int (length (qu_ch (sy_queue s))) \<le> qu_capacity (sy_queue s) \<and>
    qu_inflight (sy_queue s) = er_clusterID ` set (at_worker (sy_worker s) @ qu_ch (sy_queue s)) \<and>
    (qu_pending (sy_queue s) \<noteq> [] \<longrightarrow> at_worker (sy_worker s) @ qu_ch (sy_queue s) \<noteq> [])"
  using reachable_ok [OF assms] by (auto simp: system_ok_def queue_ok_def drained_def)

definition queue_load :: "queue_system \<Rightarrow> nat" where
  "queue_load s = 2 * (length (qu_ch (sy_queue s)) + length (qu_pending (sy_queue s))) + length (at_worker (sy_worker s))"

lemma worker_load:
  assumes "system_ok s" "range_order ord" "worker_step ord s = Some s'"
  shows "queue_load s' < queue_load s" "sy_accepted s' = sy_accepted s"
proof -
  have "queue_load s' < queue_load s \<and> sy_accepted s' = sy_accepted s"
  proof (cases "sy_worker s")
    case None
    then show ?thesis
      using assms(3) by (auto simp: worker_step_def receive_def queue_load_def split: list.splits)
  next
    case (Some r)
    let ?q = "sy_queue s"
    have "queue_ok None (?q\<lparr>qu_inflight := qu_inflight ?q - {er_clusterID r}\<rparr>)"
      using assms(1) Some by (auto simp: system_ok_def queue_ok_def)
    from dispatch_ok [OF assms(2) this, where t = "[]"] Some assms(3) show ?thesis
      by (auto simp: worker_step_def markDone_def queue_load_def)
  qed
  then show "queue_load s' < queue_load s" "sy_accepted s' = sy_accepted s" by blast+
qed

lemma run_worker_drains:
  assumes "system_ok s" "range_order ord" "queue_load s \<le> n"
  shows "system_ok (run_worker ord n s) \<and> drained (run_worker ord n s) \<and>
    sy_accepted (run_worker ord n s) = sy_accepted s"
  using assms(1,3)
proof (induction n arbitrary: s)
  case 0
  then show ?case by (simp add: queue_load_def drained_def)
next
  case (Suc n)
  show ?case
  proof (cases "worker_step ord s")
    case None
    then show ?thesis using worker_ok [OF Suc.prems(1) assms(2)] Suc.prems by simp
  next
    case (Some s')
    then show ?thesis
      using worker_ok [OF Suc.prems(1) assms(2)] worker_load [OF Suc.prems(1) assms(2) Some]
        Suc.IH [of s'] Suc.prems(2) by simp
  qed
qed

text \<open>Nothing accepted is lost but by a newer request of its cluster: from any state the queue can
  reach, once nothing more is enqueued the worker empties it within \<open>queue_load\<close> steps; and then, for every
  cluster, the requests it has processed are some of the accepted ones in their order, the newest
  accepted one being the last.\<close>

theorem queue_newest_wins:
  assumes "queue_reachable capacity s" "range_order ord"
  shows "drained (run_worker ord (queue_load s) s) \<and>
    keeps_newest (of_cluster c (sy_taken (run_worker ord (queue_load s) s))) (of_cluster c (sy_accepted s))"
proof -
  have "system_ok (run_worker ord (queue_load s) s)" "drained (run_worker ord (queue_load s) s)"
      "sy_accepted (run_worker ord (queue_load s) s) = sy_accepted s"
    using run_worker_drains [OF reachable_ok [OF assms(1)] assms(2)] by auto
  then show ?thesis by (auto simp: system_ok_def drained_def cluster_line_def)
qed

definition ex_system :: queue_system where
  "ex_system = the (enqueue_step rev (ex_request ''a'' 2) (the (enqueue_step rev (ex_request ''a'' 1) (queue_start 1))))"

lemmas ex_queue_evals = ex_system_def enqueue_step_def Enqueue_def queue_start_def newEnrichmentQueue_def ex_request_def has_room_def Let_def

lemma ex_system_reachable: "queue_reachable 1 ex_system"
proof -
  have "queue_reachable 1 (the (enqueue_step rev (ex_request ''a'' 1) (queue_start 1)))"
    by (rule queue_reachable.enqueue [OF queue_reachable.start, where ord = rev and req = "ex_request ''a'' 1"])
      (simp_all add: ex_queue_evals)
  then show ?thesis
    unfolding ex_system_def
    by (rule queue_reachable.enqueue [where ord = rev and req = "ex_request ''a'' 2"]) (simp_all add: ex_queue_evals)
qed

lemma queue_single_writer_witness:
  "distinct (map er_clusterID (at_worker (sy_worker ex_system) @ qu_ch (sy_queue ex_system))) \<and>
   at_worker (sy_worker ex_system) @ qu_ch (sy_queue ex_system) \<noteq> []"
  using queue_single_writer [OF ex_system_reachable] by (simp add: ex_queue_evals)

lemma queue_newest_wins_witness:
  "drained (run_worker rev (queue_load ex_system) ex_system) \<and>
   keeps_newest (of_cluster ''a'' (sy_taken (run_worker rev (queue_load ex_system) ex_system))) [ex_request ''a'' 1, ex_request ''a'' 2]"
  using queue_newest_wins [OF ex_system_reachable, of rev "''a''"] by (simp add: ex_queue_evals)

end
