(* ===== verification/Dashboard_Results.thy ===== *)
theory Dashboard_Results
  imports Dashboard_Types "HOL-Library.AList"
begin

text \<open>
  From check results to what the dashboard shows (\<open>internal/dashboard/ai_analysis.go\<close>): the conversion of
  results, the operational score, the readiness of deployments, the hash of the issues, and the advice of the
  AI that is kept and put back. Check results hold the addresses of their metadata maps, as in
  \<open>AI_Enhancement\<close>; the results of a check come as a list in the order in which their map is visited. SHA-256 is
  the parameter \<open>digest\<close>, from the hashed bytes to the hexadecimal text. \<open>None\<close> is a nil dereference.
\<close>

section \<open>Scores\<close>

definition severity_rank :: "string \<Rightarrow> int" where
  "severity_rank s = (if s = SeverityCritical then 3 else if s = SeverityWarning then 2 else if s = SeverityInfo then 1 else 0)"

definition resource_key :: "'m Issue \<Rightarrow> string" where
  "resource_key i = iss_Namespace i @ ''/'' @ iss_Resource i"

definition state_key :: "'m Issue \<Rightarrow> string" where
  "state_key i = iss_Namespace i @ ''/'' @ iss_Resource i @ ''/'' @ iss_Type i"

definition is_muted :: "issue_states \<Rightarrow> 'm Issue \<Rightarrow> bool" where
  "is_muted states i \<longleftrightarrow> states (state_key i) \<noteq> None"

text \<open>The highest severity of every resource, as an association list; a missing entry reads as rank 0.\<close>

definition raise_severity :: "'m Issue \<Rightarrow> (string \<times> string) list \<Rightarrow> (string \<times> string) list" where
  "raise_severity i m =
     (let prev = (case map_of m (resource_key i) of None \<Rightarrow> [] | Some s \<Rightarrow> s) in
      if severity_rank (iss_Severity i) > severity_rank prev then AList.update (resource_key i) (iss_Severity i) m else m)"

definition resource_severities :: "issue_states \<Rightarrow> 'm Issue list \<Rightarrow> (string \<times> string) list" where
  "resource_severities states is = fold raise_severity (filter (\<lambda>i. \<not> is_muted states i) is) []"

definition computeCheckerOperationalCounts :: "int \<Rightarrow> 'm Issue list \<Rightarrow> issue_states \<Rightarrow> int \<times> int" where
  "computeCheckerOperationalCounts healthy is states =
     (let m = resource_severities states is
      in (healthy + int (length m), int (length (filter (\<lambda>(_, s). s = SeverityCritical) m))))"

definition computeOperationalHealthScore :: "int \<Rightarrow> int \<Rightarrow> f64" where
  "computeOperationalHealthScore checked critical =
     (if checked \<le> 0 then 100
      else let c = (if critical < 0 then 0 else critical); c' = (if c > checked then checked else c)
        in fmul (fdiv (float64 (checked - c')) (float64 checked)) 100)"

text \<open>The deployments of a namespace: desired replicas, when set, and ready ones; a list that fails is skipped.\<close>

definition deployment_counts :: "(int option \<times> int) \<Rightarrow> int \<times> int" where
  "deployment_counts d =
     (let desired = max (case fst d of None \<Rightarrow> 1 | Some n \<Rightarrow> n) 0 in (min (max (snd d) 0) desired, desired))"

definition computeDeploymentReadiness :: "(string \<Rightarrow> string + (int option \<times> int) list) \<Rightarrow> string list \<Rightarrow> int \<times> int \<times> f64" where
  "computeDeploymentReadiness list_deployments nss =
     (let counts = map deployment_counts (concat (map (\<lambda>ns. case list_deployments ns of Inl _ \<Rightarrow> [] | Inr ds \<Rightarrow> ds) nss));
          ready = sum_list (map fst counts); desired = sum_list (map snd counts)
      in if desired = 0 then (ready, desired, 100)
         else (ready, desired, fmul (fdiv (float64 ready) (float64 desired)) 100))"

section \<open>What is shown\<close>

text \<open>The text behind the first occurrence of a marker.\<close>

fun after_marker :: "string \<Rightarrow> string \<Rightarrow> string option" where
  "after_marker p [] = (if p = [] then Some [] else None)"
| "after_marker p (c # cs) = (if has_prefix (c # cs) p then Some (drop (length p) (c # cs)) else after_marker p cs)"

definition has_advice :: "string \<Rightarrow> bool" where
  "has_advice s = str_contains s ''AI Analysis:''"

definition shown_suggestion :: "string \<Rightarrow> string" where
  "shown_suggestion s = (if has_advice s then (case after_marker ''AI Analysis: '' s of None \<Rightarrow> s | Some t \<Rightarrow> t) else s)"

definition metadata_of :: "(nat \<rightharpoonup> metadata) \<Rightarrow> stored_issue \<Rightarrow> metadata option" where
  "metadata_of meta i = (case iss_Metadata i of None \<Rightarrow> None | Some a \<Rightarrow> Some (case meta a of None \<Rightarrow> Map.empty | Some m \<Rightarrow> m))"

definition root_cause_of :: "(nat \<rightharpoonup> metadata) \<Rightarrow> stored_issue \<Rightarrow> string option" where
  "root_cause_of meta i = (case metadata_of meta i of None \<Rightarrow> None | Some m \<Rightarrow> m ''aiRootCause'')"

definition dash_issue :: "(nat \<rightharpoonup> metadata) \<Rightarrow> stored_issue \<Rightarrow> DashIssue" where
  "dash_issue meta i = \<lparr>dx_Type = iss_Type i, dx_Severity = iss_Severity i, dx_Resource = iss_Resource i,
     dx_Namespace = iss_Namespace i, dx_Message = iss_Message i, dx_Suggestion = shown_suggestion (iss_Suggestion i),
     dx_AIEnhanced = has_advice (iss_Suggestion i),
     dx_RootCause = (case root_cause_of meta i of None \<Rightarrow> [] | Some rc \<Rightarrow> rc), dx_Metadata = metadata_of meta i\<rparr>"

definition dash_result :: "(nat \<rightharpoonup> metadata) \<Rightarrow> string \<Rightarrow> stored_result \<Rightarrow> DashResult" where
  "dash_result meta name r = \<lparr>dr_Name = name, dr_Healthy = cr_Healthy r,
     dr_Issues = (if cr_Error r = None then map (dash_issue meta) (cr_Issues r) else []),
     dr_Error = (case cr_Error r of None \<Rightarrow> [] | Some e \<Rightarrow> e)\<rparr>"

record buildResult =
  br_Results :: "(string \<times> DashResult) list"
  br_Summary :: Summary
  br_scoreChecked :: int
  br_scoreCritical :: int

definition unmuted :: "issue_states \<Rightarrow> string \<Rightarrow> 'm Issue list \<Rightarrow> int" where
  "unmuted states s is = int (length (filter (\<lambda>i. \<not> is_muted states i \<and> iss_Severity i = s) is))"

definition count_result :: "issue_states \<Rightarrow> 'm CheckResult \<Rightarrow> buildResult \<Rightarrow> buildResult" where
  "count_result states r br =
     (if cr_Error r \<noteq> None then br
      else let (checked, critical) = computeCheckerOperationalCounts (cr_Healthy r) (cr_Issues r) states; su = br_Summary br
        in br\<lparr>br_Summary := su\<lparr>su_TotalHealthy := su_TotalHealthy su + cr_Healthy r,
               su_TotalIssues := su_TotalIssues su + int (length (cr_Issues r)),
               su_CriticalCount := su_CriticalCount su + unmuted states SeverityCritical (cr_Issues r),
               su_WarningCount := su_WarningCount su + unmuted states SeverityWarning (cr_Issues r),
               su_InfoCount := su_InfoCount su + unmuted states SeverityInfo (cr_Issues r)\<rparr>,
             br_scoreChecked := br_scoreChecked br + checked, br_scoreCritical := br_scoreCritical br + critical\<rparr>)"

fun build_from :: "(nat \<rightharpoonup> metadata) \<Rightarrow> issue_states \<Rightarrow> (string \<times> stored_result option) list \<Rightarrow> buildResult \<Rightarrow> buildResult option" where
  "build_from meta states [] br = Some br"
| "build_from meta states ((name, None) # rs) br = None"
| "build_from meta states ((name, Some r) # rs) br =
     (let br1 = count_result states r br
      in build_from meta states rs (br1\<lparr>br_Results := AList.update name (dash_result meta name r) (br_Results br1)\<rparr>))"

definition no_summary :: Summary where
  "no_summary = \<lparr>su_TotalHealthy = 0, su_TotalIssues = 0, su_CriticalCount = 0, su_WarningCount = 0, su_InfoCount = 0,
     su_HealthScore = 0, su_DeploymentReady = 0, su_DeploymentDesired = 0, su_DeploymentReadinessScore = 0\<rparr>"

definition buildDashboardResults :: "enhancement \<Rightarrow> issue_states \<Rightarrow> buildResult option" where
  "buildDashboardResults st states =
     build_from (en_meta st) states (en_results st)
       \<lparr>br_Results = [], br_Summary = no_summary, br_scoreChecked = 0, br_scoreCritical = 0\<rparr>"

section \<open>The hash of the issues\<close>

definition hash_line :: "string \<Rightarrow> 'm Issue \<Rightarrow> string" where
  "hash_line name i = name @ ''|'' @ iss_Type i @ ''|'' @ iss_Severity i @ ''|'' @ iss_Namespace i @ ''|'' @ iss_Resource i"

definition result_lines :: "(string \<times> 'm CheckResult option) list \<Rightarrow> string \<Rightarrow> string list option" where
  "result_lines rs name =
     (case map_of rs name of
        Some (Some r) \<Rightarrow> Some (if cr_Error r \<noteq> None then [] else sort (map (hash_line name) (cr_Issues r)))
      | _ \<Rightarrow> None)"

definition computeIssueHash :: "(string \<Rightarrow> string) \<Rightarrow> (string \<times> 'm CheckResult option) list \<Rightarrow> string option" where
  "computeIssueHash digest rs =
     map_option (\<lambda>lines. digest (concat (map (\<lambda>l. l @ [CHR 0x0A]) (concat lines))))
       (those (map (result_lines rs) (sort (map fst rs))))"

section \<open>Advice that is kept\<close>

type_synonym enhancements = "string \<rightharpoonup> string \<rightharpoonup> aiEnhancement"

definition enhancement_key :: "'m Issue \<Rightarrow> string" where
  "enhancement_key i = iss_Type i @ ''|'' @ iss_Resource i @ ''|'' @ iss_Namespace i"

definition snapshot_issue :: "(nat \<rightharpoonup> metadata) \<Rightarrow> stored_issue \<Rightarrow> (string \<rightharpoonup> aiEnhancement) \<Rightarrow> (string \<rightharpoonup> aiEnhancement)" where
  "snapshot_issue meta i m =
     (if \<not> has_advice (iss_Suggestion i) then m
      else m(enhancement_key i \<mapsto> \<lparr>ae_Suggestion = iss_Suggestion i,
        ae_RootCause = (case root_cause_of meta i of None \<Rightarrow> [] | Some rc \<Rightarrow> rc)\<rparr>))"

definition snapshotAIEnhancements :: "enhancement \<Rightarrow> enhancements" where
  "snapshotAIEnhancements st = (\<lambda>name.
     case map_of (en_results st) name of
       Some (Some r) \<Rightarrow>
         if cr_Error r = None \<and> list_ex (\<lambda>i. has_advice (iss_Suggestion i)) (cr_Issues r)
         then Some (fold (snapshot_issue (en_meta st)) (cr_Issues r) Map.empty) else None
     | _ \<Rightarrow> None)"

text \<open>Putting it back. The root cause is written into the issue's map, which is made when it has none.\<close>

definition reapply_issue :: "(string \<rightharpoonup> aiEnhancement) \<Rightarrow> stored_issue \<Rightarrow> (nat \<rightharpoonup> metadata) \<Rightarrow> nat \<Rightarrow>
    stored_issue \<times> (nat \<rightharpoonup> metadata) \<times> nat" where
  "reapply_issue enh i meta next =
     (case enh (enhancement_key i) of
        None \<Rightarrow> (i, meta, next)
      | Some e \<Rightarrow>
          let i1 = i\<lparr>iss_Suggestion := ae_Suggestion e\<rparr> in
          if ae_RootCause e = [] then (i1, meta, next)
          else case iss_Metadata i of
            None \<Rightarrow> (i1\<lparr>iss_Metadata := Some next\<rparr>, meta(next \<mapsto> [''aiRootCause'' \<mapsto> ae_RootCause e]), next + 1)
          | Some a \<Rightarrow> (i1, meta(a \<mapsto> (case meta a of None \<Rightarrow> Map.empty | Some m \<Rightarrow> m)(''aiRootCause'' \<mapsto> ae_RootCause e)), next))"

fun reapply_issues :: "(string \<rightharpoonup> aiEnhancement) \<Rightarrow> stored_issue list \<Rightarrow> (nat \<rightharpoonup> metadata) \<Rightarrow> nat \<Rightarrow>
    stored_issue list \<times> (nat \<rightharpoonup> metadata) \<times> nat" where
  "reapply_issues enh [] meta next = ([], meta, next)"
| "reapply_issues enh (i # is) meta next =
     (let (i', meta1, next1) = reapply_issue enh i meta next; (is', meta2, next2) = reapply_issues enh is meta1 next1
      in (i' # is', meta2, next2))"

text \<open>The results in the order of their list; a nil result would have panicked when the hash was computed.\<close>

fun reapply_results :: "enhancements \<Rightarrow> (string \<times> stored_result option) list \<Rightarrow> (nat \<rightharpoonup> metadata) \<Rightarrow> nat \<Rightarrow> enhancement" where
  "reapply_results enh [] meta next = \<lparr>en_results = [], en_meta = meta, en_next = next\<rparr>"
| "reapply_results enh ((name, ro) # rs) meta next =
     (let (ro', meta1, next1) =
        (case (enh name, ro) of
           (Some e, Some r) \<Rightarrow>
             if cr_Error r \<noteq> None then (ro, meta, next)
             else (let (is, m, n) = reapply_issues e (cr_Issues r) meta next in (Some (r\<lparr>cr_Issues := is\<rparr>), m, n))
         | _ \<Rightarrow> (ro, meta, next));
          st = reapply_results enh rs meta1 next1
      in st\<lparr>en_results := (name, ro') # en_results st\<rparr>)"

definition reapplyAIEnhancements :: "enhancements \<Rightarrow> enhancement \<Rightarrow> enhancement" where
  "reapplyAIEnhancements enh st = reapply_results enh (en_results st) (en_meta st) (en_next st)"

text \<open>The insights of the AI on causal groups, by the number in the group's identifier.\<close>

definition apply_insight :: "CausalGroupInsight \<Rightarrow> CausalGroup list \<Rightarrow> CausalGroup list" where
  "apply_insight ins gs =
     (case go_atoi (trim_prefix (cgi_GroupID ins) ''group_'') of
        None \<Rightarrow> gs
      | Some k \<Rightarrow>
          if k < 0 \<or> k \<ge> int (length gs) then gs
          else gs[nat k := (gs ! nat k)\<lparr>cg_AIRootCause := cgi_AIRootCause ins, cg_AISuggestion := cgi_AISuggestion ins,
            cg_AISteps := cgi_AISteps ins, cg_AIEnhanced := True\<rparr>])"

definition applyCausalInsights :: "CausalGroupInsight list \<Rightarrow> CausalContext option \<Rightarrow> CausalContext option" where
  "applyCausalInsights insights cco = map_option (\<lambda>cc. cc\<lparr>cx_Groups := fold apply_insight insights (cx_Groups cc)\<rparr>) cco"

definition estimateCost :: "string \<Rightarrow> string \<Rightarrow> int \<Rightarrow> f64" where
  "estimateCost provider model tokens =
     (if tokens \<le> 0 then 0 else fmul (fdiv (float64 tokens) 1000) (CostPer1KTokens provider model))"

section \<open>Copies and patches\<close>

text \<open>A copy gives every metadata map of every issue an address of its own.\<close>

definition copy_issue :: "(nat \<rightharpoonup> metadata) \<Rightarrow> stored_issue \<Rightarrow> nat \<times> (nat \<rightharpoonup> metadata) \<times> stored_issue list \<Rightarrow>
    nat \<times> (nat \<rightharpoonup> metadata) \<times> stored_issue list" where
  "copy_issue src i st =
     (let (next, meta, is) = st in
      case metadata_of src i of
        None \<Rightarrow> (next, meta, is @ [i])
      | Some m \<Rightarrow> (next + 1, meta(next \<mapsto> m), is @ [i\<lparr>iss_Metadata := Some next\<rparr>]))"

fun copy_results :: "(nat \<rightharpoonup> metadata) \<Rightarrow> (string \<times> stored_result option) list \<Rightarrow> nat \<Rightarrow> (nat \<rightharpoonup> metadata) \<Rightarrow> enhancement" where
  "copy_results src [] next meta = \<lparr>en_results = [], en_meta = meta, en_next = next\<rparr>"
| "copy_results src ((name, None) # rs) next meta =
     (let st = copy_results src rs next meta in st\<lparr>en_results := (name, None) # en_results st\<rparr>)"
| "copy_results src ((name, Some r) # rs) next meta =
     (let (next', meta', is) = fold (copy_issue src) (cr_Issues r) (next, meta, []);
          st = copy_results src rs next' meta'
      in st\<lparr>en_results := (name, Some (r\<lparr>cr_Issues := is\<rparr>)) # en_results st\<rparr>)"

definition deepCopyResults :: "enhancement \<Rightarrow> enhancement" where
  "deepCopyResults st = copy_results (en_meta st) (en_results st) 0 Map.empty"

text \<open>What the worker's context keeps: neither the enrichment of contexts nor the confidence threshold.\<close>

definition minimalCheckContext :: "enhance_context \<Rightarrow> enhance_context" where
  "minimalCheckContext src = src\<lparr>ec_enrich := None, ec_minConfidence := 0\<rparr>"

definition configVersionHash :: "(string \<Rightarrow> string) \<Rightarrow> string \<Rightarrow> string \<Rightarrow> string" where
  "configVersionHash digest provider model = take 16 (digest (provider @ [CHR 0x00] @ model))"

definition patch_issue :: "(nat \<rightharpoonup> metadata) \<Rightarrow> stored_issue \<Rightarrow> DashIssue \<Rightarrow> DashIssue" where
  "patch_issue meta src d =
     (if \<not> has_advice (iss_Suggestion src) then d
      else d\<lparr>dx_Suggestion := shown_suggestion (iss_Suggestion src), dx_AIEnhanced := True,
        dx_RootCause := (case root_cause_of meta src of None \<Rightarrow> dx_RootCause d | Some rc \<Rightarrow> rc)\<rparr>)"

fun patch_issues :: "(nat \<rightharpoonup> metadata) \<Rightarrow> stored_issue list \<Rightarrow> DashIssue list \<Rightarrow> DashIssue list" where
  "patch_issues meta (s # ss) (d # ds) = patch_issue meta s d # patch_issues meta ss ds"
| "patch_issues meta ss ds = ds"

text \<open>A nil enriched result would have panicked during the enhancement.\<close>

definition patchDashboardResults :: "enhancement \<Rightarrow> (string \<times> DashResult) list \<Rightarrow> (string \<times> DashResult) list" where
  "patchDashboardResults st ds =
     map (\<lambda>(name, d). (name,
       case map_of (en_results st) name of
         Some (Some r) \<Rightarrow> if cr_Error r = None then d\<lparr>dr_Issues := patch_issues (en_meta st) (cr_Issues r) (dr_Issues d)\<rparr> else d
       | _ \<Rightarrow> d)) ds"

section \<open>The operational score\<close>


lemma raise_severity_distinct: "distinct (map fst m) \<Longrightarrow> distinct (map fst (raise_severity i m))"
  by (simp add: raise_severity_def Let_def AList.distinct_update)

lemma fold_raise_distinct: "distinct (map fst m) \<Longrightarrow> distinct (map fst (fold raise_severity is m))"
  by (induction "is" arbitrary: m) (simp_all add: raise_severity_distinct)

lemma severity_rank_le: "severity_rank s \<le> 3 \<and> (severity_rank s = 3 \<longleftrightarrow> s = SeverityCritical)"
  by (simp add: severity_rank_def)

lemma raise_severity_critical:
  "map_of (raise_severity i m) k = Some SeverityCritical \<longleftrightarrow>
     map_of m k = Some SeverityCritical \<or> resource_key i = k \<and> iss_Severity i = SeverityCritical"
proof -
  have r: "severity_rank s < severity_rank SeverityCritical \<longleftrightarrow> s \<noteq> SeverityCritical" for s
    by (simp add: severity_rank_def)
  have "\<not> severity_rank SeverityCritical < severity_rank s" for s
    using severity_rank_le [of s] severity_rank_le [of SeverityCritical] by simp
  then show ?thesis
    using r severity_rank_le
    by (auto simp: raise_severity_def Let_def update_conv' SeverityCritical_def split: option.splits if_splits)
qed

lemma fold_raise_critical:
  "map_of (fold raise_severity is m) k = Some SeverityCritical \<longleftrightarrow>
     map_of m k = Some SeverityCritical \<or> (\<exists>i \<in> set is. resource_key i = k \<and> iss_Severity i = SeverityCritical)"
  by (induction "is" arbitrary: m) (auto simp: raise_severity_critical)

lemma operational_counts:
  assumes "computeCheckerOperationalCounts healthy is states = (checked, critical)" "0 \<le> healthy"
  shows "0 \<le> critical" "critical \<le> checked"
    "critical = 0 \<longleftrightarrow> (\<forall>i \<in> set is. is_muted states i \<or> iss_Severity i \<noteq> SeverityCritical)"
proof -
  let ?m = "resource_severities states is"
  have c: "critical = int (length (filter (\<lambda>(_, s). s = SeverityCritical) ?m))" "checked = healthy + int (length ?m)"
    using assms(1) by (auto simp: computeCheckerOperationalCounts_def Let_def)
  have "int (length (filter (\<lambda>(_, s). s = SeverityCritical) ?m)) \<le> int (length ?m)" by simp
  then show "0 \<le> critical" "critical \<le> checked" using assms(2) by (simp_all only: c)
  have d: "distinct (map fst ?m)" by (simp add: resource_severities_def fold_raise_distinct)
  have "critical = 0 \<longleftrightarrow> (\<forall>k. map_of ?m k \<noteq> Some SeverityCritical)"
    using d by (auto simp: c filter_empty_conv)
  also have "\<dots> \<longleftrightarrow> (\<forall>i \<in> set is. is_muted states i \<or> iss_Severity i \<noteq> SeverityCritical)"
    by (auto simp: resource_severities_def fold_raise_critical)
  finally show "critical = 0 \<longleftrightarrow> (\<forall>i \<in> set is. is_muted states i \<or> iss_Severity i \<noteq> SeverityCritical)" .
qed

text \<open>An error-free result with a critical issue that is not muted.\<close>

definition critical_shown :: "issue_states \<Rightarrow> string \<times> 'm CheckResult option \<Rightarrow> bool" where
  "critical_shown states x = (case snd x of None \<Rightarrow> False
     | Some r \<Rightarrow> cr_Error r = None \<and> list_ex (\<lambda>i. \<not> is_muted states i \<and> iss_Severity i = SeverityCritical) (cr_Issues r))"

definition healthy_ok :: "string \<times> 'm CheckResult option \<Rightarrow> bool" where
  "healthy_ok x = pred_option (\<lambda>r. 0 \<le> cr_Healthy r) (snd x)"

lemma build_from_counts:
  assumes "build_from meta states rs br = Some br'" "list_all healthy_ok rs"
    and "0 \<le> br_scoreCritical br" "br_scoreCritical br \<le> br_scoreChecked br"
  shows "0 \<le> br_scoreCritical br'" "br_scoreCritical br' \<le> br_scoreChecked br'"
    "br_scoreCritical br' = 0 \<longleftrightarrow> br_scoreCritical br = 0 \<and> \<not> list_ex (critical_shown states) rs"
proof -
  have "0 \<le> br_scoreCritical br' \<and> br_scoreCritical br' \<le> br_scoreChecked br' \<and>
      (br_scoreCritical br' = 0 \<longleftrightarrow> br_scoreCritical br = 0 \<and> \<not> list_ex (critical_shown states) rs)"
    using assms
  proof (induction meta states rs br rule: build_from.induct)
    case (3 meta states name r rs br)
    obtain checked critical where cc: "computeCheckerOperationalCounts (cr_Healthy r) (cr_Issues r) states = (checked, critical)"
      by (metis surj_pair)
    have h: "0 \<le> cr_Healthy r" using "3.prems"(2) by (simp add: healthy_ok_def)
    note o = operational_counts [OF cc h]
    show ?case
      using "3.IH" [OF refl] "3.prems" o cc
      by (cases "cr_Error r") (auto simp: count_result_def critical_shown_def Let_def list_ex_iff)
  qed auto
  then show "0 \<le> br_scoreCritical br'" "br_scoreCritical br' \<le> br_scoreChecked br'"
    "br_scoreCritical br' = 0 \<longleftrightarrow> br_scoreCritical br = 0 \<and> \<not> list_ex (critical_shown states) rs" by blast+
qed

lemma fl_just_below: "fl (1 - 1 / 2 ^ 53) = 1 - 1 / 2 ^ 53" "fl ((1 - 1 / 2 ^ 53) * 100) < 100"
  by code_simp+

lemma score_bounds:
  assumes "0 \<le> critical" "critical \<le> checked" "checked < 2 ^ 53"
  shows "0 \<le> computeOperationalHealthScore checked critical" "computeOperationalHealthScore checked critical \<le> 100"
    "computeOperationalHealthScore checked critical = 100 \<longleftrightarrow> critical = 0"
proof -
  have "0 \<le> computeOperationalHealthScore checked critical \<and> computeOperationalHealthScore checked critical \<le> 100 \<and>
    (computeOperationalHealthScore checked critical = 100 \<longleftrightarrow> critical = 0)"
  proof (cases "checked = 0")
    case False
    then have pos: "0 < checked" using assms by simp
    let ?q = "(of_int (checked - critical) :: rat) / of_int checked"
    have f: "float64 (checked - critical) = of_int (checked - critical)" "float64 checked = of_int checked"
      using assms by (simp_all add: float64_int)
    have s: "computeOperationalHealthScore checked critical = fl (fl ?q * 100)"
      using assms pos unfolding computeOperationalHealthScore_def Let_def fmul_def fdiv_def by (simp add: f del: of_int_diff)
    have q: "0 \<le> ?q" "?q \<le> 1" using assms pos by (auto simp: divide_le_eq_1)
    have fq: "0 \<le> fl ?q" "fl ?q \<le> 1" using q fl_unit by blast+
    have lo: "0 \<le> fl (fl ?q * 100)" using fq by (simp add: fl_nonneg)
    have hi: "fl (fl ?q * 100) \<le> 100" using fl_mono [of "fl ?q * 100" 100] fq by simp
    have "fl (fl ?q * 100) = 100 \<longleftrightarrow> critical = 0"
    proof (cases "critical = 0")
      case True
      then show ?thesis using pos by simp
    next
      case False
      have "of_int checked \<le> (2 ^ 53 :: rat)" using assms(3) by (metis less_imp_le of_int_le_iff of_int_numeral of_int_power)
      then have "(1 :: rat) / 2 ^ 53 \<le> of_int critical / of_int checked"
        using assms False pos by (intro frac_le) simp_all
      moreover have "?q = 1 - of_int critical / of_int checked" using pos by (simp add: diff_divide_distrib)
      ultimately have "?q \<le> 1 - 1 / 2 ^ 53" by linarith
      then have "fl ?q \<le> 1 - 1 / 2 ^ 53" using fl_mono fl_just_below(1) by metis
      then have "fl (fl ?q * 100) \<le> fl ((1 - 1 / 2 ^ 53) * 100)" by (intro fl_mono) simp
      then show ?thesis using fl_just_below(2) False by linarith
    qed
    then show ?thesis using lo hi s by simp
  qed (use assms in \<open>simp add: computeOperationalHealthScore_def\<close>)
  then show "0 \<le> computeOperationalHealthScore checked critical" "computeOperationalHealthScore checked critical \<le> 100"
    "computeOperationalHealthScore checked critical = 100 \<longleftrightarrow> critical = 0" by blast+
qed

text \<open>The health score of the dashboard lies between 0 and 100 after every rounding, and it is 100 exactly when no
  checker that ran has a critical issue that is not muted, as long as fewer than \<open>2 ^ 53\<close> resources are checked.\<close>

theorem operational_score:
  assumes "buildDashboardResults st states = Some br" "list_all healthy_ok (en_results st)" "br_scoreChecked br < 2 ^ 53"
  shows "0 \<le> computeOperationalHealthScore (br_scoreChecked br) (br_scoreCritical br) \<and>
    computeOperationalHealthScore (br_scoreChecked br) (br_scoreCritical br) \<le> 100 \<and>
    (computeOperationalHealthScore (br_scoreChecked br) (br_scoreCritical br) = 100) =
      (\<not> list_ex (critical_shown states) (en_results st))"
proof -
  note b = build_from_counts [OF assms(1) [unfolded buildDashboardResults_def] assms(2), simplified]
  show ?thesis using score_bounds [OF b(1,2) assms(3)] b(3) by simp
qed

text \<open>Three healthy resources, one with a critical issue and one with a warning.\<close>

definition ex_stored :: "string \<Rightarrow> string \<Rightarrow> stored_issue" where
  "ex_stored sev res = \<lparr>iss_Type = ''T'', iss_Severity = sev, iss_Resource = res, iss_Namespace = ''ns'',
     iss_Message = [], iss_Suggestion = [], iss_Metadata = None\<rparr>"

definition ex_checked :: enhancement where
  "ex_checked = \<lparr>en_results = [(''workloads'', Some \<lparr>cr_CheckerName = ''workloads'', cr_Healthy = 3,
       cr_Issues = [ex_stored SeverityCritical ''pod/a'', ex_stored SeverityWarning ''pod/b''], cr_Error = None\<rparr>)],
     en_meta = Map.empty, en_next = 0\<rparr>"

definition ex_muted :: issue_states where
  "ex_muted = [''ns/pod/b/T'' \<mapsto> \<lparr>st_Key = ''ns/pod/b/T'', st_Action = ActionAcknowledged, st_Reason = [],
     st_SnoozedUntil = None, st_CreatedAt = 0\<rparr>]"

definition shown_counts :: "enhancement \<Rightarrow> issue_states \<Rightarrow> (int \<times> int) option" where
  "shown_counts st states = map_option (\<lambda>br. (br_scoreChecked br, br_scoreCritical br)) (buildDashboardResults st states)"

lemma ex_checked_counts: "shown_counts ex_checked Map.empty = Some (5, 1)" "shown_counts ex_checked ex_muted = Some (4, 1)"
  by (simp_all add: shown_counts_def buildDashboardResults_def ex_checked_def ex_stored_def count_result_def ex_muted_def
    computeCheckerOperationalCounts_def resource_severities_def raise_severity_def severity_rank_def is_muted_def
    state_key_def resource_key_def severity_defs)

lemma ex_checked_scores: "computeOperationalHealthScore 5 1 = 80" "computeOperationalHealthScore 4 1 = 75"
  by code_simp+

text \<open>A resource whose issues are all muted is no longer counted as checked, so muting a warning lowers the score
  when something critical is left.\<close>

lemma muting_lowers_score:
  "map_option (\<lambda>(checked, critical). computeOperationalHealthScore checked critical) (shown_counts ex_checked Map.empty) = Some 80"
  "map_option (\<lambda>(checked, critical). computeOperationalHealthScore checked critical) (shown_counts ex_checked ex_muted) = Some 75"
  by (simp_all add: ex_checked_counts ex_checked_scores)

theorem operational_score_witness:
  "case buildDashboardResults ex_checked ex_muted of None \<Rightarrow> False
   | Some br \<Rightarrow> computeOperationalHealthScore (br_scoreChecked br) (br_scoreCritical br) < 100"
proof -
  obtain br where br: "buildDashboardResults ex_checked ex_muted = Some br" "br_scoreChecked br = 4" "br_scoreCritical br = 1"
    using ex_checked_counts(2) by (auto simp: shown_counts_def)
  have "list_all healthy_ok (en_results ex_checked)" by (simp add: ex_checked_def healthy_ok_def)
  from operational_score [OF br(1) this] br show ?thesis by (simp add: ex_checked_scores)
qed

end
