(* ===== verification/Dashboard_Pipeline.thy ===== *)
theory Dashboard_Pipeline
  imports Dashboard_Results Enrichment_Queue Issue_States "HOL-Library.Monad_Syntax"
begin

text \<open>
  The check loop of the dashboard and the enrichment that follows it (\<open>runCheckForCluster\<close>, \<open>handleEnrichmentResult\<close>
  and the helpers of \<open>internal/dashboard/ai_analysis.go\<close>, the settings of \<open>handlers_ai.go\<close>). A check is a sequence of
  stages, cut between the locked regions of the code (adjacent regions that read the same fields are one stage); what it carries from one to the next are its local variables
  (\<open>check_run\<close>). What the outside does (the checkers, the API server, the clock, the answer of the provider) is in
  environments. \<open>None\<close> is a panic. The addresses of the metadata maps matter in the results of the checkers only:
  the copies made for readers and for broadcasts are values. The status that a commit stores is shared by \<open>latest\<close> and
  \<open>lastAIResult\<close> in the code; the only write through it is the phase, which is never read from \<open>lastAIResult\<close>.
\<close>

section \<open>The server\<close>

datatype ai_provider = Managed Manager | Direct Provider

fun ai_available :: "ai_provider \<Rightarrow> bool option" where
  "ai_available (Managed m) = Available m"
| "ai_available (Direct p) = Some (provider_Available p)"

fun ai_name :: "ai_provider \<Rightarrow> string option" where
  "ai_name (Managed m) = Name m"
| "ai_name (Direct p) = Some (provider_Name p)"

text \<open>A subscriber: the cluster it asked for (empty for all), its channel and the capacity of that.\<close>

record sse_client =
  ss_cluster :: string
  ss_buffer :: "HealthUpdate list"
  ss_size :: nat

record server =
  sv_clusters :: clusters
  sv_clients :: "sse_client list"
  sv_provider :: "ai_provider option"
  sv_enabled :: bool
  sv_config :: Config
  sv_queue :: "enrichmentQueue option"
  sv_historySize :: int
  sv_maxIssues :: int
  sv_maxClients :: int

definition deliver :: "string \<Rightarrow> HealthUpdate \<Rightarrow> sse_client \<Rightarrow> sse_client" where
  "deliver cluster u c =
     (if ss_cluster c \<noteq> [] \<and> ss_cluster c \<noteq> cluster then c
      else if length (ss_buffer c) < ss_size c then c\<lparr>ss_buffer := ss_buffer c @ [u]\<rparr>
      else c)"

definition broadcastUpdate :: "string \<Rightarrow> HealthUpdate \<Rightarrow> server \<Rightarrow> server" where
  "broadcastUpdate cluster u sv = sv\<lparr>sv_clients := map (deliver cluster u) (sv_clients sv)\<rparr>"

definition put_cluster :: "string \<Rightarrow> clusterState \<Rightarrow> server \<Rightarrow> server" where
  "put_cluster cluster cs sv = sv\<lparr>sv_clusters := (sv_clusters sv)(cluster \<mapsto> cs)\<rparr>"

definition set_phase :: "string \<Rightarrow> HealthUpdate \<Rightarrow> HealthUpdate" where
  "set_phase phase u =
     u\<lparr>hu_AIStatus := Some ((case hu_AIStatus u of None \<Rightarrow> no_status | Some a \<Rightarrow> a)\<lparr>as_CheckPhase := phase\<rparr>)\<rparr>"

definition broadcastPhase :: "string \<Rightarrow> string \<Rightarrow> server \<Rightarrow> server" where
  "broadcastPhase cluster phase sv =
     (case sv_clusters sv cluster of
        None \<Rightarrow> sv
      | Some cs \<Rightarrow>
          (case cs_latest cs of
             None \<Rightarrow> sv
           | Some u \<Rightarrow>
               let u' = set_phase phase u
               in broadcastUpdate cluster u' (put_cluster cluster (cs\<lparr>cs_latest := Some u'\<rparr>) sv)))"

text \<open>A new subscriber, unless there are too many (\<open>handleSSE\<close>).\<close>

definition subscribe :: "string \<Rightarrow> nat \<Rightarrow> server \<Rightarrow> server option" where
  "subscribe cluster slots sv =
     (if sv_maxClients sv > 0 \<and> int (length (sv_clients sv)) \<ge> sv_maxClients sv then None
      else Some (sv\<lparr>sv_clients := sv_clients sv @ [\<lparr>ss_cluster = cluster, ss_buffer = [], ss_size = slots\<rparr>]\<rparr>))"

section \<open>Asking the provider\<close>

text \<open>What the provider of a request does when it is called: whether it says it is available, its answer, its name.\<close>

record ai_answer =
  aa_available :: bool
  aa_analyze :: "AnalysisRequest \<Rightarrow> provider_outcome"
  aa_name :: string

definition aiTruncationReason :: "AnalysisResponse option \<Rightarrow> string" where
  "aiTruncationReason resp =
     (case resp of
        None \<Rightarrow> (''AI returned no suggestions '' @ [CHR 0xE2, CHR 0x80, CHR 0x94] @
       '' retrying next cycle'')
      | Some r \<Rightarrow>
          if rs_Truncated r then (''AI response truncated by token limit '' @ [CHR 0xE2, CHR 0x80, CHR 0x94] @
       '' retrying next cycle'')
          else if rs_ParseFailed r then (''AI response could not be parsed '' @ [CHR 0xE2, CHR 0x80, CHR 0x94] @
       '' retrying next cycle'')
          else (''AI returned no suggestions '' @ [CHR 0xE2, CHR 0x80, CHR 0x94] @
       '' retrying next cycle''))"

record enriched =
  ei_status :: AIStatus
  ei_enhancements :: enhancements
  ei_insights :: "CausalGroupInsight list"
  ei_results :: enhancement
  ei_causal :: "CausalContext option"

definition runAIEnrichment :: "ai_answer \<Rightarrow> enhance_context \<Rightarrow> string \<Rightarrow> enhancement \<Rightarrow> CausalContext option \<Rightarrow>
    (provider_error + enriched) option" where
  "runAIEnrichment reply ctx model st causal =
     do {
       (out, st') \<leftarrow> EnhanceAllWithAI (ctx\<lparr>ec_available := Some (aa_available reply), ec_analyze := aa_analyze reply\<rparr>) st;
       Some (case eo_error out of
         Some e \<Rightarrow> Inl e
       | None \<Rightarrow>
           if eo_enhanced out > 0
           then let insights = (case eo_response out of None \<Rightarrow> [] | Some r \<Rightarrow> rs_CausalInsights r)
             in Inr \<lparr>ei_status = no_status\<lparr>as_Enabled := True, as_Provider := aa_name reply,
                    as_IssuesEnhanced := eo_enhanced out, as_TokensUsed := eo_tokens out,
                    as_EstimatedCostUSD := estimateCost (aa_name reply) model (eo_tokens out),
                    as_IssuesCapped := (eo_total out > eo_enhanced out \<and> eo_total out > 0),
                    as_TotalIssueCount := eo_total out, as_CheckPhase := ''done''\<rparr>,
                  ei_enhancements = snapshotAIEnhancements st', ei_insights = insights, ei_results = st',
                  ei_causal = applyCausalInsights insights causal\<rparr>
           else Inr \<lparr>ei_status = no_status\<lparr>as_Enabled := True, as_Provider := aa_name reply,
                    as_TotalIssueCount := eo_total out, as_LastError := aiTruncationReason (eo_response out),
                    as_CheckPhase := ''done''\<rparr>,
                  ei_enhancements = Map.empty, ei_insights = [], ei_results = st', ei_causal = causal\<rparr>)
     }"

section \<open>A check in stages\<close>

record 's check_env =
  ke_source :: "'s namespace_source"
  ke_everything :: 's                               \<comment> \<open>the empty label selector\<close>
  ke_results :: "string list \<Rightarrow> enhancement"        \<comment> \<open>what the registry returns for the namespaces\<close>
  ke_deployments :: "string \<Rightarrow> string + (int option \<times> int) list"
  ke_orders :: map_orders
  ke_correlator :: Correlator
  ke_enrich :: "(IssueContext list \<Rightarrow> IssueContext list) option"
  ke_now :: time
  ke_shown :: time                                  \<comment> \<open>when the issue states are copied\<close>
  ke_stored :: time                                 \<comment> \<open>when they are cleaned up\<close>
  ke_enqueued :: time
  ke_queue_order :: "pending_map \<Rightarrow> pending_map"

definition check_namespaces :: "'s check_env \<Rightarrow> string list" where
  "check_namespaces env =
     (let found = (case ResolveNamespaces (ke_source env) ''default''
                     \<lparr>sc_Namespaces = [], sc_NamespaceSelector = Some (ke_everything env), sc_CurrentNamespaceOnly = False\<rparr> of
                     Inl _ \<Rightarrow> [''default''] | Inr ns \<Rightarrow> ns);
          kept = FilterSystemNamespaces found
      in if kept = [] then [''default''] else kept)"

text \<open>The results with their metadata read from the store.\<close>

definition plain_issue :: "(nat \<rightharpoonup> metadata) \<Rightarrow> stored_issue \<Rightarrow> issue" where
  "plain_issue meta i = \<lparr>iss_Type = iss_Type i, iss_Severity = iss_Severity i, iss_Resource = iss_Resource i,
     iss_Namespace = iss_Namespace i, iss_Message = iss_Message i, iss_Suggestion = iss_Suggestion i,
     iss_Metadata = metadata_of meta i\<rparr>"

definition plain_results :: "enhancement \<Rightarrow> results" where
  "plain_results st = map (\<lambda>(name, ro). (name, map_option (\<lambda>r. \<lparr>cr_CheckerName = cr_CheckerName r,
     cr_Healthy = cr_Healthy r, cr_Issues = map (plain_issue (en_meta st)) (cr_Issues r), cr_Error = cr_Error r\<rparr>) ro))
     (en_results st)"

definition toCausalAnalysisContext :: "CausalContext option \<Rightarrow> CausalAnalysisContext option" where
  "toCausalAnalysisContext cco =
     (case cco of
        None \<Rightarrow> None
      | Some cc \<Rightarrow>
          if cx_Groups cc = [] then None
          else Some \<lparr>cac_Groups = map (\<lambda>g. \<lparr>cgs_Rule = cg_Rule g, cgs_Title = cg_Title g,
              cgs_RootCause = cg_RootCause g, cgs_Severity = cg_Severity g, cgs_Confidence = cg_Confidence g,
              cgs_Resources = map (\<lambda>e. iss_Namespace (te_Issue e) @ ''/'' @ iss_Resource (te_Issue e)) (cg_Events g)\<rparr>)
              (cx_Groups cc),
            cac_UncorrelatedCount = cx_UncorrelatedCount cc, cac_TotalIssues = cx_TotalIssues cc\<rparr>)"

lemma toCausal_is_ToAIContext: "toCausalAnalysisContext = ToAIContext"
  by (rule ext) (simp add: toCausalAnalysisContext_def ToAIContext_def)

record check_run =
  cu_cluster :: string
  cu_namespaces :: "string list"
  cu_results :: enhancement
  cu_causal :: "CausalContext option"
  cu_context :: enhance_context
  cu_provider :: "ai_provider option"
  cu_enabled :: bool
  cu_generation :: nat
  cu_hash :: string
  cu_model :: string
  cu_name :: string
  cu_status :: "AIStatus option"
  cu_update :: HealthUpdate

text \<open>Stage 1: the checkers run, their results are correlated, and the provider is read.\<close>

definition collect_check :: "'s check_env \<Rightarrow> string \<Rightarrow> server \<Rightarrow> check_run \<times> server" where
  "collect_check env cluster sv =
     (let nss = check_namespaces env; st = ke_results env nss;
          cc = causal_Analyze (ke_correlator env) (ke_orders env) \<lparr>ci_Results = plain_results st, ci_Timestamp = ke_now env\<rparr>
      in (\<lparr>cu_cluster = cluster, cu_namespaces = nss, cu_results = st, cu_causal = Some cc,
           cu_context = \<lparr>ec_enabled = sv_enabled sv, ec_available = None, ec_analyze = (\<lambda>_. Inr None),
             ec_enrich = ke_enrich env,
             ec_cluster = \<lparr>cl_KubernetesVersion = [], cl_Provider = [], cl_FluxVersion = [], cl_Namespaces = nss\<rparr>,
             ec_causal = toCausalAnalysisContext (Some cc), ec_maxIssues = sv_maxIssues sv, ec_minConfidence = 0\<rparr>,
           cu_provider = sv_provider sv, cu_enabled = sv_enabled sv, cu_generation = 0, cu_hash = [], cu_model = [],
           cu_name = [], cu_status = None,
           cu_update = \<lparr>hu_Timestamp = ke_now env, hu_ClusterID = cluster, hu_Namespaces = nss, hu_Results = [],
             hu_Summary = no_summary, hu_AIStatus = None, hu_IssueStates = Map.empty\<rparr>\<rparr>,
          broadcastPhase cluster ''causal'' (broadcastPhase cluster ''checkers'' sv)))"

text \<open>Stage 2: the generation.\<close>

definition number_check :: "check_run \<Rightarrow> server \<Rightarrow> check_run \<times> server" where
  "number_check cu sv =
     (let (cs, cls) = getOrCreateClusterState (sv_historySize sv) (cu_cluster cu) (sv_clusters sv);
          g = cs_checkCounter cs + 1
      in (cu\<lparr>cu_generation := g\<rparr>, put_cluster (cu_cluster cu) (cs\<lparr>cs_checkCounter := g\<rparr>) (sv\<lparr>sv_clusters := cls\<rparr>)))"

definition ai_usable :: "bool \<Rightarrow> ai_provider option \<Rightarrow> bool option" where
  "ai_usable enabled provider =
     (case provider of None \<Rightarrow> Some False | Some p \<Rightarrow> if enabled then ai_available p else Some False)"

definition provider_text :: "ai_provider option \<Rightarrow> string option" where
  "provider_text provider = (case provider of None \<Rightarrow> Some [] | Some p \<Rightarrow> ai_name p)"

definition cached_status :: "string \<Rightarrow> AIStatus \<Rightarrow> AIStatus" where
  "cached_status name cached = no_status\<lparr>as_Enabled := True, as_Provider := name,
     as_IssuesEnhanced := as_IssuesEnhanced cached, as_CacheHit := True,
     as_TotalIssueCount := as_TotalIssueCount cached, as_CheckPhase := ''done''\<rparr>"

definition pending_status :: "string \<Rightarrow> AIStatus" where
  "pending_status name = no_status\<lparr>as_Enabled := True, as_Provider := name, as_Pending := True, as_CheckPhase := ''ai''\<rparr>"

text \<open>The cached result is used when the issues are those of the last commit.\<close>

definition cache_hit :: "string \<Rightarrow> clusterState \<Rightarrow> AIStatus option" where
  "cache_hit hash cs = (if hash = cs_lastAICacheHash cs then cs_lastAIResult cs else None)"

text \<open>Stage 3: the cached advice is put back, or the provider is to be asked. \<open>hash\<close> is the digest of the issues.\<close>

definition plan_check :: "(string \<Rightarrow> string) \<Rightarrow> check_run \<Rightarrow> server \<Rightarrow> (check_run \<times> server) option" where
  "plan_check digest cu sv =
     do {
       hash \<leftarrow> computeIssueHash digest (en_results (cu_results cu));
       cs \<leftarrow> sv_clusters sv (cu_cluster cu);
       usable \<leftarrow> ai_usable (cu_enabled cu) (cu_provider cu);
       name \<leftarrow> provider_text (cu_provider cu);
       let cu1 = cu\<lparr>cu_hash := hash, cu_model := cf_Model (sv_config sv), cu_name := name\<rparr>;
       Some (if \<not> usable then (cu1, sv)
         else let sv1 = broadcastPhase (cu_cluster cu) ''ai'' sv in
           (case cache_hit hash cs of
              Some cached \<Rightarrow>
                (cu1\<lparr>cu_status := Some (cached_status name cached),
                     cu_results := reapplyAIEnhancements (cs_lastAIEnhancements cs) (cu_results cu),
                     cu_causal := applyCausalInsights (cs_lastCausalInsights cs) (cu_causal cu)\<rparr>, sv1)
            | None \<Rightarrow> (cu1\<lparr>cu_status := Some (pending_status name)\<rparr>, sv1)))
     }"

text \<open>Stage 4: the update is built and stored.\<close>

definition build_update :: "'s check_env \<Rightarrow> check_run \<Rightarrow> issue_states \<Rightarrow> HealthUpdate option" where
  "build_update env cu states =
     do {
       br \<leftarrow> buildDashboardResults (cu_results cu) states;
       let (ready, desired, readiness) = computeDeploymentReadiness (ke_deployments env) (cu_namespaces cu);
       Some ((cu_update cu)\<lparr>hu_Results := br_Results br, hu_AIStatus := cu_status cu,
         hu_Summary := (br_Summary br)\<lparr>su_HealthScore := computeOperationalHealthScore (br_scoreChecked br) (br_scoreCritical br),
           su_DeploymentReady := ready, su_DeploymentDesired := desired, su_DeploymentReadinessScore := readiness\<rparr>\<rparr>)
     }"

definition store_check :: "(string \<Rightarrow> string) \<Rightarrow> 's check_env \<Rightarrow> check_run \<Rightarrow> server \<Rightarrow> (check_run \<times> server) option" where
  "store_check digest env cu sv =
     do {
       cs \<leftarrow> sv_clusters sv (cu_cluster cu);
       u \<leftarrow> build_update env cu (unexpired (ke_shown env) (cs_issueStates cs));
       let cs' = prune (ke_stored env) cs;
       let u' = u\<lparr>hu_IssueStates := cs_issueStates cs'\<rparr>;
       Some (cu\<lparr>cu_update := u'\<rparr>,
         broadcastUpdate (cu_cluster cu) u'
           (put_cluster (cu_cluster cu) (cs'\<lparr>cs_latest := Some u', cs_latestCausal := cu_causal cu,
              cs_currentIssueHash := cu_hash cu, cs_aiConfigVersion := configVersionHash digest (cu_name cu) (cu_model cu)\<rparr>) sv))
     }"

text \<open>Stage 5: the history.\<close>

definition health_snapshot :: "HealthUpdate \<Rightarrow> HealthSnapshot" where
  "health_snapshot u =
     \<lparr>sn_Timestamp = hu_Timestamp u, sn_TotalHealthy = su_TotalHealthy (hu_Summary u),
      sn_TotalIssues = su_TotalIssues (hu_Summary u),
      sn_BySeverity = [''Critical'' \<mapsto> su_CriticalCount (hu_Summary u), ''Warning'' \<mapsto> su_WarningCount (hu_Summary u),
        ''Info'' \<mapsto> su_InfoCount (hu_Summary u)],
      sn_ByChecker = map_of (map (\<lambda>(name, r). (name, int (length (dr_Issues r)))) (hu_Results u)),
      sn_HealthScore = su_HealthScore (hu_Summary u)\<rparr>"

definition record_check :: "check_run \<Rightarrow> server \<Rightarrow> server option" where
  "record_check cu sv =
     do {
       cs \<leftarrow> sv_clusters sv (cu_cluster cu);
       h \<leftarrow> history_Add (health_snapshot (cu_update cu)) (cs_history cs);
       Some (put_cluster (cu_cluster cu) (cs\<lparr>cs_history := h\<rparr>) sv)
     }"

text \<open>Stage 6: the provider is asked by way of the queue.\<close>

definition wants_enrichment :: "check_run \<Rightarrow> bool" where
  "wants_enrichment cu = (case cu_status cu of None \<Rightarrow> False | Some a \<Rightarrow> as_Pending a)"

definition check_request :: "(string \<Rightarrow> string) \<Rightarrow> 's check_env \<Rightarrow> check_run \<Rightarrow> request" where
  "check_request digest env cu =
     \<lparr>er_clusterID = cu_cluster cu, er_generation = cu_generation cu, er_issueHash = cu_hash cu,
      er_configVersion = configVersionHash digest (cu_name cu) (cu_model cu), er_results = deepCopyResults (cu_results cu),
      er_causalCtx = cu_causal cu, er_checkCtx = minimalCheckContext (cu_context cu), er_provider = cu_name cu,
      er_aiModel = cu_model cu, er_enqueuedAt = ke_enqueued env\<rparr>"

text \<open>A status that takes an error, with the enrichment no longer pending.\<close>

definition degrade :: "string \<Rightarrow> HealthUpdate \<Rightarrow> HealthUpdate" where
  "degrade e u = u\<lparr>hu_AIStatus := map_option (\<lambda>a. a\<lparr>as_Pending := False, as_LastError := e, as_CheckPhase := ''done''\<rparr>) (hu_AIStatus u)\<rparr>"

definition queue_full :: "check_run \<Rightarrow> server \<Rightarrow> server" where
  "queue_full cu sv =
     (case sv_clusters sv (cu_cluster cu) of
        None \<Rightarrow> sv
      | Some cs \<Rightarrow>
          (case cs_latest cs of
             None \<Rightarrow> sv
           | Some u \<Rightarrow>
               let u' = (if cs_checkCounter cs = cu_generation cu then degrade ''enrichment queue full'' u else u)
               in broadcastUpdate (cu_cluster cu) u' (put_cluster (cu_cluster cu) (cs\<lparr>cs_latest := Some u'\<rparr>) sv)))"

definition enqueue_check :: "(string \<Rightarrow> string) \<Rightarrow> 's check_env \<Rightarrow> check_run \<Rightarrow> server \<Rightarrow> server option" where
  "enqueue_check digest env cu sv =
     (if \<not> wants_enrichment cu then Some sv
      else case sv_queue sv of
        None \<Rightarrow> Some sv
      | Some q \<Rightarrow>
          map_option (\<lambda>(accepted, q'). let sv' = sv\<lparr>sv_queue := Some q'\<rparr> in if accepted then sv' else queue_full cu sv')
            (Enqueue (ke_queue_order env) (check_request digest env cu) q))"

definition runCheckForCluster :: "(string \<Rightarrow> string) \<Rightarrow> 's check_env \<Rightarrow> string \<Rightarrow> server \<Rightarrow> server option" where
  "runCheckForCluster digest env cluster sv =
     do {
       let (cu, sv) = collect_check env cluster sv;
       let (cu, sv) = number_check cu sv;
       (cu, sv) \<leftarrow> plan_check digest cu sv;
       (cu, sv) \<leftarrow> store_check digest env cu sv;
       sv \<leftarrow> record_check cu sv;
       enqueue_check digest env cu sv
     }"

section \<open>The worker\<close>

text \<open>Whether the request is still wanted before the provider is asked.\<close>

definition preflight :: "request \<Rightarrow> server \<Rightarrow> bool" where
  "preflight req sv =
     (case sv_clusters sv (er_clusterID req) of
        None \<Rightarrow> False
      | Some cs \<Rightarrow> cs_checkCounter cs = er_generation req \<and> cs_aiConfigVersion cs = er_configVersion req)"

definition still_current :: "request \<Rightarrow> clusterState \<Rightarrow> bool" where
  "still_current req cs \<longleftrightarrow> cs_checkCounter cs = er_generation req \<and> cs_currentIssueHash cs = er_issueHash req \<and>
     cs_aiConfigVersion cs = er_configVersion req"

definition committed_cluster :: "request \<Rightarrow> enriched \<Rightarrow> HealthUpdate \<Rightarrow> clusterState \<Rightarrow> clusterState" where
  "committed_cluster req en u cs =
     cs\<lparr>cs_lastAICacheHash := er_issueHash req, cs_lastAIResult := Some (ei_status en),
        cs_lastAIEnhancements := ei_enhancements en,
        cs_lastCausalInsights := (if ei_insights en \<noteq> [] then ei_insights en else cs_lastCausalInsights cs),
        cs_latestCausal := (if ei_insights en \<noteq> [] then applyCausalInsights (ei_insights en) (cs_latestCausal cs)
          else cs_latestCausal cs),
        cs_latest := Some (u\<lparr>hu_AIStatus := Some (ei_status en),
          hu_Results := patchDashboardResults (ei_results en) (hu_Results u)\<rparr>)\<rparr>"

text \<open>What becomes of the cluster after the call, which is broadcast when it changed.\<close>

definition finish_cluster :: "request \<Rightarrow> provider_error + enriched \<Rightarrow> clusterState \<Rightarrow> clusterState option" where
  "finish_cluster req result cs =
     (case result of
        Inl e \<Rightarrow> (case cs_latest cs of
            None \<Rightarrow> None
          | Some u \<Rightarrow> if cs_checkCounter cs = er_generation req \<and> hu_AIStatus u \<noteq> None
              then Some (cs\<lparr>cs_latest := Some (degrade (error_text e) u)\<rparr>) else None)
      | Inr en \<Rightarrow> (case cs_latest cs of
            None \<Rightarrow> None
          | Some u \<Rightarrow> if still_current req cs then Some (committed_cluster req en u cs) else None))"

definition finish_enrichment :: "request \<Rightarrow> provider_error + enriched \<Rightarrow> server \<Rightarrow> server" where
  "finish_enrichment req result sv =
     (case sv_clusters sv (er_clusterID req) of
        None \<Rightarrow> sv
      | Some cs \<Rightarrow>
          (case finish_cluster req result cs of
             None \<Rightarrow> sv
           | Some cs' \<Rightarrow>
               let sv' = put_cluster (er_clusterID req) cs' sv
               in (case cs_latest cs' of None \<Rightarrow> sv' | Some u \<Rightarrow> broadcastUpdate (er_clusterID req) u sv')))"

definition release_cluster :: "(pending_map \<Rightarrow> pending_map) \<Rightarrow> string \<Rightarrow> server \<Rightarrow> server option" where
  "release_cluster ord cluster sv =
     (case sv_queue sv of
        None \<Rightarrow> None
      | Some q \<Rightarrow> map_option (\<lambda>q'. sv\<lparr>sv_queue := Some q'\<rparr>) (markDone ord cluster q))"

text \<open>The worker without interference between its two looks at the cluster.\<close>

definition handleEnrichmentResult :: "(pending_map \<Rightarrow> pending_map) \<Rightarrow> ai_answer \<Rightarrow> request \<Rightarrow> server \<Rightarrow> server option" where
  "handleEnrichmentResult ord reply req sv =
     (if preflight req sv
      then do {
        result \<leftarrow> runAIEnrichment reply (er_checkCtx req) (er_aiModel req) (er_results req) (er_causalCtx req);
        release_cluster ord (er_clusterID req) (finish_enrichment req result sv)
      }
      else release_cluster ord (er_clusterID req) sv)"

section \<open>Asking without a queue\<close>

text \<open>The status and the results to show when the cached advice stands in for an answer.\<close>

definition reuse_cached :: "string \<Rightarrow> bool \<Rightarrow> string \<Rightarrow> AIStatus \<Rightarrow> clusterState \<Rightarrow> enhancement \<Rightarrow> CausalContext option \<Rightarrow>
    AIStatus \<times> enhancement \<times> CausalContext option" where
  "reuse_cached name enabled e cached cs st causal =
     ((cached_status name cached)\<lparr>as_Enabled := enabled, as_LastError := e\<rparr>,
      reapplyAIEnhancements (cs_lastAIEnhancements cs) st, applyCausalInsights (cs_lastCausalInsights cs) causal)"

definition handleAIErrorForCluster :: "string \<Rightarrow> enhancement \<Rightarrow> CausalContext option \<Rightarrow> bool \<Rightarrow> string \<Rightarrow> int \<Rightarrow> clusterState \<Rightarrow>
    AIStatus \<times> enhancement \<times> CausalContext option" where
  "handleAIErrorForCluster e st causal enabled name issues cs =
     (let failed = (no_status\<lparr>as_Enabled := enabled, as_Provider := name, as_TotalIssueCount := issues, as_LastError := e,
            as_CheckPhase := ''done''\<rparr>, st, causal)
      in case cs_lastAIResult cs of
           None \<Rightarrow> failed
         | Some cached \<Rightarrow> if as_LastError cached = [] then reuse_cached name enabled (''retrying: '' @ e) cached cs st causal else failed)"

definition handleAITruncatedForCluster :: "enhancement \<Rightarrow> CausalContext option \<Rightarrow> bool \<Rightarrow> string \<Rightarrow> int \<Rightarrow> clusterState \<Rightarrow>
    AnalysisResponse option \<Rightarrow> AIStatus \<times> enhancement \<times> CausalContext option" where
  "handleAITruncatedForCluster st causal enabled name issues cs resp =
     (let truncated = (no_status\<lparr>as_Enabled := enabled, as_Provider := name, as_TotalIssueCount := issues,
            as_LastError := aiTruncationReason resp, as_CheckPhase := ''done''\<rparr>, st, causal)
      in case cs_lastAIResult cs of
           None \<Rightarrow> truncated
         | Some cached \<Rightarrow> if as_IssuesEnhanced cached > 0 then reuse_cached name enabled [] cached cs st causal else truncated)"

text \<open>The status (\<open>None\<close> when AI is off), the results and groups as they were changed, and the cluster. The name is that
  of the provider.\<close>

definition runAIAnalysisForCluster :: "(string \<Rightarrow> string) \<Rightarrow> ai_answer \<Rightarrow> enhancement \<Rightarrow> CausalContext option \<Rightarrow> enhance_context \<Rightarrow>
    bool \<Rightarrow> ai_provider option \<Rightarrow> string \<Rightarrow> clusterState \<Rightarrow>
    ((AIStatus \<times> enhancement \<times> CausalContext option) option \<times> clusterState) option" where
  "runAIAnalysisForCluster digest reply st causal ctx enabled provider model cs =
     do {
       hash \<leftarrow> computeIssueHash digest (en_results st);
       usable \<leftarrow> ai_usable enabled provider;
       if \<not> usable then Some (None, cs)
       else case cache_hit hash cs of
         Some cached \<Rightarrow> Some (Some (reuse_cached (aa_name reply) enabled [] cached cs st causal), cs)
       | None \<Rightarrow>
           do {
             result \<leftarrow> runAIEnrichment reply ctx model st causal;
             Some (case result of
                 Inl e \<Rightarrow> (Some (handleAIErrorForCluster (error_text e) st causal enabled (aa_name reply) 0 cs), cs)
               | Inr en \<Rightarrow>
                   (Some (ei_status en, ei_results en, ei_causal en),
                    if as_IssuesEnhanced (ei_status en) > 0
                    then cs\<lparr>cs_lastAICacheHash := hash, cs_lastAIResult := Some (ei_status en),
                      cs_lastAIEnhancements := ei_enhancements en,
                      cs_lastCausalInsights := (if ei_insights en \<noteq> [] then ei_insights en else cs_lastCausalInsights cs)\<rparr>
                    else cs))
           }
     }"

section \<open>Settings\<close>

record AISettingsRequest =
  sq_Enabled :: bool
  sq_Provider :: string
  sq_APIKey :: string
  sq_ClearAPIKey :: bool
  sq_Model :: string
  sq_ExplainModel :: string

record AISettingsResponse =
  sr_Enabled :: bool
  sr_Provider :: string
  sr_Model :: string
  sr_ExplainModel :: string
  sr_HasAPIKey :: bool
  sr_ProviderReady :: bool

definition maxModelLen :: nat where "maxModelLen = 128"

definition settings_error :: "AISettingsRequest \<Rightarrow> string option" where
  "settings_error req =
     (if sq_APIKey req \<noteq> [] then Some ''Direct apiKey submission is not allowed; use secretRef-based configuration''
      else if length (sq_Model req) > maxModelLen then Some (''model exceeds maximum length of '' @ itoa (int maxModelLen))
      else if length (sq_ExplainModel req) > maxModelLen
      then Some (''explainModel exceeds maximum length of '' @ itoa (int maxModelLen))
      else if to_lower (sq_Provider req) \<notin> {[], ''noop'', ''openai'', ''anthropic''}
      then Some ''Invalid provider: must be one of noop, openai, anthropic''
      else None)"

definition staged_config :: "AISettingsRequest \<Rightarrow> Config \<Rightarrow> Config" where
  "staged_config req cfg =
     cfg\<lparr>cf_Provider := (if to_lower (sq_Provider req) \<noteq> [] then to_lower (sq_Provider req) else cf_Provider cfg),
       cf_APIKey := (if sq_ClearAPIKey req then [] else cf_APIKey cfg),
       cf_Model := (if sq_Model req \<noteq> [] then sq_Model req else cf_Model cfg),
       cf_ExplainModel := sq_ExplainModel req\<rparr>"

text \<open>The caches of every cluster are cleared; the generation and the configuration version stay.\<close>

definition clear_cluster :: "AISettingsRequest \<Rightarrow> Config \<Rightarrow> clusterState \<Rightarrow> clusterState" where
  "clear_cluster req cfg cs =
     cs\<lparr>cs_lastAICacheHash := [], cs_lastAIResult := None, cs_lastAIEnhancements := Map.empty, cs_lastCausalInsights := [],
        cs_lastExplain := None,
        cs_latest := map_option (\<lambda>u. u\<lparr>hu_AIStatus := Some (no_status\<lparr>as_Enabled := sq_Enabled req,
          as_Provider := cf_Provider cfg, as_Pending := True\<rparr>)\<rparr>) (cs_latest cs)\<rparr>"

definition commit_settings :: "AISettingsRequest \<Rightarrow> Config \<Rightarrow> ai_provider \<Rightarrow> server \<Rightarrow> server" where
  "commit_settings req cfg provider sv =
     sv\<lparr>sv_enabled := sq_Enabled req, sv_config := cfg, sv_provider := Some provider,
        sv_clusters := (\<lambda>c. map_option (clear_cluster req cfg) (sv_clusters sv c))\<rparr>"

definition settings_response :: "AISettingsRequest \<Rightarrow> Config \<Rightarrow> bool \<Rightarrow> AISettingsResponse" where
  "settings_response req cfg ready = \<lparr>sr_Enabled = sq_Enabled req, sr_Provider = cf_Provider cfg, sr_Model = cf_Model cfg,
     sr_ExplainModel = cf_ExplainModel cfg, sr_HasAPIKey = (cf_APIKey cfg \<noteq> []), sr_ProviderReady = ready\<rparr>"

text \<open>The provider after new settings: a manager is reconfigured, anything else is made anew.\<close>

definition new_provider :: "(string \<Rightarrow> string) \<Rightarrow> time \<Rightarrow> AISettingsRequest \<Rightarrow> Config \<Rightarrow> ai_provider option \<Rightarrow> string + ai_provider" where
  "new_provider getenv now req cfg provider =
     (case provider of
        Some (Managed m) \<Rightarrow>
          (case Reconfigure getenv now (cf_Provider cfg) (cf_APIKey cfg) (cf_Model cfg) (cf_ExplainModel cfg) m of
             (Some e, _) \<Rightarrow> Inl ''Failed to reconfigure AI provider''
           | (None, m') \<Rightarrow> Inr (Managed (SetEnabled (sq_Enabled req) m')))
      | _ \<Rightarrow>
          (case NewProvider getenv now cfg of
             Inl e \<Rightarrow> Inl ''Failed to create AI provider''
           | Inr (p, _, _) \<Rightarrow> Inr (Direct p)))"

fun provider_ready :: "ai_provider \<Rightarrow> bool option" where
  "provider_ready (Managed m) = ProviderAvailable m"
| "provider_ready (Direct p) = Some (provider_Available p)"

text \<open>A check is started after the answer; it is a step of its own.\<close>

definition handlePostAISettings :: "(string \<Rightarrow> string) \<Rightarrow> time \<Rightarrow> AISettingsRequest body \<Rightarrow> server \<Rightarrow>
    (AISettingsResponse answer \<times> server) option" where
  "handlePostAISettings getenv now b sv =
     (case decodeJSONBody b of
        Inl (code, e) \<Rightarrow> Some (HttpError code e, sv)
      | Inr req \<Rightarrow>
          (case settings_error req of
             Some e \<Rightarrow> Some (HttpError 400 e, sv)
           | None \<Rightarrow>
               let cfg = staged_config req (sv_config sv) in
               (case new_provider getenv now req cfg (sv_provider sv) of
                  Inl e \<Rightarrow> Some (HttpError 500 e, sv)
                | Inr p \<Rightarrow> map_option (\<lambda>ready. (HttpOk 200 (settings_response req cfg ready), commit_settings req cfg p sv))
                    (provider_ready p))))"

definition handleGetAISettings :: "server \<Rightarrow> AISettingsResponse option" where
  "handleGetAISettings sv =
     map_option (\<lambda>ready. \<lparr>sr_Enabled = sv_enabled sv, sr_Provider = cf_Provider (sv_config sv),
         sr_Model = cf_Model (sv_config sv), sr_ExplainModel = cf_ExplainModel (sv_config sv),
         sr_HasAPIKey = (cf_APIKey (sv_config sv) \<noteq> []), sr_ProviderReady = ready\<rparr>)
       (case sv_provider sv of None \<Rightarrow> Some False | Some p \<Rightarrow> provider_ready p)"

end
