(* ===== verification/Dashboard_Flow.thy ===== *)
theory Dashboard_Flow
  imports Dashboard_Pipeline
begin

text \<open>
  The checks of all clusters, the worker of the enrichment queue, and the requests of users, interleaved at the stages
  of \<open>Dashboard_Pipeline\<close>. The periodic and the requested checks exclude each other, the check at the start of the server
  runs beside them. In every reachable state the dashboard shows the results of the last stored check of the
  cluster, each issue with the suggestion it had or with advice that an enrichment wrote for it, unless the enrichment
  was committed after the first check had overlapped with another one.
\<close>

section \<open>Results with advice added\<close>

text \<open>Equal but for the addresses of the metadata.\<close>

definition same_issue :: "'m Issue \<Rightarrow> 'm Issue \<Rightarrow> bool" where
  "same_issue i j \<longleftrightarrow> iss_Type j = iss_Type i \<and> iss_Severity j = iss_Severity i \<and> iss_Resource j = iss_Resource i \<and>
     iss_Namespace j = iss_Namespace i \<and> iss_Message j = iss_Message i \<and> iss_Suggestion j = iss_Suggestion i"

text \<open>The same issue with a suggestion that is the old one or extends it by marked advice.\<close>

definition advised_issue :: "'m Issue \<Rightarrow> 'm Issue \<Rightarrow> bool" where
  "advised_issue i j \<longleftrightarrow> iss_Type j = iss_Type i \<and> iss_Severity j = iss_Severity i \<and> iss_Resource j = iss_Resource i \<and>
     iss_Namespace j = iss_Namespace i \<and> iss_Message j = iss_Message i \<and> prefix (iss_Suggestion i) (iss_Suggestion j)"

definition results_rel :: "('m Issue \<Rightarrow> 'm Issue \<Rightarrow> bool) \<Rightarrow> (string \<times> 'm CheckResult option) list \<Rightarrow>
    (string \<times> 'm CheckResult option) list \<Rightarrow> bool" where
  "results_rel R = list_all2 (\<lambda>(n, ro) (n', ro'). n = n' \<and> rel_option (\<lambda>r s. cr_CheckerName s = cr_CheckerName r \<and>
     cr_Healthy s = cr_Healthy r \<and> cr_Error s = cr_Error r \<and> list_all2 R (cr_Issues r) (cr_Issues s)) ro ro')"

lemma results_rel_names: "results_rel R rs ss \<Longrightarrow> map fst ss = map fst rs"
  unfolding results_rel_def by (induction rs ss rule: list_all2_induct) auto

lemma results_rel_map_of:
  "results_rel R rs ss \<Longrightarrow> rel_option (rel_option (\<lambda>r s. cr_CheckerName s = cr_CheckerName r \<and> cr_Healthy s = cr_Healthy r \<and>
     cr_Error s = cr_Error r \<and> list_all2 R (cr_Issues r) (cr_Issues s))) (map_of rs n) (map_of ss n)"
  unfolding results_rel_def by (induction rs ss rule: list_all2_induct) auto

lemma results_rel_no_nil: "results_rel R rs ss \<Longrightarrow> list_all (\<lambda>(n, ro). ro \<noteq> None) rs \<Longrightarrow> list_all (\<lambda>(n, ro). ro \<noteq> None) ss"
  unfolding results_rel_def by (induction rs ss rule: list_all2_induct) (auto simp: option_rel_Some1)

lemma results_kept_rel: "results_kept rs ss \<longleftrightarrow> results_rel issue_kept rs ss"
  by (simp add: results_kept_def results_rel_def result_kept_def [abs_def])

lemma results_rel_compose:
  assumes "results_rel R rs ss" "results_rel S ss ts" "\<And>i j k. R i j \<Longrightarrow> S j k \<Longrightarrow> T i k"
  shows "results_rel T rs ts"
  unfolding results_rel_def
  by (rule list_all2_trans [OF _ assms(1,2) [unfolded results_rel_def]])
    (auto simp: option_rel_Some1 option_rel_Some2 elim!: option.rel_cases intro: list_all2_trans [OF assms(3)])

lemma same_kept_advised: "same_issue i j \<Longrightarrow> issue_kept j k \<Longrightarrow> advised_issue i k"
  by (simp add: same_issue_def issue_kept_def advised_issue_def)

lemma copy_issues_same:
  "fold (copy_issue src) xs (n, m, acc) = (n', m', acc') \<Longrightarrow> \<exists>ys. acc' = acc @ ys \<and> list_all2 same_issue xs ys"
proof (induction xs arbitrary: n m acc)
  case (Cons x xs)
  obtain n1 m1 y where s: "copy_issue src x (n, m, acc) = (n1, m1, acc @ [y])" "same_issue x y"
    by (cases "metadata_of src x") (simp_all add: copy_issue_def same_issue_def)
  then have "fold (copy_issue src) xs (n1, m1, acc @ [y]) = (n', m', acc')" using Cons.prems by simp
  then obtain ys where "acc' = (acc @ [y]) @ ys" "list_all2 same_issue xs ys" using Cons.IH by blast
  then show ?case using s(2) by (intro exI [of _ "y # ys"]) simp
qed simp

lemma copy_results_same: "results_rel same_issue rs (en_results (copy_results src rs n m))"
proof (induction src rs n m rule: copy_results.induct)
  case (3 src name r rs n m)
  obtain n' m' ys where f: "fold (copy_issue src) (cr_Issues r) (n, m, []) = (n', m', ys)" by (metis prod_cases3)
  then have "list_all2 same_issue (cr_Issues r) ys" using copy_issues_same by fastforce
  then show ?case using "3.IH" [OF f [symmetric] refl] by (simp add: f results_rel_def Let_def)
qed (auto simp: results_rel_def Let_def)

lemma deepCopy_same: "results_rel same_issue (en_results st) (en_results (deepCopyResults st))"
  unfolding deepCopyResults_def by (rule copy_results_same)

text \<open>What an enrichment leaves: every issue with the advice it got.\<close>

lemma enriched_advised:
  assumes "runAIEnrichment reply ctx model st causal = Some (Inr en)" "results_rel same_issue rs (en_results st)"
    and "distinct (map fst rs)" "list_all (\<lambda>(n, ro). ro \<noteq> None) rs"
  shows "results_rel advised_issue rs (en_results (ei_results en))"
proof -
  let ?ctx = "ctx\<lparr>ec_available := Some (aa_available reply), ec_analyze := aa_analyze reply\<rparr>"
  obtain out st' where e: "EnhanceAllWithAI ?ctx st = Some (out, st')" "ei_results en = st'"
    using assms(1) by (auto simp: runAIEnrichment_def Let_def split: bind_splits option.splits if_splits)
  have "distinct (map fst (en_results st))" using assms(2,3) by (simp add: results_rel_names)
  moreover have "list_all (\<lambda>(n, ro). ro \<noteq> None) (en_results st)" by (rule results_rel_no_nil [OF assms(2,4)])
  ultimately have "results_kept (en_results st) (en_results st')" using enhance_all_kept [of st ?ctx] e(1) by auto
  then show ?thesis
    using results_rel_compose [OF assms(2) _ same_kept_advised] e(2) by (simp add: results_kept_rel)
qed

section \<open>What is shown of the results\<close>

text \<open>An issue as shown of a stored one: its suggestion may be any text that \<open>S\<close> allows for it.\<close>

definition shown_for :: "(stored_issue \<Rightarrow> string \<Rightarrow> bool) \<Rightarrow> stored_issue \<Rightarrow> DashIssue \<Rightarrow> bool" where
  "shown_for S i d \<longleftrightarrow> dx_Type d = iss_Type i \<and> dx_Severity d = iss_Severity i \<and> dx_Resource d = iss_Resource i \<and>
     dx_Namespace d = iss_Namespace i \<and> dx_Message d = iss_Message i \<and>
     (\<exists>s. S i s \<and> dx_Suggestion d = shown_suggestion s \<and> dx_AIEnhanced d = has_advice s)"

definition result_shown :: "(stored_issue \<Rightarrow> string \<Rightarrow> bool) \<Rightarrow> string \<Rightarrow> stored_result \<Rightarrow> DashResult \<Rightarrow> bool" where
  "result_shown S name r d \<longleftrightarrow> dr_Name d = name \<and> dr_Healthy d = cr_Healthy r \<and>
     dr_Error d = (case cr_Error r of None \<Rightarrow> [] | Some e \<Rightarrow> e) \<and>
     list_all2 (shown_for S) (if cr_Error r = None then cr_Issues r else []) (dr_Issues d)"

definition results_shown :: "(stored_issue \<Rightarrow> string \<Rightarrow> bool) \<Rightarrow> (string \<times> stored_result option) list \<Rightarrow> (string \<times> DashResult) list \<Rightarrow> bool" where
  "results_shown S rs ds \<longleftrightarrow>
     (\<forall>name. rel_option (\<lambda>ro d. pred_option (\<lambda>r. result_shown S name r d) ro \<and> ro \<noteq> None) (map_of rs name) (map_of ds name))"

text \<open>The suggestion of the issue itself, or the one an enrichment left on an issue with the same type, severity,
  resource, namespace and message, which extends it.\<close>

definition written_for :: "stored_issue set \<Rightarrow> stored_issue \<Rightarrow> string \<Rightarrow> bool" where
  "written_for A i s \<longleftrightarrow> s = iss_Suggestion i \<or> (\<exists>e \<in> A. advised_issue i e \<and> iss_Suggestion e = s)"

definition issues_in :: "enhancement \<Rightarrow> stored_issue set" where
  "issues_in st = (\<Union>r \<in> {r. \<exists>n. map_of (en_results st) n = Some (Some r)}. set (cr_Issues r))"

lemma shown_for_mono: "shown_for S i d \<Longrightarrow> (\<And>s. S i s \<Longrightarrow> T i s) \<Longrightarrow> shown_for T i d"
  unfolding shown_for_def by blast

lemma results_shown_mono:
  assumes "results_shown S rs ds" "\<And>i s. S i s \<Longrightarrow> T i s"
  shows "results_shown T rs ds"
proof -
  have "result_shown T n r d" if "result_shown S n r d" for n r d
    using that by (auto simp: result_shown_def elim!: list.rel_mono_strong intro: shown_for_mono [OF _ assms(2)])
  then show ?thesis
    using assms(1) unfolding results_shown_def by (fastforce elim!: option.rel_mono_strong simp: pred_option_def)
qed

lemma dash_issue_shown: "shown_for (\<lambda>i s. s = iss_Suggestion i) i (dash_issue meta i)"
  by (auto simp: shown_for_def dash_issue_def)

lemma dash_result_shown: "result_shown (\<lambda>i s. s = iss_Suggestion i) name r (dash_result meta name r)"
  by (auto simp: result_shown_def dash_result_def list_all2_map2 intro: list.rel_refl_strong dash_issue_shown)

lemma build_from_results:
  assumes "build_from meta states rs br = Some br'" "distinct (map fst rs)"
  shows "map_of (br_Results br') name =
    (case map_of rs name of None \<Rightarrow> map_of (br_Results br) name | Some ro \<Rightarrow> map_option (dash_result meta name) ro)"
    "list_all (\<lambda>(n, ro). ro \<noteq> None) rs"
proof -
  have c: "br_Results (count_result states r br) = br_Results br" for states and r :: stored_result and br
    by (simp add: count_result_def Let_def split: prod.splits)
  have "map_of (br_Results br') name =
      (case map_of rs name of None \<Rightarrow> map_of (br_Results br) name | Some ro \<Rightarrow> map_option (dash_result meta name) ro) \<and>
    list_all (\<lambda>(n, ro). ro \<noteq> None) rs"
    using assms
  proof (induction meta states rs br rule: build_from.induct)
    case (3 meta states n r rs br)
    let ?br = "(count_result states r br)\<lparr>br_Results := AList.update n (dash_result meta n r) (br_Results (count_result states r br))\<rparr>"
    have "build_from meta states rs ?br = Some br'" "distinct (map fst rs)" using "3.prems" by (simp_all add: Let_def)
    then have ih: "map_of (br_Results br') name =
        (case map_of rs name of None \<Rightarrow> map_of (br_Results ?br) name | Some ro \<Rightarrow> map_option (dash_result meta name) ro)"
        "list_all (\<lambda>(n, ro). ro \<noteq> None) rs"
      using "3.IH" [OF refl] by blast+
    have "map_of rs n = None" using "3.prems"(2) by (simp add: map_of_eq_None_iff)
    then show ?case using ih by (auto simp: c update_conv' split: option.splits)
  qed auto
  then show "map_of (br_Results br') name =
    (case map_of rs name of None \<Rightarrow> map_of (br_Results br) name | Some ro \<Rightarrow> map_option (dash_result meta name) ro)"
    "list_all (\<lambda>(n, ro). ro \<noteq> None) rs" by blast+
qed

lemma built_shown:
  assumes "buildDashboardResults st states = Some br" "distinct (map fst (en_results st))"
  shows "results_shown (\<lambda>i s. s = iss_Suggestion i) (en_results st) (br_Results br)" "list_all (\<lambda>(n, ro). ro \<noteq> None) (en_results st)"
proof -
  note b = build_from_results [OF assms(1) [unfolded buildDashboardResults_def] assms(2)]
  show n: "list_all (\<lambda>(n, ro). ro \<noteq> None) (en_results st)" by (rule b(2))
  have "rel_option (\<lambda>ro d. pred_option (\<lambda>r. result_shown (\<lambda>i s. s = iss_Suggestion i) name r d) ro \<and> ro \<noteq> None)
      (map_of (en_results st) name) (map_of (br_Results br) name)" for name
  proof (cases "map_of (en_results st) name")
    case (Some ro)
    then obtain r where "ro = Some r" using n map_of_SomeD [OF Some] by (fastforce simp: list_all_iff)
    then show ?thesis using Some b(1) [of name] by (simp add: dash_result_shown)
  qed (simp add: b(1))
  then show "results_shown (\<lambda>i s. s = iss_Suggestion i) (en_results st) (br_Results br)" by (simp add: results_shown_def)
qed

text \<open>A patch shows the suggestion of the enriched issue at the same place.\<close>

lemma patch_issue_shown:
  "shown_for S i d \<Longrightarrow> S i (iss_Suggestion e) \<Longrightarrow> shown_for S i (patch_issue meta e d)"
  by (auto simp: patch_issue_def shown_for_def)

lemma patch_issues_shown:
  "list_all2 (shown_for S) is ds \<Longrightarrow> list_all2 (\<lambda>i e. S i (iss_Suggestion e)) is ss \<Longrightarrow>
    list_all2 (shown_for S) is (patch_issues meta ss ds)"
  by (induction meta ss ds arbitrary: "is" rule: patch_issues.induct)
    (auto simp: list_all2_Cons2 patch_issue_shown)

lemma patch_issues_kept:
  "list_all2 (shown_for (\<lambda>_ _. True)) is ds \<Longrightarrow> list_all2 (shown_for (\<lambda>_ _. True)) is (patch_issues meta ss ds)"
  by (induction meta ss ds arbitrary: "is" rule: patch_issues.induct)
    (auto simp: list_all2_Cons2 patch_issue_shown)

lemma map_of_map_names: "map_of (map (\<lambda>(n, d). (n, f n d)) ds) name = map_option (f name) (map_of ds name)"
  by (induction ds) auto

lemma patched_kept:
  assumes "results_shown (\<lambda>_ _. True) rs ds"
  shows "results_shown (\<lambda>_ _. True) rs (patchDashboardResults st ds)"
  unfolding results_shown_def
proof
  fix name
  note s = assms(1) [unfolded results_shown_def, rule_format, of name]
  show "rel_option (\<lambda>ro d. pred_option (\<lambda>r. result_shown (\<lambda>_ _. True) name r d) ro \<and> ro \<noteq> None)
      (map_of rs name) (map_of (patchDashboardResults st ds) name)"
  proof (cases "map_of rs name")
    case None
    then show ?thesis using s by (simp add: patchDashboardResults_def map_of_map_names)
  next
    case (Some ro)
    then obtain r d where r: "ro = Some r" "map_of ds name = Some d" "result_shown (\<lambda>_ _. True) name r d"
      using s by (auto simp: option_rel_Some1)
    then have "result_shown (\<lambda>_ _. True) name r (d\<lparr>dr_Issues := patch_issues (en_meta st) ss (dr_Issues d)\<rparr>)" for ss
      using patch_issues_kept by (simp add: result_shown_def)
    then show ?thesis
      using r by (simp add: patchDashboardResults_def map_of_map_names Some split: option.split)
  qed
qed

lemma patched_shown:
  assumes "results_shown (written_for A) rs ds" "results_rel advised_issue rs (en_results st)"
  shows "results_shown (written_for (A \<union> issues_in st)) rs (patchDashboardResults st ds)"
  unfolding results_shown_def
proof
  fix name
  let ?S = "written_for (A \<union> issues_in st)"
  have "results_shown ?S rs ds" using assms(1) by (rule results_shown_mono) (auto simp: written_for_def)
  note s = this [unfolded results_shown_def, rule_format, of name]
  note a = results_rel_map_of [OF assms(2), of name]
  show "rel_option (\<lambda>ro d. pred_option (\<lambda>r. result_shown ?S name r d) ro \<and> ro \<noteq> None)
      (map_of rs name) (map_of (patchDashboardResults st ds) name)"
  proof (cases "map_of rs name")
    case None
    then show ?thesis using s by (simp add: patchDashboardResults_def map_of_map_names)
  next
    case (Some ro)
    then obtain r d where r: "ro = Some r" "map_of ds name = Some d" "result_shown ?S name r d"
      using s by (auto simp: option_rel_Some1)
    then obtain q where q: "map_of (en_results st) name = Some (Some q)" "cr_Error q = cr_Error r"
        "list_all2 advised_issue (cr_Issues r) (cr_Issues q)"
      using a Some by (auto simp: option_rel_Some1)
    have "set (cr_Issues q) \<subseteq> issues_in st" using q(1) by (auto simp: issues_in_def)
    then have "?S i (iss_Suggestion e)" if "e \<in> set (cr_Issues q)" "advised_issue i e" for i e
      using that unfolding written_for_def by blast
    then have "list_all2 (\<lambda>i e. ?S i (iss_Suggestion e)) (cr_Issues r) (cr_Issues q)"
      by (intro list.rel_mono_strong [OF q(3)])
    then show ?thesis
      using r q patch_issues_shown [of ?S "cr_Issues r" "dr_Issues d" "cr_Issues q" "en_meta st"]
      by (auto simp: patchDashboardResults_def map_of_map_names Some result_shown_def)
  qed
qed

section \<open>The interleaved system\<close>

text \<open>A check is known by its cluster and by its kind. The ticker, \<open>handleTriggerCheck\<close> and the two settings handlers start a
  check only after they set the flag \<open>checkInFlight\<close>, which they clear at its end: at most one of those runs (kind
  \<open>False\<close>). The check at the start of the server (kind \<open>True\<close>) does not look at the flag, and the server listens already: it
  may overlap with one of the others. A run visits a cluster once.

  Of every check the stage it has finished with its variables; the clusters that the first check has begun; the request at the
  worker and whether the provider is being asked. For the properties only: the results last stored of every cluster; the
  issues that the enrichments committed since then returned; the clusters whose last numbered check got its number
  while another check of the cluster was between its number and the storing of its results; and those where an enrichment
  was committed in that situation, since the results were stored. Selectors are texts.\<close>

record pipeline =
  pl_server :: server
  pl_checks :: "string \<times> bool \<rightharpoonup> nat \<times> check_run"
  pl_begun :: "string set"
  pl_worker :: "(request \<times> bool) option"
  pl_checked :: "string \<rightharpoonup> enhancement"
  pl_advice :: "string \<Rightarrow> stored_issue set"
  pl_overlap :: "string set"
  pl_mixed :: "string set"

definition results_ok :: "string check_env \<Rightarrow> bool" where
  "results_ok env \<longleftrightarrow> distinct (map fst (en_results (ke_results env (check_namespaces env))))"

definition at_stage :: "string \<times> bool \<Rightarrow> nat \<Rightarrow> check_run \<Rightarrow> server \<Rightarrow> pipeline \<Rightarrow> pipeline" where
  "at_stage k n cu sv p = p\<lparr>pl_server := sv, pl_checks := (pl_checks p)(k \<mapsto> (n, cu))\<rparr>"

text \<open>A check that has its number and has not stored its results.\<close>

definition numbered :: "pipeline \<Rightarrow> string \<times> bool \<Rightarrow> bool" where
  "numbered p k = (case pl_checks p k of None \<Rightarrow> False | Some (n, _) \<Rightarrow> n = 2 \<or> n = 3)"

text \<open>What is noted of the result of an enrichment that is committed.\<close>

definition note_commit :: "request \<Rightarrow> provider_error + enriched \<Rightarrow> pipeline \<Rightarrow> pipeline" where
  "note_commit r result p =
     (case (result, sv_clusters (pl_server p) (er_clusterID r)) of
        (Inr en, Some cs) \<Rightarrow>
          let c = er_clusterID r in
          if still_current r cs
          then p\<lparr>pl_advice := (pl_advice p)(c := pl_advice p c \<union> issues_in (ei_results en)),
                 pl_mixed := (if c \<in> pl_overlap p then insert c (pl_mixed p) else pl_mixed p)\<rparr>
          else p
      | _ \<Rightarrow> p)"

inductive flow :: "(string \<Rightarrow> string) \<Rightarrow> pipeline \<Rightarrow> pipeline \<Rightarrow> bool" for digest where
  collect: "pl_checks p (c, b) = None \<Longrightarrow> \<not> (b \<and> c \<in> pl_begun p) \<Longrightarrow> results_ok env \<Longrightarrow>
    collect_check env c (pl_server p) = (cu, sv) \<Longrightarrow>
    flow digest p ((at_stage (c, b) 1 cu sv p)\<lparr>pl_begun := (if b then insert c (pl_begun p) else pl_begun p)\<rparr>)"
| number: "pl_checks p (c, b) = Some (1, cu) \<Longrightarrow> number_check cu (pl_server p) = (cu', sv) \<Longrightarrow>
    flow digest p ((at_stage (c, b) 2 cu' sv p)\<lparr>pl_overlap :=
      (if numbered p (c, \<not> b) then insert c (pl_overlap p) else pl_overlap p - {c})\<rparr>)"
| plan: "pl_checks p (c, b) = Some (2, cu) \<Longrightarrow> plan_check digest cu (pl_server p) = Some (cu', sv) \<Longrightarrow>
    flow digest p (at_stage (c, b) 3 cu' sv p)"
| store: "pl_checks p (c, b) = Some (3, cu) \<Longrightarrow>
    store_check digest (env :: string check_env) cu (pl_server p) = Some (cu', sv) \<Longrightarrow>
    flow digest p ((at_stage (c, b) 4 cu' sv p)\<lparr>pl_checked := (pl_checked p)(c \<mapsto> cu_results cu),
      pl_advice := (pl_advice p)(c := {}), pl_mixed := pl_mixed p - {c}\<rparr>)"
| history: "pl_checks p (c, b) = Some (4, cu) \<Longrightarrow> record_check cu (pl_server p) = Some sv \<Longrightarrow>
    flow digest p (at_stage (c, b) 5 cu sv p)"
| enqueue: "pl_checks p (c, b) = Some (5, cu) \<Longrightarrow> range_order (ke_queue_order (env :: string check_env)) \<Longrightarrow>
    enqueue_check digest env cu (pl_server p) = Some sv \<Longrightarrow>
    flow digest p (p\<lparr>pl_server := sv, pl_checks := (pl_checks p)((c, b) := None)\<rparr>)"
| give_up: "flow digest p (p\<lparr>pl_checks := (pl_checks p)(k := None)\<rparr>)"   \<comment> \<open>a panic, which the handlers recover from\<close>
| take: "pl_worker p = None \<Longrightarrow> sv_queue (pl_server p) = Some q \<Longrightarrow> receive q = Some (r, q') \<Longrightarrow>
    flow digest p (p\<lparr>pl_server := (pl_server p)\<lparr>sv_queue := Some q'\<rparr>, pl_worker := Some (r, False)\<rparr>)"
| decline: "pl_worker p = Some (r, False) \<Longrightarrow> \<not> preflight r (pl_server p) \<Longrightarrow> range_order ord \<Longrightarrow>
    release_cluster ord (er_clusterID r) (pl_server p) = Some sv \<Longrightarrow>
    flow digest p (p\<lparr>pl_server := sv, pl_worker := None\<rparr>)"
| ask: "pl_worker p = Some (r, False) \<Longrightarrow> preflight r (pl_server p) \<Longrightarrow> flow digest p (p\<lparr>pl_worker := Some (r, True)\<rparr>)"
| finish: "pl_worker p = Some (r, True) \<Longrightarrow> range_order ord \<Longrightarrow>
    runAIEnrichment reply (er_checkCtx r) (er_aiModel r) (er_results r) (er_causalCtx r) = Some result \<Longrightarrow>
    release_cluster ord (er_clusterID r) (finish_enrichment r result (pl_server p)) = Some sv \<Longrightarrow>
    flow digest p ((note_commit r result p)\<lparr>pl_server := sv, pl_worker := None\<rparr>)"
| settings: "handlePostAISettings getenv now b (pl_server p) = Some (response, sv) \<Longrightarrow>
    flow digest p (p\<lparr>pl_server := sv\<rparr>)"
| issues: "flow digest p (p\<lparr>pl_server := (pl_server p)\<lparr>sv_clusters :=
      issue_step (sv_historySize (pl_server p)) op (sv_clusters (pl_server p))\<rparr>\<rparr>)"
| subscription: "subscribe c slots (pl_server p) = Some sv \<Longrightarrow> flow digest p (p\<lparr>pl_server := sv\<rparr>)"

text \<open>A server that has not checked anything.\<close>

definition fresh_pipeline :: "pipeline \<Rightarrow> bool" where
  "fresh_pipeline p \<longleftrightarrow> sv_clusters (pl_server p) = Map.empty \<and> pl_checks p = Map.empty \<and> pl_begun p = {} \<and> pl_worker p = None \<and>
     pl_checked p = Map.empty \<and> pl_advice p = (\<lambda>_. {}) \<and> pl_overlap p = {} \<and> pl_mixed p = {} \<and> pred_option (\<lambda>q. qu_ch q = [] \<and> qu_pending q = []) (sv_queue (pl_server p))"

inductive flow_reachable :: "(string \<Rightarrow> string) \<Rightarrow> pipeline \<Rightarrow> bool" for digest where
  fresh: "fresh_pipeline p \<Longrightarrow> flow_reachable digest p"
| step: "flow_reachable digest p \<Longrightarrow> flow digest p p' \<Longrightarrow> flow_reachable digest p'"

section \<open>The queue keeps its requests\<close>

definition queue_requests :: "enrichmentQueue \<Rightarrow> request set" where
  "queue_requests q = set (qu_ch q) \<union> snd ` set (qu_pending q)"

lemma turn_requests:
  assumes "dispatch_turn ord q = Some q'" "range_order ord"
  shows "queue_requests q' \<subseteq> queue_requests q"
proof -
  obtain c req where t: "(c, req) \<in> set (qu_pending q)"
      "q' = q\<lparr>qu_ch := qu_ch q @ [req], qu_pending := AList.delete c (qu_pending q), qu_inflight := insert c (qu_inflight q)\<rparr>"
    using dispatch_turn_Some [OF assms] by blast
  then show ?thesis using set_delete [of c "qu_pending q"] by (force simp: queue_requests_def)
qed

lemma dispatch_requests:
  assumes "dispatchPendingLocked ord q = Some q'" "range_order ord"
  shows "queue_requests q' \<subseteq> queue_requests q"
  using dispatch_induct [OF assms(2), of "\<lambda>q'. queue_requests q' \<subseteq> queue_requests q" q] turn_requests [OF _ assms(2)] assms(1)
  by fastforce

lemma update_requests: "queue_requests (q\<lparr>qu_pending := AList.update c r (qu_pending q)\<rparr>) \<subseteq> insert r (queue_requests q)"
  using set_update [of c r "qu_pending q"] by (auto simp: queue_requests_def)

lemma Enqueue_requests:
  assumes "Enqueue ord r q = Some (ok, q')" "range_order ord"
  shows "queue_requests q' \<subseteq> insert r (queue_requests q)"
proof -
  let ?c = "er_clusterID r" and ?up = "\<lambda>q. q\<lparr>qu_pending := AList.update (er_clusterID r) r (qu_pending q)\<rparr>"
  consider (inflight) "q' = ?up q" | (pending) "dispatchPendingLocked ord (?up q) = Some q'"
    | (sent) "q' = q\<lparr>qu_ch := qu_ch q @ [r], qu_inflight := insert ?c (qu_inflight q)\<rparr>" | (dropped) "q' = q"
    using assms(1) by (auto simp: Enqueue_def Let_def split: if_splits)
  then show ?thesis
  proof cases
    case inflight
    then show ?thesis using update_requests by metis
  next
    case pending
    then show ?thesis using dispatch_requests [OF _ assms(2)] update_requests by (metis order.trans)
  qed (auto simp: queue_requests_def)
qed

lemma markDone_requests: "markDone ord c q = Some q' \<Longrightarrow> range_order ord \<Longrightarrow> queue_requests q' \<subseteq> queue_requests q"
  using dispatch_requests [of ord "q\<lparr>qu_inflight := qu_inflight q - {c}\<rparr>" q'] by (simp add: markDone_def queue_requests_def)

lemma receive_requests: "receive q = Some (r, q') \<Longrightarrow> queue_requests q' \<subseteq> queue_requests q \<and> r \<in> queue_requests q"
  by (auto simp: receive_def queue_requests_def split: list.splits)

definition outstanding :: "pipeline \<Rightarrow> request set" where
  "outstanding p = (case sv_queue (pl_server p) of None \<Rightarrow> {} | Some q \<Rightarrow> queue_requests q) \<union>
     (case pl_worker p of None \<Rightarrow> {} | Some (r, _) \<Rightarrow> {r})"

section \<open>Changes that do not matter\<close>

text \<open>The generation and what is shown of the results stay; new clusters show nothing.\<close>

definition quiet :: "clusters \<Rightarrow> clusters \<Rightarrow> bool" where
  "quiet cls cls' \<longleftrightarrow> (\<forall>c. case cls c of
       None \<Rightarrow> (\<forall>cs'. cls' c = Some cs' \<longrightarrow> cs_latest cs' = None)
     | Some cs \<Rightarrow> (\<exists>cs'. cls' c = Some cs' \<and> cs_checkCounter cs' = cs_checkCounter cs \<and>
         map_option hu_Results (cs_latest cs') = map_option hu_Results (cs_latest cs)))"

lemma quiet_refl [simp]: "quiet cls cls"
  by (simp add: quiet_def split: option.splits)

lemma quiet_trans: "quiet a b \<Longrightarrow> quiet b c \<Longrightarrow> quiet a c"
  unfolding quiet_def
proof (intro allI)
  fix x assume "\<forall>c. case a c of None \<Rightarrow> \<forall>cs'. b c = Some cs' \<longrightarrow> cs_latest cs' = None
       | Some cs \<Rightarrow> \<exists>cs'. b c = Some cs' \<and> cs_checkCounter cs' = cs_checkCounter cs \<and>
           map_option hu_Results (cs_latest cs') = map_option hu_Results (cs_latest cs)"
    and "\<forall>d. case b d of None \<Rightarrow> \<forall>cs'. c d = Some cs' \<longrightarrow> cs_latest cs' = None
       | Some cs \<Rightarrow> \<exists>cs'. c d = Some cs' \<and> cs_checkCounter cs' = cs_checkCounter cs \<and>
           map_option hu_Results (cs_latest cs') = map_option hu_Results (cs_latest cs)"
  from this [THEN spec [of _ x]]
  show "case a x of None \<Rightarrow> \<forall>cs'. c x = Some cs' \<longrightarrow> cs_latest cs' = None
       | Some cs \<Rightarrow> \<exists>cs'. c x = Some cs' \<and> cs_checkCounter cs' = cs_checkCounter cs \<and>
           map_option hu_Results (cs_latest cs') = map_option hu_Results (cs_latest cs)"
    by (cases "a x"; cases "b x") auto
qed

lemma quiet_update:
  assumes "cls c = Some cs" "cs_checkCounter cs' = cs_checkCounter cs"
    and "map_option hu_Results (cs_latest cs') = map_option hu_Results (cs_latest cs)"
  shows "quiet cls (cls(c \<mapsto> cs'))"
  using assms by (auto simp: quiet_def split: option.splits)

lemma quiet_put:
  assumes "sv_clusters sv c = Some cs" "cs_checkCounter cs' = cs_checkCounter cs"
    and "map_option hu_Results (cs_latest cs') = map_option hu_Results (cs_latest cs)"
  shows "quiet (sv_clusters sv) (sv_clusters (put_cluster c cs' sv))"
  using quiet_update [of "sv_clusters sv" c cs cs'] assms by (simp add: put_cluster_def)

lemma quiet_create: "cls c = None \<Longrightarrow> cs_latest cs = None \<Longrightarrow> quiet cls (cls(c \<mapsto> cs))"
  by (auto simp: quiet_def split: option.splits)

lemma server_parts [simp]:
  "sv_clusters (broadcastUpdate c u sv) = sv_clusters sv" "sv_queue (broadcastUpdate c u sv) = sv_queue sv"
  "sv_queue (put_cluster c cs sv) = sv_queue sv" "sv_queue (broadcastPhase c ph sv) = sv_queue sv"
  "sv_clusters (put_cluster c cs sv) = (sv_clusters sv)(c \<mapsto> cs)"
  by (simp_all add: broadcastUpdate_def put_cluster_def broadcastPhase_def Let_def split: option.splits)

lemma phase_quiet: "quiet (sv_clusters sv) (sv_clusters (broadcastPhase c ph sv))"
  by (auto simp: broadcastPhase_def Let_def set_phase_def split: option.splits intro!: quiet_update)

lemma full_quiet: "quiet (sv_clusters sv) (sv_clusters (queue_full cu sv))"
  by (auto simp: queue_full_def Let_def degrade_def split: option.splits intro!: quiet_update)

lemma settings_quiet:
  "handlePostAISettings getenv now b sv = Some (response, sv') \<Longrightarrow>
     quiet (sv_clusters sv) (sv_clusters sv') \<and> sv_queue sv' = sv_queue sv"
  by (auto simp: handlePostAISettings_def Let_def commit_settings_def quiet_def clear_cluster_def option.map_comp comp_def
      split: sum.splits option.splits)

lemma set_state_quiet: "quiet cls (set_state h c st cls)"
proof (cases "cls c")
  case None
  then show ?thesis by (simp add: set_state_def getOrCreateClusterState_def Let_def new_cluster_def quiet_create)
next
  case (Some cs)
  then show ?thesis by (simp add: set_state_def getOrCreateClusterState_def quiet_update)
qed

lemma remove_state_quiet: "quiet cls (remove_state c k cls)"
  by (auto simp: remove_state_def split: option.splits intro!: quiet_update)

lemma prune_quiet: "quiet cls (\<lambda>c. map_option (prune now) (cls c))"
  by (auto simp: quiet_def prune_def split: option.splits)

lemma prune_one_quiet: "cls c = Some cs \<Longrightarrow> quiet cls (cls(c \<mapsto> prune now cs))"
  by (rule quiet_update) (auto simp: prune_def)

lemma issue_step_quiet: "quiet cls (issue_step h op cls)"
  by (cases op)
    (auto simp: issue_step_def post_acknowledge_def post_snooze_def delete_state_def handleIssueStates_def
      cleanupExpiredIssueStates_def Let_def set_state_quiet remove_state_quiet prune_quiet prune_one_quiet
      split: sum.splits option.splits if_splits)

section \<open>The invariant\<close>

definition results_wf :: "enhancement \<Rightarrow> bool" where
  "results_wf st \<longleftrightarrow> distinct (map fst (en_results st)) \<and> list_all (\<lambda>(n, ro). ro \<noteq> None) (en_results st)"

text \<open>What is known of the suggestions that are shown.\<close>

definition trusted :: "pipeline \<Rightarrow> string \<Rightarrow> stored_issue \<Rightarrow> string \<Rightarrow> bool" where
  "trusted p c = (if c \<in> pl_mixed p then \<lambda>_ _. True else written_for (pl_advice p c))"

lemma trusted_cong: "pl_mixed p' = pl_mixed p \<Longrightarrow> pl_advice p' = pl_advice p \<Longrightarrow> trusted p' = trusted p"
  by (rule ext) (simp add: trusted_def split: if_split)

definition shown_ok :: "pipeline \<Rightarrow> bool" where
  "shown_ok p \<longleftrightarrow> (\<forall>c cs u. sv_clusters (pl_server p) c = Some cs \<longrightarrow> cs_latest cs = Some u \<longrightarrow>
     (\<exists>st. pl_checked p c = Some st \<and> results_wf st \<and> results_shown (trusted p c) (en_results st) (hu_Results u)))"

text \<open>Results of a check that is stored never belong to a later generation; without an overlap, those of the present
  generation are what was stored last, and no check is about to replace it.\<close>

definition stored_by :: "pipeline \<Rightarrow> string \<Rightarrow> nat \<Rightarrow> enhancement \<Rightarrow> bool" where
  "stored_by p c g st \<longleftrightarrow> (\<exists>cs. sv_clusters (pl_server p) c = Some cs \<and> g \<le> cs_checkCounter cs \<and>
     (c \<notin> pl_overlap p \<and> g = cs_checkCounter cs \<longrightarrow>
        (\<exists>ck. pl_checked p c = Some ck \<and> results_wf ck \<and> results_rel same_issue (en_results ck) (en_results st)) \<and>
        (\<forall>b. \<not> numbered p (c, b))))"

abbreviation request_ok :: "pipeline \<Rightarrow> request \<Rightarrow> bool" where
  "request_ok p r \<equiv> stored_by p (er_clusterID r) (er_generation r) (er_results r)"

definition check_ok :: "pipeline \<Rightarrow> string \<times> bool \<Rightarrow> nat \<Rightarrow> check_run \<Rightarrow> bool" where
  "check_ok p k n cu \<longleftrightarrow> cu_cluster cu = fst k \<and> distinct (map fst (en_results (cu_results cu))) \<and>
     (n = 2 \<or> n = 3 \<longrightarrow> (\<exists>cs. sv_clusters (pl_server p) (fst k) = Some cs \<and> cu_generation cu \<le> cs_checkCounter cs \<and>
        (fst k \<notin> pl_overlap p \<longrightarrow> cu_generation cu = cs_checkCounter cs \<and> \<not> numbered p (fst k, \<not> snd k)))) \<and>
     (4 \<le> n \<longrightarrow> stored_by p (fst k) (cu_generation cu) (cu_results cu))"

definition flow_ok :: "pipeline \<Rightarrow> bool" where
  "flow_ok p \<longleftrightarrow> shown_ok p \<and> (\<forall>r \<in> outstanding p. request_ok p r) \<and>
     (\<forall>k n cu. pl_checks p k = Some (n, cu) \<longrightarrow> check_ok p k n cu)"

lemma shown_okD: "shown_ok p \<Longrightarrow> sv_clusters (pl_server p) c = Some cs \<Longrightarrow> cs_latest cs = Some u \<Longrightarrow>
    \<exists>st. pl_checked p c = Some st \<and> results_wf st \<and> results_shown (trusted p c) (en_results st) (hu_Results u)"
  unfolding shown_ok_def by blast

lemma flow_okD:
  assumes "flow_ok p"
  shows "shown_ok p" "r \<in> outstanding p \<Longrightarrow> request_ok p r" "pl_checks p k = Some (n, cu) \<Longrightarrow> check_ok p k n cu"
  using assms unfolding flow_ok_def by blast+

lemma flow_ok_fresh: "fresh_pipeline p \<Longrightarrow> flow_ok p"
  by (auto simp: fresh_pipeline_def flow_ok_def shown_ok_def outstanding_def queue_requests_def split: option.splits)

text \<open>Enough for requests and checks: the generations stay.\<close>

definition counted :: "clusters \<Rightarrow> clusters \<Rightarrow> bool" where
  "counted cls cls' \<longleftrightarrow>
     (\<forall>c cs. cls c = Some cs \<longrightarrow> (\<exists>cs'. cls' c = Some cs' \<and> cs_checkCounter cs' = cs_checkCounter cs))"

lemma countedD: "counted cls cls' \<Longrightarrow> cls c = Some cs \<Longrightarrow> \<exists>cs'. cls' c = Some cs' \<and> cs_checkCounter cs' = cs_checkCounter cs"
  unfolding counted_def by blast

lemma quiet_counted:
  assumes "quiet cls cls'"
  shows "counted cls cls'"
  unfolding counted_def
proof (intro allI impI)
  fix c cs assume "cls c = Some cs"
  then show "\<exists>cs'. cls' c = Some cs' \<and> cs_checkCounter cs' = cs_checkCounter cs"
    using assms [unfolded quiet_def, THEN spec [of _ c]] by auto
qed

lemma quiet_latestD:
  assumes "quiet cls cls'" "cls' c = Some cs'" "cs_latest cs' = Some u'"
  shows "\<exists>cs u. cls c = Some cs \<and> cs_latest cs = Some u \<and> hu_Results u' = hu_Results u"
  using assms(1) [unfolded quiet_def, THEN spec [of _ c]] assms(2,3)
  by (cases "cls c") (auto dest: sym [of "Some _"])

lemma quiet_shown:
  assumes "shown_ok p" "quiet (sv_clusters (pl_server p)) (sv_clusters (pl_server p'))"
    and "pl_checked p' = pl_checked p" "trusted p' = trusted p"
  shows "shown_ok p'"
  unfolding shown_ok_def
proof (intro allI impI)
  fix c cs' u' assume "sv_clusters (pl_server p') c = Some cs'" "cs_latest cs' = Some u'"
  then obtain cs u where "sv_clusters (pl_server p) c = Some cs" "cs_latest cs = Some u" "hu_Results u' = hu_Results u"
    using quiet_latestD [OF assms(2)] by blast
  then show "\<exists>st. pl_checked p' c = Some st \<and> results_wf st \<and> results_shown (trusted p' c) (en_results st) (hu_Results u')"
    using assms(1,3,4) by (simp add: shown_ok_def)
qed

text \<open>What requests and checks need of a step: the generation of the cluster, what was stored of it and its overlap
  stay, and no check is newly numbered.\<close>

definition steady :: "string \<Rightarrow> pipeline \<Rightarrow> pipeline \<Rightarrow> bool" where
  "steady c p p' \<longleftrightarrow>
     (\<forall>cs. sv_clusters (pl_server p) c = Some cs \<longrightarrow>
        (\<exists>cs'. sv_clusters (pl_server p') c = Some cs' \<and> cs_checkCounter cs' = cs_checkCounter cs)) \<and>
     pl_checked p' c = pl_checked p c \<and> (c \<in> pl_overlap p' \<longleftrightarrow> c \<in> pl_overlap p) \<and>
     (\<forall>b. numbered p' (c, b) \<longrightarrow> numbered p (c, b))"

lemma steadyI:
  assumes "counted (sv_clusters (pl_server p)) (sv_clusters (pl_server p'))" "pl_checked p' = pl_checked p" "pl_overlap p' = pl_overlap p"
    and "\<And>b. numbered p' (c, b) \<Longrightarrow> numbered p (c, b)"
  shows "steady c p p'"
  using assms unfolding steady_def counted_def by auto

lemma steady_stored: "stored_by p c g st \<Longrightarrow> steady c p p' \<Longrightarrow> stored_by p' c g st"
  unfolding stored_by_def steady_def by metis

lemma steady_check:
  assumes "check_ok p k n cu" "steady (fst k) p p'"
  shows "check_ok p' k n cu"
proof -
  have "\<exists>cs'. sv_clusters (pl_server p') (fst k) = Some cs' \<and> cu_generation cu \<le> cs_checkCounter cs' \<and>
      (fst k \<notin> pl_overlap p' \<longrightarrow> cu_generation cu = cs_checkCounter cs' \<and> \<not> numbered p' (fst k, \<not> snd k))" if "n = 2 \<or> n = 3"
    using assms that by (auto simp: check_ok_def steady_def)
  then show ?thesis using assms steady_stored [OF _ assms(2)] by (simp add: check_ok_def)
qed

lemma numbered_fewer:
  assumes "pl_checks p' \<subseteq>\<^sub>m pl_checks p" "numbered p' k"
  shows "numbered p k"
proof -
  obtain n cu where k: "pl_checks p' k = Some (n, cu)" "n = 2 \<or> n = 3" using assms(2) by (auto simp: numbered_def split: option.splits)
  then have "pl_checks p k = Some (n, cu)" using assms(1) by (metis domI map_le_def)
  then show ?thesis using k(2) by (simp add: numbered_def)
qed

text \<open>A quiet step that at most drops requests and checks keeps the invariant.\<close>

lemma counted_flow:
  assumes "flow_ok p" "counted (sv_clusters (pl_server p)) (sv_clusters (pl_server p'))" "pl_checked p' = pl_checked p"
    and "pl_overlap p' = pl_overlap p" "outstanding p' \<subseteq> outstanding p" "pl_checks p' \<subseteq>\<^sub>m pl_checks p" "shown_ok p'"
  shows "flow_ok p'"
proof -
  have s: "steady c p p'" for c using steadyI [OF assms(2,3,4)] numbered_fewer [OF assms(6)] by blast
  have "request_ok p' r" if "r \<in> outstanding p'" for r
    using steady_stored [OF _ s] flow_okD(2) [OF assms(1)] assms(5) that by blast
  moreover have "check_ok p' k n cu" if "pl_checks p' k = Some (n, cu)" for k n cu
  proof -
    have "pl_checks p k = Some (n, cu)" using assms(6) that by (metis domI map_le_def)
    then show ?thesis using steady_check [OF _ s] flow_okD(3) [OF assms(1)] by blast
  qed
  ultimately show ?thesis using assms(7) by (simp add: flow_ok_def)
qed

lemma quiet_flow:
  assumes "flow_ok p" "quiet (sv_clusters (pl_server p)) (sv_clusters (pl_server p'))" "pl_checked p' = pl_checked p"
    and "pl_overlap p' = pl_overlap p" "trusted p' = trusted p" "outstanding p' \<subseteq> outstanding p" "pl_checks p' \<subseteq>\<^sub>m pl_checks p"
  shows "flow_ok p'"
  using assms quiet_shown [OF flow_okD(1) [OF assms(1)] assms(2,3,5)] quiet_counted [OF assms(2)]
  by (intro counted_flow [OF assms(1)]) auto

text \<open>A quiet step that moves a check to another stage.\<close>

lemma numbered_at: "numbered (at_stage k n cu sv p) j = (if j = k then n = 2 \<or> n = 3 else numbered p j)"
  by (simp add: numbered_def at_stage_def)

lemma at_stage_parts [simp]:
  "pl_server (at_stage k n cu sv p) = sv" "pl_checked (at_stage k n cu sv p) = pl_checked p"
  "pl_overlap (at_stage k n cu sv p) = pl_overlap p" "pl_mixed (at_stage k n cu sv p) = pl_mixed p"
  "pl_advice (at_stage k n cu sv p) = pl_advice p" "pl_worker (at_stage k n cu sv p) = pl_worker p"
  "pl_checks (at_stage k n cu sv p) = (pl_checks p)(k \<mapsto> (n, cu))" "trusted (at_stage k n cu sv p) = trusted p"
  by (simp_all add: at_stage_def) (rule trusted_cong; simp)

lemma quiet_stage:
  assumes "flow_ok p" "quiet (sv_clusters (pl_server p)) (sv_clusters sv)" "sv_queue sv = sv_queue (pl_server p)"
    and "check_ok (p\<lparr>pl_server := sv\<rparr>) k n cu" "n = 2 \<or> n = 3 \<Longrightarrow> numbered p k"
  shows "flow_ok (at_stage k n cu sv p)"
proof -
  let ?p = "at_stage k n cu sv p"
  have s: "steady c p ?p" for c
    using assms(5) by (intro steadyI) (auto simp: quiet_counted [OF assms(2)] numbered_at split: if_splits)
  have out: "outstanding ?p = outstanding p" using assms(3) by (simp add: outstanding_def)
  have m: "steady c (p\<lparr>pl_server := sv\<rparr>) ?p" for c
    using assms(5) by (intro steadyI) (auto simp: numbered_at counted_def numbered_def split: if_splits)
  have "request_ok ?p r" if "r \<in> outstanding ?p" for r
    using steady_stored [OF _ s] flow_okD(2) [OF assms(1)] that by (simp add: out)
  moreover have "check_ok ?p j m du" if "pl_checks ?p j = Some (m, du)" for j m du
    using that steady_check [OF assms(4) m] steady_check [OF _ s] flow_okD(3) [OF assms(1)] by (auto split: if_splits)
  moreover have "shown_ok ?p" using flow_okD(1) [OF assms(1)] quiet_shown [of p ?p] assms(2) by simp
  ultimately show ?thesis by (simp add: flow_ok_def)
qed

section \<open>Every step keeps the invariant\<close>

lemma collect_ok:
  assumes "flow_ok p" "results_ok env" "collect_check env c (pl_server p) = (cu, sv)"
  shows "flow_ok (at_stage (c, b) 1 cu sv p)"
proof (rule quiet_stage [OF assms(1)])
  show "quiet (sv_clusters (pl_server p)) (sv_clusters sv)" "sv_queue sv = sv_queue (pl_server p)"
    using assms(3) quiet_trans [OF phase_quiet phase_quiet] by (auto simp: collect_check_def Let_def)
  show "check_ok (p\<lparr>pl_server := sv\<rparr>) (c, b) 1 cu"
    using assms(2,3) by (auto simp: check_ok_def collect_check_def Let_def results_ok_def)
qed simp

text \<open>Only \<open>pl_begun\<close> differs.\<close>

lemma begun_ok: "flow_ok p \<Longrightarrow> flow_ok (p\<lparr>pl_begun := B\<rparr>)"
  by (rule quiet_flow [of p]) (simp_all add: outstanding_def trusted_cong [of p "p\<lparr>pl_begun := B\<rparr>"])

lemma number_ok:
  assumes "flow_ok p" "pl_checks p (c, b) = Some (1, cu)" "number_check cu (pl_server p) = (cu', sv)"
  shows "flow_ok ((at_stage (c, b) 2 cu' sv p)\<lparr>pl_overlap :=
    (if numbered p (c, \<not> b) then insert c (pl_overlap p) else pl_overlap p - {c})\<rparr>)"
proof -
  let ?p = "(at_stage (c, b) 2 cu' sv p)\<lparr>pl_overlap :=
    (if numbered p (c, \<not> b) then insert c (pl_overlap p) else pl_overlap p - {c})\<rparr>" and ?cls = "sv_clusters (pl_server p)"
  have c: "cu_cluster cu = c" "distinct (map fst (en_results (cu_results cu)))"
    using flow_okD(3) [OF assms(1,2)] by (auto simp: check_ok_def)
  obtain cs cls where g: "getOrCreateClusterState (sv_historySize (pl_server p)) c ?cls = (cs, cls)" by (metis surj_pair)
  then have s: "sv_clusters sv = ?cls(c \<mapsto> cs\<lparr>cs_checkCounter := cs_checkCounter cs + 1\<rparr>)" "sv_queue sv = sv_queue (pl_server p)"
      "cu' = cu\<lparr>cu_generation := cs_checkCounter cs + 1\<rparr>"
    using assms(3) by (auto simp: number_check_def c(1) getOrCreateClusterState_def Let_def split: option.splits)
  have cs: "?cls c = Some cs \<or> ?cls c = None \<and> cs_latest cs = None"
    using g by (auto simp: getOrCreateClusterState_def Let_def new_cluster_def split: option.splits)
  have num: "numbered ?p k \<longleftrightarrow> k = (c, b) \<or> numbered p k" for k by (simp add: numbered_def at_stage_def)
  have other: "steady d p ?p" if "d \<noteq> c" for d
    using that unfolding steady_def num by (simp add: s(1))
  have mine: "stored_by ?p c n st" if "stored_by p c n st" for n st
    using that cs by (auto simp: stored_by_def s(1))
  have "shown_ok ?p" unfolding shown_ok_def
  proof (intro allI impI)
    fix d ds u assume u: "sv_clusters (pl_server ?p) d = Some ds" "cs_latest ds = Some u"
    then have "\<exists>es. ?cls d = Some es \<and> cs_latest es = Some u" using cs by (auto simp: s split: if_splits)
    then show "\<exists>st. pl_checked ?p d = Some st \<and> results_wf st \<and> results_shown (trusted ?p d) (en_results st) (hu_Results u)"
      using shown_okD [OF flow_okD(1) [OF assms(1)], of d _ u] by (auto simp: trusted_def)
  qed
  moreover have "request_ok ?p r" if "r \<in> outstanding ?p" for r
  proof -
    have "request_ok p r" using flow_okD(2) [OF assms(1)] that by (simp add: outstanding_def s(2))
    then show ?thesis using mine steady_stored [OF _ other] by (cases "er_clusterID r = c") auto
  qed
  moreover have "check_ok ?p k n du" if k: "pl_checks ?p k = Some (n, du)" for k n du
  proof -
    obtain d e where d: "k = (d, e)" by (metis surj_pair)
    consider (self) "k = (c, b)" | (twin) "k = (c, \<not> b)" | (else) "d \<noteq> c" using d by auto
    then show ?thesis
    proof cases
      case self
      have "\<not> numbered ?p (c, \<not> b)" if "c \<notin> pl_overlap ?p" using that by (auto simp: num split: if_splits)
      then show ?thesis using k c self by (auto simp: check_ok_def s)
    next
      case twin
      then have ok: "check_ok p k n du" "n = 2 \<or> n = 3 \<Longrightarrow> numbered p (c, \<not> b)"
        using flow_okD(3) [OF assms(1)] k by (auto simp: numbered_def)
      then show ?thesis using twin mine cs by (auto simp: check_ok_def s(1))
    next
      case else
      then show ?thesis using k d flow_okD(3) [OF assms(1)] steady_check [OF _ other, of k n du] by auto
    qed
  qed
  ultimately show ?thesis by (simp add: flow_ok_def)
qed

lemma reapply_results_names: "map fst (en_results (reapply_results enh rs m n)) = map fst rs"
  by (induction enh rs m n rule: reapply_results.induct) (simp_all add: Let_def split: prod.splits)

lemma reapply_names: "map fst (en_results (reapplyAIEnhancements enh st)) = map fst (en_results st)"
  by (simp add: reapplyAIEnhancements_def reapply_results_names)

lemma plan_check_same:
  assumes "plan_check digest cu sv = Some (cu', sv')"
  shows "cu_cluster cu' = cu_cluster cu" "cu_generation cu' = cu_generation cu"
    "map fst (en_results (cu_results cu')) = map fst (en_results (cu_results cu))"
    "quiet (sv_clusters sv) (sv_clusters sv')" "sv_queue sv' = sv_queue sv"
  using assms phase_quiet by (auto simp: plan_check_def Let_def reapply_names split: bind_splits if_splits option.splits)

lemma numbered_server [simp]: "numbered (p\<lparr>pl_server := sv\<rparr>) = numbered p"
  by (rule ext) (simp add: numbered_def)

lemma server_steady:
  "quiet (sv_clusters (pl_server p)) (sv_clusters sv) \<Longrightarrow> steady c p (p\<lparr>pl_server := sv\<rparr>)"
  by (rule steadyI) (simp_all add: quiet_counted)

lemma plan_ok:
  assumes "flow_ok p" "pl_checks p (c, b) = Some (2, cu)" "plan_check digest cu (pl_server p) = Some (cu', sv)"
  shows "flow_ok (at_stage (c, b) 3 cu' sv p)"
proof (rule quiet_stage [OF assms(1)])
  note s = plan_check_same [OF assms(3)]
  show q: "quiet (sv_clusters (pl_server p)) (sv_clusters sv)" "sv_queue sv = sv_queue (pl_server p)" by (fact s)+
  have "check_ok (p\<lparr>pl_server := sv\<rparr>) (c, b) 2 cu"
    using steady_check [OF flow_okD(3) [OF assms(1,2)] server_steady [OF q(1)]] .
  then show "check_ok (p\<lparr>pl_server := sv\<rparr>) (c, b) 3 cu'" using s by (simp add: check_ok_def)
qed (use assms(2) in \<open>simp add: numbered_def\<close>)

lemma store_check_parts:
  assumes "store_check digest env cu sv = Some (cu', sv')"
  shows "\<exists>cs cs' br u'. sv_clusters sv (cu_cluster cu) = Some cs \<and> sv_clusters sv' = (sv_clusters sv)(cu_cluster cu \<mapsto> cs') \<and>
    cs_checkCounter cs' = cs_checkCounter cs \<and> buildDashboardResults (cu_results cu) (unexpired (ke_shown env) (cs_issueStates cs)) = Some br \<and>
    cs_latest cs' = Some u' \<and> hu_Results u' = br_Results br \<and> sv_queue sv' = sv_queue sv \<and> cu' = cu\<lparr>cu_update := u'\<rparr>"
  using assms
  by (auto simp: store_check_def build_update_def prune_def Let_def split: bind_splits prod.splits)

lemma results_rel_same_refl: "list_all (\<lambda>(n, ro). ro \<noteq> None) rs \<Longrightarrow> results_rel same_issue rs rs"
  unfolding results_rel_def
  by (rule list_all2_refl) (auto simp: same_issue_def intro!: option.rel_refl_strong list.rel_refl_strong)

lemma store_ok:
  assumes "flow_ok p" "pl_checks p (c, b) = Some (3, cu)" "store_check digest env cu (pl_server p) = Some (cu', sv)"
  shows "flow_ok ((at_stage (c, b) 4 cu' sv p)\<lparr>pl_checked := (pl_checked p)(c \<mapsto> cu_results cu),
    pl_advice := (pl_advice p)(c := {}), pl_mixed := pl_mixed p - {c}\<rparr>)"
proof -
  let ?p = "(at_stage (c, b) 4 cu' sv p)\<lparr>pl_checked := (pl_checked p)(c \<mapsto> cu_results cu),
    pl_advice := (pl_advice p)(c := {}), pl_mixed := pl_mixed p - {c}\<rparr>" and ?cls = "sv_clusters (pl_server p)"
  have c: "check_ok p (c, b) 3 cu" by (rule flow_okD(3) [OF assms(1,2)])
  then have id: "cu_cluster cu = c" by (simp add: check_ok_def)
  obtain cs cs' br u' where s: "?cls c = Some cs" "sv_clusters sv = ?cls(c \<mapsto> cs')" "cs_checkCounter cs' = cs_checkCounter cs"
      "buildDashboardResults (cu_results cu) (unexpired (ke_shown env) (cs_issueStates cs)) = Some br"
      "cs_latest cs' = Some u'" "hu_Results u' = br_Results br" "sv_queue sv = sv_queue (pl_server p)" "cu' = cu\<lparr>cu_update := u'\<rparr>"
    using store_check_parts [OF assms(3)] unfolding id by blast
  have "distinct (map fst (en_results (cu_results cu)))" using c by (simp add: check_ok_def)
  note built = built_shown [OF s(4) this]
  then have wf: "results_wf (cu_results cu)" using c by (simp add: results_wf_def check_ok_def)
  have own: "results_shown (trusted ?p c) (en_results (cu_results cu)) (hu_Results u')"
    using built(1) unfolding s(6) by (rule results_shown_mono) (simp add: trusted_def written_for_def)
  have num: "numbered ?p k \<longleftrightarrow> k \<noteq> (c, b) \<and> numbered p k" for k by (simp add: numbered_def at_stage_def)
  have here: "numbered p (c, b)" using assms(2) by (simp add: numbered_def)
  have other: "steady d p ?p" "trusted ?p d = trusted p d" if "d \<noteq> c" for d
    using that unfolding steady_def num by (simp_all add: s(2) trusted_def)
  have mine: "stored_by ?p c n st" if "stored_by p c n st" for n st
    using that here s(1,3) by (auto simp: stored_by_def s(2))
  have "shown_ok ?p" unfolding shown_ok_def
  proof (intro allI impI)
    fix d ds u assume u: "sv_clusters (pl_server ?p) d = Some ds" "cs_latest ds = Some u"
    show "\<exists>st. pl_checked ?p d = Some st \<and> results_wf st \<and> results_shown (trusted ?p d) (en_results st) (hu_Results u)"
    proof (cases "d = c")
      case True
      then show ?thesis using u own wf s(5) by (simp add: s(2))
    next
      case False
      then show ?thesis using u shown_okD [OF flow_okD(1) [OF assms(1)], of d ds u] other(2) by (simp add: s(2))
    qed
  qed
  moreover have "request_ok ?p r" if "r \<in> outstanding ?p" for r
  proof -
    have "request_ok p r" using flow_okD(2) [OF assms(1)] that by (simp add: outstanding_def s(7))
    then show ?thesis using mine steady_stored [OF _ other(1)] by (cases "er_clusterID r = c") auto
  qed
  moreover have "check_ok ?p k n du" if k: "pl_checks ?p k = Some (n, du)" for k n du
  proof -
    obtain d e where d: "k = (d, e)" by (metis surj_pair)
    consider (self) "k = (c, b)" | (twin) "k = (c, \<not> b)" | (else) "d \<noteq> c" using d by auto
    then show ?thesis
    proof cases
      case self
      have "\<not> numbered ?p (c, e)" if "c \<notin> pl_overlap p" for e
        using c that by (cases "e = b") (auto simp: check_ok_def num)
      then have "stored_by ?p c (cu_generation cu) (cu_results cu)"
        using c s(1,3) wf results_rel_same_refl [of "en_results (cu_results cu)"]
        by (auto simp: stored_by_def check_ok_def s(2) results_wf_def)
      then show ?thesis using k self c by (auto simp: check_ok_def s(8))
    next
      case twin
      then have ok: "check_ok p k n du" "n = 2 \<or> n = 3 \<Longrightarrow> numbered p (c, \<not> b)"
        using flow_okD(3) [OF assms(1)] k by (auto simp: numbered_def)
      moreover have "c \<in> pl_overlap p" if "numbered p (c, \<not> b)" using c that by (auto simp: check_ok_def)
      ultimately show ?thesis using twin mine s(1,3) by (auto simp: check_ok_def s(2))
    next
      case else
      then show ?thesis using k d flow_okD(3) [OF assms(1)] steady_check [OF _ other(1), of k n du] by auto
    qed
  qed
  ultimately show ?thesis by (simp add: flow_ok_def)
qed

lemma record_ok:
  assumes "flow_ok p" "pl_checks p (c, b) = Some (4, cu)" "record_check cu (pl_server p) = Some sv"
  shows "flow_ok (at_stage (c, b) 5 cu sv p)"
proof (rule quiet_stage [OF assms(1)])
  show q: "quiet (sv_clusters (pl_server p)) (sv_clusters sv)" "sv_queue sv = sv_queue (pl_server p)"
    using assms(3) by (auto simp: record_check_def split: bind_splits intro!: quiet_update)
  have "check_ok (p\<lparr>pl_server := sv\<rparr>) (c, b) 4 cu"
    using steady_check [OF flow_okD(3) [OF assms(1,2)] server_steady [OF q(1)]] .
  then show "check_ok (p\<lparr>pl_server := sv\<rparr>) (c, b) 5 cu" by (simp add: check_ok_def)
qed simp

lemma same_issue_trans: "same_issue i j \<Longrightarrow> same_issue j k \<Longrightarrow> same_issue i k"
  by (simp add: same_issue_def)

lemma check_request_ok:
  assumes "check_ok p (c, b) 5 cu"
  shows "request_ok p (check_request digest env cu)"
proof -
  have s: "cu_cluster cu = c" "stored_by p c (cu_generation cu) (cu_results cu)" using assms by (auto simp: check_ok_def)
  have "results_rel same_issue ck (en_results (deepCopyResults (cu_results cu)))" if "results_rel same_issue ck (en_results (cu_results cu))" for ck
    using results_rel_compose [OF that deepCopy_same same_issue_trans] .
  then have "stored_by p c (cu_generation cu) (deepCopyResults (cu_results cu))"
    using s(2) by (auto simp: stored_by_def)
  then show ?thesis by (simp add: check_request_def s(1))
qed

abbreviation server_requests :: "server \<Rightarrow> request set" where
  "server_requests sv \<equiv> (case sv_queue sv of None \<Rightarrow> {} | Some q \<Rightarrow> queue_requests q)"

lemma enqueue_check_parts:
  assumes "enqueue_check digest env cu sv = Some sv'" "range_order (ke_queue_order env)"
  shows "quiet (sv_clusters sv) (sv_clusters sv') \<and>
    server_requests sv' \<subseteq> insert (check_request digest env cu) (server_requests sv)"
proof -
  have f: "sv_queue (queue_full cu s) = sv_queue s" for s
    by (simp add: queue_full_def Let_def split: option.splits)
  consider (none) "sv' = sv" | (asked) q ok q' where "sv_queue sv = Some q"
      "Enqueue (ke_queue_order env) (check_request digest env cu) q = Some (ok, q')"
      "sv' = (if ok then sv\<lparr>sv_queue := Some q'\<rparr> else queue_full cu (sv\<lparr>sv_queue := Some q'\<rparr>))"
    using assms(1) by (auto simp: enqueue_check_def Let_def split: if_splits option.splits)
  then show ?thesis
  proof cases
    case asked
    have "quiet (sv_clusters sv) (sv_clusters sv')"
      using full_quiet [of "sv\<lparr>sv_queue := Some q'\<rparr>" cu] by (simp add: asked(3))
    then show ?thesis using Enqueue_requests [OF asked(2) assms(2)] asked(1) by (simp add: asked(3) f)
  qed (simp add: subset_insertI)
qed

lemma enqueue_flow_ok:
  assumes "flow_ok p" "pl_checks p (c, b) = Some (5, cu)" "range_order (ke_queue_order env)"
    and "enqueue_check digest env cu (pl_server p) = Some sv"
  shows "flow_ok (p\<lparr>pl_server := sv, pl_checks := (pl_checks p)((c, b) := None)\<rparr>)"
proof -
  let ?p = "p\<lparr>pl_server := sv, pl_checks := (pl_checks p)((c, b) := None)\<rparr>" and ?r = "check_request digest env cu"
  note e = enqueue_check_parts [OF assms(4,3)]
  have q: "quiet (sv_clusters (pl_server p)) (sv_clusters (pl_server ?p))" using e by simp
  have t: "trusted ?p = trusted p" by (rule trusted_cong) simp_all
  have st: "steady d p ?p" for d
    using q by (intro steadyI) (auto simp: quiet_counted numbered_def split: if_splits)
  have out: "outstanding ?p \<subseteq> insert ?r (outstanding p)" using e by (auto simp: outstanding_def)
  have "request_ok p ?r" by (rule check_request_ok [OF flow_okD(3) [OF assms(1,2)]])
  then have "request_ok ?p r" if "r \<in> outstanding ?p" for r
    using steady_stored [OF _ st] flow_okD(2) [OF assms(1)] out that by blast
  moreover have "check_ok ?p k n du" if "pl_checks ?p k = Some (n, du)" for k n du
    using steady_check [OF _ st] flow_okD(3) [OF assms(1)] that by (auto split: if_splits)
  ultimately show ?thesis using quiet_shown [OF flow_okD(1) [OF assms(1)], of ?p] q t by (simp add: flow_ok_def)
qed

lemma release_parts:
  assumes "release_cluster ord c sv = Some sv'" "range_order ord"
  shows "sv_clusters sv' = sv_clusters sv"
    "server_requests sv' \<subseteq> server_requests sv"
  using assms by (auto simp: release_cluster_def split: option.splits dest: markDone_requests [OF _ assms(2), THEN subsetD])

lemma finish_failed_quiet: "quiet (sv_clusters sv) (sv_clusters (finish_enrichment r (Inl e) sv))"
  by (auto simp: finish_enrichment_def finish_cluster_def degrade_def Let_def split: option.splits if_splits intro!: quiet_update)

lemma finish_queue: "sv_queue (finish_enrichment r result sv) = sv_queue sv"
  by (simp add: finish_enrichment_def Let_def split: option.splits)

lemma finish_counted: "counted (sv_clusters sv) (sv_clusters (finish_enrichment r result sv))"
  by (cases result)
    (auto simp: counted_def finish_enrichment_def finish_cluster_def committed_cluster_def Let_def split: option.splits if_splits)

text \<open>A commit puts the advice on the issues of the same check.\<close>

lemma note_commit_parts [simp]:
  "pl_server (note_commit r result p) = pl_server p" "pl_checks (note_commit r result p) = pl_checks p"
  "pl_worker (note_commit r result p) = pl_worker p" "pl_checked (note_commit r result p) = pl_checked p"
  "pl_overlap (note_commit r result p) = pl_overlap p"
  by (simp_all add: note_commit_def Let_def split: sum.splits option.splits)

lemma trusted_server [simp]: "trusted (p\<lparr>pl_server := sv\<rparr>) = trusted p" "trusted (p\<lparr>pl_worker := w\<rparr>) = trusted p"
  by (rule trusted_cong; simp)+

lemma note_commit_trusted:
  "trusted p d i s \<Longrightarrow> trusted (note_commit r result p) d i s"
  by (auto simp: note_commit_def trusted_def written_for_def Let_def split: sum.splits option.splits if_splits)

lemma finish_shown:
  assumes "flow_ok p" "request_ok p r"
    and "runAIEnrichment reply (er_checkCtx r) (er_aiModel r) (er_results r) (er_causalCtx r) = Some result"
  shows "shown_ok ((note_commit r result p)\<lparr>pl_server := finish_enrichment r result (pl_server p)\<rparr>)"
proof -
  let ?cls = "sv_clusters (pl_server p)" and ?sv = "finish_enrichment r result (pl_server p)" and ?c = "er_clusterID r"
  let ?p = "(note_commit r result p)\<lparr>pl_server := ?sv\<rparr>"
  have shown: "shown_ok p" using assms(1) by (rule flow_okD)
  have more: "shown_ok ((note_commit r result p)\<lparr>pl_server := pl_server p\<rparr>)"
    unfolding shown_ok_def
  proof (intro allI impI)
    fix c cs u assume "sv_clusters (pl_server ((note_commit r result p)\<lparr>pl_server := pl_server p\<rparr>)) c = Some cs" "cs_latest cs = Some u"
    then obtain st where "pl_checked p c = Some st" "results_wf st" "results_shown (trusted p c) (en_results st) (hu_Results u)"
      using shown_okD [OF shown, of c cs u] by auto
    then show "\<exists>st. pl_checked ((note_commit r result p)\<lparr>pl_server := pl_server p\<rparr>) c = Some st \<and> results_wf st \<and>
        results_shown (trusted ((note_commit r result p)\<lparr>pl_server := pl_server p\<rparr>) c) (en_results st) (hu_Results u)"
      using results_shown_mono [OF _ note_commit_trusted] by simp
  qed
  show ?thesis
  proof (cases "\<exists>cs u en. result = Inr en \<and> ?cls ?c = Some cs \<and> cs_latest cs = Some u \<and> still_current r cs")
    case False
    then have "quiet ?cls (sv_clusters ?sv)"
      using finish_failed_quiet
      by (cases result) (auto simp: finish_enrichment_def finish_cluster_def split: option.splits)
    then show ?thesis using quiet_shown [OF more, of ?p] by simp
  next
    case True
    then obtain cs u en where cs: "result = Inr en" "?cls ?c = Some cs" "cs_latest cs = Some u" "still_current r cs" by blast
    then have sv: "sv_clusters ?sv = ?cls(?c \<mapsto> committed_cluster r en u cs)"
      by (simp add: finish_enrichment_def finish_cluster_def committed_cluster_def Let_def)
    obtain st where st: "pl_checked p ?c = Some st" "results_wf st" "results_shown (trusted p ?c) (en_results st) (hu_Results u)"
      using shown_okD [OF shown cs(2,3)] by blast
    have "results_shown (trusted ?p ?c) (en_results st) (patchDashboardResults (ei_results en) (hu_Results u))"
    proof (cases "?c \<in> pl_overlap p \<or> ?c \<in> pl_mixed p")
      case True
      then have "trusted ?p ?c = (\<lambda>_ _. True)" using cs by (auto simp: note_commit_def trusted_def Let_def)
      then show ?thesis using patched_kept results_shown_mono [OF st(3)] by simp
    next
      case False
      then have t: "trusted p ?c = written_for (pl_advice p ?c)"
          "trusted ?p ?c = written_for (pl_advice p ?c \<union> issues_in (ei_results en))"
        using cs by (simp_all add: note_commit_def trusted_def Let_def)
      have "er_generation r = cs_checkCounter cs" using cs(4) by (simp add: still_current_def)
      then have "results_rel same_issue (en_results st) (en_results (er_results r))"
        using assms(2) cs(2) st(1) False by (auto simp: stored_by_def)
      then have "results_rel advised_issue (en_results st) (en_results (ei_results en))"
        using enriched_advised [OF assms(3) [unfolded cs(1)]] st(2) by (simp add: results_wf_def)
      then show ?thesis using patched_shown st(3) unfolding t by blast
    qed
    then have "shown_ok ?p"
      using more st(1,2) unfolding shown_ok_def by (auto simp: sv committed_cluster_def)
    then show ?thesis .
  qed
qed

lemma finish_ok:
  assumes "flow_ok p" "pl_worker p = Some (r, True)" "range_order ord"
    and "runAIEnrichment reply (er_checkCtx r) (er_aiModel r) (er_results r) (er_causalCtx r) = Some result"
    and "release_cluster ord (er_clusterID r) (finish_enrichment r result (pl_server p)) = Some sv"
  shows "flow_ok ((note_commit r result p)\<lparr>pl_server := sv, pl_worker := None\<rparr>)"
proof (rule counted_flow [OF assms(1)])
  let ?p = "(note_commit r result p)\<lparr>pl_server := sv, pl_worker := None\<rparr>"
  note rel = release_parts [OF assms(5,3)]
  show "counted (sv_clusters (pl_server p)) (sv_clusters (pl_server ?p))" using finish_counted by (simp add: rel(1))
  show "outstanding ?p \<subseteq> outstanding p" using rel(2) by (auto simp: outstanding_def finish_queue)
  have "request_ok p r" using flow_okD(2) [OF assms(1)] assms(2) by (simp add: outstanding_def)
  then show "shown_ok ?p" using finish_shown [OF assms(1) _ assms(4)] by (simp add: shown_ok_def rel(1))
qed simp_all

lemma flow_keeps_ok:
  assumes "flow digest p p'" "flow_ok p"
  shows "flow_ok p'"
  using assms
proof cases
  case (give_up k)
  then show ?thesis by (intro quiet_flow [OF assms(2)]) (auto simp: outstanding_def map_le_def intro: trusted_cong)
next
  case (take q r q')
  then show ?thesis using receive_requests [of q r q'] by (intro quiet_flow [OF assms(2)]) (auto simp: outstanding_def)
next
  case (decline r ord sv)
  then show ?thesis
    using release_parts [of ord "er_clusterID r" "pl_server p" sv] by (intro quiet_flow [OF assms(2)]) (auto simp: outstanding_def)
next
  case (ask r)
  then show ?thesis by (intro quiet_flow [OF assms(2)]) (auto simp: outstanding_def)
next
  case (settings getenv now b response sv)
  then show ?thesis using settings_quiet [of getenv now b "pl_server p" response sv]
    by (intro quiet_flow [OF assms(2)]) (auto simp: outstanding_def)
next
  case (issues op)
  then show ?thesis using issue_step_quiet by (intro quiet_flow [OF assms(2)]) (auto simp: outstanding_def)
next
  case (subscription c slots sv)
  then show ?thesis by (intro quiet_flow [OF assms(2)]) (auto simp: outstanding_def subscribe_def split: if_splits)
qed (use assms(2) in \<open>blast intro: begun_ok collect_ok number_ok plan_ok store_ok record_ok enqueue_flow_ok finish_ok\<close>)+

lemma flow_reachable_ok: "flow_reachable digest p \<Longrightarrow> flow_ok p"
  by (induction rule: flow_reachable.induct) (auto intro: flow_ok_fresh flow_keeps_ok)


end
