(* ===== verification/Dashboard_Cache.thy ===== *)
theory Dashboard_Cache
  imports Dashboard_Flow
begin

text \<open>
  What the commits of the enrichment leave in the cache of a cluster, and what later checks make of it: which answers
  are asked for again, and what a change of settings does to an answer that is still on its way.
\<close>

section \<open>What the stages of a check do to the cache\<close>

definition same_cache :: "clusterState \<Rightarrow> clusterState \<Rightarrow> bool" where
  "same_cache cs cs' \<longleftrightarrow> cs_lastAICacheHash cs' = cs_lastAICacheHash cs \<and> cs_lastAIResult cs' = cs_lastAIResult cs \<and>
     cs_lastAIEnhancements cs' = cs_lastAIEnhancements cs \<and> cs_lastCausalInsights cs' = cs_lastCausalInsights cs"

lemma same_cache_trans: "same_cache a b \<Longrightarrow> same_cache b c \<Longrightarrow> same_cache a c"
  by (simp add: same_cache_def)

text \<open>The settings and the queue stay, and so does the cache of the cluster.\<close>

definition steady :: "string \<Rightarrow> server \<Rightarrow> server \<Rightarrow> bool" where
  "steady c sv sv' \<longleftrightarrow> sv_queue sv' = sv_queue sv \<and> sv_provider sv' = sv_provider sv \<and> sv_enabled sv' = sv_enabled sv \<and>
     rel_option same_cache (sv_clusters sv c) (sv_clusters sv' c)"

lemma steady_trans: "steady c a b \<Longrightarrow> steady c b d \<Longrightarrow> steady c a d"
  unfolding steady_def
  by (auto simp: option_rel_Some1 option_rel_Some2 elim!: option.rel_cases intro: same_cache_trans)

lemma broadcastUpdate_parts [simp]:
  "sv_provider (broadcastUpdate c u sv) = sv_provider sv" "sv_enabled (broadcastUpdate c u sv) = sv_enabled sv"
  "sv_provider (put_cluster c cs sv) = sv_provider sv" "sv_enabled (put_cluster c cs sv) = sv_enabled sv"
  by (simp_all add: broadcastUpdate_def put_cluster_def)

lemma phase_steady: "steady c sv (broadcastPhase d ph sv)"
  by (auto simp: steady_def broadcastPhase_def Let_def same_cache_def split: option.splits intro!: option.rel_refl)

lemma phase_settings [simp]:
  "sv_provider (broadcastPhase c ph sv) = sv_provider sv" "sv_enabled (broadcastPhase c ph sv) = sv_enabled sv"
  using phase_steady [of c sv c ph] by (simp_all add: steady_def)

lemma collect_steady:
  assumes "collect_check env c sv = (cu, sv')"
  shows "steady d sv sv'" "cu_cluster cu = c" "cu_results cu = ke_results env (check_namespaces env)"
    "cu_provider cu = sv_provider sv" "cu_enabled cu = sv_enabled sv"
  using assms steady_trans [OF phase_steady phase_steady] by (auto simp: collect_check_def Let_def)

lemma number_steady:
  assumes "number_check cu sv = (cu', sv')" "sv_clusters sv (cu_cluster cu) = Some cs"
  shows "steady d sv sv'" "cu' = cu\<lparr>cu_generation := cs_checkCounter cs + 1\<rparr>"
  using assms by (auto simp: number_check_def getOrCreateClusterState_def steady_def same_cache_def intro!: option.rel_refl)

text \<open>A check that hits the cache asks for nothing.\<close>

lemma plan_hit:
  assumes "plan_check digest cu sv = Some (cu', sv')" "computeIssueHash digest (en_results (cu_results cu)) = Some hash"
    and "sv_clusters sv (cu_cluster cu) = Some cs" "cache_hit hash cs = Some cached"
    and "ai_usable (cu_enabled cu) (cu_provider cu) = Some True"
  shows "steady d sv sv'" "cu_cluster cu' = cu_cluster cu"
    "\<exists>name. provider_text (cu_provider cu) = Some name \<and> cu_status cu' = Some (cached_status name cached)"
    "cu_results cu' = reapplyAIEnhancements (cs_lastAIEnhancements cs) (cu_results cu)"
  using assms phase_steady by (auto simp: plan_check_def Let_def split: bind_splits)

lemma store_steady:
  assumes "store_check digest env cu sv = Some (cu', sv')"
  shows "steady d sv sv'" "cu_cluster cu' = cu_cluster cu" "cu_status cu' = cu_status cu"
    "\<exists>cs u states br. sv_clusters sv' (cu_cluster cu) = Some cs \<and> cs_latest cs = Some u \<and> hu_AIStatus u = cu_status cu \<and>
       buildDashboardResults (cu_results cu) states = Some br \<and> hu_Results u = br_Results br"
  using assms
  by (auto simp: store_check_def build_update_def prune_def steady_def same_cache_def Let_def split: bind_splits prod.splits
      intro!: option.rel_refl) blast+

lemma record_steady:
  assumes "record_check cu sv = Some sv'"
  shows "steady d sv sv'"
    "map_option cs_latest (sv_clusters sv' (cu_cluster cu)) = map_option cs_latest (sv_clusters sv (cu_cluster cu))"
  using assms by (auto simp: record_check_def steady_def same_cache_def split: bind_splits intro!: option.rel_refl)

text \<open>The provider can be asked, and the issues of the check are those of the last commit, whose status and advice are
  \<open>cached\<close> and \<open>enh\<close>.\<close>

definition check_hits :: "(string \<Rightarrow> string) \<Rightarrow> 's check_env \<Rightarrow> server \<Rightarrow> string \<Rightarrow> AIStatus \<Rightarrow> enhancements \<Rightarrow> bool" where
  "check_hits digest env sv c cached enh \<longleftrightarrow> ai_usable (sv_enabled sv) (sv_provider sv) = Some True \<and>
     (\<exists>cs hash. sv_clusters sv c = Some cs \<and> cache_hit hash cs = Some cached \<and> cs_lastAIEnhancements cs = enh \<and>
        computeIssueHash digest (en_results (ke_results env (check_namespaces env))) = Some hash)"

lemma cached_status_parts [simp]: "as_Pending (cached_status name cached) = False" "as_CacheHit (cached_status name cached)"
  "as_LastError (cached_status name cached) = []" "as_IssuesEnhanced (cached_status name cached) = as_IssuesEnhanced cached"
  "as_Provider (cached_status name cached) = name" "as_TotalIssueCount (cached_status name cached) = as_TotalIssueCount cached"
  by (simp_all add: cached_status_def no_status_def)

definition shows_status :: "server \<Rightarrow> string \<Rightarrow> AIStatus \<Rightarrow> bool" where
  "shows_status sv c a \<longleftrightarrow> (\<exists>cs u. sv_clusters sv c = Some cs \<and> cs_latest cs = Some u \<and> hu_AIStatus u = Some a)"

text \<open>The cluster shows the status and the results, whatever issues are muted.\<close>

definition shows_reply :: "server \<Rightarrow> string \<Rightarrow> AIStatus \<Rightarrow> enhancement \<Rightarrow> bool" where
  "shows_reply sv c a st \<longleftrightarrow> (\<exists>cs u states br. sv_clusters sv c = Some cs \<and> cs_latest cs = Some u \<and> hu_AIStatus u = Some a \<and>
     buildDashboardResults st states = Some br \<and> hu_Results u = br_Results br)"

lemma shows_reply_status: "shows_reply sv c a st \<Longrightarrow> shows_status sv c a"
  by (auto simp: shows_reply_def shows_status_def)

text \<open>What a check that hits the cache shows: the name of its provider over the cached status and the cached advice.\<close>

definition hit_shown :: "'s check_env \<Rightarrow> ai_provider option \<Rightarrow> AIStatus \<Rightarrow> enhancements \<Rightarrow> server \<Rightarrow> string \<Rightarrow> bool" where
  "hit_shown env provider cached enh sv c \<longleftrightarrow> (\<exists>name. provider_text provider = Some name \<and>
     shows_reply sv c (cached_status name cached) (reapplyAIEnhancements enh (ke_results env (check_namespaces env))))"

lemma run_hits:
  assumes "runCheckForCluster digest env c sv = Some sv'" "check_hits digest env sv c cached enh"
  shows "steady c sv sv'" "hit_shown env (sv_provider sv) cached enh sv' c"
proof -
  obtain cs hash where h: "sv_clusters sv c = Some cs" "cache_hit hash cs = Some cached" "cs_lastAIEnhancements cs = enh"
      "computeIssueHash digest (en_results (ke_results env (check_namespaces env))) = Some hash"
      "ai_usable (sv_enabled sv) (sv_provider sv) = Some True"
    using assms(2) by (auto simp: check_hits_def)
  obtain cu1 sv1 cu2 sv2 cu3 sv3 cu4 sv4 sv5 where st:
      "collect_check env c sv = (cu1, sv1)" "number_check cu1 sv1 = (cu2, sv2)" "plan_check digest cu2 sv2 = Some (cu3, sv3)"
      "store_check digest env cu3 sv3 = Some (cu4, sv4)" "record_check cu4 sv4 = Some sv5" "enqueue_check digest env cu4 sv5 = Some sv'"
    using assms(1) by (auto simp: runCheckForCluster_def Let_def split: bind_splits prod.splits)
  note c1 = collect_steady [OF st(1)]
  obtain cs1 where cs1: "sv_clusters sv1 c = Some cs1" "same_cache cs cs1"
    using c1(1) [of c] h(1) by (auto simp: steady_def option_rel_Some1)
  note c2 = number_steady [OF st(2), unfolded c1(2), OF cs1(1)]
  obtain cs2 where cs2: "sv_clusters sv2 c = Some cs2" "same_cache cs1 cs2"
    using c2(1) [of c] cs1(1) by (auto simp: steady_def option_rel_Some1)
  have "cache_hit hash cs2 = Some cached" "cs_lastAIEnhancements cs2 = enh"
    using cs1(2) cs2(2) h(2,3) by (simp_all add: same_cache_def cache_hit_def split: if_splits)
  then have c3: "steady c sv2 sv3" "cu_cluster cu3 = c"
      "\<exists>name. provider_text (sv_provider sv) = Some name \<and> cu_status cu3 = Some (cached_status name cached)"
      "cu_results cu3 = reapplyAIEnhancements enh (ke_results env (check_namespaces env))"
    using plan_hit(1) [OF st(3), of hash cs2 cached c] plan_hit(2-4) [OF st(3), of hash cs2 cached] c1 c2(2) cs2(1) h(4,5)
    by simp_all
  note c4 = store_steady [OF st(4)]
  obtain name where name: "provider_text (sv_provider sv) = Some name" "cu_status cu3 = Some (cached_status name cached)"
    using c3(3) by blast
  have e: "sv' = sv5" using st(6) name(2) c4(3) by (simp add: enqueue_check_def wants_enrichment_def)
  show "steady c sv sv'"
    using c1(1) c2(1) c3(1) c4(1) record_steady(1) [OF st(5)] unfolding e by (meson steady_trans)
  have "map_option cs_latest (sv_clusters sv5 c) = map_option cs_latest (sv_clusters sv4 c)"
    using record_steady(2) [OF st(5)] c3(2) c4(2) by simp
  then have "shows_reply sv5 c (cached_status name cached) (cu_results cu3)"
    using c4(4) c3(2) name(2) unfolding shows_reply_def by (auto; blast)
  then show "hit_shown env (sv_provider sv) cached enh sv' c" using name(1) c3(4) unfolding e hit_shown_def by auto
qed

text \<open>Checks one after the other.\<close>

fun run_checks :: "(string \<Rightarrow> string) \<Rightarrow> 's check_env list \<Rightarrow> string \<Rightarrow> server \<Rightarrow> server option" where
  "run_checks digest [] c sv = Some sv"
| "run_checks digest (env # envs) c sv = Option.bind (runCheckForCluster digest env c sv) (run_checks digest envs c)"

lemma steady_hits: "steady c sv sv' \<Longrightarrow> check_hits digest env sv c cached enh \<Longrightarrow> check_hits digest env sv' c cached enh"
  by (auto simp: check_hits_def steady_def option_rel_Some1 same_cache_def cache_hit_def split: if_splits)

lemma runs_hit:
  assumes "run_checks digest envs c sv = Some sv'" "\<And>env. env \<in> set envs \<Longrightarrow> check_hits digest env sv c cached enh"
  shows "steady c sv sv'" "envs \<noteq> [] \<Longrightarrow> \<exists>name. shows_status sv' c (cached_status name cached)"
proof -
  have "(envs = [] \<and> sv' = sv) \<or> steady c sv sv' \<and> (\<exists>name. shows_status sv' c (cached_status name cached))"
    using assms
  proof (induction envs arbitrary: sv)
    case (Cons env envs)
    obtain sv1 where r: "runCheckForCluster digest env c sv = Some sv1" "run_checks digest envs c sv1 = Some sv'"
      using Cons.prems(1) by (auto split: bind_splits)
    have hit: "check_hits digest env sv c cached enh" using Cons.prems(2) by simp
    have h: "steady c sv sv1" "\<exists>name. shows_status sv1 c (cached_status name cached)"
      using run_hits [OF r(1) hit] shows_reply_status unfolding hit_shown_def by blast+
    have "check_hits digest e sv1 c cached enh" if "e \<in> set envs" for e
      using steady_hits [OF h(1)] Cons.prems(2) [of e] that by simp
    then show ?case using Cons.IH [OF r(2)] h steady_trans by blast
  qed simp
  moreover have "steady c sv sv" by (simp add: steady_def same_cache_def option.rel_refl)
  ultimately show "steady c sv sv'" "envs \<noteq> [] \<Longrightarrow> \<exists>name. shows_status sv' c (cached_status name cached)" by auto
qed

section \<open>An answer with nothing in it\<close>

lemma finish_commits:
  assumes "sv_clusters sv (er_clusterID r) = Some cs" "still_current r cs" "cs_latest cs = Some u"
  shows "sv_clusters (finish_enrichment r (Inr en) sv) = (sv_clusters sv)(er_clusterID r \<mapsto> committed_cluster r en u cs)"
    "sv_provider (finish_enrichment r (Inr en) sv) = sv_provider sv" "sv_enabled (finish_enrichment r (Inr en) sv) = sv_enabled sv"
  using assms by (auto simp: finish_enrichment_def finish_cluster_def Let_def split: option.splits)

lemma release_settings:
  "release_cluster ord c sv = Some sv' \<Longrightarrow> sv_clusters sv' = sv_clusters sv \<and> sv_provider sv' = sv_provider sv \<and> sv_enabled sv' = sv_enabled sv"
  by (auto simp: release_cluster_def split: option.splits)

lemma commit_hit:
  "cache_hit (er_issueHash r) (committed_cluster r en u cs) = Some (ei_status en)"
  by (simp add: cache_hit_def committed_cluster_def)

lemma empty_status:
  assumes "runAIEnrichment reply ctx model st causal = Some (Inr en)" "as_IssuesEnhanced (ei_status en) = 0"
  shows "\<exists>resp. as_LastError (ei_status en) = aiTruncationReason resp"
  using assms by (auto simp: runAIEnrichment_def Let_def no_status_def split: bind_splits option.splits if_splits) metis+

text \<open>The checks that follow find the issues of the request, and the provider can still be asked.\<close>

definition same_issues :: "(string \<Rightarrow> string) \<Rightarrow> request \<Rightarrow> 's check_env \<Rightarrow> bool" where
  "same_issues digest r env \<longleftrightarrow>
     computeIssueHash digest (en_results (ke_results env (check_namespaces env))) = Some (er_issueHash r)"

lemma committed_hits:
  assumes "sv_clusters sv (er_clusterID r) = Some cs" "still_current r cs" "cs_latest cs = Some u"
    and "release_cluster ord (er_clusterID r) (finish_enrichment r (Inr en) sv) = Some sv1"
    and "same_issues digest r env" "ai_usable (sv_enabled sv) (sv_provider sv) = Some True"
  shows "check_hits digest env sv1 (er_clusterID r) (ei_status en) (ei_enhancements en)"
  using finish_commits [OF assms(1-3), of en] release_settings [OF assms(4)] assms(5,6) commit_hit [of r en u cs]
  by (simp add: check_hits_def same_issues_def) (simp add: committed_cluster_def)

text \<open>C31. An answer that enhanced nothing is shown with an error that promises a retry in the next cycle, but it is committed
  to the cache like any other: as long as the issues stay the same, every later check hits the cache, enqueues
  nothing, and replaces the error by a cache hit without one.\<close>

theorem empty_reply_never_retried:
  assumes "sv_clusters sv (er_clusterID r) = Some cs" "still_current r cs" "cs_latest cs = Some u"
    and "ai_usable (sv_enabled sv) (sv_provider sv) = Some True"
    and "runAIEnrichment reply (er_checkCtx r) (er_aiModel r) (er_results r) (er_causalCtx r) = Some (Inr en)"
    and "as_IssuesEnhanced (ei_status en) = 0"
    and "handleEnrichmentResult ord reply r sv = Some sv1"
    and "envs \<noteq> []" "list_all (same_issues digest r) envs" "run_checks digest envs (er_clusterID r) sv1 = Some sv2"
  shows "(\<exists>resp. as_LastError (ei_status en) = aiTruncationReason resp) \<and> shows_status sv1 (er_clusterID r) (ei_status en) \<and>
    sv_queue sv2 = sv_queue sv1 \<and>
    (\<exists>a. shows_status sv2 (er_clusterID r) a \<and> as_CacheHit a \<and> \<not> as_Pending a \<and> as_LastError a = [] \<and> as_IssuesEnhanced a = 0)"
proof -
  have "preflight r sv" using assms(1,2) by (simp add: preflight_def still_current_def)
  then have rel: "release_cluster ord (er_clusterID r) (finish_enrichment r (Inr en) sv) = Some sv1"
    using assms(5,7) by (simp add: handleEnrichmentResult_def)
  have "check_hits digest env sv1 (er_clusterID r) (ei_status en) (ei_enhancements en)" if "env \<in> set envs" for env
    by (rule committed_hits [OF assms(1-3) rel _ assms(4)]) (use assms(9) that in \<open>simp add: list_all_iff\<close>)
  note r = runs_hit [OF assms(10) this]
  have "shows_status sv1 (er_clusterID r) (ei_status en)"
    using finish_commits(1) [OF assms(1-3), of en] release_settings [OF rel]
    by (simp add: shows_status_def committed_cluster_def)
  then show ?thesis
    using empty_status [OF assms(5,6)] r assms(6,8) cached_status_parts unfolding steady_def by metis
qed

section \<open>An answer that arrives after new settings\<close>

lemma settings_commit:
  assumes "handlePostAISettings getenv now b sv = Some (HttpOk code resp, sv')"
  shows "\<exists>req cfg p. sv' = commit_settings req cfg p sv"
  using assms by (auto simp: handlePostAISettings_def Let_def split: sum.splits option.splits)

lemma commit_settings_provider: "sv_provider (commit_settings req cfg p sv) = Some p"
  by (simp add: commit_settings_def)

lemma enriched_provider:
  assumes "runAIEnrichment reply ctx model st causal = Some (Inr en)"
  shows "as_Provider (ei_status en) = aa_name reply"
  using assms by (auto simp: runAIEnrichment_def Let_def no_status_def split: bind_splits option.splits if_splits)


section \<open>A check completes\<close>

lemma computeIssueHash_total:
  assumes "list_all (\<lambda>(n, ro). ro \<noteq> None) rs"
  shows "\<exists>h. computeIssueHash digest rs = Some h"
proof -
  have "result_lines rs name \<noteq> None" if name: "name \<in> set (sort (map fst rs))" for name
  proof -
    obtain ro where ro: "map_of rs name = Some ro" using name by (cases "map_of rs name") (simp_all add: map_of_eq_None_iff)
    then obtain r where "ro = Some r" using assms map_of_SomeD [OF ro] by (fastforce simp: list_all_iff)
    then show ?thesis using ro by (simp add: result_lines_def)
  qed
  then have "those (map (result_lines rs) (sort (map fst rs))) = Some (map (the \<circ> result_lines rs) (sort (map fst rs)))"
    by (rule those_all_Some)
  then show ?thesis by (simp add: computeIssueHash_def)
qed

lemma build_from_total: "list_all (\<lambda>(n, ro). ro \<noteq> None) rs \<Longrightarrow> \<exists>br'. build_from meta states rs br = Some br'"
  by (induction meta states rs br rule: build_from.induct) (auto simp: Let_def)

lemma build_total: "list_all (\<lambda>(n, ro). ro \<noteq> None) (en_results st) \<Longrightarrow> \<exists>br. buildDashboardResults st states = Some br"
  by (simp add: buildDashboardResults_def build_from_total)

lemma reapply_no_nil:
  "list_all (\<lambda>(n, ro). ro \<noteq> None) rs \<Longrightarrow> list_all (\<lambda>(n, ro). ro \<noteq> None) (en_results (reapply_results enh rs m k))"
  by (induction enh rs m k rule: reapply_results.induct) (auto simp: Let_def split: prod.splits option.splits)

text \<open>The provider is no nil pointer; a server without one is fine.\<close>

definition provider_ok :: "server \<Rightarrow> bool" where
  "provider_ok sv \<longleftrightarrow> pred_option (\<lambda>p. ai_available p \<noteq> None \<and> ai_name p \<noteq> None) (sv_provider sv)"

lemma provider_ok_total:
  assumes "provider_ok sv"
  shows "\<exists>b. ai_usable enabled (sv_provider sv) = Some b" "\<exists>name. provider_text (sv_provider sv) = Some name"
  using assms by (auto simp: provider_ok_def ai_usable_def provider_text_def split: option.splits)

lemma ring_holds_ex: "\<exists>xs. ring_holds (history_New n) xs"
  by (rule exI) (rule ring_holds_new)

definition history_ok :: "string \<Rightarrow> server \<Rightarrow> bool" where
  "history_ok c sv \<longleftrightarrow> pred_option (\<lambda>cs. \<exists>xs. ring_holds (cs_history cs) xs) (sv_clusters sv c)"

lemma phase_history: "history_ok c sv \<Longrightarrow> history_ok c (broadcastPhase d ph sv)"
  by (auto simp: history_ok_def broadcastPhase_def Let_def split: option.splits)

lemma plan_total:
  assumes "list_all (\<lambda>(n, ro). ro \<noteq> None) (en_results (cu_results cu))" "sv_clusters sv (cu_cluster cu) \<noteq> None"
    and "provider_ok sv" "cu_provider cu = sv_provider sv" "history_ok (cu_cluster cu) sv"
  shows "\<exists>cu' sv'. plan_check digest cu sv = Some (cu', sv') \<and> cu_cluster cu' = cu_cluster cu \<and>
    list_all (\<lambda>(n, ro). ro \<noteq> None) (en_results (cu_results cu')) \<and> sv_clusters sv' (cu_cluster cu) \<noteq> None \<and>
    history_ok (cu_cluster cu) sv'"
proof -
  obtain h cs b name where p: "computeIssueHash digest (en_results (cu_results cu)) = Some h"
      "sv_clusters sv (cu_cluster cu) = Some cs" "ai_usable (cu_enabled cu) (cu_provider cu) = Some b"
      "provider_text (cu_provider cu) = Some name"
    using computeIssueHash_total [OF assms(1)] assms(2,4) provider_ok_total [OF assms(3)] by fastforce
  have n: "sv_clusters (broadcastPhase c ph sv) (cu_cluster cu) \<noteq> None" for c ph
    using phase_steady [of "cu_cluster cu" sv c ph] p(2) by (auto simp: steady_def option_rel_Some1)
  show ?thesis
    using assms(1,5) phase_history [OF assms(5)] n p(2) reapply_no_nil [OF assms(1)]
    by (auto simp: plan_check_def p Let_def reapplyAIEnhancements_def split: option.splits)
qed

lemma store_total:
  assumes "list_all (\<lambda>(n, ro). ro \<noteq> None) (en_results (cu_results cu))" "sv_clusters sv (cu_cluster cu) \<noteq> None"
    and "history_ok (cu_cluster cu) sv"
  shows "\<exists>cu' sv'. store_check digest env cu sv = Some (cu', sv') \<and> cu_cluster cu' = cu_cluster cu \<and>
    (\<exists>cs xs. sv_clusters sv' (cu_cluster cu) = Some cs \<and> cs_latest cs = Some (cu_update cu') \<and> ring_holds (cs_history cs) xs)"
proof -
  obtain cs xs where cs: "sv_clusters sv (cu_cluster cu) = Some cs" "ring_holds (cs_history cs) xs"
    using assms(2,3) by (auto simp: history_ok_def)
  obtain br where "buildDashboardResults (cu_results cu) (unexpired (ke_shown env) (cs_issueStates cs)) = Some br"
    using build_total [OF assms(1)] by blast
  then show ?thesis using cs by (auto simp: store_check_def build_update_def prune_def Let_def split: prod.splits)
qed

lemma enqueue_total:
  assumes "range_order (ke_queue_order env)"
  shows "\<exists>sv'. enqueue_check digest env cu sv = Some sv'"
proof (cases "sv_queue sv")
  case (Some q)
  have "\<exists>x. Enqueue (ke_queue_order env) req q = Some x" for req
    using dispatch_induct [OF assms, of "\<lambda>_. True"] by (auto simp: Enqueue_def Let_def)
  then show ?thesis using Some by (fastforce simp: enqueue_check_def Let_def)
qed (simp add: enqueue_check_def)

lemma enqueue_latest:
  assumes "enqueue_check digest env cu sv = Some sv'" "sv_clusters sv (cu_cluster cu) = Some cs" "cs_latest cs = Some u"
  shows "\<exists>cs' u'. sv_clusters sv' (cu_cluster cu) = Some cs' \<and> cs_history cs' = cs_history cs \<and> cs_latest cs' = Some u' \<and>
    health_snapshot u' = health_snapshot u"
  using assms by (auto simp: enqueue_check_def queue_full_def degrade_def health_snapshot_def Let_def split: if_splits option.splits)

lemma run_total:
  assumes "results_wf (ke_results env (check_namespaces env))" "provider_ok sv" "history_ok c sv" "range_order (ke_queue_order env)"
  shows "\<exists>sv' cs u xs n. runCheckForCluster digest env c sv = Some sv' \<and> sv_clusters sv' c = Some cs \<and> cs_latest cs = Some u \<and>
    ring_holds (cs_history cs) (last_n n (xs @ [health_snapshot u])) \<and> 0 < n"
proof -
  obtain cu1 sv1 cu2 sv2 where s: "collect_check env c sv = (cu1, sv1)" "number_check cu1 sv1 = (cu2, sv2)" by (metis surj_pair)
  note c1 = collect_steady [OF s(1)]
  have h1: "history_ok c sv1" using s(1) phase_history assms(3) by (auto simp: collect_check_def Let_def)
  have c2: "cu_cluster cu2 = c" "cu_results cu2 = cu_results cu1" "cu_provider cu2 = cu_provider cu1" "sv_provider sv2 = sv_provider sv1"
      "sv_clusters sv2 c \<noteq> None" "history_ok c sv2"
    using s(2) h1 c1(2)
    by (auto simp: number_check_def getOrCreateClusterState_def Let_def history_ok_def new_cluster_def
        split: option.splits intro!: ring_holds_ex)
  have "provider_ok sv2" using assms(2) c1(1) c2(4) by (simp add: provider_ok_def steady_def)
  then obtain cu3 sv3 where p: "plan_check digest cu2 sv2 = Some (cu3, sv3)" "cu_cluster cu3 = c"
      "list_all (\<lambda>(n, ro). ro \<noteq> None) (en_results (cu_results cu3))" "sv_clusters sv3 c \<noteq> None" "history_ok c sv3"
    using plan_total [of cu2 sv2 digest] assms(1) c1 c2 by (auto simp: results_wf_def steady_def)
  obtain cu4 sv4 cs xs where st: "store_check digest env cu3 sv3 = Some (cu4, sv4)" "cu_cluster cu4 = c"
      "sv_clusters sv4 c = Some cs" "cs_latest cs = Some (cu_update cu4)" "ring_holds (cs_history cs) xs"
    using store_total [of cu3 sv3 digest env] p(2-5) by auto
  obtain h where h: "history_Add (health_snapshot (cu_update cu4)) (cs_history cs) = Some h"
      "ring_holds h (last_n (nat (rb_capacity (cs_history cs))) (xs @ [health_snapshot (cu_update cu4)]))"
    using ring_holds_add [OF st(5)] by blast
  let ?sv5 = "put_cluster c (cs\<lparr>cs_history := h\<rparr>) sv4"
  have rec: "record_check cu4 sv4 = Some ?sv5" using st(2,3) h(1) by (simp add: record_check_def)
  obtain sv6 where e: "enqueue_check digest env cu4 ?sv5 = Some sv6" using enqueue_total [OF assms(4)] by blast
  have r: "runCheckForCluster digest env c sv = Some sv6"
    using s p(1) st(1) rec e by (simp add: runCheckForCluster_def)
  obtain cs' u' where f: "sv_clusters sv6 c = Some cs'" "cs_history cs' = h" "cs_latest cs' = Some u'"
      "health_snapshot u' = health_snapshot (cu_update cu4)"
    using enqueue_latest [OF e, of "cs\<lparr>cs_history := h\<rparr>" "cu_update cu4"] st(2,4) by auto
  have "0 < nat (rb_capacity (cs_history cs))" using st(5) by (simp add: ring_holds_def)
  then show ?thesis using r f h(2) by metis
qed

text \<open>C37. A check of well-formed results always completes: it panics nowhere and its loops end, whatever the caches of the
  cluster hold, in whatever order the queue visits its requests; afterwards the cluster shows an update, and the newest
  snapshot of its history is the one of that update.\<close>

theorem check_completes:
  assumes "results_wf (ke_results env (check_namespaces env))" "provider_ok sv" "history_ok c sv" "range_order (ke_queue_order env)"
  shows "\<exists>sv' cs u xs n. runCheckForCluster digest env c sv = Some sv' \<and> sv_clusters sv' c = Some cs \<and> cs_latest cs = Some u \<and>
    ring_holds (cs_history cs) (last_n n (xs @ [health_snapshot u])) \<and> 0 < n"
  by (rule run_total [OF assms])

section \<open>An example\<close>

text \<open>The checkers find the two issues of \<open>ex_checked\<close>; the digest of a text is the text.\<close>

definition ex_check_env :: "string check_env" where
  "ex_check_env = \<lparr>ke_source = \<lparr>nss_get = (\<lambda>_. True), nss_selector = (\<lambda>_. None), nss_list = (\<lambda>_. Inr [(''ns'', ''Active'')])\<rparr>,
     ke_everything = [], ke_results = (\<lambda>_. ex_checked), ke_deployments = (\<lambda>_. Inr [(Some 2, 1)]), ke_orders = ex_orders,
     ke_correlator = NewCorrelator, ke_enrich = None, ke_now = 0, ke_shown = 1, ke_stored = 2, ke_enqueued = 3,
     ke_queue_order = rev\<rparr>"

definition ex_hash :: string where
  "ex_hash = the (computeIssueHash (\<lambda>s. s) (en_results ex_checked))"

definition ex_provider :: ai_provider where
  "ex_provider = Direct (OpenAIProvider \<lparr>hp_apiKey = ''key'', hp_endpoint = [], hp_model = [], hp_maxTokens = 1, hp_timeout = 1\<rparr>)"

definition ex_update :: HealthUpdate where
  "ex_update = \<lparr>hu_Timestamp = 0, hu_ClusterID = [], hu_Namespaces = [], hu_Results = [], hu_Summary = no_summary,
     hu_AIStatus = Some (pending_status ''openai''), hu_IssueStates = Map.empty\<rparr>"

text \<open>A server whose only cluster waits for the answer to the request of its first check.\<close>

definition ex_enrich_request :: request where
  "ex_enrich_request = \<lparr>er_clusterID = [], er_generation = 1, er_issueHash = ex_hash, er_configVersion = ''v'',
     er_results = deepCopyResults ex_checked, er_causalCtx = None, er_checkCtx = minimalCheckContext enh_ctx,
     er_provider = ''openai'', er_aiModel = [], er_enqueuedAt = 0\<rparr>"

definition ex_waiting :: clusterState where
  "ex_waiting = (new_cluster 10)\<lparr>cs_latest := Some ex_update, cs_currentIssueHash := ex_hash, cs_aiConfigVersion := ''v'',
     cs_checkCounter := 1\<rparr>"

definition ex_server :: server where
  "ex_server = \<lparr>sv_clusters = [[] \<mapsto> ex_waiting], sv_clients = [], sv_provider = Some ex_provider, sv_enabled = True,
     sv_config = DefaultConfig\<lparr>cf_APIKey := ''key''\<rparr>, sv_queue = Some \<lparr>qu_ch = [], qu_pending = [], qu_inflight = {[]}, qu_capacity = 2\<rparr>,
     sv_historySize = 10, sv_maxIssues = 15, sv_maxClients = 0\<rparr>"

definition ex_response :: AnalysisResponse where
  "ex_response = \<lparr>rs_EnhancedSuggestions = Map.empty, rs_CausalInsights = [], rs_Summary = [], rs_RawContent = [],
     rs_TokensUsed = 7, rs_Truncated = True, rs_ParseFailed = False\<rparr>"

definition ex_empty_reply :: ai_answer where
  "ex_empty_reply = \<lparr>aa_available = True, aa_analyze = (\<lambda>_. Inr (Some ex_response)), aa_name = ''openai''\<rparr>"

lemma ex_results_wf: "results_wf ex_checked"
  by (simp add: results_wf_def ex_checked_def)

lemma ex_hash: "computeIssueHash (\<lambda>s. s) (en_results ex_checked) = Some ex_hash"
  using computeIssueHash_total [of "en_results ex_checked" "\<lambda>s. s"] ex_results_wf by (auto simp: ex_hash_def results_wf_def)

lemma ex_server_ok: "provider_ok ex_server" "history_ok [] ex_server" "ai_usable (sv_enabled ex_server) (sv_provider ex_server) = Some True"
  by (auto simp: provider_ok_def history_ok_def ex_server_def ex_provider_def ex_waiting_def new_cluster_def ai_usable_def
      intro: ring_holds_new)

lemma ex_env_parts: "ke_results ex_check_env nss = ex_checked" "ke_queue_order ex_check_env = rev"
  by (simp_all add: ex_check_env_def)

lemma check_completes_witness: "\<exists>sv' cs u. runCheckForCluster (\<lambda>s. s) ex_check_env [] ex_server = Some sv' \<and>
    sv_clusters sv' [] = Some cs \<and> cs_latest cs = Some u"
  using check_completes [of ex_check_env ex_server "[]" "\<lambda>s. s"] ex_results_wf ex_server_ok by (auto simp: ex_env_parts)

lemma fan_out_empty: "rs_EnhancedSuggestions resp = Map.empty \<Longrightarrow> fan_out ctx resp gs n st = Some (n, st)"
  by (induction ctx resp gs n st rule: fan_out.induct) auto

text \<open>An answer without suggestions enhances nothing.\<close>

lemma empty_reply:
  assumes "list_all (\<lambda>(n, ro). ro \<noteq> None) (en_results st)" "aa_analyze reply = (\<lambda>_. Inr (Some resp))"
    and "rs_EnhancedSuggestions resp = Map.empty"
  shows "\<exists>en. runAIEnrichment reply ctx model st causal = Some (Inr en) \<and> as_IssuesEnhanced (ei_status en) = 0"
  using collect_good [OF assms(1)] assms(2,3)
  by (auto simp: runAIEnrichment_def EnhanceAllWithAI_def Let_def fan_out_empty nothing_sent_def no_status_def split: if_splits)

lemma ex_empty: "\<exists>en. runAIEnrichment ex_empty_reply (er_checkCtx ex_enrich_request) (er_aiModel ex_enrich_request)
    (er_results ex_enrich_request) (er_causalCtx ex_enrich_request) = Some (Inr en) \<and> as_IssuesEnhanced (ei_status en) = 0"
proof -
  have "list_all (\<lambda>(n, ro). ro \<noteq> None) (en_results (er_results ex_enrich_request))"
    using results_rel_no_nil [OF deepCopy_same [of ex_checked]] ex_results_wf by (simp add: ex_enrich_request_def results_wf_def)
  then show ?thesis by (rule empty_reply [where resp = ex_response]) (simp_all add: ex_empty_reply_def ex_response_def)
qed

lemma ex_current: "sv_clusters ex_server (er_clusterID ex_enrich_request) = Some ex_waiting" "still_current ex_enrich_request ex_waiting"
  "cs_latest ex_waiting = Some ex_update"
  by (simp_all add: ex_server_def ex_enrich_request_def ex_waiting_def still_current_def new_cluster_def)

lemma release_total:
  assumes "range_order ord" "sv_queue sv = Some q"
  shows "\<exists>sv'. release_cluster ord c sv = Some sv'"
  using dispatch_induct [OF assms(1), of "\<lambda>_. True"] assms(2) by (auto simp: release_cluster_def markDone_def)

lemma committed_history:
  assumes "sv_clusters sv c = Some cs" "ring_holds (cs_history cs) xs"
    and "release_cluster ord c (finish_enrichment r (Inr en) sv) = Some sv1"
  shows "history_ok c sv1"
  using assms release_settings [OF assms(3)]
  by (auto simp: history_ok_def finish_enrichment_def finish_cluster_def committed_cluster_def Let_def split: option.splits)

lemma empty_reply_never_retried_witness:
  "\<exists>sv1 sv2 a. handleEnrichmentResult rev ex_empty_reply ex_enrich_request ex_server = Some sv1 \<and>
    run_checks (\<lambda>s. s) [ex_check_env] [] sv1 = Some sv2 \<and> sv_queue sv2 = sv_queue sv1 \<and>
    shows_status sv2 [] a \<and> as_CacheHit a \<and> as_IssuesEnhanced a = 0"
proof -
  let ?r = ex_enrich_request
  have id: "er_clusterID ?r = []" by (simp add: ex_enrich_request_def)
  obtain en where en: "runAIEnrichment ex_empty_reply (er_checkCtx ?r) (er_aiModel ?r) (er_results ?r) (er_causalCtx ?r) = Some (Inr en)"
      "as_IssuesEnhanced (ei_status en) = 0" using ex_empty by blast
  obtain sv1 where rel: "release_cluster rev [] (finish_enrichment ?r (Inr en) ex_server) = Some sv1"
    using release_total [of rev "finish_enrichment ?r (Inr en) ex_server"] by (auto simp: finish_queue ex_server_def)
  have pre: "preflight ?r ex_server" using ex_current by (simp add: preflight_def still_current_def)
  have h: "handleEnrichmentResult rev ex_empty_reply ?r ex_server = Some sv1"
    using pre en(1) rel by (simp add: handleEnrichmentResult_def id)
  have same: "same_issues (\<lambda>s. s) ?r ex_check_env" by (simp add: same_issues_def ex_env_parts ex_hash) (simp add: ex_enrich_request_def)
  have "history_ok [] sv1"
    using committed_history [OF _ _ rel, of ex_waiting "[]"] ex_current(1) ring_holds_new by (simp add: id ex_waiting_def new_cluster_def)
  moreover have "provider_ok sv1"
    using ex_server_ok(1) release_settings [OF rel] finish_commits(2) [OF ex_current, of en] by (simp add: provider_ok_def)
  ultimately obtain sv2 where run: "run_checks (\<lambda>s. s) [ex_check_env] [] sv1 = Some sv2"
    using run_total [of ex_check_env sv1 "[]" "\<lambda>s. s"] ex_results_wf by (auto simp: ex_env_parts)
  show ?thesis
    using empty_reply_never_retried [OF ex_current ex_server_ok(3) en h, of "[ex_check_env]" "\<lambda>s. s" sv2] same run h
    unfolding id by auto
qed

definition ex_settings :: AISettingsRequest where
  "ex_settings = \<lparr>sq_Enabled = True, sq_Provider = ''Anthropic'', sq_APIKey = [], sq_ClearAPIKey = False, sq_Model = [],
     sq_ExplainModel = []\<rparr>"

lemma lower_Anthropic: "to_lower ''Anthropic'' = ''anthropic''"
  by code_simp

lemma lower_anthropic: "to_lower ''anthropic'' = ''anthropic''"
  by code_simp

lemma ex_settings_accepted:
  "\<exists>response sv'. handlePostAISettings (\<lambda>_. []) 0 (Body ex_settings) ex_server = Some (HttpOk 200 response, sv') \<and>
     ai_usable (sv_enabled sv') (sv_provider sv') = Some True \<and> ai_name (the (sv_provider sv')) = Some ''anthropic'' \<and>
     provider_ok sv'"
  by (simp add: handlePostAISettings_def decodeJSONBody_def settings_error_def ex_settings_def maxModelLen_def lower_Anthropic lower_anthropic
    staged_config_def ex_server_def new_provider_def ex_provider_def NewProvider_def createSingleProvider_def DefaultConfig_def
    provider_names resolve_api_key_def NewAnthropicProvider_def Let_def commit_settings_def ai_usable_def provider_ok_def
    resolved_model_def) blast


text \<open>The stages of a first check, from a server without clusters.\<close>

definition ex_fresh :: pipeline where
  "ex_fresh = \<lparr>pl_server = ex_server\<lparr>sv_clusters := Map.empty, sv_queue := None\<rparr>, pl_checks = Map.empty, pl_begun = {},
     pl_worker = None, pl_checked = Map.empty, pl_advice = (\<lambda>_. {}), pl_overlap = {}, pl_mixed = {}\<rparr>"


end
