(* ===== verification/Chat_Agent.thy ===== *)
theory Chat_Agent
  imports AI_Client Token_Budget
begin

text \<open>
  The chat agent (\<open>internal/ai/agent.go\<close>): a turn asks the provider, runs the tools it calls, and asks again with
  their results until it answers without a call or the rounds are used up. The outside of a round (the context, the
  clock, the HTTP answer, the tools) is an environment; the decoding of JSON and URLs is a parameter. A turn returns its
  messages, tokens and events; the agent is returned with its budgets changed. The requests that were sent are kept
  for the properties.
\<close>

section \<open>Messages, events and the agent\<close>

definition chatSystemPrompt :: string where
  "chatSystemPrompt = (''You are KubeAssist, an AI assistant for Kubernetes cluster health monitoring.'' @
       [CHR 0x0A] @
       ''You have access to tools that query live cluster data. Use them to answer'' @
       [CHR 0x0A] @ ''questions about cluster health, issues, namespaces, and trends.'' @
       [CHR 0x0A] @ [CHR 0x0A] @
       ''Be concise and actionable. When issues are found, suggest specific kubectl'' @
       [CHR 0x0A] @
       ''commands or remediation steps. If you need more context, call the appropriate tool.'')"

definition minChatTurnReservationTokens :: int where "minChatTurnReservationTokens = 500"

definition roleUser :: string where "roleUser = ''user''"
definition roleAssistant :: string where "roleAssistant = ''assistant''"
definition roleTool :: string where "roleTool = ''tool''"

lemma roles_distinct [simp]:
  "roleUser \<noteq> roleAssistant" "roleUser \<noteq> roleTool" "roleAssistant \<noteq> roleUser" "roleAssistant \<noteq> roleTool"
  "roleTool \<noteq> roleUser" "roleTool \<noteq> roleAssistant"
  by (simp_all add: roleUser_def roleAssistant_def roleTool_def)

record ToolDef =
  td_Name :: string
  td_Description :: string
  td_Parameters :: json

record ToolCall =
  tc_ID :: string
  tc_Name :: string
  tc_Args :: string     \<comment> \<open>raw JSON\<close>

record ChatMessage =
  ch_Role :: string
  ch_Content :: string
  ch_ToolCallID :: string
  ch_ToolCalls :: "ToolCall list"

datatype ChatEvent =
    ChatEventThinking
  | ChatEventToolCall string string        \<comment> \<open>tool and arguments\<close>
  | ChatEventToolResult string string      \<comment> \<open>tool and result\<close>
  | ChatEventContent string int
  | ChatEventDone int
  | ChatEventError string

record ChatAgent =
  ca_providerName :: string
  ca_apiKey :: string
  ca_model :: string
  ca_endpoint :: string
  ca_tools :: "ToolDef list"
  ca_maxIterations :: int
  ca_maxTokens :: int
  ca_budget :: "Budget option"
  ca_chatBudget :: "ChatBudget option"

definition described :: "string \<Rightarrow> (string \<times> json) list \<Rightarrow> json" where
  "described text others = JObj ((''type'', JStr ''string'') # (''description'', JStr text) # others)"

definition parameters :: "(string \<times> json) list \<Rightarrow> (string \<times> json) list \<Rightarrow> json" where
  "parameters props others =
     JObj ((''type'', JStr ''object'') # (''properties'', JObj props) # others @ [(''additionalProperties'', JBool False)])"

definition ChatTools :: "ToolDef list" where
  "ChatTools =
     [\<lparr>td_Name = ''get_issues'',
       td_Description = (''Get current health check issues. Optionally filter by namespace, checker name, or '' @
       ''severity.''),
       td_Parameters = parameters
         [(''namespace'', described ''Filter issues by namespace'' []),
          (''checker'', described ''Filter issues by checker name'' []),
          (''severity'', described ''Filter issues by severity level''
             [(''enum'', JList [JStr ''Critical'', JStr ''Warning'', JStr ''Info''])])] []\<rparr>,
      \<lparr>td_Name = ''get_namespaces'', td_Description = ''List all monitored namespaces.'', td_Parameters = parameters [] []\<rparr>,
      \<lparr>td_Name = ''get_health_score'', td_Description = ''Get the current cluster health score and summary information.'',
       td_Parameters = parameters [] []\<rparr>,
      \<lparr>td_Name = ''explain_issue'', td_Description = ''Get AI-enhanced details and remediation steps for a specific issue.'',
       td_Parameters = parameters
         [(''issueKey'', described (''The issue key to explain (e.g. '' @ [CHR 0x27] @
       ''CrashLoopBackOff:deployment/my-app'' @ [CHR 0x27] @ '')'') []),
          (''checker'', described (''Optional checker name to narrow the search (e.g. '' @ [CHR 0x27] @ ''workloads'' @
       [CHR 0x27] @ '')'') [])]
         [(''required'', JList [JStr ''issueKey''])]\<rparr>,
      \<lparr>td_Name = ''get_checkers'', td_Description = ''List all health checkers and their current status.'',
       td_Parameters = parameters [] []\<rparr>]"

definition NewChatAgent :: "string \<Rightarrow> string \<Rightarrow> string \<Rightarrow> string \<Rightarrow> ChatAgent" where
  "NewChatAgent providerName apiKey model endpoint =
     \<lparr>ca_providerName = providerName, ca_apiKey = apiKey,
      ca_model = (if model = []
        then if providerName = ProviderNameOpenAI then defaultOpenAIModel
          else if providerName = ProviderNameAnthropic then defaultAnthropicModel else []
        else model),
      ca_endpoint = (if endpoint = []
        then if providerName = ProviderNameOpenAI then ''https://api.openai.com/v1/chat/completions''
          else if providerName = ProviderNameAnthropic then ''https://api.anthropic.com/v1/messages'' else []
        else endpoint),
      ca_tools = ChatTools, ca_maxIterations = 5, ca_maxTokens = 4096, ca_budget = None, ca_chatBudget = None\<rparr>"

definition SetMaxTokens :: "int \<Rightarrow> ChatAgent \<Rightarrow> ChatAgent" where
  "SetMaxTokens n a = (if n > 0 then a\<lparr>ca_maxTokens := n\<rparr> else a)"

definition SetMaxIterations :: "int \<Rightarrow> ChatAgent \<Rightarrow> ChatAgent" where
  "SetMaxIterations n a = (if n > 0 then a\<lparr>ca_maxIterations := n\<rparr> else a)"

definition SetBudget :: "Budget option \<Rightarrow> ChatAgent \<Rightarrow> ChatAgent" where
  "SetBudget b a = a\<lparr>ca_budget := b\<rparr>"

definition SetChatBudget :: "ChatBudget option \<Rightarrow> ChatAgent \<Rightarrow> ChatAgent" where
  "SetChatBudget cb a = a\<lparr>ca_chatBudget := cb\<rparr>"

section \<open>The size of a history\<close>

definition truncate_text :: "string \<Rightarrow> nat \<Rightarrow> string" where
  "truncate_text s maxLen =
     (let rs = runes s in if length rs \<le> maxLen then s else concat (take maxLen rs) @ ''...(truncated)'')"

definition message_chars :: "ChatMessage \<Rightarrow> nat" where
  "message_chars m = length (ch_Content m) + sum_list (map (\<lambda>c. length (tc_Args c) + length (tc_Name c)) (ch_ToolCalls m))"

definition estimateMessageTokens :: "ChatMessage list \<Rightarrow> int" where
  "estimateMessageTokens msgs = int (sum_list (map message_chars msgs)) div 4"

definition contextWindowEstimate :: int where "contextWindowEstimate = 128000"

definition summary_of :: "ChatMessage list \<Rightarrow> string" where
  "summary_of msgs = ''Previous conversation summary: '' @
     concat (map (\<lambda>m. if ch_Content m = [] then []
       else ''['' @ ch_Role m @ ''] '' @ truncate_text (ch_Content m) 100 @ '' '') msgs)"

definition user_message :: "string \<Rightarrow> ChatMessage" where
  "user_message s = \<lparr>ch_Role = roleUser, ch_Content = s, ch_ToolCallID = [], ch_ToolCalls = []\<rparr>"

definition maybeCompactHistory :: "ChatMessage list \<Rightarrow> ChatMessage list" where
  "maybeCompactHistory msgs =
     (if estimateMessageTokens msgs < contextWindowEstimate * 80 div 100 \<or> length msgs \<le> 4 then msgs
      else let n = length msgs - min 3 (length msgs)
        in user_message (summary_of (take n msgs)) # drop n msgs)"

section \<open>Requests and answers\<close>

text \<open>An error: its text, and whether it is or wraps \<open>context.Canceled\<close>.\<close>

record turn_error =
  tx_Text :: string
  tx_Canceled :: bool

definition plain_error :: "string \<Rightarrow> turn_error" where
  "plain_error e = \<lparr>tx_Text = e, tx_Canceled = False\<rparr>"

definition wrapped :: "string \<Rightarrow> turn_error \<Rightarrow> turn_error" where
  "wrapped text e = e\<lparr>tx_Text := text @ tx_Text e\<rparr>"

record openAIChatToolCall =
  ot_ID :: string
  ot_Type :: string
  ot_Name :: string
  ot_Arguments :: string

record openAIChatMessage =
  om_Role :: string
  om_Content :: string
  om_ToolCallID :: string
  om_ToolCalls :: "openAIChatToolCall list"

text \<open>The temperature is 0.3 in every request, the type of every tool is \<open>function\<close>.\<close>

record openAIChatRequest =
  or_Model :: string
  or_Messages :: "openAIChatMessage list"
  or_Tools :: "ToolDef list"
  or_MaxTokens :: int

record openAIChatResponse =
  op_Choices :: "(string \<times> openAIChatToolCall list) list"     \<comment> \<open>content and tool calls\<close>
  op_TotalTokens :: int
  op_Error :: "string option"

record anthropicChatContentBlock =
  bl_Type :: string
  bl_Text :: string
  bl_ID :: string
  bl_Name :: string
  bl_Input :: string                \<comment> \<open>raw JSON\<close>
  bl_ToolUseID :: string
  bl_Content :: "string option"

text \<open>The raw JSON of a message: a text, a list of blocks, or \<open>null\<close>.\<close>

datatype anthropic_content = TextJSON string | BlocksJSON "anthropicChatContentBlock list" | NullJSON

type_synonym anthropicChatMessage = "string \<times> anthropic_content"

record anthropicChatRequest =
  aq_Model :: string
  aq_MaxTokens :: int
  aq_System :: string
  aq_Messages :: "anthropicChatMessage list"
  aq_Tools :: "ToolDef list"

record anthropicChatResponse =
  rp_Content :: "anthropicChatContentBlock list"
  rp_InputTokens :: int
  rp_OutputTokens :: int
  rp_Error :: "string option"

datatype chat_body = OpenAIBody openAIChatRequest | AnthropicBody anthropicChatRequest

text \<open>What the HTTP client answers: the status, and at most one MiB of the body.\<close>

datatype chat_http = NotSent turn_error | NotRead turn_error | Answered int string

text \<open>Decoders of bodies; what is wrong with a raw JSON value or with a URL (\<open>None\<close> for nothing).\<close>

record chat_decoders =
  cd_openai :: "string \<Rightarrow> string + openAIChatResponse"
  cd_anthropic :: "string \<Rightarrow> string + anthropicChatResponse"
  cd_json_error :: "string \<Rightarrow> string option"
  cd_url_error :: "string \<Rightarrow> string option"

definition openai_message :: "ChatMessage \<Rightarrow> openAIChatMessage" where
  "openai_message m = \<lparr>om_Role = ch_Role m, om_Content = ch_Content m, om_ToolCallID = ch_ToolCallID m,
     om_ToolCalls = map (\<lambda>c. \<lparr>ot_ID = tc_ID c, ot_Type = ''function'', ot_Name = tc_Name c, ot_Arguments = tc_Args c\<rparr>)
       (ch_ToolCalls m)\<rparr>"

definition openai_body :: "ChatAgent \<Rightarrow> ChatMessage list \<Rightarrow> chat_body" where
  "openai_body a msgs = OpenAIBody \<lparr>or_Model = ca_model a,
     or_Messages = \<lparr>om_Role = ''system'', om_Content = chatSystemPrompt, om_ToolCallID = [], om_ToolCalls = []\<rparr> #
       map openai_message msgs,
     or_Tools = ca_tools a, or_MaxTokens = ca_maxTokens a\<rparr>"

definition text_block :: "string \<Rightarrow> anthropicChatContentBlock" where
  "text_block s = \<lparr>bl_Type = ''text'', bl_Text = s, bl_ID = [], bl_Name = [], bl_Input = [], bl_ToolUseID = [],
     bl_Content = None\<rparr>"

definition tool_use_block :: "ToolCall \<Rightarrow> anthropicChatContentBlock" where
  "tool_use_block c = \<lparr>bl_Type = ''tool_use'', bl_Text = [], bl_ID = tc_ID c, bl_Name = tc_Name c, bl_Input = tc_Args c,
     bl_ToolUseID = [], bl_Content = None\<rparr>"

definition tool_result_block :: "string \<Rightarrow> string \<Rightarrow> anthropicChatContentBlock" where
  "tool_result_block i content = \<lparr>bl_Type = ''tool_result'', bl_Text = [], bl_ID = [], bl_Name = [], bl_Input = [],
     bl_ToolUseID = i, bl_Content = Some content\<rparr>"

definition assistant_blocks :: "ChatMessage \<Rightarrow> anthropicChatContentBlock list" where
  "assistant_blocks m =
     (if ch_Content m = [] then [] else [text_block (ch_Content m)]) @ map tool_use_block (ch_ToolCalls m)"

text \<open>Blocks are encoded unless an input is not JSON; an empty input is left out.\<close>

definition block_error :: "(string \<Rightarrow> string option) \<Rightarrow> anthropicChatContentBlock list \<Rightarrow> string option" where
  "block_error json_error bs =
     (case find (\<lambda>b. bl_Input b \<noteq> [] \<and> json_error (bl_Input b) \<noteq> None) bs of
        None \<Rightarrow> None
      | Some b \<Rightarrow> json_error (bl_Input b))"

text \<open>What decoding the content of the last message as blocks gives.\<close>

fun decode_blocks :: "anthropic_content \<Rightarrow> string + anthropicChatContentBlock list" where
  "decode_blocks (BlocksJSON bs) = Inr bs"
| "decode_blocks NullJSON = Inr []"
| "decode_blocks (TextJSON s) = Inl
     ''json: cannot unmarshal string into Go value of type []ai.anthropicChatContentBlock''"

definition anthropic_step :: "(string \<Rightarrow> string option) \<Rightarrow> ChatMessage \<Rightarrow> anthropicChatMessage list \<Rightarrow>
    string + anthropicChatMessage list" where
  "anthropic_step json_error m result =
     (if ch_Role m = roleUser then Inr (result @ [(roleUser, TextJSON (ch_Content m))])
      else if ch_Role m = roleAssistant then
        let bs = assistant_blocks m in
        (case block_error json_error bs of
           Some e \<Rightarrow> Inl (''marshal assistant blocks: '' @ e)
         | None \<Rightarrow> Inr (result @ [(roleAssistant, if bs = [] then NullJSON else BlocksJSON bs)]))
      else if ch_Role m = roleTool then
        let b = tool_result_block (ch_ToolCallID m) (ch_Content m) in
        if result \<noteq> [] \<and> fst (last result) = roleUser
        then (case decode_blocks (snd (last result)) of
                Inl e \<Rightarrow> Inl (''unmarshal existing tool results: '' @ e)
              | Inr bs \<Rightarrow> Inr (butlast result @ [(roleUser, BlocksJSON (bs @ [b]))]))
        else Inr (result @ [(roleUser, BlocksJSON [b])])
      else Inr result)"

fun anthropic_from :: "(string \<Rightarrow> string option) \<Rightarrow> ChatMessage list \<Rightarrow> anthropicChatMessage list \<Rightarrow>
    string + anthropicChatMessage list" where
  "anthropic_from json_error [] result = Inr result"
| "anthropic_from json_error (m # ms) result =
     (case anthropic_step json_error m result of Inl e \<Rightarrow> Inl e | Inr r \<Rightarrow> anthropic_from json_error ms r)"

definition buildAnthropicMessages :: "(string \<Rightarrow> string option) \<Rightarrow> ChatMessage list \<Rightarrow> string + anthropicChatMessage list" where
  "buildAnthropicMessages json_error msgs = anthropic_from json_error msgs []"

text \<open>The body of a request, or what is wrong with it before it is sent.\<close>

definition chat_request :: "chat_decoders \<Rightarrow> ChatAgent \<Rightarrow> ChatMessage list \<Rightarrow> turn_error + chat_body" where
  "chat_request dec a msgs =
     (case (if ca_providerName a = ProviderNameOpenAI then Inr (openai_body a msgs)
            else case buildAnthropicMessages (cd_json_error dec) msgs of
              Inl e \<Rightarrow> Inl (plain_error (''build messages: '' @ e))
            | Inr ms \<Rightarrow> Inr (AnthropicBody \<lparr>aq_Model = ca_model a, aq_MaxTokens = ca_maxTokens a, aq_System = chatSystemPrompt,
                aq_Messages = ms, aq_Tools = ca_tools a\<rparr>)) of
        Inl e \<Rightarrow> Inl e
      | Inr body \<Rightarrow>
          (case cd_url_error dec (ca_endpoint a) of
             Some e \<Rightarrow> Inl (plain_error (''create request: '' @ e))
           | None \<Rightarrow> Inr body))"

definition openai_answer :: "openAIChatResponse \<Rightarrow> turn_error + (string \<times> ToolCall list \<times> int)" where
  "openai_answer r =
     (case op_Error r of
        Some e \<Rightarrow> Inl (plain_error (''API error: '' @ e))
      | None \<Rightarrow>
          (case op_Choices r of
             [] \<Rightarrow> Inl (plain_error ''no choices in response'')
           | (content, calls) # _ \<Rightarrow>
               Inr (content, map (\<lambda>c. \<lparr>tc_ID = ot_ID c, tc_Name = ot_Name c, tc_Args = ot_Arguments c\<rparr>) calls, op_TotalTokens r)))"

definition anthropic_answer :: "anthropicChatResponse \<Rightarrow> turn_error + (string \<times> ToolCall list \<times> int)" where
  "anthropic_answer r =
     (case rp_Error r of
        Some e \<Rightarrow> Inl (plain_error (''API error: '' @ e))
      | None \<Rightarrow> Inr (concat (map bl_Text (filter (\<lambda>b. bl_Type b = ''text'') (rp_Content r))),
          map (\<lambda>b. \<lparr>tc_ID = bl_ID b, tc_Name = bl_Name b, tc_Args = bl_Input b\<rparr>)
            (filter (\<lambda>b. bl_Type b = ''tool_use'') (rp_Content r)),
          wrap64 (rp_InputTokens r + rp_OutputTokens r)))"

definition chat_answer :: "chat_decoders \<Rightarrow> string \<Rightarrow> chat_http \<Rightarrow> turn_error + (string \<times> ToolCall list \<times> int)" where
  "chat_answer dec providerName out =
     (case out of
        NotSent e \<Rightarrow> Inl (wrapped ''send request: '' e)
      | NotRead e \<Rightarrow> Inl (wrapped ''read response: '' e)
      | Answered status body \<Rightarrow>
          if status \<noteq> 200
          then Inl (plain_error (''API error (status '' @ itoa status @ ''): '' @ truncate_text body 500))
          else if providerName = ProviderNameOpenAI
          then (case cd_openai dec body of Inl e \<Rightarrow> Inl (plain_error (''parse response: '' @ e)) | Inr r \<Rightarrow> openai_answer r)
          else (case cd_anthropic dec body of Inl e \<Rightarrow> Inl (plain_error (''parse response: '' @ e)) | Inr r \<Rightarrow> anthropic_answer r))"

section \<open>A turn\<close>

text \<open>The outside of a round: the error of the context after the events emitted so far, the clock when tokens are reserved and
  settled, the HTTP client (endpoint and key), and the tools (of the n-th call the name and arguments).\<close>

record chat_round =
  rd_context :: "ChatEvent list \<Rightarrow> turn_error option"
  rd_consume :: time
  rd_settle :: time
  rd_http :: "string \<Rightarrow> string \<Rightarrow> chat_body \<Rightarrow> chat_http"
  rd_exec :: "nat \<Rightarrow> string \<Rightarrow> string \<Rightarrow> string + string"

record turn =
  tu_msgs :: "ChatMessage list"
  tu_tokens :: int
  tu_events :: "ChatEvent list"
  tu_agent :: ChatAgent
  tu_sent :: "chat_body list"

type_synonym turn_result = "turn \<times> turn_error option"

definition emit :: "ChatEvent list \<Rightarrow> turn \<Rightarrow> turn" where
  "emit evs t = t\<lparr>tu_events := tu_events t @ evs\<rparr>"

definition fail_turn :: "string \<Rightarrow> turn_error \<Rightarrow> turn \<Rightarrow> turn_result" where
  "fail_turn text e t = (emit [ChatEventError text, ChatEventDone (tu_tokens t)] t, Some e)"

definition reserved_tokens :: "ChatAgent \<Rightarrow> ChatMessage list \<Rightarrow> int" where
  "reserved_tokens a msgs =
     max (wrap64 (estimateMessageTokens msgs + ca_maxTokens a)) minChatTurnReservationTokens"

text \<open>Both budgets take the reservation, or none; a refusal comes with the text of its event.\<close>

definition reserve_round :: "time \<Rightarrow> int \<Rightarrow> ChatAgent \<Rightarrow> (string \<times> turn_error) option \<times> ChatAgent" where
  "reserve_round now n a =
     (case TryConsume now n (ca_budget a) of
        (Some e, b) \<Rightarrow> (Some (''Token budget exceeded. Please try again later.'', plain_error (''chat budget exceeded: '' @ e)),
          a\<lparr>ca_budget := b\<rparr>)
      | (None, b) \<Rightarrow>
          (case TryChatConsume n (ca_chatBudget a) of
             (Some e, cb) \<Rightarrow> (Some (''Aggregate chat token budget exceeded.'',
                 plain_error (''aggregate chat budget exceeded: '' @ e)),
               a\<lparr>ca_budget := ReleaseUnused n b, ca_chatBudget := cb\<rparr>)
           | (None, cb) \<Rightarrow> (None, a\<lparr>ca_budget := b, ca_chatBudget := cb\<rparr>)))"

definition settleReservations :: "time \<Rightarrow> int \<Rightarrow> int \<Rightarrow> ChatAgent \<Rightarrow> ChatAgent" where
  "settleReservations now reserved tokens a =
     (let actual = max 0 tokens in
      if actual \<le> reserved
      then let unused = wrap64 (reserved - actual)
        in a\<lparr>ca_budget := ReleaseUnused unused (ca_budget a), ca_chatBudget := ChatReleaseUnused unused (ca_chatBudget a)\<rparr>
      else let delta = wrap64 (actual - reserved)
        in a\<lparr>ca_budget := RecordUsage now delta (ca_budget a), ca_chatBudget := ChatRecordUsage delta (ca_chatBudget a)\<rparr>)"

definition assistant_message :: "string \<Rightarrow> ToolCall list \<Rightarrow> ChatMessage" where
  "assistant_message content calls =
     \<lparr>ch_Role = roleAssistant, ch_Content = content, ch_ToolCallID = [], ch_ToolCalls = calls\<rparr>"

definition tool_message :: "string \<Rightarrow> string \<Rightarrow> ChatMessage" where
  "tool_message i content = \<lparr>ch_Role = roleTool, ch_Content = content, ch_ToolCallID = i, ch_ToolCalls = []\<rparr>"

definition tool_output :: "string + string \<Rightarrow> string" where
  "tool_output r = (case r of Inl e \<Rightarrow> ''error: '' @ e | Inr out \<Rightarrow> out)"

fun run_tools :: "(nat \<Rightarrow> string \<Rightarrow> string \<Rightarrow> string + string) \<Rightarrow> nat \<Rightarrow> ToolCall list \<Rightarrow> turn \<Rightarrow> turn" where
  "run_tools exec n [] t = t"
| "run_tools exec n (c # cs) t =
     (let result = tool_output (exec n (tc_Name c) (tc_Args c));
          t' = emit [ChatEventToolCall (tc_Name c) (tc_Args c), ChatEventToolResult (tc_Name c) result] t
      in run_tools exec (Suc n) cs (t'\<lparr>tu_msgs := tu_msgs t' @ [tool_message (tc_ID c) result]\<rparr>))"

text \<open>Asking the provider: the answer, and the request if it was sent.\<close>

definition ask_provider :: "chat_decoders \<Rightarrow> chat_round \<Rightarrow> ChatAgent \<Rightarrow> ChatMessage list \<Rightarrow>
    (turn_error + (string \<times> ToolCall list \<times> int)) \<times> chat_body list" where
  "ask_provider dec rd a msgs =
     (case chat_request dec a msgs of
        Inl e \<Rightarrow> (Inl e, [])
      | Inr body \<Rightarrow> (chat_answer dec (ca_providerName a) (rd_http rd (ca_endpoint a) (ca_apiKey a) body), [body]))"

text \<open>One round: \<open>Inl\<close> ends the turn.\<close>

definition turn_round :: "chat_decoders \<Rightarrow> chat_round \<Rightarrow> turn \<Rightarrow> turn_result + turn" where
  "turn_round dec rd t =
     (case rd_context rd (tu_events t) of
        Some e \<Rightarrow> Inl (fail_turn ''context cancelled'' e t)
      | None \<Rightarrow>
          let n = reserved_tokens (tu_agent t) (tu_msgs t) in
          (case reserve_round (rd_consume rd) n (tu_agent t) of
             (Some (text, e), a) \<Rightarrow> Inl (fail_turn text e (t\<lparr>tu_agent := a\<rparr>))
           | (None, a) \<Rightarrow>
               let msgs = maybeCompactHistory (tu_msgs t); (ans, sent) = ask_provider dec rd a msgs;
                   t1 = emit [ChatEventThinking] (t\<lparr>tu_msgs := msgs, tu_sent := tu_sent t @ sent\<rparr>)
               in (case ans of
                     Inl e \<Rightarrow> Inl (fail_turn ''An error occurred while processing your request'' e
                       (t1\<lparr>tu_agent := settleReservations (rd_settle rd) n 0 a\<rparr>))
                   | Inr (content, calls, tokens) \<Rightarrow>
                       let t2 = t1\<lparr>tu_agent := settleReservations (rd_settle rd) n tokens a, tu_tokens := wrap64 (tu_tokens t1 + tokens),
                             tu_msgs := msgs @ [assistant_message content calls]\<rparr>
                       in if calls = []
                         then Inl (emit [ChatEventContent content tokens, ChatEventDone (tu_tokens t2)] t2, None)
                         else Inr (run_tools (rd_exec rd) 0 calls t2))))"

fun run_rounds :: "chat_decoders \<Rightarrow> (nat \<Rightarrow> chat_round) \<Rightarrow> nat \<Rightarrow> nat \<Rightarrow> turn \<Rightarrow> turn_result" where
  "run_rounds dec env 0 i t =
     fail_turn ''max iterations reached''
       (plain_error (''max iterations ('' @ itoa (ca_maxIterations (tu_agent t)) @ '') reached'')) t"
| "run_rounds dec env (Suc n) i t =
     (case turn_round dec (env i) t of Inl r \<Rightarrow> r | Inr t' \<Rightarrow> run_rounds dec env n (Suc i) t')"

definition start_turn :: "ChatAgent \<Rightarrow> ChatMessage list \<Rightarrow> turn" where
  "start_turn a messages = \<lparr>tu_msgs = messages, tu_tokens = 0, tu_events = [], tu_agent = a, tu_sent = []\<rparr>"

definition RunTurn :: "chat_decoders \<Rightarrow> (nat \<Rightarrow> chat_round) \<Rightarrow> ChatAgent \<Rightarrow> ChatMessage list \<Rightarrow> turn_result" where
  "RunTurn dec env a messages =
     (if ca_providerName a \<notin> {ProviderNameOpenAI, ProviderNameAnthropic}
      then (start_turn a messages, Some (plain_error (''unsupported provider: '' @ ca_providerName a)))
      else run_rounds dec env (nat (ca_maxIterations a)) 0 (start_turn a messages))"

end
