(* ===== verification/Chat_Sessions.thy ===== *)
theory Chat_Sessions
  imports Chat_Agent Dashboard_Pipeline
begin

text \<open>
  The chat sessions of the dashboard (\<open>internal/dashboard/handlers_chat.go\<close>). Sessions are objects that the map of
  sessions and the handlers point to: a session lives in a heap, its address is what they hold, and a session that is
  evicted while a handler works on it stays in the heap. The clock does not show times before 1970, so the two fields
  with the last access agree and are one. What the outside does in a request is in an environment.
\<close>

section \<open>Sessions\<close>

definition maxChatMessageLen :: nat where "maxChatMessageLen = 2000"
definition maxSessionIDLen :: nat where "maxSessionIDLen = 72"

record ChatSession =
  se_ID :: string
  se_Messages :: "ChatMessage list"
  se_TokensUsed :: int
  se_TokenBudget :: int
  se_CreatedAt :: time
  se_lastAccessed :: time
  se_inFlight :: bool

record chatRequest =
  cq_SessionID :: string
  cq_Message :: string
  cq_ClusterID :: string

text \<open>Only the first value of a body is decoded; what follows it is not looked at.\<close>

datatype chat_input = ChatInput chatRequest | ChatTooLarge | ChatInvalid

definition decode_chat :: "chat_input \<Rightarrow> (nat \<times> string) + chatRequest" where
  "decode_chat b =
     (case b of
        ChatInput req \<Rightarrow> Inr req
      | ChatTooLarge \<Rightarrow> Inl (413, ''Request body too large'')
      | ChatInvalid \<Rightarrow> Inl (400, ''Invalid JSON body''))"

record chat_server =
  cv_server :: server
  cv_sessions :: "(string \<times> nat) list"
  cv_heap :: "ChatSession list"
  cv_enabled :: bool
  cv_maxTurns :: int
  cv_tokenBudget :: int
  cv_sessionTTL :: duration
  cv_maxSessions :: int
  cv_aiKey :: string
  cv_aiModel :: string
  cv_providerName :: string
  cv_endpoint :: string

definition update_session :: "nat \<Rightarrow> (ChatSession \<Rightarrow> ChatSession) \<Rightarrow> chat_server \<Rightarrow> chat_server" where
  "update_session i f cv = cv\<lparr>cv_heap := (cv_heap cv)[i := f (cv_heap cv ! i)]\<rparr>"

datatype session_error = BadSessionID string | SessionsFull string

fun session_error_text :: "session_error \<Rightarrow> string" where
  "session_error_text (BadSessionID msg) = msg"
| "session_error_text (SessionsFull msg) = msg"

fun chatSessionErrorStatus :: "session_error \<Rightarrow> nat" where
  "chatSessionErrorStatus (BadSessionID msg) = 400"
| "chatSessionErrorStatus (SessionsFull msg) = 503"

text \<open>The address of the session and whether it is new. \<open>uuid_ok\<close> is what the library parses, \<open>fresh\<close> a new identifier.\<close>

definition getOrCreateChatSession :: "(string \<Rightarrow> bool) \<Rightarrow> string \<Rightarrow> time \<Rightarrow> string \<Rightarrow> chat_server \<Rightarrow>
    (session_error + (nat \<times> bool)) \<times> chat_server" where
  "getOrCreateChatSession uuid_ok fresh now sessionID cv =
     (if sessionID \<noteq> [] \<and> length sessionID > maxSessionIDLen then (Inl (BadSessionID ''invalid session ID''), cv)
      else if sessionID \<noteq> [] \<and> \<not> uuid_ok sessionID then (Inl (BadSessionID ''invalid session ID format''), cv)
      else case (if sessionID = [] then None else map_of (cv_sessions cv) sessionID) of
        Some i \<Rightarrow> (Inr (i, False), cv)
      | None \<Rightarrow>
          if int (length (cv_sessions cv)) \<ge> cv_maxSessions cv
          then (Inl (SessionsFull ''maximum concurrent chat sessions reached''), cv)
          else let key = (if sessionID = [] then fresh else sessionID); i = length (cv_heap cv)
            in (Inr (i, True), cv\<lparr>cv_sessions := AList.update key i (cv_sessions cv), cv_heap := cv_heap cv @
              [\<lparr>se_ID = key, se_Messages = [], se_TokensUsed = 0, se_TokenBudget = cv_tokenBudget cv, se_CreatedAt = now,
                se_lastAccessed = now, se_inFlight = False\<rparr>]\<rparr>))"

text \<open>The guard of a session: one request at a time.\<close>

definition claim_session :: "nat \<Rightarrow> chat_server \<Rightarrow> chat_server option" where
  "claim_session i cv =
     (if se_inFlight (cv_heap cv ! i) then None else Some (update_session i (\<lambda>s. s\<lparr>se_inFlight := True\<rparr>) cv))"

definition release_session :: "nat \<Rightarrow> chat_server \<Rightarrow> chat_server" where
  "release_session i = update_session i (\<lambda>s. s\<lparr>se_inFlight := False\<rparr>)"

text \<open>The question is appended and the messages are copied, unless the session has used its tokens.\<close>

definition begin_turn :: "time \<Rightarrow> nat \<Rightarrow> string \<Rightarrow> chat_server \<Rightarrow> ChatMessage list option \<times> chat_server" where
  "begin_turn now i msg cv =
     (let s = (cv_heap cv ! i)\<lparr>se_lastAccessed := now\<rparr> in
      if se_TokensUsed s \<ge> se_TokenBudget s then (None, update_session i (\<lambda>_. s) cv)
      else let msgs = se_Messages s @ [user_message msg]
        in (Some msgs, update_session i (\<lambda>_. s\<lparr>se_Messages := msgs\<rparr>) cv))"

definition commit_turn :: "nat \<Rightarrow> turn \<Rightarrow> chat_server \<Rightarrow> chat_server" where
  "commit_turn i t = update_session i
     (\<lambda>s. s\<lparr>se_Messages := tu_msgs t, se_TokensUsed := wrap64 (se_TokensUsed s + tu_tokens t)\<rparr>)"

text \<open>The eviction of idle sessions in its two passes: the candidates, and those of them that are still the same and idle.\<close>

definition session_idle :: "time \<Rightarrow> chat_server \<Rightarrow> nat \<Rightarrow> bool" where
  "session_idle now cv i \<longleftrightarrow> time_sub now (se_lastAccessed (cv_heap cv ! i)) > cv_sessionTTL cv"

definition expired_sessions :: "time \<Rightarrow> chat_server \<Rightarrow> (string \<times> nat) list" where
  "expired_sessions now cv = filter (\<lambda>(k, i). session_idle now cv i) (cv_sessions cv)"

definition evict_session :: "time \<Rightarrow> string \<times> nat \<Rightarrow> chat_server \<Rightarrow> chat_server" where
  "evict_session now = (\<lambda>(k, i) cv.
     if map_of (cv_sessions cv) k = Some i \<and> session_idle now cv i
     then cv\<lparr>cv_sessions := AList.delete k (cv_sessions cv)\<rparr> else cv)"

definition evict_sessions :: "time \<Rightarrow> (string \<times> nat) list \<Rightarrow> chat_server \<Rightarrow> chat_server" where
  "evict_sessions now = fold (evict_session now)"

definition cleanupChatSessions :: "time \<Rightarrow> time \<Rightarrow> chat_server \<Rightarrow> chat_server" where
  "cleanupChatSessions now later cv = evict_sessions later (expired_sessions now cv) cv"

section \<open>Tools\<close>

text \<open>The encoding of arguments and results, and the orders in which maps are visited.\<close>

record chat_codec =
  co_filters :: "string \<Rightarrow> string + (string \<times> string \<times> string)"     \<comment> \<open>namespace, checker, severity\<close>
  co_explain :: "string \<Rightarrow> string + (string \<times> string)"              \<comment> \<open>checker, issue key\<close>
  co_issues :: "DashIssue list \<Rightarrow> string"
  co_texts :: "string list \<Rightarrow> string"
  co_summary :: "Summary \<Rightarrow> string"
  co_enhancement :: "aiEnhancement \<Rightarrow> string"
  co_results :: "(string \<times> DashResult) list \<Rightarrow> (string \<times> DashResult) list"
  co_checkers :: "enhancements \<Rightarrow> string list"

definition latest_update :: "server \<Rightarrow> string \<Rightarrow> HealthUpdate option" where
  "latest_update sv cluster = Option.bind (sv_clusters sv cluster) cs_latest"

definition filter_matches :: "string \<Rightarrow> string \<Rightarrow> bool" where
  "filter_matches wanted found \<longleftrightarrow> wanted = [] \<or> equal_fold found wanted"

text \<open>A slice without elements was never allocated and is encoded as \<open>null\<close>.\<close>

definition chatToolGetIssues :: "chat_codec \<Rightarrow> string \<Rightarrow> server \<Rightarrow> string \<Rightarrow> string + string" where
  "chatToolGetIssues co cluster sv args =
     (case (if args = [] then Inr ([], [], []) else co_filters co args) of
        Inl e \<Rightarrow> Inl (''invalid filter args: '' @ e)
      | Inr (ns, checker, severity) \<Rightarrow>
          (case latest_update sv cluster of
             None \<Rightarrow> Inr ''[]''
           | Some u \<Rightarrow>
               let found = concat (map (\<lambda>(name, r). if filter_matches checker name
                   then filter (\<lambda>i. filter_matches ns (dx_Namespace i) \<and> filter_matches severity (dx_Severity i)) (dr_Issues r)
                   else []) (co_results co (hu_Results u)))
               in Inr (if found = [] then ''null'' else co_issues co found)))"

definition chatToolGetNamespaces :: "chat_codec \<Rightarrow> string \<Rightarrow> server \<Rightarrow> string + string" where
  "chatToolGetNamespaces co cluster sv =
     (case latest_update sv cluster of None \<Rightarrow> Inr ''[]'' | Some u \<Rightarrow> Inr (co_texts co (hu_Namespaces u)))"

definition chatToolGetHealthScore :: "chat_codec \<Rightarrow> string \<Rightarrow> server \<Rightarrow> string + string" where
  "chatToolGetHealthScore co cluster sv =
     (case latest_update sv cluster of None \<Rightarrow> Inr ''{}'' | Some u \<Rightarrow> Inr (co_summary co (hu_Summary u)))"

text \<open>A map of advice that was allocated is never empty: it is taken of results of which some were enhanced.\<close>

definition chatToolExplainIssue :: "chat_codec \<Rightarrow> string \<Rightarrow> server \<Rightarrow> string \<Rightarrow> string + string" where
  "chatToolExplainIssue co cluster sv args =
     (case co_explain co args of
        Inl e \<Rightarrow> Inl (''invalid args for explain_issue: '' @ e)
      | Inr (checker, key) \<Rightarrow>
          if key = [] then Inl ''issueKey is required''
          else (case sv_clusters sv cluster of
             None \<Rightarrow> Inr (''{'' @ [CHR 0x22] @ ''message'' @ [CHR 0x22] @ '':'' @ [CHR 0x22] @
       ''No AI enhancements available for this issue.'' @ [CHR 0x22] @ ''}'')
           | Some cs \<Rightarrow>
               let enh = cs_lastAIEnhancements cs; lookup = (\<lambda>name. Option.bind (enh name) (\<lambda>m. m key)) in
               if enh = Map.empty then Inr (''{'' @ [CHR 0x22] @ ''message'' @ [CHR 0x22] @ '':'' @ [CHR 0x22] @
       ''No AI enhancements available for this issue.'' @ [CHR 0x22] @ ''}'')
               else (case (if checker \<noteq> [] then lookup checker
                     else Option.bind (find (\<lambda>name. lookup name \<noteq> None) (co_checkers co enh)) lookup) of
                   None \<Rightarrow> Inr (''{'' @ [CHR 0x22] @ ''message'' @ [CHR 0x22] @ '':'' @ [CHR 0x22] @
       ''No AI enhancement found for this issue.'' @ [CHR 0x22] @ ''}'')
                 | Some e \<Rightarrow> Inr (co_enhancement co e))))"

definition chatToolGetCheckers :: "chat_codec \<Rightarrow> string \<Rightarrow> server \<Rightarrow> string + string" where
  "chatToolGetCheckers co cluster sv =
     (case latest_update sv cluster of None \<Rightarrow> Inr ''[]'' | Some u \<Rightarrow> Inr (co_texts co (map fst (co_results co (hu_Results u)))))"

definition buildChatToolExecutor :: "chat_codec \<Rightarrow> string \<Rightarrow> server \<Rightarrow> string \<Rightarrow> string \<Rightarrow> string + string" where
  "buildChatToolExecutor co cluster sv name args =
     (if name = ''get_issues'' then chatToolGetIssues co cluster sv args
      else if name = ''get_namespaces'' then chatToolGetNamespaces co cluster sv
      else if name = ''get_health_score'' then chatToolGetHealthScore co cluster sv
      else if name = ''explain_issue'' then chatToolExplainIssue co cluster sv args
      else if name = ''get_checkers'' then chatToolGetCheckers co cluster sv
      else Inl (''unknown tool: '' @ name))"

section \<open>A request\<close>

datatype stream_event = SessionEvent string | ErrorEvent string | DoneEvent string | AgentEvent ChatEvent

datatype chat_result = ChatError nat string | ChatStream "stream_event list" "chat_body list"

text \<open>\<open>ce_writes\<close>: whether the next event can be written after some; \<open>ce_servers\<close>: the server a call of a tool sees, by round
  and call.\<close>

record chat_env =
  ce_uuid_ok :: "string \<Rightarrow> bool"
  ce_fresh :: string
  ce_created :: time
  ce_accessed :: time
  ce_allow :: time
  ce_failure :: time
  ce_writes :: "stream_event list \<Rightarrow> stream_event \<Rightarrow> bool"
  ce_decoders :: chat_decoders
  ce_rounds :: "nat \<Rightarrow> chat_round"
  ce_codec :: chat_codec
  ce_servers :: "nat \<Rightarrow> nat \<Rightarrow> server"

text \<open>An event whose arguments are no JSON cannot be encoded.\<close>

definition event_writable :: "chat_env \<Rightarrow> stream_event list \<Rightarrow> stream_event \<Rightarrow> bool" where
  "event_writable env before e \<longleftrightarrow> ce_writes env before e \<and>
     (case e of
        AgentEvent (ChatEventToolCall name args) \<Rightarrow> args = [] \<or> cd_json_error (ce_decoders env) args = None
      | _ \<Rightarrow> True)"

definition stream_failed :: "chat_env \<Rightarrow> stream_event list \<Rightarrow> ChatEvent list \<Rightarrow> bool" where
  "stream_failed env before evs \<longleftrightarrow>
     list_ex (\<lambda>n. \<not> event_writable env (before @ map AgentEvent (take n evs)) (AgentEvent (evs ! n))) [0..<length evs]"

text \<open>The context of the turn is cancelled by the first event that cannot be written.\<close>

definition turn_rounds :: "chat_env \<Rightarrow> string \<Rightarrow> stream_event list \<Rightarrow> nat \<Rightarrow> chat_round" where
  "turn_rounds env cluster before i = (ce_rounds env i)\<lparr>
     rd_context := (\<lambda>evs. if stream_failed env before evs then Some \<lparr>tx_Text = ''context canceled'', tx_Canceled = True\<rparr>
       else rd_context (ce_rounds env i) evs),
     rd_exec := (\<lambda>n. buildChatToolExecutor (ce_codec env) cluster (ce_servers env i n))\<rparr>"

definition chat_message :: "string \<Rightarrow> (nat \<times> string) + string" where
  "chat_message raw =
     (let msg = trim_space raw in
      if msg = [] then Inl (400, ''message is required'')
      else if length msg > maxChatMessageLen
      then Inl (400, ''message exceeds maximum length of '' @ itoa (int maxChatMessageLen) @ '' characters'')
      else Inr (SanitizeString NewSanitizer msg))"

text \<open>Whether chatting is possible: the error otherwise; \<open>None\<close> where a nil provider would be dereferenced.\<close>

definition chat_unavailable :: "chat_server \<Rightarrow> (nat \<times> string) option option" where
  "chat_unavailable cv =
     (if \<not> cv_enabled cv \<or> \<not> sv_enabled (cv_server cv) then Some (Some (503, ''Chat is not available''))
      else map_option (\<lambda>ok. if ok then None else Some (503, ''AI provider is not available''))
        (case sv_provider (cv_server cv) of None \<Rightarrow> Some False | Some p \<Rightarrow> ai_available p))"

definition many_clusters :: "server \<Rightarrow> bool" where
  "many_clusters sv \<longleftrightarrow> card (dom (sv_clusters sv)) > 1"

definition chat_manager :: "chat_server \<Rightarrow> Manager option" where
  "chat_manager cv = (case sv_provider (cv_server cv) of Some (Managed m) \<Rightarrow> Some m | _ \<Rightarrow> None)"

definition put_manager :: "Manager \<Rightarrow> chat_server \<Rightarrow> chat_server" where
  "put_manager m cv = cv\<lparr>cv_server := (cv_server cv)\<lparr>sv_provider := Some (Managed m)\<rparr>\<rparr>"

definition chat_agent :: "chat_server \<Rightarrow> ChatAgent option" where
  "chat_agent cv =
     map_option (\<lambda>name. let a = SetMaxIterations (cv_maxTurns cv) (NewChatAgent name (cv_aiKey cv) (cv_aiModel cv) (cv_endpoint cv))
         in case chat_manager cv of None \<Rightarrow> a | Some m \<Rightarrow> SetBudget (mg_budget m) a)
       (if cv_providerName cv \<noteq> [] then Some (cv_providerName cv)
        else case chat_manager cv of None \<Rightarrow> Some [] | Some m \<Rightarrow> Name m)"

text \<open>The breaker is asked before a turn and told how it went, unless the stream failed or the turn was cancelled.\<close>

definition gate_turn :: "time \<Rightarrow> chat_server \<Rightarrow> bool \<times> chat_server" where
  "gate_turn now cv =
     (case chat_manager cv of
        None \<Rightarrow> (True, cv)
      | Some m \<Rightarrow> let (denied, evs, m') = AllowChatTurn now m in (denied = None, put_manager m' cv))"

definition report_turn :: "time \<Rightarrow> bool \<Rightarrow> turn_error option \<Rightarrow> chat_server \<Rightarrow> chat_server" where
  "report_turn now failed err cv =
     (if failed then cv
      else case chat_manager cv of
        None \<Rightarrow> cv
      | Some m \<Rightarrow>
          (case err of
             None \<Rightarrow> put_manager (snd (RecordChatTurnSuccess m)) cv
           | Some e \<Rightarrow> if tx_Canceled e then cv else put_manager (snd (RecordChatTurnFailure now m)) cv))"

text \<open>The turn itself; the manager's budget is the one the agent has charged.\<close>

definition charge_manager :: "ChatAgent \<Rightarrow> chat_server \<Rightarrow> chat_server" where
  "charge_manager a cv =
     (case chat_manager cv of None \<Rightarrow> cv | Some m \<Rightarrow> put_manager (m\<lparr>mg_budget := ca_budget a\<rparr>) cv)"

definition run_chat_turn :: "chat_env \<Rightarrow> string \<Rightarrow> stream_event list \<Rightarrow> nat \<Rightarrow> ChatMessage list \<Rightarrow> chat_server \<Rightarrow>
    (chat_result \<times> chat_server) option" where
  "run_chat_turn env cluster before i msgs cv =
     map_option (\<lambda>a.
       let (t, err) = RunTurn (ce_decoders env) (turn_rounds env cluster before) a msgs;
           failed = stream_failed env before (tu_events t)
       in (ChatStream (before @ map AgentEvent (tu_events t)) (tu_sent t),
           report_turn (ce_failure env) failed err (commit_turn i t (charge_manager (tu_agent t) cv))))
     (chat_agent cv)"

text \<open>An ending of two events; the second is not tried when the first cannot be written.\<close>

definition end_stream :: "chat_env \<Rightarrow> stream_event list \<Rightarrow> string \<Rightarrow> string \<Rightarrow> chat_result" where
  "end_stream env before text sid =
     ChatStream (before @ (if event_writable env before (ErrorEvent text) then [ErrorEvent text, DoneEvent sid] else [ErrorEvent text])) []"

definition converse_in :: "chat_env \<Rightarrow> string \<Rightarrow> string \<Rightarrow> nat \<Rightarrow> bool \<Rightarrow> chat_server \<Rightarrow> (chat_result \<times> chat_server) option" where
  "converse_in env cluster msg i created cv =
     (let sid = se_ID (cv_heap cv ! i); (msgs, cv1) = begin_turn (ce_accessed env) i msg cv;
          before = (if created then [SessionEvent sid] else [])
      in if created \<and> \<not> event_writable env [] (SessionEvent sid) then Some (ChatStream before [], cv1)
      else case msgs of
        None \<Rightarrow> Some (end_stream env before ''Session token budget exceeded. Start a new session.'' sid, cv1)
      | Some ms \<Rightarrow>
          let (allowed, cv2) = gate_turn (ce_allow env) cv1 in
          if \<not> allowed
          then Some (end_stream env before ''AI provider temporarily unavailable. Please try again shortly.'' sid, cv2)
          else run_chat_turn env cluster before i ms cv2)"

text \<open>A request without interference by others; \<open>None\<close> is a panic.\<close>

definition handleChat :: "chat_env \<Rightarrow> string \<Rightarrow> chat_input \<Rightarrow> chat_server \<Rightarrow> (chat_result \<times> chat_server) option" where
  "handleChat env verb b cv =
     (if verb \<noteq> ''POST'' then Some (ChatError 405 ''Method not allowed'', cv)
      else case decode_chat b of
        Inl (code, e) \<Rightarrow> Some (ChatError code e, cv)
      | Inr req \<Rightarrow>
          (case chat_message (cq_Message req) of
             Inl (code, e) \<Rightarrow> Some (ChatError code e, cv)
           | Inr msg \<Rightarrow>
               (case chat_unavailable cv of
                  None \<Rightarrow> None
                | Some (Some (code, e)) \<Rightarrow> Some (ChatError code e, cv)
                | Some None \<Rightarrow>
                    let cluster = trim_space (cq_ClusterID req) in
                    if cluster = [] \<and> many_clusters (cv_server cv)
                    then Some (ChatError 400 ''clusterId is required when multiple clusters are available'', cv)
                    else (case getOrCreateChatSession (ce_uuid_ok env) (ce_fresh env) (ce_created env) (cq_SessionID req) cv of
                       (Inl e, cv1) \<Rightarrow> Some (ChatError (chatSessionErrorStatus e) (session_error_text e), cv1)
                     | (Inr (i, created), cv1) \<Rightarrow>
                         (case claim_session i cv1 of
                            None \<Rightarrow> Some (ChatError 409 ''A request is already in progress for this session'', cv1)
                          | Some cv2 \<Rightarrow>
                              map_option (\<lambda>(result, cv3). (result, release_session i cv3))
                                (converse_in env cluster msg i created cv2))))))"

end
