(* ===== verification/Chat_Turns.thy ===== *)
theory Chat_Turns
  imports Chat_Agent
begin

text \<open>
  What a turn of the chat agent does: the protocol of its events, what it charges, the history it leaves, and what
  compacting that history breaks.
\<close>

section \<open>Rounds\<close>

fun tool_outputs :: "(nat \<Rightarrow> string \<Rightarrow> string \<Rightarrow> string + string) \<Rightarrow> nat \<Rightarrow> ToolCall list \<Rightarrow> (ToolCall \<times> string) list" where
  "tool_outputs exec n [] = []"
| "tool_outputs exec n (c # cs) = (c, tool_output (exec n (tc_Name c) (tc_Args c))) # tool_outputs exec (Suc n) cs"

lemma tool_outputs_calls [simp]: "map fst (tool_outputs exec n cs) = cs"
  by (induction cs arbitrary: n) auto

lemma tool_outputs_Nil [simp]: "tool_outputs exec n cs = [] \<longleftrightarrow> cs = []"
  by (cases cs) auto

definition call_events :: "ToolCall \<times> string \<Rightarrow> ChatEvent list" where
  "call_events = (\<lambda>(c, r). [ChatEventToolCall (tc_Name c) (tc_Args c), ChatEventToolResult (tc_Name c) r])"

definition result_message :: "ToolCall \<times> string \<Rightarrow> ChatMessage" where
  "result_message = (\<lambda>(c, r). tool_message (tc_ID c) r)"

lemma run_tools_eq:
  "run_tools exec n cs t = t\<lparr>tu_events := tu_events t @ concat (map call_events (tool_outputs exec n cs)),
     tu_msgs := tu_msgs t @ map result_message (tool_outputs exec n cs)\<rparr>"
  by (induction exec n cs t rule: run_tools.induct)
    (simp_all add: Let_def emit_def call_events_def result_message_def)

lemma emit_parts [simp]:
  "tu_msgs (emit evs t) = tu_msgs t" "tu_tokens (emit evs t) = tu_tokens t" "tu_agent (emit evs t) = tu_agent t"
  "tu_sent (emit evs t) = tu_sent t" "tu_events (emit evs t) = tu_events t @ evs"
  by (simp_all add: emit_def)

text \<open>The tokens of an answer; none for an error.\<close>

definition answer_tokens :: "turn_error + (string \<times> ToolCall list \<times> int) \<Rightarrow> int" where
  "answer_tokens ans = (case ans of Inl _ \<Rightarrow> 0 | Inr (_, _, n) \<Rightarrow> n)"

lemma turn_round_cases:
  assumes "turn_round dec rd t = r"
  obtains
    (cancelled) e where "rd_context rd (tu_events t) = Some e" "r = Inl (fail_turn ''context cancelled'' e t)"
  | (refused) msg e a where
      "reserve_round (rd_consume rd) (reserved_tokens (tu_agent t) (tu_msgs t)) (tu_agent t) = (Some (msg, e), a)"
      "r = Inl (fail_turn msg e (t\<lparr>tu_agent := a\<rparr>))"
  | (failed) a e sent t' where
      "reserve_round (rd_consume rd) (reserved_tokens (tu_agent t) (tu_msgs t)) (tu_agent t) = (None, a)"
      "ask_provider dec rd a (maybeCompactHistory (tu_msgs t)) = (Inl e, sent)" "r = Inl (t', Some e)"
      "tu_msgs t' = maybeCompactHistory (tu_msgs t)" "tu_tokens t' = tu_tokens t" "tu_sent t' = tu_sent t @ sent"
      "tu_agent t' = settleReservations (rd_settle rd) (reserved_tokens (tu_agent t) (tu_msgs t)) 0 a"
      "tu_events t' = tu_events t @ [ChatEventThinking, ChatEventError ''An error occurred while processing your request'',
         ChatEventDone (tu_tokens t)]"
  | (answered) a content n sent t' where
      "reserve_round (rd_consume rd) (reserved_tokens (tu_agent t) (tu_msgs t)) (tu_agent t) = (None, a)"
      "ask_provider dec rd a (maybeCompactHistory (tu_msgs t)) = (Inr (content, [], n), sent)" "r = Inl (t', None)"
      "tu_msgs t' = maybeCompactHistory (tu_msgs t) @ [assistant_message content []]" "tu_tokens t' = wrap64 (tu_tokens t + n)"
      "tu_sent t' = tu_sent t @ sent"
      "tu_agent t' = settleReservations (rd_settle rd) (reserved_tokens (tu_agent t) (tu_msgs t)) n a"
      "tu_events t' = tu_events t @ [ChatEventThinking, ChatEventContent content n, ChatEventDone (tu_tokens t')]"
  | (called) a content calls n sent t' outs where
      "reserve_round (rd_consume rd) (reserved_tokens (tu_agent t) (tu_msgs t)) (tu_agent t) = (None, a)"
      "ask_provider dec rd a (maybeCompactHistory (tu_msgs t)) = (Inr (content, calls, n), sent)" "r = Inr t'"
      "calls \<noteq> []" "outs = tool_outputs (rd_exec rd) 0 calls"
      "tu_msgs t' = maybeCompactHistory (tu_msgs t) @ assistant_message content calls # map result_message outs"
      "tu_tokens t' = wrap64 (tu_tokens t + n)" "tu_sent t' = tu_sent t @ sent"
      "tu_agent t' = settleReservations (rd_settle rd) (reserved_tokens (tu_agent t) (tu_msgs t)) n a"
      "tu_events t' = tu_events t @ ChatEventThinking # concat (map call_events outs)"
proof (cases "rd_context rd (tu_events t)")
  case (Some e)
  then show ?thesis using assms cancelled by (simp add: turn_round_def)
next
  case None
  let ?n = "reserved_tokens (tu_agent t) (tu_msgs t)" and ?msgs = "maybeCompactHistory (tu_msgs t)"
  obtain err a where res: "reserve_round (rd_consume rd) ?n (tu_agent t) = (err, a)" by fastforce
  show ?thesis
  proof (cases err)
    case (Some x)
    obtain msg e where "x = (msg, e)" by fastforce
    then show ?thesis using assms refused res Some None by (simp add: turn_round_def Let_def)
  next
    case n: None
    obtain ans sent where ask: "ask_provider dec rd a ?msgs = (ans, sent)" by fastforce
    show ?thesis
    proof (cases ans)
      case (Inl e)
      have "\<exists>t'. r = Inl (t', Some e) \<and> tu_msgs t' = ?msgs \<and> tu_tokens t' = tu_tokens t \<and> tu_sent t' = tu_sent t @ sent \<and>
          tu_agent t' = settleReservations (rd_settle rd) ?n 0 a \<and> tu_events t' = tu_events t @ [ChatEventThinking,
            ChatEventError ''An error occurred while processing your request'', ChatEventDone (tu_tokens t)]"
        using assms res n None ask Inl by (auto simp: turn_round_def Let_def fail_turn_def)
      then show ?thesis using failed [OF res [unfolded n] ask [unfolded Inl]] by blast
    next
      case (Inr x)
      obtain content calls k where x: "x = (content, calls, k)" by (metis prod_cases3)
      show ?thesis
      proof (cases "calls = []")
        case True
        have "\<exists>t'. r = Inl (t', None) \<and> tu_msgs t' = ?msgs @ [assistant_message content []] \<and>
            tu_tokens t' = wrap64 (tu_tokens t + k) \<and> tu_sent t' = tu_sent t @ sent \<and>
            tu_agent t' = settleReservations (rd_settle rd) ?n k a \<and>
            tu_events t' = tu_events t @ [ChatEventThinking, ChatEventContent content k, ChatEventDone (tu_tokens t')]"
          using assms res n None ask Inr x True by (auto simp: turn_round_def Let_def)
        then show ?thesis using answered [OF res [unfolded n] ask [unfolded Inr x True]] by blast
      next
        case False
        let ?outs = "tool_outputs (rd_exec rd) 0 calls"
        have "\<exists>t'. r = Inr t' \<and> tu_msgs t' = ?msgs @ assistant_message content calls # map result_message ?outs \<and>
            tu_tokens t' = wrap64 (tu_tokens t + k) \<and> tu_sent t' = tu_sent t @ sent \<and>
            tu_agent t' = settleReservations (rd_settle rd) ?n k a \<and>
            tu_events t' = tu_events t @ ChatEventThinking # concat (map call_events ?outs)"
          using assms res n None ask Inr x False by (auto simp: turn_round_def Let_def run_tools_eq)
        then show ?thesis using called [OF res [unfolded n] ask [unfolded Inr x] _ False refl] by blast
      qed
    qed
  qed
qed

lemma ask_provider_sent: "ask_provider dec rd a msgs = (ans, sent) \<Longrightarrow> length sent \<le> 1"
  by (auto simp: ask_provider_def split: sum.splits)

lemma reserve_round_cases:
  assumes "reserve_round now n a = (x, a')"
  obtains (session) e b where "TryConsume now n (ca_budget a) = (Some e, b)" "a' = a\<lparr>ca_budget := b\<rparr>" "x \<noteq> None"
  | (aggregate) b e cb where "TryConsume now n (ca_budget a) = (None, b)" "TryChatConsume n (ca_chatBudget a) = (Some e, cb)"
      "a' = a\<lparr>ca_budget := ReleaseUnused n b, ca_chatBudget := cb\<rparr>" "x \<noteq> None"
  | (reserved) b cb where "TryConsume now n (ca_budget a) = (None, b)" "TryChatConsume n (ca_chatBudget a) = (None, cb)"
      "a' = a\<lparr>ca_budget := b, ca_chatBudget := cb\<rparr>" "x = None"
proof -
  obtain e b e' cb where c: "TryConsume now n (ca_budget a) = (e, b)" "TryChatConsume n (ca_chatBudget a) = (e', cb)" by fastforce
  show ?thesis
  proof (cases e)
    case (Some m)
    then have "a' = a\<lparr>ca_budget := b\<rparr>" "x \<noteq> None" using assms c(1) by (auto simp: reserve_round_def)
    then show ?thesis using session c(1) Some by blast
  next
    case none: None
    show ?thesis
    proof (cases e')
      case (Some m)
      then have "a' = a\<lparr>ca_budget := ReleaseUnused n b, ca_chatBudget := cb\<rparr>" "x \<noteq> None"
        using assms c none by (auto simp: reserve_round_def)
      then show ?thesis using aggregate c none Some by blast
    next
      case None
      then have "a' = a\<lparr>ca_budget := b, ca_chatBudget := cb\<rparr>" "x = None" using assms c none by (auto simp: reserve_round_def)
      then show ?thesis using reserved c none None by blast
    qed
  qed
qed

lemma reserve_parts [simp]:
  assumes "reserve_round now n a = (x, a')"
  shows "ca_providerName a' = ca_providerName a" "ca_maxIterations a' = ca_maxIterations a"
  using assms by (cases rule: reserve_round_cases; simp)+

section \<open>The protocol of the events\<close>

text \<open>A finished round: thinking, then every call directly followed by its result.\<close>

definition round_events :: "(ToolCall \<times> string) list \<Rightarrow> ChatEvent list" where
  "round_events outs = ChatEventThinking # concat (map call_events outs)"

definition final_events :: "int \<Rightarrow> turn_error option \<Rightarrow> ChatEvent list \<Rightarrow> bool" where
  "final_events n err evs \<longleftrightarrow>
     (case err of
        None \<Rightarrow> \<exists>content k. evs = [ChatEventThinking, ChatEventContent content k, ChatEventDone n]
      | Some _ \<Rightarrow> \<exists>text. evs = [ChatEventError text, ChatEventDone n] \<or>
          evs = [ChatEventThinking, ChatEventError text, ChatEventDone n])"

lemma final_failed: "final_events n (Some e) [ChatEventError msg, ChatEventDone n]"
  by (simp add: final_events_def)

lemma quiet_end:
  assumes "\<exists>final. tu_events t' = evs @ final \<and> final_events (tu_tokens t') err final" "length (tu_sent t') \<le> m"
  shows "\<exists>rounds final. tu_events t' = evs @ concat (map round_events rounds) @ final \<and> final_events (tu_tokens t') err final \<and>
    list_all (\<lambda>outs. outs \<noteq> []) rounds \<and> length rounds \<le> n \<and> length (tu_sent t') \<le> m"
  by (rule exI [of _ "[]"]) (use assms in simp)

lemma rounds_protocol:
  "run_rounds dec env n i t = (t', err) \<Longrightarrow>
     \<exists>rounds final. tu_events t' = tu_events t @ concat (map round_events rounds) @ final \<and> final_events (tu_tokens t') err final \<and>
       list_all (\<lambda>outs. outs \<noteq> []) rounds \<and> length rounds \<le> n \<and> length (tu_sent t') \<le> length (tu_sent t) + n"
proof (induction dec env n i t rule: run_rounds.induct)
  case (1 dec env i t)
  then show ?case by (intro quiet_end) (auto simp: fail_turn_def final_events_def)
next
  case (2 dec env n i t)
  obtain r where r: "turn_round dec (env i) t = r" by blast
  then show ?case
  proof (cases rule: turn_round_cases)
    case (called a content calls k sent t1 outs)
    have "run_rounds dec env n (Suc i) t1 = (t', err)" using "2.prems" r called(3) by simp
    then obtain rounds final where ih: "tu_events t' = tu_events t1 @ concat (map round_events rounds) @ final"
        "final_events (tu_tokens t') err final" "list_all (\<lambda>outs. outs \<noteq> []) rounds" "length rounds \<le> n"
        "length (tu_sent t') \<le> length (tu_sent t1) + n"
      using "2.IH" [OF r [unfolded called(3)]] by blast
    have "length (tu_sent t1) \<le> length (tu_sent t) + 1" using ask_provider_sent [OF called(2)] called(8) by simp
    then have "tu_events t' = tu_events t @ concat (map round_events (outs # rounds)) @ final \<and>
        final_events (tu_tokens t') err final \<and> list_all (\<lambda>outs. outs \<noteq> []) (outs # rounds) \<and>
        length (outs # rounds) \<le> Suc n \<and> length (tu_sent t') \<le> length (tu_sent t) + Suc n"
      using ih called(4,5,10) by (simp add: round_events_def)
    then show ?thesis by blast
  next
    case (failed a e sent t1)
    then show ?thesis
      using "2.prems" r ask_provider_sent [OF failed(2)] by (intro quiet_end) (auto simp: final_events_def)
  next
    case (answered a content k sent t1)
    then show ?thesis
      using "2.prems" r ask_provider_sent [OF answered(2)] by (intro quiet_end) (auto simp: final_events_def)
  next
    case (cancelled e)
    show ?thesis
      using cancelled(2) "2.prems" r by (intro quiet_end) (auto simp: fail_turn_def final_failed)
  next
    case (refused msg e a)
    show ?thesis
      using refused(2) "2.prems" r by (intro quiet_end) (auto simp: fail_turn_def final_failed)
  qed
qed

text \<open>C16. The stream of a turn with OpenAI or Anthropic follows the protocol: some finished rounds, in each of which every
  tool call is directly followed by its result, then exactly one end, \<open>done\<close> with the tokens of the turn, after the content
  when the turn returns no error and after an error event otherwise; the provider is asked at most as often as there are
  iterations. With any other provider (the no-op one too) the turn returns an error and streams nothing at all, not even an
  end, and sends nothing.\<close>

theorem turn_events_protocol:
  assumes "RunTurn dec env a messages = (t, err)"
  shows "if ca_providerName a = ''openai'' \<or> ca_providerName a = ''anthropic''
    then \<exists>rounds final. tu_events t = concat (map round_events rounds) @ final \<and> final_events (tu_tokens t) err final \<and>
      list_all (\<lambda>outs. outs \<noteq> []) rounds \<and> int (length rounds) \<le> max 0 (ca_maxIterations a) \<and>
      int (length (tu_sent t)) \<le> max 0 (ca_maxIterations a)
    else err \<noteq> None \<and> tu_events t = [] \<and> tu_sent t = [] \<and> tu_msgs t = messages \<and> tu_tokens t = 0"
proof (cases "ca_providerName a \<in> {ProviderNameOpenAI, ProviderNameAnthropic}")
  case True
  then have "run_rounds dec env (nat (ca_maxIterations a)) 0 (start_turn a messages) = (t, err)"
    using assms by (auto simp: RunTurn_def)
  then show ?thesis
    using rounds_protocol True
    by (fastforce simp: start_turn_def ProviderNameOpenAI_def ProviderNameAnthropic_def)
next
  case False
  then show ?thesis
    using assms by (auto simp: RunTurn_def start_turn_def ProviderNameOpenAI_def ProviderNameAnthropic_def)
qed

section \<open>What a turn charges\<close>

definition ledgers :: "time \<Rightarrow> ChatAgent \<Rightarrow> int list" where
  "ledgers now a = budget_used now (ca_budget a) @ chat_used_list (ca_chatBudget a)"

definition ledgers_ok :: "time \<Rightarrow> ChatAgent \<Rightarrow> bool" where
  "ledgers_ok now a \<longleftrightarrow> budget_ok now (ca_budget a) \<and> chat_ok (ca_chatBudget a)"

lemma reserved_range: "0 \<le> reserved_tokens a msgs" "in_int64 (reserved_tokens a msgs)"
  using wrap64_range [of "estimateMessageTokens msgs + ca_maxTokens a"]
  by (auto simp: reserved_tokens_def minChatTurnReservationTokens_def in_int64_def)

lemma settleReservations_settle:
  assumes "0 \<le> n" "in_int64 n" "0 \<le> k" "in_int64 k"
  shows "settleReservations now n k a =
    a\<lparr>ca_budget := settle ReleaseUnused (RecordUsage now) n k (ca_budget a),
      ca_chatBudget := settle ChatReleaseUnused ChatRecordUsage n k (ca_chatBudget a)\<rparr>"
proof -
  have "in_int64 (n - k)" "in_int64 (k - n)" using assms by (auto simp: in_int64_def)
  then show ?thesis
    using assms by (auto simp: settleReservations_def settle_def Let_def ReleaseUnused_def ChatReleaseUnused_def)
qed

text \<open>A round that was refused charges nothing, one that was answered its tokens.\<close>

lemma refused_charges_nothing:
  assumes "reserve_round now n a = (Some x, a')" "ledgers_ok now a" "0 \<le> n" "in_int64 n"
    "list_all (\<lambda>u. in_int64 (u + n)) (ledgers now a)"
  shows "ledgers_ok now a' \<and> ledgers now a' = ledgers now a"
proof -
  have fit: "\<forall>u \<in> set (budget_used now (ca_budget a)). in_int64 (u + n)" using assms(5) by (auto simp: ledgers_def list_all_iff)
  from assms(1) show ?thesis
  proof (cases rule: reserve_round_cases)
    case (session e b)
    then have "b = ca_budget a" using TryConsume_error by blast
    then show ?thesis using assms(2) session(2) by simp
  next
    case (aggregate b e cb)
    then have "cb = ca_chatBudget a" using chat_ledger.reserve_error by blast
    then show ?thesis
      using budget_ledger.refund_exact [OF _ assms(3,4) fit aggregate(1)] assms(2) aggregate(3) by (simp add: ledgers_ok_def ledgers_def)
  qed simp
qed

lemma settled_charges:
  assumes "reserve_round now n a = (None, a')" "ledgers_ok now a" "0 \<le> n" "in_int64 n" "0 \<le> k" "in_int64 k"
    "list_all (\<lambda>u. in_int64 (u + n) \<and> in_int64 (u + k)) (ledgers now a)"
  shows "ledgers_ok now (settleReservations now n k a') \<and> ledgers now (settleReservations now n k a') = map (\<lambda>u. u + k) (ledgers now a)"
proof -
  have fit: "\<forall>u \<in> set (budget_used now (ca_budget a)). in_int64 (u + n) \<and> in_int64 (u + k)"
    "\<forall>u \<in> set (chat_used_list (ca_chatBudget a)). in_int64 (u + n) \<and> in_int64 (u + k)"
    using assms(7) by (auto simp: ledgers_def list_all_iff)
  obtain b cb where c: "TryConsume now n (ca_budget a) = (None, b)" "TryChatConsume n (ca_chatBudget a) = (None, cb)"
      "a' = a\<lparr>ca_budget := b, ca_chatBudget := cb\<rparr>"
    using assms(1) by (cases rule: reserve_round_cases) simp_all
  show ?thesis
    using budget_ledger.settle_exact [OF _ assms(3-6) fit(1) c(1)] chat_ledger.settle_exact [OF _ assms(3-6) fit(2) c(2)]
      assms(2) c(3)
    by (simp add: settleReservations_settle [OF assms(3-6)] ledgers_ok_def ledgers_def)
qed

text \<open>A round without overflows, at one reading of the clock.\<close>

definition round_fits :: "time \<Rightarrow> chat_decoders \<Rightarrow> chat_round \<Rightarrow> turn \<Rightarrow> bool" where
  "round_fits now dec rd t \<longleftrightarrow> rd_consume rd = now \<and> rd_settle rd = now \<and>
     (let k = answer_tokens (fst (ask_provider dec rd (tu_agent t) (maybeCompactHistory (tu_msgs t)))) in
      0 \<le> k \<and> in_int64 k \<and> in_int64 (tu_tokens t + k) \<and>
      list_all (\<lambda>u. in_int64 (u + reserved_tokens (tu_agent t) (tu_msgs t)) \<and> in_int64 (u + k)) (ledgers now (tu_agent t)))"

text \<open>Every round of a turn begins in a state that satisfies a predicate.\<close>

fun all_rounds :: "(chat_round \<Rightarrow> turn \<Rightarrow> bool) \<Rightarrow> chat_decoders \<Rightarrow> (nat \<Rightarrow> chat_round) \<Rightarrow> nat \<Rightarrow> nat \<Rightarrow> turn \<Rightarrow> bool" where
  "all_rounds P dec env 0 i t = True"
| "all_rounds P dec env (Suc n) i t \<longleftrightarrow> P (env i) t \<and>
     (case turn_round dec (env i) t of Inl _ \<Rightarrow> True | Inr t' \<Rightarrow> all_rounds P dec env n (Suc i) t')"

lemma ask_ignores_budgets:
  assumes "reserve_round now n a = (x, a')"
  shows "ask_provider dec rd a' msgs = ask_provider dec rd a msgs"
  using assms by (cases rule: reserve_round_cases) (simp_all add: ask_provider_def chat_request_def openai_body_def cong: sum.case_cong option.case_cong)

lemma round_charges:
  assumes "turn_round dec rd t = r" "round_fits now dec rd t" "ledgers_ok now (tu_agent t)"
  shows "\<exists>k. 0 \<le> k \<and> (case r of Inl (t', _) \<Rightarrow> ledgers_ok now (tu_agent t') \<and> tu_tokens t' = tu_tokens t + k \<and>
        ledgers now (tu_agent t') = map (\<lambda>u. u + k) (ledgers now (tu_agent t))
      | Inr t' \<Rightarrow> ledgers_ok now (tu_agent t') \<and> tu_tokens t' = tu_tokens t + k \<and>
        ledgers now (tu_agent t') = map (\<lambda>u. u + k) (ledgers now (tu_agent t)))"
proof -
  let ?n = "reserved_tokens (tu_agent t) (tu_msgs t)" and ?l = "ledgers now (tu_agent t)"
  let ?k = "answer_tokens (fst (ask_provider dec rd (tu_agent t) (maybeCompactHistory (tu_msgs t))))"
  note n = reserved_range [of "tu_agent t" "tu_msgs t"]
  have f: "rd_consume rd = now" "rd_settle rd = now" "0 \<le> ?k" "in_int64 ?k" "in_int64 (tu_tokens t + ?k)"
      "list_all (\<lambda>u. in_int64 (u + ?n) \<and> in_int64 (u + ?k)) ?l"
    using assms(2) by (simp_all add: round_fits_def Let_def)
  have fn: "list_all (\<lambda>u. in_int64 (u + ?n)) ?l" using f(6) by (simp add: list_all_iff)
  have zero: "map (\<lambda>u. u + 0) ?l = ?l" by simp
  have same: "answer_tokens ans = ?k"
    if "reserve_round (rd_consume rd) ?n (tu_agent t) = (None, a)"
      "ask_provider dec rd a (maybeCompactHistory (tu_msgs t)) = (ans, sent)" for a ans sent
    using ask_ignores_budgets [OF that(1)] that(2) by simp
  have settled: "ledgers_ok now (settleReservations now ?n ?k a) \<and> ledgers now (settleReservations now ?n ?k a) = map (\<lambda>u. u + ?k) ?l"
    if "reserve_round (rd_consume rd) ?n (tu_agent t) = (None, a)" for a
    using settled_charges [OF _ assms(3) n f(3,4,6)] that f(1) by simp
  from assms(1) show ?thesis
  proof (cases rule: turn_round_cases)
    case (cancelled e)
    then show ?thesis using assms(3) by (intro exI [of _ 0]) (simp add: fail_turn_def)
  next
    case (refused msg e a)
    then show ?thesis
      using refused_charges_nothing [OF refused(1) [unfolded f(1)] assms(3) n fn] by (intro exI [of _ 0]) (simp add: fail_turn_def)
  next
    case (failed a e sent t')
    then show ?thesis
      using settled [OF failed(1)] same [OF failed(1,2)] f(2,3) by (intro exI [of _ ?k]) (simp add: answer_tokens_def)
  next
    case (answered a content k sent t')
    then show ?thesis
      using settled [OF answered(1)] same [OF answered(1,2)] f(2,3,5) by (intro exI [of _ ?k]) (simp add: answer_tokens_def)
  next
    case (called a content calls k sent t' outs)
    then show ?thesis
      using settled [OF called(1)] same [OF called(1,2)] f(2,3,5) by (intro exI [of _ ?k]) (simp add: answer_tokens_def)
  qed
qed

lemma rounds_charge:
  "run_rounds dec env n i t = (t', err) \<Longrightarrow> all_rounds (round_fits now dec) dec env n i t \<Longrightarrow> ledgers_ok now (tu_agent t) \<Longrightarrow>
     \<exists>k \<ge> 0. ledgers_ok now (tu_agent t') \<and> tu_tokens t' = tu_tokens t + k \<and>
       ledgers now (tu_agent t') = map (\<lambda>u. u + k) (ledgers now (tu_agent t))"
proof (induction dec env n i t rule: run_rounds.induct)
  case (1 dec env i t)
  then show ?case by (intro exI [of _ 0]) (auto simp: fail_turn_def)
next
  case (2 dec env n i t)
  have fits: "round_fits now dec (env i) t" using "2.prems"(2) by simp
  obtain r where r: "turn_round dec (env i) t = r" by blast
  obtain k where k: "0 \<le> k" and c: "case r of Inl (t', _) \<Rightarrow> ledgers_ok now (tu_agent t') \<and> tu_tokens t' = tu_tokens t + k \<and>
        ledgers now (tu_agent t') = map (\<lambda>u. u + k) (ledgers now (tu_agent t))
      | Inr t' \<Rightarrow> ledgers_ok now (tu_agent t') \<and> tu_tokens t' = tu_tokens t + k \<and>
        ledgers now (tu_agent t') = map (\<lambda>u. u + k) (ledgers now (tu_agent t))"
    using round_charges [OF r fits "2.prems"(3)] by blast
  show ?case
  proof (cases r)
    case (Inl x)
    then show ?thesis using c k "2.prems"(1) r by auto
  next
    case (Inr t1)
    then obtain k' where "0 \<le> k'" "ledgers_ok now (tu_agent t')" "tu_tokens t' = tu_tokens t1 + k'"
        "ledgers now (tu_agent t') = map (\<lambda>u. u + k') (ledgers now (tu_agent t1))"
      using "2.IH" [OF r [unfolded Inr]] "2.prems"(1,2) r c by auto
    then show ?thesis using c Inr k by (intro exI [of _ "k + k'"]) (auto simp: comp_def)
  qed
qed

text \<open>C24. However a turn ends, refused by a budget, failed, cancelled between two rounds, or out of rounds, its reservations are
  settled exactly: both the budget of the session and the aggregate budget have been charged with the tokens the turn
  returns, and with nothing else (at one reading of the clock, without overflows).\<close>

theorem turn_settles_budgets:
  assumes "RunTurn dec env a messages = (t, err)" "ledgers_ok now a"
    and "all_rounds (round_fits now dec) dec env (nat (ca_maxIterations a)) 0 (start_turn a messages)"
  shows "ledgers now (tu_agent t) = map (\<lambda>u. u + tu_tokens t) (ledgers now a)"
proof (cases "ca_providerName a \<in> {ProviderNameOpenAI, ProviderNameAnthropic}")
  case True
  then have "run_rounds dec env (nat (ca_maxIterations a)) 0 (start_turn a messages) = (t, err)"
    using assms(1) by (auto simp: RunTurn_def)
  then show ?thesis using rounds_charge [OF _ assms(3)] assms(2) by (fastforce simp: start_turn_def)
next
  case False
  then show ?thesis using assms(1) by (auto simp: RunTurn_def start_turn_def)
qed

section \<open>The history of a turn\<close>

text \<open>A history as a list of exchanges: a question, a reply, or an assistant message with calls and their results.\<close>

datatype exchange = Question string | Reply string | ToolUse string "(ToolCall \<times> string) list"

fun exchange_messages :: "exchange \<Rightarrow> ChatMessage list" where
  "exchange_messages (Question s) = [user_message s]"
| "exchange_messages (Reply s) = [assistant_message s []]"
| "exchange_messages (ToolUse s outs) = assistant_message s (map fst outs) # map result_message outs"

definition history_of :: "exchange list \<Rightarrow> ChatMessage list" where
  "history_of gs = concat (map exchange_messages gs)"

lemma history_of_append [simp]: "history_of (gs @ hs) = history_of gs @ history_of hs" "history_of [] = []"
  "history_of (g # gs) = exchange_messages g @ history_of gs"
  by (simp_all add: history_of_def)

definition valid_args :: "(string \<Rightarrow> string option) \<Rightarrow> ToolCall \<Rightarrow> bool" where
  "valid_args json_error c \<longleftrightarrow> tc_Args c = [] \<or> json_error (tc_Args c) = None"

fun exchange_ok :: "(string \<Rightarrow> string option) \<Rightarrow> exchange \<Rightarrow> bool" where
  "exchange_ok json_error (ToolUse s outs) \<longleftrightarrow> outs \<noteq> [] \<and> list_all (valid_args json_error) (map fst outs)"
| "exchange_ok json_error g \<longleftrightarrow> True"

text \<open>What Anthropic is sent for an exchange: tool calls in an assistant message, and all their results, with the same
  identifiers and in the same order, in the user message that follows.\<close>

fun sent_messages :: "exchange \<Rightarrow> anthropicChatMessage list" where
  "sent_messages (Question s) = [(roleUser, TextJSON s)]"
| "sent_messages (Reply s) = [(roleAssistant, if s = [] then NullJSON else BlocksJSON [text_block s])]"
| "sent_messages (ToolUse s outs) =
     [(roleAssistant, BlocksJSON ((if s = [] then [] else [text_block s]) @ map (tool_use_block \<circ> fst) outs)),
      (roleUser, BlocksJSON (map (\<lambda>(c, r). tool_result_block (tc_ID c) r) outs))]"

lemma anthropic_from_append:
  "anthropic_from je (xs @ ys) res = (case anthropic_from je xs res of Inl e \<Rightarrow> Inl e | Inr r \<Rightarrow> anthropic_from je ys r)"
  by (induction xs arbitrary: res) (auto split: sum.splits)

lemma message_roles [simp]:
  "ch_Role (user_message s) = roleUser" "ch_Role (assistant_message s cs) = roleAssistant" "ch_Role (tool_message i s) = roleTool"
  "ch_Content (user_message s) = s" "ch_Content (assistant_message s cs) = s" "ch_ToolCalls (assistant_message s cs) = cs"
  "ch_Content (tool_message i s) = s" "ch_ToolCallID (tool_message i s) = i"
  by (simp_all add: user_message_def assistant_message_def tool_message_def)

lemma merge_results:
  "anthropic_from je (map result_message outs) (res @ [(roleUser, BlocksJSON bs)]) =
     Inr (res @ [(roleUser, BlocksJSON (bs @ map (\<lambda>(c, r). tool_result_block (tc_ID c) r) outs))])"
  by (induction outs arbitrary: bs) (auto simp: anthropic_step_def result_message_def Let_def)

lemma block_error_None:
  "block_error je bs = None \<longleftrightarrow> list_all (\<lambda>b. bl_Input b = [] \<or> je (bl_Input b) = None) bs"
  unfolding block_error_def by (induction bs) (auto split: option.splits if_splits)

lemma exchange_sent:
  assumes "exchange_ok je g"
  shows "anthropic_from je (exchange_messages g) res = Inr (res @ sent_messages g)"
proof (cases g)
  case (Question s)
  then show ?thesis by (simp add: anthropic_step_def)
next
  case (Reply s)
  then show ?thesis
    by (simp add: anthropic_step_def assistant_blocks_def block_error_def text_block_def Let_def)
next
  case (ToolUse s outs)
  then obtain c r outs' where o: "outs = (c, r) # outs'" using assms by (cases outs) auto
  let ?bs = "(if s = [] then [] else [text_block s]) @ map tool_use_block (map fst outs)"
  have "assistant_blocks (assistant_message s (map fst outs)) = ?bs" "?bs \<noteq> []" by (simp_all add: assistant_blocks_def o)
  moreover have "block_error je ?bs = None"
    using assms by (auto simp: block_error_None list_all_iff ToolUse valid_args_def text_block_def tool_use_block_def)
  ultimately  have "anthropic_step je (assistant_message s (map fst outs)) res = Inr (res @ [(roleAssistant, BlocksJSON ?bs)])"
    by (simp add: anthropic_step_def Let_def)
  then show ?thesis
    using merge_results [of je outs' "res @ [(roleAssistant, BlocksJSON ?bs)]"]
    by (simp add: ToolUse o anthropic_step_def result_message_def Let_def comp_def)
qed

lemma history_sent:
  "list_all (exchange_ok je) gs \<Longrightarrow> anthropic_from je (history_of gs) res = Inr (res @ concat (map sent_messages gs))"
  by (induction gs arbitrary: res) (auto simp: anthropic_from_append exchange_sent)

lemma history_built:
  "list_all (exchange_ok je) gs \<Longrightarrow> buildAnthropicMessages je (history_of gs) = Inr (concat (map sent_messages gs))"
  using history_sent [of je gs "[]"] by (simp add: buildAnthropicMessages_def)

text \<open>A round that leaves its history whole and whose calls have arguments that are JSON.\<close>

definition round_whole :: "chat_decoders \<Rightarrow> chat_round \<Rightarrow> turn \<Rightarrow> bool" where
  "round_whole dec rd t \<longleftrightarrow> maybeCompactHistory (tu_msgs t) = tu_msgs t \<and>
     (case fst (ask_provider dec rd (tu_agent t) (tu_msgs t)) of
        Inl _ \<Rightarrow> True
      | Inr (_, calls, _) \<Rightarrow> list_all (valid_args (cd_json_error dec)) calls)"

fun is_reply :: "exchange \<Rightarrow> bool" where
  "is_reply (Reply s) = True"
| "is_reply g = False"

lemma rounds_history:
  "run_rounds dec env n i t = (t', err) \<Longrightarrow> all_rounds (round_whole dec) dec env n i t \<Longrightarrow> tu_msgs t = history_of gs \<Longrightarrow>
     \<exists>hs. tu_msgs t' = history_of (gs @ hs) \<and> list_all (exchange_ok (cd_json_error dec)) hs \<and>
       (if err = None then hs \<noteq> [] \<and> is_reply (last hs) \<and> \<not> list_ex is_reply (butlast hs) else \<not> list_ex is_reply hs)"
proof (induction dec env n i t arbitrary: gs rule: run_rounds.induct)
  case (1 dec env i t)
  then show ?case by (intro exI [of _ "[]"]) (auto simp: fail_turn_def)
next
  case (2 dec env n i t)
  have w: "round_whole dec (env i) t" using "2.prems"(2) by simp
  then have m: "maybeCompactHistory (tu_msgs t) = history_of gs" using "2.prems"(3) by (simp add: round_whole_def)
  obtain r where r: "turn_round dec (env i) t = r" by blast
  then show ?case
  proof (cases rule: turn_round_cases)
    case (answered a content k sent t1)
    then show ?thesis using "2.prems"(1) r m by (intro exI [of _ "[Reply content]"]) auto
  next
    case (called a content calls k sent t1 outs)
    have "list_all (valid_args (cd_json_error dec)) calls"
      using w called(2) ask_ignores_budgets [OF called(1)] m "2.prems"(3) by (simp add: round_whole_def)
    then have ok: "exchange_ok (cd_json_error dec) (ToolUse content outs)" using called(4,5) by simp
    have "tu_msgs t1 = history_of (gs @ [ToolUse content outs])" using called(5,6) m by simp
    then obtain hs where hs: "tu_msgs t' = history_of ((gs @ [ToolUse content outs]) @ hs)"
        "list_all (exchange_ok (cd_json_error dec)) hs"
        "if err = None then hs \<noteq> [] \<and> is_reply (last hs) \<and> \<not> list_ex is_reply (butlast hs) else \<not> list_ex is_reply hs"
      using "2.IH" [OF r [unfolded called(3)]] "2.prems"(1,2) r called(3) by (fastforce simp del: history_of_append)
    then show ?thesis using ok by (intro exI [of _ "ToolUse content outs # hs"]) auto
  next
    case (failed a e sent t1)
    then show ?thesis using "2.prems"(1) r m by (intro exI [of _ "[]"]) auto
  next
    case (cancelled e)
    show ?thesis using cancelled(2) "2.prems"(1,3) r by (intro exI [of _ "[]"]) (auto simp: fail_turn_def)
  next
    case (refused msg e a)
    show ?thesis using refused(2) "2.prems"(1,3) r by (intro exI [of _ "[]"]) (auto simp: fail_turn_def)
  qed
qed

text \<open>C26. A turn starts from a history of whole exchanges (questions, replies, and assistant messages with calls followed by
  their results). As long as nothing is compacted, and the arguments of the calls that the provider asks for, now and in
  that history, are valid JSON, the turn only appends whole exchanges, in which every tool call is answered by its result, and at the end a reply exactly when it returns no error; and the history can then always
  be sent to Anthropic: every assistant message with calls is followed by one user message with the results of just these
  calls.\<close>

theorem turn_extends_history:
  assumes "RunTurn dec env a (history_of gs) = (t, err)" "list_all (exchange_ok (cd_json_error dec)) gs"
    and "all_rounds (round_whole dec) dec env (nat (ca_maxIterations a)) 0 (start_turn a (history_of gs))"
  shows "\<exists>hs. tu_msgs t = history_of (gs @ hs) \<and>
    (if err = None then hs \<noteq> [] \<and> is_reply (last hs) \<and> \<not> list_ex is_reply (butlast hs) else \<not> list_ex is_reply hs) \<and>
    buildAnthropicMessages (cd_json_error dec) (tu_msgs t) = Inr (concat (map sent_messages (gs @ hs)))"
proof -
  have "\<exists>hs. tu_msgs t = history_of (gs @ hs) \<and> list_all (exchange_ok (cd_json_error dec)) hs \<and>
    (if err = None then hs \<noteq> [] \<and> is_reply (last hs) \<and> \<not> list_ex is_reply (butlast hs) else \<not> list_ex is_reply hs)"
  proof (cases "ca_providerName a \<in> {ProviderNameOpenAI, ProviderNameAnthropic}")
    case True
    then have "run_rounds dec env (nat (ca_maxIterations a)) 0 (start_turn a (history_of gs)) = (t, err)"
      using assms(1) by (auto simp: RunTurn_def)
    then show ?thesis by (rule rounds_history [OF _ assms(3)]) (simp add: start_turn_def)
  next
    case False
    then show ?thesis using assms(1) by (intro exI [of _ "[]"]) (auto simp: RunTurn_def start_turn_def)
  qed
  then obtain hs where h: "tu_msgs t = history_of (gs @ hs)" "list_all (exchange_ok (cd_json_error dec)) hs"
    "if err = None then hs \<noteq> [] \<and> is_reply (last hs) \<and> \<not> list_ex is_reply (butlast hs) else \<not> list_ex is_reply hs" by blast
  moreover have "buildAnthropicMessages (cd_json_error dec) (tu_msgs t) = Inr (concat (map sent_messages (gs @ hs)))"
    unfolding h(1) by (rule history_built) (use assms(2) h(2) in simp)
  ultimately show ?thesis by blast
qed

section \<open>A compacted history\<close>

text \<open>A history that begins with a user message and the result of a call that is gone.\<close>

definition stuck :: "ChatMessage list \<Rightarrow> bool" where
  "stuck msgs \<longleftrightarrow> (\<exists>u m ms. msgs = u # m # ms \<and> ch_Role u = roleUser \<and> ch_Role m = roleTool)"

lemma stuck_append: "stuck msgs \<Longrightarrow> stuck (msgs @ ms)"
  by (auto simp: stuck_def)

lemma stuck_not_built: "stuck msgs \<Longrightarrow> \<exists>e. buildAnthropicMessages je msgs = Inl e"
  by (auto simp: stuck_def buildAnthropicMessages_def anthropic_step_def Let_def)

lemma stuck_not_asked:
  assumes "stuck msgs" "ca_providerName a = ProviderNameAnthropic"
  shows "\<exists>e. ask_provider dec rd a msgs = (Inl e, [])"
  using stuck_not_built [OF assms(1), of "cd_json_error dec"] assms(2)
  by (auto simp: ask_provider_def chat_request_def ProviderNameAnthropic_def ProviderNameOpenAI_def)

abbreviation compaction_threshold :: int where
  "compaction_threshold \<equiv> contextWindowEstimate * 80 div 100"

lemma compacted_stuck:
  assumes "compaction_threshold \<le> estimateMessageTokens (ms @ [m, m1, m2])" "length ms \<ge> 2" "ch_Role m = roleTool"
  shows "maybeCompactHistory (ms @ [m, m1, m2]) = user_message (summary_of ms) # [m, m1, m2]"
    "stuck (maybeCompactHistory (ms @ [m, m1, m2]))"
  using assms by (auto simp: maybeCompactHistory_def stuck_def Let_def)

text \<open>A turn on a history whose compaction is stuck fails, asks nothing and adds nothing.\<close>

lemma stuck_turn:
  assumes "RunTurn dec env a msgs = (t, err)" "ca_providerName a = ProviderNameAnthropic" "stuck (maybeCompactHistory msgs)"
  shows "err \<noteq> None \<and> tu_sent t = [] \<and> ca_providerName (tu_agent t) = ProviderNameAnthropic \<and>
    tu_msgs t = (if ChatEventThinking \<in> set (tu_events t) then maybeCompactHistory msgs else msgs)"
proof -
  have run: "run_rounds dec env (nat (ca_maxIterations a)) 0 (start_turn a msgs) = (t, err)"
    using assms(1,2) by (simp add: RunTurn_def)
  show ?thesis
  proof (cases "nat (ca_maxIterations a)")
    case 0
    then show ?thesis using run assms(2) by (auto simp: fail_turn_def start_turn_def emit_def)
  next
    case (Suc n)
    obtain r where r: "turn_round dec (env 0) (start_turn a msgs) = r" by blast
    then show ?thesis
    proof (cases rule: turn_round_cases)
      case (cancelled e)
      show ?thesis using run Suc r cancelled(2) assms(2) by (auto simp: fail_turn_def start_turn_def emit_def)
    next
      case (refused msg e a1)
      show ?thesis using run Suc r refused(2) reserve_parts(1) [OF refused(1)] assms(2)
        by (auto simp: fail_turn_def start_turn_def emit_def)
    next
      case (failed a1 e sent t1)
      have "ca_providerName a1 = ProviderNameAnthropic" using reserve_parts(1) [OF failed(1)] assms(2) by (simp add: start_turn_def)
      then have "sent = []" using stuck_not_asked [OF assms(3), of a1 dec "env 0"] failed(2) by (auto simp: start_turn_def)
      moreover have "ca_providerName (tu_agent t1) = ProviderNameAnthropic"
        using \<open>ca_providerName a1 = ProviderNameAnthropic\<close> failed(7) by (simp add: settleReservations_def Let_def)
      ultimately show ?thesis using run Suc r failed by (auto simp: start_turn_def)
    next
      case (answered a1 content k sent t1)
      then show ?thesis
        using stuck_not_asked [OF assms(3), of a1 dec "env 0"] reserve_parts(1) [OF answered(1)] assms(2) by (auto simp: start_turn_def)
    next
      case (called a1 content calls k sent t1 outs)
      then show ?thesis
        using stuck_not_asked [OF assms(3), of a1 dec "env 0"] reserve_parts(1) [OF called(1)] assms(2) by (auto simp: start_turn_def)
    qed
  qed
qed

text \<open>Turns of one session after another, each with its question and its outside: their errors, the requests they sent, and the
  history they leave.\<close>

fun converse :: "chat_decoders \<Rightarrow> (string \<times> (nat \<Rightarrow> chat_round)) list \<Rightarrow> ChatAgent \<Rightarrow> ChatMessage list \<Rightarrow>
    turn_error option list \<times> chat_body list \<times> ChatMessage list" where
  "converse dec [] a msgs = ([], [], msgs)"
| "converse dec ((question, env) # qs) a msgs =
     (let (t, err) = RunTurn dec env a (msgs @ [user_message question]);
          (errs, sent, msgs') = converse dec qs (tu_agent t) (tu_msgs t)
      in (err # errs, tu_sent t @ sent, msgs'))"

lemma estimate_mono: "estimateMessageTokens ms \<le> estimateMessageTokens (ms @ ns)"
  by (simp add: estimateMessageTokens_def zdiv_mono1)

lemma below_threshold_whole: "estimateMessageTokens ms < compaction_threshold \<Longrightarrow> maybeCompactHistory ms = ms"
  by (simp add: maybeCompactHistory_def)

lemma stuck_converse:
  assumes "converse dec qs a msgs = (errs, sent, msgs')" "ca_providerName a = ProviderNameAnthropic" "stuck msgs"
    and "estimateMessageTokens (msgs @ map (user_message \<circ> fst) qs) < compaction_threshold"
  shows "list_all (\<lambda>err. err \<noteq> None) errs \<and> length errs = length qs \<and> sent = [] \<and> msgs' = msgs @ map (user_message \<circ> fst) qs"
  using assms
proof (induction qs arbitrary: a msgs errs sent)
  case (Cons q qs)
  obtain question env where q: "q = (question, env)" by fastforce
  let ?msgs = "msgs @ [user_message question]"
  obtain t err where run: "RunTurn dec env a ?msgs = (t, err)" by fastforce
  obtain errs1 sent1 where rest: "converse dec qs (tu_agent t) (tu_msgs t) = (errs1, sent1, msgs')" "errs = err # errs1"
      "sent = tu_sent t @ sent1"
    using Cons.prems(1) run q by (auto split: prod.splits)
  have whole: "maybeCompactHistory ?msgs = ?msgs"
    using Cons.prems(4) estimate_mono [of ?msgs "map (user_message \<circ> fst) qs"] by (intro below_threshold_whole) (simp add: q comp_def)
  have "stuck (maybeCompactHistory ?msgs)" unfolding whole by (rule stuck_append [OF Cons.prems(3)])
  note t = stuck_turn [OF run Cons.prems(2) this, unfolded whole, simplified]
  show ?case
    using Cons.IH [OF rest(1)] t rest(2,3) Cons.prems(4) stuck_append [OF Cons.prems(3)] by (simp add: q)
qed simp

text \<open>C30. Compacting breaks a session with Anthropic for good: when a history that is too long ends with the results of calls, a
  reply and a new question, the summary takes the place of the calls but their last result stays, no request can be
  built from what is left, and the turn fails without asking the provider. The session keeps this history, so every
  later question fails as well, nothing is ever sent, until the session is too long again.\<close>

theorem compaction_breaks_session:
  assumes "ca_providerName a = ProviderNameAnthropic" "outs \<noteq> []" "gs \<noteq> []"
    and "msgs = history_of (gs @ [ToolUse s outs, Reply r, Question q])" "compaction_threshold \<le> estimateMessageTokens msgs"
    and "RunTurn dec env a msgs = (t, err)" "ChatEventThinking \<in> set (tu_events t)"
    and "converse dec qs (tu_agent t) (tu_msgs t) = (errs, sent, msgs')"
    and "estimateMessageTokens (maybeCompactHistory msgs @ map (user_message \<circ> fst) qs) < compaction_threshold"
  shows "err \<noteq> None \<and> tu_sent t = [] \<and> tu_msgs t = maybeCompactHistory msgs \<and>
    list_all (\<lambda>err. err \<noteq> None) errs \<and> length errs = length qs \<and> sent = [] \<and>
    msgs' = maybeCompactHistory msgs @ map (user_message \<circ> fst) qs"
proof -
  obtain outs' c out where o: "outs = outs' @ [(c, out)]" using assms(2) by (metis rev_exhaust surj_pair)
  let ?ms = "history_of gs @ assistant_message s (map fst outs) # map result_message outs'"
  have msgs: "msgs = ?ms @ [tool_message (tc_ID c) out, assistant_message r [], user_message q]"
    using assms(4) by (simp add: o result_message_def)
  obtain g gs' where "gs = g # gs'" using assms(3) by (cases gs) auto
  then have "history_of gs \<noteq> []" by (cases g) simp_all
  then have "2 \<le> length ?ms" by (cases "history_of gs") auto
  then have stuck: "stuck (maybeCompactHistory msgs)"
    using compacted_stuck(2) assms(5) unfolding msgs by (metis message_roles(3))
  note t = stuck_turn [OF assms(6,1) stuck]
  then have m: "tu_msgs t = maybeCompactHistory msgs" using assms(7) by simp
  show ?thesis using t m stuck_converse [OF assms(8)] stuck assms(9) by simp
qed

section \<open>Examples\<close>

text \<open>Every body decodes to 7 tokens: \<open>call\<close> to a call, any other to itself as the reply.\<close>

definition ex_chat_decoders :: chat_decoders where
  "ex_chat_decoders = \<lparr>cd_openai = (\<lambda>b. Inr \<lparr>op_Choices = [if b = ''call''
        then ([], [\<lparr>ot_ID = ''1'', ot_Type = ''function'', ot_Name = ''get_namespaces'', ot_Arguments = []\<rparr>]) else (b, [])],
      op_TotalTokens = 7, op_Error = None\<rparr>),
    cd_anthropic = (\<lambda>b. Inl ''not used''), cd_json_error = (\<lambda>_. None), cd_url_error = (\<lambda>_. None)\<rparr>"

definition ex_rounds :: "nat \<Rightarrow> chat_round" where
  "ex_rounds i = \<lparr>rd_context = (\<lambda>_. None), rd_consume = 10, rd_settle = 10,
     rd_http = (\<lambda>_ _ _. Answered 200 (if i = 0 then ''call'' else ''fine'')), rd_exec = (\<lambda>_ _ _. Inr ''default'')\<rparr>"

definition ex_agent :: ChatAgent where
  "ex_agent = (SetChatBudget (NewChatBudget 100000) (SetBudget (NewBudget 0 [\<lparr>bw_Name = ''daily'', bw_Duration = 100, bw_Limit = 20000\<rparr>])
     (NewChatAgent ''openai'' ''key'' [] [])))\<lparr>ca_tools := []\<rparr>"

lemma ex_turn:
  "case RunTurn ex_chat_decoders ex_rounds ex_agent (history_of [Question ''hello'']) of (t, err) \<Rightarrow>
     err = None \<and> tu_tokens t = 14 \<and> length (tu_sent t) = 2 \<and> length (tu_msgs t) = 4"
  by code_simp

lemma ex_rounds_fit:
  "all_rounds (round_fits 10 ex_chat_decoders) ex_chat_decoders ex_rounds (nat (ca_maxIterations ex_agent)) 0
     (start_turn ex_agent (history_of [Question ''hello'']))"
  by code_simp

lemma ex_rounds_whole:
  "all_rounds (round_whole ex_chat_decoders) ex_chat_decoders ex_rounds (nat (ca_maxIterations ex_agent)) 0
     (start_turn ex_agent (history_of [Question ''hello'']))"
  by code_simp

lemma ex_ledgers: "ledgers 10 ex_agent = [0, 0]" "ledgers_ok 10 ex_agent" "ca_providerName ex_agent = ProviderNameOpenAI"
    "ca_maxIterations ex_agent = 5"
  by code_simp+

lemma turn_events_protocol_witness:
  "\<exists>t rounds final. RunTurn ex_chat_decoders ex_rounds ex_agent (history_of [Question ''hello'']) = (t, None) \<and>
     tu_events t = concat (map round_events rounds) @ final \<and> final_events 14 None final \<and> length (tu_sent t) = 2"
proof -
  obtain t where t: "RunTurn ex_chat_decoders ex_rounds ex_agent (history_of [Question ''hello'']) = (t, None)"
      "tu_tokens t = 14" "length (tu_sent t) = 2"
    using ex_turn by (auto split: prod.splits)
  have "ca_providerName ex_agent = ''openai''" using ex_ledgers(3) by (simp add: ProviderNameOpenAI_def)
  then show ?thesis using turn_events_protocol [OF t(1)] t by auto
qed

lemma turn_settles_budgets_witness:
  "\<exists>t. RunTurn ex_chat_decoders ex_rounds ex_agent (history_of [Question ''hello'']) = (t, None) \<and> ledgers 10 (tu_agent t) = [14, 14]"
proof -
  obtain t where t: "RunTurn ex_chat_decoders ex_rounds ex_agent (history_of [Question ''hello'']) = (t, None)" "tu_tokens t = 14"
    using ex_turn by (auto split: prod.splits)
  show ?thesis using turn_settles_budgets [OF t(1) ex_ledgers(2) ex_rounds_fit] t ex_ledgers(1) by simp
qed

lemma turn_extends_history_witness:
  "\<exists>t hs. RunTurn ex_chat_decoders ex_rounds ex_agent (history_of [Question ''hello'']) = (t, None) \<and>
     tu_msgs t = history_of (Question ''hello'' # hs) \<and> is_reply (last hs) \<and> length (tu_msgs t) = 4"
proof -
  obtain t where t: "RunTurn ex_chat_decoders ex_rounds ex_agent (history_of [Question ''hello'']) = (t, None)" "length (tu_msgs t) = 4"
    using ex_turn by (auto split: prod.splits)
  show ?thesis using turn_extends_history [OF t(1) _ ex_rounds_whole] t by fastforce
qed

text \<open>A truncated text is short.\<close>

lemma rune_le: "r \<in> set (runes s) \<Longrightarrow> length r \<le> 4"
proof (induction s rule: runes.induct)
  case (2 c cs)
  have "rune_width (c # cs) \<le> 4" by (simp add: rune_width_def)
  then show ?case using 2 by (auto simp: runes.simps(2) Let_def replacement_char_def split: if_splits)
qed simp

lemma runes_cover: "length s \<le> length (concat (runes s))"
  by (induction s rule: runes.induct) (auto simp: runes.simps(2) Let_def replacement_char_def)

lemma concat_runes_le: "list_all (\<lambda>r. length r \<le> 4) rs \<Longrightarrow> length (concat rs) \<le> 4 * length rs"
  by (induction rs) auto

lemma truncate_le: "length (truncate_text s n) \<le> 4 * n + 14"
proof -
  have "length (concat rs) \<le> 4 * length rs" if "set rs \<subseteq> set (runes s)" for rs
    using concat_runes_le rune_le that by (fastforce simp: list_all_iff)
  from this [of "runes s"] this [of "take n (runes s)"] runes_cover [of s] set_take_subset [of n "runes s"]
  show ?thesis by (auto simp: truncate_text_def Let_def)
qed

definition ex_long :: "exchange list" where
  "ex_long = [Question (replicate 500000 CHR ''x'')]"

definition ex_call :: ToolCall where
  "ex_call = \<lparr>tc_ID = ''1'', tc_Name = ''get_namespaces'', tc_Args = []\<rparr>"

definition ex_long_history :: "ChatMessage list" where
  "ex_long_history = history_of (ex_long @ [ToolUse [] [(ex_call, ''ok'')], Reply ''fine'', Question ''more''])"

lemma message_chars_eq [simp]: "message_chars (user_message s) = length s" "message_chars (tool_message i s) = length s"
    "message_chars (assistant_message s []) = length s"
  by (simp_all add: message_chars_def user_message_def tool_message_def assistant_message_def)

lemma compaction_breaks_session_witness:
  "\<exists>t err errs sent msgs'. RunTurn ex_chat_decoders ex_rounds (NewChatAgent ''anthropic'' ''key'' [] []) ex_long_history = (t, Some err) \<and>
     converse ex_chat_decoders [(''hello'', ex_rounds)] (tu_agent t) (tu_msgs t) = (errs, sent, msgs') \<and>
     list_all (\<lambda>err. err \<noteq> None) errs \<and> errs \<noteq> [] \<and> sent = []"
proof -
  let ?a = "NewChatAgent ''anthropic'' ''key'' [] []" and ?outs = "[(ex_call, ''ok'')]" and ?qs = "[(''hello'', ex_rounds)]"
  have a: "ca_providerName ?a = ProviderNameAnthropic" "ca_maxIterations ?a = 5" "ca_budget ?a = None" "ca_chatBudget ?a = None"
    by (simp_all add: NewChatAgent_def ProviderNameAnthropic_def)
  have long: "compaction_threshold \<le> estimateMessageTokens ex_long_history"
    by (simp add: ex_long_history_def ex_long_def estimateMessageTokens_def contextWindowEstimate_def message_chars_def
        result_message_def user_message_def assistant_message_def tool_message_def)
  let ?ms = "history_of ex_long @ [assistant_message [] [ex_call]]"
  have h: "ex_long_history = ?ms @ [tool_message ''1'' ''ok'', assistant_message ''fine'' [], user_message ''more'']"
    by (simp add: ex_long_history_def result_message_def ex_call_def)
  have c: "maybeCompactHistory ex_long_history =
      user_message (summary_of ?ms) # [tool_message ''1'' ''ok'', assistant_message ''fine'' [], user_message ''more'']"
      "stuck (maybeCompactHistory ex_long_history)"
    using compacted_stuck [OF long [unfolded h]] unfolding h by (simp_all add: ex_long_def)
  have "length (summary_of ?ms) \<le> 500"
    using truncate_le [of "replicate 500000 CHR ''x''" 100]
    by (simp add: summary_of_def ex_long_def roleUser_def user_message_def assistant_message_def)
  then have short: "estimateMessageTokens (maybeCompactHistory ex_long_history @ map (user_message \<circ> fst) ?qs) < compaction_threshold"
    by (simp add: c(1) estimateMessageTokens_def contextWindowEstimate_def)
  obtain t err where run: "RunTurn ex_chat_decoders ex_rounds ?a ex_long_history = (t, err)" by fastforce
  obtain e where ask: "ask_provider ex_chat_decoders (ex_rounds 0) ?a (maybeCompactHistory ex_long_history) = (Inl e, [])"
    using stuck_not_asked [OF c(2) a(1)] by blast
  have res: "reserve_round 10 n ?a = (None, ?a)" for n
    using a(3,4) by (simp add: reserve_round_def TryConsume_def TryChatConsume_def)
  have first: "run_rounds ex_chat_decoders ex_rounds (Suc 4) 0 (start_turn ?a ex_long_history) = (t, err)"
    using run a(1,2) by (simp add: RunTurn_def)
  have "ChatEventThinking \<in> set (tu_events t)"
    using first [unfolded run_rounds.simps] ask res by (auto simp: turn_round_def start_turn_def ex_rounds_def Let_def fail_turn_def)
  then show ?thesis
    using compaction_breaks_session [OF a(1) _ _ ex_long_history_def long run _ _ short] run
    by (cases "converse ex_chat_decoders ?qs (tu_agent t) (tu_msgs t)") (auto simp: ex_long_def)
qed

end
