(* ===== verification/Chat_Flow.thy ===== *)
theory Chat_Flow
  imports Chat_Sessions Chat_Turns
begin

text \<open>
  Chat requests of many users at once, interleaved with each other, with the eviction of idle sessions and with whatever
  else changes the server: the turns of a session never overlap, and each starts from what the one before has left.
\<close>

section \<open>The interleaved system\<close>

text \<open>A handler: it has its session, it owns it, it runs a turn on some messages, or it is about to return.\<close>

datatype handler_pc = Opened nat string | Owning nat string | Running nat "ChatMessage list" | Ending nat

primrec pc_session :: "handler_pc \<Rightarrow> nat" where
  "pc_session (Opened i msg) = i"
| "pc_session (Owning i msg) = i"
| "pc_session (Running i msgs) = i"
| "pc_session (Ending i) = i"

primrec pc_owns :: "handler_pc \<Rightarrow> bool" where
  "pc_owns (Opened i msg) = False"
| "pc_owns (Owning i msg) = True"
| "pc_owns (Running i msgs) = True"
| "pc_owns (Ending i) = True"

text \<open>\<open>cy_log\<close>: of every session the finished turns, the messages each started with and left, and its tokens.\<close>

type_synonym turn_log = "(ChatMessage list \<times> ChatMessage list \<times> int) list"

record chat_system =
  cy_chat :: chat_server
  cy_handlers :: "nat \<rightharpoonup> handler_pc"
  cy_expired :: "(string \<times> nat) list"
  cy_log :: "nat \<Rightarrow> turn_log"

inductive chat_flow :: "chat_system \<Rightarrow> chat_system \<Rightarrow> bool" where
  open_session: "cy_handlers y h = None \<Longrightarrow>
    getOrCreateChatSession uuid_ok fresh now sid (cy_chat y) = (Inr (i, created), cv) \<Longrightarrow>
    chat_flow y (y\<lparr>cy_chat := cv, cy_handlers := (cy_handlers y)(h \<mapsto> Opened i msg)\<rparr>)"
| conflict: "cy_handlers y h = Some (Opened i msg) \<Longrightarrow> claim_session i (cy_chat y) = None \<Longrightarrow>
    chat_flow y (y\<lparr>cy_handlers := (cy_handlers y)(h := None)\<rparr>)"
| claim: "cy_handlers y h = Some (Opened i msg) \<Longrightarrow> claim_session i (cy_chat y) = Some cv \<Longrightarrow>
    chat_flow y (y\<lparr>cy_chat := cv, cy_handlers := (cy_handlers y)(h \<mapsto> Owning i msg)\<rparr>)"
| begins: "cy_handlers y h = Some (Owning i msg) \<Longrightarrow> begin_turn now i msg (cy_chat y) = (Some msgs, cv) \<Longrightarrow>
    chat_flow y (y\<lparr>cy_chat := cv, cy_handlers := (cy_handlers y)(h \<mapsto> Running i msgs)\<rparr>)"
| over_budget: "cy_handlers y h = Some (Owning i msg) \<Longrightarrow> begin_turn now i msg (cy_chat y) = (None, cv) \<Longrightarrow>
    chat_flow y (y\<lparr>cy_chat := cv, cy_handlers := (cy_handlers y)(h \<mapsto> Ending i)\<rparr>)"
| abandon: "cy_handlers y h = Some (Running i msgs) \<Longrightarrow>
    chat_flow y (y\<lparr>cy_handlers := (cy_handlers y)(h \<mapsto> Ending i)\<rparr>)"
| finish_turn: "cy_handlers y h = Some (Running i msgs) \<Longrightarrow> RunTurn dec env a msgs = (t, err) \<Longrightarrow>
    chat_flow y (y\<lparr>cy_chat := commit_turn i t (cy_chat y), cy_handlers := (cy_handlers y)(h \<mapsto> Ending i),
      cy_log := (cy_log y)(i := cy_log y i @ [(msgs, tu_msgs t, tu_tokens t)])\<rparr>)"
| release: "cy_handlers y h = Some (Ending i) \<Longrightarrow>
    chat_flow y (y\<lparr>cy_chat := release_session i (cy_chat y), cy_handlers := (cy_handlers y)(h := None)\<rparr>)"
| scan: "chat_flow y (y\<lparr>cy_expired := expired_sessions now (cy_chat y)\<rparr>)"
| evict: "chat_flow y (y\<lparr>cy_chat := evict_sessions now (cy_expired y) (cy_chat y), cy_expired := []\<rparr>)"
| elsewhere: "chat_flow y (y\<lparr>cy_chat := (cy_chat y)\<lparr>cv_server := sv\<rparr>\<rparr>)"

definition fresh_chat :: "chat_system \<Rightarrow> bool" where
  "fresh_chat y \<longleftrightarrow> cv_sessions (cy_chat y) = [] \<and> cv_heap (cy_chat y) = [] \<and> cy_handlers y = Map.empty \<and> cy_log y = (\<lambda>_. [])"

inductive sessions_reachable :: "chat_system \<Rightarrow> bool" where
  fresh: "fresh_chat y \<Longrightarrow> sessions_reachable y"
| step: "sessions_reachable y \<Longrightarrow> chat_flow y y' \<Longrightarrow> sessions_reachable y'"

section \<open>The invariant\<close>

definition log_end :: "turn_log \<Rightarrow> ChatMessage list" where
  "log_end l = (if l = [] then [] else fst (snd (last l)))"

text \<open>Every turn starts with what the one before has left and at least one question, and leaves what it returned.\<close>

definition turn_from :: "ChatMessage list \<Rightarrow> ChatMessage list \<Rightarrow> int \<Rightarrow> bool" where
  "turn_from start after n \<longleftrightarrow> (\<exists>dec env a t err. RunTurn dec env a start = (t, err) \<and> tu_msgs t = after \<and> tu_tokens t = n)"

fun turns_linked :: "ChatMessage list \<Rightarrow> turn_log \<Rightarrow> bool" where
  "turns_linked before [] \<longleftrightarrow> True"
| "turns_linked before ((start, after, n) # l) \<longleftrightarrow>
     (\<exists>qs. qs \<noteq> [] \<and> start = before @ map user_message qs) \<and>
     turn_from start after n \<and> turns_linked after l"

definition log_tokens :: "turn_log \<Rightarrow> int" where
  "log_tokens l = foldl (\<lambda>u (start, after, n). wrap64 (u + n)) 0 l"

definition log_ok :: "turn_log \<Rightarrow> ChatSession \<Rightarrow> bool" where
  "log_ok l s \<longleftrightarrow> (\<exists>qs. se_Messages s = log_end l @ map user_message qs) \<and> turns_linked [] l \<and> se_TokensUsed s = log_tokens l"

definition owners :: "chat_system \<Rightarrow> nat \<Rightarrow> nat set" where
  "owners y i = {h. \<exists>pc. cy_handlers y h = Some pc \<and> pc_owns pc \<and> pc_session pc = i}"

definition session_ok :: "chat_system \<Rightarrow> nat \<Rightarrow> ChatSession \<Rightarrow> bool" where
  "session_ok y i s \<longleftrightarrow> log_ok (cy_log y i) s \<and> (if se_inFlight s then \<exists>h. owners y i = {h} else owners y i = {})"

definition handler_ok :: "chat_system \<Rightarrow> handler_pc \<Rightarrow> bool" where
  "handler_ok y pc \<longleftrightarrow> pc_session pc < length (cv_heap (cy_chat y)) \<and>
     (case pc of
        Running i msgs \<Rightarrow> se_Messages (cv_heap (cy_chat y) ! i) = msgs \<and>
          (\<exists>qs. qs \<noteq> [] \<and> msgs = log_end (cy_log y i) @ map user_message qs)
      | _ \<Rightarrow> True)"

definition sessions_inv :: "chat_system \<Rightarrow> bool" where
  "sessions_inv y \<longleftrightarrow>
     (\<forall>i < length (cv_heap (cy_chat y)). session_ok y i (cv_heap (cy_chat y) ! i)) \<and>
     (\<forall>i \<ge> length (cv_heap (cy_chat y)). cy_log y i = []) \<and>
     (\<forall>h pc. cy_handlers y h = Some pc \<longrightarrow> handler_ok y pc) \<and>
     distinct (map fst (cv_sessions (cy_chat y))) \<and>
     (\<forall>(k, i) \<in> set (cv_sessions (cy_chat y)). i < length (cv_heap (cy_chat y)) \<and> se_ID (cv_heap (cy_chat y) ! i) = k) \<and>
     int (length (cv_sessions (cy_chat y))) \<le> max 0 (cv_maxSessions (cy_chat y))"

lemma sessions_inv_fresh: "fresh_chat y \<Longrightarrow> sessions_inv y"
  by (simp add: fresh_chat_def sessions_inv_def)

lemma turns_linked_snoc:
  "turns_linked before (l @ [(start, after, n)]) \<longleftrightarrow> turns_linked before l \<and>
     (\<exists>qs. qs \<noteq> [] \<and> start = (if l = [] then before else log_end l) @ map user_message qs) \<and>
     turn_from start after n"
  by (induction before l rule: turns_linked.induct) (auto simp: log_end_def)

lemma log_snoc [simp]: "log_end (l @ [(start, after, n)]) = after" "log_tokens (l @ [(start, after, n)]) = wrap64 (log_tokens l + n)"
  by (simp_all add: log_end_def log_tokens_def)

lemma log_ok_finish:
  assumes "log_ok l s" "RunTurn dec env a msgs = (t, err)" "qs \<noteq> []" "msgs = log_end l @ map user_message qs"
  shows "log_ok (l @ [(msgs, tu_msgs t, tu_tokens t)])
    (s\<lparr>se_Messages := tu_msgs t, se_TokensUsed := wrap64 (se_TokensUsed s + tu_tokens t)\<rparr>)"
proof -
  have "turn_from msgs (tu_msgs t) (tu_tokens t)" using assms(2) unfolding turn_from_def by blast
  then have "turns_linked [] (l @ [(msgs, tu_msgs t, tu_tokens t)])"
    unfolding turns_linked_snoc using assms(1,3,4) by (auto simp: log_ok_def log_end_def)
  then show ?thesis using assms(1) by (simp add: log_ok_def)
qed

text \<open>A step of one handler on its session.\<close>

lemma session_step:
  assumes inv: "sessions_inv y" and pc: "cy_handlers y h = Some pc" "pc_session pc = i"
    and y': "cy_handlers y' = (cy_handlers y)(h := pc')" "cv_heap (cy_chat y') = (cv_heap (cy_chat y))[i := s']"
      "cv_sessions (cy_chat y') = cv_sessions (cy_chat y)" "cv_maxSessions (cy_chat y') = cv_maxSessions (cy_chat y)"
      "cy_log y' = (cy_log y)(i := l')"
    and s': "se_ID s' = se_ID (cv_heap (cy_chat y) ! i)" "log_ok l' s'"
      "se_inFlight s' \<longleftrightarrow> pred_option pc_owns pc' \<and> pc' \<noteq> None \<or> \<not> pc_owns pc \<and> se_inFlight (cv_heap (cy_chat y) ! i)"
    and new: "pred_option (\<lambda>p. pc_session p = i \<and> handler_ok y' p) pc'"
    and own: "\<not> pc_owns pc \<Longrightarrow> l' = cy_log y i \<and> se_Messages s' = se_Messages (cv_heap (cy_chat y) ! i)"
      "\<not> pc_owns pc \<Longrightarrow> pred_option pc_owns pc' \<Longrightarrow> pc' \<noteq> None \<Longrightarrow> \<not> se_inFlight (cv_heap (cy_chat y) ! i)"
  shows "sessions_inv y'"
proof -
  let ?heap = "cv_heap (cy_chat y)"
  have i: "i < length ?heap" using inv pc by (force simp: sessions_inv_def handler_ok_def)
  have ok: "session_ok y j (?heap ! j)" if "j < length ?heap" for j using inv that by (simp add: sessions_inv_def)
  have others: "owners y' j = owners y j" if "j \<noteq> i" for j
    using that pc y'(1) new by (auto simp: owners_def split: if_splits)
  have mine: "owners y' i = (owners y i - {h}) \<union> (if pred_option pc_owns pc' \<and> pc' \<noteq> None then {h} else {})"
    using y'(1) new by (cases pc') (auto simp: owners_def)
  have h: "h \<in> owners y i \<longleftrightarrow> pc_owns pc" using pc by (simp add: owners_def)
  have si: "if se_inFlight (?heap ! i) then \<exists>h. owners y i = {h} else owners y i = {}"
    using ok [OF i] by (simp add: session_ok_def)
  have flag: "if se_inFlight s' then \<exists>h. owners y' i = {h} else owners y' i = {}"
  proof (cases "pc_owns pc")
    case True
    then have "owners y i = {h}" using si h by (auto split: if_splits)
    then show ?thesis using mine s'(3) True by simp
  next
    case False
    then show ?thesis using mine s'(3) si h own(2) by (auto split: if_splits)
  qed
  have sess: "session_ok y' j (cv_heap (cy_chat y') ! j)" if "j < length ?heap" for j
    using ok [OF that] flag s'(2) others i y'(2,5) that by (cases "j = i") (simp_all add: session_ok_def)
  have hand: "handler_ok y' p" if "cy_handlers y' k = Some p" for k p
  proof (cases "k = h")
    case True
    then show ?thesis using that y'(1) new by simp
  next
    case False
    then have k: "cy_handlers y k = Some p" using that y'(1) by simp
    then have p: "handler_ok y p" using inv by (simp add: sessions_inv_def)
    show ?thesis
    proof (cases "pc_session p = i \<and> pc_owns p")
      case True
      then have "k \<in> owners y i" using k by (simp add: owners_def)
      then have "owners y i = {k}" using si by (auto split: if_splits)
      then have "\<not> pc_owns pc" using h False by auto
      then show ?thesis using p own(1) i y'(2,5) True by (auto simp: handler_ok_def split: handler_pc.splits)
    next
      case False
      then show ?thesis using p y'(2,5) by (cases p) (auto simp: handler_ok_def nth_list_update)
    qed
  qed
  have map: "\<forall>(k, j) \<in> set (cv_sessions (cy_chat y')). j < length (cv_heap (cy_chat y')) \<and> se_ID (cv_heap (cy_chat y') ! j) = k"
    using inv s'(1) y'(2,3) i by (auto simp: sessions_inv_def nth_list_update)
  have "\<forall>j \<ge> length (cv_heap (cy_chat y')). cy_log y' j = []" using inv i y'(2,5) by (auto simp: sessions_inv_def)
  then show ?thesis using inv sess hand map y'(2-4) by (simp add: sessions_inv_def)
qed

text \<open>Steps that leave every session and every handler.\<close>

lemma sessions_step:
  assumes "sessions_inv y" "cy_handlers y' = cy_handlers y" "cv_heap (cy_chat y') = cv_heap (cy_chat y)" "cy_log y' = cy_log y"
    and "cv_maxSessions (cy_chat y') = cv_maxSessions (cy_chat y)" "set (cv_sessions (cy_chat y')) \<subseteq> set (cv_sessions (cy_chat y))"
      "distinct (map fst (cv_sessions (cy_chat y')))" "length (cv_sessions (cy_chat y')) \<le> length (cv_sessions (cy_chat y))"
  shows "sessions_inv y'"
proof -
  have "owners y' = owners y" using assms(2) by (auto simp: owners_def)
  then have "session_ok y' = session_ok y" using assms(4) by (intro ext) (simp add: session_ok_def)
  moreover have "handler_ok y' = handler_ok y" using assms(3,4) by (intro ext) (simp add: handler_ok_def split: handler_pc.split)
  moreover have "\<forall>(k, i) \<in> set (cv_sessions (cy_chat y')). i < length (cv_heap (cy_chat y)) \<and> se_ID (cv_heap (cy_chat y) ! i) = k"
    using assms(1,6) unfolding sessions_inv_def by blast
  ultimately show ?thesis using assms by (simp add: sessions_inv_def)
qed

lemma evict_parts:
  "cv_heap (evict_sessions now ks cv) = cv_heap cv \<and> cv_maxSessions (evict_sessions now ks cv) = cv_maxSessions cv \<and>
   set (cv_sessions (evict_sessions now ks cv)) \<subseteq> set (cv_sessions cv) \<and>
   length (cv_sessions (evict_sessions now ks cv)) \<le> length (cv_sessions cv) \<and>
   (distinct (map fst (cv_sessions cv)) \<longrightarrow> distinct (map fst (cv_sessions (evict_sessions now ks cv))))"
proof (induction ks arbitrary: cv)
  case Nil
  then show ?case by (simp add: evict_sessions_def)
next
  case (Cons x ks)
  have one: "cv_heap (evict_session now x cv) = cv_heap cv" "cv_maxSessions (evict_session now x cv) = cv_maxSessions cv"
      "set (cv_sessions (evict_session now x cv)) \<subseteq> set (cv_sessions cv)"
      "length (cv_sessions (evict_session now x cv)) \<le> length (cv_sessions cv)"
      "distinct (map fst (cv_sessions cv)) \<Longrightarrow> distinct (map fst (cv_sessions (evict_session now x cv)))"
    by (auto simp: evict_session_def AList.delete_eq distinct_map_filter split: prod.splits)
  show ?case using Cons [of "evict_session now x cv"] one by (auto simp: evict_sessions_def)
qed

lemma getOrCreate_cases:
  assumes g: "getOrCreateChatSession uuid_ok fresh now sid cv = (Inr (i, created), cv')"
  obtains (old) "map_of (cv_sessions cv) sid = Some i" "cv' = cv"
  | (new) s where "i = length (cv_heap cv)" "int (length (cv_sessions cv)) < cv_maxSessions cv"
      "cv' = cv\<lparr>cv_sessions := AList.update (se_ID s) i (cv_sessions cv), cv_heap := cv_heap cv @ [s]\<rparr>"
      "se_Messages s = []" "se_TokensUsed s = 0" "\<not> se_inFlight s"
proof (cases "if sid = [] then None else map_of (cv_sessions cv) sid")
  case (Some j)
  then have "map_of (cv_sessions cv) sid = Some i" "cv' = cv"
    using g by (auto simp: getOrCreateChatSession_def split: if_splits)
  then show ?thesis by (rule old)
next
  case None
  let ?s = "\<lparr>se_ID = if sid = [] then fresh else sid, se_Messages = [], se_TokensUsed = 0, se_TokenBudget = cv_tokenBudget cv,
    se_CreatedAt = now, se_lastAccessed = now, se_inFlight = False\<rparr>"
  have "int (length (cv_sessions cv)) < cv_maxSessions cv" using g None by (simp add: getOrCreateChatSession_def split: if_splits)
  moreover from this have "i = length (cv_heap cv)"
      "cv' = cv\<lparr>cv_sessions := AList.update (se_ID ?s) i (cv_sessions cv), cv_heap := cv_heap cv @ [?s]\<rparr>"
    using g None by (auto simp: getOrCreateChatSession_def Let_def split: if_splits)
  ultimately show ?thesis using new [of ?s] by simp
qed

lemma handler_session:
  assumes "sessions_inv y" "cy_handlers y h = Some pc" "pc_session pc = i"
  shows "i < length (cv_heap (cy_chat y))" "log_ok (cy_log y i) (cv_heap (cy_chat y) ! i)"
    "pc_owns pc \<Longrightarrow> se_inFlight (cv_heap (cy_chat y) ! i)"
proof -
  show i: "i < length (cv_heap (cy_chat y))" using assms by (auto simp: sessions_inv_def handler_ok_def)
  then have s: "session_ok y i (cv_heap (cy_chat y) ! i)" using assms(1) by (simp add: sessions_inv_def)
  then show "log_ok (cy_log y i) (cv_heap (cy_chat y) ! i)" by (simp add: session_ok_def)
  assume "pc_owns pc"
  then have "h \<in> owners y i" using assms(2,3) by (simp add: owners_def)
  then show "se_inFlight (cv_heap (cy_chat y) ! i)" using s by (auto simp: session_ok_def split: if_splits)
qed

lemma length_update: "length (AList.update k v xs) \<le> Suc (length xs)"
  by (induction xs) auto

lemma open_step:
  assumes inv: "sessions_inv y" and h: "cy_handlers y h = None"
    and g: "getOrCreateChatSession uuid_ok fresh now sid (cy_chat y) = (Inr (i, created), cv)"
  shows "sessions_inv (y\<lparr>cy_chat := cv, cy_handlers := (cy_handlers y)(h \<mapsto> Opened i msg)\<rparr>)" (is "sessions_inv ?y")
proof -
  let ?heap = "cv_heap (cy_chat y)"
  have own: "owners ?y j = owners y j" for j using h by (auto simp: owners_def)
  from g show ?thesis
  proof (cases rule: getOrCreate_cases)
    case old
    then have "i < length ?heap" using inv by (fastforce simp: sessions_inv_def dest: map_of_SomeD)
    then show ?thesis
      using inv old(2) own by (auto simp: sessions_inv_def session_ok_def handler_ok_def split: handler_pc.splits)
  next
    case (new s)
    have none: "owners ?y i = {}" using inv new(1) unfolding own by (fastforce simp: owners_def sessions_inv_def handler_ok_def)
    have log: "cy_log y i = []" using inv new(1) by (simp add: sessions_inv_def)
    have "session_ok ?y j ((?heap @ [s]) ! j)" if "j < length (?heap @ [s])" for j
    proof (cases "j = i")
      case True
      then show ?thesis using none new log by (simp add: session_ok_def log_ok_def log_end_def log_tokens_def)
    next
      case False
      then show ?thesis using inv that new(1) own by (auto simp: sessions_inv_def session_ok_def nth_append)
    qed
    moreover have "handler_ok ?y p" if "cy_handlers ?y k = Some p" for k p
    proof (cases "k = h")
      case True
      then have "p = Opened i msg" using that by simp
      then show ?thesis using new(1,3) by (simp add: handler_ok_def)
    next
      case False
      then have "handler_ok y p" using that inv by (simp add: sessions_inv_def)
      then show ?thesis using new(3) by (cases p) (auto simp: handler_ok_def nth_append)
    qed
    moreover have "\<forall>(k, j) \<in> set (AList.update (se_ID s) i (cv_sessions (cy_chat y))). j < length (?heap @ [s]) \<and> se_ID ((?heap @ [s]) ! j) = k"
      using inv new(1) Enrichment_Queue.set_update [of "se_ID s" i "cv_sessions (cy_chat y)"]
      by (fastforce simp: sessions_inv_def nth_append)
    moreover have "length (AList.update (se_ID s) i (cv_sessions (cy_chat y))) \<le> Suc (length (cv_sessions (cy_chat y)))"
      by (rule length_update)
    ultimately show ?thesis using inv new(1-3) by (simp add: sessions_inv_def distinct_update)
  qed
qed

lemma chat_flow_inv:
  assumes "chat_flow y y'" "sessions_inv y"
  shows "sessions_inv y'"
  using assms(1)
proof cases
  case (open_session h uuid_ok fresh now sid i created cv msg)
  then show ?thesis using open_step [OF assms(2)] by blast
next
  case (conflict h i msg)
  note len = handler_session [OF assms(2) conflict(2), of i, simplified]
  show ?thesis
    unfolding conflict(1)
    by (intro session_step [OF assms(2) conflict(2), where i = i and pc' = None and s' = "cv_heap (cy_chat y) ! i" and l' = "cy_log y i"])
      (use len in simp_all)
next
  case (claim h i msg cv)
  note len = handler_session [OF assms(2) claim(2), of i, simplified]
  show ?thesis
    using claim(3) len unfolding claim(1)
    by (intro session_step [OF assms(2) claim(2), where i = i and pc' = "Some (Owning i msg)" and l' = "cy_log y i"
          and s' = "(cv_heap (cy_chat y) ! i)\<lparr>se_inFlight := True\<rparr>"])
      (auto simp: claim_session_def update_session_def handler_ok_def log_ok_def split: if_splits)
next
  case (begins h i msg now msgs cv)
  obtain qs where qs: "se_Messages (cv_heap (cy_chat y) ! i) = log_end (cy_log y i) @ map user_message qs"
      "turns_linked [] (cy_log y i)" "se_TokensUsed (cv_heap (cy_chat y) ! i) = log_tokens (cy_log y i)"
    using handler_session(2) [OF assms(2) begins(2), of i] by (auto simp: log_ok_def)
  note len = handler_session [OF assms(2) begins(2), of i, simplified]
  have q1: "se_Messages (cv_heap (cy_chat y) ! i) @ [user_message msg] = log_end (cy_log y i) @ map user_message (qs @ [msg])"
    using qs(1) by simp
  then have ex: "\<exists>qs. qs \<noteq> [] \<and> se_Messages (cv_heap (cy_chat y) ! i) @ [user_message msg] = log_end (cy_log y i) @ map user_message qs"
    by (metis snoc_eq_iff_butlast)
  let ?s = "(cv_heap (cy_chat y) ! i)\<lparr>se_lastAccessed := now, se_Messages := se_Messages (cv_heap (cy_chat y) ! i) @ [user_message msg]\<rparr>"
  have b: "msgs = se_Messages ?s" "cv = update_session i (\<lambda>_. ?s) (cy_chat y)"
    using begins(3) by (auto simp: begin_turn_def Let_def split: if_splits)
  have l: "log_ok (cy_log y i) ?s" using qs(2,3) ex by (auto simp: log_ok_def)
  show ?thesis
    unfolding begins(1)
    by (intro session_step [OF assms(2) begins(2), where i = i and pc' = "Some (Running i msgs)" and l' = "cy_log y i" and s' = ?s])
      (use b l len ex in \<open>simp_all add: update_session_def handler_ok_def\<close>)
next
  case (over_budget h i msg now cv)
  note len = handler_session [OF assms(2) over_budget(2), of i, simplified]
  let ?s = "(cv_heap (cy_chat y) ! i)\<lparr>se_lastAccessed := now\<rparr>"
  have b: "cv = update_session i (\<lambda>_. ?s) (cy_chat y)"
    using over_budget(3) by (auto simp: begin_turn_def Let_def split: if_splits)
  show ?thesis
    unfolding over_budget(1)
    by (intro session_step [OF assms(2) over_budget(2), where i = i and pc' = "Some (Ending i)" and l' = "cy_log y i" and s' = ?s])
      (use b len in \<open>simp_all add: update_session_def handler_ok_def log_ok_def\<close>)
next
  case (abandon h i msgs)
  note len = handler_session [OF assms(2) abandon(2), of i, simplified]
  show ?thesis
    unfolding abandon(1)
    by (intro session_step [OF assms(2) abandon(2), where i = i and pc' = "Some (Ending i)" and l' = "cy_log y i"
          and s' = "cv_heap (cy_chat y) ! i"])
      (use len in \<open>simp_all add: handler_ok_def\<close>)
next
  case (finish_turn h i msgs dec env a t err)
  note len = handler_session [OF assms(2) finish_turn(2), of i, simplified]
  have "handler_ok y (Running i msgs)" using assms(2) finish_turn(2) by (simp add: sessions_inv_def)
  then obtain qs where qs: "qs \<noteq> []" "msgs = log_end (cy_log y i) @ map user_message qs" by (auto simp: handler_ok_def)
  show ?thesis
    unfolding finish_turn(1)
    by (intro session_step [OF assms(2) finish_turn(2), where i = i and pc' = "Some (Ending i)"
          and l' = "cy_log y i @ [(msgs, tu_msgs t, tu_tokens t)]"
          and s' = "(cv_heap (cy_chat y) ! i)\<lparr>se_Messages := tu_msgs t,
            se_TokensUsed := wrap64 (se_TokensUsed (cv_heap (cy_chat y) ! i) + tu_tokens t)\<rparr>"])
      (use len log_ok_finish [OF len(2) finish_turn(3) qs] in \<open>simp_all add: commit_turn_def update_session_def handler_ok_def\<close>)
next
  case (release h i)
  note len = handler_session [OF assms(2) release(2), of i, simplified]
  show ?thesis
    unfolding release(1)
    by (intro session_step [OF assms(2) release(2), where i = i and pc' = None and l' = "cy_log y i"
          and s' = "(cv_heap (cy_chat y) ! i)\<lparr>se_inFlight := False\<rparr>"])
      (use len in \<open>simp_all add: release_session_def update_session_def log_ok_def\<close>)
next
  case (scan now)
  then show ?thesis using assms(2) by (intro sessions_step [OF assms(2)]) (auto simp: sessions_inv_def)
next
  case (evict now)
  then show ?thesis using evict_parts assms(2) by (intro sessions_step [OF assms(2)]) (auto simp: sessions_inv_def)
next
  case (elsewhere sv)
  then show ?thesis using assms(2) by (intro sessions_step [OF assms(2)]) (auto simp: sessions_inv_def)
qed

lemma sessions_reachable_inv: "sessions_reachable y \<Longrightarrow> sessions_inv y"
  by (induction rule: sessions_reachable.induct) (auto intro: sessions_inv_fresh chat_flow_inv)

text \<open>C5. However requests, evictions and changes of the server are interleaved, the turns of a session never overlap: it is
  owned by one handler at most, exactly when its guard is set; its history is the chain of its finished turns, each of
  which started from what the one before had left and the questions asked since, so no turn is lost or based on a stale
  history; its tokens are the sum of those of its turns; and there are never more sessions than allowed.\<close>

theorem chat_turns_serialised:
  assumes "sessions_reachable y" "i < length (cv_heap (cy_chat y))" "s = cv_heap (cy_chat y) ! i"
  shows "(if se_inFlight s then \<exists>h. owners y i = {h} else owners y i = {}) \<and>
    turns_linked [] (cy_log y i) \<and> (\<exists>qs. se_Messages s = log_end (cy_log y i) @ map user_message qs) \<and>
    se_TokensUsed s = log_tokens (cy_log y i) \<and> int (length (cv_sessions (cy_chat y))) \<le> max 0 (cv_maxSessions (cy_chat y))"
  using sessions_reachable_inv [OF assms(1)] assms(2,3) by (simp add: sessions_inv_def session_ok_def log_ok_def)

text \<open>A user opens the first session, and a second request for it is refused while the first one runs.\<close>

definition ex_chat_server :: "server \<Rightarrow> chat_server" where
  "ex_chat_server sv = \<lparr>cv_server = sv, cv_sessions = [], cv_heap = [], cv_enabled = True, cv_maxTurns = 3, cv_tokenBudget = 100,
     cv_sessionTTL = 60, cv_maxSessions = 1, cv_aiKey = [], cv_aiModel = [], cv_providerName = ''openai'', cv_endpoint = []\<rparr>"

lemma chat_turns_serialised_witness:
  "\<exists>y. sessions_reachable y \<and> length (cv_heap (cy_chat y)) = 1 \<and> se_inFlight (cv_heap (cy_chat y) ! 0) \<and> (\<exists>h. owners y 0 = {h}) \<and>
     se_Messages (cv_heap (cy_chat y) ! 0) = [user_message ''hello'']"
proof -
  fix sv
  let ?cv0 = "ex_chat_server sv"
  let ?y0 = "\<lparr>cy_chat = ?cv0, cy_handlers = Map.empty, cy_expired = [], cy_log = (\<lambda>_. [])\<rparr>"
  define cv1 where "cv1 = snd (getOrCreateChatSession (\<lambda>_. True) ''id'' 5 [] ?cv0)"
  define cv2 where "cv2 = the (claim_session 0 cv1)"
  define cv3 where "cv3 = snd (begin_turn 6 0 ''hello'' cv2)"
  have g: "getOrCreateChatSession (\<lambda>_. True) ''id'' 5 [] ?cv0 = (Inr (0, True), cv1)"
    and c: "claim_session 0 cv1 = Some cv2" and b: "begin_turn 6 0 ''hello'' cv2 = (Some [user_message ''hello''], cv3)"
    and l: "length (cv_heap cv3) = 1" "se_inFlight (cv_heap cv3 ! 0)" "se_Messages (cv_heap cv3 ! 0) = [user_message ''hello'']"
    by (simp_all add: cv1_def cv2_def cv3_def getOrCreateChatSession_def ex_chat_server_def claim_session_def begin_turn_def
        update_session_def Let_def)
  let ?y1 = "?y0\<lparr>cy_chat := cv1, cy_handlers := [7 \<mapsto> Opened 0 ''hello'']\<rparr>"
  let ?y2 = "?y1\<lparr>cy_chat := cv2, cy_handlers := [7 \<mapsto> Owning 0 ''hello'']\<rparr>"
  let ?y3 = "?y2\<lparr>cy_chat := cv3, cy_handlers := [7 \<mapsto> Running 0 [user_message ''hello'']]\<rparr>"
  have "sessions_reachable ?y0" by (rule sessions_reachable.fresh) (simp add: fresh_chat_def ex_chat_server_def)
  moreover have "chat_flow ?y0 ?y1"
    using chat_flow.open_session [of ?y0 7 "\<lambda>_. True" "''id''" 5 "[]" 0 True cv1 "''hello''"] g by simp
  moreover have "chat_flow ?y1 ?y2" using chat_flow.claim [of ?y1 7 0 "''hello''" cv2] c by simp
  moreover have "chat_flow ?y2 ?y3" using chat_flow.begins [of ?y2 7 0 "''hello''" 6 "[user_message ''hello'']" cv3] b by simp
  ultimately have r: "sessions_reachable ?y3" using sessions_reachable.step by metis
  show ?thesis using chat_turns_serialised [OF r, of 0] r l by (intro exI [of _ ?y3]) simp
qed

end
