(* ===== verification/Chat_Breaker.thy ===== *)
theory Chat_Breaker
  imports Chat_Flow
begin

text \<open>
  What chat requests do to the circuit breaker that they share with the analyses of the manager: turns that the provider
  never saw count against it, and a stream that breaks during the probe leaves it half open.
\<close>

section \<open>Requests keep the server\<close>

lemma chat_ops_server [simp]:
  "cv_server (update_session i f cv) = cv_server cv" "cv_server (release_session i cv) = cv_server cv"
  "cv_server (commit_turn i t cv) = cv_server cv"
  by (simp_all add: update_session_def release_session_def commit_turn_def)

lemma chat_manager_server: "cv_server cv' = cv_server cv \<Longrightarrow> chat_manager cv' = chat_manager cv"
  by (simp add: chat_manager_def)

lemma chat_manager_ops [simp]:
  "chat_manager (release_session i cv) = chat_manager cv" "chat_manager (commit_turn i t cv) = chat_manager cv"
  "chat_manager (put_manager m cv) = Some m"
  by (simp_all add: chat_manager_def put_manager_def)

lemma getOrCreate_server: "getOrCreateChatSession uuid_ok fresh now sid cv = (r, cv') \<Longrightarrow> cv_server cv' = cv_server cv"
  by (auto simp: getOrCreateChatSession_def Let_def split: if_splits option.splits)

lemma claim_server: "claim_session i cv = Some cv' \<Longrightarrow> cv_server cv' = cv_server cv"
  by (auto simp: claim_session_def split: if_splits)

lemma begin_server: "begin_turn now i msg cv = (r, cv') \<Longrightarrow> cv_server cv' = cv_server cv"
  by (auto simp: begin_turn_def Let_def split: if_splits)

text \<open>A request whose stream holds an event of the agent, or that sent anything to the provider, has run a turn.\<close>

definition agent_spoke :: "stream_event list \<Rightarrow> bool" where
  "agent_spoke evs \<longleftrightarrow> list_ex (\<lambda>e. case e of AgentEvent x \<Rightarrow> True | _ \<Rightarrow> False) evs"

lemma end_stream_silent:
  "\<not> agent_spoke before \<Longrightarrow> end_stream env before msg sid = ChatStream evs sent \<Longrightarrow> \<not> agent_spoke evs \<and> sent = []"
  by (auto simp: end_stream_def agent_spoke_def split: if_splits)

lemma spoken_turn:
  assumes "handleChat env verb b cv = Some (ChatStream evs sent, cv')" "agent_spoke evs \<or> sent \<noteq> []"
  obtains cluster before i msgs cv1 cv2 cv3 where "chat_manager cv1 = chat_manager cv" "gate_turn (ce_allow env) cv1 = (True, cv2)"
    "run_chat_turn env cluster before i msgs cv2 = Some (ChatStream evs sent, cv3)" "cv' = release_session i cv3"
    "\<not> agent_spoke before"
proof -
  obtain req msg where req: "decode_chat b = Inr req" "chat_message (cq_Message req) = Inr msg"
    using assms(1) by (auto simp: handleChat_def Let_def split: if_splits sum.splits prod.splits)
  let ?cluster = "trim_space (cq_ClusterID req)"
  obtain i created cva cvb cv3 where g: "getOrCreateChatSession (ce_uuid_ok env) (ce_fresh env) (ce_created env) (cq_SessionID req) cv =
        (Inr (i, created), cva)" "claim_session i cva = Some cvb"
      "converse_in env ?cluster msg i created cvb = Some (ChatStream evs sent, cv3)" "cv' = release_session i cv3"
    using assms(1) req by (auto simp: handleChat_def Let_def split: if_splits sum.splits prod.splits option.splits)
  let ?before = "if created then [SessionEvent (se_ID (cv_heap cvb ! i))] else []"
  have quiet: "\<not> agent_spoke ?before" by (simp add: agent_spoke_def)
  obtain ms cvc where bt: "begin_turn (ce_accessed env) i msg cvb = (ms, cvc)" by fastforce
  have "\<exists>ms' cvd. ms = Some ms' \<and> gate_turn (ce_allow env) cvc = (True, cvd) \<and>
      run_chat_turn env ?cluster ?before i ms' cvd = Some (ChatStream evs sent, cv3)"
    using g(3) bt assms(2) end_stream_silent [OF quiet] quiet
    by (fastforce simp: converse_in_def Let_def split: if_splits option.splits prod.splits)
  then obtain ms' cvd where r: "gate_turn (ce_allow env) cvc = (True, cvd)"
      "run_chat_turn env ?cluster ?before i ms' cvd = Some (ChatStream evs sent, cv3)" by blast
  have "chat_manager cvc = chat_manager cv"
    using chat_manager_server getOrCreate_server [OF g(1)] claim_server [OF g(2)] begin_server [OF bt] by metis
  then show ?thesis using that r g(4) quiet by blast
qed

text \<open>What the turn leaves of the manager.\<close>

lemma turn_manager:
  assumes "run_chat_turn env cluster before i msgs cv = Some (ChatStream evs sent, cv')" "chat_manager cv = Some m"
  obtains a t err where "RunTurn (ce_decoders env) (turn_rounds env cluster before) a msgs = (t, err)"
    "evs = before @ map AgentEvent (tu_events t)" "sent = tu_sent t"
    "chat_manager cv' = Some (let m1 = m\<lparr>mg_budget := ca_budget (tu_agent t)\<rparr> in
       if stream_failed env before (tu_events t) then m1
       else case err of None \<Rightarrow> snd (RecordChatTurnSuccess m1)
         | Some e \<Rightarrow> if tx_Canceled e then m1 else snd (RecordChatTurnFailure (ce_failure env) m1))"
proof -
  obtain a where a: "chat_agent cv = Some a" using assms(1) by (auto simp: run_chat_turn_def)
  obtain t err where t: "RunTurn (ce_decoders env) (turn_rounds env cluster before) a msgs = (t, err)" by fastforce
  have e: "evs = before @ map AgentEvent (tu_events t)" "sent = tu_sent t"
    and c: "cv' = report_turn (ce_failure env) (stream_failed env before (tu_events t)) err (commit_turn i t (charge_manager (tu_agent t) cv))"
    using assms(1) a t by (simp_all add: run_chat_turn_def Let_def)
  have "chat_manager (commit_turn i t (charge_manager (tu_agent t) cv)) = Some (m\<lparr>mg_budget := ca_budget (tu_agent t)\<rparr>)"
    using assms(2) by (simp add: charge_manager_def)
  then have "chat_manager cv' = Some (let m1 = m\<lparr>mg_budget := ca_budget (tu_agent t)\<rparr> in
       if stream_failed env before (tu_events t) then m1
       else case err of None \<Rightarrow> snd (RecordChatTurnSuccess m1)
         | Some e \<Rightarrow> if tx_Canceled e then m1 else snd (RecordChatTurnFailure (ce_failure env) m1))"
    by (simp add: c report_turn_def Let_def split: option.split)
  then show ?thesis using that t e by blast
qed

section \<open>Turns refused by a budget\<close>

definition budget_event :: ChatEvent where
  "budget_event = ChatEventError ''Token budget exceeded. Please try again later.''"

lemma reserve_not_canceled:
  assumes "reserve_round now n a = (Some (msg, e), a')"
  shows "\<not> tx_Canceled e"
proof -
  obtain e1 b e2 cb where "TryConsume now n (ca_budget a) = (e1, b)" "TryChatConsume n (ca_chatBudget a) = (e2, cb)" by fastforce
  then show ?thesis using assms by (cases e1; cases e2) (auto simp: reserve_round_def plain_error_def)
qed

lemma budget_event_cases:
  assumes "turn_round dec rd t = Inl (t', err)" "budget_event \<in> set (tu_events t')" "budget_event \<notin> set (tu_events t)"
  shows "\<exists>e. err = Some e \<and> \<not> tx_Canceled e"
proof -
  obtain r where r: "turn_round dec rd t = r" "r = Inl (t', err)" using assms(1) by blast
  from r(1) show ?thesis
  proof (cases rule: turn_round_cases)
    case (refused msg e a)
    then show ?thesis using reserve_not_canceled [OF refused(1)] r(2) by (simp add: fail_turn_def)
  qed (use r(2) assms(2,3) in \<open>auto simp: fail_turn_def budget_event_def\<close>)
qed

lemma rounds_budget_event:
  "run_rounds dec env n i t = (t', err) \<Longrightarrow> budget_event \<in> set (tu_events t') \<Longrightarrow> budget_event \<notin> set (tu_events t) \<Longrightarrow>
     \<exists>e. err = Some e \<and> \<not> tx_Canceled e"
proof (induction dec env n i t rule: run_rounds.induct)
  case (1 dec env i t)
  then show ?case by (auto simp: fail_turn_def budget_event_def)
next
  case (2 dec env n i t)
  obtain r where r: "turn_round dec (env i) t = r" by blast
  show ?case
  proof (cases r)
    case (Inl x)
    then show ?thesis using "2.prems" r budget_event_cases [of dec "env i" t] by (cases x) auto
  next
    case (Inr t1)
    have "budget_event \<notin> set (tu_events t1)"
      using r
    proof (cases rule: turn_round_cases)
      case (called a content calls k sent t2 outs)
      then show ?thesis using Inr "2.prems"(3) by (auto simp: budget_event_def call_events_def)
    qed (use Inr in simp_all)
    then show ?thesis using "2.IH" [OF r [unfolded Inr]] "2.prems"(1,2) r Inr by simp
  qed
qed

text \<open>The events of the stream are all written.\<close>

definition stream_safe :: "chat_env \<Rightarrow> bool" where
  "stream_safe env \<longleftrightarrow> (\<forall>before e. event_writable env before e)"

definition budget_refused :: "chat_result \<Rightarrow> bool" where
  "budget_refused r = (case r of ChatStream evs sent \<Rightarrow> AgentEvent budget_event \<in> set evs | ChatError code e \<Rightarrow> False)"

lemma gate_manager:
  assumes "gate_turn now cv = (True, cv')" "chat_manager cv = Some m" "mg_cb m = Some cb"
  shows "chat_manager cv' = Some (m\<lparr>mg_cb := Some (snd (snd (Allow now cb)))\<rparr>)"
  using assms by (auto simp: gate_turn_def AllowChatTurn_def cb_allow_def Let_def split: prod.splits if_splits)

lemma refused_chat:
  assumes "handleChat env verb b cv = Some (r, cv')" "budget_refused r" "stream_safe env"
    and "chat_manager cv = Some m" "mg_cb m = Some cb" "cb_state cb = CircuitClosed"
  shows "\<exists>m'. chat_manager cv' = Some m' \<and> mg_cb m' = Some (snd (RecordFailure (ce_failure env) cb))"
proof -
  obtain evs sent where r: "r = ChatStream evs sent" "AgentEvent budget_event \<in> set evs"
    using assms(2) by (auto simp: budget_refused_def split: chat_result.splits)
  then have "agent_spoke evs" by (auto simp: agent_spoke_def list_ex_iff intro: bexI [of _ "AgentEvent budget_event"])
  then obtain cluster before i msgs cv1 cv2 cv3 where s: "chat_manager cv1 = chat_manager cv" "gate_turn (ce_allow env) cv1 = (True, cv2)"
    "run_chat_turn env cluster before i msgs cv2 = Some (ChatStream evs sent, cv3)" "cv' = release_session i cv3"
    "\<not> agent_spoke before"
    using spoken_turn assms(1) r(1) by metis
  have "chat_manager cv2 = Some (m\<lparr>mg_cb := Some cb\<rparr>)"
    using gate_manager [OF s(2)] s(1) assms(4-6) by (simp add: Allow_def)
  then obtain a t err where t: "RunTurn (ce_decoders env) (turn_rounds env cluster before) a msgs = (t, err)"
      "evs = before @ map AgentEvent (tu_events t)"
      "chat_manager cv3 = Some (let m1 = m\<lparr>mg_cb := Some cb\<rparr>\<lparr>mg_budget := ca_budget (tu_agent t)\<rparr> in
       if stream_failed env before (tu_events t) then m1
       else case err of None \<Rightarrow> snd (RecordChatTurnSuccess m1)
         | Some e \<Rightarrow> if tx_Canceled e then m1 else snd (RecordChatTurnFailure (ce_failure env) m1))"
    using turn_manager [OF s(3)] by metis
  have "AgentEvent budget_event \<notin> set before" using s(5) by (auto simp: agent_spoke_def list_ex_iff)
  then have ev: "budget_event \<in> set (tu_events t)" using r(2) t(2) by auto
  have "\<not> stream_failed env before (tu_events t)" using assms(3) by (simp add: stream_safe_def stream_failed_def list_ex_iff)
  moreover obtain e where "err = Some e" "\<not> tx_Canceled e"
  proof (cases "ca_providerName a \<in> {ProviderNameOpenAI, ProviderNameAnthropic}")
    case True
    then show ?thesis
      using that rounds_budget_event [of "ce_decoders env" "turn_rounds env cluster before" _ 0 "start_turn a msgs" t err] t(1) ev
      by (auto simp: RunTurn_def start_turn_def)
  next
    case False
    then show ?thesis using t(1) ev by (auto simp: RunTurn_def start_turn_def)
  qed
  ultimately show ?thesis
    using t(3) s(4) by (simp add: RecordChatTurnFailure_def cb_failure_def Let_def case_prod_unfold)
qed

text \<open>Requests one after another.\<close>

fun run_chats :: "(chat_env \<times> string \<times> chat_input) list \<Rightarrow> chat_server \<Rightarrow> (chat_result list \<times> chat_server) option" where
  "run_chats [] cv = Some ([], cv)"
| "run_chats ((env, verb, b) # reqs) cv =
     (case handleChat env verb b cv of
        None \<Rightarrow> None
      | Some (r, cv1) \<Rightarrow> map_option (\<lambda>(rs, cv2). (r # rs, cv2)) (run_chats reqs cv1))"

lemma refusals_fail:
  assumes "run_chats reqs cv = Some (rs, cv')" "list_all budget_refused rs" "list_all (stream_safe \<circ> fst) reqs"
    and "chat_manager cv = Some m" "mg_cb m = Some cb" "cb_state cb = CircuitClosed"
    and "consecutiveFailures cb = int k" "int (k + length reqs) \<le> failureThreshold cb" "in_int64 (failureThreshold cb)"
  shows "\<exists>m' cb'. chat_manager cv' = Some m' \<and> mg_cb m' = Some cb' \<and>
    cb_state cb' = (if reqs \<noteq> [] \<and> int (k + length reqs) = failureThreshold cb then CircuitOpen else CircuitClosed)"
  using assms
proof (induction reqs arbitrary: cv rs m cb k)
  case (Cons q reqs)
  obtain env verb b where q: "q = (env, verb, b)" by (metis prod_cases3)
  obtain r cv1 rs1 where s: "handleChat env verb b cv = Some (r, cv1)" "run_chats reqs cv1 = Some (rs1, cv')" "rs = r # rs1"
    using Cons.prems(1) q by (auto split: option.splits)
  let ?cb = "snd (RecordFailure (ce_failure env) cb)"
  obtain m1 where m1: "chat_manager cv1 = Some m1" "mg_cb m1 = Some ?cb"
    using refused_chat [OF s(1) _ _ Cons.prems(4,5,6)] Cons.prems(2,3) s(3) q by auto
  have w: "wrap64 (int k + 1) = int (k + 1)"
    using Cons.prems(8,9) by (subst wrap64_id) (auto simp: in_int64_def)
  have cb: "consecutiveFailures ?cb = int (k + 1)" "failureThreshold ?cb = failureThreshold cb"
      "cb_state ?cb = (if int (k + 1) \<ge> failureThreshold cb then CircuitOpen else CircuitClosed)"
    using Cons.prems(6,7) w by (auto simp: RecordFailure_def setStateLocked_def Let_def)
  show ?case
  proof (cases "reqs = []")
    case True
    then show ?thesis using s(2) m1 cb(3) Cons.prems(8) by auto
  next
    case False
    then have "int (k + 1) < failureThreshold cb" using Cons.prems(8) by (cases reqs) auto
    then have "cb_state ?cb = CircuitClosed" using cb(3) by simp
    from Cons.IH [OF s(2) _ _ m1 this cb(1)] show ?thesis
      using Cons.prems(2,3,8,9) s(3) cb(2) False by simp
  qed
qed simp

lemma open_denies:
  assumes "Analyze digest env request m = (res, evs, m')" "mg_cb m = Some cb" "cb_state cb = CircuitOpen"
    and "time_sub (at_allow env) (lastFailureTime cb) < resetTimeout cb"
  shows "\<not> called_provider evs"
proof -
  have deny: "cb_allow prev (at_allow env) (mg_cb m) = (False, [], mg_cb m)" for prev
    using assms(2-4) by (simp add: cb_allow_def Allow_def on_transition_def)
  from assms(1) show ?thesis
  proof (cases rule: Analyze_cases)
    case (missed p evs1)
    from missed(3) show ?thesis
    proof (cases rule: analyze_uncached_cases)
      case (called b evs1' cb1 out calls cb' evs2)
      then show ?thesis using deny by simp
    next
      case (denied b cb1)
      then show ?thesis using missed(4) deny by simp
    qed (use missed(4) in simp)
  qed simp_all
qed

text \<open>Turns that a budget refuses count as failures of the provider: as many of them as the breaker tolerates failures
  open it, although nothing the provider did has failed, and until the timeout no analysis of the manager reaches the
  provider either.\<close>

theorem budget_refusals_open_breaker:
  assumes "run_chats reqs cv = Some (rs, cv')" "list_all budget_refused rs" "list_all (stream_safe \<circ> fst) reqs" "reqs \<noteq> []"
    and "chat_manager cv = Some m" "mg_cb m = Some cb" "cb_state cb = CircuitClosed"
    and "consecutiveFailures cb = int k" "failureThreshold cb = int (k + length reqs)" "in_int64 (failureThreshold cb)"
    and "chat_manager cv' = Some m'" "mg_cb m' = Some cb'" "Analyze digest env request m' = (res, evs, m'')"
    and "time_sub (at_allow env) (lastFailureTime cb') < resetTimeout cb'"
  shows "cb_state cb' = CircuitOpen \<and> \<not> called_provider evs"
proof -
  have "cb_state cb' = CircuitOpen"
    using refusals_fail [OF assms(1-3,5-8)] assms(4,9-12) by auto
  then show ?thesis using open_denies [OF assms(13,12)] assms(14) by blast
qed

section \<open>A stream that breaks during the probe\<close>

text \<open>A half-open breaker lets no chat request run a turn.\<close>

lemma wedged_chat:
  assumes "handleChat env verb b cv = Some (ChatStream evs sent, cv')" "chat_manager cv = Some m" "wedged m"
  shows "\<not> agent_spoke evs \<and> sent = []"
proof (rule ccontr)
  assume "\<not> (\<not> agent_spoke evs \<and> sent = [])"
  then have "agent_spoke evs \<or> sent \<noteq> []" by blast
  then obtain cluster before i msgs cv1 cv2 cv3 where s: "chat_manager cv1 = chat_manager cv" "gate_turn (ce_allow env) cv1 = (True, cv2)"
    using spoken_turn assms(1) by metis
  then show False using assms(2) wedged_allow [OF assms(3)] by (simp add: gate_turn_def AllowChatTurn_def)
qed

lemma failed_stream:
  assumes "n < length evs" "\<not> event_writable env (before @ map AgentEvent (take n evs)) (AgentEvent (evs ! n))"
  shows "stream_failed env before evs"
  using assms by (auto simp: stream_failed_def list_ex_iff)

text \<open>C28. When the breaker is open and the timeout has passed, a chat request is let through as the probe. If an event of its
  turn cannot be written, because the client is gone or because a tool was called with arguments that are not JSON, the
  result of the probe is never reported: the breaker stays half open through any sequence of analyses and chat turns,
  none of which reaches the provider again; and a chat request served by a server with the manager in that state, in
  whatever session, streams no event of a turn and sends nothing to the provider.\<close>

theorem broken_stream_wedges_manager:
  assumes "handleChat env verb b cv = Some (ChatStream evs sent, cv')"
    and "chat_manager cv = Some m" "mg_cb m = Some cb" "cb_state cb = CircuitOpen"
    and "time_sub (ce_allow env) (lastFailureTime cb) \<ge> resetTimeout cb"
    and "n < length evs" "evs ! n = AgentEvent x" "\<not> event_writable env (take n evs) (AgentEvent x)"
    and "chat_manager cv' = Some m'" "manager_run digest calls m' = (evs', m'')"
  shows "map_option cb_state (mg_cb m'') = Some CircuitHalfOpen \<and> \<not> called_provider evs' \<and>
    (if chat_manager later = Some m'' \<and> handleChat env' verb' b' later = Some (ChatStream evs'' sent'', later')
     then \<not> agent_spoke evs'' \<and> sent'' = [] else True)"
proof -
  have "AgentEvent x \<in> set evs" using assms(6,7) by (metis nth_mem)
  then have "agent_spoke evs" by (auto simp: agent_spoke_def list_ex_iff intro: bexI [of _ "AgentEvent x"])
  then obtain cluster before i msgs cv1 cv2 cv3 where s: "chat_manager cv1 = chat_manager cv" "gate_turn (ce_allow env) cv1 = (True, cv2)"
    "run_chat_turn env cluster before i msgs cv2 = Some (ChatStream evs sent, cv3)" "cv' = release_session i cv3"
    "\<not> agent_spoke before"
    using spoken_turn [OF assms(1)] by metis
  let ?m = "m\<lparr>mg_cb := Some (snd (snd (Allow (ce_allow env) cb)))\<rparr>"
  have g: "chat_manager cv2 = Some ?m" using gate_manager [OF s(2)] s(1) assms(2,3) by simp
  obtain a t err where t0: "RunTurn (ce_decoders env) (turn_rounds env cluster before) a msgs = (t, err)"
    and t: "evs = before @ map AgentEvent (tu_events t)" and "sent = tu_sent t" and t2:
      "chat_manager cv3 = Some (let m1 = ?m\<lparr>mg_budget := ca_budget (tu_agent t)\<rparr> in
       if stream_failed env before (tu_events t) then m1
       else case err of None \<Rightarrow> snd (RecordChatTurnSuccess m1)
         | Some e \<Rightarrow> if tx_Canceled e then m1 else snd (RecordChatTurnFailure (ce_failure env) m1))"
    by (rule turn_manager [OF s(3) g])
  have "length before \<le> n"
  proof (rule ccontr)
    assume "\<not> length before \<le> n"
    then have "AgentEvent x \<in> set before" using assms(7) t by (metis linorder_not_le nth_append nth_mem)
    then show False using s(5) by (auto simp: agent_spoke_def list_ex_iff)
  qed
  then have "stream_failed env before (tu_events t)"
    using assms(6-8) t by (intro failed_stream [of "n - length before"]) (auto simp: nth_append take_map)
  then have "chat_manager cv' = Some (?m\<lparr>mg_budget := ca_budget (tu_agent t)\<rparr>)" using t2 s(4) by simp
  then have "wedged m'"
    using assms(4,5,9) by (auto simp: wedged_def Allow_def setStateLocked_def Let_def)
  then have "wedged m''" "\<not> called_provider evs'" using wedged_run assms(10) by blast+
  then show ?thesis using wedged_chat [of env' verb' b' later evs'' sent'' later' m''] by (auto simp: wedged_def)
qed

section \<open>Examples\<close>

text \<open>A server whose manager has a budget that no turn fits in, and requests whose events are written as \<open>w\<close> says.\<close>

definition ex_broke_manager :: "CircuitBreaker \<Rightarrow> Manager" where
  "ex_broke_manager cb = NewManager (Some (OpenAIProvider \<lparr>hp_apiKey = ''key'', hp_endpoint = [], hp_model = [],
     hp_maxTokens = 1, hp_timeout = 1\<rparr>)) None True
     (NewBudget 0 [\<lparr>bw_Name = ''daily'', bw_Duration = 100, bw_Limit = 10\<rparr>]) None (Some cb)"

definition ex_broke_server :: "CircuitBreaker \<Rightarrow> chat_server" where
  "ex_broke_server cb = ex_chat_server \<lparr>sv_clusters = Map.empty, sv_clients = [], sv_provider = Some (Managed (ex_broke_manager cb)),
     sv_enabled = True, sv_config = DefaultConfig, sv_queue = None, sv_historySize = 10, sv_maxIssues = 15, sv_maxClients = 0\<rparr>"

definition ex_chat_codec :: chat_codec where
  "ex_chat_codec = \<lparr>co_filters = (\<lambda>_. Inr ([], [], [])), co_explain = (\<lambda>_. Inl ''no arguments''), co_issues = (\<lambda>_. ''issues''),
     co_texts = (\<lambda>_. ''texts''), co_summary = (\<lambda>_. ''summary''), co_enhancement = (\<lambda>_. ''advice''), co_results = id,
     co_checkers = (\<lambda>_. [])\<rparr>"

definition ex_chat_env :: "(stream_event list \<Rightarrow> stream_event \<Rightarrow> bool) \<Rightarrow> chat_env" where
  "ex_chat_env w = \<lparr>ce_uuid_ok = (\<lambda>_. True), ce_fresh = ''id'', ce_created = 10, ce_accessed = 10, ce_allow = 10, ce_failure = 10,
     ce_writes = w, ce_decoders = ex_chat_decoders, ce_rounds = ex_rounds, ce_codec = ex_chat_codec,
     ce_servers = (\<lambda>_ _. cv_server (ex_broke_server open_breaker))\<rparr>"

definition ex_chat_request :: "chat_input" where
  "ex_chat_request = ChatInput \<lparr>cq_SessionID = [], cq_Message = ''hello'', cq_ClusterID = []\<rparr>"

lemma reserved_bounds: "500 \<le> reserved_tokens a msgs" "in_int64 (reserved_tokens a msgs)"
  using wrap64_range [of "estimateMessageTokens msgs + ca_maxTokens a"]
  by (auto simp: reserved_tokens_def minChatTurnReservationTokens_def in_int64_def)

lemma ex_broke_refuses:
  assumes "ca_budget a = mg_budget (ex_broke_manager cb)"
  shows "\<exists>e. reserve_round 10 (reserved_tokens a' msgs) a = (Some (''Token budget exceeded. Please try again later.'', e), a)"
  using reserved_bounds [of a' msgs] assms
  by (cases a) (auto simp: reserve_round_def ex_broke_manager_def NewManager_def NewBudget_def TryConsume_def window_expired_def
      time_sub_def wrap64_id Let_def)

lemma ex_hello: "\<exists>msg. chat_message ''hello'' = Inr msg"
proof -
  have "trim_space ''hello'' = ''hello''" by (rule trim_space_values)
  then show ?thesis by (simp add: chat_message_def maxChatMessageLen_def)
qed

lemma ex_broke_run:
  assumes "before = [SessionEvent ''id'']" "chat_manager cv = Some m" "mg_budget m = mg_budget (ex_broke_manager cb)"
    "cv_providerName cv = ''openai''" "cv_maxTurns cv = 3" "cv_aiModel cv = []"
  shows "\<exists>cv'. run_chat_turn (ex_chat_env w) [] before i msgs cv =
    Some (ChatStream [SessionEvent ''id'', AgentEvent budget_event, AgentEvent (ChatEventDone 0)] [], cv')"
proof -
  obtain a where a: "chat_agent cv = Some a" "ca_budget a = mg_budget (ex_broke_manager cb)" "ca_providerName a = ProviderNameOpenAI"
      "ca_maxIterations a = 3"
    using assms(2-6) by (simp add: chat_agent_def Let_def SetMaxIterations_def NewChatAgent_def SetBudget_def ProviderNameOpenAI_def)
  obtain e where e: "reserve_round 10 (reserved_tokens a msgs) a = (Some (''Token budget exceeded. Please try again later.'', e), a)"
    using ex_broke_refuses [OF a(2)] by blast
  have "rd_context (turn_rounds (ex_chat_env w) [] before 0) [] = None" "rd_consume (turn_rounds (ex_chat_env w) [] before 0) = 10"
    by (simp_all add: stream_failed_def turn_rounds_def ex_chat_env_def ex_rounds_def)
  then have "run_rounds (ce_decoders (ex_chat_env w)) (turn_rounds (ex_chat_env w) [] before) (Suc 2) 0 (start_turn a msgs) =
      fail_turn ''Token budget exceeded. Please try again later.'' e (start_turn a msgs)"
    unfolding run_rounds.simps using e by (simp add: turn_round_def start_turn_def Let_def fail_turn_def)
  then have "RunTurn (ce_decoders (ex_chat_env w)) (turn_rounds (ex_chat_env w) [] before) a msgs =
      fail_turn ''Token budget exceeded. Please try again later.'' e (start_turn a msgs)"
    using a(3,4) by (simp add: RunTurn_def numeral_eq_Suc)
  then show ?thesis using a(1) assms(1) by (simp add: run_chat_turn_def fail_turn_def start_turn_def budget_event_def)
qed

lemma ex_broke_parts [simp]:
  "mg_enabled (ex_broke_manager cb)" "mg_cb (ex_broke_manager cb) = Some (cb\<lparr>onStateChange := True\<rparr>)"
  "Available (ex_broke_manager cb) = Some True" "chat_manager (ex_broke_server cb) = Some (ex_broke_manager cb)"
  by (simp_all add: ex_broke_manager_def NewManager_def Available_def Let_def chat_manager_def ex_broke_server_def ex_chat_server_def)

lemma ex_broke_chat:
  assumes "w [] (SessionEvent ''id'')" "fst (Allow 10 (cb\<lparr>onStateChange := True\<rparr>))"
  shows "\<exists>cv'. handleChat (ex_chat_env w) ''POST'' ex_chat_request (ex_broke_server cb) =
    Some (ChatStream [SessionEvent ''id'', AgentEvent budget_event, AgentEvent (ChatEventDone 0)] [], cv')"
proof -
  obtain msg where m: "chat_message ''hello'' = Inr msg" using ex_hello by blast
  have t: "trim_space [] = []" by (rule trim_space_values)
  have u: "chat_unavailable (ex_broke_server cb) = Some None" "\<not> many_clusters (cv_server (ex_broke_server cb))"
    by (simp_all add: chat_unavailable_def many_clusters_def ex_broke_server_def ex_chat_server_def)
  define cv1 where "cv1 = snd (getOrCreateChatSession (\<lambda>_. True) ''id'' 10 [] (ex_broke_server cb))"
  define cv2 where "cv2 = the (claim_session 0 cv1)"
  define cv3 where "cv3 = snd (begin_turn 10 0 msg cv2)"
  have g: "getOrCreateChatSession (\<lambda>_. True) ''id'' 10 [] (ex_broke_server cb) = (Inr (0, True), cv1)"
    and c: "claim_session 0 cv1 = Some cv2" and b: "begin_turn 10 0 msg cv2 = (Some [user_message msg], cv3)"
    and s: "se_ID (cv_heap cv2 ! 0) = ''id''" and v: "cv_providerName cv3 = ''openai''" "cv_maxTurns cv3 = 3" "cv_aiModel cv3 = []"
    by (simp_all add: cv1_def cv2_def cv3_def getOrCreateChatSession_def ex_broke_server_def ex_chat_server_def claim_session_def
        begin_turn_def update_session_def Let_def)
  have "chat_manager cv3 = Some (ex_broke_manager cb)"
    using chat_manager_server getOrCreate_server [OF g] claim_server [OF c] begin_server [OF b] by (metis ex_broke_parts(4))
  then obtain cv4 m where a: "gate_turn 10 cv3 = (True, cv4)" "chat_manager cv4 = Some m" "mg_budget m = mg_budget (ex_broke_manager cb)"
      "cv_providerName cv4 = ''openai''" "cv_maxTurns cv4 = 3" "cv_aiModel cv4 = []"
    using assms(2) v by (cases "Allow 10 (cb\<lparr>onStateChange := True\<rparr>)")
      (auto simp: gate_turn_def AllowChatTurn_def cb_allow_def put_manager_def chat_manager_def Let_def)
  obtain cv5 where "run_chat_turn (ex_chat_env w) [] [SessionEvent ''id''] 0 [user_message msg] cv4 =
      Some (ChatStream [SessionEvent ''id'', AgentEvent budget_event, AgentEvent (ChatEventDone 0)] [], cv5)"
    using ex_broke_run [OF refl a(2-6)] by blast
  moreover have "event_writable (ex_chat_env w) [] (SessionEvent ''id'')"
    using assms(1) by (simp add: event_writable_def ex_chat_env_def)
  ultimately have "converse_in (ex_chat_env w) [] msg 0 True cv2 =
      Some (ChatStream [SessionEvent ''id'', AgentEvent budget_event, AgentEvent (ChatEventDone 0)] [], cv5)"
    using b s a(1) by (simp add: converse_in_def ex_chat_env_def)
  then show ?thesis
    using m t u g c by (simp add: handleChat_def ex_chat_request_def decode_chat_def ex_chat_env_def)
qed

lemma spoken_manager:
  assumes "handleChat env verb b cv = Some (ChatStream evs sent, cv')" "agent_spoke evs" "chat_manager cv = Some m" "mg_cb m = Some cb"
  shows "\<exists>m'. chat_manager cv' = Some m'"
proof -
  obtain cluster before i msgs cv1 cv2 cv3 where s: "chat_manager cv1 = chat_manager cv" "gate_turn (ce_allow env) cv1 = (True, cv2)"
    "run_chat_turn env cluster before i msgs cv2 = Some (ChatStream evs sent, cv3)" "cv' = release_session i cv3"
    using spoken_turn [OF assms(1)] assms(2) by metis
  have "chat_manager cv2 \<noteq> None" using gate_manager [OF s(2)] s(1) assms(3,4) by simp
  then show ?thesis using turn_manager [OF s(3)] s(4) by (metis chat_manager_ops(1) not_None_eq)
qed

lemma budget_refusals_open_breaker_witness:
  "\<exists>r cv' m' cb' res evs m''. run_chats [(ex_chat_env (\<lambda>_ _. True), ''POST'', ex_chat_request)] (ex_broke_server (NewCircuitBreaker 1 60 False)) =
      Some ([r], cv') \<and> budget_refused r \<and> chat_manager cv' = Some m' \<and> mg_cb m' = Some cb' \<and> cb_state cb' = CircuitOpen \<and>
    Analyze example_digest example_env example_request m' = (res, evs, m'') \<and> \<not> called_provider evs"
proof -
  let ?w = "\<lambda>_ _. True" and ?cb = "(NewCircuitBreaker 1 60 False)\<lparr>onStateChange := True\<rparr>"
  let ?env = "ex_chat_env ?w" and ?cv = "ex_broke_server (NewCircuitBreaker 1 60 False)"
  let ?r = "ChatStream [SessionEvent ''id'', AgentEvent budget_event, AgentEvent (ChatEventDone 0)] []"
  obtain cv' where h: "handleChat ?env ''POST'' ex_chat_request ?cv = Some (?r, cv')"
    using ex_broke_chat [of ?w "NewCircuitBreaker 1 60 False"] by (auto simp: Allow_def NewCircuitBreaker_def)
  have run: "run_chats [(?env, ''POST'', ex_chat_request)] ?cv = Some ([?r], cv')" using h by simp
  have refused: "budget_refused ?r" by (simp add: budget_refused_def)
  have safe: "stream_safe ?env"
    by (auto simp: stream_safe_def event_writable_def ex_chat_env_def ex_chat_decoders_def split: stream_event.split ChatEvent.split)
  obtain m' where m': "chat_manager cv' = Some m'" "mg_cb m' = Some (snd (RecordFailure 10 ?cb))"
    using refused_chat [OF h refused safe ex_broke_parts(4,2)] by (auto simp: NewCircuitBreaker_def ex_chat_env_def)
  let ?cb' = "snd (RecordFailure 10 ?cb)"
  obtain res evs m'' where a: "Analyze example_digest example_env example_request m' = (res, evs, m'')" by (metis prod_cases3)
  have "cb_state ?cb' = CircuitOpen \<and> \<not> called_provider evs"
    by (rule budget_refusals_open_breaker [OF run _ _ _ ex_broke_parts(4) ex_broke_parts(2) _ _ _ _ m' a, where k = 0])
      (use refused safe in \<open>simp_all add: NewCircuitBreaker_def RecordFailure_def setStateLocked_def example_env_def time_sub_def
        in_int64_def Let_def\<close>)
  then show ?thesis using run refused m' a by blast
qed

lemma broken_stream_wedges_manager_witness:
  "\<exists>evs cv' m' evs' m''. handleChat (ex_chat_env (\<lambda>_ e. e = SessionEvent ''id'')) ''POST'' ex_chat_request (ex_broke_server open_breaker) =
      Some (ChatStream evs [], cv') \<and> chat_manager cv' = Some m' \<and>
    manager_run example_digest [AnalyzeCall (example_env\<lparr>at_allow := 999999\<rparr>) example_request, ChatTurnCall 10000000 TurnSucceeded] m' = (evs', m'') \<and>
    map_option cb_state (mg_cb m'') = Some CircuitHalfOpen \<and> \<not> called_provider evs' \<and>
    (case handleChat (ex_chat_env (\<lambda>_ _. True)) ''POST'' ex_chat_request (put_manager m'' cv') of
       Some (ChatStream evs2 sent2, cv2) \<Rightarrow> \<not> agent_spoke evs2 \<and> sent2 = [] | _ \<Rightarrow> True)"
proof -
  let ?w = "\<lambda>_ e. e = SessionEvent ''id''"
  let ?env = "ex_chat_env ?w" and ?cv = "ex_broke_server open_breaker"
  let ?evs = "[SessionEvent ''id'', AgentEvent budget_event, AgentEvent (ChatEventDone 0)]"
  let ?calls = "[AnalyzeCall (example_env\<lparr>at_allow := 999999\<rparr>) example_request, ChatTurnCall 10000000 TurnSucceeded]"
  obtain cv' where h: "handleChat ?env ''POST'' ex_chat_request ?cv = Some (ChatStream ?evs [], cv')"
    using ex_broke_chat [of ?w open_breaker] by (auto simp: Allow_def open_breaker_def setStateLocked_def time_sub_def Let_def)
  obtain m' where m': "chat_manager cv' = Some m'"
    using spoken_manager [OF h _ ex_broke_parts(4,2)] by (auto simp: agent_spoke_def)
  obtain evs' m'' where r: "manager_run example_digest ?calls m' = (evs', m'')" by fastforce
  have "\<not> event_writable ?env (take 1 ?evs) (AgentEvent budget_event)" by (simp add: event_writable_def ex_chat_env_def)
  then have w: "map_option cb_state (mg_cb m'') = Some CircuitHalfOpen \<and> \<not> called_provider evs' \<and>
      (if chat_manager later = Some m'' \<and> handleChat env2 verb2 b2 later = Some (ChatStream evs2 sent2, later')
       then \<not> agent_spoke evs2 \<and> sent2 = [] else True)" for env2 verb2 b2 later evs2 sent2 later'
    by (intro broken_stream_wedges_manager [OF h ex_broke_parts(4) ex_broke_parts(2) _ _ _ _ _ m' r, where n = 1])
      (simp_all add: open_breaker_def ex_chat_env_def time_sub_def)
  have "case handleChat (ex_chat_env (\<lambda>_ _. True)) ''POST'' ex_chat_request (put_manager m'' cv') of
       Some (ChatStream evs2 sent2, cv2) \<Rightarrow> \<not> agent_spoke evs2 \<and> sent2 = [] | _ \<Rightarrow> True"
    using w [of "put_manager m'' cv'" "ex_chat_env (\<lambda>_ _. True)" "''POST''" ex_chat_request]
    by (auto split: option.split prod.split chat_result.split)
  with w show ?thesis using h m' r by blast
qed
end
