(* ===== verification/Prediction.thy ===== *)
theory Prediction
  imports Health_History Go_Text
begin

text \<open>
  The trend of the health score (\<open>internal/prediction/analyzer.go\<close>): a regression line through the history, in double
  precision and in the order of the operations of the code, none of them fused. A score is a finite double, so the test for
  NaN never skips a snapshot.
\<close>

section \<open>Functions of \<open>math\<close>\<close>

text \<open>\<open>math.Sqrt\<close>: the double nearest to the root. The integer root of the argument, scaled so that it has 53 bits, is rounded
  by comparing with the square of its upper half; a tie would need more bits than the argument has.\<close>

fun isqrt :: "int \<Rightarrow> int" where
  "isqrt n = (if n < 1 then 0 else let r = 2 * isqrt (n div 4) in if (r + 1) * (r + 1) \<le> n then r + 1 else r)"

declare isqrt.simps [simp del]

definition fsqrt :: "f64 \<Rightarrow> f64" where
  "fsqrt x =
     (if x \<le> 0 then 0
      else let q = two_to (exponent x div 2 - 52); y = x / (q * q); s = isqrt \<lfloor>y\<rfloor>
        in of_int (if (of_int s + 1 / 2) * (of_int s + 1 / 2) < y then s + 1 else s) * q)"

text \<open>\<open>math.Round\<close>: halves away from zero; and \<open>math.Max(0, math.Min(100, x))\<close>.\<close>

definition fround :: "f64 \<Rightarrow> f64" where
  "fround x = (if x < 0 then - of_int \<lfloor>1 / 2 - x\<rfloor> else of_int \<lfloor>x + 1 / 2\<rfloor>)"

definition clamp :: "f64 \<Rightarrow> f64" where
  "clamp x = max 0 (min 100 x)"

section \<open>The regression line\<close>

definition MinDataPoints :: nat where "MinDataPoints = 5"

record PredictionResult =
  pr_TrendDirection :: string
  pr_Velocity :: f64
  pr_ProjectedScore :: f64
  pr_ConfidenceInterval :: "f64 \<times> f64"
  pr_RSquared :: f64
  pr_DataPoints :: int
  pr_RiskyCheckers :: "string list"
  pr_SeverityTrajectories :: "(string \<times> string) list"

text \<open>The points: seconds since the first snapshot, and scores.\<close>

definition points :: "HealthSnapshot list \<Rightarrow> (f64 \<times> f64) list" where
  "points snaps =
     map (\<lambda>s. (duration_seconds (time_sub (sn_Timestamp s) (sn_Timestamp (hd snaps))), sn_HealthScore s)) snaps"

record totals =
  sm_X :: f64
  sm_Y :: f64
  sm_XY :: f64
  sm_X2 :: f64

definition add_point :: "f64 \<times> f64 \<Rightarrow> totals \<Rightarrow> totals" where
  "add_point = (\<lambda>(x, y) s.
     \<lparr>sm_X = fadd (sm_X s) x, sm_Y = fadd (sm_Y s) y, sm_XY = fadd (sm_XY s) (fmul x y), sm_X2 = fadd (sm_X2 s) (fmul x x)\<rparr>)"

definition point_sums :: "(f64 \<times> f64) list \<Rightarrow> totals" where
  "point_sums ps = fold add_point ps \<lparr>sm_X = 0, sm_Y = 0, sm_XY = 0, sm_X2 = 0\<rparr>"

definition denominator :: "f64 \<Rightarrow> totals \<Rightarrow> f64" where
  "denominator n s = fsub (fmul n (sm_X2 s)) (fmul (sm_X s) (sm_X s))"

definition slope :: "f64 \<Rightarrow> totals \<Rightarrow> f64" where
  "slope n s = fdiv (fsub (fmul n (sm_XY s)) (fmul (sm_X s) (sm_Y s))) (denominator n s)"

definition intercept :: "f64 \<Rightarrow> totals \<Rightarrow> f64" where
  "intercept n s = fdiv (fsub (sm_Y s) (fmul (slope n s) (sm_X s))) n"

text \<open>Sums of squares: of the residuals, and around the mean.\<close>

definition sum_squares :: "(f64 \<times> f64 \<Rightarrow> f64) \<Rightarrow> (f64 \<times> f64) list \<Rightarrow> f64" where
  "sum_squares d ps = foldl (\<lambda>u p. fadd u (fmul (d p) (d p))) 0 ps"

definition ss_res :: "f64 \<Rightarrow> f64 \<Rightarrow> (f64 \<times> f64) list \<Rightarrow> f64" where
  "ss_res b0 b1 = sum_squares (\<lambda>(x, y). fsub y (fadd b0 (fmul b1 x)))"

definition ss_tot :: "f64 \<Rightarrow> (f64 \<times> f64) list \<Rightarrow> f64" where
  "ss_tot mean = sum_squares (\<lambda>(x, y). fsub y mean)"

definition r_squared :: "f64 \<Rightarrow> f64 \<Rightarrow> f64" where
  "r_squared res tot =
     (let r = (if tot > 0 then fsub 1 (fdiv res tot) else 1) in if r < 0 then 0 else r)"

text \<open>The standard error of a prediction at \<open>x\<close>.\<close>

definition prediction_error :: "f64 \<Rightarrow> totals \<Rightarrow> f64 \<Rightarrow> f64 \<Rightarrow> f64" where
  "prediction_error n s res x =
     (let mean = fdiv (sm_X s) n;
          sxx = fsub (sm_X2 s) (fdiv (fmul (sm_X s) (sm_X s)) n);
          sxx' = (if sxx < fl (1 / 10 ^ 10) then fl (1 / 10 ^ 10) else sxx);
          mse = (if n > 2 then fdiv res (fsub n 2) else 0);
          dx = fsub x mean;
          leverage = fadd (fadd 1 (fdiv 1 n)) (fdiv (fmul dx dx) sxx')
      in fmul (fsqrt mse) (fsqrt (if leverage < 1 then 1 else leverage)))"

definition trend_direction :: "f64 \<Rightarrow> string" where
  "trend_direction velocity =
     (if \<bar>velocity\<bar> < 1 / 2 then ''stable'' else if velocity > 0 then ''improving'' else ''degrading'')"

section \<open>Halves of the history\<close>

definition first_half :: "'a list \<Rightarrow> 'a list" where "first_half xs = take (length xs div 2) xs"
definition second_half :: "'a list \<Rightarrow> 'a list" where "second_half xs = drop (length xs div 2) xs"

text \<open>The sum of the counts of a checker; a snapshot without the checker is not visited. \<open>keys\<close> are the checkers of all
  snapshots in the order in which the map of totals is visited.\<close>

definition checker_total :: "string \<Rightarrow> HealthSnapshot list \<Rightarrow> f64" where
  "checker_total name = foldl (\<lambda>u s. case sn_ByChecker s name of None \<Rightarrow> u | Some c \<Rightarrow> fadd u (float64 c)) 0"

definition is_risky :: "HealthSnapshot list \<Rightarrow> string \<Rightarrow> bool" where
  "is_risky snaps name \<longleftrightarrow>
     fdiv (checker_total name (second_half snaps)) (float64 (int (length (second_half snaps)))) >
     fadd (fdiv (checker_total name (first_half snaps)) (float64 (int (length (first_half snaps))))) (1 / 2)"

definition findRiskyCheckers :: "string list \<Rightarrow> HealthSnapshot list \<Rightarrow> string list" where
  "findRiskyCheckers keys snaps = (if length snaps < MinDataPoints then [] else filter (is_risky snaps) keys)"

text \<open>A severity that a snapshot does not have counts as 0.\<close>

definition severity_average :: "string \<Rightarrow> HealthSnapshot list \<Rightarrow> f64" where
  "severity_average sev snaps =
     fdiv (foldl (\<lambda>u s. fadd u (float64 (case sn_BySeverity s sev of None \<Rightarrow> 0 | Some c \<Rightarrow> c))) 0 snaps)
       (float64 (int (length snaps)))"

definition trajectory :: "HealthSnapshot list \<Rightarrow> string \<Rightarrow> string" where
  "trajectory snaps sev =
     (let diff = fsub (severity_average sev (second_half snaps)) (severity_average sev (first_half snaps))
      in if diff > 1 / 2 then ''increasing'' else if diff < - (1 / 2) then ''decreasing'' else ''stable'')"

definition computeSeverityTrajectories :: "HealthSnapshot list \<Rightarrow> (string \<times> string) list" where
  "computeSeverityTrajectories snaps =
     (if length snaps < MinDataPoints then []
      else map (\<lambda>sev. (sev, trajectory snaps sev)) [''Critical'', ''Warning'', ''Info''])"

section \<open>The analysis\<close>

definition flat_result :: "HealthSnapshot list \<Rightarrow> PredictionResult" where
  "flat_result snaps =
     \<lparr>pr_TrendDirection = ''stable'', pr_Velocity = 0, pr_ProjectedScore = sn_HealthScore (last snaps),
      pr_ConfidenceInterval = (0, 0), pr_RSquared = 0, pr_DataPoints = int (length snaps), pr_RiskyCheckers = [],
      pr_SeverityTrajectories = []\<rparr>"

definition line_result :: "string list \<Rightarrow> HealthSnapshot list \<Rightarrow> f64 \<Rightarrow> totals \<Rightarrow> PredictionResult" where
  "line_result keys snaps n s =
     (let ps = points snaps; b1 = slope n s; b0 = intercept n s;
          res = ss_res b0 b1 ps; tot = ss_tot (fdiv (sm_Y s) n) ps;
          velocity = fmul b1 3600; x = fadd (fst (last ps)) 3600; raw = fadd b0 (fmul b1 x);
          margin = fmul (fl (196 / 100)) (prediction_error n s res x)
      in \<lparr>pr_TrendDirection = trend_direction velocity,
          pr_Velocity = fdiv (fround (fmul velocity 100)) 100,
          pr_ProjectedScore = fdiv (fround (fmul (clamp raw) 10)) 10,
          pr_ConfidenceInterval = (clamp (fsub raw margin), clamp (fadd raw margin)),
          pr_RSquared = fdiv (fround (fmul (r_squared res tot) 1000)) 1000,
          pr_DataPoints = int (length snaps),
          pr_RiskyCheckers = findRiskyCheckers keys snaps,
          pr_SeverityTrajectories = computeSeverityTrajectories snaps\<rparr>)"

definition prediction_Analyze :: "string list \<Rightarrow> HealthSnapshot list \<Rightarrow> PredictionResult option" where
  "prediction_Analyze keys snaps =
     (if length snaps < MinDataPoints then None
      else let n = float64 (int (length snaps)); s = point_sums (points snaps)
        in Some (if denominator n s = 0 then flat_result snaps else line_result keys snaps n s))"


section \<open>Roots and roundings\<close>

lemma isqrt_bounds: "0 \<le> n \<Longrightarrow> 0 \<le> isqrt n \<and> isqrt n * isqrt n \<le> n \<and> n < (isqrt n + 1) * (isqrt n + 1)"
proof (induction n rule: isqrt.induct)
  case (1 n)
  show ?case
  proof (cases "n < 1")
    case True
    then show ?thesis using 1(2) by (simp add: isqrt.simps [of n])
  next
    case False
    define s where "s = isqrt (n div 4)"
    have s: "0 \<le> s" "s * s \<le> n div 4" "n div 4 < (s + 1) * (s + 1)" using 1 False by (simp_all add: s_def)
    have "4 * (n div 4) \<le> n" "n < 4 * (n div 4) + 4" by simp_all
    moreover have "(2 * s) * (2 * s) = 4 * (s * s)" "(2 * s + 2) * (2 * s + 2) = 4 * ((s + 1) * (s + 1))"
      by (simp_all add: algebra_simps)
    ultimately have "(2 * s) * (2 * s) \<le> n" "n < (2 * s + 2) * (2 * s + 2)" using s by linarith+
    moreover have "isqrt n = (if (2 * s + 1) * (2 * s + 1) \<le> n then 2 * s + 1 else 2 * s)"
      using False by (simp add: isqrt.simps [of n] s_def Let_def)
    ultimately show ?thesis using s(1) by (auto simp: add.assoc)
  qed
qed

lemma fsqrt_nonneg [simp]: "0 \<le> fsqrt x"
proof (cases "x \<le> 0")
  case False
  let ?q = "two_to (exponent x div 2 - 52)"
  have "0 \<le> x / (?q * ?q)" using False by simp
  then have "0 \<le> isqrt \<lfloor>x / (?q * ?q)\<rfloor>" using isqrt_bounds by simp
  then show ?thesis using False by (auto simp: fsqrt_def Let_def)
qed (simp add: fsqrt_def)

text \<open>The computed root is within half a unit in the last place of the root.\<close>

lemma fsqrt_nearest:
  assumes "0 < x"
  shows "\<exists>q s. fsqrt x = of_int s * q \<and> 0 < q \<and> 0 \<le> s \<and> x \<le> (of_int s + 1 / 2) * (of_int s + 1 / 2) * (q * q) \<and>
    (s = 0 \<or> (of_int s - 1 / 2) * (of_int s - 1 / 2) * (q * q) \<le> x)"
proof -
  let ?q = "two_to (exponent x div 2 - 52)"
  let ?y = "x / (?q * ?q)"
  let ?s = "isqrt \<lfloor>?y\<rfloor>"
  have "0 \<le> \<lfloor>?y\<rfloor>" using assms by simp
  then have b: "0 \<le> ?s" "?s * ?s \<le> \<lfloor>?y\<rfloor>" "\<lfloor>?y\<rfloor> < (?s + 1) * (?s + 1)" using isqrt_bounds by blast+
  have "of_int (?s * ?s) \<le> ?y" using b(2) by (simp only: le_floor_iff)
  then have lo: "rat_of_int ?s * of_int ?s \<le> ?y" by simp
  have "?y < of_int ((?s + 1) * (?s + 1))" using b(3) by (simp only: floor_less_iff)
  then have hi: "?y < (rat_of_int ?s + 1) * (of_int ?s + 1)" by simp
  define r where "r = (if (rat_of_int ?s + 1 / 2) * (of_int ?s + 1 / 2) < ?y then ?s + 1 else ?s)"
  have eq: "fsqrt x = of_int r * ?q" using assms by (simp add: fsqrt_def r_def Let_def)
  have s0: "(0::rat) \<le> of_int ?s" using b(1) by simp
  have "?y \<le> (of_int r + 1 / 2) * (of_int r + 1 / 2)"
    using hi s0 by (auto simp: r_def algebra_simps)
  moreover have "r = 0 \<or> (of_int r - 1 / 2) * (of_int r - 1 / 2) \<le> ?y"
    using lo s0 b(1) by (auto simp: r_def algebra_simps)
  moreover have "0 \<le> r" using b(1) by (simp add: r_def)
  ultimately show ?thesis
    using eq by (intro exI [of _ ?q] exI [of _ r]) (auto simp: field_simps)
qed

lemma fround_int [simp]: "fround (of_int n) = of_int n"
proof -
  have "\<lfloor>rat_of_int n + 1 / 2\<rfloor> = n" "\<lfloor>1 / 2 - rat_of_int n\<rfloor> = - n" by (simp_all add: floor_eq_iff)
  then show ?thesis by (simp add: fround_def)
qed

lemma fround_numeral [simp]: "fround 0 = 0" "fround (numeral k) = numeral k" "fround (- numeral k) = - numeral k"
  using fround_int [of 0] fround_int [of "numeral k"] fround_int [of "- numeral k"] by simp_all

lemma fround_mono: "x \<le> y \<Longrightarrow> fround x \<le> fround y"
proof (cases "x < 0 \<and> 0 \<le> y")
  case True
  then have "0 \<le> \<lfloor>1 / 2 - x\<rfloor>" "0 \<le> \<lfloor>y + 1 / 2\<rfloor>" by simp_all
  then have "- rat_of_int \<lfloor>1 / 2 - x\<rfloor> \<le> 0" "0 \<le> rat_of_int \<lfloor>y + 1 / 2\<rfloor>" by simp_all
  then have "- rat_of_int \<lfloor>1 / 2 - x\<rfloor> \<le> of_int \<lfloor>y + 1 / 2\<rfloor>" by (rule order_trans)
  then show ?thesis using True by (simp add: fround_def)
next
  case False
  assume "x \<le> y"
  then show ?thesis using False floor_mono [of "1 / 2 - y" "1 / 2 - x"] floor_mono [of "x + 1 / 2" "y + 1 / 2"]
    by (auto simp: fround_def)
qed

text \<open>Rounding to a given number of decimal places keeps bounds that have fewer.\<close>

lemma scaled_bounds:
  assumes "of_int a / k \<le> x" "x \<le> of_int b / k" "0 < k" "\<bar>a\<bar> < 2 ^ 53" "\<bar>b\<bar> < 2 ^ 53"
  shows "fl (of_int a / k) \<le> fdiv (fround (fmul x k)) k" "fdiv (fround (fmul x k)) k \<le> fl (of_int b / k)"
proof -
  have "of_int a \<le> x * k" "x * k \<le> of_int b" using assms(1-3) by (simp_all add: field_simps)
  then have "fl (of_int a) \<le> fmul x k" "fmul x k \<le> fl (of_int b)" using fl_mono by (simp_all add: fmul_def)
  then have "of_int a \<le> fmul x k" "fmul x k \<le> of_int b" using fl_int assms(4,5) by simp_all
  then have "of_int a \<le> fround (fmul x k)" "fround (fmul x k) \<le> of_int b" using fround_mono by fastforce+
  then show "fl (of_int a / k) \<le> fdiv (fround (fmul x k)) k" "fdiv (fround (fmul x k)) k \<le> fl (of_int b / k)"
    using assms(3) by (auto simp: fdiv_def intro!: fl_mono divide_right_mono)
qed

lemma fl_half [simp]: "fl (1 / 2) = 1 / 2" "fl (- (1 / 2)) = - (1 / 2)"
proof -
  have e: "exponent (1 / 2) = - 1" by (rule exponent_unique) (simp_all add: two_to_def)
  have "1 / 2 / two_to (- 53) = of_int (2 ^ 52)" by (simp add: two_to_def)
  then have "round_even (1 / 2 / two_to (- 53)) = 2 ^ 52" by (metis round_even_int)
  then have "fl_pos (1 / 2) = 1 / 2" unfolding fl_pos_def e Let_def by (simp add: two_to_def)
  then show h: "fl (1 / 2) = 1 / 2" by (simp add: fl_def)
  then show "fl (- (1 / 2)) = - (1 / 2)" by (simp add: fl_def)
qed

section \<open>Bounds of a prediction\<close>

lemma clamp_bounds: "0 \<le> clamp x" "clamp x \<le> 100"
  by (auto simp: clamp_def)

lemma clamp_mono: "x \<le> y \<Longrightarrow> clamp x \<le> clamp y"
  by (auto simp: clamp_def)

lemma sum_squares_nonneg: "0 \<le> sum_squares d ps"
proof -
  have "0 \<le> u \<Longrightarrow> 0 \<le> foldl (\<lambda>u p. fadd u (fmul (d p) (d p))) u ps" for u
  proof (induction ps arbitrary: u)
    case (Cons p ps)
    have "0 \<le> fmul (d p) (d p)" unfolding fmul_def by (rule fl_nonneg) simp
    then have "0 \<le> fadd u (fmul (d p) (d p))" unfolding fadd_def using Cons.prems by (intro fl_nonneg) simp
    then show ?case using Cons.IH by simp
  qed simp
  then show ?thesis by (simp add: sum_squares_def)
qed

lemma r_squared_bounds:
  assumes "0 \<le> res"
  shows "0 \<le> r_squared res tot" "r_squared res tot \<le> 1"
proof -
  have "tot > 0 \<Longrightarrow> fsub 1 (fdiv res tot) \<le> 1" using assms by (simp add: fsub_def fdiv_def fl_nonneg fl_le_1)
  then show "0 \<le> r_squared res tot" "r_squared res tot \<le> 1" by (auto simp: r_squared_def Let_def)
qed

lemma prediction_error_nonneg: "0 \<le> prediction_error n s res x"
  by (simp add: prediction_error_def Let_def fmul_def fl_nonneg)

lemma trend_velocity:
  "trend_direction v = ''improving'' \<longleftrightarrow> 1 / 2 \<le> v" "trend_direction v = ''degrading'' \<longleftrightarrow> v \<le> - (1 / 2)"
  "trend_direction v = ''stable'' \<longleftrightarrow> \<bar>v\<bar> < 1 / 2"
  by (auto simp: trend_direction_def)

definition score_ok :: "HealthSnapshot \<Rightarrow> bool" where
  "score_ok s \<longleftrightarrow> 0 \<le> sn_HealthScore s \<and> sn_HealthScore s \<le> 100"

definition result_bounded :: "PredictionResult \<Rightarrow> bool" where
  "result_bounded r \<longleftrightarrow>
     0 \<le> pr_ProjectedScore r \<and> pr_ProjectedScore r \<le> 100 \<and>
     0 \<le> fst (pr_ConfidenceInterval r) \<and> fst (pr_ConfidenceInterval r) \<le> snd (pr_ConfidenceInterval r) \<and>
     snd (pr_ConfidenceInterval r) \<le> 100 \<and> 0 \<le> pr_RSquared r \<and> pr_RSquared r \<le> 1"

text \<open>The velocity that is shown and the trend.\<close>

definition trend_shown :: "PredictionResult \<Rightarrow> bool" where
  "trend_shown r \<longleftrightarrow>
     (let v = pr_Velocity r in
      pr_TrendDirection r = ''improving'' \<and> 1 / 2 \<le> v \<or> pr_TrendDirection r = ''degrading'' \<and> v \<le> - (1 / 2) \<or>
      pr_TrendDirection r = ''stable'' \<and> \<bar>v\<bar> \<le> 1 / 2)"

lemma velocity_shown:
  "1 / 2 \<le> v \<Longrightarrow> 1 / 2 \<le> fdiv (fround (fmul v 100)) 100" "v \<le> - (1 / 2) \<Longrightarrow> fdiv (fround (fmul v 100)) 100 \<le> - (1 / 2)"
  "\<bar>v\<bar> < 1 / 2 \<Longrightarrow> \<bar>fdiv (fround (fmul v 100)) 100\<bar> \<le> 1 / 2"
proof -
  have up: "1 / 2 \<le> v \<Longrightarrow> 1 / 2 \<le> fdiv (fround (fmul v 100)) 100" for v
  proof -
    assume "1 / 2 \<le> v"
    then have "fl 50 \<le> fmul v 100" unfolding fmul_def by (intro fl_mono) simp
    then have "50 \<le> fround (fmul v 100)" using fround_mono [of 50] by simp
    then have "fl (1 / 2) \<le> fdiv (fround (fmul v 100)) 100" unfolding fdiv_def by (intro fl_mono) simp
    then show ?thesis by simp
  qed
  have down: "v \<le> - (1 / 2) \<Longrightarrow> fdiv (fround (fmul v 100)) 100 \<le> - (1 / 2)" for v
  proof -
    assume "v \<le> - (1 / 2)"
    then have "fmul v 100 \<le> fl (of_int (- 50))" unfolding fmul_def by (intro fl_mono) simp
    then have "fmul v 100 \<le> - 50" by (subst (asm) fl_int) simp_all
    then have "fround (fmul v 100) \<le> - 50" using fround_mono [of _ "- 50"] by simp
    then have "fdiv (fround (fmul v 100)) 100 \<le> fl (- (1 / 2))" unfolding fdiv_def by (intro fl_mono) simp
    then show ?thesis by simp
  qed
  show "1 / 2 \<le> v \<Longrightarrow> 1 / 2 \<le> fdiv (fround (fmul v 100)) 100" by (rule up)
  show "v \<le> - (1 / 2) \<Longrightarrow> fdiv (fround (fmul v 100)) 100 \<le> - (1 / 2)" by (rule down)
  assume "\<bar>v\<bar> < 1 / 2"
  then have "of_int (- 50) / 100 \<le> v" "v \<le> of_int 50 / 100" by linarith+
  from scaled_bounds [OF this] show "\<bar>fdiv (fround (fmul v 100)) 100\<bar> \<le> 1 / 2"
    by (simp add: abs_le_iff)
qed

lemma line_bounded: "result_bounded (line_result keys snaps n s)" "trend_shown (line_result keys snaps n s)"
proof -
  have proj: "0 \<le> fdiv (fround (fmul (clamp x) 10)) 10" "fdiv (fround (fmul (clamp x) 10)) 10 \<le> 100" for x
    using scaled_bounds [of 0 10 "clamp x" 1000] clamp_bounds [of x] by simp_all
  have rsq: "0 \<le> fdiv (fround (fmul (r_squared (ss_res a b ps) t) 1000)) 1000"
      "fdiv (fround (fmul (r_squared (ss_res a b ps) t) 1000)) 1000 \<le> 1" for a b ps t
    using scaled_bounds [of 0 1000 "r_squared (ss_res a b ps) t" 1000] r_squared_bounds [of "ss_res a b ps" t]
      sum_squares_nonneg by (simp_all add: ss_res_def)
  have ci: "clamp (fsub a (fmul (fl (49 / 25)) (prediction_error n s r x))) \<le>
      clamp (fadd a (fmul (fl (49 / 25)) (prediction_error n s r x)))" for a r x
  proof -
    have "0 \<le> fmul (fl (49 / 25)) (prediction_error n s r x)"
      using prediction_error_nonneg by (simp add: fmul_def fl_nonneg)
    then show ?thesis unfolding fsub_def fadd_def by (intro clamp_mono fl_mono) simp
  qed
  show "result_bounded (line_result keys snaps n s)"
    by (simp add: result_bounded_def line_result_def Let_def proj rsq ci clamp_bounds)
  let ?v = "fmul (slope n s) 3600"
  consider "1 / 2 \<le> ?v" | "?v \<le> - (1 / 2)" | "\<bar>?v\<bar> < 1 / 2" by linarith
  then show "trend_shown (line_result keys snaps n s)"
    using trend_velocity [of ?v] velocity_shown [of ?v]
    by cases (simp_all add: trend_shown_def line_result_def Let_def)
qed

text \<open>A prediction is made from five snapshots on, and it is well formed: the projected score and the interval lie within
  0 and 100, the ends of the interval are in order, the coefficient of determination lies within 0 and 1, and the trend that
  is named agrees with the velocity that is shown.\<close>

theorem prediction_bounded:
  assumes "5 \<le> length snaps" "list_all score_ok snaps"
  shows "\<exists>r. prediction_Analyze keys snaps = Some r \<and> result_bounded r \<and> trend_shown r \<and> pr_DataPoints r = int (length snaps)"
proof -
  have "score_ok (last snaps)" using assms by (cases snaps rule: rev_cases) (auto simp: list_all_iff)
  then have "result_bounded (flat_result snaps)" "trend_shown (flat_result snaps)"
    by (simp_all add: result_bounded_def trend_shown_def flat_result_def score_ok_def)
  moreover have "pr_DataPoints (flat_result snaps) = int (length snaps)" "pr_DataPoints (line_result keys snaps n s) = int (length snaps)"
    for n s by (simp_all add: flat_result_def line_result_def Let_def)
  ultimately show ?thesis
    using assms(1) line_bounded by (simp add: prediction_Analyze_def MinDataPoints_def Let_def)
qed

end
