(* ===== verification/Prediction_Fit.thy ===== *)
theory Prediction_Fit
  imports Prediction
begin

text \<open>
  The computed line against the line of least squares, and what the results lose: as long as the sums are whole numbers that
  a double holds, the slope is the slope of least squares, rounded once.
\<close>

section \<open>Least squares\<close>

type_synonym exact_points = "(rat \<times> rat) list"

definition sq_error :: "rat \<Rightarrow> rat \<Rightarrow> exact_points \<Rightarrow> rat" where
  "sq_error a b ps = (\<Sum>(x, y) \<leftarrow> ps. (y - (a + b * x)) * (y - (a + b * x)))"

definition fits_best :: "rat \<Rightarrow> rat \<Rightarrow> exact_points \<Rightarrow> bool" where
  "fits_best a b ps \<longleftrightarrow> (\<forall>a' b'. sq_error a b ps \<le> sq_error a' b' ps)"

definition ex_X :: "exact_points \<Rightarrow> rat" where "ex_X ps = (\<Sum>(x, y) \<leftarrow> ps. x)"
definition ex_Y :: "exact_points \<Rightarrow> rat" where "ex_Y ps = (\<Sum>(x, y) \<leftarrow> ps. y)"
definition ex_XY :: "exact_points \<Rightarrow> rat" where "ex_XY ps = (\<Sum>(x, y) \<leftarrow> ps. x * y)"
definition ex_X2 :: "exact_points \<Rightarrow> rat" where "ex_X2 ps = (\<Sum>(x, y) \<leftarrow> ps. x * x)"
definition ex_YY :: "exact_points \<Rightarrow> rat" where "ex_YY ps = (\<Sum>(x, y) \<leftarrow> ps. y * y)"

definition ex_det :: "exact_points \<Rightarrow> rat" where
  "ex_det ps = of_nat (length ps) * ex_X2 ps - ex_X ps * ex_X ps"

definition ls_slope :: "exact_points \<Rightarrow> rat" where
  "ls_slope ps = (of_nat (length ps) * ex_XY ps - ex_X ps * ex_Y ps) / ex_det ps"

definition ls_intercept :: "exact_points \<Rightarrow> rat" where
  "ls_intercept ps = (ex_Y ps - ls_slope ps * ex_X ps) / of_nat (length ps)"

lemmas ex_sums = ex_X_def ex_Y_def ex_XY_def ex_X2_def ex_YY_def

lemma sq_error_expand:
  "sq_error a b ps = ex_YY ps - 2 * a * ex_Y ps - 2 * b * ex_XY ps + of_nat (length ps) * (a * a) + 2 * a * b * ex_X ps
     + b * b * ex_X2 ps"
  by (induction ps) (auto simp: sq_error_def ex_sums algebra_simps)

lemma spread_expand:
  "(\<Sum>(x, y) \<leftarrow> ps. (a + b * x) * (a + b * x)) = of_nat (length ps) * (a * a) + 2 * a * b * ex_X ps + b * b * ex_X2 ps"
  by (induction ps) (auto simp: ex_sums algebra_simps)

lemma spread_nonneg: "0 \<le> (\<Sum>(x, y) \<leftarrow> ps. (a + b * x) * (a + b * x :: rat))"
  by (induction ps) auto

lemma normal_equations:
  assumes "ps \<noteq> []" "ex_det ps \<noteq> 0"
  shows "ex_Y ps = of_nat (length ps) * ls_intercept ps + ls_slope ps * ex_X ps"
    "ex_XY ps = ls_intercept ps * ex_X ps + ls_slope ps * ex_X2 ps"
proof -
  let ?n = "rat_of_nat (length ps)"
  have n: "?n \<noteq> 0" using assms(1) by simp
  show one: "ex_Y ps = ?n * ls_intercept ps + ls_slope ps * ex_X ps" using n by (simp add: ls_intercept_def)
  have "ls_slope ps * ex_det ps = ?n * ex_XY ps - ex_X ps * ex_Y ps" using assms(2) by (simp add: ls_slope_def)
  then have "?n * ex_XY ps = ?n * (ls_intercept ps * ex_X ps + ls_slope ps * ex_X2 ps)"
    unfolding one by (simp add: ex_det_def algebra_simps)
  then show "ex_XY ps = ls_intercept ps * ex_X ps + ls_slope ps * ex_X2 ps" using n mult_left_cancel by blast
qed

lemma ls_fits_best:
  assumes "ps \<noteq> []" "ex_det ps \<noteq> 0"
  shows "fits_best (ls_intercept ps) (ls_slope ps) ps"
  unfolding fits_best_def
proof (intro allI)
  fix a b
  let ?a = "ls_intercept ps" and ?b = "ls_slope ps"
  have "sq_error a b ps - sq_error ?a ?b ps = (\<Sum>(x, y) \<leftarrow> ps. ((a - ?a) + (b - ?b) * x) * ((a - ?a) + (b - ?b) * x))"
    unfolding sq_error_expand spread_expand normal_equations [OF assms] by (simp add: algebra_simps)
  also have "0 \<le> \<dots>" by (rule spread_nonneg)
  finally show "sq_error ?a ?b ps \<le> sq_error a b ps" by simp
qed

text \<open>Two points with different abscissas determine the line.\<close>

lemma spread_zero:
  "(\<Sum>(x, y) \<leftarrow> ps. (a + b * x) * (a + b * x :: rat)) = 0 \<Longrightarrow> (x, y) \<in> set ps \<Longrightarrow> a + b * x = 0"
proof (induction ps)
  case (Cons p ps)
  obtain u v where p: "p = (u, v)" by (cases p)
  have "0 \<le> (a + b * u) * (a + b * u)" by simp
  then have "(a + b * u) * (a + b * u) = 0" "(\<Sum>(x, y) \<leftarrow> ps. (a + b * x) * (a + b * x)) = 0"
    using Cons.prems(1) spread_nonneg [of a b ps] p by (simp_all add: add_nonneg_eq_0_iff)
  then show ?case using Cons.IH Cons.prems(2) p by auto
qed simp

lemma ex_det_nonzero:
  assumes "(x, y) \<in> set ps" "(x', y') \<in> set ps" "x \<noteq> x'"
  shows "ex_det ps \<noteq> 0"
proof
  let ?n = "rat_of_nat (length ps)" and ?c = "ex_X ps / of_nat (length ps)"
  assume "ex_det ps = 0"
  moreover have n: "?n \<noteq> 0" using assms(1) by auto
  ultimately have "ex_X2 ps = ?c * ex_X ps" by (simp add: ex_det_def field_simps)
  then have "(\<Sum>(x, y) \<leftarrow> ps. (- ?c + 1 * x) * (- ?c + 1 * x)) = 0"
    unfolding spread_expand using n by (simp add: field_simps)
  note zero = spread_zero [OF this]
  have "- ?c + 1 * x = 0" "- ?c + 1 * x' = 0" using zero [OF assms(1)] zero [OF assms(2)] by blast+
  then show False using assms(3) by simp
qed

section \<open>Whole sums\<close>

definition whole_point :: "nat \<times> nat \<Rightarrow> rat \<times> rat" where
  "whole_point = (\<lambda>(k, y). (of_nat k, of_nat y))"

definition small_point :: "nat \<times> nat \<Rightarrow> bool" where
  "small_point = (\<lambda>(k, y). k \<le> 1000000 \<and> y \<le> 100)"

lemma f_nat:
  assumes "a < 2 ^ 53"
  shows "fl (of_nat a) = of_nat a"
  using fl_int [of "int a"] assms by simp

lemma fadd_nat: "a + b < 2 ^ 53 \<Longrightarrow> fadd (of_nat a) (of_nat b) = of_nat (a + b)"
  using f_nat [of "a + b"] by (simp add: fadd_def)

lemma fmul_nat: "a * b < 2 ^ 53 \<Longrightarrow> fmul (of_nat a) (of_nat b) = of_nat (a * b)"
  using f_nat [of "a * b"] by (simp add: fmul_def)

lemma fsub_nat:
  assumes "a < 2 ^ 53" "b < 2 ^ 53"
  shows "fsub (of_nat a) (of_nat b) = of_int (int a - int b)"
  using fl_int [of "int a - int b"] assms by (simp add: fsub_def)

definition nat_totals :: "nat \<Rightarrow> nat \<Rightarrow> nat \<Rightarrow> nat \<Rightarrow> totals" where
  "nat_totals a b c d = \<lparr>sm_X = of_nat a, sm_Y = of_nat b, sm_XY = of_nat c, sm_X2 = of_nat d\<rparr>"

lemma add_point_exact:
  assumes "small_point (k, y)" "a \<le> 50 * 1000000" "b \<le> 50 * 100" "c \<le> 50 * 100000000" "d \<le> 50 * 1000000000000"
  shows "add_point (whole_point (k, y)) (nat_totals a b c d) = nat_totals (a + k) (b + y) (c + k * y) (d + k * k)"
proof -
  have k: "k \<le> 1000000" "y \<le> 100" using assms(1) by (simp_all add: small_point_def)
  have "k * y \<le> 1000000 * 100" "k * k \<le> 1000000 * 1000000" using k by (intro mult_le_mono; simp)+
  then have "a + k < 2 ^ 53" "b + y < 2 ^ 53" "c + k * y < 2 ^ 53" "d + k * k < 2 ^ 53" "k * y < 2 ^ 53" "k * k < 2 ^ 53"
    using assms k by simp_all
  then show ?thesis by (simp add: add_point_def whole_point_def nat_totals_def fadd_nat fmul_nat del: of_nat_add of_nat_mult)
qed

definition tot :: "(nat \<times> nat \<Rightarrow> nat) \<Rightarrow> (nat \<times> nat) list \<Rightarrow> nat" where
  "tot f qs = (\<Sum>q \<leftarrow> qs. f q)"

lemma fold_exact:
  assumes "list_all small_point qs" "length qs + m \<le> 50"
    and "a \<le> m * 1000000" "b \<le> m * 100" "c \<le> m * 100000000" "d \<le> m * 1000000000000"
  shows "fold add_point (map whole_point qs) (nat_totals a b c d) =
    nat_totals (a + tot fst qs) (b + tot snd qs) (c + tot (\<lambda>(k, y). k * y) qs) (d + tot (\<lambda>(k, y). k * k) qs)"
  using assms
proof (induction qs arbitrary: m a b c d)
  case (Cons q qs)
  obtain k y where q: "q = (k, y)" by (cases q)
  have k: "k \<le> 1000000" "y \<le> 100" using Cons.prems(1) q by (simp_all add: small_point_def)
  have kk: "k * y \<le> 1000000 * 100" "k * k \<le> 1000000 * 1000000" using k by (intro mult_le_mono; simp)+
  have "m \<le> 50" using Cons.prems(2) by simp
  then have "add_point (whole_point q) (nat_totals a b c d) = nat_totals (a + k) (b + y) (c + k * y) (d + k * k)"
    unfolding q using Cons.prems q by (intro add_point_exact) auto
  moreover have "fold add_point (map whole_point qs) (nat_totals (a + k) (b + y) (c + k * y) (d + k * k)) =
      nat_totals (a + k + tot fst qs) (b + y + tot snd qs) (c + k * y + tot (\<lambda>(k, y). k * y) qs) (d + k * k + tot (\<lambda>(k, y). k * k) qs)"
    using Cons.prems k kk by (intro Cons.IH [of "Suc m"]) auto
  ultimately show ?case by (simp add: q tot_def add.assoc)
qed (simp add: tot_def)

lemma tot_bounds:
  "list_all small_point qs \<Longrightarrow> tot fst qs \<le> length qs * 1000000 \<and> tot snd qs \<le> length qs * 100 \<and>
     tot (\<lambda>(k, y). k * y) qs \<le> length qs * 100000000 \<and> tot (\<lambda>(k, y). k * k) qs \<le> length qs * 1000000000000"
proof (induction qs)
  case (Cons q qs)
  obtain k y where q: "q = (k, y)" by (cases q)
  have k: "k \<le> 1000000" "y \<le> 100" using Cons.prems q by (simp_all add: small_point_def)
  have "k * y \<le> 1000000 * 100" "k * k \<le> 1000000 * 1000000" using k by (intro mult_le_mono; simp)+
  then show ?case using Cons k q by (simp add: tot_def)
qed (simp add: tot_def)

lemma tot_exact:
  "ex_X (map whole_point qs) = of_nat (tot fst qs)" "ex_Y (map whole_point qs) = of_nat (tot snd qs)"
  "ex_XY (map whole_point qs) = of_nat (tot (\<lambda>(k, y). k * y) qs)" "ex_X2 (map whole_point qs) = of_nat (tot (\<lambda>(k, y). k * k) qs)"
  by (induction qs) (auto simp: ex_sums tot_def whole_point_def)

lemma slope_exact:
  assumes "list_all small_point qs" "length qs \<le> 50"
  shows "denominator (float64 (int (length qs))) (point_sums (map whole_point qs)) = ex_det (map whole_point qs)"
    "slope (float64 (int (length qs))) (point_sums (map whole_point qs)) = fl (ls_slope (map whole_point qs))"
proof -
  let ?n = "length qs"
  let ?X = "tot fst qs" and ?Y = "tot snd qs" and ?XY = "tot (\<lambda>(k, y). k * y) qs" and ?X2 = "tot (\<lambda>(k, y). k * k) qs"
  have s: "point_sums (map whole_point qs) = nat_totals ?X ?Y ?XY ?X2"
    using fold_exact [of qs 0 0 0 0 0] assms by (simp add: point_sums_def nat_totals_def)
  have n: "float64 (int ?n) = of_nat ?n" using float64_int [of "int ?n"] assms(2) by simp
  have b: "?X \<le> 50 * 1000000" "?Y \<le> 50 * 100" "?XY \<le> 50 * 100000000" "?X2 \<le> 50 * 1000000000000"
    using tot_bounds [OF assms(1)] assms(2) by (auto intro: order_trans mult_le_mono1)
  have "?n * ?X2 \<le> 50 * (50 * 1000000000000)" "?X * ?X \<le> (50 * 1000000) * (50 * 1000000)"
    "?n * ?XY \<le> 50 * (50 * 100000000)" "?X * ?Y \<le> (50 * 1000000) * (50 * 100)"
    using b assms(2) by (intro mult_le_mono; simp)+
  then have small: "?n * ?X2 < 2 ^ 53" "?X * ?X < 2 ^ 53" "?n * ?XY < 2 ^ 53" "?X * ?Y < 2 ^ 53" by simp_all
  have d: "denominator (of_nat ?n) (nat_totals ?X ?Y ?XY ?X2) = of_int (int (?n * ?X2) - int (?X * ?X))"
    using small by (simp add: denominator_def nat_totals_def fmul_nat fsub_nat del: of_nat_mult of_int_diff)
  then show "denominator (float64 (int ?n)) (point_sums (map whole_point qs)) = ex_det (map whole_point qs)"
    by (simp add: s n ex_det_def tot_exact)
  have u: "fsub (fmul (of_nat ?n) (of_nat ?XY)) (fmul (of_nat ?X) (of_nat ?Y)) = rat_of_int (int (?n * ?XY) - int (?X * ?Y))"
    using small by (simp add: fmul_nat fsub_nat del: of_nat_mult of_int_diff)
  show "slope (float64 (int ?n)) (point_sums (map whole_point qs)) = fl (ls_slope (map whole_point qs))"
    unfolding s n slope_def d using u by (simp add: fdiv_def ls_slope_def ex_det_def tot_exact nat_totals_def)
qed

section \<open>The trend\<close>

text \<open>Whole seconds within eleven days of the first snapshot, and whole scores.\<close>

definition whole_history :: "HealthSnapshot list \<Rightarrow> bool" where
  "whole_history snaps \<longleftrightarrow> list_all (\<lambda>s. \<exists>k y. k \<le> 1000000 \<and> y \<le> 100 \<and>
     sn_Timestamp s = sn_Timestamp (hd snaps) + second * int k \<and> sn_HealthScore s = of_nat y) snaps"

definition score_points :: "HealthSnapshot list \<Rightarrow> exact_points" where
  "score_points snaps = map (\<lambda>s. (of_int (sn_Timestamp s - sn_Timestamp (hd snaps)) / of_int second, sn_HealthScore s)) snaps"

lemma whole_seconds:
  assumes "k \<le> 1000000"
  shows "duration_seconds (time_sub (t + second * int k) t) = of_nat k"
proof -
  have "time_sub (t + second * int k) t = second * int k" using assms by (subst time_sub_id) (simp_all add: in_int64_def)
  then show ?thesis
    using assms float64_int [of "int k"] f_nat [of k]
    by (cases "k = 0") (simp_all add: duration_seconds_def quot_int_def go_rem_def fadd_def fdiv_def float64_def abs_mult)
qed

lemma whole_points:
  assumes "whole_history snaps"
  shows "\<exists>qs. list_all small_point qs \<and> points snaps = map whole_point qs \<and> score_points snaps = map whole_point qs"
proof -
  let ?t = "sn_Timestamp (hd snaps)"
  have "list_all (\<lambda>s. \<exists>k y. k \<le> 1000000 \<and> y \<le> 100 \<and> sn_Timestamp s = t + second * int k \<and> sn_HealthScore s = of_nat y) ss \<Longrightarrow>
      \<exists>qs. list_all small_point qs \<and>
        map (\<lambda>s. (duration_seconds (time_sub (sn_Timestamp s) t), sn_HealthScore s)) ss = map whole_point qs \<and>
        map (\<lambda>s. (of_int (sn_Timestamp s - t) / of_int second, sn_HealthScore s)) ss = map whole_point qs" for ss t
  proof (induction ss)
    case (Cons s ss)
    obtain k y where s: "k \<le> 1000000" "y \<le> 100" "sn_Timestamp s = t + second * int k" "sn_HealthScore s = of_nat y"
      using Cons.prems by auto
    obtain qs where "list_all small_point qs"
        "map (\<lambda>s. (duration_seconds (time_sub (sn_Timestamp s) t), sn_HealthScore s)) ss = map whole_point qs"
        "map (\<lambda>s. (of_int (sn_Timestamp s - t) / of_int second, sn_HealthScore s)) ss = map whole_point qs"
      using Cons by auto
    then show ?case using s whole_seconds [OF s(1)]
      by (intro exI [of _ "(k, y) # qs"]) (simp add: small_point_def whole_point_def)
  qed simp
  then show ?thesis using assms by (simp add: whole_history_def points_def score_points_def)
qed

text \<open>C20. When there are 5 to 50 snapshots, all at whole seconds from the first and within 1000000 seconds of it, with whole scores
  from 0 to 100, and the last is not at the time of the first, then the trend is that of the line of least squares: there is
  a line that no other line fits better, and the velocity that decides the trend is its slope, rounded once to a double,
  times 3600. Within these bounds every sum is exact; beyond the span the sums round and the slope may be another.\<close>

theorem prediction_least_squares:
  assumes "5 \<le> length snaps" "length snaps \<le> 50" "whole_history snaps" "sn_Timestamp (last snaps) \<noteq> sn_Timestamp (hd snaps)"
  shows "\<exists>a b r. fits_best a b (score_points snaps) \<and> prediction_Analyze keys snaps = Some r \<and>
    pr_TrendDirection r = trend_direction (fmul (fl b) 3600) \<and>
    pr_Velocity r = fdiv (fround (fmul (fmul (fl b) 3600) 100)) 100"
proof -
  obtain qs where q: "list_all small_point qs" "points snaps = map whole_point qs" "score_points snaps = map whole_point qs"
    using whole_points [OF assms(3)] by blast
  have len: "length qs = length snaps" using arg_cong [OF q(2), of length] by (simp add: points_def)
  let ?ps = "score_points snaps" and ?f = "\<lambda>s. of_int (sn_Timestamp s - sn_Timestamp (hd snaps)) / rat_of_int second"
  have ne: "snaps \<noteq> []" using assms(1) by auto
  have "(?f (hd snaps), sn_HealthScore (hd snaps)) \<in> set ?ps" "(?f (last snaps), sn_HealthScore (last snaps)) \<in> set ?ps"
    using ne by (simp_all add: score_points_def)
  then have det: "ex_det ?ps \<noteq> 0" by (rule ex_det_nonzero) (use assms(4) in simp)
  have "fits_best (ls_intercept ?ps) (ls_slope ?ps) ?ps"
    using ls_fits_best det ne by (simp add: score_points_def)
  moreover have "denominator (float64 (int (length snaps))) (point_sums (points snaps)) = ex_det ?ps"
      "slope (float64 (int (length snaps))) (point_sums (points snaps)) = fl (ls_slope ?ps)"
    using slope_exact [OF q(1)] assms(2) len q(2,3) by simp_all
  ultimately show ?thesis
    using det assms(1) by (auto simp: prediction_Analyze_def MinDataPoints_def Let_def line_result_def)
qed

definition ex_history :: "HealthSnapshot list" where
  "ex_history = map (\<lambda>k. zero_snapshot\<lparr>sn_Timestamp := second * int k, sn_HealthScore := of_nat (100 - 10 * k)\<rparr>) [0..<6]"

lemma ex_history_list:
  "ex_history = [zero_snapshot\<lparr>sn_Timestamp := 0, sn_HealthScore := 100\<rparr>, zero_snapshot\<lparr>sn_Timestamp := second, sn_HealthScore := 90\<rparr>,
     zero_snapshot\<lparr>sn_Timestamp := 2 * second, sn_HealthScore := 80\<rparr>, zero_snapshot\<lparr>sn_Timestamp := 3 * second, sn_HealthScore := 70\<rparr>,
     zero_snapshot\<lparr>sn_Timestamp := 4 * second, sn_HealthScore := 60\<rparr>, zero_snapshot\<lparr>sn_Timestamp := 5 * second, sn_HealthScore := 50\<rparr>]"
  by (simp add: ex_history_def upt_rec [of _ 6])

lemma prediction_bounded_witness:
  "\<exists>r. prediction_Analyze [] ex_history = Some r \<and> result_bounded r \<and> trend_shown r \<and> pr_DataPoints r = 6"
  using prediction_bounded [of ex_history "[]"] by (simp add: ex_history_list score_ok_def)

lemma prediction_least_squares_witness:
  "\<exists>a b r. fits_best a b (score_points ex_history) \<and> prediction_Analyze [] ex_history = Some r \<and>
     pr_TrendDirection r = trend_direction (fmul (fl b) 3600)"
proof -
  have "whole_history ex_history"
    unfolding whole_history_def
  proof (subst list_all_iff, intro ballI)
    fix s assume "s \<in> set ex_history"
    then obtain k where "k < 6" "s = zero_snapshot\<lparr>sn_Timestamp := second * int k, sn_HealthScore := of_nat (100 - 10 * k)\<rparr>"
      by (auto simp: ex_history_def)
    then show "\<exists>k y. k \<le> 1000000 \<and> y \<le> 100 \<and> sn_Timestamp s = sn_Timestamp (hd ex_history) + second * int k \<and>
        sn_HealthScore s = of_nat y"
      by (intro exI [of _ k] exI [of _ "100 - 10 * k"]) (simp add: ex_history_list)
  qed
  then show ?thesis using prediction_least_squares [of ex_history "[]"] by (auto simp: ex_history_list)
qed

end
