(* ===== verification/Dashboard_Auth.thy ===== *)
theory Dashboard_Auth
  imports Go_Parse Go_Text
begin

text \<open>
  Who may talk to the dashboard (\<open>internal/dashboard/server.go\<close>): tokens, browser sessions, the middlewares in front of the
  handlers, the routes, and the conditions under which the server starts. The hash and the signature are parameters; the
  clock is read several times in a request.
\<close>

section \<open>The environment\<close>

definition parseBoolEnv :: "(string \<Rightarrow> string) \<Rightarrow> string \<Rightarrow> bool" where
  "parseBoolEnv getenv name =
     (let v = trim_space (getenv name) in if v = [] then False else parse_bool v = Some True)"

definition defaultSessionTTL :: duration where "defaultSessionTTL = 24 * hour"

definition parseSessionTTL :: "(string \<Rightarrow> string) \<Rightarrow> duration" where
  "parseSessionTTL getenv =
     (let v = trim_space (getenv ''DASHBOARD_SESSION_TTL'') in
      if v = [] then defaultSessionTTL
      else case parse_duration v of None \<Rightarrow> defaultSessionTTL | Some d \<Rightarrow> if d \<le> 0 then defaultSessionTTL else d)"

definition defaultRateLimit :: int where "defaultRateLimit = 10"
definition defaultRateBurst :: int where "defaultRateBurst = 20"
definition defaultClusterWorkers :: int where "defaultClusterWorkers = 4"

definition positive_or :: "int \<Rightarrow> string \<Rightarrow> int" where
  "positive_or d v = (case go_atoi v of None \<Rightarrow> d | Some n \<Rightarrow> if n > 0 then n else d)"

text \<open>The requests per second and the burst of the limiter; neither variable is trimmed.\<close>

definition newMutationLimiter :: "(string \<Rightarrow> string) \<Rightarrow> int \<times> int" where
  "newMutationLimiter getenv =
     (positive_or defaultRateLimit (getenv ''DASHBOARD_RATE_LIMIT''), positive_or defaultRateBurst (getenv ''DASHBOARD_RATE_BURST''))"

definition parseClusterWorkers :: "(string \<Rightarrow> string) \<Rightarrow> int" where
  "parseClusterWorkers getenv = positive_or defaultClusterWorkers (trim_space (getenv ''DASHBOARD_CLUSTER_WORKERS''))"

section \<open>Sessions\<close>

record authSession =
  an_tokenHash :: string
  an_expiresAt :: time

record auth_server =
  au_authToken :: string
  au_allowInsecureHTTP :: bool
  au_tlsCertFile :: string
  au_tlsKeyFile :: string
  au_sessionTTL :: duration
  au_sessionHMACKey :: string
  au_sessions :: "string \<rightharpoonup> authSession"

text \<open>The hash of a text, and the signature under a key in hexadecimal digits.\<close>

record crypto =
  cr_sha256 :: "string \<Rightarrow> string"
  cr_sign :: "string \<Rightarrow> string \<Rightarrow> string"

text \<open>A request as the middlewares see it, and the readings of the clock and of the random source while it is served.\<close>

record auth_request =
  aq_Method :: string
  aq_Path :: string
  aq_Authorization :: string
  aq_cookie :: "string option"

record auth_env =
  ae_validate :: "time \<times> time"
  ae_revalidate :: "time \<times> time"
  ae_created :: time
  ae_random :: "string option"
  ae_allow :: bool
  ae_unauthenticated :: bool

definition sessionCookieName :: string where "sessionCookieName = ''__dashboard_session''"

definition tlsConfigured :: "auth_server \<Rightarrow> bool" where
  "tlsConfigured sv \<longleftrightarrow> au_tlsCertFile sv \<noteq> [] \<and> au_tlsKeyFile sv \<noteq> []"

definition want_hash :: "crypto \<Rightarrow> auth_server \<Rightarrow> string" where
  "want_hash cr sv = cr_sha256 cr (au_authToken sv)"

definition createSession :: "crypto \<Rightarrow> auth_env \<Rightarrow> auth_server \<Rightarrow> string \<times> auth_server" where
  "createSession cr env sv =
     (case ae_random env of
        None \<Rightarrow> ([], sv)
      | Some sid \<Rightarrow> (sid @ ''.'' @ cr_sign cr (au_sessionHMACKey sv) sid,
          sv\<lparr>au_sessions := (au_sessions sv)(sid \<mapsto> \<lparr>an_tokenHash = want_hash cr sv, an_expiresAt = ae_created env + au_sessionTTL sv\<rparr>)\<rparr>))"

record set_cookie =
  sk_Value :: string
  sk_Secure :: bool
  sk_MaxAge :: int

definition setSessionCookie :: "crypto \<Rightarrow> auth_env \<Rightarrow> auth_server \<Rightarrow> set_cookie option \<times> auth_server" where
  "setSessionCookie cr env sv =
     (let (signed, sv') = createSession cr env sv in
      (if signed = [] then None
       else Some \<lparr>sk_Value = signed, sk_Secure = tlsConfigured sv, sk_MaxAge = f64_to_int (duration_seconds (au_sessionTTL sv))\<rparr>, sv'))"

definition bearerTokenFromHeader :: "string \<Rightarrow> string" where
  "bearerTokenFromHeader h = (if \<not> has_prefix h ''Bearer '' then [] else trim_prefix h ''Bearer '')"

text \<open>The cookie is signed, its session known, not expired and made for the token; its expiry slides. The clock is read for
  the test and for the new expiry.\<close>

definition validateSessionCookie :: "crypto \<Rightarrow> time \<times> time \<Rightarrow> auth_request \<Rightarrow> auth_server \<Rightarrow> bool \<times> auth_server" where
  "validateSessionCookie cr now req sv =
     (case aq_cookie req of
        None \<Rightarrow> (False, sv)
      | Some v \<Rightarrow>
          (case (if v = [] then None else split2 (CHR ''.'') v) of
             None \<Rightarrow> (False, sv)
           | Some (sid, sig) \<Rightarrow>
               if sig \<noteq> cr_sign cr (au_sessionHMACKey sv) sid then (False, sv)
               else (case au_sessions sv sid of
                  None \<Rightarrow> (False, sv)
                | Some s \<Rightarrow>
                    if \<not> an_expiresAt s > fst now \<or> an_tokenHash s \<noteq> want_hash cr sv
                    then (False, sv\<lparr>au_sessions := (au_sessions sv)(sid := None)\<rparr>)
                    else (True, sv\<lparr>au_sessions := (au_sessions sv)(sid \<mapsto> s\<lparr>an_expiresAt := snd now + au_sessionTTL sv\<rparr>)\<rparr>))))"

definition bearer_ok :: "crypto \<Rightarrow> auth_request \<Rightarrow> auth_server \<Rightarrow> bool" where
  "bearer_ok cr req sv \<longleftrightarrow> cr_sha256 cr (bearerTokenFromHeader (aq_Authorization req)) = want_hash cr sv"

definition validateToken :: "crypto \<Rightarrow> auth_env \<Rightarrow> auth_request \<Rightarrow> auth_server \<Rightarrow> bool \<times> auth_server" where
  "validateToken cr env req sv =
     (if bearerTokenFromHeader (aq_Authorization req) \<noteq> [] then (bearer_ok cr req sv, sv)
      else validateSessionCookie cr (ae_validate env) req sv)"

definition maybeIssueSessionCookie :: "crypto \<Rightarrow> auth_env \<Rightarrow> auth_request \<Rightarrow> auth_server \<Rightarrow> set_cookie option \<times> auth_server" where
  "maybeIssueSessionCookie cr env req sv =
     (if au_authToken sv = [] then (None, sv)
      else let (ok, sv1) = validateSessionCookie cr (ae_revalidate env) req sv in
        if ok \<or> bearerTokenFromHeader (aq_Authorization req) = [] \<or> \<not> bearer_ok cr req sv1 then (None, sv1)
        else setSessionCookie cr env sv1)"

definition cleanupAuthSessionsOnce :: "time \<Rightarrow> auth_server \<Rightarrow> auth_server" where
  "cleanupAuthSessionsOnce now sv = sv\<lparr>au_sessions := (\<lambda>sid.
     case au_sessions sv sid of None \<Rightarrow> None | Some s \<Rightarrow> if \<not> an_expiresAt s > now then None else Some s)\<rparr>"

section \<open>Middlewares\<close>

definition isMutatingMethod :: "string \<Rightarrow> bool" where
  "isMutatingMethod m \<longleftrightarrow> m = ''POST'' \<or> m = ''PUT'' \<or> m = ''DELETE''"

text \<open>A request reaches its handler, maybe with a cookie, or is answered.\<close>

datatype auth_outcome = Reached "set_cookie option" | Denied nat string

definition no_credentials :: "auth_request \<Rightarrow> bool" where
  "no_credentials req \<longleftrightarrow> aq_Authorization req = [] \<and> aq_cookie req = None"

definition refusal :: "auth_request \<Rightarrow> auth_outcome" where
  "refusal req = (if no_credentials req then Denied 401 ''Unauthorized'' else Denied 403 ''Forbidden'')"

definition authMiddleware :: "crypto \<Rightarrow> auth_env \<Rightarrow> auth_request \<Rightarrow> auth_server \<Rightarrow> auth_outcome \<times> auth_server" where
  "authMiddleware cr env req sv =
     (if au_authToken sv = []
      then (if isMutatingMethod (aq_Method req) \<and> \<not> ae_unauthenticated env
        then Denied 503 ''Authentication not configured'' else Reached None, sv)
      else let (ok, sv1) = validateToken cr env req sv in
        if ok then let (cookie, sv2) = maybeIssueSessionCookie cr env req sv1 in (Reached cookie, sv2)
        else (refusal req, sv1))"

definition sseAuthMiddleware :: "crypto \<Rightarrow> auth_env \<Rightarrow> auth_request \<Rightarrow> auth_server \<Rightarrow> auth_outcome \<times> auth_server" where
  "sseAuthMiddleware cr env req sv =
     (if au_authToken sv = [] then (Reached None, sv)
      else let (ok, sv1) = validateToken cr env req sv in (if ok then Reached None else refusal req, sv1))"

text \<open>\<open>ae_allow\<close> is the answer of the token bucket of the library.\<close>

definition rateLimitMiddleware :: "auth_env \<Rightarrow> auth_request \<Rightarrow> auth_outcome \<Rightarrow> auth_outcome" where
  "rateLimitMiddleware env req out =
     (case out of
        Reached cookie \<Rightarrow> if isMutatingMethod (aq_Method req) \<and> \<not> ae_allow env then Denied 429 ''Too many requests'' else out
      | Denied code e \<Rightarrow> out)"

section \<open>Routes\<close>

datatype guard = Auth | AuthSSE | AuthLimited

datatype endpoint =
  HealthHandler | HistoryHandler | SSEHandler | TriggerCheckHandler | AISettingsHandler | CausalGroupsHandler | ExplainHandler
| PredictionHandler | ClustersHandler | FleetSummaryHandler | AICatalogHandler | TroubleshootHandler | AcknowledgeHandler
| SnoozeHandler | IssueStatesHandler | CapabilitiesHandler | ChatHandler | IndexPage | Asset string

definition api_routes :: "(string \<times> guard \<times> endpoint) list" where
  "api_routes =
     [(''/api/health'', Auth, HealthHandler), (''/api/health/history'', Auth, HistoryHandler),
      (''/api/events'', AuthSSE, SSEHandler), (''/api/check'', AuthLimited, TriggerCheckHandler),
      (''/api/settings/ai'', AuthLimited, AISettingsHandler), (''/api/causal/groups'', Auth, CausalGroupsHandler),
      (''/api/explain'', Auth, ExplainHandler), (''/api/prediction/trend'', Auth, PredictionHandler),
      (''/api/clusters'', Auth, ClustersHandler), (''/api/fleet/summary'', Auth, FleetSummaryHandler),
      (''/api/settings/ai/catalog'', Auth, AICatalogHandler), (''/api/troubleshoot'', AuthLimited, TroubleshootHandler),
      (''/api/issues/acknowledge'', AuthLimited, AcknowledgeHandler), (''/api/issues/snooze'', AuthLimited, SnoozeHandler),
      (''/api/issue-states'', Auth, IssueStatesHandler), (''/api/capabilities'', Auth, CapabilitiesHandler),
      (''/api/chat'', AuthLimited, ChatHandler)]"

definition guarded :: "crypto \<Rightarrow> auth_env \<Rightarrow> guard \<Rightarrow> auth_request \<Rightarrow> auth_server \<Rightarrow> auth_outcome \<times> auth_server" where
  "guarded cr env g req sv =
     (case g of
        Auth \<Rightarrow> authMiddleware cr env req sv
      | AuthSSE \<Rightarrow> sseAuthMiddleware cr env req sv
      | AuthLimited \<Rightarrow> apfst (rateLimitMiddleware env req) (authMiddleware cr env req sv))"

definition serveIndex :: "crypto \<Rightarrow> auth_env \<Rightarrow> auth_request \<Rightarrow> auth_server \<Rightarrow> auth_outcome \<times> auth_server" where
  "serveIndex cr env req sv =
     (if au_authToken sv = [] then (Reached None, sv) else apfst Reached (maybeIssueSessionCookie cr env req sv))"

text \<open>Where a request goes; \<open>assets\<close> are the files of the web interface. Any other path is answered with the index page.\<close>

definition buildHandler :: "(string \<Rightarrow> bool) \<Rightarrow> crypto \<Rightarrow> auth_env \<Rightarrow> auth_request \<Rightarrow> auth_server \<Rightarrow>
    (endpoint \<times> auth_outcome) \<times> auth_server" where
  "buildHandler assets cr env req sv =
     (case map_of api_routes (aq_Path req) of
        Some (g, h) \<Rightarrow> apfst (Pair h) (guarded cr env g req sv)
      | None \<Rightarrow>
          if aq_Path req = ''/'' \<or> aq_Path req = [] \<or> \<not> assets (tl (aq_Path req))
          then apfst (Pair IndexPage) (serveIndex cr env req sv)
          else ((Asset (tl (aq_Path req)), Reached None), sv))"

definition securityHeaders :: "auth_server \<Rightarrow> (string \<times> string) list" where
  "securityHeaders sv =
     [(''Content-Security-Policy'', (''default-src '' @ [CHR 0x27] @ ''self'' @ [CHR 0x27] @ ''; script-src '' @ [CHR 0x27] @
       ''self'' @ [CHR 0x27] @ ''; style-src '' @ [CHR 0x27] @ ''self'' @ [CHR 0x27] @ '' '' @
       [CHR 0x27] @ ''unsafe-inline'' @ [CHR 0x27])),
      (''X-Content-Type-Options'', ''nosniff''), (''X-Frame-Options'', ''DENY''),
      (''Referrer-Policy'', ''strict-origin-when-cross-origin''),
      (''Permissions-Policy'', ''camera=(), microphone=(), geolocation=()'')] @
     (if tlsConfigured sv then [(''Strict-Transport-Security'', ''max-age=31536000; includeSubDomains'')] else [])"

section \<open>Starting\<close>

definition validateSecurityConfig :: "(string \<Rightarrow> string) \<Rightarrow> auth_server \<Rightarrow> string option" where
  "validateSecurityConfig getenv sv =
     (if au_authToken sv = []
      then if parseBoolEnv getenv ''DASHBOARD_ALLOW_UNAUTHENTICATED_DASHBOARD'' then None
        else Some ''dashboard auth is not configured; set DASHBOARD_AUTH_TOKEN or set DASHBOARD_ALLOW_UNAUTHENTICATED_DASHBOARD=true for local development only''
      else if tlsConfigured sv \<or> au_allowInsecureHTTP sv then None
      else Some ''dashboard auth is configured but TLS is not enabled; configure dashboard TLS cert/key or set DASHBOARD_ALLOW_INSECURE_HTTP=true for local development only'')"

text \<open>\<open>key\<close> is random.\<close>

definition new_auth :: "(string \<Rightarrow> string) \<Rightarrow> string \<Rightarrow> auth_server" where
  "new_auth getenv key =
     \<lparr>au_authToken = getenv ''DASHBOARD_AUTH_TOKEN'', au_allowInsecureHTTP = parseBoolEnv getenv ''DASHBOARD_ALLOW_INSECURE_HTTP'',
      au_tlsCertFile = [], au_tlsKeyFile = [], au_sessionTTL = parseSessionTTL getenv, au_sessionHMACKey = key,
      au_sessions = Map.empty\<rparr>"

definition WithTLS :: "string \<Rightarrow> string \<Rightarrow> auth_server \<Rightarrow> auth_server" where
  "WithTLS cert key sv = sv\<lparr>au_tlsCertFile := cert, au_tlsKeyFile := key\<rparr>"


section \<open>Sessions prove the token\<close>

datatype auth_call = Request auth_env auth_request | Cleanup time

primrec auth_call_step :: "(string \<Rightarrow> bool) \<Rightarrow> crypto \<Rightarrow> auth_call \<Rightarrow> auth_server \<Rightarrow> auth_server" where
  "auth_call_step assets cr (Request env req) sv = snd (buildHandler assets cr env req sv)"
| "auth_call_step assets cr (Cleanup now) sv = cleanupAuthSessionsOnce now sv"

definition auth_run :: "(string \<Rightarrow> bool) \<Rightarrow> crypto \<Rightarrow> auth_call list \<Rightarrow> auth_server \<Rightarrow> auth_server" where
  "auth_run assets cr = fold (auth_call_step assets cr)"

text \<open>A request that shows the token, one that presents the cookie of a session which the server holds and which is not
  over at the clock of one of its two tests, and the times to which a request may set the use of a session: the creation of
  the session that it was given for the token, or the tests of its own cookie.\<close>

definition shows_token :: "crypto \<Rightarrow> auth_server \<Rightarrow> auth_request \<Rightarrow> bool" where
  "shows_token cr sv req \<longleftrightarrow> bearerTokenFromHeader (aq_Authorization req) \<noteq> [] \<and> bearer_ok cr req sv"

definition cookie_for :: "crypto \<Rightarrow> auth_server \<Rightarrow> string \<Rightarrow> string" where
  "cookie_for cr sv sid = sid @ CHR ''.'' # cr_sign cr (au_sessionHMACKey sv) sid"

definition presents_session :: "crypto \<Rightarrow> auth_server \<Rightarrow> auth_env \<Rightarrow> auth_request \<Rightarrow> string \<Rightarrow> bool" where
  "presents_session cr sv env req sid \<longleftrightarrow> aq_cookie req = Some (cookie_for cr sv sid) \<and>
     (case au_sessions sv sid of
        None \<Rightarrow> False
      | Some s \<Rightarrow> fst (ae_validate env) < an_expiresAt s \<or> fst (ae_revalidate env) < an_expiresAt s)"

definition used_at :: "auth_env \<Rightarrow> bool \<Rightarrow> (string \<Rightarrow> bool) \<Rightarrow> string \<Rightarrow> time \<Rightarrow> bool" where
  "used_at env token live sid t \<longleftrightarrow> token \<and> ae_random env = Some sid \<and> t = ae_created env \<or>
     live sid \<and> (t = snd (ae_validate env) \<or> t = snd (ae_revalidate env))"

definition same_config :: "auth_server \<Rightarrow> auth_server \<Rightarrow> bool" where
  "same_config sv sv' \<longleftrightarrow> sv' = sv\<lparr>au_sessions := au_sessions sv'\<rparr>"

lemma same_config_refl [simp]: "same_config sv sv"
  by (simp add: same_config_def)

lemma same_config_trans: "same_config a b \<Longrightarrow> same_config b c \<Longrightarrow> same_config a c"
  by (metis same_config_def auth_server.surjective auth_server.update_convs(7))

lemma same_config_parts:
  assumes "same_config sv sv'"
  shows "au_authToken sv' = au_authToken sv" "au_sessionTTL sv' = au_sessionTTL sv" "au_sessionHMACKey sv' = au_sessionHMACKey sv"
    "want_hash cr sv' = want_hash cr sv" "bearer_ok cr req sv' = bearer_ok cr req sv" "shows_token cr sv' req = shows_token cr sv req"
proof -
  obtain m where "sv' = sv\<lparr>au_sessions := m\<rparr>" using assms by (auto simp: same_config_def)
  then show "au_authToken sv' = au_authToken sv" "au_sessionTTL sv' = au_sessionTTL sv" "au_sessionHMACKey sv' = au_sessionHMACKey sv"
      "want_hash cr sv' = want_hash cr sv" "bearer_ok cr req sv' = bearer_ok cr req sv" "shows_token cr sv' req = shows_token cr sv req"
    by (simp_all add: want_hash_def bearer_ok_def shows_token_def)
qed

lemma same_config_update [simp]: "same_config sv (sv\<lparr>au_sessions := m\<rparr>)"
  by (simp add: same_config_def)

text \<open>What a step does to the sessions: none appears that was not there, except for a request that shows the token, and
  every expiry that changes is the time of a use of this session plus the lifetime. \<open>live\<close> are the sessions that the request
  presents.\<close>

definition step_sessions :: "auth_env \<Rightarrow> bool \<Rightarrow> (string \<Rightarrow> bool) \<Rightarrow> auth_server \<Rightarrow> auth_server \<Rightarrow> bool" where
  "step_sessions env token live sv sv' \<longleftrightarrow> same_config sv sv' \<and>
     (\<forall>sid s'. au_sessions sv' sid = Some s' \<longrightarrow>
        (au_sessions sv sid \<noteq> None \<or> token \<and> ae_random env = Some sid) \<and>
        (au_sessions sv sid = Some s' \<or> (\<exists>t. used_at env token live sid t \<and> an_expiresAt s' = t + au_sessionTTL sv)))"

lemma step_sessions_refl [simp]: "step_sessions env token live sv sv"
  by (simp add: step_sessions_def)

lemma step_sessions_trans:
  assumes "step_sessions env token live a b" "step_sessions env token live b c"
  shows "step_sessions env token live a c"
proof -
  have c: "same_config a c" "au_sessionTTL b = au_sessionTTL a"
    using assms same_config_trans same_config_parts(2) unfolding step_sessions_def by blast+
  have "(au_sessions a sid \<noteq> None \<or> token \<and> ae_random env = Some sid) \<and>
      (au_sessions a sid = Some s \<or> (\<exists>t. used_at env token live sid t \<and> an_expiresAt s = t + au_sessionTTL a))"
    if s: "au_sessions c sid = Some s" for sid s
  proof -
    have late: "au_sessions b sid \<noteq> None \<or> token \<and> ae_random env = Some sid"
        "au_sessions b sid = Some s \<or> (\<exists>t. used_at env token live sid t \<and> an_expiresAt s = t + au_sessionTTL a)"
      using assms(2) s c(2) by (simp_all add: step_sessions_def)
    have early: "au_sessions a sid \<noteq> None \<or> token \<and> ae_random env = Some sid"
        "au_sessions a sid = Some u \<or> (\<exists>t. used_at env token live sid t \<and> an_expiresAt u = t + au_sessionTTL a)"
      if "au_sessions b sid = Some u" for u
      using assms(1) that by (simp_all add: step_sessions_def)
    show ?thesis using late early by blast
  qed
  then show ?thesis using c(1) unfolding step_sessions_def by blast
qed

lemma step_remove: "step_sessions env token live sv (sv\<lparr>au_sessions := (au_sessions sv)(sid := None)\<rparr>)"
  by (simp add: step_sessions_def)

lemma step_put:
  assumes "an_expiresAt s = t + au_sessionTTL sv" "used_at env token live sid t"
    "au_sessions sv sid \<noteq> None \<or> token \<and> ae_random env = Some sid"
  shows "step_sessions env token live sv (sv\<lparr>au_sessions := (au_sessions sv)(sid \<mapsto> s)\<rparr>)"
  using assms by (auto simp: step_sessions_def)

text \<open>A test of the cookie touches only the session that the cookie names, and only while it is not over.\<close>

definition names_live :: "crypto \<Rightarrow> auth_server \<Rightarrow> time \<Rightarrow> auth_request \<Rightarrow> string \<Rightarrow> bool" where
  "names_live cr sv now req sid \<longleftrightarrow> aq_cookie req = Some (cookie_for cr sv sid) \<and>
     (case au_sessions sv sid of None \<Rightarrow> False | Some s \<Rightarrow> now < an_expiresAt s)"

lemma validate_cases:
  obtains (same) ok where "validateSessionCookie cr now req sv = (False, sv)"
  | (removed) sid where "validateSessionCookie cr now req sv = (False, sv\<lparr>au_sessions := (au_sessions sv)(sid := None)\<rparr>)"
  | (renewed) sid s where "au_sessions sv sid = Some s" "names_live cr sv (fst now) req sid"
      "validateSessionCookie cr now req sv =
         (True, sv\<lparr>au_sessions := (au_sessions sv)(sid \<mapsto> s\<lparr>an_expiresAt := snd now + au_sessionTTL sv\<rparr>)\<rparr>)"
proof (cases "fst (validateSessionCookie cr now req sv)")
  case True
  then obtain v sid sig s where "aq_cookie req = Some v" "split2 (CHR ''.'') v = Some (sid, sig)"
      "sig = cr_sign cr (au_sessionHMACKey sv) sid" "au_sessions sv sid = Some s" "an_expiresAt s > fst now"
      "validateSessionCookie cr now req sv =
         (True, sv\<lparr>au_sessions := (au_sessions sv)(sid \<mapsto> s\<lparr>an_expiresAt := snd now + au_sessionTTL sv\<rparr>)\<rparr>)"
    by (auto simp: validateSessionCookie_def split: option.splits prod.splits if_splits)
  then show ?thesis using renewed by (simp add: names_live_def cookie_for_def split2_Some)
next
  case False
  then show ?thesis
    using same removed by (auto simp: validateSessionCookie_def split: option.splits prod.splits if_splits)
qed

lemma validate_sessions:
  assumes "validateSessionCookie cr now req sv = (ok, sv')" "now = ae_validate env \<or> now = ae_revalidate env"
    and "\<And>sid. names_live cr sv (fst now) req sid \<Longrightarrow> live sid"
  shows "step_sessions env token live sv sv'"
  using validate_cases [of cr now req sv]
proof cases
  case (renewed sid s)
  then have "live sid" using assms(3) by blast
  then have "used_at env token live sid (snd now)" using assms(2) by (auto simp: used_at_def)
  then show ?thesis using renewed assms(1) by (auto intro: step_put)
qed (use assms(1) step_remove in auto)

lemma create_sessions:
  assumes "setSessionCookie cr env sv = (c, sv')" "token"
  shows "step_sessions env token live sv sv'"
proof -
  have "step_sessions env token live sv (snd (createSession cr env sv))"
    using assms(2) by (auto simp: createSession_def used_at_def intro!: step_put split: option.split)
  then show ?thesis using assms(1) by (simp add: setSessionCookie_def split: prod.splits)
qed

lemma issue_sessions:
  assumes "maybeIssueSessionCookie cr env req sv = (c, sv')"
    and "\<And>sid. names_live cr sv (fst (ae_revalidate env)) req sid \<Longrightarrow> live sid"
  shows "step_sessions env (shows_token cr sv req) live sv sv'"
proof (cases "au_authToken sv = []")
  case False
  obtain ok sv1 where v: "validateSessionCookie cr (ae_revalidate env) req sv = (ok, sv1)" by fastforce
  then have s1: "step_sessions env (shows_token cr sv req) live sv sv1" using validate_sessions assms(2) by blast
  then have "bearer_ok cr req sv1 = bearer_ok cr req sv" using same_config_parts by (simp add: step_sessions_def)
  then show ?thesis
    using assms(1) v False s1 create_sessions [of cr env sv1 c sv' "shows_token cr sv req"] step_sessions_trans
    by (auto simp: maybeIssueSessionCookie_def shows_token_def split: if_splits)
qed (use assms in \<open>simp add: maybeIssueSessionCookie_def\<close>)

lemma names_live_presents:
  "names_live cr sv (fst (ae_validate env)) req sid \<Longrightarrow> presents_session cr sv env req sid"
  "names_live cr sv (fst (ae_revalidate env)) req sid \<Longrightarrow> presents_session cr sv env req sid"
  by (auto simp: names_live_def presents_session_def split: option.splits)

lemma token_sessions:
  assumes "validateToken cr env req sv = (ok, sv')"
  shows "step_sessions env token (presents_session cr sv env req) sv sv'"
  using assms validate_sessions [of cr "ae_validate env" req sv ok sv' env "presents_session cr sv env req" token] names_live_presents(1)
  by (auto simp: validateToken_def split: if_splits)

text \<open>What the second test of a request finds was presented at the first, or the first was not a test of the cookie.\<close>

lemma second_test:
  assumes "validateToken cr env req sv = (True, sv1)" "names_live cr sv1 now req sid" "now = fst (ae_revalidate env)"
  shows "presents_session cr sv env req sid"
proof (cases "bearerTokenFromHeader (aq_Authorization req) = []")
  case True
  then have v: "validateSessionCookie cr (ae_validate env) req sv = (True, sv1)" using assms(1) by (simp add: validateToken_def)
  from validate_cases [of cr "ae_validate env" req sv] show ?thesis
  proof cases
    case (renewed sid1 s)
    then have "cookie_for cr sv1 sid = cookie_for cr sv sid1"
      using assms(2) by (simp add: names_live_def)
    moreover have "cookie_for cr sv1 sid = cookie_for cr sv sid"
      using renewed(3) v by (auto simp: cookie_for_def)
    ultimately have c: "aq_cookie req = Some (cookie_for cr sv sid)" using renewed(2) by (simp add: names_live_def)
    have "au_sessions sv sid \<noteq> None \<and> (sid = sid1 \<or> au_sessions sv sid = au_sessions sv1 sid)"
      using assms(2) renewed(1,3) v by (auto simp: names_live_def split: option.splits if_splits)
    then show ?thesis
      using c assms(2,3) renewed(1,2) by (auto simp: presents_session_def names_live_def split: option.splits)
  qed (use v in auto)
next
  case False
  then have "sv1 = sv" using assms(1) by (simp add: validateToken_def)
  then show ?thesis using assms(2,3) names_live_presents(2) by simp
qed

lemma middleware_sessions:
  assumes "authMiddleware cr env req sv = (out, sv')"
  shows "step_sessions env (shows_token cr sv req) (presents_session cr sv env req) sv sv'"
proof (cases "au_authToken sv = []")
  case False
  obtain ok sv1 where v: "validateToken cr env req sv = (ok, sv1)" by fastforce
  then have s1: "step_sessions env (shows_token cr sv req) (presents_session cr sv env req) sv sv1" by (rule token_sessions)
  then have t: "shows_token cr sv1 req = shows_token cr sv req" using same_config_parts by (simp add: step_sessions_def)
  show ?thesis
  proof (cases ok)
    case True
    obtain c sv2 where m: "maybeIssueSessionCookie cr env req sv1 = (c, sv2)" by fastforce
    have "step_sessions env (shows_token cr sv1 req) (presents_session cr sv env req) sv1 sv2"
    proof (rule issue_sessions [OF m])
      show "presents_session cr sv env req sid" if "names_live cr sv1 (fst (ae_revalidate env)) req sid" for sid
        using second_test [OF _ that refl] v True by simp
    qed
    then have "step_sessions env (shows_token cr sv req) (presents_session cr sv env req) sv sv2"
      using s1 unfolding t by (rule step_sessions_trans [rotated])
    then show ?thesis using assms v False True m by (simp add: authMiddleware_def)
  qed (use assms v False s1 in \<open>simp add: authMiddleware_def\<close>)
qed (use assms in \<open>simp add: authMiddleware_def\<close>)

lemma request_sessions:
  "step_sessions env (shows_token cr sv req) (presents_session cr sv env req) sv (snd (buildHandler assets cr env req sv))"
proof -
  let ?st = "step_sessions env (shows_token cr sv req) (presents_session cr sv env req) sv"
  have "?st (snd (guarded cr env g req sv))" for g
  proof (cases g)
    case AuthSSE
    then show ?thesis using token_sessions by (auto simp: guarded_def sseAuthMiddleware_def split: prod.splits)
  qed (use middleware_sessions [OF surjective_pairing] in \<open>simp_all add: guarded_def\<close>)
  moreover have "?st (snd (serveIndex cr env req sv))"
    using issue_sessions [OF surjective_pairing] names_live_presents(2) by (simp add: serveIndex_def)
  ultimately show ?thesis by (auto simp: buildHandler_def split: option.split)
qed

text \<open>Every session was made by a request that showed the token, and its expiry is a lifetime after the clock of a request
  that was given this session for the token or presented it. \<open>at\<close> is the server that a call met.\<close>

definition session_used :: "(auth_call list \<Rightarrow> auth_server) \<Rightarrow> crypto \<Rightarrow> auth_call list \<Rightarrow> auth_server \<Rightarrow> string \<Rightarrow> time \<Rightarrow> bool" where
  "session_used server_after cr calls sv sid t \<longleftrightarrow>
     (\<exists>pre env req post. calls = pre @ Request env req # post \<and>
        used_at env (shows_token cr sv req) (presents_session cr (server_after pre) env req) sid t)"

definition session_backed :: "(auth_call list \<Rightarrow> auth_server) \<Rightarrow> crypto \<Rightarrow> auth_call list \<Rightarrow> auth_server \<Rightarrow> string \<Rightarrow> authSession \<Rightarrow> bool" where
  "session_backed server_after cr calls sv sid s \<longleftrightarrow>
     (\<exists>env req. Request env req \<in> set calls \<and> shows_token cr sv req \<and> ae_random env = Some sid) \<and>
     (\<exists>t. session_used server_after cr calls sv sid t \<and> an_expiresAt s = t + au_sessionTTL sv)"

lemma session_used_append: "session_used sa cr calls sv sid t \<Longrightarrow> session_used sa cr (calls @ [c]) sv sid t"
  unfolding session_used_def by (metis append_Cons append_assoc)

lemma session_backed_append: "session_backed sa cr calls sv sid s \<Longrightarrow> session_backed sa cr (calls @ [c]) sv sid s"
  using session_used_append unfolding session_backed_def by fastforce

lemma run_sessions:
  assumes "au_sessions sv = Map.empty"
  shows "same_config sv (auth_run assets cr calls sv) \<and>
    (\<forall>sid s. au_sessions (auth_run assets cr calls sv) sid = Some s \<longrightarrow>
       session_backed (\<lambda>pre. auth_run assets cr pre sv) cr calls sv sid s)"
proof (induction calls rule: rev_induct)
  case (snoc c calls)
  let ?sv = "auth_run assets cr calls sv" and ?sa = "\<lambda>pre. auth_run assets cr pre sv"
  have run: "auth_run assets cr (calls @ [c]) sv = auth_call_step assets cr c ?sv" by (simp add: auth_run_def)
  have conf: "same_config sv ?sv" using snoc by blast
  have old: "session_backed ?sa cr (calls @ [c]) sv sid s" if "au_sessions ?sv sid = Some s" for sid s
    using snoc that session_backed_append by blast
  show ?case
  proof (cases c)
    case (Cleanup now)
    then show ?thesis using conf old same_config_trans unfolding run
      by (auto simp: cleanupAuthSessionsOnce_def split: option.splits if_splits)
  next
    case (Request env req)
    let ?sv' = "auth_call_step assets cr c ?sv" and ?live = "presents_session cr ?sv env req"
    have st: "step_sessions env (shows_token cr ?sv req) ?live ?sv ?sv'" using request_sessions Request by simp
    have eq: "au_sessionTTL ?sv = au_sessionTTL sv" "shows_token cr ?sv req = shows_token cr sv req"
      using conf same_config_parts by blast+
    have "session_backed ?sa cr (calls @ [c]) sv sid s" if s: "au_sessions ?sv' sid = Some s" for sid s
    proof -
      have made: "au_sessions ?sv sid \<noteq> None \<or> shows_token cr sv req \<and> ae_random env = Some sid"
        and time: "au_sessions ?sv sid = Some s \<or>
          (\<exists>t. used_at env (shows_token cr sv req) ?live sid t \<and> an_expiresAt s = t + au_sessionTTL sv)"
        using st s unfolding step_sessions_def eq by blast+
      have "\<exists>env req. Request env req \<in> set (calls @ [c]) \<and> shows_token cr sv req \<and> ae_random env = Some sid"
        using made old Request unfolding session_backed_def by fastforce
      moreover have "\<exists>t. session_used ?sa cr (calls @ [c]) sv sid t \<and> an_expiresAt s = t + au_sessionTTL sv"
        using time
      proof
        assume "au_sessions ?sv sid = Some s"
        then show ?thesis using old by (auto simp: session_backed_def)
      next
        assume "\<exists>t. used_at env (shows_token cr sv req) ?live sid t \<and> an_expiresAt s = t + au_sessionTTL sv"
        moreover have "calls @ [c] = calls @ Request env req # []" using Request by simp
        ultimately show ?thesis unfolding session_used_def by metis
      qed
      ultimately show ?thesis by (simp add: session_backed_def)
    qed
    moreover have "same_config sv ?sv'" using conf st same_config_trans by (auto simp: step_sessions_def)
    ultimately show ?thesis unfolding run by blast
  qed
qed (simp add: auth_run_def assms)

lemma accepted_cookie:
  assumes "validateSessionCookie cr now req sv = (True, sv')"
  obtains sid s where "aq_cookie req = Some (sid @ CHR ''.'' # cr_sign cr (au_sessionHMACKey sv) sid)" "au_sessions sv sid = Some s"
    "fst now < an_expiresAt s"
  using assms
  by (auto simp: validateSessionCookie_def split2_Some split: option.splits prod.splits if_splits)

lemma reached_valid:
  assumes "guarded cr env g req sv = (Reached c, sv')" "au_authToken sv \<noteq> []"
  shows "\<exists>sv1. validateToken cr env req sv = (True, sv1)"
proof (cases g)
  case Auth
  then show ?thesis using assms by (auto simp: guarded_def authMiddleware_def refusal_def split: prod.splits if_splits)
next
  case AuthSSE
  then show ?thesis using assms by (auto simp: guarded_def sseAuthMiddleware_def refusal_def split: prod.splits if_splits)
next
  case AuthLimited
  then obtain out where o: "authMiddleware cr env req sv = (out, sv')" "rateLimitMiddleware env req out = Reached c"
    using assms(1) by (cases "authMiddleware cr env req sv") (auto simp: guarded_def)
  then obtain c' where "out = Reached c'" by (cases out) (auto simp: rateLimitMiddleware_def)
  then show ?thesis using o(1) assms(2) by (auto simp: authMiddleware_def refusal_def split: prod.splits if_splits)
qed

text \<open>C6. With a token configured, no request reaches a handler of the API without it: after any requests and clean-ups, a
  request that gets through either shows a bearer token with the hash of the configured one, or a cookie signed with the key
  of the server for a session that an earlier request was given for such a token; and less than the lifetime of a session
  before, an earlier request was given this very session for the token, or presented the signed cookie of this very session
  while the server held it and it was not over.\<close>

theorem api_needs_token:
  assumes "au_authToken sv \<noteq> []" "au_sessions sv = Map.empty" "map_of api_routes (aq_Path req) \<noteq> None"
    and "buildHandler assets cr env req (auth_run assets cr calls sv) = ((h, Reached c), sv')"
  shows "shows_token cr sv req \<or>
    (\<exists>sid env0 req0 pre env1 req1 post t.
       aq_cookie req = Some (sid @ CHR ''.'' # cr_sign cr (au_sessionHMACKey sv) sid) \<and>
       Request env0 req0 \<in> set calls \<and> shows_token cr sv req0 \<and> ae_random env0 = Some sid \<and>
       calls = pre @ Request env1 req1 # post \<and> fst (ae_validate env) < t + au_sessionTTL sv \<and>
       (shows_token cr sv req1 \<and> ae_random env1 = Some sid \<and> t = ae_created env1 \<or>
        presents_session cr (auth_run assets cr pre sv) env1 req1 sid \<and>
          (t = snd (ae_validate env1) \<or> t = snd (ae_revalidate env1))))"
proof -
  let ?sv = "auth_run assets cr calls sv" and ?sa = "\<lambda>pre. auth_run assets cr pre sv"
  have conf: "same_config sv ?sv" and backed: "\<And>sid s. au_sessions ?sv sid = Some s \<Longrightarrow> session_backed ?sa cr calls sv sid s"
    using run_sessions [OF assms(2)] by blast+
  note eq = same_config_parts [OF conf]
  obtain g where "guarded cr env g req ?sv = (Reached c, sv')"
    using assms(3,4) by (auto simp: buildHandler_def apfst_def map_prod_def split: prod.splits)
  then obtain sv1 where v: "validateToken cr env req ?sv = (True, sv1)" using reached_valid assms(1) eq(1) by metis
  show ?thesis
  proof (cases "bearerTokenFromHeader (aq_Authorization req) = []")
    case False
    then show ?thesis using v eq(5) by (simp add: validateToken_def shows_token_def)
  next
    case True
    then have "validateSessionCookie cr (ae_validate env) req ?sv = (True, sv1)" using v by (simp add: validateToken_def)
    then obtain sid s where s: "aq_cookie req = Some (sid @ CHR ''.'' # cr_sign cr (au_sessionHMACKey ?sv) sid)"
        "au_sessions ?sv sid = Some s" "fst (ae_validate env) < an_expiresAt s"
      by (rule accepted_cookie)
    obtain t where "session_used ?sa cr calls sv sid t" "fst (ae_validate env) < t + au_sessionTTL sv"
      using backed [OF s(2)] s(3) by (auto simp: session_backed_def)
    then show ?thesis using backed [OF s(2)] s(1) eq(3) unfolding session_backed_def session_used_def used_at_def by metis
  qed
qed

text \<open>A browser shows the token once and comes back with the cookie.\<close>

definition ex_crypto :: crypto where
  "ex_crypto = \<lparr>cr_sha256 = (\<lambda>s. ''hash of '' @ s), cr_sign = (\<lambda>key s. ''signature'')\<rparr>"

definition ex_auth_env :: "time \<Rightarrow> auth_env" where
  "ex_auth_env t = \<lparr>ae_validate = (t, t), ae_revalidate = (t, t), ae_created = t, ae_random = Some ''a1b2'', ae_allow = True,
     ae_unauthenticated = False\<rparr>"

definition ex_login :: auth_request where
  "ex_login = \<lparr>aq_Method = ''GET'', aq_Path = ''/'', aq_Authorization = ''Bearer secret'', aq_cookie = None\<rparr>"

definition ex_visit :: auth_request where
  "ex_visit = \<lparr>aq_Method = ''POST'', aq_Path = ''/api/chat'', aq_Authorization = [], aq_cookie = Some ''a1b2.signature''\<rparr>"

definition ex_auth_server :: auth_server where
  "ex_auth_server = \<lparr>au_authToken = ''secret'', au_allowInsecureHTTP = True, au_tlsCertFile = [], au_tlsKeyFile = [],
     au_sessionTTL = 60, au_sessionHMACKey = ''key'', au_sessions = Map.empty\<rparr>"

lemma ex_visit_reaches:
  "\<exists>sv'. buildHandler (\<lambda>_. False) ex_crypto (ex_auth_env 50) ex_visit
     (auth_run (\<lambda>_. False) ex_crypto [Request (ex_auth_env 10) ex_login, Cleanup 40] ex_auth_server) = ((ChatHandler, Reached None), sv')"
  by (simp add: auth_run_def buildHandler_def serveIndex_def maybeIssueSessionCookie_def validateSessionCookie_def setSessionCookie_def
      createSession_def cleanupAuthSessionsOnce_def bearer_ok_def want_hash_def bearerTokenFromHeader_def trim_prefix_def
      guarded_def authMiddleware_def validateToken_def rateLimitMiddleware_def api_routes_def
      ex_crypto_def ex_auth_env_def ex_login_def ex_visit_def ex_auth_server_def Let_def)

lemma api_needs_token_witness:
  "\<exists>sid. aq_cookie ex_visit = Some (sid @ CHR ''.'' # ''signature'') \<and> ae_random (ex_auth_env 10) = Some sid \<and>
     shows_token ex_crypto ex_auth_server ex_login"
proof -
  let ?calls = "[Request (ex_auth_env 10) ex_login, Cleanup 40]"
  obtain sv' where r: "buildHandler (\<lambda>_. False) ex_crypto (ex_auth_env 50) ex_visit
      (auth_run (\<lambda>_. False) ex_crypto ?calls ex_auth_server) = ((ChatHandler, Reached None), sv')"
    using ex_visit_reaches by blast
  have a: "au_authToken ex_auth_server \<noteq> []" "au_sessions ex_auth_server = Map.empty"
    "map_of api_routes (aq_Path ex_visit) \<noteq> None"
    by (simp_all add: ex_auth_server_def ex_visit_def api_routes_def)
  have "\<not> shows_token ex_crypto ex_auth_server ex_visit" by (simp add: shows_token_def bearerTokenFromHeader_def ex_visit_def)
  then obtain sid env0 req0 where "aq_cookie ex_visit = Some (sid @ CHR ''.'' # cr_sign ex_crypto (au_sessionHMACKey ex_auth_server) sid)"
      "Request env0 req0 \<in> set ?calls" "shows_token ex_crypto ex_auth_server req0" "ae_random env0 = Some sid"
    using api_needs_token [OF a r] by blast
  then show ?thesis by (auto simp: ex_crypto_def)
qed

end
