(* ===== verification/Dashboard_Views.thy ===== *)
theory Dashboard_Views
  imports Dashboard_Cache Prediction
begin

text \<open>
  What the dashboard shows (\<open>internal/dashboard/handlers_health.go\<close>, \<open>handlers_causal.go\<close>, and the catalog and the
  explanation of \<open>handlers_ai.go\<close>): the latest update, its history, the stream of updates, the trend, and the narrative that
  the provider writes. Encoding is not modelled: an answer is the value that is encoded. \<open>None\<close> is a panic.
\<close>

section \<open>Health and history\<close>

datatype 'a view = Initializing | Shown 'a

definition handleHealth :: "time \<Rightarrow> string \<Rightarrow> clusters \<Rightarrow> HealthUpdate view" where
  "handleHealth now cluster cls =
     (case cls cluster of
        None \<Rightarrow> Initializing
      | Some cs \<Rightarrow>
          (case cs_latest cs of
             None \<Rightarrow> Initializing
           | Some u \<Rightarrow> Shown (u\<lparr>hu_IssueStates := unexpired now (cs_issueStates cs)\<rparr>)))"

definition invalid_last :: "'a answer" where
  "invalid_last = HttpError 400 (''invalid '' @ [CHR 0x27] @ ''last'' @ [CHR 0x27] @ '' parameter'')"

definition invalid_since :: "'a answer" where
  "invalid_since = HttpError 400 (''invalid '' @ [CHR 0x27] @ ''since'' @ [CHR 0x27] @ '' parameter, use RFC3339'')"

text \<open>Of an unknown cluster the parameters are checked, and the history is empty.\<close>

definition history_unknown :: "string \<Rightarrow> string \<Rightarrow> HealthSnapshot list answer" where
  "history_unknown last_param since_param =
     (if last_param \<noteq> [] \<and> (case go_atoi last_param of None \<Rightarrow> True | Some n \<Rightarrow> n < 1) then invalid_last
      else if since_param \<noteq> [] \<and> parse_rfc3339 since_param = None then invalid_since
      else HttpOk 200 [])"

definition history_known :: "string \<Rightarrow> string \<Rightarrow> RingBuffer \<Rightarrow> HealthSnapshot list answer option" where
  "history_known last_param since_param rb =
     (if last_param \<noteq> []
      then (case go_atoi last_param of
          None \<Rightarrow> Some invalid_last
        | Some n \<Rightarrow> if n < 1 then Some invalid_last
            else map_option (HttpOk 200) (history_Last (if n > 1000 then 1000 else n) rb))
      else if since_param \<noteq> []
      then (case parse_rfc3339 since_param of
          None \<Rightarrow> Some invalid_since
        | Some t \<Rightarrow> map_option (HttpOk 200) (history_Since t rb))
      else map_option (HttpOk 200) (history_Last 50 rb))"

definition handleHealthHistory :: "string \<Rightarrow> string \<Rightarrow> string \<Rightarrow> clusters \<Rightarrow> HealthSnapshot list answer option" where
  "handleHealthHistory last_param since_param cluster cls =
     (case cls cluster of
        None \<Rightarrow> Some (history_unknown last_param since_param)
      | Some cs \<Rightarrow> history_known last_param since_param (cs_history cs))"

section \<open>The fleet, the capabilities, the catalog\<close>

record FleetClusterEntry =
  fc_ClusterID :: string
  fc_Summary :: Summary
  fc_LastUpdated :: string

text \<open>The entry repeats the fields of the summary. \<open>ids\<close> are the clusters in the order in which the map is visited.\<close>

definition handleFleetSummary :: "string list \<Rightarrow> clusters \<Rightarrow> FleetClusterEntry list" where
  "handleFleetSummary ids cls =
     List.map_filter (\<lambda>id. map_option
       (\<lambda>u. \<lparr>fc_ClusterID = id, fc_Summary = hu_Summary u, fc_LastUpdated = format_rfc3339 (hu_Timestamp u)\<rparr>)
       (Option.bind (cls id) cs_latest)) ids"

text \<open>\<open>console\<close> is the answer of the console, when the data come from one.\<close>

definition handleClusters :: "(string + string list) option \<Rightarrow> string list" where
  "handleClusters console = (case console of Some (Inr ids) \<Rightarrow> ids | _ \<Rightarrow> [])"

definition handleCapabilities :: "bool \<Rightarrow> bool \<Rightarrow> bool \<Rightarrow> (string \<times> bool) list" where
  "handleCapabilities writer chatEnabled aiEnabled = [(''troubleshootCreate'', writer), (''chat'', chatEnabled \<and> aiEnabled)]"

definition handleAICatalog :: "string \<Rightarrow> ModelCatalog" where
  "handleAICatalog provider =
     (if provider = [] then DefaultCatalog
      else case map_of DefaultCatalog provider of None \<Rightarrow> [] | Some ms \<Rightarrow> [(provider, ms)])"

text \<open>A check is started unless one that was triggered is running; the flag is cleared when it ends.\<close>

definition handleTriggerCheck :: "http_method \<Rightarrow> bool \<Rightarrow> string answer \<times> bool" where
  "handleTriggerCheck m in_flight =
     (if m \<noteq> POST then (method_not_allowed, in_flight)
      else if in_flight then (HttpOk 200 ''check already in progress'', in_flight)
      else (HttpOk 200 ''check triggered'', True))"

section \<open>Groups and trend\<close>

definition empty_causal :: CausalContext where
  "empty_causal = \<lparr>cx_Groups = [], cx_UncorrelatedCount = 0, cx_TotalIssues = 0\<rparr>"

definition handleCausalGroups :: "string \<Rightarrow> clusters \<Rightarrow> CausalContext" where
  "handleCausalGroups cluster cls =
     (case Option.bind (cls cluster) cs_latestCausal of None \<Rightarrow> empty_causal | Some cc \<Rightarrow> cc)"

definition handlePrediction :: "http_method \<Rightarrow> (HealthSnapshot list \<Rightarrow> string list) \<Rightarrow> string \<Rightarrow> clusters \<Rightarrow>
    PredictionResult option answer option" where
  "handlePrediction m keys cluster cls =
     (if m \<noteq> GET then Some method_not_allowed
      else case cls cluster of
        None \<Rightarrow> Some (HttpOk 200 None)
      | Some cs \<Rightarrow> map_option (\<lambda>snaps. HttpOk 200 (prediction_Analyze (keys snaps) snaps)) (history_Last 50 (cs_history cs)))"

section \<open>The stream of updates\<close>

text \<open>What the stream starts with: the update of the cluster, or those of all clusters for a subscription to the fleet.\<close>

definition sse_initial :: "string list \<Rightarrow> string \<Rightarrow> clusters \<Rightarrow> HealthUpdate list" where
  "sse_initial ids cluster cls =
     (case Option.bind (cls cluster) cs_latest of
        Some u \<Rightarrow> [u]
      | None \<Rightarrow> if cluster = [] then List.map_filter (\<lambda>id. Option.bind (cls id) cs_latest) ids else [])"

text \<open>Broadcasts to a subscriber, and its turns at the channel.\<close>

datatype sse_event = Broadcast string HealthUpdate | Take

fun sse_run :: "sse_event list \<Rightarrow> sse_client \<Rightarrow> HealthUpdate list \<times> sse_client" where
  "sse_run [] c = ([], c)"
| "sse_run (Broadcast cluster u # evs) c = sse_run evs (deliver cluster u c)"
| "sse_run (Take # evs) c =
     (case ss_buffer c of
        [] \<Rightarrow> sse_run evs c
      | u # us \<Rightarrow> apfst (Cons u) (sse_run evs (c\<lparr>ss_buffer := us\<rparr>)))"

text \<open>The subscriber is registered before its initial state is read: \<open>early\<close> are the broadcasts in between, \<open>cls\<close> the clusters
  when the initial state is read, \<open>evs\<close> what follows until the subscriber goes or cannot be written to.\<close>

definition handleSSE :: "string list \<Rightarrow> string \<Rightarrow> nat \<Rightarrow> (string \<times> HealthUpdate) list \<Rightarrow> clusters \<Rightarrow> sse_event list \<Rightarrow> server \<Rightarrow>
    HealthUpdate list answer" where
  "handleSSE ids cluster slots early cls evs sv =
     (case subscribe cluster slots sv of
        None \<Rightarrow> HttpError 503 ''Too many SSE clients''
      | Some sv' \<Rightarrow>
          let c = fold (\<lambda>(id, u). deliver id u) early (last (sv_clients sv'))
          in HttpOk 200 (sse_initial ids cluster cls @ fst (sse_run evs c)))"

section \<open>The explanation\<close>

text \<open>The encodings of what goes into the prompt, the answer of the provider, and the readings of the clock: for the age of
  the cached answer and for the new one.\<close>

record explain_env =
  xe_health :: "HealthUpdate \<Rightarrow> PredictionResult option \<Rightarrow> string"
  xe_summary :: "Summary \<Rightarrow> string"
  xe_causal :: "CausalAnalysisContext \<Rightarrow> string"
  xe_history :: "HealthSnapshot list \<Rightarrow> string"
  xe_keys :: "HealthSnapshot list \<Rightarrow> string list"
  xe_analyze :: "AnalysisRequest \<Rightarrow> provider_outcome"
  xe_decoders :: explain_decoders
  xe_now :: time
  xe_later :: time

definition explain_text :: "string \<Rightarrow> ExplainResponse" where
  "explain_text msg = \<lparr>ex_Narrative = msg, ex_RiskLevel = ''unknown'', ex_TopIssues = None, ex_TrendDirection = ''unknown'',
     ex_Confidence = 0, ex_TokensUsed = 0\<rparr>"

definition explain_cached :: "time \<Rightarrow> clusterState \<Rightarrow> ExplainResponse option" where
  "explain_cached now cs =
     (case cs_lastExplain cs of
        None \<Rightarrow> None
      | Some e \<Rightarrow> if xc_IssueHash e = cs_lastAICacheHash cs \<and> time_sub now (xc_CachedAt e) < 5 * minute
          then Some (xc_Response e) else None)"

definition explain_prompt :: "explain_env \<Rightarrow> clusterState \<Rightarrow> HealthUpdate \<Rightarrow> HealthSnapshot list \<Rightarrow> string" where
  "explain_prompt env cs u snaps =
     SanitizeString NewSanitizer (BuildExplainPrompt
       (xe_health env u (prediction_Analyze (xe_keys env snaps) snaps)) (Some (xe_summary env (hu_Summary u)))
       (map_option (xe_causal env) (toCausalAnalysisContext (cs_latestCausal cs)))
       (if snaps = [] then None else Some (xe_history env snaps)))"

definition explain_request :: "string \<Rightarrow> string list \<Rightarrow> AnalysisRequest" where
  "explain_request prompt namespaces =
     \<lparr>ar_Issues = [], ar_ClusterContext = \<lparr>cl_KubernetesVersion = [], cl_Provider = [], cl_FluxVersion = [],
        cl_Namespaces = namespaces\<rparr>, ar_CausalContext = None, ar_MaxTokens = 4096, ar_ExplainMode = True,
      ar_ExplainContext = prompt\<rparr>"

definition store_explain :: "string \<Rightarrow> ExplainCacheEntry \<Rightarrow> clusters \<Rightarrow> clusters" where
  "store_explain cluster e cls =
     (case cls cluster of None \<Rightarrow> cls | Some cs \<Rightarrow> cls(cluster \<mapsto> cs\<lparr>cs_lastExplain := Some e\<rparr>))"

text \<open>Asking the provider; \<open>between\<close> is what others do to the clusters while it works.\<close>

definition ask_explain :: "explain_env \<Rightarrow> (clusters \<Rightarrow> clusters) \<Rightarrow> string \<Rightarrow> clusterState \<Rightarrow> HealthUpdate \<Rightarrow> HealthSnapshot list \<Rightarrow> server \<Rightarrow>
    (ExplainResponse answer \<times> AnalysisRequest list \<times> server) option" where
  "ask_explain env between cluster cs u snaps sv =
     (let req = explain_request (explain_prompt env cs u snaps) (hu_Namespaces u); cls = between (sv_clusters sv) in
      case xe_analyze env req of
        Inl e \<Rightarrow> Some (HttpOk 200 (explain_text ''Failed to generate explanation. Please try again later.''), [req],
          sv\<lparr>sv_clusters := cls\<rparr>)
      | Inr None \<Rightarrow> None
      | Inr (Some resp) \<Rightarrow>
          map_option (\<lambda>r. (HttpOk 200 r, [req], sv\<lparr>sv_clusters := store_explain cluster
              \<lparr>xc_Response = r, xc_IssueHash = cs_lastAICacheHash cs, xc_CachedAt = xe_later env\<rparr> cls\<rparr>))
            (ParseExplainResponse (xe_decoders env) (rs_RawContent resp) (rs_TokensUsed resp)))"

definition explain_missing :: ExplainResponse where
  "explain_missing = explain_text ''No health data available yet.''"

definition explain_cluster :: "explain_env \<Rightarrow> (clusters \<Rightarrow> clusters) \<Rightarrow> string \<Rightarrow> server \<Rightarrow>
    (ExplainResponse answer \<times> AnalysisRequest list \<times> server) option" where
  "explain_cluster env between cluster sv =
     (case sv_clusters sv cluster of
        None \<Rightarrow> Some (HttpOk 200 explain_missing, [], sv)
      | Some cs \<Rightarrow>
          (case explain_cached (xe_now env) cs of
             Some r \<Rightarrow> Some (HttpOk 200 r, [], sv)
           | None \<Rightarrow>
               (case cs_latest cs of
                  None \<Rightarrow> Some (HttpOk 200 explain_missing, [], sv)
                | Some u \<Rightarrow> Option.bind (history_Last 20 (cs_history cs)) (\<lambda>snaps. ask_explain env between cluster cs u snaps sv))))"

definition handleExplain :: "explain_env \<Rightarrow> (clusters \<Rightarrow> clusters) \<Rightarrow> http_method \<Rightarrow> string \<Rightarrow> server \<Rightarrow>
    (ExplainResponse answer \<times> AnalysisRequest list \<times> server) option" where
  "handleExplain env between m cluster sv =
     (if m \<noteq> GET then Some (method_not_allowed, [], sv)
      else Option.bind (ai_usable (sv_enabled sv) (sv_provider sv)) (\<lambda>usable.
        if usable then explain_cluster env between cluster sv
        else Some (HttpOk 200 (explain_text
          ''AI is not configured. Enable an AI provider in settings to get cluster explanations.''), [], sv)))"

section \<open>The history endpoint\<close>

text \<open>The history endpoint never panics: for a cluster whose buffer holds some snapshots it answers with the newest of
  them, as many as were asked for but at most 1000 (50 without parameters), or with those from a time on, and refuses
  parameters that are no positive number or no time.\<close>

theorem history_endpoint:
  assumes "cls cluster = Some cs" "ring_holds (cs_history cs) xs"
  shows "handleHealthHistory last_param since_param cluster cls = Some
    (if last_param \<noteq> []
     then (case go_atoi last_param of
         None \<Rightarrow> invalid_last
       | Some n \<Rightarrow> if n < 1 then invalid_last else HttpOk 200 (last_n (nat (min n 1000)) xs))
     else if since_param \<noteq> []
     then (case parse_rfc3339 since_param of None \<Rightarrow> invalid_since | Some t \<Rightarrow> HttpOk 200 (filter (\<lambda>s. t \<le> sn_Timestamp s) xs))
     else HttpOk 200 (last_n 50 xs))"
  using assms
  by (simp add: handleHealthHistory_def history_known_def history_Last_holds history_Since_holds min_def split: option.split)

section \<open>The stream\<close>

definition for_client :: "sse_client \<Rightarrow> string \<Rightarrow> bool" where
  "for_client c cluster \<longleftrightarrow> ss_cluster c = [] \<or> ss_cluster c = cluster"

fun broadcasts :: "(string \<Rightarrow> bool) \<Rightarrow> sse_event list \<Rightarrow> HealthUpdate list" where
  "broadcasts P [] = []"
| "broadcasts P (Broadcast cluster u # evs) = (if P cluster then u # broadcasts P evs else broadcasts P evs)"
| "broadcasts P (Take # evs) = broadcasts P evs"

lemma deliver_parts [simp]: "ss_cluster (deliver cluster u c) = ss_cluster c" "ss_size (deliver cluster u c) = ss_size c"
  by (simp_all add: deliver_def)

lemma deliver_other: "\<not> for_client c cluster \<Longrightarrow> deliver cluster u c = c"
  by (simp add: deliver_def for_client_def)

lemma deliver_mine:
  "for_client c cluster \<Longrightarrow> ss_buffer (deliver cluster u c) = ss_buffer c \<or> ss_buffer (deliver cluster u c) = ss_buffer c @ [u]"
  by (auto simp: deliver_def for_client_def)

lemma deliver_bounded: "length (ss_buffer c) \<le> ss_size c \<Longrightarrow> length (ss_buffer (deliver cluster u c)) \<le> ss_size c"
  by (simp add: deliver_def)

lemma for_client_same: "ss_cluster c' = ss_cluster c \<Longrightarrow> for_client c' = for_client c"
  by (intro ext) (simp add: for_client_def)

lemma subseq_skip [simp]: "subseq (xs @ ys) (xs @ u # ys)"
  by (meson list_emb_append_mono list_emb_Cons subseq_order.refl)

lemma sse_subseq:
  "length (ss_buffer c) \<le> ss_size c \<Longrightarrow> sse_run evs c = (out, c') \<Longrightarrow>
     subseq (out @ ss_buffer c') (ss_buffer c @ broadcasts (for_client c) evs) \<and> length (ss_buffer c') \<le> ss_size c"
proof (induction evs c arbitrary: out rule: sse_run.induct)
  case (2 cluster u evs c)
  let ?c = "deliver cluster u c"
  have ih: "subseq (out @ ss_buffer c') (ss_buffer ?c @ broadcasts (for_client c) evs)" "length (ss_buffer c') \<le> ss_size c"
    using "2.IH" [of out] "2.prems" deliver_bounded [of c] for_client_same [of ?c c] by simp_all
  have "subseq (ss_buffer ?c @ broadcasts (for_client c) evs) (ss_buffer c @ broadcasts (for_client c) (Broadcast cluster u # evs))"
    using deliver_mine [of c cluster u] deliver_other [of c cluster u] by (cases "for_client c cluster") auto
  then show ?case using ih subseq_order.trans by blast
next
  case (3 evs c)
  show ?case
  proof (cases "ss_buffer c")
    case (Cons u us)
    obtain out' where o: "sse_run evs (c\<lparr>ss_buffer := us\<rparr>) = (out', c')" "out = u # out'"
      using "3.prems"(2) Cons by (auto simp: apfst_def map_prod_def split: prod.splits)
    then show ?thesis
      using "3.IH"(2) [OF Cons, of out'] "3.prems"(1) Cons for_client_same [of "c\<lparr>ss_buffer := us\<rparr>" c] by simp
  qed (use "3.IH"(1) "3.prems" in simp)
qed simp

definition deliver_all :: "(string \<times> HealthUpdate) list \<Rightarrow> sse_client \<Rightarrow> sse_client" where
  "deliver_all early c = fold (\<lambda>(id, u). deliver id u) early c"

definition wanted :: "sse_client \<Rightarrow> (string \<times> HealthUpdate) list \<Rightarrow> HealthUpdate list" where
  "wanted c early = map snd (filter (\<lambda>e. for_client c (fst e)) early)"

lemma deliver_all_buffer:
  "length (ss_buffer c) \<le> ss_size c \<Longrightarrow>
     ss_cluster (deliver_all early c) = ss_cluster c \<and> ss_size (deliver_all early c) = ss_size c \<and>
     length (ss_buffer (deliver_all early c)) \<le> ss_size c \<and> subseq (ss_buffer (deliver_all early c)) (ss_buffer c @ wanted c early)"
proof (induction early arbitrary: c)
  case (Cons e early)
  obtain id u where e: "e = (id, u)" by (cases e)
  let ?c = "deliver id u c"
  have all: "deliver_all (e # early) c = deliver_all early ?c" by (simp add: deliver_all_def e)
  have same: "wanted ?c early = wanted c early" using for_client_same [of ?c c] by (simp add: wanted_def)
  have "subseq (ss_buffer ?c @ wanted c early) (ss_buffer c @ wanted c (e # early))"
    using deliver_mine [of c id u] deliver_other [of c id u] e by (cases "for_client c id") (auto simp: wanted_def)
  moreover have "ss_cluster (deliver_all early ?c) = ss_cluster c" "ss_size (deliver_all early ?c) = ss_size c"
      "length (ss_buffer (deliver_all early ?c)) \<le> ss_size c" "subseq (ss_buffer (deliver_all early ?c)) (ss_buffer ?c @ wanted c early)"
    using Cons.IH [of ?c] deliver_bounded [OF Cons.prems] same by simp_all
  ultimately show ?case unfolding all using subseq_order.trans by blast
qed (simp add: deliver_all_def wanted_def)

text \<open>What the stages of a check broadcast; every subscriber is sent the same.\<close>

definition sends :: "server \<Rightarrow> server \<Rightarrow> (string \<times> HealthUpdate) list \<Rightarrow> bool" where
  "sends sv sv' sent \<longleftrightarrow> sv_clients sv' = map (deliver_all sent) (sv_clients sv)"

lemma deliver_all_append: "deliver_all (xs @ ys) c = deliver_all ys (deliver_all xs c)"
  by (simp add: deliver_all_def)

lemma sends_none [simp]: "sv_clients sv' = sv_clients sv \<Longrightarrow> sends sv sv' []"
proof -
  have "deliver_all [] = (\<lambda>c. c)" by (rule ext) (simp add: deliver_all_def)
  then show "sv_clients sv' = sv_clients sv \<Longrightarrow> sends sv sv' []" by (simp add: sends_def)
qed

lemma sends_append: "sends a b xs \<Longrightarrow> sends b c ys \<Longrightarrow> sends a c (xs @ ys)"
  by (simp add: sends_def deliver_all_append)

lemma broadcast_sends: "sends sv (broadcastUpdate c u (put_cluster c cs sv)) [(c, u)]"
  by (simp add: sends_def deliver_all_def broadcastUpdate_def put_cluster_def)

lemma phase_sends:
  assumes "sv_clusters sv c = Some cs" "cs_latest cs = Some u"
  shows "sends sv (broadcastPhase c ph sv) [(c, set_phase ph u)]"
    "sv_clusters (broadcastPhase c ph sv) c = Some (cs\<lparr>cs_latest := Some (set_phase ph u)\<rparr>)"
  using assms broadcast_sends by (simp_all add: broadcastPhase_def Let_def put_cluster_def broadcastUpdate_def sends_def)

lemma phase_sends_ex: "\<exists>sent. sends sv (broadcastPhase c ph sv) sent"
proof (cases "Option.bind (sv_clusters sv c) cs_latest")
  case None
  then have "broadcastPhase c ph sv = sv" by (auto simp: broadcastPhase_def split: option.split bind_splits)
  then show ?thesis using sends_none by metis
next
  case (Some u)
  then obtain cs where "sv_clusters sv c = Some cs" "cs_latest cs = Some u" by (auto split: bind_splits)
  from phase_sends(1) [OF this] show ?thesis by blast
qed

lemma collect_sends:
  assumes "collect_check env c sv = (cu, sv')" "sv_clusters sv c = Some cs" "cs_latest cs = Some u"
  shows "\<exists>sent. sends sv sv' ((c, set_phase ''checkers'' u) # sent)" "hu_Timestamp (cu_update cu) = ke_now env"
proof -
  have "sv' = broadcastPhase c ''causal'' (broadcastPhase c ''checkers'' sv)" using assms(1) by (simp add: collect_check_def Let_def)
  moreover obtain sent where "sends (broadcastPhase c ''checkers'' sv) (broadcastPhase c ''causal'' (broadcastPhase c ''checkers'' sv)) sent"
    using phase_sends_ex by blast
  ultimately show "\<exists>sent. sends sv sv' ((c, set_phase ''checkers'' u) # sent)"
    using sends_append [OF phase_sends(1) [OF assms(2,3)]] by fastforce
  show "hu_Timestamp (cu_update cu) = ke_now env" using assms(1) by (auto simp: collect_check_def Let_def)
qed

lemma number_sends:
  assumes "number_check cu sv = (cu', sv')"
  shows "sends sv sv' []" "cu_update cu' = cu_update cu" "cu_cluster cu' = cu_cluster cu"
  using assms by (auto simp: number_check_def getOrCreateClusterState_def put_cluster_def Let_def split: option.splits intro!: sends_none)

lemma plan_sends:
  assumes "plan_check digest cu sv = Some (cu', sv')"
  shows "\<exists>sent. sends sv sv' sent" "cu_update cu' = cu_update cu" "cu_cluster cu' = cu_cluster cu"
proof -
  have "sv' = sv \<or> sv' = broadcastPhase (cu_cluster cu) ''ai'' sv" "cu_update cu' = cu_update cu" "cu_cluster cu' = cu_cluster cu"
    using assms by (auto simp: plan_check_def Let_def split: bind_splits if_splits option.splits)
  then show "\<exists>sent. sends sv sv' sent" "cu_update cu' = cu_update cu" "cu_cluster cu' = cu_cluster cu"
    using phase_sends_ex sends_none by blast+
qed

definition shows_at :: "server \<Rightarrow> string \<Rightarrow> time \<Rightarrow> bool" where
  "shows_at sv c t \<longleftrightarrow> (\<exists>u. Option.bind (sv_clusters sv c) cs_latest = Some u \<and> hu_Timestamp u = t)"

lemma store_sends:
  assumes "store_check digest env cu sv = Some (cu', sv')"
  shows "\<exists>sent. sends sv sv' sent" "shows_at sv' (cu_cluster cu) (hu_Timestamp (cu_update cu))" "cu_cluster cu' = cu_cluster cu"
proof -
  obtain cs u where s: "build_update env cu (unexpired (ke_shown env) (cs_issueStates cs)) = Some u"
      "cu' = cu\<lparr>cu_update := u\<lparr>hu_IssueStates := cs_issueStates (prune (ke_stored env) cs)\<rparr>\<rparr>"
      "sv' = broadcastUpdate (cu_cluster cu) (cu_update cu') (put_cluster (cu_cluster cu) ((prune (ke_stored env) cs)\<lparr>cs_latest := Some (cu_update cu'),
          cs_latestCausal := cu_causal cu, cs_currentIssueHash := cu_hash cu,
          cs_aiConfigVersion := configVersionHash digest (cu_name cu) (cu_model cu)\<rparr>) sv)"
    using assms by (auto simp: store_check_def Let_def split: bind_splits)
  have "hu_Timestamp u = hu_Timestamp (cu_update cu)" using s(1) by (auto simp: build_update_def split: bind_splits prod.splits)
  then show "shows_at sv' (cu_cluster cu) (hu_Timestamp (cu_update cu))"
    by (simp add: s(2,3) shows_at_def broadcastUpdate_def put_cluster_def)
  show "\<exists>sent. sends sv sv' sent" using broadcast_sends unfolding s(3) by blast
  show "cu_cluster cu' = cu_cluster cu" by (simp add: s(2))
qed

lemma record_sends:
  assumes "record_check cu sv = Some sv'" "shows_at sv (cu_cluster cu) t"
  shows "sends sv sv' []" "shows_at sv' (cu_cluster cu) t"
  using assms by (auto simp: record_check_def put_cluster_def shows_at_def split: bind_splits intro!: sends_none)

lemma queue_full_sends:
  assumes "shows_at sv (cu_cluster cu) t"
  shows "\<exists>sent. sends sv (queue_full cu sv) sent" "shows_at (queue_full cu sv) (cu_cluster cu) t"
proof -
  obtain cs u where c: "sv_clusters sv (cu_cluster cu) = Some cs" "cs_latest cs = Some u" "hu_Timestamp u = t"
    using assms by (auto simp: shows_at_def split: bind_splits)
  obtain u' where u': "queue_full cu sv = broadcastUpdate (cu_cluster cu) u' (put_cluster (cu_cluster cu) (cs\<lparr>cs_latest := Some u'\<rparr>) sv)"
      "hu_Timestamp u' = t"
    using c by (simp add: queue_full_def Let_def degrade_def)
  show "\<exists>sent. sends sv (queue_full cu sv) sent" using broadcast_sends unfolding u'(1) by blast
  show "shows_at (queue_full cu sv) (cu_cluster cu) t"
    using u'(2) by (simp add: u'(1) shows_at_def broadcastUpdate_def put_cluster_def)
qed

lemma enqueue_sends:
  assumes "enqueue_check digest env cu sv = Some sv'" "shows_at sv (cu_cluster cu) t"
  shows "\<exists>sent. sends sv sv' sent" "shows_at sv' (cu_cluster cu) t"
proof -
  have q: "\<exists>sent. sends sv (queue_full cu (sv\<lparr>sv_queue := q\<rparr>)) sent" "shows_at (queue_full cu (sv\<lparr>sv_queue := q\<rparr>)) (cu_cluster cu) t" for q
    using queue_full_sends [of "sv\<lparr>sv_queue := q\<rparr>" cu t] assms(2) by (simp_all add: shows_at_def sends_def)
  have "sv' = sv \<or> (\<exists>q. sv' = sv\<lparr>sv_queue := q\<rparr> \<or> sv' = queue_full cu (sv\<lparr>sv_queue := q\<rparr>))"
    using assms(1) by (auto simp: enqueue_check_def Let_def split: if_splits option.splits)
  moreover have "sends sv sv []" "\<And>q. sends sv (sv\<lparr>sv_queue := q\<rparr>) []" "\<And>q. shows_at (sv\<lparr>sv_queue := q\<rparr>) (cu_cluster cu) t"
    using assms(2) by (simp_all add: shows_at_def)
  ultimately show "\<exists>sent. sends sv sv' sent" "shows_at sv' (cu_cluster cu) t"
    using q assms(2) by metis+
qed

lemma check_sends:
  assumes "runCheckForCluster digest env c sv = Some sv'" "sv_clusters sv c = Some cs" "cs_latest cs = Some old"
  shows "\<exists>sent. sends sv sv' ((c, set_phase ''checkers'' old) # sent)" "shows_at sv' c (ke_now env)"
proof -
  obtain cu1 sv1 cu2 sv2 cu3 sv3 cu4 sv4 sv5 where st:
      "collect_check env c sv = (cu1, sv1)" "number_check cu1 sv1 = (cu2, sv2)" "plan_check digest cu2 sv2 = Some (cu3, sv3)"
      "store_check digest env cu3 sv3 = Some (cu4, sv4)" "record_check cu4 sv4 = Some sv5" "enqueue_check digest env cu4 sv5 = Some sv'"
    using assms(1) by (auto simp: runCheckForCluster_def Let_def split: bind_splits prod.splits)
  note s1 = collect_sends [OF st(1) assms(2,3)] and s2 = number_sends [OF st(2)] and s3 = plan_sends [OF st(3)] and s4 = store_sends [OF st(4)]
  have c1: "cu_cluster cu1 = c" using st(1) by (auto simp: collect_check_def Let_def)
  have now: "shows_at sv4 (cu_cluster cu4) (ke_now env)" using s1(2) s2(2) s3(2) s4(2,3) by simp
  note s5 = record_sends [OF st(5) now]
  note s6 = enqueue_sends [OF st(6) s5(2)]
  obtain a b d e where e: "sends sv sv1 ((c, set_phase ''checkers'' old) # a)" "sends sv2 sv3 b" "sends sv3 sv4 d" "sends sv5 sv' e"
    using s1(1) s3(1) s4(1) s6(1) by blast
  have "sends sv sv' (((((((c, set_phase ''checkers'' old) # a) @ []) @ b) @ d) @ []) @ e)"
    using sends_append [OF sends_append [OF sends_append [OF sends_append [OF sends_append [OF e(1) s2(1)] e(2)] e(3)] s5(1)] e(4)] .
  then show "\<exists>sent. sends sv sv' ((c, set_phase ''checkers'' old) # sent)" by auto
  show "shows_at sv' c (ke_now env)" using s6(2) c1 s2(3) s3(3) s4(3) by simp
qed

lemma deliver_all_prefix: "prefix (ss_buffer c) (ss_buffer (deliver_all sent c))"
proof (induction sent arbitrary: c)
  case (Cons e sent)
  obtain id u where e: "e = (id, u)" by (cases e)
  have "prefix (ss_buffer c) (ss_buffer (deliver id u c))" by (simp add: deliver_def)
  then show ?case using Cons.IH [of "deliver id u c"] prefix_order.trans by (fastforce simp: deliver_all_def e)
qed (simp add: deliver_all_def)


section \<open>The explanation outlives a check\<close>

definition same_explain :: "clusterState \<Rightarrow> clusterState \<Rightarrow> bool" where
  "same_explain cs cs' \<longleftrightarrow> cs_lastAICacheHash cs' = cs_lastAICacheHash cs \<and> cs_lastExplain cs' = cs_lastExplain cs"

definition explain_kept :: "string \<Rightarrow> server \<Rightarrow> server \<Rightarrow> bool" where
  "explain_kept c sv sv' \<longleftrightarrow> sv_provider sv' = sv_provider sv \<and> sv_enabled sv' = sv_enabled sv \<and>
     (\<forall>cs. sv_clusters sv c = Some cs \<longrightarrow> (\<exists>cs'. sv_clusters sv' c = Some cs' \<and> same_explain cs cs'))"

lemma explain_kept_trans: "explain_kept c a b \<Longrightarrow> explain_kept c b d \<Longrightarrow> explain_kept c a d"
  unfolding explain_kept_def same_explain_def by metis

lemma explain_kept_refl [simp]: "explain_kept c sv sv"
  by (simp add: explain_kept_def same_explain_def)

lemma phase_explain: "explain_kept c sv (broadcastPhase d ph sv)"
  by (auto simp: explain_kept_def same_explain_def broadcastPhase_def put_cluster_def Let_def split: option.splits)

lemma collect_explain: "collect_check env c sv = (cu, sv') \<Longrightarrow> explain_kept d sv sv'"
  using explain_kept_trans [OF phase_explain phase_explain] by (auto simp: collect_check_def Let_def)

lemma number_explain: "number_check cu sv = (cu', sv') \<Longrightarrow> explain_kept d sv sv'"
  by (auto simp: number_check_def getOrCreateClusterState_def explain_kept_def same_explain_def put_cluster_def Let_def split: option.splits)

lemma plan_explain: "plan_check digest cu sv = Some (cu', sv') \<Longrightarrow> explain_kept d sv sv'"
  using phase_explain
  by (auto simp: plan_check_def Let_def split: bind_splits if_splits option.splits)

lemma store_explain_kept: "store_check digest env cu sv = Some (cu', sv') \<Longrightarrow> explain_kept d sv sv'"
  by (auto simp: store_check_def build_update_def prune_def explain_kept_def same_explain_def put_cluster_def broadcastUpdate_def Let_def
      split: bind_splits prod.splits)

lemma record_explain: "record_check cu sv = Some sv' \<Longrightarrow> explain_kept d sv sv'"
  by (auto simp: record_check_def explain_kept_def same_explain_def put_cluster_def split: bind_splits)

lemma enqueue_explain: "enqueue_check digest env cu sv = Some sv' \<Longrightarrow> explain_kept d sv sv'"
  by (auto simp: enqueue_check_def queue_full_def degrade_def explain_kept_def same_explain_def put_cluster_def broadcastUpdate_def Let_def
      split: bind_splits prod.splits if_splits option.splits)

lemma check_explain:
  assumes "runCheckForCluster digest env c sv = Some sv'"
  shows "explain_kept d sv sv'"
proof -
  obtain cu1 sv1 cu2 sv2 cu3 sv3 cu4 sv4 sv5 where
      "collect_check env c sv = (cu1, sv1)" "number_check cu1 sv1 = (cu2, sv2)" "plan_check digest cu2 sv2 = Some (cu3, sv3)"
      "store_check digest env cu3 sv3 = Some (cu4, sv4)" "record_check cu4 sv4 = Some sv5" "enqueue_check digest env cu4 sv5 = Some sv'"
    using assms by (auto simp: runCheckForCluster_def Let_def split: bind_splits prod.splits)
  then show ?thesis
    using collect_explain number_explain plan_explain store_explain_kept record_explain enqueue_explain explain_kept_trans by metis
qed

text \<open>Checks one after another, of any clusters.\<close>

fun run_cluster_checks :: "(string \<Rightarrow> string) \<Rightarrow> (string \<times> 's check_env) list \<Rightarrow> server \<Rightarrow> server option" where
  "run_cluster_checks digest [] sv = Some sv"
| "run_cluster_checks digest ((c, env) # cs) sv = Option.bind (runCheckForCluster digest env c sv) (run_cluster_checks digest cs)"

lemma checks_explain: "run_cluster_checks digest cs sv = Some sv' \<Longrightarrow> explain_kept d sv sv'"
  by (induction digest cs sv rule: run_cluster_checks.induct)
    (auto split: bind_splits intro: explain_kept_trans check_explain)

text \<open>An explanation is cached under the hash of the last answer of the enrichment, which a check does not change: within
  five minutes of an explanation, whatever any number of checks of the cluster has found since, and however many issues are
  new, the same narrative is shown and the provider is not asked, until an enrichment is committed.\<close>

theorem explanation_outlives_checks:
  assumes "handleExplain env (\<lambda>cls. cls) GET cluster sv = Some (HttpOk 200 r, [req], sv1)" "xe_analyze env req = Inr resp"
    and "run_cluster_checks digest cs sv1 = Some sv2"
    and "time_sub (xe_now env') (xe_later env) < 5 * minute"
  shows "handleExplain env' between GET cluster sv2 = Some (HttpOk 200 r, [], sv2)"
proof -
  have u: "ai_usable (sv_enabled sv) (sv_provider sv) = Some True" "explain_cluster env (\<lambda>cls. cls) cluster sv = Some (HttpOk 200 r, [req], sv1)"
    using assms(1) by (auto simp: handleExplain_def split: bind_splits if_splits)
  obtain c up snaps where a: "sv_clusters sv cluster = Some c" "ask_explain env (\<lambda>cls. cls) cluster c up snaps sv = Some (HttpOk 200 r, [req], sv1)"
    using u(2) by (auto simp: explain_cluster_def split: option.splits bind_splits)
  then have c: "sv_clusters sv cluster = Some c" "sv_clusters sv1 = store_explain cluster
      \<lparr>xc_Response = r, xc_IssueHash = cs_lastAICacheHash c, xc_CachedAt = xe_later env\<rparr> (sv_clusters sv)"
      "sv_provider sv1 = sv_provider sv" "sv_enabled sv1 = sv_enabled sv"
    using assms(2) by (auto simp: ask_explain_def Let_def split: option.splits sum.splits)
  then have "sv_clusters sv1 cluster = Some (c\<lparr>cs_lastExplain := Some
      \<lparr>xc_Response = r, xc_IssueHash = cs_lastAICacheHash c, xc_CachedAt = xe_later env\<rparr>\<rparr>)" by (simp add: store_explain_def)
  then obtain c2 where c2: "sv_clusters sv2 cluster = Some c2" "cs_lastAICacheHash c2 = cs_lastAICacheHash c"
      "cs_lastExplain c2 = Some \<lparr>xc_Response = r, xc_IssueHash = cs_lastAICacheHash c, xc_CachedAt = xe_later env\<rparr>"
      "sv_provider sv2 = sv_provider sv" "sv_enabled sv2 = sv_enabled sv"
    using checks_explain [OF assms(3), of cluster] c(3,4) unfolding explain_kept_def same_explain_def by fastforce
  then show ?thesis using u assms(4) by (simp add: handleExplain_def explain_cluster_def explain_cached_def)
qed

section \<open>Witnesses\<close>

definition ex_snapshot :: HealthSnapshot where
  "ex_snapshot = zero_snapshot\<lparr>sn_Timestamp := 60 * second, sn_TotalIssues := 2\<rparr>"

lemma history_endpoint_witness:
  "\<exists>rb cls. history_Add ex_snapshot (history_New 2) = Some rb \<and>
     handleHealthHistory ''5000'' [] [] cls = Some (HttpOk 200 [ex_snapshot]) \<and>
     handleHealthHistory ''0'' [] [] cls = Some invalid_last \<and>
     handleHealthHistory [] [] [] cls = Some (HttpOk 200 [ex_snapshot])"
proof -
  obtain rb where rb: "history_Add ex_snapshot (history_New 2) = Some rb" "ring_holds rb [ex_snapshot]"
    using ring_holds_add [OF ring_holds_new [of 2], of ex_snapshot] by (auto simp: history_New_def last_n_def)
  let ?cs = "(new_cluster 10)\<lparr>cs_history := rb\<rparr>" and ?cls = "\<lambda>cs. [[] \<mapsto> cs]"
  have h: "ring_holds (cs_history ?cs) [ex_snapshot]" using rb(2) by simp
  have n: "go_atoi ''5000'' = Some 5000" "go_atoi ''0'' = Some 0" by code_simp+
  note at_once = history_endpoint [of "?cls ?cs" "[]", OF _ h]
  have "handleHealthHistory ''5000'' [] [] (?cls ?cs) = Some (HttpOk 200 [ex_snapshot])" by (subst at_once) (simp_all add: n last_n_def)
  moreover have "handleHealthHistory ''0'' [] [] (?cls ?cs) = Some invalid_last" by (subst at_once) (simp_all add: n)
  moreover have "handleHealthHistory [] [] [] (?cls ?cs) = Some (HttpOk 200 [ex_snapshot])" by (subst at_once) (simp_all add: last_n_def)
  ultimately show ?thesis using rb(1) by blast
qed


definition ex_explain :: explain_env where
  "ex_explain = \<lparr>xe_health = (\<lambda>_ _. ''{}''), xe_summary = (\<lambda>_. ''{}''), xe_causal = (\<lambda>_. ''{}''), xe_history = (\<lambda>_. ''[]''),
     xe_keys = (\<lambda>_. []), xe_analyze = (\<lambda>_. Inr (Some ex_response)),
     xe_decoders = \<lparr>xd_lower = (\<lambda>s. s), xd_unmarshal = (\<lambda>_. None), xd_raw_string = (\<lambda>_. None), xd_issues = (\<lambda>_. None)\<rparr>,
     xe_now = 60 * second, xe_later = 61 * second\<rparr>"

lemma explanation_outlives_checks_witness:
  "\<exists>r req sv1 sv2. handleExplain ex_explain (\<lambda>cls. cls) GET [] ex_server = Some (HttpOk 200 r, [req], sv1) \<and>
     run_cluster_checks (\<lambda>s. s) [([], ex_check_env)] sv1 = Some sv2 \<and>
     handleExplain (ex_explain\<lparr>xe_now := 300 * second\<rparr>) (\<lambda>cls. cls) GET [] sv2 = Some (HttpOk 200 r, [], sv2)"
proof -
  obtain r where r: "ParseExplainResponse (xe_decoders ex_explain) (rs_RawContent ex_response) (rs_TokensUsed ex_response) = Some r"
    using extractJSON_total [of "\<lambda>s. s" "[]"] by (auto simp: ParseExplainResponse_def ex_explain_def ex_response_def)
  have h: "ring_holds (cs_history ex_waiting) []" "cs_lastExplain ex_waiting = None"
    by (simp_all add: ex_waiting_def new_cluster_def ring_holds_new)
  have c: "sv_clusters ex_server [] = Some ex_waiting" "cs_latest ex_waiting = Some ex_update"
    using ex_current by (simp_all add: ex_enrich_request_def)
  define req where "req = explain_request (explain_prompt ex_explain ex_waiting ex_update []) (hu_Namespaces ex_update)"
  define sv1 where "sv1 = ex_server\<lparr>sv_clusters := store_explain []
      \<lparr>xc_Response = r, xc_IssueHash = cs_lastAICacheHash ex_waiting, xc_CachedAt = xe_later ex_explain\<rparr> (sv_clusters ex_server)\<rparr>"
  have a: "xe_analyze ex_explain req = Inr (Some ex_response)" by (simp add: ex_explain_def)
  have one: "handleExplain ex_explain (\<lambda>cls. cls) GET [] ex_server = Some (HttpOk 200 r, [req], sv1)"
    using ex_server_ok(3) c h r a
    by (simp add: handleExplain_def explain_cluster_def explain_cached_def history_Last_holds last_n_def ask_explain_def
        req_def [symmetric] sv1_def)
  have ok: "provider_ok sv1" "history_ok [] sv1"
    using ex_server_ok(1) c h by (auto simp: sv1_def provider_ok_def history_ok_def store_explain_def)
  obtain sv2 where run: "runCheckForCluster (\<lambda>s. s) ex_check_env [] sv1 = Some sv2"
    using run_total [of ex_check_env sv1 "[]" "\<lambda>s. s"] ex_results_wf ok by (auto simp: ex_env_parts)
  then have two: "run_cluster_checks (\<lambda>s. s) [([], ex_check_env)] sv1 = Some sv2" by simp
  have "time_sub (xe_now (ex_explain\<lparr>xe_now := 300 * second\<rparr>)) (xe_later ex_explain) < 5 * minute"
    by (simp add: ex_explain_def) code_simp
  then show ?thesis using explanation_outlives_checks [OF one a two] one two by blast
qed

end
