(* ===== verification/Context_Builder.thy ===== *)
theory Context_Builder
  imports AI_Types Go_Regexp Go_Text "HOL-Library.Sublist"
begin

text \<open>
  Events and logs for the prompt (\<open>internal/checker/context_builder.go\<close>, \<open>eventutil.go\<close>): what is fetched for each issue, and
  how it is cut down to a number of bytes. The API server is a parameter whose answer may depend on the requests before.
\<close>

section \<open>What is fetched\<close>

record LogContextConfig =
  lg_Enabled :: bool
  lg_MaxEventsPerIssue :: int
  lg_MaxLogLines :: int
  lg_MaxTotalChars :: int

record object_event =
  oe_Kind :: string
  oe_Name :: string
  oe_Reason :: string
  oe_Message :: string
  oe_LastTimestamp :: time
  oe_EventTime :: time
  oe_CreationTimestamp :: time

record owned_pod =
  op_Name :: string
  op_OwnerReferences :: "(string \<times> string) list"

datatype listed = EventsOf string | PodsOf string

text \<open>Listing takes the requests before it; without a client set there are no logs. The stream of a log is the text that it
  delivers until it ends or fails, \<open>True\<close> asks for the previous container. \<open>sort.Slice\<close> sorts in some order.\<close>

record context_source =
  xs_events :: "listed list \<Rightarrow> string \<Rightarrow> object_event list option"
  xs_pods :: "listed list \<Rightarrow> string \<Rightarrow> owned_pod list option"
  xs_logs :: "(string \<Rightarrow> string \<Rightarrow> bool \<Rightarrow> string option) option"
  xs_sort :: "object_event list \<Rightarrow> object_event list"

record context_cache =
  eventCache :: "string \<rightharpoonup> object_event list"
  podCache :: "string \<rightharpoonup> owned_pod list"
  requested :: "listed list"

definition no_cache :: context_cache where
  "no_cache = \<lparr>eventCache = Map.empty, podCache = Map.empty, requested = []\<rparr>"

definition RSHashSuffix :: re where
  "RSHashSuffix =
     (let alnum = Cls (\<lambda>c. lower_letter c \<or> digit_char c)
      in re_seq [re_char (CHR ''-''), re_times 8 alnum, re_upto 2 alnum, Eol])"

definition crashTypes :: "string list" where
  "crashTypes = [''CrashLoopBackOff'', ''OOMKilled'', ''Error'']"

definition EventTimestamp :: "object_event \<Rightarrow> time" where
  "EventTimestamp e =
     (if oe_LastTimestamp e \<noteq> 0 then oe_LastTimestamp e
      else if oe_EventTime e \<noteq> 0 then oe_EventTime e
      else oe_CreationTimestamp e)"

definition parseResource :: "string \<Rightarrow> string \<times> string" where
  "parseResource resource = (case split2 (CHR ''/'') resource of None \<Rightarrow> ([], []) | Some p \<Rightarrow> p)"

text \<open>A failed listing is cached as an empty one.\<close>

definition getNamespaceEvents :: "context_source \<Rightarrow> string \<Rightarrow> context_cache \<Rightarrow> object_event list \<times> context_cache" where
  "getNamespaceEvents src ns st =
     (case eventCache st ns of
        Some evs \<Rightarrow> (evs, st)
      | None \<Rightarrow>
          let evs = (case xs_events src (requested st) ns of None \<Rightarrow> [] | Some evs \<Rightarrow> evs)
          in (evs, st\<lparr>eventCache := (eventCache st)(ns \<mapsto> evs), requested := requested st @ [EventsOf ns]\<rparr>))"

definition getNamespacePods :: "context_source \<Rightarrow> string \<Rightarrow> context_cache \<Rightarrow> owned_pod list \<times> context_cache" where
  "getNamespacePods src ns st =
     (case podCache st ns of
        Some pods \<Rightarrow> (pods, st)
      | None \<Rightarrow>
          let pods = (case xs_pods src (requested st) ns of None \<Rightarrow> [] | Some pods \<Rightarrow> pods)
          in (pods, st\<lparr>podCache := (podCache st)(ns \<mapsto> pods), requested := requested st @ [PodsOf ns]\<rparr>))"

definition event_text :: "object_event \<Rightarrow> string" where
  "event_text e = oe_Reason e @ '': '' @ oe_Message e @ '' ('' @ format_rfc3339 (EventTimestamp e) @ '')''"

definition enrichEvents :: "context_source \<Rightarrow> nat \<Rightarrow> IssueContext \<Rightarrow> context_cache \<Rightarrow> IssueContext \<times> context_cache" where
  "enrichEvents src maxEvents ic st =
     (let (kind, name) = parseResource (ic_Resource ic) in
      if kind = [] \<or> name = [] then (ic, st)
      else let (evs, st') = getNamespaceEvents src (ic_Namespace ic) st;
          matching = xs_sort src (filter (\<lambda>e. equal_fold (oe_Kind e) kind \<and> oe_Name e = name) evs)
        in (ic\<lparr>ic_Events := map event_text (take maxEvents matching)\<rparr>, st'))"

text \<open>A pod belongs to the owner of one of its references, or to the deployment whose name is left when the hash is cut off
  the name of its replica set.\<close>

definition owned_by :: "string \<Rightarrow> string \<Rightarrow> string \<times> string \<Rightarrow> bool" where
  "owned_by kind name = (\<lambda>(ref_kind, ref_name).
     equal_fold ref_kind kind \<and> ref_name = name \<or>
     equal_fold kind ''deployment'' \<and> equal_fold ref_kind ''ReplicaSet'' \<and>
       re_replace RSHashSuffix [] ref_name = name \<and> has_prefix ref_name (name @ ''-''))"

definition findOwnedPods :: "context_source \<Rightarrow> string \<Rightarrow> string \<Rightarrow> string \<Rightarrow> context_cache \<Rightarrow> string list \<times> context_cache" where
  "findOwnedPods src ns kind name st =
     (let (pods, st') = getNamespacePods src ns st
      in (map op_Name (filter (\<lambda>p. list_ex (owned_by kind name) (op_OwnerReferences p)) pods), st'))"

text \<open>\<open>bufio.Scanner\<close> with lines of at most 1 MB: a line is cut at its newline and loses a carriage return at its end, a longer
  line ends the scan, and so does the end of the text without a last empty line.\<close>

definition drop_cr :: "string \<Rightarrow> string" where
  "drop_cr s = (if s \<noteq> [] \<and> last s = CHR 0x0D then butlast s else s)"

definition scan_lines :: "string \<Rightarrow> string list" where
  "scan_lines s =
     (let ls = split_all (CHR 0x0A) s
      in map drop_cr (takeWhile (\<lambda>l. int (length l) < 1048576) (if last ls = [] then butlast ls else ls)))"

definition readLines :: "nat \<Rightarrow> string \<Rightarrow> string list" where
  "readLines maxLines s = take maxLines (scan_lines s)"

text \<open>The pods of an issue: none for a kind that has no pods.\<close>

definition issue_pods :: "context_source \<Rightarrow> string \<Rightarrow> string \<Rightarrow> string \<Rightarrow> context_cache \<Rightarrow> string list \<times> context_cache" where
  "issue_pods src ns kind name st =
     (if to_lower kind = ''pod'' then ([name], st)
      else if to_lower kind \<in> set [''deployment'', ''statefulset'', ''daemonset'', ''replicaset'']
      then findOwnedPods src ns kind name st
      else ([], st))"

definition enrichLogs :: "context_source \<Rightarrow> nat \<Rightarrow> IssueContext \<Rightarrow> context_cache \<Rightarrow> IssueContext \<times> context_cache" where
  "enrichLogs src maxLines ic st =
     (case xs_logs src of
        None \<Rightarrow> (ic, st)
      | Some logs \<Rightarrow>
          let (kind, name) = parseResource (ic_Resource ic) in
          if ic_Type ic \<notin> set crashTypes \<or> kind = [] \<or> name = [] then (ic, st)
          else let (pods, st') = issue_pods src (ic_Namespace ic) kind name st in
            case pods of
              [] \<Rightarrow> (ic, st')
            | pod # _ \<Rightarrow>
                (case (case logs (ic_Namespace ic) pod True of Some s \<Rightarrow> Some s | None \<Rightarrow> logs (ic_Namespace ic) pod False) of
                   None \<Rightarrow> (ic, st')
                 | Some s \<Rightarrow> (ic\<lparr>ic_Logs := readLines maxLines s\<rparr>, st')))"

section \<open>What is cut\<close>

definition text_chars :: "string list \<Rightarrow> int" where
  "text_chars ss = sum_list (map (\<lambda>s. int (length s)) ss)"

definition contextChars :: "IssueContext list \<Rightarrow> int" where
  "contextChars ics = sum_list (map (\<lambda>ic. text_chars (ic_Events ic) + text_chars (ic_Logs ic)) ics)"

text \<open>A cut of one issue, with the number of bytes that it saves; \<open>None\<close> when there is nothing to cut.\<close>

datatype cut = LastEvent | FirstLog | AllEvents | AllLogs

fun cut_issue :: "cut \<Rightarrow> IssueContext \<Rightarrow> (IssueContext \<times> int) option" where
  "cut_issue LastEvent ic =
     (if length (ic_Events ic) > 1
      then Some (ic\<lparr>ic_Events := butlast (ic_Events ic)\<rparr>, int (length (last (ic_Events ic)))) else None)"
| "cut_issue FirstLog ic =
     (if length (ic_Logs ic) > 1 then Some (ic\<lparr>ic_Logs := tl (ic_Logs ic)\<rparr>, int (length (hd (ic_Logs ic)))) else None)"
| "cut_issue AllEvents ic =
     (if length (ic_Events ic) > 0 then Some (ic\<lparr>ic_Events := []\<rparr>, text_chars (ic_Events ic)) else None)"
| "cut_issue AllLogs ic =
     (if length (ic_Logs ic) > 0 then Some (ic\<lparr>ic_Logs := []\<rparr>, text_chars (ic_Logs ic)) else None)"

text \<open>The body of a loop over the issues: the cuts of one issue after another, until the total fits. The flag says whether
  anything was cut.\<close>

fun cut_one :: "int \<Rightarrow> cut list \<Rightarrow> IssueContext \<Rightarrow> int \<Rightarrow> IssueContext \<times> int \<times> bool" where
  "cut_one maxChars [] ic n = (ic, n, False)"
| "cut_one maxChars (c # cs) ic n =
     (case cut_issue c ic of
        None \<Rightarrow> cut_one maxChars cs ic n
      | Some (ic', k) \<Rightarrow>
          if n - k \<le> maxChars then (ic', n - k, True)
          else let (ic'', n', b) = cut_one maxChars cs ic' (n - k) in (ic'', n', True))"

fun cut_round :: "int \<Rightarrow> cut list \<Rightarrow> IssueContext list \<Rightarrow> int \<Rightarrow> IssueContext list \<times> int \<times> bool" where
  "cut_round maxChars cs [] n = ([], n, False)"
| "cut_round maxChars cs (ic # ics) n =
     (let (ic', n', b) = cut_one maxChars cs ic n in
      if n' \<le> maxChars then (ic' # ics, n', b)
      else let (ics', n'', b') = cut_round maxChars cs ics n' in (ic' # ics', n'', b \<or> b'))"

definition entries :: "IssueContext list \<Rightarrow> nat" where
  "entries ics = sum_list (map (\<lambda>ic. length (ic_Events ic) + length (ic_Logs ic)) ics)"

lemma cut_issue_entries: "cut_issue c ic = Some (ic', k) \<Longrightarrow>
    length (ic_Events ic') + length (ic_Logs ic') < length (ic_Events ic) + length (ic_Logs ic)"
  by (cases c) (auto split: if_splits)

lemma cut_one_entries: "cut_one m cs ic n = (ic', n', b) \<Longrightarrow>
    (if b then length (ic_Events ic') + length (ic_Logs ic') < length (ic_Events ic) + length (ic_Logs ic) else ic' = ic \<and> n' = n)"
proof (induction m cs ic n arbitrary: ic' n' b rule: cut_one.induct)
  case (2 m c cs ic n)
  show ?case
  proof (cases "cut_issue c ic")
    case None
    then show ?thesis using 2 by simp
  next
    case (Some x)
    obtain ic1 k where x: "x = (ic1, k)" by (metis surj_pair)
    obtain ic2 n2 b2 where rest: "cut_one m cs ic1 (n - k) = (ic2, n2, b2)" by (metis surj_pair)
    have "n - k \<le> m \<or> (if b2 then length (ic_Events ic2) + length (ic_Logs ic2) < length (ic_Events ic1) + length (ic_Logs ic1)
        else ic2 = ic1 \<and> n2 = n - k)"
      using "2.IH"(2) [OF Some x [symmetric] _ rest] by (cases "n - k \<le> m") simp_all
    then show ?thesis using cut_issue_entries [of c ic ic1 k] "2.prems" Some x rest by (auto split: if_splits)
  qed
qed simp

lemma cut_round_entries: "cut_round m cs ics n = (ics', n', b) \<Longrightarrow> (if b then entries ics' < entries ics else ics' = ics \<and> n' = n)"
proof (induction m cs ics n arbitrary: ics' n' b rule: cut_round.induct)
  case (2 m cs ic ics n)
  obtain ic1 n1 b1 where one: "cut_one m cs ic n = (ic1, n1, b1)" by (metis surj_pair)
  obtain ics2 n2 b2 where rest: "cut_round m cs ics n1 = (ics2, n2, b2)" by (metis surj_pair)
  show ?case
    using cut_one_entries [OF one] "2.IH" [OF one [symmetric] refl refl, OF _ rest] "2.prems" one rest
    by (auto simp: entries_def split: if_splits)
qed (simp add: entries_def)

text \<open>The loop around it, until the total fits or a round has cut nothing.\<close>

function cut_rounds :: "int \<Rightarrow> cut list \<Rightarrow> IssueContext list \<Rightarrow> int \<Rightarrow> IssueContext list \<times> int" where
  "cut_rounds maxChars cs ics n =
     (if \<not> n > maxChars then (ics, n)
      else let (ics', n', b) = cut_round maxChars cs ics n in
        if n' \<le> maxChars \<or> \<not> b then (ics', n') else cut_rounds maxChars cs ics' n')"
  by pat_completeness auto
termination
proof (relation "measure (\<lambda>(m, cs, ics, n). entries ics)", goal_cases)
  case (2 m cs ics n x ics' y n' b)
  then show ?case using cut_round_entries [of m cs ics n ics' n' b] by simp
qed simp

declare cut_rounds.simps [simp del]

definition capTokenBudget :: "int \<Rightarrow> IssueContext list \<Rightarrow> IssueContext list" where
  "capTokenBudget maxTotal ics =
     (let maxChars = (if maxTotal \<le> 0 then 30000 else maxTotal);
          (ics1, n1) = cut_rounds maxChars [LastEvent] ics (contextChars ics);
          (ics2, n2) = cut_rounds maxChars [FirstLog] ics1 n1;
          (ics3, n3) = cut_rounds maxChars [AllEvents, AllLogs] ics2 n2
      in ics3)"

section \<open>Enriching\<close>

fun enrich_all :: "context_source \<Rightarrow> nat \<Rightarrow> nat \<Rightarrow> IssueContext list \<Rightarrow> context_cache \<Rightarrow> IssueContext list \<times> context_cache" where
  "enrich_all src maxEvents maxLines [] st = ([], st)"
| "enrich_all src maxEvents maxLines (ic # ics) st =
     (let (ic1, st1) = enrichEvents src maxEvents ic st; (ic2, st2) = enrichLogs src maxLines ic1 st1;
          (ics', st') = enrich_all src maxEvents maxLines ics st2
      in (ic2 # ics', st'))"

definition positive_limit :: "int \<Rightarrow> int \<Rightarrow> nat" where
  "positive_limit d n = nat (if n \<le> 0 then d else n)"

text \<open>The enriched issues, and what was listed.\<close>

definition Enrich :: "context_source \<Rightarrow> LogContextConfig \<Rightarrow> IssueContext list \<Rightarrow> IssueContext list \<times> listed list" where
  "Enrich src cfg ics =
     (if \<not> lg_Enabled cfg \<or> ics = [] then (ics, [])
      else let (ics', st) = enrich_all src (positive_limit 10 (lg_MaxEventsPerIssue cfg)) (positive_limit 50 (lg_MaxLogLines cfg)) ics no_cache
        in (capTokenBudget (lg_MaxTotalChars cfg) ics', requested st))"

section \<open>Cuts\<close>

text \<open>What any cuts leave of an issue: the newest events and the newest lines.\<close>

definition cut_from :: "IssueContext \<Rightarrow> IssueContext \<Rightarrow> bool" where
  "cut_from ic ic' \<longleftrightarrow> ic'\<lparr>ic_Events := [], ic_Logs := []\<rparr> = ic\<lparr>ic_Events := [], ic_Logs := []\<rparr> \<and>
     prefix (ic_Events ic') (ic_Events ic) \<and> suffix (ic_Logs ic') (ic_Logs ic)"

lemma cut_from_refl [simp]: "cut_from ic ic"
  by (simp add: cut_from_def)

lemma cut_from_trans: "cut_from a b \<Longrightarrow> cut_from b c \<Longrightarrow> cut_from a c"
  by (auto simp: cut_from_def intro: prefix_order.trans suffix_order.trans)

definition issue_chars :: "IssueContext \<Rightarrow> int" where
  "issue_chars ic = text_chars (ic_Events ic) + text_chars (ic_Logs ic)"

lemma contextChars_simps [simp]: "contextChars [] = 0" "contextChars (ic # ics) = issue_chars ic + contextChars ics"
  by (simp_all add: contextChars_def issue_chars_def)

lemma text_chars_simps [simp]: "text_chars [] = 0" "text_chars (s # ss) = int (length s) + text_chars ss"
  "text_chars (ss @ ts) = text_chars ss + text_chars ts"
  by (simp_all add: text_chars_def)

text \<open>A property of issues and totals that every cut keeps is kept by rounds of cuts.\<close>

lemma cut_issue_parts:
  assumes "cut_issue c ic = Some (ic', k)"
  shows "cut_from ic ic'" "issue_chars ic' = issue_chars ic - k"
proof -
  have "cut_from ic ic' \<and> issue_chars ic' = issue_chars ic - k"
  proof (cases c)
    case LastEvent
    then have "ic_Events ic \<noteq> []" "ic' = ic\<lparr>ic_Events := butlast (ic_Events ic)\<rparr>" "k = int (length (last (ic_Events ic)))"
      using assms by (auto split: if_splits)
    moreover from this have "text_chars (ic_Events ic) = text_chars (butlast (ic_Events ic)) + k"
      by (metis append_butlast_last_id text_chars_simps(1,2,3) add.right_neutral)
    ultimately show ?thesis by (simp add: cut_from_def issue_chars_def prefixeq_butlast)
  next
    case FirstLog
    then obtain l ls where "ic_Logs ic = l # ls" "ic' = ic\<lparr>ic_Logs := ls\<rparr>" "k = int (length l)"
      using assms by (cases "ic_Logs ic") (auto split: if_splits)
    then show ?thesis by (simp add: cut_from_def issue_chars_def suffix_def)
  qed (use assms in \<open>auto simp: cut_from_def issue_chars_def split: if_splits\<close>)
  then show "cut_from ic ic'" "issue_chars ic' = issue_chars ic - k" by auto
qed

lemma cut_one_parts: "cut_one m cs ic n = (ic', n', b) \<Longrightarrow> cut_from ic ic' \<and> n' - issue_chars ic' = n - issue_chars ic"
proof (induction m cs ic n arbitrary: ic' n' b rule: cut_one.induct)
  case (2 m c cs ic n)
  show ?case
  proof (cases "cut_issue c ic")
    case None
    then show ?thesis using 2 by simp
  next
    case (Some x)
    obtain ic1 k where x: "x = (ic1, k)" by (metis surj_pair)
    obtain ic2 n2 b2 where rest: "cut_one m cs ic1 (n - k) = (ic2, n2, b2)" by (metis surj_pair)
    have "n - k \<le> m \<or> cut_from ic1 ic2 \<and> n2 - issue_chars ic2 = (n - k) - issue_chars ic1"
      using "2.IH"(2) [OF Some x [symmetric] _ rest] by (cases "n - k \<le> m") simp_all
    then show ?thesis using cut_issue_parts [of c ic ic1 k] cut_from_trans [of ic ic1 ic2] "2.prems" Some x rest
      by (auto split: if_splits)
  qed
qed simp

lemma cut_round_parts: "cut_round m cs ics n = (ics', n', b) \<Longrightarrow> list_all2 cut_from ics ics' \<and> n' - contextChars ics' = n - contextChars ics"
proof (induction m cs ics n arbitrary: ics' n' b rule: cut_round.induct)
  case (2 m cs ic ics n)
  obtain ic1 n1 b1 where one: "cut_one m cs ic n = (ic1, n1, b1)" by (metis surj_pair)
  obtain ics2 n2 b2 where rest: "cut_round m cs ics n1 = (ics2, n2, b2)" by (metis surj_pair)
  have ih: "n1 \<le> m \<or> list_all2 cut_from ics ics2 \<and> n2 - contextChars ics2 = n1 - contextChars ics"
    using "2.IH" [OF one [symmetric] refl refl, OF _ rest] by (cases "n1 \<le> m") simp_all
  then show ?case using cut_one_parts [OF one] "2.prems" one rest by (auto simp: list.rel_refl split: if_splits)
qed simp

lemma cut_rounds_parts:
  "cut_rounds m cs ics n = (ics', n') \<Longrightarrow> list_all2 cut_from ics ics' \<and> n' - contextChars ics' = n - contextChars ics"
proof (induction m cs ics n arbitrary: ics' n' rule: cut_rounds.induct)
  case (1 m cs ics n)
  obtain ics1 n1 b1 where one: "cut_round m cs ics n = (ics1, n1, b1)" by (metis surj_pair)
  note parts = cut_round_parts [OF one]
  show ?case
  proof (cases "n > m \<and> \<not> (n1 \<le> m \<or> \<not> b1)")
    case True
    then have "list_all2 cut_from ics1 ics' \<and> n' - contextChars ics' = n1 - contextChars ics1"
      using "1.IH" [OF _ one [symmetric] refl refl] "1.prems" one by (simp add: cut_rounds.simps [of m cs ics n])
    then show ?thesis using parts list_all2_trans [of cut_from cut_from cut_from ics ics1 ics'] cut_from_trans by auto
  next
    case False
    then show ?thesis using parts "1.prems" one
      by (auto simp: cut_rounds.simps [of m cs ics n] list.rel_refl split: if_splits)
  qed
qed

text \<open>A loop ends because the total fits or because no issue has anything to cut.\<close>

definition nothing_to_cut :: "cut list \<Rightarrow> IssueContext \<Rightarrow> bool" where
  "nothing_to_cut cs ic \<longleftrightarrow> list_all (\<lambda>c. cut_issue c ic = None) cs"

lemma cut_one_nothing: "cut_one m cs ic n = (ic', n', False) \<Longrightarrow> nothing_to_cut cs ic \<and> ic' = ic \<and> n' = n"
  by (induction m cs ic n rule: cut_one.induct) (auto simp: nothing_to_cut_def split: option.splits prod.splits if_splits)

lemma cut_round_nothing:
  "cut_round m cs ics n = (ics', n', False) \<Longrightarrow> n > m \<Longrightarrow> list_all (nothing_to_cut cs) ics \<and> ics' = ics \<and> n' = n"
proof (induction m cs ics n arbitrary: ics' n' rule: cut_round.induct)
  case (2 m cs ic ics n)
  obtain ic1 n1 b1 where one: "cut_one m cs ic n = (ic1, n1, b1)" by (metis surj_pair)
  obtain ics2 n2 b2 where rest: "cut_round m cs ics n1 = (ics2, n2, b2)" by (metis surj_pair)
  have b1: "\<not> b1" using "2.prems" one rest by (auto split: if_splits)
  then have n1: "n1 = n" "nothing_to_cut cs ic" "ic1 = ic" using cut_one_nothing [of m cs ic n ic1 n1] one by simp_all
  then show ?case using "2.IH" [OF one [symmetric] refl refl, of ics2 n2] "2.prems" one rest by auto
qed simp

lemma cut_rounds_end:
  "cut_rounds m cs ics n = (ics', n') \<Longrightarrow> n' \<le> m \<or> list_all (nothing_to_cut cs) ics'"
proof (induction m cs ics n arbitrary: ics' n' rule: cut_rounds.induct)
  case (1 m cs ics n)
  obtain ics1 n1 b1 where one: "cut_round m cs ics n = (ics1, n1, b1)" by (metis surj_pair)
  show ?case
  proof (cases "n > m \<and> \<not> (n1 \<le> m \<or> \<not> b1)")
    case True
    then show ?thesis using "1.IH" [OF _ one [symmetric] refl refl] "1.prems" one by (simp add: cut_rounds.simps [of m cs ics n])
  next
    case False
    then show ?thesis using "1.prems" one cut_round_nothing [of m cs ics n ics1 n1]
      by (cases b1) (auto simp: cut_rounds.simps [of m cs ics n] split: if_splits)
  qed
qed

lemma cut_rounds_fits: "n \<le> m \<Longrightarrow> cut_rounds m cs ics n = (ics, n)"
  by (simp add: cut_rounds.simps)

lemma list_all2_cut_trans: "list_all2 cut_from a b \<Longrightarrow> list_all2 cut_from b c \<Longrightarrow> list_all2 cut_from a c"
  by (rule list_all2_trans [of cut_from cut_from cut_from]) (auto intro: cut_from_trans)

lemma all_empty_chars: "list_all (nothing_to_cut [AllEvents, AllLogs]) ics \<Longrightarrow> contextChars ics = 0"
  by (induction ics) (auto simp: nothing_to_cut_def issue_chars_def split: if_splits)

definition char_limit :: "int \<Rightarrow> int" where
  "char_limit maxTotal = (if maxTotal \<le> 0 then 30000 else maxTotal)"

lemma capTokenBudget_parts:
  "list_all2 cut_from ics (capTokenBudget maxTotal ics)" "contextChars (capTokenBudget maxTotal ics) \<le> char_limit maxTotal"
  "contextChars ics \<le> char_limit maxTotal \<Longrightarrow> capTokenBudget maxTotal ics = ics"
proof -
  let ?m = "char_limit maxTotal"
  obtain ics1 n1 where p1: "cut_rounds ?m [LastEvent] ics (contextChars ics) = (ics1, n1)" by (metis surj_pair)
  obtain ics2 n2 where p2: "cut_rounds ?m [FirstLog] ics1 n1 = (ics2, n2)" by (metis surj_pair)
  obtain ics3 n3 where p3: "cut_rounds ?m [AllEvents, AllLogs] ics2 n2 = (ics3, n3)" by (metis surj_pair)
  have cap: "capTokenBudget maxTotal ics = ics3"
    using p1 p2 p3 by (simp add: capTokenBudget_def char_limit_def [symmetric])
  note parts = cut_rounds_parts [OF p1] cut_rounds_parts [OF p2] cut_rounds_parts [OF p3]
  show "list_all2 cut_from ics (capTokenBudget maxTotal ics)" unfolding cap using parts list_all2_cut_trans by blast
  have "n3 = contextChars ics3" using parts by simp
  moreover have "0 < ?m" by (simp add: char_limit_def)
  ultimately show "contextChars (capTokenBudget maxTotal ics) \<le> ?m"
    unfolding cap using cut_rounds_end [OF p3] all_empty_chars by auto
  show "capTokenBudget maxTotal ics = ics" if "contextChars ics \<le> ?m"
    using that by (simp add: capTokenBudget_def char_limit_def [symmetric] cut_rounds_fits)
qed

section \<open>The order of the cuts\<close>

text \<open>What no cut of a loop changes is unchanged after the loop.\<close>

definition cuts_keep :: "cut list \<Rightarrow> (IssueContext \<Rightarrow> 'a) \<Rightarrow> bool" where
  "cuts_keep cs f \<longleftrightarrow> (\<forall>c \<in> set cs. \<forall>ic ic' k. cut_issue c ic = Some (ic', k) \<longrightarrow> f ic' = f ic)"

lemma cut_one_keep: "cut_one m cs ic n = (ic', n', b) \<Longrightarrow> cuts_keep cs f \<Longrightarrow> f ic' = f ic"
proof (induction m cs ic n arbitrary: ic' n' b rule: cut_one.induct)
  case (2 m c cs ic n)
  have keep: "cuts_keep cs f" "\<And>ic1 k. cut_issue c ic = Some (ic1, k) \<Longrightarrow> f ic1 = f ic"
    using "2.prems"(2) unfolding cuts_keep_def by (meson list.set_intros)+
  show ?case
  proof (cases "cut_issue c ic")
    case None
    then show ?thesis using "2.IH"(1) [OF None _ keep(1)] "2.prems"(1) by simp
  next
    case (Some x)
    obtain ic1 k where x: "x = (ic1, k)" by (metis surj_pair)
    obtain ic2 n2 b2 where rest: "cut_one m cs ic1 (n - k) = (ic2, n2, b2)" by (metis surj_pair)
    have "n - k \<le> m \<or> f ic2 = f ic1"
      using "2.IH"(2) [OF Some x [symmetric] _ rest keep(1)] by (cases "n - k \<le> m") simp_all
    then show ?thesis using keep(2) "2.prems"(1) Some x rest by (auto split: if_splits)
  qed
qed simp

lemma cut_round_keep: "cut_round m cs ics n = (ics', n', b) \<Longrightarrow> cuts_keep cs f \<Longrightarrow> map f ics' = map f ics"
proof (induction m cs ics n arbitrary: ics' n' b rule: cut_round.induct)
  case (2 m cs ic ics n)
  obtain ic1 n1 b1 where one: "cut_one m cs ic n = (ic1, n1, b1)" by (metis surj_pair)
  obtain ics2 n2 b2 where rest: "cut_round m cs ics n1 = (ics2, n2, b2)" by (metis surj_pair)
  have ih: "n1 \<le> m \<or> map f ics2 = map f ics"
    using "2.IH" [OF one [symmetric] refl refl, OF _ rest "2.prems"(2)] by (cases "n1 \<le> m") simp_all
  then show ?case using cut_one_keep [OF one "2.prems"(2)] "2.prems"(1) one rest by (auto split: if_splits)
qed simp

lemma cut_rounds_keep: "cut_rounds m cs ics n = (ics', n') \<Longrightarrow> cuts_keep cs f \<Longrightarrow> map f ics' = map f ics"
proof (induction m cs ics n arbitrary: ics' n' rule: cut_rounds.induct)
  case (1 m cs ics n)
  obtain ics1 n1 b1 where one: "cut_round m cs ics n = (ics1, n1, b1)" by (metis surj_pair)
  note keep = cut_round_keep [OF one "1.prems"(2)]
  show ?case
  proof (cases "n > m \<and> \<not> (n1 \<le> m \<or> \<not> b1)")
    case True
    then have "cut_rounds m cs ics1 n1 = (ics', n')" using "1.prems"(1) one by (simp add: cut_rounds.simps [of m cs ics n])
    then have "map f ics' = map f ics1" using "1.IH" [OF _ one [symmetric] refl refl _ _ "1.prems"(2)] True by blast
    then show ?thesis using keep by simp
  next
    case False
    then show ?thesis using keep "1.prems"(1) one by (auto simp: cut_rounds.simps [of m cs ics n] split: if_splits)
  qed
qed

lemma keep_logs: "cuts_keep [LastEvent] ic_Logs"
  and keep_events: "cuts_keep [FirstLog] ic_Events"
  and keep_no_events: "cuts_keep [LastEvent] (\<lambda>ic. ic_Events ic = [])"
proof -
  show "cuts_keep [LastEvent] ic_Logs" "cuts_keep [FirstLog] ic_Events" by (auto simp: cuts_keep_def split: if_splits)
  have "butlast xs \<noteq> []" if "length xs > 1" for xs :: "string list" using that by (cases xs rule: rev_cases) auto
  then show "cuts_keep [LastEvent] (\<lambda>ic. ic_Events ic = [])" by (auto simp: cuts_keep_def split: if_splits)
qed

lemma cut_lengths:
  assumes "list_all2 cut_from ics ics'" "list_all (nothing_to_cut cs) ics"
  shows "LastEvent \<in> set cs \<Longrightarrow> list_all (\<lambda>ic. length (ic_Events ic) \<le> 1) ics'"
    and "FirstLog \<in> set cs \<Longrightarrow> list_all (\<lambda>ic. length (ic_Logs ic) \<le> 1) ics'"
proof -
  have "(LastEvent \<in> set cs \<longrightarrow> length (ic_Events ic') \<le> 1) \<and> (FirstLog \<in> set cs \<longrightarrow> length (ic_Logs ic') \<le> 1)"
    if "cut_from ic ic'" "nothing_to_cut cs ic" for ic ic'
    using that prefix_length_le [of "ic_Events ic'" "ic_Events ic"] suffix_length_le [of "ic_Logs ic'" "ic_Logs ic"]
    unfolding cut_from_def nothing_to_cut_def list_all_iff by (metis cut_issue.simps(1,2) le_trans not_le option.discI)
  then show "LastEvent \<in> set cs \<Longrightarrow> list_all (\<lambda>ic. length (ic_Events ic) \<le> 1) ics'"
      "FirstLog \<in> set cs \<Longrightarrow> list_all (\<lambda>ic. length (ic_Logs ic) \<le> 1) ics'"
    using assms by (auto simp: list_all2_conv_all_nth list_all_length)
qed

text \<open>An issue with at most its newest event, and with at most its newest line too.\<close>

definition one_event :: "IssueContext \<Rightarrow> IssueContext" where
  "one_event ic = ic\<lparr>ic_Events := take 1 (ic_Events ic)\<rparr>"

definition one_each :: "IssueContext \<Rightarrow> IssueContext" where
  "one_each ic = ic\<lparr>ic_Events := take 1 (ic_Events ic), ic_Logs := rev (take 1 (rev (ic_Logs ic)))\<rparr>"

lemma short_prefix: "prefix xs ys \<Longrightarrow> length xs \<le> 1 \<Longrightarrow> (xs = []) = (ys = []) \<Longrightarrow> xs = take 1 ys"
  by (cases xs; cases ys) auto

lemma cut_to_one:
  assumes "cut_from ic ic'" "(ic_Events ic' = []) = (ic_Events ic = [])" "length (ic_Events ic') \<le> 1"
  shows "ic_Logs ic' = ic_Logs ic \<Longrightarrow> ic' = one_event ic"
    and "(ic_Logs ic' = []) = (ic_Logs ic = []) \<Longrightarrow> length (ic_Logs ic') \<le> 1 \<Longrightarrow> ic' = one_each ic"
proof -
  have e: "ic_Events ic' = take 1 (ic_Events ic)"
    using assms by (intro short_prefix) (simp_all add: cut_from_def)
  have r: "ic' = ic\<lparr>ic_Events := ic_Events ic', ic_Logs := ic_Logs ic'\<rparr>"
    using assms(1) by (cases ic; cases ic') (simp add: cut_from_def)
  show "ic' = one_event ic" if "ic_Logs ic' = ic_Logs ic"
    by (subst r) (simp add: e that one_event_def)
  show "ic' = one_each ic" if "(ic_Logs ic' = []) = (ic_Logs ic = [])" "length (ic_Logs ic') \<le> 1"
  proof -
    have "rev (ic_Logs ic') = take 1 (rev (ic_Logs ic))"
      using short_prefix [of "rev (ic_Logs ic')" "rev (ic_Logs ic)"] that assms(1) by (simp add: cut_from_def suffix_to_prefix)
    then have "ic_Logs ic' = rev (take 1 (rev (ic_Logs ic)))" by (metis rev_rev_ident)
    then show ?thesis by (subst r) (simp add: e one_each_def)
  qed
qed

lemma map_eq_nth: "map f xs = map g ys \<Longrightarrow> i < length xs \<Longrightarrow> f (xs ! i) = g (ys ! i)"
  by (metis length_map nth_map)

lemma all_cut_to_one:
  assumes "list_all2 cut_from ics ics'" "map (\<lambda>ic. ic_Events ic = []) ics' = map (\<lambda>ic. ic_Events ic = []) ics"
    and "list_all (\<lambda>ic. length (ic_Events ic) \<le> 1) ics'"
  shows "map ic_Logs ics' = map ic_Logs ics \<Longrightarrow> ics' = map one_event ics"
    and "map (\<lambda>ic. ic_Logs ic = []) ics' = map (\<lambda>ic. ic_Logs ic = []) ics \<Longrightarrow> list_all (\<lambda>ic. length (ic_Logs ic) \<le> 1) ics' \<Longrightarrow>
      ics' = map one_each ics"
proof -
  have l: "length ics' = length ics" using assms(1) by (simp add: list_all2_lengthD)
  have at: "cut_from (ics ! i) (ics' ! i)" "(ic_Events (ics' ! i) = []) = (ic_Events (ics ! i) = [])" "length (ic_Events (ics' ! i)) \<le> 1"
    if "i < length ics" for i
    using that l assms(1,3) map_eq_nth [OF assms(2), of i] by (simp_all add: list_all2_conv_all_nth list_all_length)
  show "ics' = map one_event ics" if "map ic_Logs ics' = map ic_Logs ics"
    using l cut_to_one(1) [OF at] map_eq_nth [OF that] by (intro nth_equalityI) simp_all
  show "ics' = map one_each ics" if "map (\<lambda>ic. ic_Logs ic = []) ics' = map (\<lambda>ic. ic_Logs ic = []) ics"
      "list_all (\<lambda>ic. length (ic_Logs ic) \<le> 1) ics'"
    using l cut_to_one(2) [OF at] map_eq_nth [OF that(1)] that(2) by (intro nth_equalityI) (simp_all add: list_all_length)
qed

lemma keep_no_logs: "cuts_keep [FirstLog] (\<lambda>ic. ic_Logs ic = [])"
proof -
  have "tl xs \<noteq> []" if "length xs > 1" for xs :: "string list" using that by (cases xs) auto
  then show ?thesis by (auto simp: cuts_keep_def split: if_splits)
qed

lemma cuts_keep_pair: "cuts_keep cs f \<Longrightarrow> cuts_keep cs g \<Longrightarrow> cuts_keep cs (\<lambda>ic. (f ic, g ic))"
  unfolding cuts_keep_def by simp

lemma cuts_keep_apply: "cuts_keep cs f \<Longrightarrow> cuts_keep cs (\<lambda>ic. g (f ic))"
  unfolding cuts_keep_def by metis

text \<open>What the first two loops leave when the total does not fit after them.\<close>

lemma first_loop:
  assumes "cut_rounds m [LastEvent] ics (contextChars ics) = (ics1, n1)" "n1 > m"
  shows "ics1 = map one_event ics" "n1 = contextChars (map one_event ics)" "list_all (\<lambda>ic. length (ic_Events ic) \<le> 1) ics1"
proof -
  note parts = cut_rounds_parts [OF assms(1)]
  have "list_all (nothing_to_cut [LastEvent]) ics1" using cut_rounds_end [OF assms(1)] assms(2) by simp
  then show short: "list_all (\<lambda>ic. length (ic_Events ic) \<le> 1) ics1" by (auto simp: nothing_to_cut_def list_all_iff split: if_splits)
  show e: "ics1 = map one_event ics"
    using all_cut_to_one(1) [OF _ cut_rounds_keep [OF assms(1) keep_no_events] short cut_rounds_keep [OF assms(1) keep_logs]] parts by blast
  show "n1 = contextChars (map one_event ics)" using parts unfolding e [symmetric] by simp
qed

lemma one_each_again [simp]: "one_each (one_event ic) = one_each ic"
  by (simp add: one_each_def one_event_def)

lemma second_loop:
  assumes "cut_rounds m [LastEvent] ics (contextChars ics) = (ics1, n1)" "n1 > m" "cut_rounds m [FirstLog] ics1 n1 = (ics2, n2)" "n2 > m"
  shows "ics2 = map one_each ics" "n2 = contextChars (map one_each ics)"
proof -
  note one = first_loop [OF assms(1,2)] and parts = cut_rounds_parts [OF assms(3)]
  have events: "map ic_Events ics2 = map ic_Events ics1" by (rule cut_rounds_keep [OF assms(3) keep_events])
  have "list_all (nothing_to_cut [FirstLog]) ics2" using cut_rounds_end [OF assms(3)] assms(4) by simp
  then have short: "list_all (\<lambda>ic. length (ic_Logs ic) \<le> 1) ics2" by (auto simp: nothing_to_cut_def list_all_iff split: if_splits)
  have l: "length ics2 = length ics1" using parts list_all2_lengthD by metis
  have "map (\<lambda>es. es = []) (map ic_Events ics2) = map (\<lambda>es. es = []) (map ic_Events ics1)"
      "list_all (\<lambda>es. length es \<le> 1) (map ic_Events ics2) = list_all (\<lambda>es. length es \<le> 1) (map ic_Events ics1)"
    unfolding events by simp_all
  then have "map (\<lambda>ic. ic_Events ic = []) ics2 = map (\<lambda>ic. ic_Events ic = []) ics1" "list_all (\<lambda>ic. length (ic_Events ic) \<le> 1) ics2"
    using one(3) by (simp_all add: comp_def list.pred_map)
  then have "ics2 = map one_each ics1"
    using all_cut_to_one(2) [OF _ _ _ cut_rounds_keep [OF assms(3) keep_no_logs] short] parts by blast
  then show e: "ics2 = map one_each ics" by (simp add: one(1))
  show "n2 = contextChars (map one_each ics)" using parts one(2) unfolding e [symmetric] one(1) by simp
qed

text \<open>C19. The cap on the evidence: whatever was fetched, the loops end, and what is left fits the limit (30000 bytes without a
  positive one); each issue keeps its newest events and its newest lines. Nothing is cut when everything fits; a line of a
  log is cut only when the evidence does not fit with all the lines and only the newest event of every issue; and an issue
  loses its last event or its last line only when the evidence does not fit even with one event and one line for every
  issue, and then no issue has more than one of each left.\<close>

theorem evidence_cut_in_order:
  "contextChars (capTokenBudget maxTotal ics) \<le> char_limit maxTotal \<and>
   list_all2 cut_from ics (capTokenBudget maxTotal ics) \<and>
   (contextChars ics \<le> char_limit maxTotal \<longrightarrow> capTokenBudget maxTotal ics = ics) \<and>
   (map ic_Logs (capTokenBudget maxTotal ics) \<noteq> map ic_Logs ics \<longrightarrow>
      char_limit maxTotal < contextChars (map one_event ics) \<and>
      list_all (\<lambda>ic. length (ic_Events ic) \<le> 1) (capTokenBudget maxTotal ics)) \<and>
   (map (\<lambda>ic. (ic_Events ic = [], ic_Logs ic = [])) (capTokenBudget maxTotal ics) \<noteq> map (\<lambda>ic. (ic_Events ic = [], ic_Logs ic = [])) ics \<longrightarrow>
      char_limit maxTotal < contextChars (map one_each ics) \<and>
      list_all (\<lambda>ic. length (ic_Events ic) \<le> 1 \<and> length (ic_Logs ic) \<le> 1) (capTokenBudget maxTotal ics))"
proof -
  let ?m = "char_limit maxTotal" and ?empty = "\<lambda>ic. (ic_Events ic = [], ic_Logs ic = [])"
  obtain ics1 n1 where p1: "cut_rounds ?m [LastEvent] ics (contextChars ics) = (ics1, n1)" by (metis surj_pair)
  obtain ics2 n2 where p2: "cut_rounds ?m [FirstLog] ics1 n1 = (ics2, n2)" by (metis surj_pair)
  obtain ics3 n3 where p3: "cut_rounds ?m [AllEvents, AllLogs] ics2 n2 = (ics3, n3)" by (metis surj_pair)
  have cap: "capTokenBudget maxTotal ics = ics3"
    using p1 p2 p3 by (simp add: capTokenBudget_def char_limit_def [symmetric])
  have from1: "list_all2 cut_from ics1 ics3" and from2: "list_all2 cut_from ics2 ics3"
    using cut_rounds_parts [OF p2] cut_rounds_parts [OF p3] list_all2_cut_trans by blast+
  have lines: "?m < contextChars (map one_event ics) \<and> list_all (\<lambda>ic. length (ic_Events ic) \<le> 1) ics3" if "n1 > ?m"
  proof -
    have "list_all (nothing_to_cut [LastEvent]) ics1" using cut_rounds_end [OF p1] that by simp
    then have "list_all (\<lambda>ic. length (ic_Events ic) \<le> 1) ics3" using cut_lengths(1) [OF from1] by simp
    then show ?thesis using first_loop(2) [OF p1 that] that by metis
  qed
  have same2: "ics2 = ics1 \<and> n2 = n1" if "n1 \<le> ?m" using p2 cut_rounds_fits [OF that] by simp
  have same3: "ics3 = ics2" if "n2 \<le> ?m" using p3 cut_rounds_fits [OF that] by simp
  have l: "n1 > ?m" if "map ic_Logs ics3 \<noteq> map ic_Logs ics"
    using that cut_rounds_keep [OF p1 keep_logs] same2 same3 by (metis not_le)
  have k1: "map ?empty ics1 = map ?empty ics"
    by (rule cut_rounds_keep [OF p1 cuts_keep_pair [OF keep_no_events cuts_keep_apply [OF keep_logs]]])
  have k2: "map ?empty ics2 = map ?empty ics1"
    by (rule cut_rounds_keep [OF p2 cuts_keep_pair [OF cuts_keep_apply [OF keep_events] keep_no_logs]])
  have n2: "n1 > ?m \<and> n2 > ?m" if "map ?empty ics3 \<noteq> map ?empty ics"
  proof -
    have "ics3 \<noteq> ics2" using that unfolding k1 [symmetric] k2 [symmetric] by blast
    then have "n2 > ?m" using same3 by linarith
    moreover from this have "n1 > ?m" using same2 by linarith
    ultimately show ?thesis by simp
  qed
  have "?m < contextChars (map one_each ics) \<and> list_all (\<lambda>ic. length (ic_Events ic) \<le> 1 \<and> length (ic_Logs ic) \<le> 1) ics3"
    if d: "map ?empty ics3 \<noteq> map ?empty ics"
  proof -
    have n: "n1 > ?m" "n2 > ?m" using n2 [OF d] by simp_all
    have "list_all (nothing_to_cut [FirstLog]) ics2" using cut_rounds_end [OF p2] n(2) by simp
    then have "list_all (\<lambda>ic. length (ic_Logs ic) \<le> 1) ics3" using cut_lengths(2) [OF from2] by simp
    moreover have "?m < contextChars (map one_each ics)" using second_loop(2) [OF p1 n(1) p2 n(2)] n(2) by metis
    ultimately show ?thesis using lines [OF n(1)] by (simp add: list_all_iff)
  qed
  then show ?thesis
    using capTokenBudget_parts [where ics = ics and maxTotal = maxTotal, unfolded cap] lines l unfolding cap by (intro conjI impI) simp_all
qed

text \<open>Two issues, with room for one event and the last line.\<close>

definition ex_evidence :: "IssueContext list" where
  "ex_evidence = map (\<lambda>(es, ls). \<lparr>ic_Type = ''OOMKilled'', ic_Severity = [], ic_Resource = [], ic_Namespace = [], ic_Message = [],
     ic_StaticSuggestion = [], ic_Events = es, ic_Logs = ls\<rparr>) [([''new'', ''old''], [''line 1'', ''line 2'']), ([''only''], [])]"

lemma evidence_cut_in_order_witness:
  "map ic_Events (capTokenBudget 13 ex_evidence) = [[''new''], [''only'']] \<and> map ic_Logs (capTokenBudget 13 ex_evidence) = [[''line 2''], []] \<and>
   contextChars (capTokenBudget 13 ex_evidence) \<le> 13 \<and> list_all (\<lambda>ic. length (ic_Events ic) \<le> 1) (capTokenBudget 13 ex_evidence)"
proof -
  have "map ic_Events (capTokenBudget 13 ex_evidence) = [[''new''], [''only'']]" "map ic_Logs (capTokenBudget 13 ex_evidence) = [[''line 2''], []]"
    "char_limit 13 = 13" "map ic_Logs ex_evidence = [[''line 1'', ''line 2''], []]"
    by code_simp+
  then show ?thesis using evidence_cut_in_order [of 13 ex_evidence] by simp
qed

section \<open>What is listed\<close>

definition cache_wf :: "context_cache \<Rightarrow> bool" where
  "cache_wf st \<longleftrightarrow> distinct (requested st) \<and>
     (\<forall>ns. (EventsOf ns \<in> set (requested st) \<longleftrightarrow> eventCache st ns \<noteq> None) \<and> (PodsOf ns \<in> set (requested st) \<longleftrightarrow> podCache st ns \<noteq> None))"

lemma events_wf: "getNamespaceEvents src ns st = (evs, st') \<Longrightarrow> cache_wf st \<Longrightarrow> cache_wf st'"
  by (auto simp: getNamespaceEvents_def cache_wf_def Let_def split: option.splits if_splits)

lemma pods_wf: "getNamespacePods src ns st = (pods, st') \<Longrightarrow> cache_wf st \<Longrightarrow> cache_wf st'"
  by (auto simp: getNamespacePods_def cache_wf_def Let_def split: option.splits if_splits)

definition enriched_from :: "nat \<Rightarrow> nat \<Rightarrow> IssueContext \<Rightarrow> IssueContext \<Rightarrow> bool" where
  "enriched_from maxEvents maxLines ic ic' \<longleftrightarrow> ic'\<lparr>ic_Events := [], ic_Logs := []\<rparr> = ic\<lparr>ic_Events := [], ic_Logs := []\<rparr> \<and>
     length (ic_Events ic') \<le> maxEvents \<and> length (ic_Logs ic') \<le> maxLines"

lemma enrich_events_wf: "enrichEvents src m ic st = (ic', st') \<Longrightarrow> cache_wf st \<Longrightarrow> cache_wf st' \<and>
    (ic_Events ic = [] \<and> ic_Logs ic = [] \<longrightarrow> enriched_from m 0 ic ic')"
  by (auto simp: enrichEvents_def enriched_from_def Let_def split: prod.splits if_splits intro: events_wf)

lemma issue_pods_wf: "issue_pods src ns kind name st = (pods, st') \<Longrightarrow> cache_wf st \<Longrightarrow> cache_wf st'"
  by (auto simp: issue_pods_def findOwnedPods_def Let_def split: prod.splits if_splits intro: pods_wf)

lemma enrich_logs_wf: "enrichLogs src n ic st = (ic', st') \<Longrightarrow> cache_wf st \<Longrightarrow> cache_wf st' \<and>
    (enriched_from m 0 ic0 ic \<longrightarrow> enriched_from m n ic0 ic')"
  by (auto simp: enrichLogs_def enriched_from_def readLines_def Let_def split: prod.splits if_splits option.splits list.splits
      intro: issue_pods_wf)

definition blank :: "IssueContext \<Rightarrow> bool" where
  "blank ic \<longleftrightarrow> ic_Events ic = [] \<and> ic_Logs ic = []"

lemma enrich_all_wf: "enrich_all src m n ics st = (ics', st') \<Longrightarrow> cache_wf st \<Longrightarrow> list_all blank ics \<Longrightarrow>
    cache_wf st' \<and> list_all2 (enriched_from m n) ics ics'"
proof (induction src m n ics st arbitrary: ics' st' rule: enrich_all.induct)
  case (2 src m n ic ics st)
  obtain ic1 st1 where e: "enrichEvents src m ic st = (ic1, st1)" by (metis surj_pair)
  obtain ic2 st2 where l: "enrichLogs src n ic1 st1 = (ic2, st2)" by (metis surj_pair)
  obtain ics3 st3 where r: "enrich_all src m n ics st2 = (ics3, st3)" by (metis surj_pair)
  have 1: "cache_wf st1" "enriched_from m 0 ic ic1"
    using enrich_events_wf [OF e "2.prems"(2)] "2.prems"(3) by (simp_all add: blank_def)
  have 2: "cache_wf st2" "enriched_from m n ic ic2" using enrich_logs_wf [OF l 1(1)] 1(2) by blast+
  have "cache_wf st3 \<and> list_all2 (enriched_from m n) ics ics3"
    by (rule "2.IH" [OF e [symmetric] refl l [symmetric] refl r 2(1)]) (use "2.prems"(3) in simp)
  then show ?case using "2.prems"(1) e l r 2 by auto
qed simp

lemma enriched_cut: "enriched_from m n ic ic' \<Longrightarrow> cut_from ic' ic'' \<Longrightarrow> enriched_from m n ic ic''"
  using prefix_length_le suffix_length_le by (fastforce simp: enriched_from_def cut_from_def)

text \<open>Enriching lists the events and the pods of a namespace at most once, however many issues there are and whichever of
  the listings fail, changes nothing but the events and the logs of an issue, and keeps the limits on both: per issue, and
  in bytes for all of them together.\<close>

theorem enrichment_bounded:
  assumes "lg_Enabled cfg" "list_all blank ics" "Enrich src cfg ics = (ics', calls)"
  shows "distinct calls \<and> contextChars ics' \<le> char_limit (lg_MaxTotalChars cfg) \<and>
    list_all2 (enriched_from (positive_limit 10 (lg_MaxEventsPerIssue cfg)) (positive_limit 50 (lg_MaxLogLines cfg))) ics ics'"
proof (cases "ics = []")
  case False
  let ?m = "positive_limit 10 (lg_MaxEventsPerIssue cfg)" and ?n = "positive_limit 50 (lg_MaxLogLines cfg)"
  obtain ics1 st where all: "enrich_all src ?m ?n ics no_cache = (ics1, st)" by (metis surj_pair)
  have r: "ics' = capTokenBudget (lg_MaxTotalChars cfg) ics1" "calls = requested st"
    using assms(1,3) False all by (simp_all add: Enrich_def)
  have "cache_wf no_cache" by (simp add: cache_wf_def no_cache_def)
  then have wf: "cache_wf st" "list_all2 (enriched_from ?m ?n) ics ics1" using enrich_all_wf [OF all] assms(2) by blast+
  have "list_all2 (enriched_from ?m ?n) ics ics'"
    unfolding r by (rule list_all2_trans [OF _ wf(2) capTokenBudget_parts(1)]) (rule enriched_cut)
  then show ?thesis using wf(1) capTokenBudget_parts(2) by (simp add: r cache_wf_def)
qed (use assms in \<open>simp add: Enrich_def char_limit_def\<close>)

text \<open>A crashed deployment whose pod hangs on a replica set; the pods of its namespace cannot be listed a second time.\<close>

definition ex_source :: context_source where
  "ex_source = \<lparr>xs_events = (\<lambda>_ _. None),
     xs_pods = (\<lambda>calls ns. if PodsOf ns \<in> set calls then None
       else Some [\<lparr>op_Name = ''api-5d9c7b8f64-x2x2x'', op_OwnerReferences = [(''ReplicaSet'', ''api-5d9c7b8f64'')]\<rparr>]),
     xs_logs = Some (\<lambda>_ _ previous. if previous then Some (''starting'' @ [CHR 0x0D, CHR 0x0A] @ ''panic'' @ [CHR 0x0A]) else None),
     xs_sort = (\<lambda>evs. evs)\<rparr>"

definition ex_crash :: IssueContext where
  "ex_crash = \<lparr>ic_Type = ''CrashLoopBackOff'', ic_Severity = ''Critical'', ic_Resource = ''deployment/api'', ic_Namespace = ''prod'',
     ic_Message = [], ic_StaticSuggestion = [], ic_Events = [], ic_Logs = []\<rparr>"

definition ex_log_config :: LogContextConfig where
  "ex_log_config = \<lparr>lg_Enabled = True, lg_MaxEventsPerIssue = 0, lg_MaxLogLines = 0, lg_MaxTotalChars = 20\<rparr>"

lemma enrichment_bounded_witness:
  "\<exists>ics' calls. Enrich ex_source ex_log_config [ex_crash, ex_crash] = (ics', calls) \<and> distinct calls \<and> contextChars ics' \<le> 20 \<and>
     map ic_Logs ics' = [[''panic''], [''starting'', ''panic'']] \<and> calls = [EventsOf ''prod'', PodsOf ''prod'']"
proof -
  obtain ics' calls where e: "Enrich ex_source ex_log_config [ex_crash, ex_crash] = (ics', calls)" by (metis surj_pair)
  have v: "map ic_Logs (fst (Enrich ex_source ex_log_config [ex_crash, ex_crash])) = [[''panic''], [''starting'', ''panic'']]"
    "snd (Enrich ex_source ex_log_config [ex_crash, ex_crash]) = [EventsOf ''prod'', PodsOf ''prod'']" "char_limit (lg_MaxTotalChars ex_log_config) = 20"
    by code_simp+
  have "lg_Enabled ex_log_config" "list_all blank [ex_crash, ex_crash]"
    by (simp_all add: ex_log_config_def ex_crash_def blank_def)
  then have "distinct calls \<and> contextChars ics' \<le> 20" using enrichment_bounded [OF _ _ e] v(3) by metis
  then show ?thesis using e v(1,2) by auto
qed

end
