(* ===== verification/Go_Url.thy ===== *)
theory Go_Url
  imports Go_Text Go_Regexp
begin

text \<open>
  Escaping in URLs (\<open>net/url\<close>): path segments, query values, the encoding of a query and what the server reads from it.
\<close>

section \<open>Escaping\<close>

definition hex_digit :: "nat \<Rightarrow> char" where
  "hex_digit n = (if n < 10 then char_of (48 + n) else char_of (55 + n))"

definition hex_value :: "char \<Rightarrow> nat option" where
  "hex_value c =
     (let n = (of_char c :: nat) in
      if 48 \<le> n \<and> n \<le> 57 then Some (n - 48)
      else if 65 \<le> n \<and> n \<le> 70 then Some (n - 55)
      else if 97 \<le> n \<and> n \<le> 102 then Some (n - 87)
      else None)"

definition url_letter :: "char \<Rightarrow> bool" where
  "url_letter c \<longleftrightarrow> alnum c \<or> c \<in> set ''-_.~''"

definition path_safe :: "char \<Rightarrow> bool" where
  "path_safe c \<longleftrightarrow> url_letter c \<or> c \<in> set ''$&+:=@''"

definition percent :: "char \<Rightarrow> string" where
  "percent c = [CHR ''%'', hex_digit (of_char c div 16), hex_digit (of_char c mod 16)]"

definition PathEscape :: "string \<Rightarrow> string" where
  "PathEscape s = concat (map (\<lambda>c. if path_safe c then [c] else percent c) s)"

definition QueryEscape :: "string \<Rightarrow> string" where
  "QueryEscape s = concat (map (\<lambda>c. if url_letter c then [c] else if c = CHR '' '' then ''+'' else percent c) s)"

text \<open>In a query (\<open>True\<close>) a plus is a space.\<close>

fun url_unescape :: "bool \<Rightarrow> string \<Rightarrow> string option" where
  "url_unescape query [] = Some []"
| "url_unescape query (c # cs) =
     (if c = CHR ''%''
      then (case cs of
          a # b # rest \<Rightarrow>
            (case (hex_value a, hex_value b) of
               (Some i, Some j) \<Rightarrow> map_option (Cons (char_of (16 * i + j))) (url_unescape query rest)
             | _ \<Rightarrow> None)
        | _ \<Rightarrow> None)
      else map_option (Cons (if query \<and> c = CHR ''+'' then CHR '' '' else c)) (url_unescape query cs))"

text \<open>\<open>Values.Encode\<close> writes the pairs in the order of their keys, here the order of the list; \<open>Query().Get\<close> takes the first
  value of a key and skips what cannot be read.\<close>

definition encode_values :: "(string \<times> string) list \<Rightarrow> string" where
  "encode_values kvs = str_join ''&'' (map (\<lambda>(k, v). QueryEscape k @ ''='' @ QueryEscape v) kvs)"

definition query_pair :: "string \<Rightarrow> (string \<times> string) option" where
  "query_pair s =
     (if s = [] \<or> CHR '';'' \<in> set s then None
      else let (k, v) = (case split2 (CHR ''='') s of None \<Rightarrow> (s, []) | Some kv \<Rightarrow> kv) in
        case (url_unescape True k, url_unescape True v) of (Some k', Some v') \<Rightarrow> Some (k', v') | _ \<Rightarrow> None)"

definition parse_query :: "string \<Rightarrow> (string \<times> string) list" where
  "parse_query s = List.map_filter query_pair (split_all (CHR ''&'') s)"

definition query_get :: "string \<Rightarrow> string \<Rightarrow> string" where
  "query_get s key = (case map_of (parse_query s) key of None \<Rightarrow> [] | Some v \<Rightarrow> v)"

section \<open>Reading back\<close>

lemma hex_value_digit: "n < 16 \<Longrightarrow> hex_value (hex_digit n) = Some n"
  by (auto simp: hex_value_def hex_digit_def Let_def)

lemma of_char_less: "(of_char c :: nat) < 256"
  by (cases c) (simp add: nat_of_char_less_256)

lemma of_char_div: "of_char c div 16 < (16 :: nat)"
  using of_char_less [of c] by linarith

lemma unescape_percent: "url_unescape q (percent c @ s) = map_option (Cons c) (url_unescape q s)"
proof -
  have "of_char c div 16 < (16 :: nat)" by (rule of_char_div)
  moreover have "16 * (of_char c div 16) + of_char c mod 16 = (of_char c :: nat)" by simp
  ultimately show ?thesis by (simp add: percent_def hex_value_digit)
qed

lemma unescape_path: "url_unescape False (PathEscape s @ t) = map_option ((@) s) (url_unescape False t)"
proof (induction s)
  case (Cons c s)
  have esc: "PathEscape (c # s) = (if path_safe c then [c] else percent c) @ PathEscape s" by (simp add: PathEscape_def)
  have "\<not> path_safe (CHR ''%'')" by code_simp
  then have "path_safe c \<Longrightarrow> c \<noteq> CHR ''%''" by auto
  then show ?case using Cons unfolding esc by (simp add: unescape_percent option.map_comp comp_def)
qed (simp add: PathEscape_def option.map_id0 [unfolded id_def, THEN fun_cong] option.map_ident)

lemma unescape_query: "url_unescape True (QueryEscape s @ t) = map_option ((@) s) (url_unescape True t)"
proof (induction s)
  case (Cons c s)
  have esc: "QueryEscape (c # s) = (if url_letter c then [c] else if c = CHR '' '' then ''+'' else percent c) @ QueryEscape s"
    by (simp add: QueryEscape_def)
  have "\<not> url_letter (CHR ''%'')" "\<not> url_letter (CHR ''+'')" by code_simp+
  then have "url_letter c \<Longrightarrow> c \<noteq> CHR ''%'' \<and> c \<noteq> CHR ''+''" by auto
  then show ?case using Cons unfolding esc by (auto simp: unescape_percent option.map_comp comp_def)
qed (simp add: QueryEscape_def option.map_ident)

lemma unescape_plain: "CHR ''%'' \<notin> set s \<Longrightarrow> url_unescape False (s @ t) = map_option ((@) s) (url_unescape False t)"
proof (induction s)
  case Nil
  show ?case by (cases "url_unescape False t") simp_all
next
  case (Cons c s)
  then have "c \<noteq> CHR ''%''" by auto
  then show ?case using Cons by (cases "url_unescape False t") simp_all
qed

lemma path_roundtrip [simp]: "url_unescape False (PathEscape s) = Some s"
  using unescape_path [of s "[]"] by simp

lemma query_roundtrip [simp]: "url_unescape True (QueryEscape s) = Some s"
  using unescape_query [of s "[]"] by simp

text \<open>What an escaped text does not contain.\<close>

lemma hex_digit_letter: "n < 16 \<Longrightarrow> url_letter (hex_digit n)"
proof -
  have "\<forall>n \<in> set [0..<16]. url_letter (hex_digit n)" by code_simp
  then show "n < 16 \<Longrightarrow> url_letter (hex_digit n)" by auto
qed

lemma percent_chars: "x \<in> set (percent c) \<Longrightarrow> url_letter x \<or> x = CHR ''%''"
proof -
  have "of_char c div 16 < (16 :: nat)" by (rule of_char_div)
  then show "x \<in> set (percent c) \<Longrightarrow> url_letter x \<or> x = CHR ''%''" by (auto simp: percent_def hex_digit_letter)
qed

lemma path_chars: "x \<in> set (PathEscape s) \<Longrightarrow> path_safe x \<or> x = CHR ''%''"
  by (auto simp: PathEscape_def path_safe_def split: if_splits dest: percent_chars)

lemma query_chars: "x \<in> set (QueryEscape s) \<Longrightarrow> url_letter x \<or> x = CHR ''+'' \<or> x = CHR ''%''"
  by (auto simp: QueryEscape_def split: if_splits dest: percent_chars)

lemma path_free: "CHR ''/'' \<notin> set (PathEscape s)" "CHR ''?'' \<notin> set (PathEscape s)"
proof -
  have "\<not> path_safe (CHR ''/'')" "\<not> path_safe (CHR ''?'')" by code_simp+
  then show "CHR ''/'' \<notin> set (PathEscape s)" "CHR ''?'' \<notin> set (PathEscape s)" using path_chars by fastforce+
qed

lemma query_free: "CHR ''&'' \<notin> set (QueryEscape s)" "CHR ''='' \<notin> set (QueryEscape s)" "CHR '';'' \<notin> set (QueryEscape s)"
proof -
  have "\<not> url_letter (CHR ''&'')" "\<not> url_letter (CHR ''='')" "\<not> url_letter (CHR '';'')" by code_simp+
  then show "CHR ''&'' \<notin> set (QueryEscape s)" "CHR ''='' \<notin> set (QueryEscape s)" "CHR '';'' \<notin> set (QueryEscape s)"
    using query_chars by fastforce+
qed

lemma PathEscape_inj: "PathEscape s = t \<Longrightarrow> CHR ''%'' \<notin> set t \<Longrightarrow> s = t"
  using path_roundtrip [of s] unescape_plain [of t "[]"] by simp

section \<open>Splitting what was joined\<close>

lemma split_all_cons: "c \<notin> set s \<Longrightarrow> split_all c (s @ c # t) = s # split_all c t"
  by (induction s) auto

lemma split_all_single: "c \<notin> set s \<Longrightarrow> split_all c s = [s]"
  by (induction s) auto

lemma split_all_join:
  "parts \<noteq> [] \<Longrightarrow> list_all (\<lambda>p. c \<notin> set p) parts \<Longrightarrow> split_all c (str_join [c] parts) = parts"
  by (induction "[c]" parts rule: str_join.induct) (auto simp: split_all_cons split_all_single)

lemma query_pair_roundtrip: "query_pair (QueryEscape k @ ''='' @ QueryEscape v) = Some (k, v)"
proof -
  have "split2 (CHR ''='') (QueryEscape k @ ''='' @ QueryEscape v) = Some (QueryEscape k, QueryEscape v)"
    using query_free(2) by (simp add: split2_Some)
  then show ?thesis using query_free(3) by (auto simp: query_pair_def)
qed

text \<open>What is encoded is read back.\<close>

lemma query_values_roundtrip:
  assumes "kvs \<noteq> []"
  shows "parse_query (encode_values kvs) = kvs"
proof -
  have "list_all (\<lambda>p. CHR ''&'' \<notin> set p) (map (\<lambda>(k, v). QueryEscape k @ ''='' @ QueryEscape v) kvs)"
    using query_free(1) by (auto simp: list_all_iff)
  then have "split_all (CHR ''&'') (encode_values kvs) = map (\<lambda>(k, v). QueryEscape k @ ''='' @ QueryEscape v) kvs"
    using split_all_join assms by (simp add: encode_values_def)
  moreover have "List.map_filter query_pair (map (\<lambda>(k, v). QueryEscape k @ ''='' @ QueryEscape v) kvs) = kvs"
    by (induction kvs) (auto simp: List.map_filter_simps query_pair_roundtrip [simplified])
  ultimately show ?thesis by (simp add: parse_query_def)
qed

section \<open>Decimal numbers\<close>

lemma digits_of_value: "digits_value (digits_of n) = int n \<and> list_all is_digit (digits_of n)"
proof (induction n rule: digits_of.induct)
  case (1 n)
  have d: "is_digit (char_of (48 + k))" "int (of_char (char_of (48 + k) :: char)) = 48 + int k" if "k < 10" for k :: nat
    using that by (auto simp: is_digit_def less_eq_char_def)
  show ?case
  proof (cases "n < 10")
    case True
    then show ?thesis using d [of n] by (simp add: digits_of.simps [of n] digits_value_def)
  next
    case False
    moreover have "10 * int (n div 10) + int (n mod 10) = int n" by presburger
    ultimately show ?thesis using 1 d [of "n mod 10"] by (simp add: digits_of.simps [of n] digits_value_def)
  qed
qed

lemma atoi_itoa:
  assumes "0 \<le> n" "n < 2 ^ 63"
  shows "go_atoi (itoa n) = Some n"
proof -
  have v: "digits_value (digits_of (nat n)) = n" "list_all is_digit (digits_of (nat n))"
    using digits_of_value [of "nat n"] assms(1) by simp_all
  obtain c cs where c: "digits_of (nat n) = c # cs" by (cases "digits_of (nat n)") auto
  then have "c \<noteq> CHR ''-''" "c \<noteq> CHR ''+''" using v(2) by (auto simp: is_digit_def less_eq_char_def)
  then show ?thesis using v c assms by (simp add: go_atoi_def itoa_def in_int64_def)
qed

end
