(* ===== verification/Console.thy ===== *)
theory Console
  imports Go_Url Go_Parse Resource_Checkers
begin

text \<open>
  The console (\<open>internal/console\<close>, \<open>cmd/console-backend\<close>) and the data source that talks to it
  (\<open>internal/datasource/console.go\<close>): one HTTP server in front of the API servers of several clusters. The readers of the
  clusters, the parsing of URLs and of label selectors, HTTP and JSON are parameters.
\<close>

section \<open>Resources and objects\<close>

text \<open>Group, version and kind of what the data source can fetch, and the name of the resource.\<close>

definition gvkToResource :: "((string \<times> string \<times> string) \<times> string) list" where
  "gvkToResource =
     [(([], ''v1'', ''Pod''), ''pods''), (([], ''v1'', ''PodList''), ''pods''), (([], ''v1'', ''Service''), ''services''),
      (([], ''v1'', ''ServiceList''), ''services''), (([], ''v1'', ''Secret''), ''secrets''),
      (([], ''v1'', ''SecretList''), ''secrets''), (([], ''v1'', ''PersistentVolumeClaim''), ''persistentvolumeclaims''),
      (([], ''v1'', ''PersistentVolumeClaimList''), ''persistentvolumeclaims''),
      (([], ''v1'', ''ResourceQuota''), ''resourcequotas''), (([], ''v1'', ''ResourceQuotaList''), ''resourcequotas''),
      (([], ''v1'', ''Namespace''), ''namespaces''), (([], ''v1'', ''NamespaceList''), ''namespaces''),
      (([], ''v1'', ''Event''), ''events''), (([], ''v1'', ''EventList''), ''events''),
      ((''apps'', ''v1'', ''Deployment''), ''deployments''), ((''apps'', ''v1'', ''DeploymentList''), ''deployments''),
      ((''apps'', ''v1'', ''StatefulSet''), ''statefulsets''), ((''apps'', ''v1'', ''StatefulSetList''), ''statefulsets''),
      ((''apps'', ''v1'', ''DaemonSet''), ''daemonsets''), ((''apps'', ''v1'', ''DaemonSetList''), ''daemonsets''),
      ((''apps'', ''v1'', ''ReplicaSet''), ''replicasets''), ((''apps'', ''v1'', ''ReplicaSetList''), ''replicasets''),
      ((''networking.k8s.io'', ''v1'', ''NetworkPolicy''), ''networkpolicies''),
      ((''networking.k8s.io'', ''v1'', ''NetworkPolicyList''), ''networkpolicies''),
      ((''helm.toolkit.fluxcd.io'', ''v2'', ''HelmRelease''), ''helmreleases''),
      ((''helm.toolkit.fluxcd.io'', ''v2'', ''HelmReleaseList''), ''helmreleases''),
      ((''kustomize.toolkit.fluxcd.io'', ''v1'', ''Kustomization''), ''kustomizations''),
      ((''kustomize.toolkit.fluxcd.io'', ''v1'', ''KustomizationList''), ''kustomizations''),
      ((''source.toolkit.fluxcd.io'', ''v1'', ''GitRepository''), ''gitrepositories''),
      ((''source.toolkit.fluxcd.io'', ''v1'', ''GitRepositoryList''), ''gitrepositories'')]"

definition clusterScopedResources :: "string list" where
  "clusterScopedResources = [''namespaces'']"

text \<open>Secrets are told apart from other objects, because the console changes them.\<close>

datatype 'o k8s_object = SecretObject Secret | SecretListObject "Secret list" | OtherObject 'o

datatype k8s_error = IsNotFound string | IsForbidden string | OtherError string

record 'sel list_options =
  lp_Namespace :: string
  lp_Selector :: "'sel option"
  lp_FieldSelector :: "string option"
  lp_Limit :: int

text \<open>A client of a cluster: an object by kind, namespace and name, a list by its kind and options.\<close>

record ('o, 'sel) cluster_reader =
  rd_Get :: "string \<Rightarrow> string \<Rightarrow> string \<Rightarrow> k8s_error + 'o k8s_object"
  rd_List :: "string \<Rightarrow> 'sel list_options \<Rightarrow> k8s_error + 'o k8s_object"

section \<open>The aggregator\<close>

type_synonym ('o, 'sel) aggregator = "(string \<times> ('o, 'sel) cluster_reader) list"

record ClusterConfig =
  kc_ID :: string
  kc_KubeconfigPath :: string

fun cluster_configs :: "string list \<Rightarrow> string + ClusterConfig list" where
  "cluster_configs [] = Inr []"
| "cluster_configs (p # ps) =
     (let pair = trim_space p in
      if pair = [] then cluster_configs ps
      else case split2 (CHR ''='') pair of
        None \<Rightarrow> Inl (''invalid kubeconfig pair: '' @ go_quote pair @ '' (expected id=path)'')
      | Some (cluster, path) \<Rightarrow>
          if cluster = [] \<or> path = [] then Inl (''invalid kubeconfig pair: '' @ go_quote pair @ '' (expected id=path)'')
          else map_sum id (Cons \<lparr>kc_ID = cluster, kc_KubeconfigPath = path\<rparr>) (cluster_configs ps))"

definition parseKubeconfigs :: "string \<Rightarrow> string + ClusterConfig list" where
  "parseKubeconfigs s =
     (case cluster_configs (split_all (CHR '','') s) of
        Inl e \<Rightarrow> Inl e
      | Inr configs \<Rightarrow> if configs = [] then Inl ''no kubeconfig pairs provided'' else Inr configs)"

text \<open>Loading a kubeconfig and making a client may fail; a later cluster of the same name replaces an earlier one.\<close>

fun add_clusters :: "(string \<Rightarrow> string + 'c) \<Rightarrow> ('c \<Rightarrow> string + ('o, 'sel) cluster_reader) \<Rightarrow> ClusterConfig list \<Rightarrow> ('o, 'sel) aggregator \<Rightarrow>
    string + ('o, 'sel) aggregator" where
  "add_clusters load connect [] agg = Inr agg"
| "add_clusters load connect (cfg # cfgs) agg =
     (case load (kc_KubeconfigPath cfg) of
        Inl e \<Rightarrow> Inl (''cluster '' @ kc_ID cfg @ '': failed to load kubeconfig '' @ kc_KubeconfigPath cfg @ '': '' @ e)
      | Inr c \<Rightarrow>
          (case connect c of
             Inl e \<Rightarrow> Inl (''cluster '' @ kc_ID cfg @ '': failed to create client: '' @ e)
           | Inr rd \<Rightarrow> add_clusters load connect cfgs (AList.update (kc_ID cfg) rd agg)))"

definition NewAggregator :: "(string \<Rightarrow> string + 'c) \<Rightarrow> ('c \<Rightarrow> string + ('o, 'sel) cluster_reader) \<Rightarrow> ClusterConfig list \<Rightarrow>
    string + ('o, 'sel) aggregator" where
  "NewAggregator load connect configs = add_clusters load connect configs []"

definition GetReader :: "('o, 'sel) aggregator \<Rightarrow> string \<Rightarrow> ('o, 'sel) cluster_reader option" where
  "GetReader agg = map_of agg"

definition ClusterIDs :: "('o, 'sel) aggregator \<Rightarrow> string list" where
  "ClusterIDs agg = sort (map fst agg)"

section \<open>The server\<close>

text \<open>An encoded object, the list of the clusters, an error as JSON, a plain text, or a redirection to the cleaned path.\<close>

datatype 'o console_answer =
  Encoded "'o k8s_object"
| ClusterList "string list"
| ConsoleError nat string
| PlainText nat string
| MovedPermanently

definition object_kinds :: "(string \<times> string) list" where
  "object_kinds =
     [(''pods'', ''Pod''), (''services'', ''Service''), (''secrets'', ''Secret''),
      (''persistentvolumeclaims'', ''PersistentVolumeClaim''), (''resourcequotas'', ''ResourceQuota''),
      (''namespaces'', ''Namespace''), (''events'', ''Event''), (''deployments'', ''Deployment''),
      (''statefulsets'', ''StatefulSet''), (''daemonsets'', ''DaemonSet''), (''replicasets'', ''ReplicaSet''),
      (''networkpolicies'', ''NetworkPolicy''), (''helmreleases'', ''HelmRelease''),
      (''kustomizations'', ''Kustomization''), (''gitrepositories'', ''GitRepository'')]"

definition newObjectForResource :: "string \<Rightarrow> string + string" where
  "newObjectForResource resource =
     (case map_of object_kinds resource of None \<Rightarrow> Inl (''unsupported resource: '' @ resource) | Some k \<Rightarrow> Inr k)"

definition newListForResource :: "string \<Rightarrow> string + string" where
  "newListForResource resource =
     (case map_of object_kinds resource of None \<Rightarrow> Inl (''unsupported resource: '' @ resource) | Some k \<Rightarrow> Inr (k @ ''List''))"

definition sanitizeSecret :: "Secret \<Rightarrow> Secret" where
  "sanitizeSecret s = s\<lparr>sec_Data := [], sec_StringData := []\<rparr>"

fun sanitizeSensitiveFields :: "'o k8s_object \<Rightarrow> 'o k8s_object" where
  "sanitizeSensitiveFields (SecretObject s) = SecretObject (sanitizeSecret s)"
| "sanitizeSensitiveFields (SecretListObject ss) = SecretListObject (map sanitizeSecret ss)"
| "sanitizeSensitiveFields (OtherObject x) = OtherObject x"

fun writeK8sError :: "k8s_error \<Rightarrow> 'o console_answer" where
  "writeK8sError (IsNotFound e) = ConsoleError 404 e"
| "writeK8sError (IsForbidden e) = ConsoleError 403 e"
| "writeK8sError (OtherError e) = ConsoleError 500 ''internal server error''"

definition write_result :: "k8s_error + 'o k8s_object \<Rightarrow> 'o console_answer" where
  "write_result r = (case r of Inl e \<Rightarrow> writeK8sError e | Inr x \<Rightarrow> Encoded (sanitizeSensitiveFields x))"

definition console_handleGet :: "('o, 'sel) cluster_reader \<Rightarrow> string \<Rightarrow> string \<Rightarrow> string \<Rightarrow> 'o console_answer" where
  "console_handleGet reader namespace resource name =
     (case newObjectForResource resource of
        Inl e \<Rightarrow> ConsoleError 400 e
      | Inr kind \<Rightarrow> write_result (rd_Get reader kind namespace name))"

text \<open>The selector library: parsing with its errors, and printing.\<close>

record 'sel selectors =
  sl_parse :: "string \<Rightarrow> string + 'sel"
  sl_print :: "'sel \<Rightarrow> string"

definition parse_limit :: "string \<Rightarrow> int" where
  "parse_limit s = (case go_atoi s of None \<Rightarrow> 0 | Some n \<Rightarrow> if n > 0 then n else 0)"

definition buildListOptions :: "'sel selectors \<Rightarrow> string \<Rightarrow> string \<Rightarrow> string + 'sel list_options" where
  "buildListOptions sl query namespace =
     (let sel = query_get query ''labelSelector'';
          opts = \<lparr>lp_Namespace = namespace, lp_Selector = None, lp_FieldSelector = None,
            lp_Limit = parse_limit (query_get query ''limit'')\<rparr>
      in if sel = [] then Inr opts
         else case sl_parse sl sel of
           Inl e \<Rightarrow> Inl (''invalid labelSelector '' @ go_quote sel @ '': '' @ e)
         | Inr s \<Rightarrow> Inr (opts\<lparr>lp_Selector := Some s\<rparr>))"

definition console_handleList :: "'sel selectors \<Rightarrow> string \<Rightarrow> ('o, 'sel) cluster_reader \<Rightarrow> string \<Rightarrow> string \<Rightarrow> 'o console_answer" where
  "console_handleList sl query reader namespace resource =
     (case newListForResource resource of
        Inl e \<Rightarrow> ConsoleError 400 e
      | Inr kind \<Rightarrow>
          (case buildListOptions sl query namespace of
             Inl e \<Rightarrow> ConsoleError 400 e
           | Inr opts \<Rightarrow> write_result (rd_List reader kind opts)))"

definition trim_right :: "char \<Rightarrow> string \<Rightarrow> string" where
  "trim_right c s = rev (dropWhile (\<lambda>x. x = c) (rev s))"

text \<open>Namespace, resource and name of the segments after the cluster.\<close>

definition resource_path :: "string list \<Rightarrow> string \<times> string \<times> string" where
  "resource_path rest =
     (if length rest \<ge> 3 \<and> rest ! 0 = ''namespaces''
      then (rest ! 1, rest ! 2, if length rest \<ge> 4 then rest ! 3 else [])
      else ([], rest ! 0, if length rest \<ge> 2 then rest ! 1 else []))"

definition handleResource :: "'sel selectors \<Rightarrow> ('o, 'sel) aggregator \<Rightarrow> string \<Rightarrow> string \<Rightarrow> string \<Rightarrow> 'o console_answer" where
  "handleResource sl agg m path query =
     (if m \<noteq> ''GET'' then ConsoleError 405 ''method not allowed''
      else case split_all (CHR ''/'') (trim_right (CHR ''/'') (trim_prefix path ''/api/v1/clusters/'')) of
        cluster # r # rest \<Rightarrow>
          (case GetReader agg cluster of
             None \<Rightarrow> ConsoleError 404 (''unknown cluster: '' @ cluster)
           | Some reader \<Rightarrow>
               let (namespace, resource, name) = resource_path (r # rest) in
               if name \<noteq> [] then console_handleGet reader namespace resource name
               else console_handleList sl query reader namespace resource)
      | _ \<Rightarrow> ConsoleError 400 ''invalid path'')"

definition handleListClusters :: "('o, 'sel) aggregator \<Rightarrow> string \<Rightarrow> 'o console_answer" where
  "handleListClusters agg m =
     (if m \<noteq> ''GET'' then ConsoleError 405 ''method not allowed'' else ClusterList (ClusterIDs agg))"

text \<open>The multiplexer of the library answers a path with empty segments or dots with a redirection.\<close>

definition clean_path :: "string \<Rightarrow> bool" where
  "clean_path p =
     (case split_all (CHR ''/'') p of
        [] # s # segs \<Rightarrow> list_all (\<lambda>x. x \<noteq> []) (butlast (s # segs)) \<and> list_all (\<lambda>x. x \<noteq> ''.'' \<and> x \<noteq> ''..'') (s # segs)
      | _ \<Rightarrow> False)"

definition RegisterRoutes :: "'sel selectors \<Rightarrow> ('o, 'sel) aggregator \<Rightarrow> string \<Rightarrow> string \<Rightarrow> string \<Rightarrow> 'o console_answer" where
  "RegisterRoutes sl agg m escaped query =
     (if \<not> clean_path escaped then MovedPermanently
      else if escaped = ''/api/v1/clusters'' then handleListClusters agg m
      else if has_prefix escaped ''/api/v1/clusters/''
      then (case url_unescape False escaped of None \<Rightarrow> PlainText 400 ''400 Bad Request'' | Some path \<Rightarrow> handleResource sl agg m path query)
      else if escaped = ''/healthz'' then PlainText 200 ''ok''
      else PlainText 404 ''404 page not found'')"

definition console_AuthMiddleware :: "(string \<Rightarrow> string) \<Rightarrow> string \<Rightarrow> string \<Rightarrow> 'o console_answer \<Rightarrow> 'o console_answer" where
  "console_AuthMiddleware sha256 token auth next =
     (if token = [] then next
      else if auth = [] \<or> \<not> has_prefix auth ''Bearer '' then PlainText 401 ''Unauthorized''
      else if sha256 (trim_prefix auth ''Bearer '') \<noteq> sha256 token then PlainText 403 ''Forbidden''
      else next)"

definition console_SecurityHeaders :: "(string \<times> string) list" where
  "console_SecurityHeaders =
     [(''Content-Security-Policy'', (''default-src '' @ [CHR 0x27] @ ''self'' @ [CHR 0x27] @ ''; script-src '' @ [CHR 0x27] @
       ''self'' @ [CHR 0x27] @ ''; style-src '' @ [CHR 0x27] @ ''self'' @ [CHR 0x27] @ '' '' @
       [CHR 0x27] @ ''unsafe-inline'' @ [CHR 0x27])),
      (''X-Content-Type-Options'', ''nosniff''), (''X-Frame-Options'', ''DENY''),
      (''Referrer-Policy'', ''strict-origin-when-cross-origin''),
      (''Permissions-Policy'', ''camera=(), microphone=(), geolocation=()'')]"

text \<open>A request: the method, the header, the path with its query. Without a token the middleware is left out, which is the same.\<close>

definition console_serve :: "(string \<Rightarrow> string) \<Rightarrow> string \<Rightarrow> 'sel selectors \<Rightarrow> ('o, 'sel) aggregator \<Rightarrow> string \<Rightarrow> string \<Rightarrow> string \<Rightarrow> 'o console_answer" where
  "console_serve sha256 token sl agg m auth target =
     (let (path, query) = (case split2 (CHR ''?'') target of None \<Rightarrow> (target, []) | Some pq \<Rightarrow> pq)
      in console_AuthMiddleware sha256 token auth (RegisterRoutes sl agg m path query))"

text \<open>Why the process does not start.\<close>

record console_flags =
  xf_kubeconfigs :: string
  xf_authToken :: string
  xf_tlsCert :: string
  xf_tlsKey :: string
  xf_allowInsecure :: bool

definition console_refuses :: "string \<Rightarrow> console_flags \<Rightarrow> string option" where
  "console_refuses env_token flags =
     (let token = (if xf_authToken flags = [] then env_token else xf_authToken flags) in
      if token = [] \<and> \<not> xf_allowInsecure flags
      then Some (''Console backend requires authentication. '' @
        ''Set --auth-token, CONSOLE_AUTH_TOKEN, or use --allow-insecure for development.'')
      else if (xf_tlsCert flags = [] \<or> xf_tlsKey flags = []) \<and> \<not> xf_allowInsecure flags
      then Some ''Console backend requires TLS. Set --tls-cert and --tls-key, or use --allow-insecure for development.''
      else if xf_kubeconfigs flags = [] then Some ''--kubeconfigs is required''
      else case parseKubeconfigs (xf_kubeconfigs flags) of Inl e \<Rightarrow> Some e | Inr _ \<Rightarrow> None)"

section \<open>The data source\<close>

record console_source =
  dc_baseURL :: string
  dc_clusterID :: string
  dc_bearerToken :: string

text \<open>\<open>url.Parse\<close>: an error, or the scheme, the host and the host name.\<close>

type_synonym console_url_parser = "string \<Rightarrow> string + (string \<times> string \<times> string)"

definition ValidateConsoleURL :: "console_url_parser \<Rightarrow> string \<Rightarrow> string option" where
  "ValidateConsoleURL parse_url baseURL =
     (case parse_url baseURL of
        Inl e \<Rightarrow> Some (''invalid console URL: '' @ e)
      | Inr (scheme, host, _) \<Rightarrow>
          if scheme = [] \<or> host = [] then Some (''console URL must have scheme and host, got '' @ go_quote baseURL)
          else if scheme \<noteq> ''http'' \<and> scheme \<noteq> ''https'' then Some (''console URL scheme must be http or https, got '' @ go_quote scheme)
          else None)"

definition cluster_letter :: "char \<Rightarrow> bool" where
  "cluster_letter c \<longleftrightarrow> alnum c"

definition validClusterID :: "string \<Rightarrow> bool" where
  "validClusterID s \<longleftrightarrow>
     (case s of [] \<Rightarrow> False | c # cs \<Rightarrow> cluster_letter c \<and> list_all (\<lambda>x. cluster_letter x \<or> x \<in> set ''._-'') cs)"

definition ValidateClusterID :: "string \<Rightarrow> string option" where
  "ValidateClusterID clusterID =
     (if \<not> validClusterID clusterID then Some (''cluster ID must match ^[a-zA-Z0-9][a-zA-Z0-9._-]*$, got '' @ go_quote clusterID) else None)"

definition NewConsole :: "console_url_parser \<Rightarrow> string \<Rightarrow> string \<Rightarrow> string \<Rightarrow> string + console_source" where
  "NewConsole parse_url baseURL clusterID token =
     (case ValidateConsoleURL parse_url baseURL of
        Some e \<Rightarrow> Inl e
      | None \<Rightarrow>
          (case ValidateClusterID clusterID of
             Some e \<Rightarrow> Inl e
           | None \<Rightarrow> Inr \<lparr>dc_baseURL = trim_right (CHR ''/'') baseURL, dc_clusterID = clusterID, dc_bearerToken = token\<rparr>))"

definition ForCluster :: "string \<Rightarrow> console_source \<Rightarrow> string + console_source" where
  "ForCluster clusterID c = (case ValidateClusterID clusterID of Some e \<Rightarrow> Inl e | None \<Rightarrow> Inr (c\<lparr>dc_clusterID := clusterID\<rparr>))"

text \<open>What went wrong: an error that callers recognise as not found or forbidden, or any other.\<close>

datatype source_error = SourceNotFound string | SourceForbidden string string | SourceError string

text \<open>The kinds of an object, in order, or that the scheme does not know it; \<open>unmapped\<close> is the text of the other error.\<close>

type_synonym object_type = "string + (string \<times> string \<times> string) list"

definition resourceFor :: "string \<Rightarrow> object_type \<Rightarrow> source_error + string" where
  "resourceFor unmapped kinds =
     (case kinds of
        Inl e \<Rightarrow> Inl (SourceError (''consoledatasource: unknown type '' @ e))
      | Inr gvks \<Rightarrow>
          (case List.map_filter (map_of gvkToResource) gvks of
             [] \<Rightarrow> Inl (SourceError (''consoledatasource: no resource mapping for GVK '' @ unmapped))
           | r # _ \<Rightarrow> Inr r))"

definition in_cluster :: "console_source \<Rightarrow> string \<Rightarrow> string" where
  "in_cluster c rest = dc_baseURL c @ ''/api/v1/clusters/'' @ dc_clusterID c @ ''/'' @ rest"

definition buildGetURL :: "console_source \<Rightarrow> string \<Rightarrow> string \<Rightarrow> string \<Rightarrow> string" where
  "buildGetURL c resource namespace name =
     (if resource \<in> set clusterScopedResources \<or> namespace = []
      then in_cluster c (resource @ ''/'' @ PathEscape name)
      else in_cluster c (''namespaces/'' @ PathEscape namespace @ ''/'' @ resource @ ''/'' @ PathEscape name))"

text \<open>The query is written in the order of its keys.\<close>

definition list_query :: "'sel selectors \<Rightarrow> 'sel list_options \<Rightarrow> (string \<times> string) list" where
  "list_query sl opts =
     (case lp_FieldSelector opts of None \<Rightarrow> [] | Some f \<Rightarrow> [(''fieldSelector'', f)]) @
     (case lp_Selector opts of None \<Rightarrow> [] | Some s \<Rightarrow> [(''labelSelector'', sl_print sl s)]) @
     (if lp_Limit opts > 0 then [(''limit'', itoa (lp_Limit opts))] else [])"

definition buildListURL :: "'sel selectors \<Rightarrow> console_source \<Rightarrow> string \<Rightarrow> 'sel list_options \<Rightarrow> string" where
  "buildListURL sl c resource opts =
     (let base = (if resource \<in> set clusterScopedResources \<or> lp_Namespace opts = [] then in_cluster c resource
        else in_cluster c (''namespaces/'' @ PathEscape (lp_Namespace opts) @ ''/'' @ resource))
      in if list_query sl opts = [] then base else base @ ''?'' @ encode_values (list_query sl opts))"

text \<open>A reply: its status, what the decoders make of the body, and the body as text.\<close>

record 'o http_reply =
  hr_Status :: nat
  hr_Object :: "string + 'o k8s_object"
  hr_Clusters :: "string + string list"
  hr_Text :: string

text \<open>HTTP takes a URL and the header.\<close>

type_synonym 'o http_client = "string \<Rightarrow> string option \<Rightarrow> string + 'o http_reply"

definition doRequest :: "console_url_parser \<Rightarrow> 'o http_client \<Rightarrow> console_source \<Rightarrow> string \<Rightarrow> source_error + 'o http_reply" where
  "doRequest parse_url http c reqURL =
     (case parse_url reqURL of
        Inl e \<Rightarrow> Inl (SourceError (''consoledatasource: failed to create request: '' @ e))
      | Inr (scheme, _, hostname) \<Rightarrow>
          if dc_bearerToken c \<noteq> [] \<and> scheme \<noteq> ''https'' \<and> hostname \<notin> {''localhost'', ''127.0.0.1'', ''::1''}
          then Inl (SourceError (''refusing to send bearer token over insecure connection to '' @ hostname))
          else (case http reqURL (if dc_bearerToken c = [] then None else Some (''Bearer '' @ dc_bearerToken c)) of
             Inl e \<Rightarrow> Inl (SourceError (''consoledatasource: request failed: '' @ e))
           | Inr rep \<Rightarrow>
               if hr_Status rep = 200 then Inr rep
               else if hr_Status rep = 404 then Inl (SourceNotFound reqURL)
               else if hr_Status rep = 403 then Inl (SourceForbidden reqURL (take 4096 (hr_Text rep)))
               else Inl (SourceError (''consoledatasource: HTTP '' @ itoa (int (hr_Status rep)) @ '': '' @ take 4096 (hr_Text rep)))))"

definition decode_object :: "source_error + 'o http_reply \<Rightarrow> source_error + 'o k8s_object" where
  "decode_object r = (case r of Inl e \<Rightarrow> Inl e | Inr rep \<Rightarrow> map_sum SourceError id (hr_Object rep))"

definition console_Get :: "console_url_parser \<Rightarrow> 'o http_client \<Rightarrow> console_source \<Rightarrow> string \<Rightarrow> object_type \<Rightarrow>
    string \<Rightarrow> string \<Rightarrow> source_error + 'o k8s_object" where
  "console_Get parse_url http c unmapped kinds namespace name =
     (case resourceFor unmapped kinds of
        Inl e \<Rightarrow> Inl e
      | Inr resource \<Rightarrow> decode_object (doRequest parse_url http c (buildGetURL c resource namespace name)))"

definition console_List :: "console_url_parser \<Rightarrow> 'o http_client \<Rightarrow> 'sel selectors \<Rightarrow> console_source \<Rightarrow> string \<Rightarrow>
    object_type \<Rightarrow> 'sel list_options \<Rightarrow> source_error + 'o k8s_object" where
  "console_List parse_url http sl c unmapped kinds opts =
     (case resourceFor unmapped kinds of
        Inl e \<Rightarrow> Inl e
      | Inr resource \<Rightarrow> decode_object (doRequest parse_url http c (buildListURL sl c resource opts)))"

definition GetClusters :: "console_url_parser \<Rightarrow> 'o http_client \<Rightarrow> console_source \<Rightarrow> source_error + string list" where
  "GetClusters parse_url http c =
     (case doRequest parse_url http c (dc_baseURL c @ ''/api/v1/clusters'') of
        Inl e \<Rightarrow> Inl e
      | Inr rep \<Rightarrow> map_sum (\<lambda>e. SourceError (''consoledatasource: failed to decode clusters: '' @ e)) id (hr_Clusters rep))"

end
