(* ===== verification/Console_Path.thy ===== *)
theory Console_Path
  imports Console
begin

text \<open>
  The data source and the console together: a request for an object or a list reaches the cluster as it was made, and what
  the checkers see of the secrets of a cluster behind a console.
\<close>

section \<open>The link\<close>

text \<open>JSON as both sides use it: what the decoders make of an answer, and its text.\<close>

record 'o console_codec =
  jc_object :: "'o console_answer \<Rightarrow> string + 'o k8s_object"
  jc_clusters :: "'o console_answer \<Rightarrow> string + string list"
  jc_text :: "'o console_answer \<Rightarrow> string"

definition codec_ok :: "'o console_codec \<Rightarrow> bool" where
  "codec_ok codec \<longleftrightarrow> (\<forall>x. jc_object codec (Encoded x) = Inr x) \<and> (\<forall>ids. jc_clusters codec (ClusterList ids) = Inr ids)"

fun answer_status :: "'o console_answer \<Rightarrow> nat" where
  "answer_status (Encoded x) = 200"
| "answer_status (ClusterList ids) = 200"
| "answer_status (ConsoleError n e) = n"
| "answer_status (PlainText n e) = n"
| "answer_status MovedPermanently = 301"

definition reply_of :: "'o console_codec \<Rightarrow> 'o console_answer \<Rightarrow> 'o http_reply" where
  "reply_of codec a = \<lparr>hr_Status = answer_status a, hr_Object = jc_object codec a, hr_Clusters = jc_clusters codec a,
     hr_Text = jc_text codec a\<rparr>"

text \<open>HTTP when the console listens at \<open>base\<close>.\<close>

definition console_link :: "(string \<Rightarrow> string) \<Rightarrow> string \<Rightarrow> 'sel selectors \<Rightarrow> ('o, 'sel) aggregator \<Rightarrow> 'o console_codec \<Rightarrow> string \<Rightarrow>
    'o http_client" where
  "console_link sha256 token sl agg codec base url auth =
     (if has_prefix url base
      then Inr (reply_of codec (console_serve sha256 token sl agg ''GET'' (case auth of None \<Rightarrow> [] | Some a \<Rightarrow> a) (drop (length base) url)))
      else Inl ''connection refused'')"

text \<open>A URL that the data source is willing to send its token to.\<close>

definition sendable :: "console_url_parser \<Rightarrow> console_source \<Rightarrow> string \<Rightarrow> bool" where
  "sendable parse_url c url \<longleftrightarrow>
     (case parse_url url of
        Inl _ \<Rightarrow> False
      | Inr (scheme, _, hostname) \<Rightarrow> dc_bearerToken c = [] \<or> scheme = ''https'' \<or> hostname \<in> {''localhost'', ''127.0.0.1'', ''::1''})"

text \<open>What the data source reports for the answer of the cluster.\<close>

definition passed_on :: "'o console_codec \<Rightarrow> string \<Rightarrow> k8s_error + 'o k8s_object \<Rightarrow> source_error + 'o k8s_object" where
  "passed_on codec url r =
     (case r of
        Inr x \<Rightarrow> Inr (sanitizeSensitiveFields x)
      | Inl (IsNotFound e) \<Rightarrow> Inl (SourceNotFound url)
      | Inl (IsForbidden e) \<Rightarrow> Inl (SourceForbidden url (take 4096 (jc_text codec (ConsoleError 403 e))))
      | Inl (OtherError e) \<Rightarrow> Inl (SourceError
          (''consoledatasource: HTTP 500: '' @ take 4096 (jc_text codec (ConsoleError 500 ''internal server error'')))))"

section \<open>Segments of a path\<close>

definition plain_segment :: "string \<Rightarrow> bool" where
  "plain_segment s \<longleftrightarrow> s \<noteq> [] \<and> CHR ''/'' \<notin> set s \<and> s \<noteq> ''.'' \<and> s \<noteq> ''..''"

lemma PathEscape_Nil [simp]: "PathEscape s = [] \<longleftrightarrow> s = []"
  by (cases s) (auto simp: PathEscape_def percent_def)

lemma escaped_plain: "plain_segment s \<Longrightarrow> plain_segment (PathEscape s)"
  using PathEscape_inj [of s "''.''"] PathEscape_inj [of s "''..''"] path_free(1) by (auto simp: plain_segment_def)

lemma escape_id: "list_all path_safe s \<Longrightarrow> PathEscape s = s"
  by (induction s) (auto simp: PathEscape_def)

definition joined :: "string list \<Rightarrow> string" where
  "joined segs = str_join ''/'' segs"

lemma joined_simps [simp]: "joined [s] = s" "joined (s # t # segs) = s @ CHR ''/'' # joined (t # segs)"
  by (simp_all add: joined_def)

lemma unescape_joined: "segs \<noteq> [] \<Longrightarrow> url_unescape False (joined (map PathEscape segs)) = Some (joined segs)"
proof (induction segs rule: induct_list012)
  case (3 s t segs)
  then show ?case using unescape_path [of s "CHR ''/'' # joined (map PathEscape (t # segs))"] by simp
qed simp_all

lemma split_joined: "segs \<noteq> [] \<Longrightarrow> list_all plain_segment segs \<Longrightarrow> split_all (CHR ''/'') (joined segs) = segs"
  unfolding joined_def by (rule split_all_join) (auto simp: list_all_iff plain_segment_def)

lemma last_joined: "segs \<noteq> [] \<Longrightarrow> list_all plain_segment segs \<Longrightarrow> joined segs \<noteq> [] \<and> last (joined segs) \<noteq> CHR ''/''"
proof (induction segs rule: induct_list012)
  case (2 s)
  then show ?case using last_in_set [of s] by (metis joined_simps(1) list.pred_inject(2) plain_segment_def)
qed simp_all

lemma trim_right_id: "s \<noteq> [] \<Longrightarrow> last s \<noteq> c \<Longrightarrow> trim_right c s = s"
  by (cases s rule: rev_cases) (simp_all add: trim_right_def)

lemma has_prefix_append [simp]: "has_prefix (p @ s) p"
  by (simp add: has_prefix_iff)

definition api_path :: string where "api_path = ''/api/v1/clusters/''"

lemma split_api: "split_all (CHR ''/'') (api_path @ s) = [] # ''api'' # ''v1'' # ''clusters'' # split_all (CHR ''/'') s"
  by (simp add: api_path_def)

lemma plain_clean:
  "list_all plain_segment segs \<Longrightarrow> list_all (\<lambda>x. x \<noteq> []) (butlast segs) \<and> list_all (\<lambda>x. x \<noteq> ''.'' \<and> x \<noteq> ''..'') segs"
  by (auto simp: list_all_iff plain_segment_def dest: in_set_butlastD)

text \<open>A request with plain segments is handled by these segments.\<close>

lemma routed:
  assumes "list_all plain_segment (cluster # r # rest)"
  shows "RegisterRoutes sl agg ''GET'' (api_path @ joined (map PathEscape (cluster # r # rest))) query =
    (case GetReader agg cluster of
       None \<Rightarrow> ConsoleError 404 (''unknown cluster: '' @ cluster)
     | Some reader \<Rightarrow>
         let (namespace, resource, name) = resource_path (r # rest) in
         if name \<noteq> [] then console_handleGet reader namespace resource name
         else console_handleList sl query reader namespace resource)"
proof -
  let ?segs = "cluster # r # rest"
  let ?p = "joined (map PathEscape ?segs)"
  have esc: "list_all plain_segment (map PathEscape ?segs)" using assms escaped_plain by (auto simp: list_all_iff)
  have "list_all plain_segment (''api'' # ''v1'' # ''clusters'' # map PathEscape ?segs)"
    using esc by (simp add: plain_segment_def)
  note clean = plain_clean [OF this]
  have "split_all (CHR ''/'') ?p = map PathEscape ?segs" by (rule split_joined) (use esc in simp_all)
  then have "clean_path (api_path @ ?p)" using clean by (simp add: clean_path_def split_api)
  moreover have "has_prefix (api_path @ ?p) ''/api/v1/clusters/''" "api_path @ ?p \<noteq> ''/api/v1/clusters''"
    by (simp_all add: api_path_def)
  moreover have "url_unescape False (api_path @ ?p) = Some (api_path @ joined ?segs)"
    using unescape_plain [of api_path ?p] unescape_joined [of ?segs] by (simp add: api_path_def)
  moreover have "split_all (CHR ''/'') (trim_right (CHR ''/'') (trim_prefix (api_path @ joined ?segs) ''/api/v1/clusters/'')) = ?segs"
    using split_joined [OF _ assms] last_joined [OF _ assms] trim_right_id [of "joined ?segs"] by (simp add: trim_prefix_def api_path_def)
  ultimately show ?thesis by (simp add: RegisterRoutes_def handleResource_def)
qed

section \<open>Tables\<close>

text \<open>Both sides know the same kinds under the same names; the names need no escape.\<close>

lemma tables_agree:
  "\<forall>((g, v, k), r) \<in> set gvkToResource. plain_segment r \<and> list_all path_safe r \<and> map_of gvkToResource (g, v, k) = Some r \<and>
     (newObjectForResource r = Inr k \<and> map_of gvkToResource (g, v, k @ ''List'') = Some r \<and> newListForResource r = Inr (k @ ''List'') \<or>
      newListForResource r = Inr k)"
  by code_simp

lemma cluster_id_plain:
  assumes "validClusterID s"
  shows "plain_segment s" "list_all path_safe s"
proof -
  have neg: "\<not> cluster_letter (CHR ''/'')" "\<not> cluster_letter (CHR ''.'')" by code_simp+
  obtain c cs where s: "s = c # cs" "cluster_letter c" "list_all (\<lambda>x. cluster_letter x \<or> x \<in> set ''._-'') cs"
    using assms by (auto simp: validClusterID_def split: list.splits)
  then show "plain_segment s" using neg by (auto simp: plain_segment_def list_all_iff)
  show "list_all path_safe s"
    using s by (auto simp: list_all_iff path_safe_def url_letter_def cluster_letter_def)
qed

section \<open>One request\<close>

lemma link_answer:
  assumes "http = console_link sha256 (dc_bearerToken c) sl agg codec (dc_baseURL c)"
    and "sendable parse_url c (dc_baseURL c @ target)"
    and "(case split2 (CHR ''?'') target of None \<Rightarrow> (target, []) | Some pq \<Rightarrow> pq) = (path, query)"
  shows "decode_object (doRequest parse_url http c (dc_baseURL c @ target)) =
    (let rep = reply_of codec (RegisterRoutes sl agg ''GET'' path query); url = dc_baseURL c @ target in
     if hr_Status rep = 200 then map_sum SourceError id (hr_Object rep)
     else if hr_Status rep = 404 then Inl (SourceNotFound url)
     else if hr_Status rep = 403 then Inl (SourceForbidden url (take 4096 (hr_Text rep)))
     else Inl (SourceError (''consoledatasource: HTTP '' @ itoa (int (hr_Status rep)) @ '': '' @ take 4096 (hr_Text rep))))"
proof -
  obtain scheme host hostname where u: "parse_url (dc_baseURL c @ target) = Inr (scheme, host, hostname)"
      "dc_bearerToken c = [] \<or> scheme = ''https'' \<or> hostname \<in> {''localhost'', ''127.0.0.1'', ''::1''}"
    using assms(2) by (auto simp: sendable_def split: sum.splits prod.splits)
  have auth: "console_AuthMiddleware sha256 (dc_bearerToken c)
      (case if dc_bearerToken c = [] then None else Some (''Bearer '' @ dc_bearerToken c) of None \<Rightarrow> [] | Some a \<Rightarrow> a) a = a" for a :: "'a console_answer"
    by (simp add: console_AuthMiddleware_def trim_prefix_def)
  have here: "drop (length (dc_baseURL c)) (dc_baseURL c @ target) = target" by simp
  have serve: "console_serve sha256 (dc_bearerToken c) sl agg ''GET'' a target =
      console_AuthMiddleware sha256 (dc_bearerToken c) a (RegisterRoutes sl agg ''GET'' path query)" for a
    unfolding console_serve_def assms(3) Let_def by simp
  have "http (dc_baseURL c @ target) (if dc_bearerToken c = [] then None else Some (''Bearer '' @ dc_bearerToken c)) =
      Inr (reply_of codec (RegisterRoutes sl agg ''GET'' path query))"
    by (simp only: assms(1) console_link_def has_prefix_append if_True here serve auth)
  then show ?thesis using u unfolding doRequest_def decode_object_def Let_def by auto
qed

lemma passed_on_write:
  assumes "codec_ok codec"
  shows "(let rep = reply_of codec (write_result r) in
     if hr_Status rep = 200 then map_sum SourceError id (hr_Object rep)
     else if hr_Status rep = 404 then Inl (SourceNotFound url)
     else if hr_Status rep = 403 then Inl (SourceForbidden url (take 4096 (hr_Text rep)))
     else Inl (SourceError (''consoledatasource: HTTP '' @ itoa (int (hr_Status rep)) @ '': '' @ take 4096 (hr_Text rep)))) =
    passed_on codec url r"
proof -
  have "itoa 500 = ''500''" by (rule itoa_values)
  then show ?thesis using assms
    by (auto simp: write_result_def reply_of_def passed_on_def codec_ok_def split: sum.splits k8s_error.splits)
qed

lemma link_result:
  assumes "http = console_link sha256 (dc_bearerToken c) sl agg codec (dc_baseURL c)" "codec_ok codec"
    and "sendable parse_url c (dc_baseURL c @ target)"
    and "(case split2 (CHR ''?'') target of None \<Rightarrow> (target, []) | Some pq \<Rightarrow> pq) = (path, query)"
    and "RegisterRoutes sl agg ''GET'' path query = write_result r"
  shows "decode_object (doRequest parse_url http c (dc_baseURL c @ target)) = passed_on codec (dc_baseURL c @ target) r"
  using link_answer [OF assms(1,3,4)] passed_on_write [OF assms(2), of r "dc_baseURL c @ target"] by (simp only: assms(5) Let_def)

text \<open>What a list request hands to the cluster: the field selector is lost.\<close>

definition passed_options :: "string \<Rightarrow> 'sel list_options \<Rightarrow> 'sel list_options" where
  "passed_options resource opts =
     \<lparr>lp_Namespace = (if resource \<in> set clusterScopedResources then [] else lp_Namespace opts), lp_Selector = lp_Selector opts,
      lp_FieldSelector = None, lp_Limit = (if lp_Limit opts > 0 then lp_Limit opts else 0)\<rparr>"

definition options_ok :: "'sel selectors \<Rightarrow> 'sel list_options \<Rightarrow> bool" where
  "options_ok sl opts \<longleftrightarrow> (lp_Namespace opts = [] \<or> plain_segment (lp_Namespace opts)) \<and> lp_Limit opts < 2 ^ 63 \<and>
     pred_option (\<lambda>s. sl_print sl s \<noteq> [] \<and> sl_parse sl (sl_print sl s) = Inr s) (lp_Selector opts)"

lemma query_get_encoded: "query_get (if kvs = [] then [] else encode_values kvs) key = (case map_of kvs key of None \<Rightarrow> [] | Some v \<Rightarrow> v)"
  using query_values_roundtrip [of kvs]
  by (simp add: query_get_def parse_query_def query_pair_def List.map_filter_simps)

lemma options_roundtrip:
  assumes "options_ok sl opts"
  shows "buildListOptions sl (if list_query sl opts = [] then [] else encode_values (list_query sl opts)) ns =
    Inr \<lparr>lp_Namespace = ns, lp_Selector = lp_Selector opts, lp_FieldSelector = None,
      lp_Limit = (if lp_Limit opts > 0 then lp_Limit opts else 0)\<rparr>"
proof -
  have "query_get (if list_query sl opts = [] then [] else encode_values (list_query sl opts)) ''limit'' =
      (if lp_Limit opts > 0 then itoa (lp_Limit opts) else [])"
    unfolding query_get_encoded by (auto simp: list_query_def split: option.splits)
  moreover have "query_get (if list_query sl opts = [] then [] else encode_values (list_query sl opts)) ''labelSelector'' =
      (case lp_Selector opts of None \<Rightarrow> [] | Some s \<Rightarrow> sl_print sl s)"
    unfolding query_get_encoded by (auto simp: list_query_def split: option.splits)
  moreover have "parse_limit (if lp_Limit opts > 0 then itoa (lp_Limit opts) else []) = (if lp_Limit opts > 0 then lp_Limit opts else 0)"
    using assms atoi_itoa [of "lp_Limit opts"] by (auto simp: parse_limit_def options_ok_def go_atoi_def)
  ultimately show ?thesis using assms by (auto simp: buildListOptions_def options_ok_def Let_def split: option.splits)
qed

section \<open>The way through\<close>

lemma joined_free: "CHR ''?'' \<notin> set (joined (map PathEscape segs))"
  using path_free(2) by (induction segs rule: induct_list012) (auto simp: joined_def)

lemma target_query:
  "split2 (CHR ''?'') (api_path @ joined (map PathEscape segs)) = None"
  "split2 (CHR ''?'') (api_path @ joined (map PathEscape segs) @ CHR ''?'' # q) = Some (api_path @ joined (map PathEscape segs), q)"
  using joined_free by (auto simp: split2_None split2_Some api_path_def)

definition get_segments :: "console_source \<Rightarrow> string \<Rightarrow> string \<Rightarrow> string \<Rightarrow> string list" where
  "get_segments c resource namespace name =
     dc_clusterID c # (if resource \<in> set clusterScopedResources \<or> namespace = [] then [resource] else [''namespaces'', namespace, resource]) @
     (if name = [] then [] else [name])"

lemma get_segments_path:
  assumes "validClusterID (dc_clusterID c)" "plain_segment resource" "list_all path_safe resource" "name = [] \<or> plain_segment name"
    "namespace = [] \<or> plain_segment namespace"
  shows "list_all plain_segment (get_segments c resource namespace name)"
    and "name \<noteq> [] \<Longrightarrow> buildGetURL c resource namespace name = dc_baseURL c @ api_path @ joined (map PathEscape (get_segments c resource namespace name))"
    and "buildListURL sl c resource opts = dc_baseURL c @ api_path @
      joined (map PathEscape (get_segments c resource (lp_Namespace opts) [])) @
      (if list_query sl opts = [] then [] else CHR ''?'' # encode_values (list_query sl opts))"
    and "resource_path (tl (get_segments c resource namespace name)) =
      (if resource \<in> set clusterScopedResources then [] else namespace, resource, name)"
proof -
  have e: "PathEscape (dc_clusterID c) = dc_clusterID c" "PathEscape resource = resource" "PathEscape ''namespaces'' = ''namespaces''"
    using cluster_id_plain(2) [OF assms(1)] assms(3) by (simp_all add: escape_id path_safe_def url_letter_def alnum_def lower_letter_def upper_letter_def digit_char_def)
  show "list_all plain_segment (get_segments c resource namespace name)"
    using assms cluster_id_plain(1) [OF assms(1)] by (auto simp: get_segments_def plain_segment_def)
  show "name \<noteq> [] \<Longrightarrow> buildGetURL c resource namespace name = dc_baseURL c @ api_path @ joined (map PathEscape (get_segments c resource namespace name))"
    using e by (simp add: get_segments_def buildGetURL_def in_cluster_def api_path_def)
  show "buildListURL sl c resource opts = dc_baseURL c @ api_path @
      joined (map PathEscape (get_segments c resource (lp_Namespace opts) [])) @
      (if list_query sl opts = [] then [] else CHR ''?'' # encode_values (list_query sl opts))"
    using e by (simp add: get_segments_def buildListURL_def in_cluster_def api_path_def)
  show "resource_path (tl (get_segments c resource namespace name)) =
      (if resource \<in> set clusterScopedResources then [] else namespace, resource, name)"
    by (auto simp: get_segments_def resource_path_def clusterScopedResources_def)
qed

lemma get_segments_shape: "\<exists>r rest. get_segments c resource namespace name = dc_clusterID c # r # rest"
  by (simp add: get_segments_def)

lemma resource_facts:
  assumes "map_of gvkToResource (g, v, kind) = Some resource" "newObjectForResource resource = Inr kind"
  shows "plain_segment resource" "list_all path_safe resource" "newListForResource resource = Inr (kind @ ''List'')"
    and "resourceFor unmapped (Inr [(g, v, kind)]) = Inr resource" "resourceFor unmapped (Inr [(g, v, kind @ ''List'')]) = Inr resource"
proof -
  have "((g, v, kind), resource) \<in> set gvkToResource" using assms(1) by (rule map_of_SomeD)
  then have t: "plain_segment resource" "list_all path_safe resource"
      "newObjectForResource resource = Inr kind \<and> map_of gvkToResource (g, v, kind @ ''List'') = Some resource \<and>
         newListForResource resource = Inr (kind @ ''List'') \<or> newListForResource resource = Inr kind"
    using tables_agree by blast+
  then show "plain_segment resource" "list_all path_safe resource" by blast+
  have l: "newListForResource resource = Inr (kind @ ''List'')"
    using assms(2) by (auto simp: newObjectForResource_def newListForResource_def split: option.splits)
  then show "newListForResource resource = Inr (kind @ ''List'')" .
  have "newListForResource resource \<noteq> Inr kind" using l by simp
  then have "map_of gvkToResource (g, v, kind @ ''List'') = Some resource" using t(3) by blast
  then show "resourceFor unmapped (Inr [(g, v, kind)]) = Inr resource" "resourceFor unmapped (Inr [(g, v, kind @ ''List'')]) = Inr resource"
    using assms(1) by (simp_all add: resourceFor_def List.map_filter_simps)
qed

lemma get_passed:
  assumes "map_of gvkToResource (g, v, kind) = Some resource" "newObjectForResource resource = Inr kind"
    and "GetReader agg (dc_clusterID c) = Some reader" "validClusterID (dc_clusterID c)" "codec_ok codec"
    and "http = console_link sha256 (dc_bearerToken c) sl agg codec (dc_baseURL c)"
    and "plain_segment name" "namespace = [] \<or> plain_segment namespace" "sendable parse_url c (buildGetURL c resource namespace name)"
  shows "console_Get parse_url http c unmapped (Inr [(g, v, kind)]) namespace name =
      passed_on codec (buildGetURL c resource namespace name)
        (rd_Get reader kind (if resource \<in> set clusterScopedResources then [] else namespace) name)"
proof -
  note res = resource_facts [OF assms(1,2)]
  have name: "name \<noteq> []" using assms(7) by (simp add: plain_segment_def)
  note get = get_segments_path [OF assms(4) res(1,2) disjI2 [OF assms(7)] assms(8)]
  obtain r rest where gs: "get_segments c resource namespace name = dc_clusterID c # r # rest" using get_segments_shape by blast
  have "RegisterRoutes sl agg ''GET'' (api_path @ joined (map PathEscape (get_segments c resource namespace name))) [] =
      write_result (rd_Get reader kind (if resource \<in> set clusterScopedResources then [] else namespace) name)"
    using routed [OF get(1) [unfolded gs], of sl agg "[]"] get(4) assms(2,3) name by (simp add: gs console_handleGet_def)
  from link_result [OF assms(6,5) _ _ this] show ?thesis
    using assms(9) by (simp only: console_Get_def res(4) sum.case get(2) [OF name] target_query(1) option.case)
qed

lemma list_passed:
  assumes "map_of gvkToResource (g, v, kind) = Some resource" "newObjectForResource resource = Inr kind"
    and "GetReader agg (dc_clusterID c) = Some reader" "validClusterID (dc_clusterID c)" "codec_ok codec"
    and "http = console_link sha256 (dc_bearerToken c) sl agg codec (dc_baseURL c)"
    and "options_ok sl opts" "sendable parse_url c (buildListURL sl c resource opts)"
  shows "console_List parse_url http sl c unmapped (Inr [(g, v, kind @ ''List'')]) opts =
      passed_on codec (buildListURL sl c resource opts) (rd_List reader (kind @ ''List'') (passed_options resource opts))"
proof -
  note res = resource_facts [OF assms(1,2)]
  have ns: "lp_Namespace opts = [] \<or> plain_segment (lp_Namespace opts)" using assms(7) by (simp add: options_ok_def)
  note lst = get_segments_path [OF assms(4) res(1,2) disjI1 [OF refl] ns]
  obtain r rest where ls: "get_segments c resource (lp_Namespace opts) [] = dc_clusterID c # r # rest" using get_segments_shape by blast
  let ?q = "if list_query sl opts = [] then [] else encode_values (list_query sl opts)"
  let ?t = "api_path @ joined (map PathEscape (get_segments c resource (lp_Namespace opts) [])) @
    (if list_query sl opts = [] then [] else CHR ''?'' # encode_values (list_query sl opts))"
  have lr: "RegisterRoutes sl agg ''GET'' (api_path @ joined (map PathEscape (get_segments c resource (lp_Namespace opts) []))) ?q =
      write_result (rd_List reader (kind @ ''List'') (passed_options resource opts))"
    using routed [OF lst(1) [unfolded ls], of sl agg ?q] lst(4) assms(3) res(3) options_roundtrip [OF assms(7)]
    by (simp add: ls console_handleList_def passed_options_def)
  have "(case split2 (CHR ''?'') ?t of None \<Rightarrow> (?t, []) | Some pq \<Rightarrow> pq) =
      (api_path @ joined (map PathEscape (get_segments c resource (lp_Namespace opts) [])), ?q)"
    by (simp add: target_query)
  from link_result [OF assms(6,5) _ this lr] show ?thesis
    using assms(8) by (simp only: console_List_def res(5) sum.case lst(3))
qed

text \<open>C9. Through a console the data source does what a client of the cluster would do: with the cluster registered there and
  the token right, an object is fetched by its kind, namespace and name and a list by its kind, namespace, selector and
  limit, whatever characters they need escaped, and errors keep their meaning. Two things are lost on the way: the field
  selector, and the data of secrets.\<close>

theorem console_transparent:
  assumes "map_of gvkToResource (g, v, kind) = Some resource" "newObjectForResource resource = Inr kind"
    and "GetReader agg (dc_clusterID c) = Some reader" "validClusterID (dc_clusterID c)" "codec_ok codec"
    and "http = console_link sha256 (dc_bearerToken c) sl agg codec (dc_baseURL c)"
    and "plain_segment name" "namespace = [] \<or> plain_segment namespace" "options_ok sl opts"
    and "sendable parse_url c (buildGetURL c resource namespace name)" "sendable parse_url c (buildListURL sl c resource opts)"
  shows "console_Get parse_url http c unmapped (Inr [(g, v, kind)]) namespace name =
      passed_on codec (buildGetURL c resource namespace name)
        (rd_Get reader kind (if resource \<in> set clusterScopedResources then [] else namespace) name) \<and>
    console_List parse_url http sl c unmapped (Inr [(g, v, kind @ ''List'')]) opts =
      passed_on codec (buildListURL sl c resource opts) (rd_List reader (kind @ ''List'') (passed_options resource opts))"
  using get_passed [OF assms(1-8,10)] list_passed [OF assms(1-6,9,11)] by simp

section \<open>Secrets behind a console\<close>

fun error_text :: "source_error \<Rightarrow> string" where
  "error_text (SourceNotFound url) = url"
| "error_text (SourceForbidden url e) = e"
| "error_text (SourceError e) = e"

definition in_namespace :: "string \<Rightarrow> 'sel list_options" where
  "in_namespace ns = \<lparr>lp_Namespace = ns, lp_Selector = None, lp_FieldSelector = None, lp_Limit = 0\<rparr>"

lemma passed_in_namespace [simp]: "passed_options ''secrets'' (in_namespace ns) = in_namespace ns"
  by (simp add: in_namespace_def passed_options_def clusterScopedResources_def)

text \<open>The secret checker with the console as its data source.\<close>

definition console_secrets :: "console_url_parser \<Rightarrow> 'o http_client \<Rightarrow> 'sel selectors \<Rightarrow> console_source \<Rightarrow> string list \<Rightarrow> Secret ns_source" where
  "console_secrets parse_url http sl c nss =
     \<lparr>src_list = (\<lambda>ns. case console_List parse_url http sl c [] (Inr [([], ''v1'', ''Secret'' @ ''List'')]) (in_namespace ns) of
        Inl e \<Rightarrow> Inl (error_text e) | Inr (SecretListObject ss) \<Rightarrow> Inr ss | Inr _ \<Rightarrow> Inr []),
      src_namespaces = nss\<rparr>"

lemma sanitized_check:
  "checkSecretWith lib now days expiry (sanitizeSecret s) =
     (if sec_Type s \<noteq> ''kubernetes.io/service-account-token'' then [empty_secret_issue s] else [])"
  by (simp add: checkSecretWith_def checkTLSCertificateWith_def sanitizeSecret_def empty_secret_issue_def secret_issue_def)

lemma sanitized_issues:
  "concat (map (checkSecretWith lib now days expiry) (map sanitizeSecret ss)) =
     map empty_secret_issue (filter (\<lambda>s. sec_Type s \<noteq> ''kubernetes.io/service-account-token'') ss)"
  by (induction ss) (simp_all add: sanitized_check)

text \<open>C10. Behind a console the secret checker sees every secret without its data: each one that is no service account token is
  reported as empty, however full it is, and no certificate is ever looked at, so none is reported as expired or as about
  to expire.\<close>

theorem console_secrets_look_empty:
  assumes "GetReader agg (dc_clusterID c) = Some reader" "validClusterID (dc_clusterID c)" "codec_ok codec"
    and "http = console_link sha256 (dc_bearerToken c) sl agg codec (dc_baseURL c)"
    and "list_all (\<lambda>ns. plain_segment ns \<and> sendable parse_url c (buildListURL sl c ''secrets'' (in_namespace ns)) \<and>
      rd_List reader ''SecretList'' (in_namespace ns) = Inr (SecretListObject (secrets ns))) nss"
  shows "cr_Issues (secret_Check lib now ck cfg (console_secrets parse_url http sl c nss)) =
    map empty_secret_issue (filter (\<lambda>s. sec_Type s \<noteq> ''kubernetes.io/service-account-token'') (concat (map secrets nss)))"
proof -
  have t: "map_of gvkToResource ([], ''v1'', ''Secret'') = Some ''secrets''" "newObjectForResource ''secrets'' = Inr ''Secret''"
    by code_simp+
  have "src_list (console_secrets parse_url http sl c nss) ns = Inr (map sanitizeSecret (secrets ns))" if "ns \<in> set nss" for ns
  proof -
    have ns: "plain_segment ns" "sendable parse_url c (buildListURL sl c ''secrets'' (in_namespace ns))"
        "rd_List reader ''SecretList'' (in_namespace ns) = Inr (SecretListObject (secrets ns))"
      using assms(5) that by (auto simp: list_all_iff)
    have "options_ok sl (in_namespace ns)" using ns(1) by (simp add: options_ok_def in_namespace_def)
    then have "console_List parse_url http sl c [] (Inr [([], ''v1'', ''Secret'' @ ''List'')]) (in_namespace ns) =
        Inr (SecretListObject (map sanitizeSecret (secrets ns)))"
      using list_passed [OF t assms(1-4) _ ns(2)] ns(3) by (simp add: passed_on_def)
    then show ?thesis by (simp add: console_secrets_def)
  qed
  then have "listed (console_secrets parse_url http sl c nss) = map sanitizeSecret (concat (map secrets nss))"
    unfolding listed_def map_concat by (intro arg_cong [of _ _ concat]) (simp add: console_secrets_def)
  then show ?thesis
    using sanitized_issues [where ss = "concat (map secrets nss)"]
    by (simp add: secret_Check_def check_namespaces_tally no_result_def split: prod.splits)
qed

section \<open>A cluster behind a console\<close>

definition ex_secret :: "string \<Rightarrow> Secret" where
  "ex_secret ns = \<lparr>sec_Name = ''tls'', sec_Namespace = ns, sec_Type = ''kubernetes.io/tls'', sec_Data = [(''tls.crt'', ''PEM'')],
     sec_StringData = []\<rparr>"

definition ex_reader :: "(nat, string) cluster_reader" where
  "ex_reader = \<lparr>rd_Get = (\<lambda>kind ns name. if name = ''web 1'' then Inr (OtherObject 1) else Inl (IsNotFound ''no such object'')),
     rd_List = (\<lambda>kind opts. if kind = ''SecretList'' then Inr (SecretListObject [ex_secret (lp_Namespace opts)]) else Inl (IsForbidden ''no''))\<rparr>"

definition ex_console_source :: console_source where
  "ex_console_source = \<lparr>dc_baseURL = ''https://console'', dc_clusterID = ''prod-1'', dc_bearerToken = ''secret''\<rparr>"

definition ex_selectors :: "string selectors" where
  "ex_selectors = \<lparr>sl_parse = Inr, sl_print = (\<lambda>s. s)\<rparr>"

definition ex_codec :: "nat console_codec" where
  "ex_codec = \<lparr>jc_object = (\<lambda>a. case a of Encoded x \<Rightarrow> Inr x | _ \<Rightarrow> Inl ''not an object''),
     jc_clusters = (\<lambda>a. case a of ClusterList ids \<Rightarrow> Inr ids | _ \<Rightarrow> Inl ''no clusters''), jc_text = (\<lambda>_. ''{}'')\<rparr>"

definition ex_parse_url :: console_url_parser where
  "ex_parse_url url = Inr (''https'', ''console'', ''console'')"

definition ex_link :: "nat http_client" where
  "ex_link = console_link (\<lambda>s. s) ''secret'' ex_selectors [(''prod-1'', ex_reader)] ex_codec ''https://console''"

lemma ex_console_parts:
  "GetReader [(''prod-1'', ex_reader)] (dc_clusterID ex_console_source) = Some ex_reader" "validClusterID (dc_clusterID ex_console_source)"
  "codec_ok ex_codec" "sendable ex_parse_url ex_console_source url"
  "ex_link = console_link (\<lambda>s. s) (dc_bearerToken ex_console_source) ex_selectors [(''prod-1'', ex_reader)] ex_codec (dc_baseURL ex_console_source)"
proof -
  show "validClusterID (dc_clusterID ex_console_source)" by code_simp
qed (simp_all add: GetReader_def ex_console_source_def codec_ok_def ex_codec_def sendable_def ex_parse_url_def ex_link_def)

definition ex_options :: "string list_options" where
  "ex_options = \<lparr>lp_Namespace = ''shop'', lp_Selector = Some ''app in (web, api)'', lp_FieldSelector = Some ''metadata.name=web'', lp_Limit = 1\<rparr>"

lemma console_transparent_witness:
  "console_Get ex_parse_url ex_link ex_console_source [] (Inr [([], ''v1'', ''Pod'')]) ''shop'' ''web 1'' = Inr (OtherObject 1) \<and>
   buildGetURL ex_console_source ''pods'' ''shop'' ''web 1'' = ''https://console/api/v1/clusters/prod-1/namespaces/shop/pods/web%201'' \<and>
   (\<exists>url. console_List ex_parse_url ex_link ex_selectors ex_console_source [] (Inr [([], ''v1'', ''PodList'')]) ex_options =
      Inl (SourceForbidden url ''{}''))"
proof -
  have t: "map_of gvkToResource ([], ''v1'', ''Pod'') = Some ''pods''" "newObjectForResource ''pods'' = Inr ''Pod''"
    "plain_segment ''web 1''" "''shop'' = [] \<or> plain_segment ''shop''"
    "buildGetURL ex_console_source ''pods'' ''shop'' ''web 1'' = ''https://console/api/v1/clusters/prod-1/namespaces/shop/pods/web%201''"
    by code_simp+
  have o: "options_ok ex_selectors ex_options" by (simp add: options_ok_def ex_options_def ex_selectors_def plain_segment_def)
  note both = console_transparent [OF t(1,2) ex_console_parts(1-3,5) t(3,4) o ex_console_parts(4,4), of "[]"]
  show ?thesis using both t(5) by (simp add: passed_on_def ex_reader_def ex_codec_def clusterScopedResources_def)
qed

definition ex_tls :: tls_lib where
  "ex_tls = \<lparr>tl_pem_decode = Some, tl_parse_certificate = (\<lambda>_. Inl ''expired long ago'')\<rparr>"

lemma console_secrets_look_empty_witness:
  "cr_Issues (secret_Check ex_tls 0 NewSecretChecker None
     (console_secrets ex_parse_url ex_link ex_selectors ex_console_source [''shop'', ''infra''])) =
     map empty_secret_issue [ex_secret ''shop'', ex_secret ''infra'']"
proof -
  have "plain_segment ''shop''" "plain_segment ''infra''" by code_simp+
  then show ?thesis
    using console_secrets_look_empty [OF ex_console_parts(1-3,5), of ex_parse_url "\<lambda>ns. [ex_secret ns]" "[''shop'', ''infra'']"
        ex_tls 0 NewSecretChecker None]
    by (simp add: ex_console_parts(4) ex_reader_def in_namespace_def ex_secret_def)
qed

end
