(* ===== verification/Kubeassist_Cli.thy ===== *)
theory Kubeassist_Cli
  imports Troubleshoot_Controller "HOL-Library.Product_Lexorder"
begin

text \<open>
  The command line (\<open>cmd/kubeassist\<close>): \<open>main.go\<close> asks the controller to diagnose deployments and waits for the answers,
  \<open>health.go\<close> does so for one health check. The API server is a parameter; the flags are taken as parsed, and an output as the
  text that is printed, or as the value that is encoded as JSON.
\<close>

section \<open>Unstructured objects\<close>

datatype uval = UStr string | UInt int | UBool bool | UMap "(string \<times> uval) list" | UList "uval list" | UOther

type_synonym umap = "(string \<times> uval) list"

text \<open>\<open>NestedString\<close>, \<open>NestedInt64\<close>, \<open>NestedSlice\<close> and \<open>NestedMap\<close> of one key, as their callers use them: the zero value when
  the key is missing or of another type.\<close>

definition nested_string :: "umap \<Rightarrow> string \<Rightarrow> string" where
  "nested_string m key = (case map_of m key of Some (UStr s) \<Rightarrow> s | _ \<Rightarrow> [])"

definition nested_int :: "umap \<Rightarrow> string \<Rightarrow> int" where
  "nested_int m key = (case map_of m key of Some (UInt n) \<Rightarrow> n | _ \<Rightarrow> 0)"

definition nested_slice :: "umap \<Rightarrow> string \<Rightarrow> uval list" where
  "nested_slice m key = (case map_of m key of Some (UList xs) \<Rightarrow> xs | _ \<Rightarrow> [])"

definition nested_map :: "umap \<Rightarrow> string \<Rightarrow> umap option" where
  "nested_map m key = (case map_of m key of Some (UMap x) \<Rightarrow> Some x | _ \<Rightarrow> None)"

definition getString :: "umap \<Rightarrow> string \<Rightarrow> string" where
  "getString m key = (case map_of m key of Some (UStr s) \<Rightarrow> s | _ \<Rightarrow> [])"

section \<open>Waiting\<close>

text \<open>What a watch delivers: an error, an added or modified object, unless it is of another type, or something else. A watch that
  was closed delivers empty events.\<close>

datatype watch_event = WatchError | Changed "umap option" | OtherEvent

definition final_phase :: "umap \<Rightarrow> bool" where
  "final_phase status \<longleftrightarrow> nested_string status ''phase'' = ''Completed'' \<or> nested_string status ''phase'' = ''Failed''"

text \<open>The events that arrive before the context is done; then the wait times out.\<close>

fun wait_events :: "string \<Rightarrow> watch_event list \<Rightarrow> string + umap" where
  "wait_events timeout [] = Inl timeout"
| "wait_events timeout (WatchError # evs) = Inl ''watch error''"
| "wait_events timeout (OtherEvent # evs) = wait_events timeout evs"
| "wait_events timeout (Changed obj # evs) =
     (case Option.bind obj (\<lambda>m. nested_map m ''status'') of
        None \<Rightarrow> wait_events timeout evs
      | Some status \<Rightarrow> if final_phase status then Inr status else wait_events timeout evs)"

section \<open>Diagnosing a deployment\<close>

record diagResult =
  dg_namespace :: string
  dg_name :: string
  dg_phase :: string
  dg_summary :: string
  dg_issues :: "DiagnosticIssue list"
  dg_healthy :: bool
  dg_critical :: int
  dg_warnings :: int

definition error_result :: "string \<Rightarrow> string \<Rightarrow> string \<Rightarrow> diagResult" where
  "error_result namespace name e =
     \<lparr>dg_namespace = namespace, dg_name = name, dg_phase = ''Error'', dg_summary = e, dg_issues = [], dg_healthy = False,
      dg_critical = 0, dg_warnings = 0\<rparr>"

definition issue_of :: "umap \<Rightarrow> DiagnosticIssue" where
  "issue_of m = \<lparr>di_Type = getString m ''type'', di_Severity = getString m ''severity'', di_Message = getString m ''message'',
     di_Suggestion = getString m ''suggestion''\<rparr>"

definition maps_of :: "uval list \<Rightarrow> umap list" where
  "maps_of xs = List.map_filter (\<lambda>x. case x of UMap m \<Rightarrow> Some m | _ \<Rightarrow> None) xs"

definition cli_severity_count :: "string \<Rightarrow> DiagnosticIssue list \<Rightarrow> int" where
  "cli_severity_count sev issues = int (length (filter (\<lambda>i. di_Severity i = sev) issues))"

definition parse_diagnosis :: "string \<Rightarrow> string \<Rightarrow> umap \<Rightarrow> diagResult" where
  "parse_diagnosis namespace name status =
     (let issues = map issue_of (maps_of (nested_slice status ''issues''));
          critical = cli_severity_count ''Critical'' issues; warnings = cli_severity_count ''Warning'' issues
      in \<lparr>dg_namespace = namespace, dg_name = name, dg_phase = nested_string status ''phase'',
          dg_summary = nested_string status ''summary'', dg_issues = issues,
          dg_healthy = (issues = [] \<or> critical = 0 \<and> warnings = 0), dg_critical = critical, dg_warnings = warnings\<rparr>)"

record cli_options =
  kf_allNamespaces :: bool
  kf_labelSelector :: string
  kf_outputJSON :: bool
  kf_outputFormat :: string
  kf_cleanup :: bool
  kf_workerCount :: int

definition default_options :: cli_options where
  "default_options = \<lparr>kf_allNamespaces = True, kf_labelSelector = [], kf_outputJSON = False, kf_outputFormat = ''text'',
     kf_cleanup = True, kf_workerCount = 5\<rparr>"

text \<open>The API server and the clock: errors of the set-up, lists, the request that is created, the watch on it, and the order in
  which the workers deliver.\<close>

record cli_env =
  kx_kubeconfig :: "string option"
  kx_clientset :: "string option"
  kx_dynamic :: "string option"
  kx_current :: "string option"
  kx_namespace_list :: "string + string list"
  kx_deployment_list :: "string \<Rightarrow> string \<Rightarrow> string + string list"
  kx_nano :: "string \<Rightarrow> string \<Rightarrow> int"
  kx_create :: "string \<Rightarrow> string \<Rightarrow> string \<Rightarrow> string option"
  kx_watch :: "string \<Rightarrow> string \<Rightarrow> string + watch_event list"
  kx_arrival :: "diagResult list \<Rightarrow> diagResult list"

definition request_name :: "cli_env \<Rightarrow> string \<Rightarrow> string \<Rightarrow> string" where
  "request_name env namespace deploy = ''kubeassist-'' @ deploy @ ''-'' @ itoa (kx_nano env namespace deploy)"

definition waitForDiagnostic :: "cli_env \<Rightarrow> string \<Rightarrow> string \<Rightarrow> string \<Rightarrow> string + diagResult" where
  "waitForDiagnostic env namespace trName deploy =
     (case kx_watch env namespace trName of
        Inl e \<Rightarrow> Inl e
      | Inr evs \<Rightarrow> map_sum id (parse_diagnosis namespace deploy) (wait_events ''timeout waiting for diagnostic'' evs))"

text \<open>What a request does to the server besides watching; a deletion whose context is done is not sent.\<close>

datatype cli_call = Created string string string | Deleted string string

definition timed_out :: "string \<Rightarrow> (string + watch_event list) \<Rightarrow> bool" where
  "timed_out timeout w = (case w of Inl _ \<Rightarrow> False | Inr evs \<Rightarrow> wait_events timeout evs = Inl timeout)"

definition processDiagnostic :: "cli_env \<Rightarrow> bool \<Rightarrow> string \<times> string \<Rightarrow> diagResult \<times> cli_call list" where
  "processDiagnostic env doCleanup = (\<lambda>(namespace, deploy).
     let trName = request_name env namespace deploy in
     case kx_create env namespace trName deploy of
       Some e \<Rightarrow> (error_result namespace deploy (''failed to create diagnostic: '' @ e), [])
     | None \<Rightarrow>
         (case waitForDiagnostic env namespace trName deploy of Inl e \<Rightarrow> error_result namespace deploy e | Inr r \<Rightarrow> r,
          Created namespace trName deploy #
          (if doCleanup \<and> \<not> timed_out ''timeout waiting for diagnostic'' (kx_watch env namespace trName)
           then [Deleted namespace trName] else [])))"

section \<open>The run\<close>

definition system_namespaces :: "string list" where
  "system_namespaces = [''kube-system'', ''kube-public'', ''kube-node-lease'', ''flux-system'']"

datatype cli_command = HealthCommand "string list" | HelpCommand | VersionCommand | DiagnoseCommand "string list"

definition cli_command_of :: "string list \<Rightarrow> cli_command" where
  "cli_command_of args =
     (case args of
        [] \<Rightarrow> DiagnoseCommand []
      | a # rest \<Rightarrow>
          if a = ''health'' then HealthCommand rest
          else if a \<in> {''help'', ''-h'', ''--help''} then HelpCommand
          else if a \<in> {''version'', ''--version''} then VersionCommand
          else DiagnoseCommand args)"

definition output_format :: "cli_options \<Rightarrow> string" where
  "output_format o' = (if kf_outputJSON o' then ''json'' else kf_outputFormat o')"

text \<open>The namespace of the arguments that are left after the flags.\<close>

definition argument_namespace :: "cli_options \<Rightarrow> string list \<Rightarrow> string" where
  "argument_namespace o' args =
     (if kf_allNamespaces o' then [] else case args of [] \<Rightarrow> ''default'' | a # _ \<Rightarrow> a)"

definition chosen_namespace :: "cli_env \<Rightarrow> cli_options \<Rightarrow> string \<Rightarrow> string" where
  "chosen_namespace env o' namespace =
     (if namespace = [] \<and> \<not> kf_allNamespaces o'
      then (case kx_current env of Some ns \<Rightarrow> if ns \<noteq> [] then ns else ''default'' | None \<Rightarrow> ''default'')
      else namespace)"

definition run_namespaces :: "cli_env \<Rightarrow> cli_options \<Rightarrow> string \<Rightarrow> string + string list" where
  "run_namespaces env o' namespace =
     (if kf_allNamespaces o'
      then (case kx_namespace_list env of
          Inl e \<Rightarrow> Inl (''failed to list namespaces: '' @ e)
        | Inr nss \<Rightarrow> Inr (filter (\<lambda>ns. ns \<notin> set system_namespaces) nss))
      else Inr [chosen_namespace env o' namespace])"

text \<open>A namespace whose deployments cannot be listed is skipped, with a warning unless the output is JSON.\<close>

definition work_items :: "cli_env \<Rightarrow> cli_options \<Rightarrow> string list \<Rightarrow> (string \<times> string) list" where
  "work_items env o' nss =
     concat (map (\<lambda>ns. case kx_deployment_list env ns (kf_labelSelector o') of Inl e \<Rightarrow> [] | Inr ds \<Rightarrow> map (Pair ns) ds) nss)"

text \<open>The pool: without workers no item is processed; the results arrive in some order.\<close>

definition pool_results :: "cli_env \<Rightarrow> cli_options \<Rightarrow> (string \<times> string) list \<Rightarrow> diagResult list" where
  "pool_results env o' items =
     (if kf_workerCount o' \<le> 0 then [] else kx_arrival env (map (\<lambda>w. fst (processDiagnostic env (kf_cleanup o') w)) items))"

definition result_key :: "diagResult \<Rightarrow> bool \<times> int \<times> string \<times> string" where
  "result_key r = (dg_healthy r, - dg_critical r, dg_namespace r, dg_name r)"

definition diagnose :: "cli_env \<Rightarrow> cli_options \<Rightarrow> string \<Rightarrow> string + diagResult list" where
  "diagnose env o' namespace =
     (case kx_kubeconfig env of
        Some e \<Rightarrow> Inl (''failed to load kubeconfig: '' @ e)
      | None \<Rightarrow>
          (case kx_clientset env of
             Some e \<Rightarrow> Inl (''failed to create clientset: '' @ e)
           | None \<Rightarrow>
               (case kx_dynamic env of
                  Some e \<Rightarrow> Inl (''failed to create dynamic client: '' @ e)
                | None \<Rightarrow>
                    map_sum id (\<lambda>nss. sort_key result_key (pool_results env o' (work_items env o' nss))) (run_namespaces env o' namespace))))"

section \<open>The output\<close>

definition ansi :: "string \<Rightarrow> string" where "ansi code = [CHR 0x1B, CHR ''[''] @ code @ ''m''"
definition colorReset :: string where "colorReset = ansi ''0''"
definition colorRed :: string where "colorRed = ansi ''31''"
definition colorGreen :: string where "colorGreen = ansi ''32''"
definition colorYellow :: string where "colorYellow = ansi ''33''"
definition colorBlue :: string where "colorBlue = ansi ''34''"
definition colorCyan :: string where "colorCyan = ansi ''36''"
definition colorBold :: string where "colorBold = ansi ''1''"
definition colorDim :: string where "colorDim = ansi ''2''"

definition newline :: string where "newline = [CHR 0x0A]"
definition check_mark :: string where "check_mark = [CHR 0xE2, CHR 0x9C, CHR 0x93]"
definition cross_mark :: string where "cross_mark = [CHR 0xE2, CHR 0x9C, CHR 0x97]"
definition warning_mark :: string where "warning_mark = [CHR 0xE2, CHR 0x9A, CHR 0xA0]"
definition rule_line :: string where "rule_line = concat (replicate 64 [CHR 0xE2, CHR 0x94, CHR 0x80])"
definition box_line :: string where "box_line = concat (replicate 62 [CHR 0xE2, CHR 0x95, CHR 0x90])"

text \<open>The mark and the colour of a severity, and of a result.\<close>

definition severity_style :: "string \<Rightarrow> string \<times> string" where
  "severity_style sev =
     (if sev = ''Critical'' then (colorRed, [CHR 0xE2, CHR 0x97, CHR 0x8F]) else if sev = ''Warning'' then (colorYellow, [CHR 0xE2, CHR 0x97, CHR 0x8B]) else (colorBlue, [CHR 0xC2, CHR 0xB7]))"

definition result_style :: "bool \<Rightarrow> int \<Rightarrow> string \<times> string" where
  "result_style good critical =
     (if good then (colorGreen, check_mark) else if critical > 0 then (colorRed, cross_mark) else (colorYellow, warning_mark))"

definition printHeader :: "string \<Rightarrow> string" where
  "printHeader namespace =
     newline @ colorBold @ colorCyan @ [CHR 0xE2, CHR 0x95, CHR 0x94] @ box_line @ [CHR 0xE2, CHR 0x95, CHR 0x97] @ colorReset @ newline @
     colorBold @ colorCyan @ ([CHR 0xE2, CHR 0x95, CHR 0x91] @ ''              '' @
       [CHR 0xF0, CHR 0x9F, CHR 0x94, CHR 0x8D] @
       '' KubeAssist Workload Diagnostics              '' @ [CHR 0xE2, CHR 0x95, CHR 0x91]) @ colorReset @ newline @
     colorBold @ colorCyan @ [CHR 0xE2, CHR 0x95, CHR 0x9A] @ box_line @ [CHR 0xE2, CHR 0x95, CHR 0x9D] @ colorReset @ newline @
     (if namespace \<noteq> [] then colorDim @ ''Namespace: '' @ namespace @ colorReset @ newline
      else colorDim @ ''Scanning all namespaces...'' @ colorReset @ newline) @ newline"

definition suggestion_line :: "string \<Rightarrow> string" where
  "suggestion_line s = (if s = [] then [] else ''     '' @ colorDim @ ([CHR 0xE2, CHR 0x86, CHR 0x92] @ '' '') @ s @ colorReset @ newline)"

definition print_issue :: "DiagnosticIssue \<Rightarrow> string" where
  "print_issue i =
     (let (color, icon) = severity_style (di_Severity i) in
      ''   '' @ color @ icon @ '' ['' @ di_Severity i @ '']'' @ colorReset @ '' '' @ di_Message i @ newline @ suggestion_line (di_Suggestion i))"

definition print_result :: "diagResult \<Rightarrow> string" where
  "print_result r =
     (let (color, icon) = result_style (dg_healthy r) (dg_critical r) in
      color @ icon @ '' '' @ colorBold @ dg_namespace r @ ''/'' @ dg_name r @ colorReset @ newline @
      (if dg_healthy r then ''   '' @ colorGreen @ dg_summary r @ colorReset @ newline else concat (map print_issue (dg_issues r))) @ newline)"

definition printResults :: "diagResult list \<Rightarrow> string" where
  "printResults rs = concat (map print_result rs)"

definition printSummary :: "diagResult list \<Rightarrow> string" where
  "printSummary rs =
     (let healthy = itoa (int (length (filter dg_healthy rs))); unhealthy = length (filter (\<lambda>r. \<not> dg_healthy r) rs) in
      colorDim @ rule_line @ colorReset @ newline @ colorBold @ ''Summary:'' @ colorReset @ '' '' @
      (if unhealthy = 0 then colorGreen @ check_mark @ '' All '' @ healthy @ '' workloads healthy'' @ colorReset @ newline
       else colorGreen @ healthy @ '' healthy'' @ colorReset @ '', '' @
         colorRed @ itoa (int unhealthy) @ '' unhealthy'' @ colorReset @ '' '' @
         ''('' @ colorRed @ itoa (sum_list (map dg_critical rs)) @ '' critical'' @ colorReset @ '', '' @
         colorYellow @ itoa (sum_list (map dg_warnings rs)) @ '' warnings'' @ colorReset @ '')'' @ newline) @ newline)"

text \<open>The value that \<open>printJSONResults\<close> encodes has the fields of the results. The text has the header first; of a run that fails
  only the error is kept.\<close>

datatype cli_output = JSONOutput "diagResult list" | TextOutput string

definition cli_run :: "cli_env \<Rightarrow> cli_options \<Rightarrow> string list \<Rightarrow> string + cli_output" where
  "cli_run env o' args =
     (let namespace = argument_namespace o' args in
      map_sum id (\<lambda>rs. if output_format o' = ''json'' then JSONOutput rs
        else TextOutput (printHeader (chosen_namespace env o' namespace) @ printResults rs @ printSummary rs))
        (diagnose env o' namespace))"

section \<open>A diagnosis that failed\<close>

text \<open>The status as the API server stores it, with the fields that are read here; empty ones are left out.\<close>

definition phase_text :: "phase \<Rightarrow> string" where
  "phase_text p = (case p of PhaseNone \<Rightarrow> [] | PhasePending \<Rightarrow> ''Pending'' | PhaseRunning \<Rightarrow> ''Running''
     | PhaseCompleted \<Rightarrow> ''Completed'' | PhaseFailed \<Rightarrow> ''Failed'')"

definition stored_issue :: "DiagnosticIssue \<Rightarrow> uval" where
  "stored_issue i = UMap [(''type'', UStr (di_Type i)), (''severity'', UStr (di_Severity i)), (''message'', UStr (di_Message i)),
     (''suggestion'', UStr (di_Suggestion i))]"

definition stored_status :: "TroubleshootStatus \<Rightarrow> umap" where
  "stored_status st =
     (if phase_text (tst_Phase st) = [] then [] else [(''phase'', UStr (phase_text (tst_Phase st)))]) @
     (if tst_Summary st = [] then [] else [(''summary'', UStr (tst_Summary st))]) @
     (if tst_Issues st = [] then [] else [(''issues'', UList (map stored_issue (tst_Issues st)))])"

definition status_event :: "TroubleshootStatus \<Rightarrow> watch_event" where
  "status_event st = Changed (Some [(''status'', UMap (stored_status st))])"

text \<open>What was stored is read back.\<close>

lemma stored_status_read:
  "nested_string (stored_status st) ''phase'' = phase_text (tst_Phase st)"
  "nested_string (stored_status st) ''summary'' = tst_Summary st"
  "map issue_of (maps_of (nested_slice (stored_status st) ''issues'')) = tst_Issues st"
proof -
  show "nested_string (stored_status st) ''phase'' = phase_text (tst_Phase st)" "nested_string (stored_status st) ''summary'' = tst_Summary st"
    by (auto simp: nested_string_def stored_status_def)
  have "maps_of (map stored_issue is) = map (\<lambda>i. case stored_issue i of UMap m \<Rightarrow> m | _ \<Rightarrow> []) is" for "is"
    by (induction "is") (simp_all add: maps_of_def stored_issue_def List.map_filter_simps)
  moreover have "issue_of (case stored_issue i of UMap m \<Rightarrow> m | _ \<Rightarrow> []) = i" for i
    by (simp add: stored_issue_def issue_of_def getString_def)
  ultimately have "map issue_of (maps_of (map stored_issue is)) = is" for "is" by (simp add: map_idI)
  then show "map issue_of (maps_of (nested_slice (stored_status st) ''issues'')) = tst_Issues st"
    by (auto simp: nested_slice_def stored_status_def maps_of_def List.map_filter_simps)
qed

lemma failed_status_fields:
  assumes "findTargetPods tenv tr = Inl e \<or> findTargetPods tenv tr = Inr []"
  shows "tst_Phase (final_status tenv tr) = PhaseFailed" "tst_Issues (final_status tenv tr) = tst_Issues (tr_Status tr)"
  using assms by (auto simp: final_status_def ts_setFailed_def ts_condition_def running_status_def Let_def)

text \<open>C33. A diagnosis that failed is shown as healthy: when the controller cannot find the target of a request, or finds no pods
  for it, the request ends as failed and without issues, and the command prints the deployment with a check mark and counts
  it among the healthy ones.\<close>

theorem failed_diagnosis_looks_healthy:
  assumes "findTargetPods tenv tr = Inl e \<or> findTargetPods tenv tr = Inr []" "tst_Issues (tr_Status tr) = []"
    and "kx_create env ns (request_name env ns deploy) deploy = None"
    and "kx_watch env ns (request_name env ns deploy) = Inr [status_event (running_status tenv tr), status_event (final_status tenv tr)]"
    and "fst (processDiagnostic env doCleanup (ns, deploy)) = r"
  shows "dg_phase r = ''Failed'' \<and> dg_healthy r \<and>
    print_result r = colorGreen @ check_mark @ '' '' @ colorBold @ ns @ ''/'' @ deploy @ colorReset @ newline @
      ''   '' @ colorGreen @ tst_Summary (final_status tenv tr) @ colorReset @ newline @ newline \<and>
    str_contains (printSummary [r]) ''All 1 workloads healthy''"
proof -
  note f = failed_status_fields [OF assms(1)]
  have "\<not> final_phase (stored_status (running_status tenv tr))" "final_phase (stored_status (final_status tenv tr))"
    by (simp_all add: final_phase_def stored_status_read f(1) phase_text_def running_status_def)
  then have w: "wait_events t [status_event (running_status tenv tr), status_event (final_status tenv tr)] =
      Inr (stored_status (final_status tenv tr))" for t
    by (simp add: status_event_def nested_map_def)
  have r: "r = parse_diagnosis ns deploy (stored_status (final_status tenv tr))"
    using assms(3-5) w by (simp add: processDiagnostic_def waitForDiagnostic_def Let_def)
  have d: "dg_phase r = ''Failed''" "dg_healthy r" "dg_namespace r = ns" "dg_name r = deploy" "dg_summary r = tst_Summary (final_status tenv tr)"
    unfolding r parse_diagnosis_def Let_def stored_status_read by (simp_all add: f assms(2) phase_text_def)
  have "itoa 1 = ''1''" by (rule itoa_values)
  then have "printSummary [r] = (colorDim @ rule_line @ colorReset @ newline @ colorBold @ ''Summary:'' @ colorReset @ '' '' @
      colorGreen @ check_mark @ '' '') @ ''All 1 workloads healthy'' @ colorReset @ newline @ newline"
    using d(2) by (simp add: printSummary_def)
  then have "str_contains (printSummary [r]) ''All 1 workloads healthy''"
    unfolding str_contains_iff by (metis sublist_appendI)
  then show ?thesis using d by (simp add: print_result_def result_style_def)
qed

section \<open>The report\<close>

lemma process_target: "dg_namespace (fst (processDiagnostic env cleanup w)) = fst w \<and> dg_name (fst (processDiagnostic env cleanup w)) = snd w"
proof (cases w)
  case (Pair ns deploy)
  have "dg_namespace (parse_diagnosis ns deploy st) = ns" "dg_name (parse_diagnosis ns deploy st) = deploy" for st
    by (simp_all add: parse_diagnosis_def Let_def)
  then have wait: "waitForDiagnostic env ns trName deploy = Inr r \<Longrightarrow> dg_namespace r = ns \<and> dg_name r = deploy" for trName r
    by (cases "kx_watch env ns trName"; cases "wait_events ''timeout waiting for diagnostic'' (projr (kx_watch env ns trName))")
      (auto simp: waitForDiagnostic_def)
  then show ?thesis using Pair by (auto simp: processDiagnostic_def error_result_def Let_def split: option.split sum.split)
qed

definition report_target :: "diagResult \<Rightarrow> string \<times> string" where
  "report_target r = (dg_namespace r, dg_name r)"

lemma process_targets: "map (\<lambda>w. report_target (fst (processDiagnostic env cleanup w))) items = items"
  using process_target by (simp add: report_target_def map_idI)

lemma sort_results_unique:
  assumes "mset xs = mset ys" "distinct (map report_target xs)"
  shows "sort_key result_key xs = sort_key result_key ys"
proof (rule map_sorted_distinct_set_unique [where f = result_key])
  have s: "set xs = set ys" using assms(1) by (rule mset_eq_setD)
  have inj: "inj_on report_target (set xs)" using assms(2) by (simp add: distinct_map)
  then show i: "inj_on result_key (set (sort_key result_key xs) \<union> set (sort_key result_key ys))"
    unfolding inj_on_def using s by (auto simp: result_key_def report_target_def)
  have "distinct xs" "distinct ys" using assms by (auto simp: distinct_map dest: mset_eq_imp_distinct_iff)
  then show "distinct (map result_key (sort_key result_key xs))" "distinct (map result_key (sort_key result_key ys))"
    using i by (auto simp: distinct_map intro: inj_on_subset)
  show "set (sort_key result_key xs) = set (sort_key result_key ys)" using s by simp
qed simp_all

lemma pool_arrival [simp]:
  "request_name (env\<lparr>kx_arrival := a\<rparr>) = request_name env" "waitForDiagnostic (env\<lparr>kx_arrival := a\<rparr>) = waitForDiagnostic env"
  "work_items (env\<lparr>kx_arrival := a\<rparr>) = work_items env" "run_namespaces (env\<lparr>kx_arrival := a\<rparr>) = run_namespaces env"
  by (simp_all add: fun_eq_iff request_name_def waitForDiagnostic_def work_items_def run_namespaces_def chosen_namespace_def)

lemma kx_arrival_parts: "kx_create (env\<lparr>kx_arrival := a\<rparr>) = kx_create env" "kx_watch (env\<lparr>kx_arrival := a\<rparr>) = kx_watch env"
  by simp_all

lemma process_arrival [simp]: "processDiagnostic (env\<lparr>kx_arrival := a\<rparr>) = processDiagnostic env"
  unfolding processDiagnostic_def pool_arrival kx_arrival_parts ..

text \<open>The report does not depend on the order in which the workers finish: it lists every deployment that was found exactly
  once, and the sorted results are the same for any two orders of arrival. Without workers, though, nothing is processed,
  and the report is empty.\<close>

theorem report_order_independent:
  assumes "run_namespaces env o' ns = Inr nss" "distinct (work_items env o' nss)" "range_order ord" "range_order ord'"
    and "diagnose (env\<lparr>kx_arrival := ord\<rparr>) o' ns = Inr rs"
  shows "diagnose (env\<lparr>kx_arrival := ord'\<rparr>) o' ns = Inr rs \<and>
    mset (map report_target rs) = (if kf_workerCount o' \<le> 0 then {#} else mset (work_items env o' nss))"
proof -
  let ?xs = "map (\<lambda>w. fst (processDiagnostic env (kf_cleanup o') w)) (work_items env o' nss)"
  have ok: "kx_kubeconfig env = None" "kx_clientset env = None" "kx_dynamic env = None"
    using assms(5) by (auto simp: diagnose_def split: option.splits)
  have eq: "diagnose (env\<lparr>kx_arrival := a\<rparr>) o' ns = Inr (sort_key result_key (if kf_workerCount o' \<le> 0 then [] else a ?xs))" for a
    using ok assms(1) by (simp add: diagnose_def pool_results_def)
  have t: "map report_target ?xs = work_items env o' nss" using process_targets by (simp add: comp_def)
  have m: "mset (ord ?xs) = mset ?xs" "mset (ord' ?xs) = mset ?xs" using assms(3,4) by (simp_all add: range_order_mset)
  have "distinct (map report_target (ord ?xs))"
    using assms(2) t m(1) by (metis mset_eq_imp_distinct_iff mset_map)
  then have "sort_key result_key (ord ?xs) = sort_key result_key (ord' ?xs)" using sort_results_unique m by metis
  moreover have "mset (map report_target (sort_key result_key (ord ?xs))) = mset (work_items env o' nss)"
    using m(1) t by (metis mset_map mset_sort)
  ultimately show ?thesis using assms(5) unfolding eq by auto
qed

text \<open>A wait that times out leaves the request behind, whatever \<open>--cleanup\<close> says; and the namespace of the arguments is not
  read, unless \<open>-A=false\<close> is given too.\<close>

lemma timeout_leaves_request:
  assumes "kx_create env ns (request_name env ns deploy) deploy = None" "kx_watch env ns (request_name env ns deploy) = Inr evs"
    and "wait_events ''timeout waiting for diagnostic'' evs = Inl ''timeout waiting for diagnostic''"
  shows "snd (processDiagnostic env doCleanup (ns, deploy)) = [Created ns (request_name env ns deploy) deploy]"
  using assms by (simp add: processDiagnostic_def timed_out_def Let_def)

lemma namespace_argument_ignored: "argument_namespace default_options args = []"
  by (simp add: argument_namespace_def default_options_def)

section \<open>Witnesses\<close>

text \<open>A deployment without pods.\<close>

definition ex_no_pods :: "unit ts_env" where
  "ex_no_pods = (ex_ts_env None)\<lparr>te_workload := (\<lambda>_. Inr ()), te_selector := (\<lambda>_. Inr (\<lambda>_. True)), te_pods := Inr []\<rparr>"

definition ex_deployment_request :: TroubleshootRequest where
  "ex_deployment_request = ex_ts_request\<lparr>tr_Spec := (tr_Spec ex_ts_request)\<lparr>ts_Kind := ''Deployment''\<rparr>,
     tr_Status := (tr_Status ex_ts_request)\<lparr>tst_Issues := []\<rparr>\<rparr>"

definition ex_cli_env :: cli_env where
  "ex_cli_env = \<lparr>kx_kubeconfig = None, kx_clientset = None, kx_dynamic = None, kx_current = None,
     kx_namespace_list = Inr [''shop'', ''kube-system''],
     kx_deployment_list = (\<lambda>ns sel. Inr [''web'', ''api'']), kx_nano = (\<lambda>ns d. 1), kx_create = (\<lambda>ns tr d. None),
     kx_watch = (\<lambda>ns tr. Inr [status_event (running_status ex_no_pods ex_deployment_request),
       status_event (final_status ex_no_pods ex_deployment_request)]), kx_arrival = rev\<rparr>"

lemma ex_no_pods_found: "findTargetPods ex_no_pods ex_deployment_request = Inr []" "tst_Issues (tr_Status ex_deployment_request) = []"
  by (simp_all add: findTargetPods_def ex_no_pods_def ex_deployment_request_def)

lemma failed_diagnosis_looks_healthy_witness:
  "dg_phase (fst (processDiagnostic ex_cli_env True (''shop'', ''web''))) = ''Failed'' \<and>
   dg_healthy (fst (processDiagnostic ex_cli_env True (''shop'', ''web''))) \<and>
   str_contains (printSummary [fst (processDiagnostic ex_cli_env True (''shop'', ''web''))]) ''All 1 workloads healthy''"
  using failed_diagnosis_looks_healthy [OF disjI2 [OF ex_no_pods_found(1)] ex_no_pods_found(2), of ex_cli_env "''shop''" "''web''"]
  by (simp add: ex_cli_env_def)

lemma report_order_independent_witness:
  "\<exists>rs. diagnose (ex_cli_env\<lparr>kx_arrival := rev\<rparr>) default_options [] = Inr rs \<and>
     diagnose (ex_cli_env\<lparr>kx_arrival := (\<lambda>xs. xs)\<rparr>) default_options [] = Inr rs \<and>
     mset (map report_target rs) = {#(''shop'', ''web''), (''shop'', ''api'')#}"
proof -
  have n: "run_namespaces ex_cli_env default_options [] = Inr [''shop'']"
    by (simp add: run_namespaces_def default_options_def ex_cli_env_def system_namespaces_def)
  have w: "work_items ex_cli_env default_options [''shop''] = [(''shop'', ''web''), (''shop'', ''api'')]"
    by (simp add: work_items_def ex_cli_env_def)
  have "diagnose (ex_cli_env\<lparr>kx_arrival := rev\<rparr>) default_options [] \<noteq> Inl e" for e
    using n by (simp add: diagnose_def ex_cli_env_def)
  then obtain rs where rs: "diagnose (ex_cli_env\<lparr>kx_arrival := rev\<rparr>) default_options [] = Inr rs"
    by (cases "diagnose (ex_cli_env\<lparr>kx_arrival := rev\<rparr>) default_options []") auto
  have "distinct (work_items ex_cli_env default_options [''shop''])" unfolding w by simp
  from report_order_independent [OF n this range_order_rev range_order_id rs] show ?thesis
    using rs unfolding w by (auto simp: default_options_def)
qed

end
