(* ===== verification/Kubeassist_Health.thy ===== *)
theory Kubeassist_Health
  imports Kubeassist_Cli TeamHealth_Controller "HOL-Library.AList"
begin

text \<open>
  The health command (\<open>cmd/kubeassist/health.go\<close>): the request that the flags ask for, the wait, and the report. What the
  controller stores and how a scope is resolved are those of \<open>TeamHealth_Controller\<close> and \<open>Admission\<close>.
\<close>

section \<open>The request\<close>

record healthCmd =
  hc_namespaces :: string
  hc_namespaceSelector :: string
  hc_checks :: string
  hc_outputFormat :: string
  hc_cleanup :: bool
  hc_timeout :: int                    \<comment> \<open>seconds\<close>

definition default_health :: healthCmd where
  "default_health = \<lparr>hc_namespaces = [], hc_namespaceSelector = [], hc_checks = [], hc_outputFormat = ''text'', hc_cleanup = True,
     hc_timeout = 120\<rparr>"

definition add_label :: "string \<Rightarrow> umap \<Rightarrow> umap" where
  "add_label part labels =
     (case split2 (CHR ''='') part of
        None \<Rightarrow> labels
      | Some (k, v) \<Rightarrow> AList.update (trim_space k) (UStr (trim_space v)) labels)"

definition selector_labels :: "string \<Rightarrow> umap" where
  "selector_labels s = fold add_label (split_all (CHR '','') s) []"

definition build_scope :: "healthCmd \<Rightarrow> umap" where
  "build_scope h =
     (if hc_namespaceSelector h \<noteq> []
      then let labels = selector_labels (hc_namespaceSelector h) in
        if labels = [] then [] else [(''namespaceSelector'', UMap [(''matchLabels'', UMap labels)])]
      else if hc_namespaces h \<noteq> [] then [(''namespaces'', UList (map UStr (split_all (CHR '','') (hc_namespaces h))))]
      else [(''currentNamespaceOnly'', UBool True)])"

definition buildSpec :: "healthCmd \<Rightarrow> umap" where
  "buildSpec h = (''scope'', UMap (build_scope h)) #
     (if hc_checks h = [] then []
      else [(''checks'', UList (map (\<lambda>c. UStr (trim_space c)) (split_all (CHR '','') (hc_checks h))))])"

section \<open>The status\<close>

record healthIssue =
  hi_Type :: string
  hi_Severity :: string
  hi_Resource :: string
  hi_Namespace :: string
  hi_Message :: string
  hi_Suggestion :: string

record checkerResult =
  ck_Healthy :: int
  ck_Issues :: "healthIssue list"

record healthResult =
  hl_Phase :: string
  hl_Summary :: string
  hl_LastCheck :: string
  hl_CheckerResults :: "(string \<times> checkerResult) list"       \<comment> \<open>a Go map\<close>

definition health_issue :: "umap \<Rightarrow> healthIssue" where
  "health_issue m = \<lparr>hi_Type = getString m ''type'', hi_Severity = getString m ''severity'', hi_Resource = getString m ''resource'',
     hi_Namespace = getString m ''namespace'', hi_Message = getString m ''message'', hi_Suggestion = getString m ''suggestion''\<rparr>"

definition checker_data :: "umap \<Rightarrow> checkerResult" where
  "checker_data m = \<lparr>ck_Healthy = nested_int m ''healthy'', ck_Issues = map health_issue (maps_of (nested_slice m ''issues''))\<rparr>"

definition parseStatus :: "umap \<Rightarrow> healthResult" where
  "parseStatus status =
     \<lparr>hl_Phase = nested_string status ''phase'', hl_Summary = nested_string status ''summary'',
      hl_LastCheck = nested_string status ''lastCheckTime'',
      hl_CheckerResults = List.map_filter (\<lambda>(n, d). case d of UMap m \<Rightarrow> Some (n, checker_data m) | _ \<Rightarrow> None)
        (case nested_map status ''results'' of None \<Rightarrow> [] | Some m \<Rightarrow> m)\<rparr>"

section \<open>The report\<close>

definition issue_count :: "string \<Rightarrow> checkerResult \<Rightarrow> int" where
  "issue_count sev cr = int (length (filter (\<lambda>i. hi_Severity i = sev) (ck_Issues cr)))"

definition health_header :: string where
  "health_header =
     newline @ colorBold @ colorCyan @ [CHR 0xE2, CHR 0x95, CHR 0x94] @ box_line @ [CHR 0xE2, CHR 0x95, CHR 0x97] @ colorReset @ newline @
     colorBold @ colorCyan @ ([CHR 0xE2, CHR 0x95, CHR 0x91] @ ''              '' @
       [CHR 0xF0, CHR 0x9F, CHR 0x8F, CHR 0xA5] @
       '' KubeAssist Team Health Dashboard             '' @ [CHR 0xE2, CHR 0x95, CHR 0x91]) @ colorReset @ newline @
     colorBold @ colorCyan @ [CHR 0xE2, CHR 0x95, CHR 0x9A] @ box_line @ [CHR 0xE2, CHR 0x95, CHR 0x9D] @ colorReset @ newline @ newline"

definition checker_line :: "string \<Rightarrow> checkerResult \<Rightarrow> string" where
  "checker_line name cr =
     (let critical = issue_count ''Critical'' cr; warnings = issue_count ''Warning'' cr;
          (color, icon) = result_style (ck_Issues cr = []) critical
      in color @ colorBold @ icon @ '' '' @ name @ colorReset @ colorReset @ '' '' @
         ''('' @ colorGreen @ itoa (ck_Healthy cr) @ '' healthy'' @ colorReset @
         (if critical > 0 then '', '' @ colorRed @ itoa critical @ '' critical'' @ colorReset else []) @
         (if warnings > 0 then '', '' @ colorYellow @ itoa warnings @ '' warnings'' @ colorReset else []) @ '')'' @ newline)"

definition issue_lines :: "healthIssue \<Rightarrow> string" where
  "issue_lines i =
     (let (color, icon) = severity_style (hi_Severity i);
          resource = (if hi_Namespace i = [] then hi_Resource i else hi_Namespace i @ ''/'' @ hi_Resource i)
      in ''   '' @ color @ icon @ '' ['' @ hi_Severity i @ '']'' @ colorReset @ '' '' @ resource @ newline @
         ''     '' @ colorReset @ hi_Message i @ newline @ suggestion_line (hi_Suggestion i))"

definition checker_section :: "(string \<times> checkerResult) list \<Rightarrow> string \<Rightarrow> string" where
  "checker_section rs name =
     (case map_of rs name of
        None \<Rightarrow> []
      | Some cr \<Rightarrow> checker_line name cr @ concat (map issue_lines (ck_Issues cr)) @ newline)"

definition health_totals :: "(string \<times> checkerResult) list \<Rightarrow> int \<times> int \<times> int" where
  "health_totals rs = (sum_list (map (\<lambda>(n, cr). ck_Healthy cr) rs), sum_list (map (\<lambda>(n, cr). issue_count ''Critical'' cr) rs),
     sum_list (map (\<lambda>(n, cr). issue_count ''Warning'' cr) rs))"

definition health_summary :: "healthResult \<Rightarrow> string" where
  "health_summary h =
     colorBold @ ''Summary:'' @ colorReset @ '' '' @ hl_Summary h @ newline @
     (if hl_LastCheck h = [] then [] else colorDim @ ''Last Check:'' @ colorReset @ '' '' @ hl_LastCheck h @ newline) @ newline"

definition totals_line :: "int \<times> int \<times> int \<Rightarrow> string" where
  "totals_line = (\<lambda>(healthy, critical, warnings).
     colorDim @ rule_line @ colorReset @ newline @
     colorBold @ ''Total:'' @ colorReset @ '' '' @ colorGreen @ itoa healthy @ '' healthy'' @ colorReset @
     (if critical > 0 \<or> warnings > 0
      then '', '' @ colorRed @ itoa critical @ '' critical'' @ colorReset @ '', '' @ colorYellow @ itoa warnings @ '' warnings'' @ colorReset
      else []) @ newline @ newline)"

definition printTextResults :: "healthResult \<Rightarrow> string" where
  "printTextResults h =
     (let rs = hl_CheckerResults h in
      health_summary h @ concat (map (checker_section rs) (sort (map fst rs))) @ totals_line (health_totals rs))"

record jsonHealthResult =
  jh_Result :: healthResult
  jh_Totals :: "int \<times> int \<times> int"

definition health_json :: "healthResult \<Rightarrow> jsonHealthResult" where
  "health_json h = \<lparr>jh_Result = h, jh_Totals = health_totals (hl_CheckerResults h)\<rparr>"

section \<open>The run\<close>

record health_env =
  hx_kubeconfig :: "string option"
  hx_dynamic :: "string option"
  hx_current :: "string option"
  hx_nano :: int
  hx_create :: "string \<Rightarrow> string \<Rightarrow> umap \<Rightarrow> string option"
  hx_watch :: "string \<Rightarrow> string \<Rightarrow> string + watch_event list"

datatype health_call = HealthCreated string string umap | HealthDeleted string string

definition waitForHealthCheck :: "health_env \<Rightarrow> string \<Rightarrow> string \<Rightarrow> string + healthResult" where
  "waitForHealthCheck env namespace name =
     (case hx_watch env namespace name of
        Inl e \<Rightarrow> Inl (''failed to watch TeamHealthRequest: '' @ e)
      | Inr evs \<Rightarrow> map_sum id parseStatus (wait_events ''timeout waiting for health check'' evs))"

definition health_namespace :: "health_env \<Rightarrow> string" where
  "health_namespace env = (case hx_current env of None \<Rightarrow> ''default'' | Some ns \<Rightarrow> if ns = [] then ''default'' else ns)"

definition health_name :: "health_env \<Rightarrow> string" where
  "health_name env = ''kubeassist-health-'' @ itoa (hx_nano env)"

text \<open>The calls, the text that is printed, and the error or the value that is encoded.\<close>

definition health_run :: "health_env \<Rightarrow> healthCmd \<Rightarrow> health_call list \<times> string \<times> (string + jsonHealthResult option)" where
  "health_run env h =
     (let json = (hc_outputFormat h = ''json''); ns = health_namespace env; name = health_name env;
          printed = (if json then [] else health_header)
      in case hx_kubeconfig env of
           Some e \<Rightarrow> ([], [], Inl (''failed to load kubeconfig: '' @ e))
         | None \<Rightarrow>
             (case hx_dynamic env of
                Some e \<Rightarrow> ([], [], Inl (''failed to create dynamic client: '' @ e))
              | None \<Rightarrow>
                  (case hx_create env ns name (buildSpec h) of
                     Some e \<Rightarrow> ([], printed, Inl (''failed to create TeamHealthRequest: '' @ e))
                   | None \<Rightarrow>
                       (case waitForHealthCheck env ns name of
                          Inl e \<Rightarrow> ([HealthCreated ns name (buildSpec h)], printed, Inl e)
                        | Inr r \<Rightarrow>
                            (HealthCreated ns name (buildSpec h) # (if hc_cleanup h then [HealthDeleted ns name] else []),
                             if json then [] else printed @ printTextResults r,
                             Inr (if json then Some (health_json r) else None))))))"

section \<open>What is checked\<close>

text \<open>The scope as the API server reads it; \<open>select\<close> is the selector of a map of labels.\<close>

definition label_map :: "umap \<Rightarrow> string \<rightharpoonup> string" where
  "label_map m k = (case map_of m k of Some (UStr v) \<Rightarrow> Some v | _ \<Rightarrow> None)"

definition requested_scope :: "((string \<rightharpoonup> string) \<Rightarrow> 's) \<Rightarrow> umap \<Rightarrow> 's ScopeConfig" where
  "requested_scope select spec =
     (let scope = (case nested_map spec ''scope'' of None \<Rightarrow> [] | Some m \<Rightarrow> m) in
      \<lparr>sc_Namespaces = List.map_filter (\<lambda>x. case x of UStr s \<Rightarrow> Some s | _ \<Rightarrow> None) (nested_slice scope ''namespaces''),
       sc_NamespaceSelector = map_option (\<lambda>sel. select (label_map (case nested_map sel ''matchLabels'' of None \<Rightarrow> [] | Some m \<Rightarrow> m)))
         (nested_map scope ''namespaceSelector''),
       sc_CurrentNamespaceOnly = (map_of scope ''currentNamespaceOnly'' = Some (UBool True))\<rparr>)"

lemma split_all_set: "c \<noteq> d \<Longrightarrow> (\<exists>p \<in> set (split_all d s). c \<in> set p) \<longleftrightarrow> c \<in> set s"
  by (induction s) (auto split: list.splits)

lemma add_label_nonempty: "add_label part labels = [] \<longleftrightarrow> labels = [] \<and> CHR ''='' \<notin> set part"
proof (cases "split2 (CHR ''='') part")
  case None
  then have "CHR ''='' \<notin> set part" unfolding split2_None .
  then show ?thesis using None by (simp add: add_label_def del: split2_None)
next
  case (Some kv)
  moreover obtain k v where "kv = (k, v)" by (cases kv)
  ultimately have "split2 (CHR ''='') part = Some (k, v)" by simp
  have "AList.update k v m \<noteq> []" for k :: string and v :: uval and m by (cases m) auto
  then have "add_label part labels \<noteq> []" using \<open>split2 (CHR ''='') part = Some (k, v)\<close> by (simp add: add_label_def)
  then show ?thesis using \<open>split2 (CHR ''='') part = Some (k, v)\<close> by (auto simp: split2_Some)
qed

lemma selector_labels_empty: "selector_labels s = [] \<longleftrightarrow> CHR ''='' \<notin> set s"
proof -
  have "fold add_label ps m = [] \<longleftrightarrow> m = [] \<and> (\<forall>p \<in> set ps. CHR ''='' \<notin> set p)" for ps m
    by (induction ps arbitrary: m) (auto simp: add_label_nonempty)
  then show ?thesis using split_all_set [of "CHR ''=''" "CHR '',''" s] by (auto simp: selector_labels_def)
qed

lemma map_filter_strings: "List.map_filter (\<lambda>x. case x of UStr s \<Rightarrow> Some s | _ \<Rightarrow> None) (map UStr ss) = ss"
  by (induction ss) (simp_all add: List.map_filter_simps)

lemma map_filter_map: "(\<And>x. f (g x) = Some (k x)) \<Longrightarrow> List.map_filter f (map g xs) = map k xs"
  by (induction xs) (simp_all add: List.map_filter_simps)

text \<open>The labels that a selector asks for: of every part between commas that has an equals sign, what stands before the first
  one and what stands after it, without blanks around them; of two parts with the same key the later one counts.\<close>

definition wanted_labels :: "string \<Rightarrow> string \<rightharpoonup> string" where
  "wanted_labels s = map_of (rev (map (\<lambda>p. (trim_space (takeWhile (\<lambda>c. c \<noteq> CHR ''='') p), trim_space (tl (dropWhile (\<lambda>c. c \<noteq> CHR ''='') p))))
     (filter (\<lambda>p. CHR ''='' \<in> set p) (split_all (CHR '','') s))))"

lemma label_map_update: "label_map (AList.update k (UStr v) m) = (label_map m)(k \<mapsto> v)"
  by (rule ext) (simp add: label_map_def update_conv)

lemma add_label_map:
  "label_map (add_label p m) = (if CHR ''='' \<in> set p
     then (label_map m)(trim_space (takeWhile (\<lambda>c. c \<noteq> CHR ''='') p) \<mapsto> trim_space (tl (dropWhile (\<lambda>c. c \<noteq> CHR ''='') p)))
     else label_map m)"
proof (cases "split2 (CHR ''='') p")
  case None
  then have "CHR ''='' \<notin> set p" unfolding split2_None .
  then show ?thesis using None by (simp add: add_label_def del: split2_None)
next
  case (Some kv)
  then obtain k v where kv: "split2 (CHR ''='') p = Some (k, v)" by (cases kv) simp
  then have "p = k @ CHR ''='' # v" "CHR ''='' \<notin> set k" by (simp_all add: split2_Some)
  then have "takeWhile (\<lambda>c. c \<noteq> CHR ''='') p = k" "tl (dropWhile (\<lambda>c. c \<noteq> CHR ''='') p) = v" "CHR ''='' \<in> set p"
    by (auto simp: takeWhile_append dropWhile_append)
  then show ?thesis using kv by (simp add: add_label_def label_map_update)
qed

lemma selector_labels_wanted: "label_map (selector_labels s) = wanted_labels s"
proof -
  have "label_map (fold add_label ps m) = label_map m ++ map_of (rev (map (\<lambda>p. (trim_space (takeWhile (\<lambda>c. c \<noteq> CHR ''='') p),
      trim_space (tl (dropWhile (\<lambda>c. c \<noteq> CHR ''='') p)))) (filter (\<lambda>p. CHR ''='' \<in> set p) ps)))" for ps m
    by (induction ps arbitrary: m) (simp_all add: add_label_map)
  moreover have "label_map [] = Map.empty" by (rule ext) (simp add: label_map_def)
  ultimately show ?thesis by (simp add: selector_labels_def wanted_labels_def)
qed

lemma requested_namespaces:
  "ResolveNamespaces src current (requested_scope select (buildSpec h)) =
     (if hc_namespaceSelector h \<noteq> []
      then if CHR ''='' \<in> set (hc_namespaceSelector h)
        then resolveBySelector src (select (wanted_labels (hc_namespaceSelector h))) else Inr [current]
      else if hc_namespaces h \<noteq> [] then Inr (sort (filter (nss_get src) (split_all (CHR '','') (hc_namespaces h))))
      else Inr [current])"
    (is ?resolved)
    "sc_Namespaces (requested_scope select (buildSpec h)) =
      (if hc_namespaceSelector h = [] \<and> hc_namespaces h \<noteq> [] then split_all (CHR '','') (hc_namespaces h) else [])"
    (is ?listed)
proof -
  have s: "nested_map (buildSpec h) ''scope'' = Some (build_scope h)" by (simp add: buildSpec_def nested_map_def)
  have e: "requested_scope select (buildSpec h) =
      \<lparr>sc_Namespaces = List.map_filter (\<lambda>x. case x of UStr s \<Rightarrow> Some s | _ \<Rightarrow> None) (nested_slice (build_scope h) ''namespaces''),
       sc_NamespaceSelector = map_option (\<lambda>sel. select (label_map (case nested_map sel ''matchLabels'' of None \<Rightarrow> [] | Some m \<Rightarrow> m)))
         (nested_map (build_scope h) ''namespaceSelector''),
       sc_CurrentNamespaceOnly = (map_of (build_scope h) ''currentNamespaceOnly'' = Some (UBool True))\<rparr>"
    by (simp add: requested_scope_def s Let_def)
  note l = selector_labels_empty [of "hc_namespaceSelector h"]
  show ?resolved
  proof (cases "hc_namespaceSelector h = []")
    case True
    then show ?thesis
      unfolding e by (simp add: build_scope_def nested_map_def nested_slice_def ResolveNamespaces_def validateNamespaces_def map_filter_strings
          List.map_filter_simps)
  next
    case False
    then show ?thesis
      unfolding e by (simp add: build_scope_def nested_map_def nested_slice_def ResolveNamespaces_def l List.map_filter_simps
          selector_labels_wanted)
  qed
  show ?listed
    unfolding e by (simp add: build_scope_def nested_slice_def map_filter_strings List.map_filter_simps Let_def)
qed

text \<open>A check that completes has checked the first 50 of the namespaces that its scope resolves to.\<close>

lemma completed_namespaces:
  assumes "th_final env hr = Some (st, Some agg)"
  shows "\<exists>found. ResolveNamespaces (he_source env) (hr_Namespace hr) (hs_Scope (hr_Spec hr)) = Inr found \<and>
    hst_NamespacesChecked st = take 50 found"
  using assms
  by (auto simp: th_final_def th_complete_def Let_def MaxNamespaces_def split: sum.splits if_splits option.splits)


section \<open>What is shown\<close>

text \<open>A status as the API server stores it, with the fields that are read here and the errors; \<open>rs\<close> lists the results.\<close>

definition stored_checker :: "CheckerResult \<Rightarrow> uval" where
  "stored_checker r = UMap ([(''healthy'', UInt (ak_Healthy r))] @
     (if ak_Issues r = [] then [] else [(''issues'', UList (map stored_issue (ak_Issues r)))]) @
     (if ak_Error r = [] then [] else [(''error'', UStr (ak_Error r))]))"

definition stored_health :: "TeamHealthStatus \<Rightarrow> (string \<times> CheckerResult) list \<Rightarrow> umap" where
  "stored_health st rs =
     (if phase_text (hst_Phase st) = [] then [] else [(''phase'', UStr (phase_text (hst_Phase st)))]) @
     (if hst_Summary st = [] then [] else [(''summary'', UStr (hst_Summary st))]) @
     (if rs = [] then [] else [(''results'', UMap (map (apsnd stored_checker) rs))]) @
     (case hst_LastCheckTime st of None \<Rightarrow> [] | Some t \<Rightarrow> [(''lastCheckTime'', UStr (format_rfc3339 t))])"

definition seen_issue :: "DiagnosticIssue \<Rightarrow> healthIssue" where
  "seen_issue d = \<lparr>hi_Type = di_Type d, hi_Severity = di_Severity d, hi_Resource = [], hi_Namespace = [], hi_Message = di_Message d,
     hi_Suggestion = di_Suggestion d\<rparr>"

definition seen_checker :: "CheckerResult \<Rightarrow> checkerResult" where
  "seen_checker r = \<lparr>ck_Healthy = ak_Healthy r, ck_Issues = map seen_issue (ak_Issues r)\<rparr>"

lemma stored_issues_seen: "map health_issue (maps_of (map stored_issue ds)) = map seen_issue ds"
  by (induction ds) (simp_all add: maps_of_def stored_issue_def List.map_filter_simps health_issue_def getString_def seen_issue_def)

lemma checker_data_stored: "stored_checker r = UMap m \<Longrightarrow> checker_data m = seen_checker r"
  using stored_issues_seen [of "ak_Issues r"]
  by (auto simp: stored_checker_def checker_data_def seen_checker_def nested_int_def nested_slice_def maps_of_def List.map_filter_simps)

lemma parse_stored:
  "parseStatus (stored_health st rs) =
     \<lparr>hl_Phase = phase_text (hst_Phase st), hl_Summary = hst_Summary st,
      hl_LastCheck = (case hst_LastCheckTime st of None \<Rightarrow> [] | Some t \<Rightarrow> format_rfc3339 t), hl_CheckerResults = map (apsnd seen_checker) rs\<rparr>"
proof -
  let ?f = "\<lambda>(n, d). case d of UMap m \<Rightarrow> Some (n, checker_data m) | _ \<Rightarrow> None"
  have "?f (apsnd stored_checker x) = Some (apsnd seen_checker x)" for x :: "string \<times> CheckerResult"
  proof -
    obtain m where "stored_checker (snd x) = UMap m" by (simp add: stored_checker_def)
    then show ?thesis using checker_data_stored by (cases x) simp
  qed
  then have "List.map_filter ?f (map (apsnd stored_checker) rs) = map (apsnd seen_checker) rs" by (rule map_filter_map)
  moreover have "(case nested_map (stored_health st rs) ''results'' of None \<Rightarrow> [] | Some m \<Rightarrow> m) = map (apsnd stored_checker) rs"
    by (auto simp: nested_map_def stored_health_def split: option.split)
  ultimately show ?thesis
    by (auto simp: parseStatus_def nested_string_def stored_health_def split: option.split)
qed

lemma aggregate_other:
  "aggregateResults rs agg = Some agg' \<Longrightarrow> n \<notin> fst ` set rs \<Longrightarrow> ar_apiResults agg' n = ar_apiResults agg n"
  by (induction rs agg rule: aggregateResults.induct) (auto simp: Let_def split: if_splits)

lemma aggregate_stores:
  "aggregateResults rs agg = Some agg' \<Longrightarrow> distinct (map fst rs) \<Longrightarrow> (n, Some r) \<in> set rs \<Longrightarrow> ar_apiResults agg' n = Some (api_result r)"
proof (induction rs agg rule: aggregateResults.induct)
  case (3 name r' rs agg)
  show ?case
  proof (cases "(n, Some r) = (name, Some r')")
    case True
    then have "n \<notin> fst ` set rs" using "3.prems"(2) by simp
    with True "3.prems"(1) show ?thesis by (auto simp: Let_def dest: aggregate_other)
  qed (use 3 in \<open>auto simp: Let_def\<close>)
qed simp_all

lemma section_shown:
  assumes "map_of (hl_CheckerResults h) n = Some cr"
  shows "str_contains (printTextResults h) (checker_line n cr)"
proof -
  have "n \<in> set (sort (map fst (hl_CheckerResults h)))" using assms by (force dest: map_of_SomeD)
  then obtain as bs where "sort (map fst (hl_CheckerResults h)) = as @ n # bs" by (meson split_list)
  then have c: "concat (map (checker_section (hl_CheckerResults h)) (sort (map fst (hl_CheckerResults h)))) =
      concat (map (checker_section (hl_CheckerResults h)) as) @ checker_line n cr @ (concat (map issue_lines (ck_Issues cr)) @ newline @
        concat (map (checker_section (hl_CheckerResults h)) bs))"
    using assms by (simp add: checker_section_def)
  have "sublist p (a @ (xs @ p @ ys) @ b)" for p a xs ys b :: string by (metis append.assoc sublist_appendI)
  then show ?thesis unfolding str_contains_iff printTextResults_def Let_def c .
qed

text \<open>C34. The report of a health check hides a checker that failed: a checker that answered with an error is printed with a check
  mark and its healthy count, exactly like one that found nothing, and the report does not depend on the error at all;
  and no issue of any checker is shown with its resource or namespace, since neither is stored.\<close>

theorem health_report_hides_failures:
  assumes "aggregateResults enhanced no_aggregate = Some agg" "distinct (map fst enhanced)" "(n, Some r) \<in> set enhanced" "cr_Error r = Some e"
    and "hst_Results st = ar_apiResults agg" "map_of rs = hst_Results st" "distinct (map fst rs)"
    and "parseStatus (stored_health st rs) = h"
  shows "str_contains (printTextResults h) (colorGreen @ colorBold @ check_mark @ '' '' @ n @ colorReset @ colorReset @ '' ('' @
      colorGreen @ itoa (min (cr_Healthy r) (2 ^ 31 - 1)) @ '' healthy'' @ colorReset @ '')'' @ newline) \<and>
    parseStatus (stored_health st (map (apsnd (ak_Error_update (\<lambda>_. []))) rs)) = h \<and>
    list_all (\<lambda>(m, cr). list_all (\<lambda>i. hi_Resource i = [] \<and> hi_Namespace i = []) (ck_Issues cr)) (hl_CheckerResults h)"
proof -
  have h: "hl_CheckerResults h = map (apsnd seen_checker) rs" using assms(8) parse_stored by auto
  have "map_of rs n = Some (api_result r)" using assms(5,6) aggregate_stores [OF assms(1-3)] by simp
  then have "map_of (hl_CheckerResults h) n = Some (seen_checker (api_result r))"
    unfolding h apsnd_def map_prod_def by (simp add: map_of_map)
  from section_shown [OF this]
  have "str_contains (printTextResults h) (checker_line n (seen_checker (api_result r)))" .
  moreover have "checker_line n (seen_checker (api_result r)) = colorGreen @ colorBold @ check_mark @ '' '' @ n @ colorReset @ colorReset @
      '' ('' @ colorGreen @ itoa (min (cr_Healthy r) (2 ^ 31 - 1)) @ '' healthy'' @ colorReset @ '')'' @ newline"
    using assms(4) by (simp add: checker_line_def seen_checker_def api_result_def result_style_def issue_count_def)
  moreover have "seen_checker (r'\<lparr>ak_Error := []\<rparr>) = seen_checker r'" for r' by (simp add: seen_checker_def)
  then have "map (apsnd seen_checker \<circ> apsnd (ak_Error_update (\<lambda>_. []))) rs = map (apsnd seen_checker) rs" by auto
  then have "parseStatus (stored_health st (map (apsnd (ak_Error_update (\<lambda>_. []))) rs)) = h"
    using assms(8) by (auto simp: parse_stored)
  moreover have "list_all (\<lambda>(m, cr). list_all (\<lambda>i. hi_Resource i = [] \<and> hi_Namespace i = []) (ck_Issues cr)) (hl_CheckerResults h)"
    unfolding h by (auto simp: list_all_iff seen_checker_def seen_issue_def)
  ultimately show ?thesis by simp
qed

text \<open>A wait that fails leaves the request behind.\<close>

lemma health_wait_leaves_request:
  assumes "waitForHealthCheck env (health_namespace env) (health_name env) = Inl e"
  shows "HealthDeleted ns name \<notin> set (fst (health_run env h))"
  using assms by (auto simp: health_run_def Let_def split: option.splits)

section \<open>A witness\<close>

definition ex_failed_checker :: "metadata CheckResult" where
  "ex_failed_checker = \<lparr>cr_CheckerName = ''secrets'', cr_Healthy = 0, cr_Issues = [], cr_Error = Some ''forbidden''\<rparr>"

definition ex_failed_status :: TeamHealthStatus where
  "ex_failed_status = (hr_Status ex_hr)\<lparr>hst_Phase := PhaseCompleted, hst_Results := [''secrets'' \<mapsto> api_result ex_failed_checker]\<rparr>"

lemma health_report_hides_failures_witness:
  "str_contains (printTextResults (parseStatus (stored_health ex_failed_status [(''secrets'', api_result ex_failed_checker)])))
     (colorGreen @ colorBold @ check_mark @ '' secrets'' @ colorReset @ colorReset @ '' ('' @ colorGreen @ ''0 healthy'' @ colorReset @ '')'' @ newline)"
proof -
  let ?rs = "[(''secrets'', api_result ex_failed_checker)]"
  obtain agg where agg: "aggregateResults [(''secrets'', Some ex_failed_checker)] no_aggregate = Some agg"
    "ar_apiResults agg = [''secrets'' \<mapsto> api_result ex_failed_checker]"
    by (simp add: ex_failed_checker_def no_aggregate_def)
  have "itoa 0 = ''0''" by (rule itoa_values)
  then show ?thesis
    using health_report_hides_failures [of "[(''secrets'', Some ex_failed_checker)]" agg "''secrets''" ex_failed_checker "''forbidden''"
        ex_failed_status ?rs "parseStatus (stored_health ex_failed_status ?rs)"] agg
    by (simp add: ex_failed_checker_def ex_failed_status_def)
qed

text \<open>A list with a namespace that is gone, and a selector with blanks and a key twice.\<close>

definition ex_listing :: healthCmd where
  "ex_listing = default_health\<lparr>hc_namespaces := ''web,gone,api''\<rparr>"

definition ex_listed_request :: "bool TeamHealthRequest" where
  "ex_listed_request = ex_hr\<lparr>hr_Spec := (hr_Spec ex_hr)\<lparr>hs_Checks := [],
     hs_Scope := requested_scope (\<lambda>_. True) (buildSpec ex_listing)\<rparr>\<rparr>"

definition ex_listed_env :: "bool th_env" where
  "ex_listed_env = ex_th_env\<lparr>he_checkers := (\<lambda>_ _. [])\<rparr>"


end
