(* ===== verification/Operator.thy ===== *)
theory Operator
  imports Dashboard_Flow Chat_Flow Dashboard_Auth Console Context_Builder Workload_Checker Flux_Checkers Resource_Checkers TeamHealth_Controller
begin

text \<open>
  The process that composes everything (\<open>cmd/main.go\<close>) and the dashboard server it starts (\<open>internal/dashboard/server.go\<close>:
  \<open>NewServer\<close>, the options, \<open>Start\<close>). The controller manager, the client libraries and the listener are parameters that may
  fail; the flags are taken as parsed; the options of the metrics and webhook servers are values that the library gets.
\<close>

section \<open>Flags\<close>

record operator_flags =
  fg_metricsAddr :: string
  fg_metricsCert :: "string \<times> string \<times> string"     \<comment> \<open>directory, certificate and key\<close>
  fg_webhookCert :: "string \<times> string \<times> string"
  fg_leaderElection :: bool
  fg_probeAddr :: string
  fg_secureMetrics :: bool
  fg_enableHTTP2 :: bool
  fg_enableWebhooks :: bool
  fg_enableDashboard :: bool
  fg_dashboardAddr :: string
  fg_tlsCertFile :: string
  fg_tlsKeyFile :: string
  fg_enableAI :: bool
  fg_aiProvider :: string
  fg_aiModel :: string
  fg_aiExplainModel :: string
  fg_dailyTokenLimit :: int
  fg_monthlyTokenLimit :: int
  fg_enableSecretChecker :: bool
  fg_maxSSEClients :: int
  fg_checkInterval :: duration
  fg_aiAnalysisTimeout :: duration
  fg_aiMaxIssues :: int
  fg_sseBufferSize :: int
  fg_historySize :: int
  fg_notifySemCapacity :: int
  fg_datasource :: string
  fg_consoleURL :: string
  fg_clusterID :: string
  fg_aiLogContext :: bool
  fg_maxEvents :: int
  fg_maxLines :: int
  fg_maxChars :: int
  fg_chatEnabled :: bool
  fg_chatMaxTurns :: int
  fg_chatTokenBudget :: int
  fg_chatSessionTTL :: duration
  fg_chatMaxSessions :: int

definition default_flags :: operator_flags where
  "default_flags =
     \<lparr>fg_metricsAddr = ''0'', fg_metricsCert = ([], ''tls.crt'', ''tls.key''), fg_webhookCert = ([], ''tls.crt'', ''tls.key''),
      fg_leaderElection = False, fg_probeAddr = '':8081'', fg_secureMetrics = True, fg_enableHTTP2 = False,
      fg_enableWebhooks = False, fg_enableDashboard = False, fg_dashboardAddr = '':9090'', fg_tlsCertFile = [], fg_tlsKeyFile = [],
      fg_enableAI = False, fg_aiProvider = ''noop'', fg_aiModel = [], fg_aiExplainModel = [], fg_dailyTokenLimit = 0,
      fg_monthlyTokenLimit = 0, fg_enableSecretChecker = True, fg_maxSSEClients = 100, fg_checkInterval = 30 * second,
      fg_aiAnalysisTimeout = 90 * second, fg_aiMaxIssues = 15, fg_sseBufferSize = 10, fg_historySize = 100,
      fg_notifySemCapacity = 5, fg_datasource = ''kubernetes'', fg_consoleURL = [], fg_clusterID = [], fg_aiLogContext = False,
      fg_maxEvents = 10, fg_maxLines = 50, fg_maxChars = 30000, fg_chatEnabled = False, fg_chatMaxTurns = 10,
      fg_chatTokenBudget = 50000, fg_chatSessionTTL = 30 * minute, fg_chatMaxSessions = 100\<rparr>"

section \<open>Servers of the library\<close>

text \<open>The protocols a TLS server offers; \<open>None\<close> leaves the choice to the library.\<close>

definition tls_protocols :: "operator_flags \<Rightarrow> string list option" where
  "tls_protocols f = (if fg_enableHTTP2 f then None else Some [''http/1.1''])"

definition certificate_of :: "string \<times> string \<times> string \<Rightarrow> (string \<times> string \<times> string) option" where
  "certificate_of cert = (if fst cert = [] then None else Some cert)"

record library_server =
  ls_BindAddress :: string
  ls_protocols :: "string list option"
  ls_certificate :: "(string \<times> string \<times> string) option"
  ls_SecureServing :: bool
  ls_authorized :: bool                \<comment> \<open>requests pass the authentication and authorization filter\<close>

definition metrics_server :: "operator_flags \<Rightarrow> library_server" where
  "metrics_server f = \<lparr>ls_BindAddress = fg_metricsAddr f, ls_protocols = tls_protocols f, ls_certificate = certificate_of (fg_metricsCert f),
     ls_SecureServing = fg_secureMetrics f, ls_authorized = fg_secureMetrics f\<rparr>"

definition webhook_server :: "operator_flags \<Rightarrow> library_server option" where
  "webhook_server f =
     (if fg_enableWebhooks f
      then Some \<lparr>ls_BindAddress = [], ls_protocols = tls_protocols f, ls_certificate = certificate_of (fg_webhookCert f),
        ls_SecureServing = True, ls_authorized = False\<rparr>
      else None)"

section \<open>Components\<close>

text \<open>What the process gets from outside: the environment, the client libraries, the clock, random bytes and the file with the
  namespace of the pod. \<open>ox_setup\<close> is the error of setting up a controller, a webhook or a probe.\<close>

record operator_env =
  ox_getenv :: "string \<Rightarrow> string"
  ox_now :: time
  ox_manager :: "string option"
  ox_clientset :: "string option"
  ox_setup :: "string \<Rightarrow> string option"
  ox_parse_url :: console_url_parser
  ox_namespace_file :: "string option"
  ox_checkers :: "string \<Rightarrow> bool \<times> check_outcome"
  ox_random :: string

datatype data_source = KubernetesSource | ConsoleSource console_source

definition choose_source :: "operator_env \<Rightarrow> operator_flags \<Rightarrow> string + data_source" where
  "choose_source env f =
     (if fg_datasource f = ''kubernetes'' then Inr KubernetesSource
      else if fg_datasource f = ''console''
      then if fg_consoleURL f = [] then Inl ''--console-url is required when --datasource=console''
        else case ValidateConsoleURL (ox_parse_url env) (fg_consoleURL f) of
          Some e \<Rightarrow> Inl (''invalid --console-url: '' @ e)
        | None \<Rightarrow>
            if fg_clusterID f = [] then Inl ''--cluster-id is required when --datasource=console''
            else case ValidateClusterID (fg_clusterID f) of
              Some e \<Rightarrow> Inl (''invalid --cluster-id: '' @ e)
            | None \<Rightarrow>
                (case NewConsole (ox_parse_url env) (fg_consoleURL f) (fg_clusterID f) (ox_getenv env ''CONSOLE_BEARER_TOKEN'') of
                   Inl e \<Rightarrow> Inl (''failed to create console datasource: '' @ e)
                 | Inr src \<Rightarrow> Inr (ConsoleSource src))
      else Inl ''unknown --datasource value'')"

definition checker_names :: "operator_flags \<Rightarrow> string list" where
  "checker_names f = [workload_CheckerName, HelmReleaseCheckerName, KustomizationCheckerName, GitRepositoryCheckerName] @
     (if fg_enableSecretChecker f then [SecretCheckerName] else []) @ [PVCCheckerName, QuotaCheckerName, NetworkPolicyCheckerName]"

text \<open>A name that is taken panics.\<close>

definition MustRegister :: "Checker \<Rightarrow> Registry option \<Rightarrow> Registry option" where
  "MustRegister c ro = Option.bind ro (\<lambda>r. case Register c r of (None, r') \<Rightarrow> Some r' | (Some e, _) \<Rightarrow> None)"

definition built_in :: "operator_env \<Rightarrow> string \<Rightarrow> Checker" where
  "built_in env name = \<lparr>ck_Name = name, ck_Supports = fst (ox_checkers env name), ck_Check = snd (ox_checkers env name)\<rparr>"

definition operator_registry :: "operator_env \<Rightarrow> operator_flags \<Rightarrow> Registry option" where
  "operator_registry env f = fold (\<lambda>n. MustRegister (built_in env n)) (checker_names f) (Some NewRegistry)"

definition ai_config :: "operator_env \<Rightarrow> operator_flags \<Rightarrow> Config" where
  "ai_config env f =
     (if fg_enableAI f
      then let from_env = ConfigFromEnv (ox_getenv env) in
        \<lparr>cf_Provider = fg_aiProvider f, cf_APIKey = cf_APIKey from_env, cf_Endpoint = [],
         cf_Model = or_else (fg_aiModel f) (cf_Model from_env), cf_MaxTokens = 0, cf_Timeout = 0, cf_MaxIssues = 0, cf_MinConfidence = 0,
         cf_ExplainModel = fg_aiExplainModel f, cf_DailyTokenLimit = fg_dailyTokenLimit f, cf_MonthlyTokenLimit = fg_monthlyTokenLimit f\<rparr>
      else DefaultConfig)"

definition start_ai :: "operator_env \<Rightarrow> operator_flags \<Rightarrow> string + Manager" where
  "start_ai env f =
     (case NewProvider (ox_getenv env) (ox_now env) (ai_config env f) of
        Inl e \<Rightarrow> Inl (''failed to create AI provider: '' @ e)
      | Inr (fast, explain, budget) \<Rightarrow>
          Inr (NewManager (Some fast) (Some explain) (fg_enableAI f) budget (Some (NewCache 100 (5 * minute) (fg_enableAI f)))
            (Some (NewCircuitBreaker 3 (5 * minute) False))))"

definition log_context :: "operator_flags \<Rightarrow> LogContextConfig option" where
  "log_context f =
     (if fg_aiLogContext f
      then Some \<lparr>lg_Enabled = True, lg_MaxEventsPerIssue = fg_maxEvents f, lg_MaxLogLines = fg_maxLines f, lg_MaxTotalChars = fg_maxChars f\<rparr>
      else None)"

text \<open>The permits taken and their number, as \<open>launchNotifications\<close> has them.\<close>

definition notify_semaphore :: "operator_flags \<Rightarrow> (nat \<times> nat) option" where
  "notify_semaphore f = (if fg_notifySemCapacity f > 0 then Some (0, nat (fg_notifySemCapacity f)) else None)"

definition resolvePodNamespace :: "operator_env \<Rightarrow> string" where
  "resolvePodNamespace env =
     (let ns = trim_space (ox_getenv env ''POD_NAMESPACE'') in
      if ns \<noteq> [] then ns else case ox_namespace_file env of None \<Rightarrow> [] | Some raw \<Rightarrow> trim_space raw)"

section \<open>The dashboard server\<close>

record dash_server =
  ds_chat :: chat_server
  ds_auth :: auth_server
  ds_addr :: string
  ds_checkTimeout :: duration
  ds_checkInterval :: duration
  ds_aiAnalysisTimeout :: duration
  ds_sseBufferSize :: int
  ds_clusterWorkers :: int
  ds_mutationLimiter :: "int \<times> int"
  ds_enrichQueueSize :: int
  ds_logContext :: "LogContextConfig option"
  ds_k8sWriter :: bool
  ds_running :: bool

definition ds_server :: "dash_server \<Rightarrow> server" where
  "ds_server d = cv_server (ds_chat d)"

definition set_server :: "(server \<Rightarrow> server) \<Rightarrow> dash_server \<Rightarrow> dash_server" where
  "set_server g d = d\<lparr>ds_chat := (ds_chat d)\<lparr>cv_server := g (cv_server (ds_chat d))\<rparr>\<rparr>"

definition NewServer :: "operator_env \<Rightarrow> string \<Rightarrow> dash_server" where
  "NewServer env addr =
     \<lparr>ds_chat = \<lparr>cv_server = \<lparr>sv_clusters = Map.empty, sv_clients = [], sv_provider = None, sv_enabled = False, sv_config = DefaultConfig,
          sv_queue = None, sv_historySize = 100, sv_maxIssues = 15, sv_maxClients = 100\<rparr>,
        cv_sessions = [], cv_heap = [], cv_enabled = False, cv_maxTurns = 0, cv_tokenBudget = 0, cv_sessionTTL = 0, cv_maxSessions = 0,
        cv_aiKey = [], cv_aiModel = [], cv_providerName = [], cv_endpoint = []\<rparr>,
      ds_auth = new_auth (ox_getenv env) (ox_random env), ds_addr = addr, ds_checkTimeout = 2 * minute, ds_checkInterval = 30 * second,
      ds_aiAnalysisTimeout = 90 * second, ds_sseBufferSize = 10, ds_clusterWorkers = parseClusterWorkers (ox_getenv env),
      ds_mutationLimiter = newMutationLimiter (ox_getenv env), ds_enrichQueueSize = 16, ds_logContext = None, ds_k8sWriter = False,
      ds_running = False\<rparr>"

definition WithAI :: "Manager \<Rightarrow> bool \<Rightarrow> dash_server \<Rightarrow> dash_server" where
  "WithAI m enabled = set_server (\<lambda>sv. sv\<lparr>sv_provider := Some (Managed m), sv_enabled := enabled,
     sv_config := (sv_config sv)\<lparr>cf_Provider := (case Name m of None \<Rightarrow> [] | Some n \<Rightarrow> n)\<rparr>\<rparr>)"

definition WithMaxSSEClients :: "int \<Rightarrow> dash_server \<Rightarrow> dash_server" where
  "WithMaxSSEClients n = set_server (\<lambda>sv. if n \<ge> 0 then sv\<lparr>sv_maxClients := n\<rparr> else sv)"

definition WithCheckInterval :: "duration \<Rightarrow> dash_server \<Rightarrow> dash_server" where
  "WithCheckInterval t d = (if t > 0 then d\<lparr>ds_checkInterval := t\<rparr> else d)"

definition WithAIAnalysisTimeout :: "duration \<Rightarrow> dash_server \<Rightarrow> dash_server" where
  "WithAIAnalysisTimeout t d = (if t > 0 then d\<lparr>ds_aiAnalysisTimeout := t\<rparr> else d)"

definition WithMaxIssuesPerBatch :: "int \<Rightarrow> dash_server \<Rightarrow> dash_server" where
  "WithMaxIssuesPerBatch n = set_server (\<lambda>sv. if n > 0 then sv\<lparr>sv_maxIssues := n\<rparr> else sv)"

definition WithSSEBufferSize :: "int \<Rightarrow> dash_server \<Rightarrow> dash_server" where
  "WithSSEBufferSize n d = (if n > 0 then d\<lparr>ds_sseBufferSize := n\<rparr> else d)"

definition WithHistorySize :: "int \<Rightarrow> dash_server \<Rightarrow> dash_server" where
  "WithHistorySize n = set_server (\<lambda>sv. if n > 0 then sv\<lparr>sv_historySize := n\<rparr> else sv)"

definition WithEnrichmentQueueSize :: "int \<Rightarrow> dash_server \<Rightarrow> dash_server" where
  "WithEnrichmentQueueSize n d = (if n > 0 then d\<lparr>ds_enrichQueueSize := n\<rparr> else d)"

definition WithLogContext :: "LogContextConfig option \<Rightarrow> dash_server \<Rightarrow> dash_server" where
  "WithLogContext cfg d = d\<lparr>ds_logContext := cfg\<rparr>"

definition WithK8sWriter :: "dash_server \<Rightarrow> dash_server" where
  "WithK8sWriter d = d\<lparr>ds_k8sWriter := True\<rparr>"

definition WithChat :: "bool \<Rightarrow> int \<Rightarrow> int \<Rightarrow> int \<Rightarrow> duration \<Rightarrow> dash_server \<Rightarrow> dash_server" where
  "WithChat enabled turns budget sessions ttl d =
     d\<lparr>ds_chat := (ds_chat d)\<lparr>cv_enabled := enabled, cv_maxTurns := turns, cv_tokenBudget := budget, cv_maxSessions := sessions,
       cv_sessionTTL := ttl, cv_sessions := []\<rparr>\<rparr>"

definition WithChatAIConfig :: "string \<Rightarrow> string \<Rightarrow> string \<Rightarrow> string \<Rightarrow> dash_server \<Rightarrow> dash_server" where
  "WithChatAIConfig provider key model endpoint d =
     d\<lparr>ds_chat := (ds_chat d)\<lparr>cv_providerName := provider, cv_aiKey := key, cv_aiModel := model, cv_endpoint := endpoint\<rparr>\<rparr>"

definition secured :: "string \<Rightarrow> string \<Rightarrow> dash_server \<Rightarrow> dash_server" where
  "secured cert key d = d\<lparr>ds_auth := WithTLS cert key (ds_auth d)\<rparr>"

definition dashboard_of :: "operator_env \<Rightarrow> operator_flags \<Rightarrow> Manager \<Rightarrow> dash_server" where
  "dashboard_of env f m =
     (let d = (WithLogContext (log_context f) \<circ> WithHistorySize (fg_historySize f) \<circ> WithSSEBufferSize (fg_sseBufferSize f) \<circ>
            WithMaxIssuesPerBatch (fg_aiMaxIssues f) \<circ> WithAIAnalysisTimeout (fg_aiAnalysisTimeout f) \<circ>
            WithCheckInterval (fg_checkInterval f) \<circ> WithMaxSSEClients (fg_maxSSEClients f) \<circ> WithAI m (fg_enableAI f))
            (NewServer env (fg_dashboardAddr f));
          d1 = (if fg_datasource f = ''kubernetes'' then WithK8sWriter d else d);
          cfg = ai_config env f;
          d2 = (if fg_chatEnabled f
            then WithChatAIConfig (cf_Provider cfg) (cf_APIKey cfg) (cf_Model cfg) (cf_Endpoint cfg)
              (WithChat True (fg_chatMaxTurns f) (fg_chatTokenBudget f) (fg_chatMaxSessions f) (fg_chatSessionTTL f) d1)
            else d1)
      in if fg_tlsCertFile f \<noteq> [] \<and> fg_tlsKeyFile f \<noteq> [] then secured (fg_tlsCertFile f) (fg_tlsKeyFile f) d2 else d2)"

text \<open>What \<open>Start\<close> leaves running next to the listener.\<close>

datatype background = AuthCleanup | ChatCleanup | IssueStateCleanup | EnrichmentWorker | HealthChecker

definition dashboard_start :: "operator_env \<Rightarrow> dash_server \<Rightarrow> string + (dash_server \<times> background list)" where
  "dashboard_start env d =
     (case validateSecurityConfig (ox_getenv env) (ds_auth d) of
        Some e \<Rightarrow> Inl e
      | None \<Rightarrow> Inr (set_server (\<lambda>sv. sv\<lparr>sv_queue := Some (newEnrichmentQueue (ds_enrichQueueSize d))\<rparr>) (d\<lparr>ds_running := True\<rparr>),
          (if au_authToken (ds_auth d) \<noteq> [] then [AuthCleanup] else []) @ (if cv_enabled (ds_chat d) then [ChatCleanup] else []) @
          [IssueStateCleanup, EnrichmentWorker, HealthChecker]))"

section \<open>The process\<close>

record operator =
  op_source :: data_source
  op_registry :: Registry
  op_manager :: Manager
  op_logContext :: "LogContextConfig option"
  op_notifySem :: "(nat \<times> nat) option"
  op_secretNamespace :: string
  op_metrics :: library_server
  op_webhooks :: "library_server option"
  op_dashboard :: "(string + dash_server \<times> background list) option"

fun first_error :: "(string \<Rightarrow> string option) \<Rightarrow> string list \<Rightarrow> string option" where
  "first_error setup [] = None"
| "first_error setup (n # ns) = (case setup n of None \<Rightarrow> first_error setup ns | Some e \<Rightarrow> Some e)"

definition setup_order :: "operator_flags \<Rightarrow> string list" where
  "setup_order f = [''controller TroubleshootRequest'', ''controller TeamHealthRequest'', ''controller CheckPlugin''] @
     (if fg_enableWebhooks f then [''webhook TroubleshootRequest'', ''webhook TeamHealthRequest'', ''webhook CheckPlugin''] else []) @
     [''healthz'', ''readyz'']"

text \<open>An error exits the process, except that of the dashboard, which is only logged. A panic is an error here.\<close>

definition operator_start :: "operator_env \<Rightarrow> operator_flags \<Rightarrow> string + operator" where
  "operator_start env f =
     (case ox_manager env of
        Some e \<Rightarrow> Inl (''unable to start manager: '' @ e)
      | None \<Rightarrow>
      (case choose_source env f of
         Inl e \<Rightarrow> Inl e
       | Inr src \<Rightarrow>
       (case ox_clientset env of
          Some e \<Rightarrow> Inl (''unable to create kubernetes clientset: '' @ e)
        | None \<Rightarrow>
        (case operator_registry env f of
           None \<Rightarrow> Inl ''panic''
         | Some registry \<Rightarrow>
         (case start_ai env f of
            Inl e \<Rightarrow> Inl e
          | Inr m \<Rightarrow>
          (case first_error (ox_setup env) (setup_order f) of
             Some e \<Rightarrow> Inl e
           | None \<Rightarrow>
              Inr \<lparr>op_source = src, op_registry = registry, op_manager = m, op_logContext = log_context f,
                op_notifySem = notify_semaphore f, op_secretNamespace = resolvePodNamespace env, op_metrics = metrics_server f,
                op_webhooks = webhook_server f,
                op_dashboard = (if fg_enableDashboard f then Some (dashboard_start env (dashboard_of env f m)) else None)\<rparr>))))))"

section \<open>What the process starts with\<close>

lemma MustRegister_new: "map_of r n = None \<Longrightarrow> MustRegister (built_in env n) (Some r) = Some (r @ [(n, built_in env n)])"
proof -
  assume a: "map_of r n = None"
  have "AList.update n v r = r @ [(n, v)]" for v using a by (induction r) (auto split: if_splits)
  then show ?thesis using a by (simp add: MustRegister_def Register_def built_in_def)
qed

lemma register_all:
  "distinct (map fst r @ ns) \<Longrightarrow>
   fold (\<lambda>n. MustRegister (built_in env n)) ns (Some r) = Some (r @ map (\<lambda>n. (n, built_in env n)) ns)"
proof (induction ns arbitrary: r)
  case (Cons n ns)
  then have "map_of r n = None" by (auto simp: map_of_eq_None_iff)
  moreover have "distinct (map fst (r @ [(n, built_in env n)]) @ ns)" using Cons.prems by auto
  ultimately show ?case using Cons.IH [of "r @ [(n, built_in env n)]"] by (simp add: MustRegister_new)
qed simp

lemma checker_names_distinct: "distinct (checker_names f)"
  by (simp add: checker_names_def workload_CheckerName_def HelmReleaseCheckerName_def KustomizationCheckerName_def
      GitRepositoryCheckerName_def SecretCheckerName_def PVCCheckerName_def QuotaCheckerName_def NetworkPolicyCheckerName_def)

text \<open>No built-in checker is registered twice, so the process does not panic, and it knows exactly these checkers.\<close>

lemma operator_registry_names: "operator_registry env f = Some (map (\<lambda>n. (n, built_in env n)) (checker_names f))"
  using register_all [of NewRegistry "checker_names f" env] checker_names_distinct
  by (simp add: operator_registry_def NewRegistry_def)

section \<open>Settings on a started operator\<close>

definition provider_kinds :: "string set" where
  "provider_kinds = {ProviderNameNoop, ProviderNameOpenAI, ProviderNameAnthropic}"

lemma kind_lower: "p \<in> provider_kinds \<Longrightarrow> to_lower p = p"
proof -
  have "to_lower ProviderNameNoop = ProviderNameNoop" "to_lower ProviderNameOpenAI = ProviderNameOpenAI"
    "to_lower ProviderNameAnthropic = ProviderNameAnthropic" by (simp_all add: provider_names lower_names)
  then show "p \<in> provider_kinds \<Longrightarrow> to_lower p = p" by (auto simp: provider_kinds_def)
qed

lemma created_kind:
  assumes "fst (createSingleProvider getenv config) = Inr p"
  shows "provider_Name p \<in> provider_kinds"
  using assms by (cases rule: createSingleProvider_cases)
    (simp_all add: provider_kinds_def NewOpenAIProvider_def NewAnthropicProvider_def Let_def provider_names)

text \<open>Without a key only the static provider is available.\<close>

lemma created_without_key:
  assumes "fst (createSingleProvider getenv config) = Inr p" "cf_APIKey config = []"
  shows "provider_Available p \<longleftrightarrow> to_lower (cf_Provider config) \<in> {ProviderNameNoop, []}"
proof -
  have r: "resolve_api_key getenv [] = []" by (simp add: resolve_api_key_def)
  from assms(1) show ?thesis
    by (cases rule: createSingleProvider_cases)
      (simp_all add: r assms(2) NewOpenAIProvider_def NewAnthropicProvider_def Let_def provider_names)
qed

text \<open>A server behind a manager, with a known provider and without a key in its configuration.\<close>

definition keyless :: "server \<Rightarrow> bool" where
  "keyless sv \<longleftrightarrow> cf_APIKey (sv_config sv) = [] \<and> cf_Provider (sv_config sv) \<in> provider_kinds \<and> (\<exists>m. sv_provider sv = Some (Managed m))"

lemma start_ai_name:
  assumes "start_ai env f = Inr m"
  shows "\<exists>n \<in> provider_kinds. Name m = Some n"
proof -
  obtain fast explain budget where "NewProvider (ox_getenv env) (ox_now env) (ai_config env f) = Inr (fast, explain, budget)" "Name m = Some (provider_Name fast)"
    using assms by (auto simp: start_ai_def NewManager_def Name_def Let_def split: sum.splits)
  then show ?thesis using created_kind [of "ox_getenv env" "ai_config env f" fast]
    by (auto simp: NewProvider_def Let_def split: sum.splits if_splits)
qed

text \<open>What each option changes.\<close>

lemma with_rest [simp]:
  "ds_chat (WithLogContext lc d) = ds_chat d"
  "ds_auth (WithLogContext lc d) = ds_auth d"
  "ds_chat (WithSSEBufferSize n d) = ds_chat d"
  "ds_auth (WithSSEBufferSize n d) = ds_auth d"
  "ds_chat (WithAIAnalysisTimeout t d) = ds_chat d"
  "ds_auth (WithAIAnalysisTimeout t d) = ds_auth d"
  "ds_chat (WithCheckInterval t d) = ds_chat d"
  "ds_auth (WithCheckInterval t d) = ds_auth d"
  "ds_chat (WithK8sWriter d) = ds_chat d"
  "ds_auth (WithK8sWriter d) = ds_auth d"
  "ds_chat (WithEnrichmentQueueSize n d) = ds_chat d"
  "ds_auth (WithEnrichmentQueueSize n d) = ds_auth d"
  "ds_enrichQueueSize (WithLogContext lc d) = ds_enrichQueueSize d"
  "ds_enrichQueueSize (WithSSEBufferSize n d) = ds_enrichQueueSize d"
  "ds_enrichQueueSize (WithAIAnalysisTimeout t d) = ds_enrichQueueSize d"
  "ds_enrichQueueSize (WithCheckInterval t d) = ds_enrichQueueSize d"
  "ds_enrichQueueSize (WithK8sWriter d) = ds_enrichQueueSize d"
  by (simp_all add: WithLogContext_def WithSSEBufferSize_def WithAIAnalysisTimeout_def WithCheckInterval_def WithK8sWriter_def WithEnrichmentQueueSize_def)

lemma with_server [simp]:
  "ds_auth (WithAI m e d) = ds_auth d"
  "ds_enrichQueueSize (WithAI m e d) = ds_enrichQueueSize d"
  "ds_auth (WithMaxSSEClients n d) = ds_auth d"
  "ds_enrichQueueSize (WithMaxSSEClients n d) = ds_enrichQueueSize d"
  "ds_auth (WithMaxIssuesPerBatch n d) = ds_auth d"
  "ds_enrichQueueSize (WithMaxIssuesPerBatch n d) = ds_enrichQueueSize d"
  "ds_auth (WithHistorySize n d) = ds_auth d"
  "ds_enrichQueueSize (WithHistorySize n d) = ds_enrichQueueSize d"
  "ds_chat (WithAI m e d) = (ds_chat d)\<lparr>cv_server := (cv_server (ds_chat d))\<lparr>sv_provider := Some (Managed m), sv_enabled := e,
     sv_config := (sv_config (cv_server (ds_chat d)))\<lparr>cf_Provider := (case Name m of None \<Rightarrow> [] | Some n \<Rightarrow> n)\<rparr>\<rparr>\<rparr>"
  "ds_chat (WithMaxSSEClients n d) = (ds_chat d)\<lparr>cv_server := (cv_server (ds_chat d))\<lparr>sv_maxClients := if n \<ge> 0 then n else sv_maxClients (cv_server (ds_chat d))\<rparr>\<rparr>"
  "ds_chat (WithMaxIssuesPerBatch n d) = (ds_chat d)\<lparr>cv_server := (cv_server (ds_chat d))\<lparr>sv_maxIssues := if n > 0 then n else sv_maxIssues (cv_server (ds_chat d))\<rparr>\<rparr>"
  "ds_chat (WithHistorySize n d) = (ds_chat d)\<lparr>cv_server := (cv_server (ds_chat d))\<lparr>sv_historySize := if n > 0 then n else sv_historySize (cv_server (ds_chat d))\<rparr>\<rparr>"
  by (simp_all add: set_server_def WithAI_def WithMaxSSEClients_def WithMaxIssuesPerBatch_def WithHistorySize_def)

lemma with_chat [simp]:
  "ds_auth (WithChat e n b k t d) = ds_auth d"
  "ds_enrichQueueSize (WithChat e n b k t d) = ds_enrichQueueSize d"
  "ds_auth (WithChatAIConfig a kk nn ee d) = ds_auth d"
  "ds_enrichQueueSize (WithChatAIConfig a kk nn ee d) = ds_enrichQueueSize d"
  "ds_chat (WithChat e n b k t d) = (ds_chat d)\<lparr>cv_enabled := e, cv_maxTurns := n, cv_tokenBudget := b, cv_maxSessions := k, cv_sessionTTL := t, cv_sessions := []\<rparr>"
  "ds_chat (WithChatAIConfig a kk nn ee d) = (ds_chat d)\<lparr>cv_providerName := a, cv_aiKey := kk, cv_aiModel := nn, cv_endpoint := ee\<rparr>"
  "ds_chat (secured c q d) = ds_chat d"
  "ds_enrichQueueSize (secured c q d) = ds_enrichQueueSize d"
  "ds_auth (secured c q d) = WithTLS c q (ds_auth d)"
  by (simp_all add: WithChat_def WithChatAIConfig_def secured_def)

lemma dashboard_of_server:
  "sv_provider (ds_server (dashboard_of env f m)) = Some (Managed m)"
  "sv_config (ds_server (dashboard_of env f m)) = DefaultConfig\<lparr>cf_Provider := (case Name m of None \<Rightarrow> [] | Some n \<Rightarrow> n)\<rparr>"
  "sv_clusters (ds_server (dashboard_of env f m)) = Map.empty" "sv_clients (ds_server (dashboard_of env f m)) = []"
  "sv_historySize (ds_server (dashboard_of env f m)) = (if fg_historySize f > 0 then fg_historySize f else 100)"
  "sv_maxIssues (ds_server (dashboard_of env f m)) = (if fg_aiMaxIssues f > 0 then fg_aiMaxIssues f else 15)"
  "sv_maxClients (ds_server (dashboard_of env f m)) = (if fg_maxSSEClients f \<ge> 0 then fg_maxSSEClients f else 100)"
  by (simp_all add: ds_server_def dashboard_of_def NewServer_def Let_def)

lemma dashboard_of_rest:
  "cv_sessions (ds_chat (dashboard_of env f m)) = []" "cv_heap (ds_chat (dashboard_of env f m)) = []"
  "cv_enabled (ds_chat (dashboard_of env f m)) = fg_chatEnabled f"
  "au_authToken (ds_auth (dashboard_of env f m)) = ox_getenv env ''DASHBOARD_AUTH_TOKEN''"
  "au_sessions (ds_auth (dashboard_of env f m)) = Map.empty" "ds_enrichQueueSize (dashboard_of env f m) = 16"
  by (simp_all add: dashboard_of_def NewServer_def Let_def new_auth_def WithTLS_def)

lemma dashboard_started:
  assumes "dashboard_start env d0 = Inr (d, bg)"
  shows "ds_server d = (ds_server d0)\<lparr>sv_queue := Some (newEnrichmentQueue (ds_enrichQueueSize d0))\<rparr>" "ds_auth d = ds_auth d0"
    "validateSecurityConfig (ox_getenv env) (ds_auth d0) = None" "cv_sessions (ds_chat d) = cv_sessions (ds_chat d0)"
    "cv_heap (ds_chat d) = cv_heap (ds_chat d0)" "ds_running d"
  using assms by (auto simp: dashboard_start_def set_server_def ds_server_def split: option.splits)

lemma operator_start_dashboard:
  assumes "operator_start env f = Inr op" "op_dashboard op = Some (Inr (d, bg))"
  obtains m where "start_ai env f = Inr m" "op_manager op = m" "dashboard_start env (dashboard_of env f m) = Inr (d, bg)"
  using assms by (auto simp: operator_start_def split: option.splits sum.splits if_splits)

definition dashboard_pipeline :: "dash_server \<Rightarrow> pipeline" where
  "dashboard_pipeline d = \<lparr>pl_server = ds_server d, pl_checks = Map.empty, pl_begun = {}, pl_worker = None,
     pl_checked = Map.empty, pl_advice = (\<lambda>_. {}), pl_overlap = {}, pl_mixed = {}\<rparr>"

lemma started_keyless:
  assumes "operator_start env f = Inr op" "op_dashboard op = Some (Inr (d, bg))"
  shows "keyless (pl_server (dashboard_pipeline d))"
proof -
  obtain m where m: "start_ai env f = Inr m" "dashboard_start env (dashboard_of env f m) = Inr (d, bg)"
    using operator_start_dashboard [OF assms] by blast
  then show ?thesis
    using start_ai_name [OF m(1)] dashboard_started(1) [OF m(2)]
    by (auto simp: dashboard_pipeline_def keyless_def dashboard_of_server DefaultConfig_def)
qed

text \<open>Only settings change the configuration and the provider.\<close>

definition same_settings :: "server \<Rightarrow> server \<Rightarrow> bool" where
  "same_settings sv sv' \<longleftrightarrow> sv_config sv' = sv_config sv \<and> sv_provider sv' = sv_provider sv"

lemma same_settings_keyless: "same_settings sv sv' \<Longrightarrow> keyless sv \<Longrightarrow> keyless sv'"
  by (simp add: same_settings_def keyless_def)

lemma broadcast_settings [simp]:
  "sv_config (broadcastUpdate c u sv) = sv_config sv" "sv_provider (broadcastUpdate c u sv) = sv_provider sv"
  "sv_config (put_cluster c cs sv) = sv_config sv" "sv_provider (put_cluster c cs sv) = sv_provider sv"
  by (simp_all add: broadcastUpdate_def put_cluster_def)

lemma phase_same_settings [simp]:
  "sv_config (broadcastPhase c ph sv) = sv_config sv" "sv_provider (broadcastPhase c ph sv) = sv_provider sv"
  by (simp_all add: broadcastPhase_def Let_def split: option.split)

lemma queue_full_settings [simp]:
  "sv_config (queue_full cu sv) = sv_config sv" "sv_provider (queue_full cu sv) = sv_provider sv"
  by (simp_all add: queue_full_def Let_def split: option.split)

lemma finish_settings [simp]:
  "sv_config (finish_enrichment r res sv) = sv_config sv" "sv_provider (finish_enrichment r res sv) = sv_provider sv"
  by (simp_all add: finish_enrichment_def Let_def split: option.split)

lemma release_same_settings: "release_cluster ord c sv = Some sv' \<Longrightarrow> same_settings sv sv'"
  by (auto simp: release_cluster_def same_settings_def split: option.splits)

lemma stage_settings:
  "collect_check env c sv = (cu, sv') \<Longrightarrow> same_settings sv sv'"
  "number_check cu0 sv = (cu, sv') \<Longrightarrow> same_settings sv sv'"
  "plan_check digest cu0 sv = Some (cu, sv') \<Longrightarrow> same_settings sv sv'"
  "store_check digest env cu0 sv = Some (cu, sv') \<Longrightarrow> same_settings sv sv'"
  "record_check cu sv = Some sv' \<Longrightarrow> same_settings sv sv'"
  "enqueue_check digest env cu sv = Some sv' \<Longrightarrow> same_settings sv sv'"
  by (auto simp: collect_check_def number_check_def plan_check_def store_check_def record_check_def enqueue_check_def same_settings_def
      Let_def split: prod.splits bind_splits option.splits if_splits)

text \<open>An accepted change of the settings on a server without a key.\<close>

lemma settings_keyless:
  assumes "handlePostAISettings getenv now b sv = Some (HttpOk code resp, sv')" "keyless sv"
  shows "keyless sv' \<and> \<not> sr_HasAPIKey resp \<and> (sr_ProviderReady resp \<longleftrightarrow> sr_Provider resp = ProviderNameNoop) \<and>
    (\<exists>m. sv_provider sv' = Some (Managed m) \<and> (Available m = Some True \<longleftrightarrow> sr_Enabled resp \<and> sr_Provider resp = ProviderNameNoop))"
proof -
  obtain m where m: "sv_provider sv = Some (Managed m)" using assms(2) by (auto simp: keyless_def)
  obtain req p ready where req: "settings_error req = None" "new_provider getenv now req (staged_config req (sv_config sv)) (sv_provider sv) = Inr p"
    "provider_ready p = Some ready" "resp = settings_response req (staged_config req (sv_config sv)) ready"
    "sv' = commit_settings req (staged_config req (sv_config sv)) p sv"
    using assms(1) by (auto simp: handlePostAISettings_def Let_def split: sum.splits option.splits)
  let ?cfg = "staged_config req (sv_config sv)"
  have kind: "cf_Provider ?cfg \<in> provider_kinds" "cf_APIKey ?cfg = []"
    using assms(2) req(1) by (auto simp: staged_config_def keyless_def settings_error_def provider_kinds_def provider_names split: if_splits)
  let ?new = "\<lparr>cf_Provider = cf_Provider ?cfg, cf_APIKey = cf_APIKey ?cfg, cf_Endpoint = [], cf_Model = cf_Model ?cfg, cf_MaxTokens = 0,
    cf_Timeout = 0, cf_MaxIssues = 0, cf_MinConfidence = 0, cf_ExplainModel = cf_ExplainModel ?cfg, cf_DailyTokenLimit = 0, cf_MonthlyTokenLimit = 0\<rparr>"
  obtain m' where m': "Reconfigure getenv now (cf_Provider ?cfg) (cf_APIKey ?cfg) (cf_Model ?cfg) (cf_ExplainModel ?cfg) m = (None, m')"
    "p = Managed (SetEnabled (sq_Enabled req) m')"
    using req(2) m by (auto simp: new_provider_def split: prod.splits option.splits)
  then obtain q where q: "mg_provider m' = Some q" "fst (createSingleProvider getenv ?new) = Inr q"
    by (auto simp: Reconfigure_def NewProvider_def Let_def split: sum.splits prod.splits if_splits)
  have avail: "provider_Available q \<longleftrightarrow> cf_Provider ?cfg = ProviderNameNoop"
    using created_without_key [OF q(2)] kind kind_lower [OF kind(1)] by (auto simp: provider_kinds_def provider_names)
  show ?thesis
    using req m' q(1) avail kind
    by (auto simp: settings_response_def commit_settings_def keyless_def SetEnabled_def ProviderAvailable_def Available_def split: if_splits)
qed

lemma keyless_flow:
  assumes "flow digest p p'" "keyless (pl_server p)"
  shows "keyless (pl_server p')"
  using assms(1)
proof cases
  case (settings getenv now b response sv)
  show ?thesis
  proof (cases response)
    case (HttpOk code resp)
    then show ?thesis using settings settings_keyless [OF _ assms(2)] by simp
  next
    case (HttpError code e)
    then have "sv = pl_server p" using settings(2)
      by (auto simp: handlePostAISettings_def Let_def split: sum.splits option.splits)
    then show ?thesis using settings assms(2) by simp
  qed
next
  case (finish r ord reply result sv)
  have "same_settings (pl_server p) sv" using release_same_settings [OF finish(5)] by (simp add: same_settings_def)
  then show ?thesis using finish(1) same_settings_keyless assms(2) by simp
next
  case (subscription c slots sv)
  then show ?thesis using assms(2) by (auto simp: subscribe_def keyless_def split: if_splits)
qed (use assms(2) in \<open>auto simp: at_stage_def keyless_def dest!: stage_settings release_same_settings simp: same_settings_def\<close>)

text \<open>C7. A change of the AI settings cuts a running operator off from its provider: however the dashboard of a started operator
  has run, when it accepts new settings, the configuration that it stages has no API key (the one from the environment went
  only into the first provider, and a request must not carry one), so the manager that the controllers share is
  available afterwards only when the static provider was chosen.\<close>

theorem settings_cut_off_provider:
  assumes "operator_start env f = Inr op" "op_dashboard op = Some (Inr (d, bg))" "(flow digest)\<^sup>*\<^sup>* (dashboard_pipeline d) p"
    and "handlePostAISettings getenv now b (pl_server p) = Some (HttpOk code resp, sv)"
  shows "\<not> sr_HasAPIKey resp \<and> (sr_ProviderReady resp \<longleftrightarrow> sr_Provider resp = ProviderNameNoop) \<and>
    (\<exists>m. sv_provider sv = Some (Managed m) \<and> (Available m = Some True \<longleftrightarrow> sr_Enabled resp \<and> sr_Provider resp = ProviderNameNoop))"
proof -
  from assms(3) have "keyless (pl_server p)"
    by (induction rule: rtranclp_induct) (auto intro: keyless_flow started_keyless [OF assms(1,2)])
  then show ?thesis using settings_keyless [OF assms(4)] by blast
qed

section \<open>A started dashboard\<close>

text \<open>C8. The dashboard that an operator starts is fresh, sized sensibly whatever the flags say, and protected: the system of its checks
  and that of its chat start in the states from which their invariants are proved, the queue and the history have room,
  and it serves only when a token is set, and then with TLS or the explicit permission to do without, or when running without
  authentication was allowed explicitly.\<close>

theorem started_dashboard_safe:
  assumes "operator_start env f = Inr op" "op_dashboard op = Some (Inr (d, bg))"
  shows "fresh_pipeline (dashboard_pipeline d) \<and>
    fresh_chat \<lparr>cy_chat = ds_chat d, cy_handlers = Map.empty, cy_expired = [], cy_log = (\<lambda>_. [])\<rparr> \<and>
    sv_historySize (ds_server d) > 0 \<and> sv_maxIssues (ds_server d) > 0 \<and> sv_maxClients (ds_server d) \<ge> 0 \<and>
    pred_option (\<lambda>q. qu_capacity q > 0) (sv_queue (ds_server d)) \<and> au_sessions (ds_auth d) = Map.empty \<and>
    (if au_authToken (ds_auth d) = [] then parseBoolEnv (ox_getenv env) ''DASHBOARD_ALLOW_UNAUTHENTICATED_DASHBOARD''
     else AuthCleanup \<in> set bg \<and> (tlsConfigured (ds_auth d) \<or> au_allowInsecureHTTP (ds_auth d)))"
proof -
  obtain m where m: "dashboard_start env (dashboard_of env f m) = Inr (d, bg)"
    using operator_start_dashboard [OF assms] by blast
  note s = dashboard_started [OF m]
  have "au_authToken (ds_auth d) \<noteq> [] \<Longrightarrow> AuthCleanup \<in> set bg"
    using m s(2) by (auto simp: dashboard_start_def split: option.splits)
  then show ?thesis
    using s by (auto simp: fresh_pipeline_def dashboard_pipeline_def fresh_chat_def dashboard_of_server dashboard_of_rest
        newEnrichmentQueue_def validateSecurityConfig_def split: if_splits)
qed

section \<open>Witnesses\<close>

definition ex_getenv :: "string \<Rightarrow> string" where
  "ex_getenv n = (if n = ''KUBE_ASSIST_AI_API_KEY'' then ''key''
     else if n = ''DASHBOARD_ALLOW_UNAUTHENTICATED_DASHBOARD'' then ''true'' else [])"

definition ex_operator_env :: operator_env where
  "ex_operator_env = \<lparr>ox_getenv = ex_getenv, ox_now = 0, ox_manager = None, ox_clientset = None, ox_setup = (\<lambda>_. None),
     ox_parse_url = (\<lambda>u. Inl u), ox_namespace_file = None, ox_checkers = (\<lambda>n. (True, CheckFailed n)), ox_random = ''r''\<rparr>"

definition ex_flags :: operator_flags where
  "ex_flags = default_flags\<lparr>fg_enableDashboard := True, fg_enableAI := True, fg_aiProvider := ''anthropic''\<rparr>"

definition ex_settings :: AISettingsRequest where
  "ex_settings = \<lparr>sq_Enabled = True, sq_Provider = [], sq_APIKey = [], sq_ClearAPIKey = False, sq_Model = ''claude'', sq_ExplainModel = []\<rparr>"

lemma ex_started_ai: "\<exists>m. start_ai ex_operator_env ex_flags = Inr m \<and> Available m = Some True \<and> Name m = Some ''anthropic''"
  by (simp add: start_ai_def ai_config_def ex_flags_def ex_operator_env_def default_flags_def ConfigFromEnv_def DefaultConfig_def or_else_def
      ex_getenv_def NewProvider_def createSingleProvider_def lower_names provider_names Let_def NewAnthropicProvider_def
      resolve_api_key_def NewManager_def Available_def Name_def)

lemma ex_unauthenticated: "parseBoolEnv ex_getenv ''DASHBOARD_ALLOW_UNAUTHENTICATED_DASHBOARD''"
  by (simp add: parseBoolEnv_def ex_getenv_def trim_space_values parse_bool_def)

lemma ex_operator:
  "\<exists>op d bg m. operator_start ex_operator_env ex_flags = Inr op \<and> op_dashboard op = Some (Inr (d, bg)) \<and> op_manager op = m \<and>
     Available m = Some True \<and> Name m = Some ''anthropic'' \<and> sv_provider (ds_server d) = Some (Managed m) \<and>
     sv_config (ds_server d) = DefaultConfig\<lparr>cf_Provider := ''anthropic''\<rparr>"
proof -
  obtain m where m: "start_ai ex_operator_env ex_flags = Inr m" "Available m = Some True" "Name m = Some ''anthropic''"
    using ex_started_ai by blast
  have src: "choose_source ex_operator_env ex_flags = Inr KubernetesSource" by (simp add: choose_source_def ex_flags_def default_flags_def)
  have "validateSecurityConfig ex_getenv (ds_auth (dashboard_of ex_operator_env ex_flags m)) = None"
    using ex_unauthenticated by (simp add: validateSecurityConfig_def dashboard_of_rest ex_operator_env_def ex_getenv_def)
  then obtain d bg where d: "dashboard_start ex_operator_env (dashboard_of ex_operator_env ex_flags m) = Inr (d, bg)"
    by (simp add: dashboard_start_def ex_operator_env_def)
  have ok: "first_error (\<lambda>_. None) ns = None" for ns by (induction ns) auto
  have "\<exists>op. operator_start ex_operator_env ex_flags = Inr op \<and> op_dashboard op = Some (Inr (d, bg)) \<and> op_manager op = m"
    using src m(1) d ok
    by (simp add: operator_start_def operator_registry_names ex_operator_env_def) (simp add: ex_flags_def)
  then show ?thesis using m(2,3) dashboard_started(1) [OF d] by (auto simp: dashboard_of_server)
qed

lemma settings_cut_off_provider_witness:
  "\<exists>op d bg resp sv m. operator_start ex_operator_env ex_flags = Inr op \<and> op_dashboard op = Some (Inr (d, bg)) \<and>
     Available (op_manager op) = Some True \<and>
     handlePostAISettings ex_getenv 0 (Body ex_settings) (ds_server d) = Some (HttpOk 200 resp, sv) \<and>
     sr_Provider resp = ''anthropic'' \<and> sr_Enabled resp \<and> sv_provider sv = Some (Managed m) \<and> Available m \<noteq> Some True"
proof -
  obtain op d bg m where o': "operator_start ex_operator_env ex_flags = Inr op" "op_dashboard op = Some (Inr (d, bg))" "op_manager op = m"
    "Available m = Some True" "sv_provider (ds_server d) = Some (Managed m)"
    "sv_config (ds_server d) = DefaultConfig\<lparr>cf_Provider := ''anthropic''\<rparr>"
    using ex_operator by blast
  have "\<exists>resp sv. handlePostAISettings ex_getenv 0 (Body ex_settings) (ds_server d) = Some (HttpOk 200 resp, sv) \<and>
      sr_Provider resp = ''anthropic'' \<and> sr_Enabled resp"
    by (simp add: handlePostAISettings_def decodeJSONBody_def ex_settings_def settings_error_def maxModelLen_def lower_names
        staged_config_def o'(5,6) new_provider_def Reconfigure_def NewProvider_def createSingleProvider_def DefaultConfig_def provider_names
        Let_def NewAnthropicProvider_def resolve_api_key_def SetEnabled_def ProviderAvailable_def settings_response_def)
  then obtain resp sv where p: "handlePostAISettings ex_getenv 0 (Body ex_settings) (ds_server d) = Some (HttpOk 200 resp, sv)"
    "sr_Provider resp = ''anthropic''" "sr_Enabled resp" by blast
  have "pl_server (dashboard_pipeline d) = ds_server d" by (simp add: dashboard_pipeline_def)
  with p(1) have "handlePostAISettings ex_getenv 0 (Body ex_settings) (pl_server (dashboard_pipeline d)) = Some (HttpOk 200 resp, sv)" by simp
  from settings_cut_off_provider [OF o'(1,2) rtranclp.rtrancl_refl this]
  obtain m' where "sv_provider sv = Some (Managed m')" "Available m' \<noteq> Some True" using p(2) by (auto simp: provider_names)
  then show ?thesis using o' p by blast
qed

lemma started_dashboard_safe_witness:
  "\<exists>op d bg. operator_start ex_operator_env ex_flags = Inr op \<and> op_dashboard op = Some (Inr (d, bg)) \<and>
     fresh_pipeline (dashboard_pipeline d) \<and> au_authToken (ds_auth d) = [] \<and> sv_historySize (ds_server d) = 100"
proof -
  obtain op d bg where o': "operator_start ex_operator_env ex_flags = Inr op" "op_dashboard op = Some (Inr (d, bg))"
    using ex_operator by blast
  then obtain m where "dashboard_start ex_operator_env (dashboard_of ex_operator_env ex_flags m) = Inr (d, bg)"
    using operator_start_dashboard by blast
  note s = dashboard_started [OF this]
  show ?thesis using o' started_dashboard_safe [OF o'] s
    by (auto simp: dashboard_of_rest dashboard_of_server ex_operator_env_def ex_getenv_def ex_flags_def default_flags_def)
qed

end
