(* ===== verification/Spec2Isabelle.thy ===== *)
theory Spec2Isabelle
  imports AI_Client AI_Enhancement Health_History Resource_Checkers Plugin_Checker Flux_Checkers Workload_Checker Causal
    Issue_States TeamHealth_Controller Plugin_Controller Enrichment_Queue Dashboard_Cache Chat_Flow Chat_Breaker Prediction_Fit Dashboard_Auth Dashboard_Views
    Context_Builder Console_Path Kubeassist_Health Operator
begin

text \<open>
  A model of the kube-assist operator (Go). The operator checks workloads, Flux objects, resources and plugin rules of
  Kubernetes namespaces, groups related issues, asks an AI provider for advice, and shows and reports the results.
  Paths below are relative to \<open>src/\<close>.

  \<^bold>\<open>Language and library.\<close> \<open>Go_Prelude\<close> (integers, slices, errors, time), \<open>Go_Text\<close> (strings, quoting, formatting),
  \<open>Go_Parse\<close> (numbers and durations), \<open>Go_Regexp\<close> (regular expressions as the library matches them) and \<open>Float64\<close>
  (IEEE doubles as rationals with rounding) model what the code uses of Go and its standard library. Strings are lists of bytes;
  maps are functions or association lists, and where the code ranges over a map the order is a parameter. Times are
  nanoseconds as integers.

  \<^bold>\<open>The AI side\<close> (\<open>internal/ai\<close>). \<open>AI_Types\<close>: requests and responses. \<open>Circuit_Breaker\<close>: the three-state breaker, its
  steps follow the diagram. \<open>Token_Budget\<close>: windowed budgets and the lock-free chat budget, whose interleavings refine a
  counter. \<open>Response_Cache\<close>: list and index refine an LRU list. \<open>AI_Provider\<close>: catalog, configuration, factory.
  \<open>AI_Client\<close>: prompts, the two HTTP clients, repair and parsing of answers. \<open>AI_Sanitizer\<close>: the eleven patterns; the
  sanitized request is shown free of what they match. \<open>AI_Manager\<close> composes breaker, budget and cache; the theorems say
  what every path of an analysis charges, and that one rate-limited probe leaves the breaker half open for good.

  \<^bold>\<open>Checkers\<close> (\<open>internal/checker\<close>). \<open>Checker_Core\<close>: issues, results, the registry with concurrent runs (the order of
  arrival is a parameter) and panics. \<open>Resource_Checkers\<close>, \<open>Workload_Checker\<close>, \<open>Flux_Checkers\<close>, \<open>Plugin_Checker\<close>: one theory
  per directory; object lists come from a source parameter. \<open>AI_Enhancement\<close>: collecting issues, sending them in groups
  and writing the advice back. Metadata maps that several issues share are addresses in a store, because the code
  mutates them in place. \<open>Context_Builder\<close>: events and logs for the prompt; each namespace is listed once, and what does not
  fit a number of bytes is cut, oldest first.

  \<^bold>\<open>Correlation and history.\<close> \<open>Causal\<close> (\<open>internal/causal\<close>): three strategies, deduplication, conversion; groups are well
  formed and their counts account for every event. \<open>Health_History\<close> (\<open>internal/history\<close>): the ring buffer refines a
  list. \<open>Prediction\<close> (\<open>internal/prediction\<close>): the trend of the score in IEEE doubles, with its bounds; \<open>Prediction_Fit\<close>:
  where nothing is rounded its line is the line of least squares.

  \<^bold>\<open>Controllers\<close> (\<open>internal/controller\<close>, \<open>api/v1alpha1\<close>, \<open>internal/scope\<close>, \<open>internal/notifier\<close>). \<open>Admission\<close>: the types,
  the three admission webhooks and the scope resolver. \<open>Request_Lifecycle\<close>: phases, conditions, TTL and the locale
  \<open>one_shot_controller\<close> of requests that run once; \<open>Troubleshoot_Controller\<close> and \<open>TeamHealth_Controller\<close> interpret it on
  their \<open>Reconcile\<close>. \<open>Plugin_Controller\<close>: plugins and the registry. \<open>Notifiers\<close>: payloads, delivery and the dialler that
  refuses private addresses; the locale \<open>notifier_contract\<close> is interpreted on all four notifiers. One reconcile is a
  function of the stored object and an environment that holds the answers of the API server, the clock and the
  iteration orders; histories are lists of environments.

  \<^bold>\<open>Dashboard\<close> (\<open>internal/dashboard\<close>). \<open>Dashboard_Types\<close>: the state of a cluster. \<open>Enrichment_Queue\<close>: the queue that
  serialises AI calls per cluster, with a transition system of its producer and worker. \<open>Issue_States\<close>: acknowledging and
  snoozing, and troubleshoot requests made from the dashboard. \<open>Dashboard_Results\<close>: conversion, scores, hashes, and
  the advice that is snapshot, put back, copied and patched. \<open>Dashboard_Pipeline\<close>: a check and the enrichment after it,
  stage by stage, and the AI settings. \<open>Dashboard_Flow\<close>: all checks (the first one is not guarded and may overlap with
  another), the worker and the users interleaved, with the invariant that what is shown comes from the last stored
  check and advice from an enrichment of the same issue. \<open>Dashboard_Cache\<close>: what commits leave in the cache, and that
  a check always completes. \<open>Dashboard_Views\<close>: what is shown: health, history, the event stream, trend and explanation.
  \<open>Dashboard_Auth\<close>: tokens, browser sessions, middlewares and routes; no request reaches the API without the token.

  \<^bold>\<open>Chat\<close> (\<open>internal/ai/agent.go\<close>, \<open>internal/dashboard/handlers_chat.go\<close>). \<open>Chat_Agent\<close>: the turn of the agent, its tools,
  budgets and both wire formats; \<open>Chat_Turns\<close>: the protocol of its events, what it charges, the history it leaves and what
  compaction breaks. \<open>Chat_Sessions\<close>: sessions and the request; \<open>Chat_Flow\<close>: requests of many users interleaved, with the
  turns of a session serialised; \<open>Chat_Breaker\<close>: what requests do to the breaker of the manager. The rounds of a turn are
  a function of an environment with the answers of the provider and of the tools.

  \<^bold>\<open>Several clusters\<close> (\<open>internal/console\<close>, \<open>internal/datasource\<close>). \<open>Go_Url\<close>: escaping in URLs. \<open>Console\<close>: the server in
  front of the clusters and the data source that talks to it; \<open>Console_Path\<close>: a request through both does what a client of
  the cluster does, except that field selectors and the data of secrets are lost.

  \<^bold>\<open>Command line\<close> (\<open>cmd/kubeassist\<close>). \<open>Kubeassist_Cli\<close>: the diagnosis of deployments, whose report hides failed
  diagnoses and does not depend on the order of the workers; \<open>Kubeassist_Health\<close>: the health command, composed with the
  scope resolver and the results of the controller.

  \<^bold>\<open>The process\<close> (\<open>cmd/main.go\<close>, \<open>internal/dashboard/server.go\<close>). \<open>Operator\<close>: from the flags to the running components, the options
  of the dashboard and what its start leaves behind; it composes the manager, the registry, the authentication, the pipeline and
  the chat, whose invariants hold from the states that it starts them in, and shows that a change of the AI settings loses the key.

  This theory holds the property that spans the workload checker and the correlation rules.

  \<^bold>\<open>Bounds and loops.\<close> Most loops are structural recursion; the dispatch loop of the queue is a
  \<open>partial_function (option)\<close>, with a theorem that it returns; regular expressions are matched by derivatives and need no
  fuel. 64-bit counters that count checks or tokens are integers: the theorems that depend on their size state it.

  \<^bold>\<open>Parameters.\<close> The API server, HTTP, JSON, CEL, X.509, label selectors, quantities, DNS and SHA-256 are arguments of the
  definitions that use them.

  \<^bold>\<open>Not modelled.\<close> Metrics, logging and recorder events; the controller manager; the HTTP servers themselves; generated deep copies; the web
  front end.
\<close>

section \<open>Workload issues and the cross-checker rules\<close>

lemma workload_types_match:
  assumes "iss_Type i \<in> set workload_types"
  shows "\<not> type_contains i ''OOM''" "\<not> type_contains i ''CRASHLOOP''" "\<not> type_contains i ''IMAGEPULL''"
    "\<not> type_contains i ''PENDING''" "\<not> type_contains i ''UNSCHEDULABLE''"
proof -
  have "\<forall>t \<in> set workload_types. \<not> str_contains (to_upper t) ''OOM'' \<and> \<not> str_contains (to_upper t) ''CRASHLOOP'' \<and>
      \<not> str_contains (to_upper t) ''IMAGEPULL'' \<and> \<not> str_contains (to_upper t) ''PENDING'' \<and>
      \<not> str_contains (to_upper t) ''UNSCHEDULABLE''"
    by (simp add: workload_types_def to_upper_def upper_char_def char_of_def)
  with assms show "\<not> type_contains i ''OOM''" "\<not> type_contains i ''CRASHLOOP''" "\<not> type_contains i ''IMAGEPULL''"
    "\<not> type_contains i ''PENDING''" "\<not> type_contains i ''UNSCHEDULABLE''"
    by (simp_all add: type_contains_def)
qed

lemma DefaultRules_names: "rule \<in> set DefaultRules \<Longrightarrow> rl \<in> set DefaultRules \<Longrightarrow> xr_Name rl = xr_Name rule \<Longrightarrow> rl = rule"
proof -
  have "distinct (map xr_Name DefaultRules)"
    by (simp add: DefaultRules_def oomQuotaRule_def crashImagePullRule_def fluxChainRule_def pvcWorkloadRule_def)
  then show "rule \<in> set DefaultRules \<Longrightarrow> rl \<in> set DefaultRules \<Longrightarrow> xr_Name rl = xr_Name rule \<Longrightarrow> rl = rule"
    unfolding distinct_map by (metis inj_onD)
qed

definition chain_input :: CorrelationInput where
  "chain_input =
     (let broken = (\<lambda>name res. Some \<lparr>cr_CheckerName = name, cr_Healthy = 0, cr_Issues = [ex_issue ''NotReady'' res], cr_Error = None\<rparr>)
      in \<lparr>ci_Results = [(''workloads'', Some (workload_Check (\<lambda>_. Inr (\<lambda>_. True)) failing_source)),
            (''gitrepositories'', broken ''gitrepositories'' ''gitrepository/app''),
            (''helmreleases'', broken ''helmreleases'' ''helmrelease/app'')],
          ci_Timestamp = 0\<rparr>)"

lemma chain_input_workloads: "cr_Issues (workload_Check (\<lambda>_. Inr (\<lambda>_. True)) failing_source) = []"
  by (simp add: workload_Check_def failing_source_def check_workloads_in_def check_kind_def check_workload_def
    filterPodsForWorkload_def tally_def diagnosePods_def no_result_def)

definition chain_events :: "TimelineEvent list" where
  "chain_events =
     [\<lparr>te_Timestamp = 0, te_Checker = ''gitrepositories'', te_Issue = ex_issue ''NotReady'' ''gitrepository/app''\<rparr>,
      \<lparr>te_Timestamp = 0, te_Checker = ''helmreleases'', te_Issue = ex_issue ''NotReady'' ''helmrelease/app''\<rparr>]"

lemma chain_flat: "flattenEvents (mo_rule ex_orders r (ci_Results chain_input)) 0 = chain_events"
  by (simp add: flattenEvents_def ex_orders_def chain_input_def Let_def chain_events_def chain_input_workloads)

lemma chain_tags:
  "tag_events oomQuotaRule chain_events = []" "tag_events crashImagePullRule chain_events = []"
  "tag_events pvcWorkloadRule chain_events = []"
  "map tg_tag (tag_events fluxChainRule chain_events) = [''flux-source'', ''flux-consumer'']"
  "map tg_ns (tag_events fluxChainRule chain_events) = [''ns'', ''ns'']"
  "list_all (\<lambda>te. tg_ns te = ''ns'' \<and> tg_rule te = ''flux-chain'') (tag_events fluxChainRule chain_events)"
  by (simp_all add: tag_events_def chain_events_def oomQuotaRule_def crashImagePullRule_def pvcWorkloadRule_def
    fluxChainRule_def ex_issue_def serious_def severity_defs scope_of_def)

lemma chain_input_fires: "applyCrossCheckerRules DefaultRules ex_orders chain_input \<noteq> []"
proof -
  let ?tes = "tag_events fluxChainRule chain_events"
  have ts: "ci_Timestamp chain_input = 0" by (simp add: chain_input_def Let_def)
  have tes: "concat (map (\<lambda>rule. tag_events rule
      (flattenEvents (mo_rule ex_orders (xr_Name rule) (ci_Results chain_input)) 0)) DefaultRules) = ?tes"
    unfolding chain_flat by (simp add: DefaultRules_def chain_tags)
  have "\<forall>te \<in> set ?tes. tg_ns te = ''ns'' \<and> tg_rule te = ''flux-chain''"
    using chain_tags(6) unfolding list_all_iff by blast
  moreover have "tg_tag ` set ?tes = {''flux-source'', ''flux-consumer''}"
    using arg_cong [OF chain_tags(4), of set] by simp
  moreover have "?tes \<noteq> []" using chain_tags(4) by auto
  ultimately have "apply_rule_in ?tes 0 ''ns'' fluxChainRule \<noteq> []"
    by (simp add: apply_rule_in_def Let_def fluxChainRule_def list_all_iff)
  moreover have "mo_rule_ns ex_orders (remdups (map tg_ns ?tes)) = [''ns'']"
    unfolding chain_tags(5) by (simp add: ex_orders_def)
  ultimately show ?thesis
    unfolding applyCrossCheckerRules_def ts tes Let_def by (simp add: DefaultRules_def)
qed

text \<open>C14. Three of the four built-in rules never fire on the program's own results: the workload checker puts
  the reason of a waiting or terminated container into the message and the metadata of an issue, and
  none of its issue types contains the words the rules look for, so every group that the rules build
  from a scan whose workload result comes from the workload checker is of the rule \<open>flux-chain\<close>.\<close>

theorem workload_rules_never_fire:
  fixes lib :: "'sel selector_lib"
  assumes "\<forall>r. (workload_CheckerName, Some r) \<in> set (ci_Results input) \<longrightarrow> (\<exists>src. r = workload_Check lib src)"
    and "orders_ok mo" and "g \<in> set (applyCrossCheckerRules DefaultRules mo input)"
  shows "cg_Rule g = ''flux-chain''"
proof -
  from rule_group_tags [OF assms(3,2)] obtain rule where rule: "rule \<in> set DefaultRules" "cg_Rule g = xr_Name rule"
    and tags: "\<forall>tag \<in> set (xr_RequiredTags rule). \<exists>e \<in> input_events input. xr_Match rule (te_Checker e) (te_Issue e) = Some tag"
    using DefaultRules_names by metis
  have quiet: "iss_Type (te_Issue e) \<in> set workload_types" if "e \<in> input_events input" "te_Checker e = ''workloads''" for e
    using that assms(1) workload_Check_types [where lib = lib]
    by (auto simp: input_events_def flattenEvents_set workload_CheckerName_def)
  note m = workload_types_match [OF quiet]
  from rule(1) consider "rule = oomQuotaRule" | "rule = crashImagePullRule" | "rule = fluxChainRule" | "rule = pvcWorkloadRule"
    by (auto simp: DefaultRules_def)
  then show ?thesis
  proof cases
    case 1
    with tags m show ?thesis by (fastforce simp: oomQuotaRule_def split: if_splits)
  next
    case 2
    with tags m show ?thesis by (fastforce simp: crashImagePullRule_def split: if_splits)
  next
    case 3
    with rule(2) show ?thesis by (simp add: fluxChainRule_def)
  next
    case 4
    with tags m show ?thesis by (fastforce simp: pvcWorkloadRule_def split: if_splits)
  qed
qed

theorem workload_rules_never_fire_witness:
  "cg_Rule (hd (applyCrossCheckerRules DefaultRules ex_orders chain_input)) = ''flux-chain''"
  using workload_rules_never_fire [where lib = "\<lambda>_. Inr (\<lambda>_. True)", OF _ ex_orders_ok hd_in_set [OF chain_input_fires]]
  by (fastforce simp: chain_input_def Let_def workload_CheckerName_def)

end
